(* ===== verification/Prelude.thy ===== *)
theory Prelude
  imports Main "HOL-Library.Multiset"
begin

text \<open>
  Shared vocabulary of the development: the collections of rewrite rules that the component
  theories feed, the interface of a \<^emph>\<open>claim join\<close> (the "conservative merge" that the session
  ledger uses on every layer of its state), and the list facts the components share.
\<close>

section \<open>Collections\<close>

named_theorems state_defs "unfoldings of the session-state predicates and updates"
named_theorems effect_defs "unfoldings of the statement-effect accessors"
named_theorems policy_defs "unfoldings of the session-policy decisions"
named_theorems claim_le "introduction rules for the conservative order on claims"

section \<open>Conservative merging as a bounded join\<close>

text \<open>
  The session ledger only ever combines two beliefs about a session by taking the worse of both.
  The interface says what every layer promises: the merge is a join with a least element, and the
  order it induces is the one in which \<open>le x y\<close> reads "\<open>y\<close> claims at least what \<open>x\<close> claims".
\<close>

locale claim_join =
  fixes join :: "'a \<Rightarrow> 'a \<Rightarrow> 'a"
    and le :: "'a \<Rightarrow> 'a \<Rightarrow> bool"
    and bot :: 'a
  assumes join_idem: "join x x = x"
    and join_comm: "join x y = join y x"
    and join_assoc: "join (join x y) z = join x (join y z)"
    and join_bot: "join bot x = x"
    and le_iff: "le x y \<longleftrightarrow> join x y = y"
begin

lemma join_left_comm: "join x (join y z) = join y (join x z)"
  by (metis join_assoc join_comm)

lemmas join_ac = join_assoc join_comm join_left_comm

lemma le_refl: "le x x"
  by (simp add: le_iff join_idem)

lemma le_trans: "le x y \<Longrightarrow> le y z \<Longrightarrow> le x z"
  by (metis join_assoc le_iff)

lemma le_antisym: "le x y \<Longrightarrow> le y x \<Longrightarrow> x = y"
  by (metis join_comm le_iff)

lemma bot_least: "le bot x"
  by (simp add: le_iff join_bot)

lemma upper1: "le x (join x y)"
  by (metis join_assoc join_idem le_iff)

lemma upper2: "le y (join x y)"
  by (metis join_comm upper1)

lemma least: "le x z \<Longrightarrow> le y z \<Longrightarrow> le (join x y) z"
  by (simp add: le_iff join_assoc)

lemma join_mono: "le x x' \<Longrightarrow> le y y' \<Longrightarrow> le (join x y) (join x' y')"
  by (meson le_trans least upper1 upper2)

lemma join_least_upper_bound:
  "le x (join x y) \<and> le y (join x y) \<and> (\<forall>z. le x z \<and> le y z \<longrightarrow> le (join x y) z)"
  using upper1 upper2 least by blast

text \<open>Merging a whole history of beliefs keeps every one of them.\<close>

lemma fold_join_start: "le x (fold join ys x)"
proof (induction ys arbitrary: x)
  case Nil
  show ?case by (simp add: le_refl)
next
  case (Cons y ys)
  have "le x (join y x)" by (rule upper2)
  moreover have "le (join y x) (fold join ys (join y x))" by (rule Cons.IH)
  ultimately show ?case by (simp add: le_trans)
qed

lemma fold_join_member: "y \<in> set ys \<Longrightarrow> le y (fold join ys x)"
proof (induction ys arbitrary: x)
  case Nil
  then show ?case by simp
next
  case (Cons z ys)
  show ?case
  proof (cases "y = z")
    case True
    have "le y (join y x)" by (rule upper1)
    then show ?thesis using True fold_join_start le_trans by auto
  next
    case False
    with Cons show ?thesis by simp
  qed
qed

end

section \<open>Folds whose steps commute\<close>

text \<open>
  A fold that cannot read the order of its input: the interface of the unit fold, where a merged
  answer must not depend on the order in which the statements of a unit were met.
\<close>

locale order_blind_fold =
  fixes step :: "'b \<Rightarrow> 'a \<Rightarrow> 'b"
  assumes step_swap: "step (step b x) y = step (step b y) x"
begin

lemma foldl_step_snoc: "foldl step (step b x) ys = step (foldl step b ys) x"
  by (induction ys arbitrary: b) (simp_all add: step_swap)

lemma foldl_perm: "mset xs = mset ys \<Longrightarrow> foldl step b xs = foldl step b ys"
proof (induction xs arbitrary: ys b)
  case Nil
  then show ?case by simp
next
  case (Cons x xs)
  from Cons.prems have "x \<in> set ys"
    by (metis list.set_intros(1) set_mset_mset)
  then obtain us vs where ys: "ys = us @ x # vs"
    by (meson split_list)
  with Cons.prems have "mset xs = mset (us @ vs)" by simp
  then have "foldl step (step b x) xs = foldl step (step b x) (us @ vs)"
    by (rule Cons.IH)
  also have "\<dots> = foldl step b ys"
    by (simp add: ys foldl_step_snoc)
  finally show ?case by simp
qed

end

section \<open>Simulation of one fold by another\<close>

text \<open>
  A run is a fold of a step over events. When every step keeps an invariant of the detailed state
  and a relation to an abstract state whose own step reads the same event, every run does.
\<close>

locale run_invariant =
  fixes step :: "'b \<Rightarrow> 'e \<Rightarrow> 'b"
    and inv :: "'b \<Rightarrow> bool"
  assumes inv_step: "inv b \<Longrightarrow> inv (step b e)"
begin

lemma run_inv: "inv b \<Longrightarrow> inv (foldl step b es)"
  by (induction es arbitrary: b) (simp_all add: inv_step)

end

locale run_simulation = run_invariant step inv
  for step :: "'b \<Rightarrow> 'e \<Rightarrow> 'b" and inv :: "'b \<Rightarrow> bool" +
  fixes astep :: "'a \<Rightarrow> 'e \<Rightarrow> 'a"
    and rel :: "'b \<Rightarrow> 'a \<Rightarrow> bool"
  assumes rel_step: "inv b \<Longrightarrow> rel b a \<Longrightarrow> rel (step b e) (astep a e)"
begin

lemma run_rel: "inv b \<Longrightarrow> rel b a \<Longrightarrow> rel (foldl step b es) (foldl astep a es)"
  by (induction es arbitrary: b a) (simp_all add: inv_step rel_step)

end

end
