(* ===== verification/Session_State.thy ===== *)
theory Session_State
  imports Prelude
begin

text \<open>
  What a query tab believes about the database session it holds
  (\<^verbatim>\<open>src/db/transaction.rs\<close>): the transaction claim, the residue a session carries that a pool
  hand-out would not restore, the session locks, and the capabilities the rest of the application
  derives from them. Every \<^verbatim>\<open>struct\<close> is a record with the source's field names, every method is a
  definition whose name carries its type as a prefix (\<open>tss\<close> for TransactionSessionState, \<open>residue\<close>,
  \<open>lock\<close> and \<open>retained\<close>). The lemmas show that the "conservative merge" of each layer is the join
  of one order on claims, and that the derived capabilities are monotone in it.
\<close>

section \<open>Data\<close>

datatype DatabaseType = Oracle | MySQL | MariaDB

datatype TransactionIsolation =
  DefaultIsolation | ReadUncommitted | ReadCommitted | RepeatableRead | Serializable

datatype TransactionAccessMode = ReadWrite | ReadOnly

record TransactionMode =
  isolation :: TransactionIsolation
  access_mode :: TransactionAccessMode

definition default_transaction_mode :: TransactionMode where
  "default_transaction_mode = \<lparr>isolation = DefaultIsolation, access_mode = ReadWrite\<rparr>"

datatype TransactionSessionState =
  Clean | MaybeDirty | BlockedDirty | DecisionRequired | InvalidSession

record SessionResidueState =
  may_have_temporary_table :: bool
  may_have_prepared_statement :: bool
  may_have_user_variable :: bool
  may_have_session_setting :: bool
  may_have_statement_diagnostics :: bool
  may_have_next_transaction_mode_override :: bool
  may_have_transaction_mode_override :: bool
  may_have_unknown_session_state :: bool

record SessionLockState =
  may_hold_table_lock :: bool
  may_hold_flush_table_lock :: bool
  may_hold_backup_lock :: bool
  may_hold_named_lock :: bool

record RetainedSessionState =
  transaction_state :: TransactionSessionState
  session_residue_state :: SessionResidueState
  lock_state :: SessionLockState

datatype TransactionOptionKind = AutoCommitOption | TransactionModeOption

record TransactionClaim =
  is_a_guess :: bool
  may_be_invisible_to_a_write_probe :: bool

datatype ServerTransactionAnswer =
  Unanswered | TransactionOpen | NoTransaction | NoWriteTransaction

record RetainedSessionCapabilities =
  can_commit_or_rollback :: bool
  can_discard_physical :: bool
  discard_after_transaction_resolution :: bool
  can_change_transaction_options :: bool
  cap_blocks_execution :: bool

datatype RetainedSessionOutcome =
  Retain RetainedSessionState | DiscardPhysical RetainedSessionState

datatype RetainedSessionErrorPolicy =
  RestoreIfReusableAndRequiresResolution | DiscardPhysicalPolicy

datatype RetainedSessionResolutionAction = CommitAction | RollbackAction | DiscardPhysicalAction

section \<open>The transaction claim\<close>

fun conservative_rank :: "TransactionSessionState \<Rightarrow> nat" where
  "conservative_rank Clean = 0"
| "conservative_rank MaybeDirty = 1"
| "conservative_rank BlockedDirty = 2"
| "conservative_rank DecisionRequired = 3"
| "conservative_rank InvalidSession = 4"

definition tss_conservative_merge ::
    "TransactionSessionState \<Rightarrow> TransactionSessionState \<Rightarrow> TransactionSessionState" where
  "tss_conservative_merge self other =
     (if conservative_rank self < conservative_rank other then other else self)"

definition from_flags :: "bool \<Rightarrow> bool \<Rightarrow> TransactionSessionState" where
  "from_flags uncommitted_work requires_decision =
     (if requires_decision then DecisionRequired
      else if uncommitted_work then MaybeDirty else Clean)"

definition tss_may_have_uncommitted_work :: "TransactionSessionState \<Rightarrow> bool" where
  [state_defs]: "tss_may_have_uncommitted_work s \<longleftrightarrow>
     s \<in> {MaybeDirty, BlockedDirty, DecisionRequired, InvalidSession}"

definition tss_requires_transaction_decision :: "TransactionSessionState \<Rightarrow> bool" where
  [state_defs]: "tss_requires_transaction_decision s \<longleftrightarrow> s \<in> {BlockedDirty, DecisionRequired}"

definition tss_requires_resolution :: "TransactionSessionState \<Rightarrow> bool" where
  [state_defs]: "tss_requires_resolution s \<longleftrightarrow> s \<noteq> Clean"

definition tss_blocks_execution :: "TransactionSessionState \<Rightarrow> bool" where
  [state_defs]: "tss_blocks_execution s \<longleftrightarrow> s \<in> {BlockedDirty, DecisionRequired, InvalidSession}"

definition tss_allows_transaction_option_change :: "TransactionSessionState \<Rightarrow> bool" where
  [state_defs]: "tss_allows_transaction_option_change s \<longleftrightarrow> s = Clean"

fun tss_label :: "TransactionSessionState \<Rightarrow> string" where
  "tss_label Clean = ''clean''"
| "tss_label MaybeDirty = ''maybe dirty''"
| "tss_label BlockedDirty = ''dirty session blocked''"
| "tss_label DecisionRequired = ''decision required''"
| "tss_label InvalidSession = ''invalid session''"

fun option_kind_label :: "TransactionOptionKind \<Rightarrow> string" where
  "option_kind_label AutoCommitOption = ''auto-commit''"
| "option_kind_label TransactionModeOption = ''transaction mode''"

text \<open>The rank is a linear order on the claims; the merge is its maximum.\<close>

instantiation TransactionSessionState :: linorder
begin

definition less_eq_TransactionSessionState ::
    "TransactionSessionState \<Rightarrow> TransactionSessionState \<Rightarrow> bool" where
  "less_eq_TransactionSessionState s t \<longleftrightarrow> conservative_rank s \<le> conservative_rank t"

definition less_TransactionSessionState ::
    "TransactionSessionState \<Rightarrow> TransactionSessionState \<Rightarrow> bool" where
  "less_TransactionSessionState s t \<longleftrightarrow> conservative_rank s < conservative_rank t"

instance
proof
  fix s t :: TransactionSessionState
  show "s \<le> t \<Longrightarrow> t \<le> s \<Longrightarrow> s = t"
    by (cases s; cases t) (simp_all add: less_eq_TransactionSessionState_def)
qed (auto simp: less_eq_TransactionSessionState_def less_TransactionSessionState_def)

end

lemma tss_merge_max: "tss_conservative_merge s t = max s t"
  by (cases s; cases t)
    (simp_all add: tss_conservative_merge_def max_def less_eq_TransactionSessionState_def)

lemma tss_Clean_least [simp, claim_le]: "Clean \<le> s"
  by (simp add: less_eq_TransactionSessionState_def)

lemma tss_le_Invalid [simp, claim_le]: "s \<le> InvalidSession"
  by (cases s) (simp_all add: less_eq_TransactionSessionState_def)

interpretation tss: claim_join tss_conservative_merge "(\<le>)" Clean
  by unfold_locales (auto simp: tss_merge_max max.assoc max.commute max_absorb2 max_def intro: antisym)

lemma tss_may_have_uncommitted_work_iff [simp]: "tss_may_have_uncommitted_work s \<longleftrightarrow> s \<noteq> Clean"
  by (cases s) (simp_all add: tss_may_have_uncommitted_work_def)

lemma from_flags_cases [simp]:
  "from_flags w True = DecisionRequired"
  "from_flags True False = MaybeDirty"
  "from_flags False False = Clean"
  by (simp_all add: from_flags_def)

lemma from_flags_iffs [simp]:
  "from_flags w d = Clean \<longleftrightarrow> \<not> w \<and> \<not> d"
  "from_flags w d = MaybeDirty \<longleftrightarrow> w \<and> \<not> d"
  "from_flags w d = DecisionRequired \<longleftrightarrow> d"
  "from_flags w d \<noteq> InvalidSession"
  "from_flags w d \<noteq> BlockedDirty"
  by (auto simp: from_flags_def)

lemma from_flags_le_iffs [simp]:
  "from_flags w d \<le> from_flags w' d' \<longleftrightarrow> (w \<longrightarrow> w' \<or> d') \<and> (d \<longrightarrow> d')"
  "from_flags w d \<le> DecisionRequired"
  "from_flags w d \<le> MaybeDirty \<longleftrightarrow> \<not> d"
  "from_flags w d \<le> Clean \<longleftrightarrow> \<not> w \<and> \<not> d"
  "MaybeDirty \<le> from_flags w d \<longleftrightarrow> w \<or> d"
  "DecisionRequired \<le> from_flags w d \<longleftrightarrow> d"
  "MaybeDirty \<le> DecisionRequired"
  "\<not> DecisionRequired \<le> MaybeDirty"
  by (auto simp: from_flags_def less_eq_TransactionSessionState_def)

section \<open>Session residue\<close>

definition residue_default :: SessionResidueState where
  [state_defs]: "residue_default =
     \<lparr>may_have_temporary_table = False, may_have_prepared_statement = False,
      may_have_user_variable = False, may_have_session_setting = False,
      may_have_statement_diagnostics = False,
      may_have_next_transaction_mode_override = False,
      may_have_transaction_mode_override = False,
      may_have_unknown_session_state = False\<rparr>"

definition residue_merged_with ::
    "SessionResidueState \<Rightarrow> SessionResidueState \<Rightarrow> SessionResidueState" where
  [state_defs]: "residue_merged_with self other =
     \<lparr>may_have_temporary_table =
        may_have_temporary_table self \<or> may_have_temporary_table other,
      may_have_prepared_statement =
        may_have_prepared_statement self \<or> may_have_prepared_statement other,
      may_have_user_variable =
        may_have_user_variable self \<or> may_have_user_variable other,
      may_have_session_setting =
        may_have_session_setting self \<or> may_have_session_setting other,
      may_have_statement_diagnostics =
        may_have_statement_diagnostics self \<or> may_have_statement_diagnostics other,
      may_have_next_transaction_mode_override =
        may_have_next_transaction_mode_override self
          \<or> may_have_next_transaction_mode_override other,
      may_have_transaction_mode_override =
        may_have_transaction_mode_override self \<or> may_have_transaction_mode_override other,
      may_have_unknown_session_state =
        may_have_unknown_session_state self \<or> may_have_unknown_session_state other\<rparr>"

definition residue_may_have_untracked_session_state :: "SessionResidueState \<Rightarrow> bool" where
  [state_defs]: "residue_may_have_untracked_session_state s \<longleftrightarrow>
     may_have_temporary_table s \<or> may_have_prepared_statement s \<or> may_have_user_variable s
     \<or> may_have_session_setting s \<or> may_have_statement_diagnostics s
     \<or> may_have_unknown_session_state s"

definition residue_may_have_transaction_mode_override :: "SessionResidueState \<Rightarrow> bool" where
  [state_defs]: "residue_may_have_transaction_mode_override s \<longleftrightarrow>
     may_have_next_transaction_mode_override s \<or> may_have_transaction_mode_override s"

definition residue_has_only_next_transaction_mode_override :: "SessionResidueState \<Rightarrow> bool" where
  [state_defs]: "residue_has_only_next_transaction_mode_override s \<longleftrightarrow>
     may_have_next_transaction_mode_override s \<and> \<not> may_have_transaction_mode_override s
     \<and> \<not> residue_may_have_untracked_session_state s"

definition residue_requires_resolution :: "SessionResidueState \<Rightarrow> bool" where
  [state_defs]: "residue_requires_resolution s \<longleftrightarrow> residue_may_have_untracked_session_state s"

definition residue_with_untracked_session_state ::
    "SessionResidueState \<Rightarrow> SessionResidueState" where
  [state_defs]: "residue_with_untracked_session_state s = s\<lparr>may_have_unknown_session_state := True\<rparr>"

definition residue_requires_physical_session_preservation :: "SessionResidueState \<Rightarrow> bool" where
  [state_defs]: "residue_requires_physical_session_preservation s \<longleftrightarrow>
     residue_requires_resolution s \<or> may_have_next_transaction_mode_override s
     \<or> may_have_transaction_mode_override s"

definition residue_with_transaction_mode_override_cleared ::
    "SessionResidueState \<Rightarrow> SessionResidueState" where
  [state_defs]: "residue_with_transaction_mode_override_cleared s =
     s\<lparr>may_have_next_transaction_mode_override := False,
       may_have_transaction_mode_override := False\<rparr>"

definition residue_with_session_transaction_mode_override_adopted ::
    "SessionResidueState \<Rightarrow> SessionResidueState" where
  [state_defs]: "residue_with_session_transaction_mode_override_adopted s =
     s\<lparr>may_have_transaction_mode_override := False\<rparr>"

definition residue_with_statement_diagnostics_cleared ::
    "SessionResidueState \<Rightarrow> SessionResidueState" where
  [state_defs]: "residue_with_statement_diagnostics_cleared s =
     s\<lparr>may_have_statement_diagnostics := False\<rparr>"

definition residue_le :: "SessionResidueState \<Rightarrow> SessionResidueState \<Rightarrow> bool" where
  "residue_le s t \<longleftrightarrow> residue_merged_with s t = t"

lemma residue_le_fields:
  "residue_le s t \<longleftrightarrow>
     (may_have_temporary_table s \<longrightarrow> may_have_temporary_table t)
     \<and> (may_have_prepared_statement s \<longrightarrow> may_have_prepared_statement t)
     \<and> (may_have_user_variable s \<longrightarrow> may_have_user_variable t)
     \<and> (may_have_session_setting s \<longrightarrow> may_have_session_setting t)
     \<and> (may_have_statement_diagnostics s \<longrightarrow> may_have_statement_diagnostics t)
     \<and> (may_have_next_transaction_mode_override s \<longrightarrow> may_have_next_transaction_mode_override t)
     \<and> (may_have_transaction_mode_override s \<longrightarrow> may_have_transaction_mode_override t)
     \<and> (may_have_unknown_session_state s \<longrightarrow> may_have_unknown_session_state t)"
  by (cases s; cases t) (auto simp: residue_le_def residue_merged_with_def)

interpretation residue: claim_join residue_merged_with residue_le residue_default
  by unfold_locales (auto simp: residue_merged_with_def residue_default_def residue_le_def)

section \<open>Session locks\<close>

definition lock_default :: SessionLockState where
  [state_defs]: "lock_default =
     \<lparr>may_hold_table_lock = False, may_hold_flush_table_lock = False,
      may_hold_backup_lock = False, may_hold_named_lock = False\<rparr>"

definition new_with_session_locks :: "bool \<Rightarrow> bool \<Rightarrow> bool \<Rightarrow> bool \<Rightarrow> SessionLockState" where
  [state_defs]: "new_with_session_locks t f b n =
     \<lparr>may_hold_table_lock = t, may_hold_flush_table_lock = f,
      may_hold_backup_lock = b, may_hold_named_lock = n\<rparr>"

definition lock_may_hold_session_lock :: "SessionLockState \<Rightarrow> bool" where
  [state_defs]: "lock_may_hold_session_lock s \<longleftrightarrow>
     may_hold_table_lock s \<or> may_hold_flush_table_lock s
     \<or> may_hold_backup_lock s \<or> may_hold_named_lock s"

definition lock_may_hold_table_lock :: "SessionLockState \<Rightarrow> bool" where
  [state_defs]: "lock_may_hold_table_lock s \<longleftrightarrow> may_hold_table_lock s \<or> may_hold_flush_table_lock s"

definition lock_requires_resolution :: "SessionLockState \<Rightarrow> bool" where
  [state_defs]: "lock_requires_resolution s \<longleftrightarrow> lock_may_hold_session_lock s"

definition lock_merged_with :: "SessionLockState \<Rightarrow> SessionLockState \<Rightarrow> SessionLockState" where
  [state_defs]: "lock_merged_with self other =
     \<lparr>may_hold_table_lock = may_hold_table_lock self \<or> may_hold_table_lock other,
      may_hold_flush_table_lock =
        may_hold_flush_table_lock self \<or> may_hold_flush_table_lock other,
      may_hold_backup_lock = may_hold_backup_lock self \<or> may_hold_backup_lock other,
      may_hold_named_lock = may_hold_named_lock self \<or> may_hold_named_lock other\<rparr>"

definition lock_le :: "SessionLockState \<Rightarrow> SessionLockState \<Rightarrow> bool" where
  "lock_le s t \<longleftrightarrow> lock_merged_with s t = t"

lemma lock_le_fields:
  "lock_le s t \<longleftrightarrow>
     (may_hold_table_lock s \<longrightarrow> may_hold_table_lock t)
     \<and> (may_hold_flush_table_lock s \<longrightarrow> may_hold_flush_table_lock t)
     \<and> (may_hold_backup_lock s \<longrightarrow> may_hold_backup_lock t)
     \<and> (may_hold_named_lock s \<longrightarrow> may_hold_named_lock t)"
  by (cases s; cases t) (auto simp: lock_le_def lock_merged_with_def)

interpretation lock: claim_join lock_merged_with lock_le lock_default
  by unfold_locales (auto simp: lock_merged_with_def lock_default_def lock_le_def)

section \<open>The retained session\<close>

definition retained_default :: RetainedSessionState where
  [state_defs]: "retained_default =
     \<lparr>transaction_state = Clean, session_residue_state = residue_default,
      lock_state = lock_default\<rparr>"

definition from_transaction_state :: "TransactionSessionState \<Rightarrow> RetainedSessionState" where
  [state_defs]: "from_transaction_state ts = retained_default\<lparr>transaction_state := ts\<rparr>"

definition from_transaction_flags :: "bool \<Rightarrow> bool \<Rightarrow> RetainedSessionState" where
  [state_defs]: "from_transaction_flags uncommitted_work requires_decision =
     from_transaction_state (from_flags uncommitted_work requires_decision)"

definition from_parts ::
    "TransactionSessionState \<Rightarrow> SessionResidueState \<Rightarrow> SessionLockState \<Rightarrow> RetainedSessionState" where
  [state_defs]: "from_parts ts residue locks =
     \<lparr>transaction_state = ts, session_residue_state = residue, lock_state = locks\<rparr>"

definition with_transaction_state ::
    "RetainedSessionState \<Rightarrow> TransactionSessionState \<Rightarrow> RetainedSessionState" where
  [state_defs]: "with_transaction_state s ts = s\<lparr>transaction_state := ts\<rparr>"

definition retained_may_have_uncommitted_work :: "RetainedSessionState \<Rightarrow> bool" where
  [state_defs]: "retained_may_have_uncommitted_work s \<longleftrightarrow>
     tss_may_have_uncommitted_work (transaction_state s)"

definition retained_may_have_untracked_session_state :: "RetainedSessionState \<Rightarrow> bool" where
  [state_defs]: "retained_may_have_untracked_session_state s \<longleftrightarrow>
     residue_may_have_untracked_session_state (session_residue_state s)"

definition retained_may_hold_session_lock :: "RetainedSessionState \<Rightarrow> bool" where
  [state_defs]: "retained_may_hold_session_lock s \<longleftrightarrow> lock_may_hold_session_lock (lock_state s)"

definition retained_may_hold_table_lock :: "RetainedSessionState \<Rightarrow> bool" where
  [state_defs]: "retained_may_hold_table_lock s \<longleftrightarrow> lock_may_hold_table_lock (lock_state s)"

definition retained_may_hold_named_lock :: "RetainedSessionState \<Rightarrow> bool" where
  [state_defs]: "retained_may_hold_named_lock s \<longleftrightarrow> may_hold_named_lock (lock_state s)"

definition retained_requires_transaction_decision :: "RetainedSessionState \<Rightarrow> bool" where
  [state_defs]: "retained_requires_transaction_decision s \<longleftrightarrow>
     tss_requires_transaction_decision (transaction_state s)"

definition retained_requires_resolution :: "RetainedSessionState \<Rightarrow> bool" where
  [state_defs]: "retained_requires_resolution s \<longleftrightarrow>
     tss_requires_resolution (transaction_state s)
     \<or> residue_requires_resolution (session_residue_state s)
     \<or> lock_requires_resolution (lock_state s)"

definition has_session_residue_or_lock :: "RetainedSessionState \<Rightarrow> bool" where
  [state_defs]: "has_session_residue_or_lock s \<longleftrightarrow>
     retained_may_have_untracked_session_state s \<or> retained_may_hold_session_lock s"

definition retained_may_have_transaction_mode_override :: "RetainedSessionState \<Rightarrow> bool" where
  [state_defs]: "retained_may_have_transaction_mode_override s \<longleftrightarrow>
     residue_may_have_transaction_mode_override (session_residue_state s)"

definition retained_may_have_unknown_session_state :: "RetainedSessionState \<Rightarrow> bool" where
  [state_defs]: "retained_may_have_unknown_session_state s \<longleftrightarrow>
     may_have_unknown_session_state (session_residue_state s)"

definition capabilities :: "RetainedSessionState \<Rightarrow> RetainedSessionCapabilities" where
  [state_defs]: "capabilities s =
     \<lparr>can_commit_or_rollback =
        transaction_state s \<in> {MaybeDirty, BlockedDirty, DecisionRequired},
      can_discard_physical = True,
      discard_after_transaction_resolution =
        has_session_residue_or_lock s \<or> retained_may_have_transaction_mode_override s,
      can_change_transaction_options =
        tss_allows_transaction_option_change (transaction_state s)
        \<and> \<not> retained_may_hold_session_lock s
        \<and> \<not> retained_may_have_transaction_mode_override s
        \<and> \<not> retained_may_have_unknown_session_state s,
      cap_blocks_execution =
        tss_blocks_execution (transaction_state s)
        \<or> retained_may_hold_session_lock s
        \<or> retained_may_have_transaction_mode_override s\<rparr>"

definition retained_blocks_execution :: "RetainedSessionState \<Rightarrow> bool" where
  [state_defs]: "retained_blocks_execution s \<longleftrightarrow> cap_blocks_execution (capabilities s)"

definition retained_allows_transaction_option_change :: "RetainedSessionState \<Rightarrow> bool" where
  [state_defs]: "retained_allows_transaction_option_change s \<longleftrightarrow>
     can_change_transaction_options (capabilities s)"

definition transaction_resolution_action_allowed :: "RetainedSessionState \<Rightarrow> bool" where
  [state_defs]: "transaction_resolution_action_allowed s \<longleftrightarrow>
     can_commit_or_rollback (capabilities s)"

definition allows_transaction_mode_replacement :: "RetainedSessionState \<Rightarrow> bool" where
  [state_defs]: "allows_transaction_mode_replacement s \<longleftrightarrow>
     tss_allows_transaction_option_change (transaction_state s)
     \<and> \<not> retained_may_hold_session_lock s \<and> \<not> retained_may_have_unknown_session_state s"

definition retained_has_only_next_transaction_mode_override :: "RetainedSessionState \<Rightarrow> bool" where
  [state_defs]: "retained_has_only_next_transaction_mode_override s \<longleftrightarrow>
     transaction_state s = Clean
     \<and> residue_has_only_next_transaction_mode_override (session_residue_state s)
     \<and> \<not> lock_may_hold_session_lock (lock_state s)"

definition retained_with_untracked_session_state ::
    "RetainedSessionState \<Rightarrow> RetainedSessionState" where
  [state_defs]: "retained_with_untracked_session_state s =
     s\<lparr>session_residue_state := residue_with_untracked_session_state (session_residue_state s)\<rparr>"

definition requires_physical_session_preservation :: "RetainedSessionState \<Rightarrow> bool" where
  [state_defs]: "requires_physical_session_preservation s \<longleftrightarrow>
     retained_requires_resolution s
     \<or> residue_requires_physical_session_preservation (session_residue_state s)"

definition retained_with_transaction_mode_override_cleared ::
    "RetainedSessionState \<Rightarrow> RetainedSessionState" where
  [state_defs]: "retained_with_transaction_mode_override_cleared s =
     s\<lparr>session_residue_state :=
         residue_with_transaction_mode_override_cleared (session_residue_state s)\<rparr>"

definition retained_with_session_transaction_mode_override_adopted ::
    "RetainedSessionState \<Rightarrow> RetainedSessionState" where
  [state_defs]: "retained_with_session_transaction_mode_override_adopted s =
     s\<lparr>session_residue_state :=
         residue_with_session_transaction_mode_override_adopted (session_residue_state s)\<rparr>"

definition retained_conservative_merge ::
    "RetainedSessionState \<Rightarrow> RetainedSessionState \<Rightarrow> RetainedSessionState" where
  "retained_conservative_merge self other =
     \<lparr>transaction_state =
        tss_conservative_merge (transaction_state self) (transaction_state other),
      session_residue_state =
        residue_merged_with (session_residue_state self) (session_residue_state other),
      lock_state = lock_merged_with (lock_state self) (lock_state other)\<rparr>"

definition summary_transaction_state :: "RetainedSessionState \<Rightarrow> TransactionSessionState" where
  "summary_transaction_state s =
     (if tss_requires_resolution (transaction_state s) then transaction_state s
      else if retained_may_hold_session_lock s \<or> retained_may_have_untracked_session_state s
        \<or> retained_may_have_transaction_mode_override s then MaybeDirty
      else Clean)"

definition retained_label :: "RetainedSessionState \<Rightarrow> string" where
  "retained_label s =
     (if tss_requires_resolution (transaction_state s) then tss_label (transaction_state s)
      else if retained_may_hold_session_lock s then ''session lock''
      else if retained_may_have_untracked_session_state s then ''session state''
      else if retained_may_have_transaction_mode_override s then ''transaction mode''
      else tss_label (transaction_state s))"

definition blocked_option_change_remedy :: "RetainedSessionState \<Rightarrow> string" where
  "blocked_option_change_remedy s =
     (if transaction_resolution_action_allowed s
      then ''Commit, rollback, or discard it first.''
      else ''A commit or rollback cannot clear it; discard the session (closing the tab does) first.'')"

section \<open>Settling a claim with the server's answer\<close>

definition from_oracle_probe :: "bool \<Rightarrow> ServerTransactionAnswer" where
  "from_oracle_probe transaction_open =
     (if transaction_open then TransactionOpen else NoWriteTransaction)"

fun proves_no_transaction_for :: "ServerTransactionAnswer \<Rightarrow> TransactionClaim \<Rightarrow> bool" where
  "proves_no_transaction_for Unanswered claim = False"
| "proves_no_transaction_for TransactionOpen claim = False"
| "proves_no_transaction_for NoTransaction claim = True"
| "proves_no_transaction_for NoWriteTransaction claim =
     (\<not> may_be_invisible_to_a_write_probe claim)"

definition with_transaction_claim_settled_by_server ::
    "RetainedSessionState \<Rightarrow> TransactionClaim \<Rightarrow> ServerTransactionAnswer \<Rightarrow> RetainedSessionState" where
  "with_transaction_claim_settled_by_server s claim answer =
     (if \<not> is_a_guess claim \<or> \<not> proves_no_transaction_for answer claim then s
      else if transaction_state s \<noteq> MaybeDirty then s
      else with_transaction_state s Clean)"

section \<open>Resolving or discarding a retained session\<close>

fun retained_session_resolution_action_allowed ::
    "RetainedSessionState \<Rightarrow> RetainedSessionResolutionAction \<Rightarrow> bool" where
  "retained_session_resolution_action_allowed s CommitAction =
     can_commit_or_rollback (capabilities s)"
| "retained_session_resolution_action_allowed s RollbackAction =
     can_commit_or_rollback (capabilities s)"
| "retained_session_resolution_action_allowed s DiscardPhysicalAction =
     can_discard_physical (capabilities s)"

definition retained_session_transaction_resolution_unavailable_message ::
    "RetainedSessionState \<Rightarrow> string" where
  "retained_session_transaction_resolution_unavailable_message s =
     ''A '' @ retained_label s
     @ '' DB session cannot be resolved with commit/rollback. ''
     @ ''Discard the session or run an explicit cleanup first.''"

definition ensure_retained_session_resolution_action_allowed ::
    "RetainedSessionState \<Rightarrow> RetainedSessionResolutionAction \<Rightarrow> string + unit" where
  "ensure_retained_session_resolution_action_allowed s action =
     (if retained_session_resolution_action_allowed s action then Inr ()
      else Inl (retained_session_transaction_resolution_unavailable_message s))"

fun retained_session_transaction_action_allowed ::
    "RetainedSessionState \<Rightarrow> RetainedSessionResolutionAction \<Rightarrow> bool" where
  "retained_session_transaction_action_allowed s CommitAction =
     (transaction_state s \<noteq> InvalidSession)"
| "retained_session_transaction_action_allowed s RollbackAction =
     (transaction_state s \<noteq> InvalidSession)"
| "retained_session_transaction_action_allowed s DiscardPhysicalAction =
     can_discard_physical (capabilities s)"

definition retained_session_transaction_action_unavailable_message ::
    "RetainedSessionState \<Rightarrow> string" where
  "retained_session_transaction_action_unavailable_message s =
     ''Cannot run commit/rollback on a '' @ retained_label s
     @ '' retained DB session. Discard the session or reconnect first.''"

definition ensure_retained_session_transaction_action_allowed ::
    "RetainedSessionState \<Rightarrow> RetainedSessionResolutionAction \<Rightarrow> string + unit" where
  "ensure_retained_session_transaction_action_allowed s action =
     (if retained_session_transaction_action_allowed s action then Inr ()
      else Inl (retained_session_transaction_action_unavailable_message s))"

definition retained_session_transaction_resolution_should_discard_after_success ::
    "RetainedSessionState \<Rightarrow> bool" where
  [state_defs]: "retained_session_transaction_resolution_should_discard_after_success s \<longleftrightarrow>
     discard_after_transaction_resolution (capabilities s)"

definition retained_session_should_restore_after_reusable_error ::
    "RetainedSessionState \<Rightarrow> bool \<Rightarrow> bool" where
  "retained_session_should_restore_after_reusable_error prior_state error_allows_session_reuse \<longleftrightarrow>
     transaction_state prior_state \<noteq> InvalidSession
     \<and> requires_physical_session_preservation prior_state
     \<and> error_allows_session_reuse"

fun retained_session_error_outcome ::
    "RetainedSessionState \<Rightarrow> bool \<Rightarrow> RetainedSessionErrorPolicy \<Rightarrow> RetainedSessionOutcome" where
  "retained_session_error_outcome prior_state error_allows_session_reuse
     RestoreIfReusableAndRequiresResolution =
     (if retained_session_should_restore_after_reusable_error prior_state
           error_allows_session_reuse
      then Retain prior_state else DiscardPhysical prior_state)"
| "retained_session_error_outcome prior_state error_allows_session_reuse
     DiscardPhysicalPolicy = DiscardPhysical prior_state"

definition retained_session_outcome_after_session_info_sync ::
    "RetainedSessionState \<Rightarrow> bool \<Rightarrow> RetainedSessionOutcome" where
  "retained_session_outcome_after_session_info_sync retained_state session_info_synced =
     (if session_info_synced then Retain retained_state else DiscardPhysical retained_state)"

text \<open>How an operation of the application itself brackets its statements on the user's session.\<close>

datatype AppOperationTransactionScope = OwnTransaction | NestedInCallersTransaction

definition commits_its_own_work :: "AppOperationTransactionScope \<Rightarrow> bool" where
  "commits_its_own_work scope \<longleftrightarrow> scope = OwnTransaction"

definition app_operation_transaction_scope ::
    "bool \<Rightarrow> RetainedSessionState \<Rightarrow> AppOperationTransactionScope" where
  "app_operation_transaction_scope auto_commit prior_state =
     (if auto_commit \<and> \<not> retained_may_have_uncommitted_work prior_state
      then OwnTransaction else NestedInCallersTransaction)"

definition transaction_mode_change_returns_session_to_boundary ::
    "RetainedSessionState \<Rightarrow> bool" where
  "transaction_mode_change_returns_session_to_boundary s \<longleftrightarrow>
     \<not> retained_may_have_uncommitted_work s"

section \<open>The order on retained states\<close>

definition retained_le :: "RetainedSessionState \<Rightarrow> RetainedSessionState \<Rightarrow> bool" where
  "retained_le s t \<longleftrightarrow> retained_conservative_merge s t = t"

lemma retained_le_parts:
  "retained_le s t \<longleftrightarrow>
     transaction_state s \<le> transaction_state t
     \<and> residue_le (session_residue_state s) (session_residue_state t)
     \<and> lock_le (lock_state s) (lock_state t)"
  unfolding retained_le_def residue_le_def lock_le_def tss.le_iff
  by (cases s; cases t) (auto simp: retained_conservative_merge_def)

lemma retained_leI [claim_le]:
  "transaction_state s \<le> transaction_state t \<Longrightarrow>
   residue_le (session_residue_state s) (session_residue_state t) \<Longrightarrow>
   lock_le (lock_state s) (lock_state t) \<Longrightarrow> retained_le s t"
  by (simp add: retained_le_parts)

interpretation retained: claim_join retained_conservative_merge retained_le retained_default
  by unfold_locales
    (simp_all add: retained_conservative_merge_def retained_le_def retained_default_def
      tss.join_idem residue.join_idem lock.join_idem tss.join_ac residue.join_ac lock.join_ac
      tss.join_bot residue.join_bot lock.join_bot)

text \<open>Each derived predicate that restricts the user is monotone in the claims.\<close>

lemma tss_blocks_mono: "s \<le> t \<Longrightarrow> tss_blocks_execution s \<Longrightarrow> tss_blocks_execution t"
  by (cases s; cases t) (simp_all add: tss_blocks_execution_def less_eq_TransactionSessionState_def)

lemma tss_Clean_antimono: "s \<le> t \<Longrightarrow> t = Clean \<Longrightarrow> s = Clean"
  by (cases s; cases t) (simp_all add: less_eq_TransactionSessionState_def)

lemma lock_held_mono:
  "lock_le s t \<Longrightarrow> lock_may_hold_session_lock s \<Longrightarrow> lock_may_hold_session_lock t"
  by (auto simp: lock_le_fields lock_may_hold_session_lock_def)

lemma residue_untracked_mono:
  "residue_le s t \<Longrightarrow> residue_may_have_untracked_session_state s \<Longrightarrow>
     residue_may_have_untracked_session_state t"
  by (auto simp: residue_le_fields residue_may_have_untracked_session_state_def)

lemma residue_override_mono:
  "residue_le s t \<Longrightarrow> residue_may_have_transaction_mode_override s \<Longrightarrow>
     residue_may_have_transaction_mode_override t"
  by (auto simp: residue_le_fields residue_may_have_transaction_mode_override_def)

lemma residue_unknown_mono:
  "residue_le s t \<Longrightarrow> may_have_unknown_session_state s \<Longrightarrow> may_have_unknown_session_state t"
  by (auto simp: residue_le_fields)

lemma retained_blocks_mono:
  assumes "retained_le s t" and "retained_blocks_execution s"
  shows "retained_blocks_execution t"
  using assms tss_blocks_mono lock_held_mono residue_override_mono
  unfolding retained_le_parts retained_blocks_execution_def capabilities_def
    retained_may_hold_session_lock_def retained_may_have_transaction_mode_override_def
  by (simp only: RetainedSessionCapabilities.simps) blast

lemma retained_option_change_antimono:
  assumes "retained_le s t" and "retained_allows_transaction_option_change t"
  shows "retained_allows_transaction_option_change s"
  using assms tss_Clean_antimono lock_held_mono residue_override_mono residue_unknown_mono
  unfolding retained_le_parts retained_allows_transaction_option_change_def capabilities_def
    retained_may_hold_session_lock_def retained_may_have_transaction_mode_override_def
    retained_may_have_unknown_session_state_def tss_allows_transaction_option_change_def
  by (simp only: RetainedSessionCapabilities.simps) blast

lemma preservation_iff:
  "requires_physical_session_preservation s \<longleftrightarrow>
     transaction_state s \<noteq> Clean \<or> retained_may_have_untracked_session_state s
     \<or> retained_may_hold_session_lock s \<or> retained_may_have_transaction_mode_override s"
  by (auto simp: state_defs)

lemma preservation_mono:
  assumes "retained_le s t" and "requires_physical_session_preservation s"
  shows "requires_physical_session_preservation t"
  using assms tss_Clean_antimono lock_held_mono residue_untracked_mono residue_override_mono
  unfolding preservation_iff retained_le_parts retained_may_hold_session_lock_def
    retained_may_have_transaction_mode_override_def retained_may_have_untracked_session_state_def
  by blast

lemma resolution_allowed_iff:
  "transaction_resolution_action_allowed s \<longleftrightarrow>
     transaction_state s \<noteq> Clean \<and> transaction_state s \<noteq> InvalidSession"
  by (cases "transaction_state s")
    (simp_all add: transaction_resolution_action_allowed_def capabilities_def)

section \<open>Properties\<close>

text \<open>
  C1. The conservative merge of two beliefs about a session is their least upper bound in the
  order on claims, it is commutative, associative and idempotent, and the predicates that restrict
  the user distribute over it: a merged belief blocks execution, may have uncommitted work or asks
  for the physical session to be preserved exactly when one of the two does, and it allows a
  transaction-option change exactly when both do. Merging can therefore only raise a claim.
\<close>

theorem conservative_merge_join:
  "(retained_le (retained_conservative_merge a b) c \<longleftrightarrow> retained_le a c \<and> retained_le b c)
   \<and> retained_conservative_merge a b = retained_conservative_merge b a
   \<and> retained_conservative_merge (retained_conservative_merge a b) c
       = retained_conservative_merge a (retained_conservative_merge b c)
   \<and> retained_conservative_merge a a = a
   \<and> (retained_blocks_execution (retained_conservative_merge a b)
       \<longleftrightarrow> retained_blocks_execution a \<or> retained_blocks_execution b)
   \<and> (retained_may_have_uncommitted_work (retained_conservative_merge a b)
       \<longleftrightarrow> retained_may_have_uncommitted_work a \<or> retained_may_have_uncommitted_work b)
   \<and> (requires_physical_session_preservation (retained_conservative_merge a b)
       \<longleftrightarrow> requires_physical_session_preservation a \<or> requires_physical_session_preservation b)
   \<and> (retained_allows_transaction_option_change (retained_conservative_merge a b)
       \<longleftrightarrow> retained_allows_transaction_option_change a
          \<and> retained_allows_transaction_option_change b)"
proof (intro conjI)
  show "retained_le (retained_conservative_merge a b) c \<longleftrightarrow> retained_le a c \<and> retained_le b c"
    by (meson retained.le_trans retained.least retained.upper1 retained.upper2)
  show "retained_blocks_execution (retained_conservative_merge a b)
      \<longleftrightarrow> retained_blocks_execution a \<or> retained_blocks_execution b"
    by (cases "transaction_state a"; cases "transaction_state b")
      (auto simp: state_defs retained_conservative_merge_def tss_conservative_merge_def)
  show "retained_may_have_uncommitted_work (retained_conservative_merge a b)
      \<longleftrightarrow> retained_may_have_uncommitted_work a \<or> retained_may_have_uncommitted_work b"
    by (cases "transaction_state a"; cases "transaction_state b")
      (simp_all add: retained_may_have_uncommitted_work_def retained_conservative_merge_def
        tss_conservative_merge_def)
  show "requires_physical_session_preservation (retained_conservative_merge a b)
      \<longleftrightarrow> requires_physical_session_preservation a \<or> requires_physical_session_preservation b"
    by (cases "transaction_state a"; cases "transaction_state b")
      (auto simp: state_defs retained_conservative_merge_def tss_conservative_merge_def)
  show "retained_allows_transaction_option_change (retained_conservative_merge a b)
      \<longleftrightarrow> retained_allows_transaction_option_change a
         \<and> retained_allows_transaction_option_change b"
    by (cases "transaction_state a"; cases "transaction_state b")
      (auto simp: state_defs retained_conservative_merge_def tss_conservative_merge_def)
qed (simp_all add: retained.join_ac retained.join_idem)

text \<open>
  C16. Settling a transaction claim with the server's answer only ever lowers it, and only in one
  place: it changes the state exactly when the claim was a guess, the recorded state was merely
  "maybe dirty" and the answer can see the transaction the claim is about. Residue and locks are
  untouched, and whether execution is blocked does not change.
\<close>

theorem settling_lowers_only_a_visible_guess:
  "retained_le (with_transaction_claim_settled_by_server s claim answer) s
   \<and> session_residue_state (with_transaction_claim_settled_by_server s claim answer)
       = session_residue_state s
   \<and> lock_state (with_transaction_claim_settled_by_server s claim answer) = lock_state s
   \<and> retained_blocks_execution (with_transaction_claim_settled_by_server s claim answer)
       = retained_blocks_execution s
   \<and> (with_transaction_claim_settled_by_server s claim answer \<noteq> s \<longleftrightarrow>
        is_a_guess claim \<and> transaction_state s = MaybeDirty
        \<and> (answer = NoTransaction
            \<or> answer = NoWriteTransaction \<and> \<not> may_be_invisible_to_a_write_probe claim))"
  by (cases answer; cases s)
    (auto simp: with_transaction_claim_settled_by_server_def with_transaction_state_def
      retained_le_parts residue.le_refl lock.le_refl state_defs)

text \<open>
  The remedy shown beside a refused transaction-option change is one that works. When it names
  commit and rollback, resolving the transaction either leaves a session on which the option may
  change or is followed by discarding the session; when it says that they cannot clear the block,
  then on a valid session a finished transaction indeed leaves the option change refused.
\<close>

lemma option_change_remedy_is_honest:
  assumes "\<not> retained_allows_transaction_option_change s"
  shows "if blocked_option_change_remedy s = ''Commit, rollback, or discard it first.''
         then retained_session_transaction_resolution_should_discard_after_success s
              \<or> retained_allows_transaction_option_change (with_transaction_state s Clean)
         else transaction_state s = InvalidSession
              \<or> \<not> retained_allows_transaction_option_change (with_transaction_state s Clean)"
  using assms
  by (cases "transaction_state s")
    (auto simp: blocked_option_change_remedy_def state_defs)

lemma option_change_remedy_is_honest_witness:
  "\<not> retained_allows_transaction_option_change (from_transaction_state MaybeDirty)
   \<and> blocked_option_change_remedy (from_transaction_state MaybeDirty)
       = ''Commit, rollback, or discard it first.''
   \<and> retained_allows_transaction_option_change
       (with_transaction_state (from_transaction_state MaybeDirty) Clean)"
proof -
  have blocked: "\<not> retained_allows_transaction_option_change (from_transaction_state MaybeDirty)"
    by (simp add: state_defs)
  moreover have remedy: "blocked_option_change_remedy (from_transaction_state MaybeDirty)
      = ''Commit, rollback, or discard it first.''"
    by (simp add: blocked_option_change_remedy_def state_defs)
  moreover have "\<not> retained_session_transaction_resolution_should_discard_after_success
      (from_transaction_state MaybeDirty)"
    by (simp add: state_defs)
  ultimately show ?thesis
    using option_change_remedy_is_honest [OF blocked] by simp
qed

text \<open>
  The two summaries the interface shows agree with the rule that keeps a session alive: the
  summary state is clean, and the label reads "clean", exactly when the session needs no
  preservation, that is when neither a transaction, residue, a lock nor a mode override is claimed.
\<close>

theorem clean_summary_iff_nothing_to_preserve:
  "(summary_transaction_state s = Clean \<longleftrightarrow> \<not> requires_physical_session_preservation s)
   \<and> (retained_label s = ''clean'' \<longleftrightarrow> \<not> requires_physical_session_preservation s)
   \<and> \<not> (retained_blocks_execution s \<and> summary_transaction_state s = Clean)"
proof (intro conjI)
  show "summary_transaction_state s = Clean \<longleftrightarrow> \<not> requires_physical_session_preservation s"
    by (auto simp: summary_transaction_state_def preservation_iff tss_requires_resolution_def)
  show "retained_label s = ''clean'' \<longleftrightarrow> \<not> requires_physical_session_preservation s"
    by (cases "transaction_state s")
      (auto simp: retained_label_def preservation_iff tss_requires_resolution_def)
  show "\<not> (retained_blocks_execution s \<and> summary_transaction_state s = Clean)"
    by (auto simp: summary_transaction_state_def state_defs)
qed

end
