(* ===== verification/Statement_Effects.thy ===== *)
theory Statement_Effects
  imports Session_State
begin

text \<open>
  What one statement, and one executor unit holding several statements, leaves on a session
  (\<^verbatim>\<open>StatementSessionEffects\<close> and its parts in \<^verbatim>\<open>src/db/transaction.rs\<close>). The accessors carry the
  prefix \<open>eff\<close>; the fields keep the source's names. \<open>eff_then\<close> is the source's \<^verbatim>\<open>then\<close>, the
  composition of two statements of one unit; \<open>for_unit\<close> folds it over the statements a script
  splitter finds in the unit's text. The splitter is an argument of the definitions, so every
  result holds for whatever statements it finds. The lemmas show that the composition cannot read
  the order of the statements and never claims that anything ended, and when the fold has to say
  that its answer is a guess.
\<close>

section \<open>Data\<close>

record TransactionStatementStateHint =
  clears_session_state :: bool
  may_leave_session_bound_state :: bool
  may_leave_untracked_session_state :: bool
  hint_may_hold_session_lock :: bool
  requires_retention_when_autocommit_off :: bool
  requires_transaction_decision_after_success :: bool
  changes_auto_commit :: bool

record StatementTransactionEffects =
  clears_state :: bool
  opens_or_preserves_state :: bool
  has_implicit_commit :: bool
  skip_auto_commit :: bool
  requires_decision_after_success :: bool
  changes_transaction_mode :: bool
  starts_state :: bool
  may_leave_uncommitted_work :: bool
  rollback_targets_savepoint :: bool
  control_starts_chain :: bool
  releases_physical_session :: bool
  may_open_untracked_transaction :: bool

record StatementSessionResidueEffects =
  creates_temporary_table :: bool
  creates_prepared_statement :: bool
  sets_user_variable :: bool
  sets_session_setting :: bool
  sets_found_rows :: bool
  sets_statement_diagnostics :: bool
  clears_statement_diagnostics :: bool
  sets_next_transaction_mode_override :: bool
  sets_transaction_mode_override :: bool
  consumes_next_transaction_mode_override :: bool
  may_leave_unknown_state :: bool
  clears_all_session_residue :: bool

datatype StatementTableLockEffect = TableLockNone | TableLockAcquires | TableLockReleases

datatype StatementFlushTableLockEffect =
  FlushTableLockNone | FlushTableLockAcquires | FlushTableLockReleases

datatype StatementBackupLockEffect = BackupLockNone | BackupLockAcquires | BackupLockReleases

record StatementNamedLockEffect =
  acquires :: bool
  releases_one :: bool
  releases_all :: bool

record StatementSessionEffects =
  state_hint :: TransactionStatementStateHint
  transaction :: StatementTransactionEffects
  session_residue :: StatementSessionResidueEffects
  table_lock :: StatementTableLockEffect
  flush_table_lock :: StatementFlushTableLockEffect
  backup_lock :: StatementBackupLockEffect
  named_lock :: StatementNamedLockEffect

definition hint_default :: TransactionStatementStateHint where
  [effect_defs]: "hint_default =
     \<lparr>clears_session_state = False, may_leave_session_bound_state = False,
      may_leave_untracked_session_state = False, hint_may_hold_session_lock = False,
      requires_retention_when_autocommit_off = False,
      requires_transaction_decision_after_success = False, changes_auto_commit = False\<rparr>"

definition transaction_effects_default :: StatementTransactionEffects where
  [effect_defs]: "transaction_effects_default =
     \<lparr>clears_state = False, opens_or_preserves_state = False, has_implicit_commit = False,
      skip_auto_commit = False, requires_decision_after_success = False,
      changes_transaction_mode = False, starts_state = False,
      may_leave_uncommitted_work = False, rollback_targets_savepoint = False,
      control_starts_chain = False, releases_physical_session = False,
      may_open_untracked_transaction = False\<rparr>"

definition residue_effects_default :: StatementSessionResidueEffects where
  [effect_defs]: "residue_effects_default =
     \<lparr>creates_temporary_table = False, creates_prepared_statement = False,
      sets_user_variable = False, sets_session_setting = False, sets_found_rows = False,
      sets_statement_diagnostics = False, clears_statement_diagnostics = False,
      sets_next_transaction_mode_override = False, sets_transaction_mode_override = False,
      consumes_next_transaction_mode_override = False, may_leave_unknown_state = False,
      clears_all_session_residue = False\<rparr>"

definition effects_default :: StatementSessionEffects where
  [effect_defs]: "effects_default =
     \<lparr>state_hint = hint_default, transaction = transaction_effects_default,
      session_residue = residue_effects_default, table_lock = TableLockNone,
      flush_table_lock = FlushTableLockNone, backup_lock = BackupLockNone,
      named_lock = \<lparr>acquires = False, releases_one = False, releases_all = False\<rparr>\<rparr>"

section \<open>Residue effects\<close>

definition residue_effects_may_leave_session_residue ::
    "StatementSessionResidueEffects \<Rightarrow> bool" where
  [effect_defs]: "residue_effects_may_leave_session_residue e \<longleftrightarrow>
     creates_temporary_table e \<or> creates_prepared_statement e \<or> sets_user_variable e
     \<or> sets_session_setting e \<or> sets_statement_diagnostics e
     \<or> sets_next_transaction_mode_override e \<or> sets_transaction_mode_override e
     \<or> may_leave_unknown_state e"

definition without_statement_diagnostics ::
    "StatementSessionResidueEffects \<Rightarrow> StatementSessionResidueEffects" where
  [effect_defs]: "without_statement_diagnostics e =
     e\<lparr>sets_found_rows := False, sets_statement_diagnostics := False,
       clears_statement_diagnostics := False\<rparr>"

definition residue_from_effects :: "StatementSessionResidueEffects \<Rightarrow> SessionResidueState" where
  [effect_defs]: "residue_from_effects e =
     \<lparr>may_have_temporary_table = creates_temporary_table e,
      may_have_prepared_statement = creates_prepared_statement e,
      may_have_user_variable = sets_user_variable e,
      may_have_session_setting = sets_session_setting e,
      may_have_statement_diagnostics = sets_statement_diagnostics e,
      may_have_next_transaction_mode_override = sets_next_transaction_mode_override e,
      may_have_transaction_mode_override = sets_transaction_mode_override e,
      may_have_unknown_session_state = may_leave_unknown_state e\<rparr>"

definition residue_after_successful_effects ::
    "SessionResidueState \<Rightarrow> StatementSessionResidueEffects \<Rightarrow> SessionResidueState" where
  "residue_after_successful_effects self e =
     (if clears_all_session_residue e then residue_default
      else
        (let state = (if clears_statement_diagnostics e
                      then self\<lparr>may_have_statement_diagnostics := False\<rparr> else self);
             state = (if consumes_next_transaction_mode_override e
                      then state\<lparr>may_have_next_transaction_mode_override := False\<rparr> else state)
         in residue_merged_with state (residue_from_effects e)))"

section \<open>Accessors\<close>

definition from_state_hint :: "TransactionStatementStateHint \<Rightarrow> StatementSessionEffects" where
  "from_state_hint hint = effects_default\<lparr>state_hint := hint\<rparr>"

definition transaction_option_change_kind ::
    "StatementSessionEffects \<Rightarrow> TransactionOptionKind option" where
  "transaction_option_change_kind e =
     (if changes_auto_commit (state_hint e) then Some AutoCommitOption
      else if changes_transaction_mode (transaction e)
        \<or> sets_next_transaction_mode_override (session_residue e)
        \<or> sets_transaction_mode_override (session_residue e)
      then Some TransactionModeOption else None)"

definition eff_opens_or_preserves_transaction_state :: "StatementSessionEffects \<Rightarrow> bool" where
  [effect_defs]: "eff_opens_or_preserves_transaction_state e = opens_or_preserves_state (transaction e)"

definition eff_clears_transaction_state :: "StatementSessionEffects \<Rightarrow> bool" where
  [effect_defs]: "eff_clears_transaction_state e = clears_state (transaction e)"

definition eff_changes_transaction_mode :: "StatementSessionEffects \<Rightarrow> bool" where
  [effect_defs]: "eff_changes_transaction_mode e = changes_transaction_mode (transaction e)"

definition eff_may_leave_session_residue :: "StatementSessionEffects \<Rightarrow> bool" where
  [effect_defs]: "eff_may_leave_session_residue e =
     residue_effects_may_leave_session_residue (session_residue e)"

definition eff_preserves_statement_diagnostics :: "StatementSessionEffects \<Rightarrow> bool" where
  [effect_defs]: "eff_preserves_statement_diagnostics e =
     sets_statement_diagnostics (session_residue e)"

definition eff_sets_found_rows :: "StatementSessionEffects \<Rightarrow> bool" where
  [effect_defs]: "eff_sets_found_rows e = sets_found_rows (session_residue e)"

definition eff_has_implicit_commit :: "StatementSessionEffects \<Rightarrow> bool" where
  [effect_defs]: "eff_has_implicit_commit e = has_implicit_commit (transaction e)"

definition eff_skip_auto_commit :: "StatementSessionEffects \<Rightarrow> bool" where
  [effect_defs]: "eff_skip_auto_commit e = skip_auto_commit (transaction e)"

definition eff_requires_transaction_decision_after_success ::
    "StatementSessionEffects \<Rightarrow> bool" where
  [effect_defs]: "eff_requires_transaction_decision_after_success e =
     requires_decision_after_success (transaction e)"

definition eff_requires_transaction_decision_after_interrupt ::
    "StatementSessionEffects \<Rightarrow> bool \<Rightarrow> bool" where
  "eff_requires_transaction_decision_after_interrupt e auto_commit \<longleftrightarrow>
     \<not> auto_commit
     \<and> (may_leave_uncommitted_work (transaction e)
        \<or> opens_or_preserves_state (transaction e)
        \<or> requires_decision_after_success (transaction e)
        \<or> requires_retention_when_autocommit_off (state_hint e)
        \<or> requires_transaction_decision_after_success (state_hint e))"

definition eff_acquires_table_lock :: "StatementSessionEffects \<Rightarrow> bool" where
  [effect_defs]: "eff_acquires_table_lock e \<longleftrightarrow> table_lock e = TableLockAcquires"

definition eff_releases_table_lock :: "StatementSessionEffects \<Rightarrow> bool" where
  [effect_defs]: "eff_releases_table_lock e \<longleftrightarrow> table_lock e = TableLockReleases"

definition eff_acquires_flush_table_lock :: "StatementSessionEffects \<Rightarrow> bool" where
  [effect_defs]: "eff_acquires_flush_table_lock e \<longleftrightarrow> flush_table_lock e = FlushTableLockAcquires"

definition eff_releases_flush_table_lock :: "StatementSessionEffects \<Rightarrow> bool" where
  [effect_defs]: "eff_releases_flush_table_lock e \<longleftrightarrow> flush_table_lock e = FlushTableLockReleases"

definition eff_acquires_backup_lock :: "StatementSessionEffects \<Rightarrow> bool" where
  [effect_defs]: "eff_acquires_backup_lock e \<longleftrightarrow> backup_lock e = BackupLockAcquires"

definition eff_releases_backup_lock :: "StatementSessionEffects \<Rightarrow> bool" where
  [effect_defs]: "eff_releases_backup_lock e \<longleftrightarrow> backup_lock e = BackupLockReleases"

definition eff_acquires_named_lock :: "StatementSessionEffects \<Rightarrow> bool" where
  [effect_defs]: "eff_acquires_named_lock e = acquires (named_lock e)"

definition eff_releases_named_lock :: "StatementSessionEffects \<Rightarrow> bool" where
  [effect_defs]: "eff_releases_named_lock e = releases_one (named_lock e)"

definition eff_releases_all_named_locks :: "StatementSessionEffects \<Rightarrow> bool" where
  [effect_defs]: "eff_releases_all_named_locks e = releases_all (named_lock e)"

definition acquires_a_lock_other_sessions_wait_for :: "StatementSessionEffects \<Rightarrow> bool" where
  "acquires_a_lock_other_sessions_wait_for e \<longleftrightarrow>
     eff_acquires_table_lock e \<or> eff_acquires_flush_table_lock e
     \<or> eff_acquires_backup_lock e \<or> eff_acquires_named_lock e"

definition eff_starts_transaction_state :: "StatementSessionEffects \<Rightarrow> bool" where
  [effect_defs]: "eff_starts_transaction_state e = starts_state (transaction e)"

definition eff_may_leave_uncommitted_work :: "StatementSessionEffects \<Rightarrow> bool" where
  [effect_defs]: "eff_may_leave_uncommitted_work e = may_leave_uncommitted_work (transaction e)"

definition eff_releases_physical_session :: "StatementSessionEffects \<Rightarrow> bool" where
  [effect_defs]: "eff_releases_physical_session e = releases_physical_session (transaction e)"

definition eff_may_open_untracked_transaction :: "StatementSessionEffects \<Rightarrow> bool" where
  [effect_defs]: "eff_may_open_untracked_transaction e =
     may_open_untracked_transaction (transaction e)"

section \<open>Composing the statements of a unit\<close>

definition hint_then ::
    "TransactionStatementStateHint \<Rightarrow> TransactionStatementStateHint \<Rightarrow> TransactionStatementStateHint" where
  "hint_then self next =
     \<lparr>clears_session_state = False,
      may_leave_session_bound_state =
        may_leave_session_bound_state self \<or> may_leave_session_bound_state next,
      may_leave_untracked_session_state =
        may_leave_untracked_session_state self \<or> may_leave_untracked_session_state next,
      hint_may_hold_session_lock =
        hint_may_hold_session_lock self \<or> hint_may_hold_session_lock next,
      requires_retention_when_autocommit_off =
        requires_retention_when_autocommit_off self
          \<or> requires_retention_when_autocommit_off next,
      requires_transaction_decision_after_success =
        requires_transaction_decision_after_success self
          \<or> requires_transaction_decision_after_success next,
      changes_auto_commit = changes_auto_commit self \<or> changes_auto_commit next\<rparr>"

definition transaction_effects_then ::
    "StatementTransactionEffects \<Rightarrow> StatementTransactionEffects \<Rightarrow> StatementTransactionEffects" where
  "transaction_effects_then self next =
     \<lparr>clears_state = False,
      opens_or_preserves_state = opens_or_preserves_state self \<or> opens_or_preserves_state next,
      has_implicit_commit = False,
      skip_auto_commit = skip_auto_commit self \<or> skip_auto_commit next,
      requires_decision_after_success =
        requires_decision_after_success self \<or> requires_decision_after_success next,
      changes_transaction_mode = changes_transaction_mode self \<or> changes_transaction_mode next,
      starts_state = starts_state self \<or> starts_state next,
      may_leave_uncommitted_work =
        may_leave_uncommitted_work self \<or> may_leave_uncommitted_work next,
      rollback_targets_savepoint =
        rollback_targets_savepoint self \<or> rollback_targets_savepoint next,
      control_starts_chain = control_starts_chain self \<or> control_starts_chain next,
      releases_physical_session = False,
      may_open_untracked_transaction =
        may_open_untracked_transaction self \<or> may_open_untracked_transaction next\<rparr>"

definition residue_effects_then ::
    "StatementSessionResidueEffects \<Rightarrow> StatementSessionResidueEffects
       \<Rightarrow> StatementSessionResidueEffects" where
  "residue_effects_then self next =
     \<lparr>creates_temporary_table = creates_temporary_table self \<or> creates_temporary_table next,
      creates_prepared_statement =
        creates_prepared_statement self \<or> creates_prepared_statement next,
      sets_user_variable = sets_user_variable self \<or> sets_user_variable next,
      sets_session_setting = sets_session_setting self \<or> sets_session_setting next,
      sets_found_rows = sets_found_rows self \<or> sets_found_rows next,
      sets_statement_diagnostics =
        sets_statement_diagnostics self \<or> sets_statement_diagnostics next,
      clears_statement_diagnostics = False,
      sets_next_transaction_mode_override =
        sets_next_transaction_mode_override self \<or> sets_next_transaction_mode_override next,
      sets_transaction_mode_override =
        sets_transaction_mode_override self \<or> sets_transaction_mode_override next,
      consumes_next_transaction_mode_override =
        consumes_next_transaction_mode_override self
          \<or> consumes_next_transaction_mode_override next,
      may_leave_unknown_state = may_leave_unknown_state self \<or> may_leave_unknown_state next,
      clears_all_session_residue = False\<rparr>"

definition eff_then ::
    "StatementSessionEffects \<Rightarrow> StatementSessionEffects \<Rightarrow> StatementSessionEffects" where
  "eff_then self next =
     \<lparr>state_hint = hint_then (state_hint self) (state_hint next),
      transaction = transaction_effects_then (transaction self) (transaction next),
      session_residue = residue_effects_then (session_residue self) (session_residue next),
      table_lock =
        (if eff_acquires_table_lock self \<or> eff_acquires_table_lock next
         then TableLockAcquires else TableLockNone),
      flush_table_lock =
        (if eff_acquires_flush_table_lock self \<or> eff_acquires_flush_table_lock next
         then FlushTableLockAcquires else FlushTableLockNone),
      backup_lock =
        (if eff_acquires_backup_lock self \<or> eff_acquires_backup_lock next
         then BackupLockAcquires else BackupLockNone),
      named_lock =
        \<lparr>acquires = acquires (named_lock self) \<or> acquires (named_lock next),
         releases_one = False, releases_all = False\<rparr>\<rparr>"

lemmas then_defs = eff_then_def hint_then_def transaction_effects_then_def residue_effects_then_def

definition claims_something_ended :: "StatementSessionEffects \<Rightarrow> bool" where
  "claims_something_ended e \<longleftrightarrow>
     clears_state (transaction e) \<or> has_implicit_commit (transaction e)
     \<or> releases_physical_session (transaction e) \<or> clears_session_state (state_hint e)
     \<or> clears_all_session_residue (session_residue e)
     \<or> eff_releases_table_lock e \<or> eff_releases_flush_table_lock e
     \<or> eff_releases_backup_lock e \<or> releases_one (named_lock e) \<or> releases_all (named_lock e)"

datatype 'tool ScriptItem = StatementItem string | ToolCommandItem 'tool

type_synonym 'tool splitter = "DatabaseType \<Rightarrow> string \<Rightarrow> 'tool ScriptItem list"

record 'a UnitAnswer =
  answer :: 'a
  held_several_statements :: bool

fun item_statement :: "'tool ScriptItem \<Rightarrow> string option" where
  "item_statement (StatementItem statement) = Some statement"
| "item_statement (ToolCommandItem _) = None"

definition unit_statements :: "'tool splitter \<Rightarrow> DatabaseType \<Rightarrow> string \<Rightarrow> string list" where
  "unit_statements split db_type sql =
     remdups_adj (List.map_filter item_statement (split db_type sql))"

definition fold_over_unit_statements ::
    "'tool splitter \<Rightarrow> DatabaseType \<Rightarrow> string \<Rightarrow> (string \<Rightarrow> 'a) \<Rightarrow> ('a \<Rightarrow> 'a \<Rightarrow> 'a)
       \<Rightarrow> 'a UnitAnswer" where
  "fold_over_unit_statements split db_type sql single merge =
     (let statements = unit_statements split db_type sql; as_given = single sql
      in if length statements < 2
         then \<lparr>answer = as_given, held_several_statements = False\<rparr>
         else \<lparr>answer = foldl (\<lambda>folded statement. merge folded (single statement))
                          as_given statements,
               held_several_statements = True\<rparr>)"

definition later_unit_answer_wins :: "'a option \<Rightarrow> 'a option \<Rightarrow> 'a option" where
  "later_unit_answer_wins earlier later =
     (case later of Some x \<Rightarrow> Some x | None \<Rightarrow> earlier)"

text \<open>
  The flag that a statement of the unit ended something is a cell the closure sets in the source;
  here it is folded beside the effects.
\<close>

definition for_unit ::
    "'tool splitter \<Rightarrow> DatabaseType \<Rightarrow> string \<Rightarrow> (string \<Rightarrow> StatementSessionEffects)
       \<Rightarrow> StatementSessionEffects" where
  "for_unit split db_type sql single =
     (let unit =
            fold_over_unit_statements split db_type sql
              (\<lambda>statement. let effects = single statement
                           in (effects, claims_something_ended effects))
              (\<lambda>(folded, dropped) (effects, ended). (eff_then folded effects, dropped \<or> ended));
          folded = fst (answer unit);
          dropped_an_ending = snd (answer unit);
          could_be_holding_work =
            eff_may_leave_uncommitted_work folded \<or> eff_starts_transaction_state folded
            \<or> eff_opens_or_preserves_transaction_state folded
            \<or> eff_requires_transaction_decision_after_success folded
      in if \<not> held_several_statements unit \<or> \<not> dropped_an_ending \<or> \<not> could_be_holding_work
         then folded
         else folded\<lparr>transaction :=
                (transaction folded)\<lparr>may_open_untracked_transaction := True\<rparr>\<rparr>)"

section \<open>Interruptions\<close>

record StatementInterruption =
  was_cancelled :: bool
  recoverable_timeout :: bool
  lock_wait_timeout :: bool

definition interruption_occurred :: "StatementInterruption \<Rightarrow> bool" where
  "interruption_occurred i \<longleftrightarrow> was_cancelled i \<or> recoverable_timeout i \<or> lock_wait_timeout i"

definition statement_cancel_can_reuse_session :: "TransactionStatementStateHint \<Rightarrow> bool" where
  "statement_cancel_can_reuse_session hint \<longleftrightarrow>
     \<not> clears_session_state hint \<and> \<not> may_leave_session_bound_state hint
     \<and> \<not> may_leave_untracked_session_state hint \<and> \<not> hint_may_hold_session_lock hint
     \<and> \<not> requires_retention_when_autocommit_off hint
     \<and> \<not> requires_transaction_decision_after_success hint
     \<and> \<not> changes_auto_commit hint"

definition statement_interruption_requires_transaction_decision ::
    "StatementInterruption \<Rightarrow> bool \<Rightarrow> TransactionSessionState
       \<Rightarrow> TransactionStatementStateHint \<Rightarrow> bool" where
  "statement_interruption_requires_transaction_decision interruption auto_commit prior_state hint =
     (if \<not> interruption_occurred interruption then False
      else if tss_requires_transaction_decision prior_state then True
      else if lock_wait_timeout interruption \<and> tss_may_have_uncommitted_work prior_state then True
      else if tss_may_have_uncommitted_work prior_state \<and> clears_session_state hint then True
      else requires_retention_when_autocommit_off hint
           \<and> (\<not> auto_commit \<or> tss_may_have_uncommitted_work prior_state))"

section \<open>The MySQL-family statement hints\<close>

definition mysql_hint ::
    "bool \<Rightarrow> bool \<Rightarrow> bool \<Rightarrow> bool \<Rightarrow> bool \<Rightarrow> TransactionStatementStateHint" where
  "mysql_hint clears bound locks retention decision =
     \<lparr>clears_session_state = clears, may_leave_session_bound_state = bound,
      may_leave_untracked_session_state = False, hint_may_hold_session_lock = locks,
      requires_retention_when_autocommit_off = retention,
      requires_transaction_decision_after_success = decision,
      changes_auto_commit = False\<rparr>"

definition mysql_untracked_session_hint ::
    "bool \<Rightarrow> bool \<Rightarrow> bool \<Rightarrow> bool \<Rightarrow> bool \<Rightarrow> TransactionStatementStateHint" where
  "mysql_untracked_session_hint clears bound locks retention decision =
     (mysql_hint clears bound locks retention decision)
       \<lparr>may_leave_untracked_session_state := True\<rparr>"

definition mysql_autocommit_hint :: "bool \<Rightarrow> TransactionStatementStateHint" where
  "mysql_autocommit_hint enabled =
     \<lparr>clears_session_state = enabled, may_leave_session_bound_state = \<not> enabled,
      may_leave_untracked_session_state = False, hint_may_hold_session_lock = False,
      requires_retention_when_autocommit_off = False,
      requires_transaction_decision_after_success = False,
      changes_auto_commit = True\<rparr>"

section \<open>The composition reads no order and claims no ending\<close>

lemma then_comm: "eff_then a b = eff_then b a"
  by (auto simp: then_defs)

lemma then_assoc: "eff_then (eff_then a b) c = eff_then a (eff_then b c)"
  by (simp add: then_defs eff_acquires_table_lock_def eff_acquires_flush_table_lock_def
      eff_acquires_backup_lock_def disj_assoc)

lemma then_claims_no_ending: "\<not> claims_something_ended (eff_then a b)"
  by (simp add: claims_something_ended_def then_defs eff_releases_table_lock_def
      eff_releases_flush_table_lock_def eff_releases_backup_lock_def)

interpretation unit_fold: order_blind_fold "\<lambda>folded statement. eff_then folded (single statement)"
  for single :: "string \<Rightarrow> StatementSessionEffects"
  by unfold_locales (metis then_assoc then_comm)

lemma foldl_unit_pair:
  "foldl (\<lambda>folded statement. (\<lambda>(folded, dropped) (effects, ended).
             (eff_then folded effects, dropped \<or> ended))
           folded (single statement, claims_something_ended (single statement))) (e, d) statements
   = (foldl (\<lambda>folded statement. eff_then folded (single statement)) e statements,
      d \<or> (\<exists>s\<in>set statements. claims_something_ended (single s)))"
  by (induction statements arbitrary: e d) auto

definition may_hold_work :: "StatementSessionEffects \<Rightarrow> bool" where
  "may_hold_work e \<longleftrightarrow>
     eff_may_leave_uncommitted_work e \<or> eff_starts_transaction_state e
     \<or> eff_opens_or_preserves_transaction_state e
     \<or> eff_requires_transaction_decision_after_success e"

abbreviation unit_merge ::
    "(string \<Rightarrow> StatementSessionEffects) \<Rightarrow> string \<Rightarrow> string list \<Rightarrow> StatementSessionEffects" where
  "unit_merge single sql statements \<equiv>
     foldl (\<lambda>folded statement. eff_then folded (single statement)) (single sql) statements"

lemma for_unit_single:
  "length (unit_statements split db_type sql) < 2 \<Longrightarrow> for_unit split db_type sql single = single sql"
  by (simp add: for_unit_def fold_over_unit_statements_def Let_def)

lemma for_unit_several:
  assumes "\<not> length (unit_statements split db_type sql) < 2"
  shows "for_unit split db_type sql single =
    (let folded = unit_merge single sql (unit_statements split db_type sql)
     in if (\<exists>t \<in> insert sql (set (unit_statements split db_type sql)).
             claims_something_ended (single t)) \<and> may_hold_work folded
        then folded\<lparr>transaction := (transaction folded)\<lparr>may_open_untracked_transaction := True\<rparr>\<rparr>
        else folded)"
  using assms
  by (auto simp: for_unit_def fold_over_unit_statements_def Let_def foldl_unit_pair may_hold_work_def)

lemma then_additive:
  "may_hold_work (eff_then a b) \<longleftrightarrow> may_hold_work a \<or> may_hold_work b"
  "eff_may_open_untracked_transaction (eff_then a b) \<longleftrightarrow>
     eff_may_open_untracked_transaction a \<or> eff_may_open_untracked_transaction b"
  by (auto simp: may_hold_work_def then_defs effect_defs)

lemma unit_merge_additive:
  assumes "\<And>a b. P (eff_then a b) \<longleftrightarrow> P a \<or> P b"
  shows "P (foldl (\<lambda>folded statement. eff_then folded (single statement)) e statements)
         \<longleftrightarrow> P e \<or> (\<exists>s\<in>set statements. P (single s))"
  using assms by (induction statements arbitrary: e) auto

lemma unit_merge_no_ending:
  "statements \<noteq> [] \<Longrightarrow>
     \<not> claims_something_ended
        (foldl (\<lambda>folded statement. eff_then folded (single statement)) e statements)"
  by (cases statements rule: rev_cases) (simp_all add: then_claims_no_ending)

lemma claims_ended_flag [simp]:
  "claims_something_ended (e\<lparr>transaction := (transaction e)\<lparr>may_open_untracked_transaction := b\<rparr>\<rparr>)
   = claims_something_ended e"
  by (simp add: claims_something_ended_def effect_defs)

lemma opens_untracked_flag [simp]:
  "eff_may_open_untracked_transaction
     (e\<lparr>transaction := (transaction e)\<lparr>may_open_untracked_transaction := b\<rparr>\<rparr>) = b"
  by (simp add: eff_may_open_untracked_transaction_def)

definition unit_texts :: "'tool splitter \<Rightarrow> DatabaseType \<Rightarrow> string \<Rightarrow> string set" where
  "unit_texts split db_type sql = insert sql (set (unit_statements split db_type sql))"

section \<open>Properties\<close>

text \<open>
  C26. The answer for an executor unit does not depend on the order in which its statements are met:
  two splits of the same text that find the same statements, in any order, give the same effects.
  This is why a unit that ends something has to be settled by the server.
\<close>

theorem unit_answer_reads_no_order:
  assumes "mset (unit_statements split db_type sql) = mset (unit_statements split' db_type sql)"
  shows "for_unit split db_type sql single = for_unit split' db_type sql single"
proof -
  let ?xs = "unit_statements split db_type sql" and ?ys = "unit_statements split' db_type sql"
  have len: "length ?xs = length ?ys" and set: "set ?xs = set ?ys"
    using assms by (metis size_mset, metis set_mset_mset)
  have "unit_merge single sql ?xs = unit_merge single sql ?ys"
    using assms by (rule unit_fold.foldl_perm)
  then show ?thesis
    by (cases "length ?ys < 2") (simp_all add: for_unit_single for_unit_several len set)
qed

definition insert_effects :: "string \<Rightarrow> StatementSessionEffects" where
  "insert_effects sql =
     effects_default\<lparr>transaction := transaction_effects_default
       \<lparr>may_leave_uncommitted_work := sql = ''INSERT'', clears_state := sql = ''COMMIT''\<rparr>\<rparr>"

theorem unit_answer_reads_no_order_witness:
  "for_unit (\<lambda>_ _. [StatementItem ''INSERT'', ToolCommandItem (), StatementItem ''COMMIT'']) MySQL
     ''INSERT; COMMIT'' insert_effects
   = for_unit (\<lambda>_ _. [StatementItem ''COMMIT'', StatementItem ''INSERT'', ToolCommandItem ()]) MySQL
     ''INSERT; COMMIT'' insert_effects"
  by (rule unit_answer_reads_no_order) (simp add: unit_statements_def List.map_filter_def)

text \<open>
  The answer for a unit is exact when the unit holds one statement: it is the answer for the
  text as given. For several statements it never claims that anything ended, it may hold work
  exactly when the text or one of its statements may, and it is marked as a transaction the
  application could not read exactly when a statement already was, or when something in the unit
  ended while something in it may hold work.
\<close>

theorem unit_answer_exact:
  "if length (unit_statements split db_type sql) < 2
         then for_unit split db_type sql single = single sql
         else \<not> claims_something_ended (for_unit split db_type sql single)
              \<and> (eff_may_open_untracked_transaction (for_unit split db_type sql single) \<longleftrightarrow>
                   (\<exists>t. t \<in> unit_texts split db_type sql
                        \<and> eff_may_open_untracked_transaction (single t))
                   \<or> (\<exists>t. t \<in> unit_texts split db_type sql \<and> claims_something_ended (single t))
                     \<and> (\<exists>t. t \<in> unit_texts split db_type sql \<and> may_hold_work (single t)))"
proof (cases "length (unit_statements split db_type sql) < 2")
  case True
  then show ?thesis by (simp add: for_unit_single)
next
  case False
  let ?xs = "unit_statements split db_type sql"
  have ne: "?xs \<noteq> []" using False by auto
  have hold: "may_hold_work (unit_merge single sql ?xs) \<longleftrightarrow>
      (\<exists>t. t \<in> unit_texts split db_type sql \<and> may_hold_work (single t))"
    unfolding unit_texts_def by (subst unit_merge_additive) (auto simp: then_additive)
  have open_iff: "eff_may_open_untracked_transaction (unit_merge single sql ?xs) \<longleftrightarrow>
      (\<exists>t. t \<in> unit_texts split db_type sql \<and> eff_may_open_untracked_transaction (single t))"
    unfolding unit_texts_def by (subst unit_merge_additive) (auto simp: then_additive)
  have unit: "for_unit split db_type sql single =
    (let folded = unit_merge single sql ?xs
     in if (\<exists>t. t \<in> unit_texts split db_type sql \<and> claims_something_ended (single t))
           \<and> may_hold_work folded
        then folded\<lparr>transaction := (transaction folded)\<lparr>may_open_untracked_transaction := True\<rparr>\<rparr>
        else folded)"
    using False by (simp add: for_unit_several unit_texts_def Bex_def)
  show ?thesis
    using False ne by (auto simp: unit unit_merge_no_ending hold open_iff Let_def)
qed

end
