(* ===== verification/Txn_Control.thy ===== *)
theory Txn_Control
  imports Statement_Effects
begin

text \<open>
  Reading transaction control from the words of one statement
  (\<^verbatim>\<open>TransactionControlOutcome\<close> and the word-level readers of \<^verbatim>\<open>src/db/transaction.rs\<close>). A statement is
  the list of its upper-case top-level words, which is what \<^verbatim>\<open>SqlStatementAnalysis::words\<close> hands to
  every reader of this theory. The index loop of
  \<^verbatim>\<open>mysql_commit_or_rollback_control_outcome\<close> is the function \<open>completion_loop\<close>; the lemmas
  show that it accepts exactly the renderings of the completion grammar
  \<open>[AND [NO] CHAIN | [NO] RELEASE]*\<close> and what it answers for each of them. The theory also proves
  that the lock readers never see an acquisition and a release of one kind of lock in the same
  statement.
\<close>

section \<open>Looking at words\<close>

definition word_at :: "string list \<Rightarrow> nat \<Rightarrow> string \<Rightarrow> bool" where
  "word_at words i w \<longleftrightarrow> i < length words \<and> words ! i = w"

definition leading_keyword :: "string list \<Rightarrow> string option" where
  "leading_keyword words = (case words of [] \<Rightarrow> None | w # _ \<Rightarrow> Some w)"

definition starts_with_words :: "string list \<Rightarrow> string list \<Rightarrow> bool" where
  "starts_with_words words expected \<longleftrightarrow>
     length expected \<le> length words \<and> list_all (\<lambda>(actual, w). actual = w) (zip words expected)"

abbreviation leads :: "string list \<Rightarrow> string \<Rightarrow> bool" where
  "leads words w \<equiv> leading_keyword words = Some w"

definition leads_in :: "string list \<Rightarrow> string list \<Rightarrow> bool" where
  "leads_in words ws \<longleftrightarrow> (case leading_keyword words of None \<Rightarrow> False | Some w \<Rightarrow> w \<in> set ws)"

fun has_window2 :: "string \<Rightarrow> string \<Rightarrow> string list \<Rightarrow> bool" where
  "has_window2 a b (x # y # ws) \<longleftrightarrow> x = a \<and> y = b \<or> has_window2 a b (y # ws)"
| "has_window2 a b _ \<longleftrightarrow> False"

fun has_window3 :: "string \<Rightarrow> string \<Rightarrow> string \<Rightarrow> string list \<Rightarrow> bool" where
  "has_window3 a b c (x # y # z # ws) \<longleftrightarrow>
     x = a \<and> y = b \<and> z = c \<or> has_window3 a b c (y # z # ws)"
| "has_window3 a b c _ \<longleftrightarrow> False"

lemma leading_keyword_simps [simp]:
  "leading_keyword [] = None" "leading_keyword (w # ws) = Some w"
  by (simp_all add: leading_keyword_def)

lemma starts_with_words_simps [simp]:
  "starts_with_words words [] \<longleftrightarrow> True"
  "starts_with_words [] (v # vs) \<longleftrightarrow> False"
  "starts_with_words (w # ws) (v # vs) \<longleftrightarrow> w = v \<and> starts_with_words ws vs"
  by (auto simp: starts_with_words_def)

lemma word_at_simps [simp]:
  "word_at [] i v \<longleftrightarrow> False"
  "word_at (w # ws) 0 v \<longleftrightarrow> w = v"
  "word_at (w # ws) (Suc i) v \<longleftrightarrow> word_at ws i v"
  by (auto simp: word_at_def)

lemma starts_with_words_Cons:
  "starts_with_words words (v # vs) \<longleftrightarrow> leads words v \<and> starts_with_words (tl words) vs"
  by (cases words) auto

lemma starts_with_words_leads: "starts_with_words words (v # vs) \<Longrightarrow> leads words v"
  by (cases words) auto

lemma leads_in_iff: "leads_in words ws \<longleftrightarrow> (\<exists>w \<in> set ws. leads words w)"
  by (auto simp: leads_in_def split: option.splits)

lemma leads_in_known [simp]: "leads words w \<Longrightarrow> leads_in words ws \<longleftrightarrow> w \<in> set ws"
  by (simp add: leads_in_def)

section \<open>Outcomes\<close>

datatype TransactionControlOutcome =
  NotTransactionControl | OutcomeClean | StartsTransaction | PreservesTransaction
  | RequiresDecision | ReleasesSession

definition outcome_clears_transaction_state :: "TransactionControlOutcome \<Rightarrow> bool" where
  "outcome_clears_transaction_state t \<longleftrightarrow> t = OutcomeClean \<or> t = ReleasesSession"

definition outcome_starts_transaction_state :: "TransactionControlOutcome \<Rightarrow> bool" where
  "outcome_starts_transaction_state t \<longleftrightarrow> t = StartsTransaction"

definition outcome_requires_transaction_decision :: "TransactionControlOutcome \<Rightarrow> bool" where
  "outcome_requires_transaction_decision t \<longleftrightarrow> t = RequiresDecision"

definition outcome_preserves_transaction_state :: "TransactionControlOutcome \<Rightarrow> bool" where
  "outcome_preserves_transaction_state t \<longleftrightarrow> t = PreservesTransaction"

definition outcome_releases_physical_session :: "TransactionControlOutcome \<Rightarrow> bool" where
  "outcome_releases_physical_session t \<longleftrightarrow> t = ReleasesSession"

definition is_transaction_control :: "TransactionControlOutcome \<Rightarrow> bool" where
  "is_transaction_control t \<longleftrightarrow> t \<noteq> NotTransactionControl"

lemmas outcome_defs =
  outcome_clears_transaction_state_def outcome_starts_transaction_state_def
  outcome_requires_transaction_decision_def outcome_preserves_transaction_state_def
  outcome_releases_physical_session_def is_transaction_control_def

section \<open>COMMIT and ROLLBACK\<close>

definition statement_is_plain_keyword :: "string list \<Rightarrow> string \<Rightarrow> bool" where
  "statement_is_plain_keyword words keyword \<longleftrightarrow>
     leads words keyword \<and>
     (if length words \<le> 1 then True
      else if words ! 1 = ''WORK'' then length words \<le> 2
      else False)"

definition skip_optional_work :: "string list \<Rightarrow> nat \<Rightarrow> nat" where
  "skip_optional_work words index = (if word_at words index ''WORK'' then index + 1 else index)"

definition oracle_commit_control_outcome :: "string list \<Rightarrow> TransactionControlOutcome" where
  "oracle_commit_control_outcome words =
     (let index = skip_optional_work words 1
      in if length words \<le> index then OutcomeClean
         else if words ! index \<in> {''COMMENT'', ''WRITE''} then OutcomeClean
         else RequiresDecision)"

definition oracle_rollback_control_outcome :: "string list \<Rightarrow> TransactionControlOutcome" where
  "oracle_rollback_control_outcome words =
     (let index = skip_optional_work words 1
      in if length words \<le> index then OutcomeClean
         else if words ! index = ''TO'' then PreservesTransaction
         else RequiresDecision)"

definition oracle_transaction_control_outcome_for_words ::
    "string list \<Rightarrow> TransactionControlOutcome" where
  "oracle_transaction_control_outcome_for_words words =
     (if leads words ''COMMIT'' then oracle_commit_control_outcome words
      else if leads words ''ROLLBACK'' then oracle_rollback_control_outcome words
      else NotTransactionControl)"

text \<open>The loop of \<^verbatim>\<open>mysql_commit_or_rollback_control_outcome\<close>, started at \<open>index\<close>.\<close>

function completion_loop ::
    "string list \<Rightarrow> nat \<Rightarrow> bool \<Rightarrow> bool \<Rightarrow> TransactionControlOutcome" where
  "completion_loop words index starts_chain releases =
     (if length words \<le> index then
        (if releases then ReleasesSession
         else if starts_chain then StartsTransaction
         else OutcomeClean)
      else if words ! index = ''AND'' then
        (if word_at words (index + 1) ''CHAIN'' then completion_loop words (index + 2) True releases
         else if word_at words (index + 1) ''NO'' \<and> word_at words (index + 2) ''CHAIN'' then
           completion_loop words (index + 3) False releases
         else RequiresDecision)
      else if words ! index = ''NO'' \<and> word_at words (index + 1) ''RELEASE'' then
        completion_loop words (index + 2) starts_chain releases
      else if words ! index = ''RELEASE'' then completion_loop words (index + 1) starts_chain True
      else RequiresDecision)"
  by pat_completeness auto
termination
  by (relation "measure (\<lambda>(words, index, _). length words - index)") auto

declare completion_loop.simps [simp del]

definition mysql_commit_or_rollback_control_outcome ::
    "string list \<Rightarrow> TransactionControlOutcome" where
  "mysql_commit_or_rollback_control_outcome words =
     (let index = skip_optional_work words 1
      in if leads words ''ROLLBACK'' \<and> word_at words index ''TO'' then PreservesTransaction
         else completion_loop words index False False)"

definition mysql_xa_control_outcome :: "string list \<Rightarrow> TransactionControlOutcome" where
  "mysql_xa_control_outcome words =
     (if \<not> leads words ''XA'' then NotTransactionControl
      else if length words \<le> 1 then NotTransactionControl
      else if words ! 1 \<in> {''START'', ''BEGIN''} then StartsTransaction
      else if words ! 1 \<in> {''END'', ''PREPARE''} then PreservesTransaction
      else if words ! 1 \<in> {''COMMIT'', ''ROLLBACK''} then OutcomeClean
      else if words ! 1 = ''RECOVER'' then NotTransactionControl
      else RequiresDecision)"

section \<open>Word predicates\<close>

definition mysql_statement_is_begin_not_atomic_for_words :: "string list \<Rightarrow> bool" where
  "mysql_statement_is_begin_not_atomic_for_words words \<longleftrightarrow>
     leads words ''BEGIN'' \<and> word_at words 1 ''NOT'' \<and> word_at words 2 ''ATOMIC''"

definition mysql_release_savepoint_statement :: "string list \<Rightarrow> bool" where
  "mysql_release_savepoint_statement words = starts_with_words words [''RELEASE'', ''SAVEPOINT'']"

definition mysql_transaction_control_outcome_for_words ::
    "string list \<Rightarrow> TransactionControlOutcome" where
  "mysql_transaction_control_outcome_for_words words =
     (if leads words ''BEGIN'' \<and> mysql_statement_is_begin_not_atomic_for_words words then
        NotTransactionControl
      else if leads words ''START'' \<and> word_at words 1 ''TRANSACTION'' then StartsTransaction
      else if leads words ''BEGIN'' then StartsTransaction
      else if leads words ''SAVEPOINT'' then PreservesTransaction
      else if leads words ''RELEASE'' \<and> mysql_release_savepoint_statement words then
        PreservesTransaction
      else if leads_in words [''COMMIT'', ''ROLLBACK''] then
        mysql_commit_or_rollback_control_outcome words
      else if leads words ''XA'' then mysql_xa_control_outcome words
      else NotTransactionControl)"

definition after_or_replace :: "string list \<Rightarrow> nat" where
  "after_or_replace words =
     (if word_at words 1 ''OR'' \<and> word_at words 2 ''REPLACE'' then 3 else 1)"

definition mysql_create_statement_is_temporary :: "string list \<Rightarrow> bool" where
  "mysql_create_statement_is_temporary words \<longleftrightarrow>
     leads words ''CREATE'' \<and> word_at words (after_or_replace words) ''TEMPORARY''"

definition mysql_create_table_statement :: "string list \<Rightarrow> bool" where
  "mysql_create_table_statement words \<longleftrightarrow>
     leads words ''CREATE'' \<and>
     (let index = after_or_replace words;
          index = (if word_at words index ''TEMPORARY'' then index + 1 else index)
      in word_at words index ''TABLE'')"

definition mysql_create_table_select_statement :: "string list \<Rightarrow> bool" where
  "mysql_create_table_select_statement words \<longleftrightarrow>
     mysql_create_table_statement words \<and> ''SELECT'' \<in> set words"

definition mysql_drop_statement_is_temporary :: "string list \<Rightarrow> bool" where
  "mysql_drop_statement_is_temporary words = starts_with_words words [''DROP'', ''TEMPORARY'']"

definition mysql_set_password_statement :: "string list \<Rightarrow> bool" where
  "mysql_set_password_statement words = starts_with_words words [''SET'', ''PASSWORD'']"

definition mysql_set_default_role_statement :: "string list \<Rightarrow> bool" where
  "mysql_set_default_role_statement words =
     starts_with_words words [''SET'', ''DEFAULT'', ''ROLE'']"

definition mysql_set_account_ddl_statement :: "string list \<Rightarrow> bool" where
  "mysql_set_account_ddl_statement words \<longleftrightarrow>
     mysql_set_password_statement words \<or> mysql_set_default_role_statement words"

definition mysql_reset_connection_statement :: "string list \<Rightarrow> bool" where
  "mysql_reset_connection_statement words = starts_with_words words [''RESET'', ''CONNECTION'']"

definition mysql_reset_persist_statement :: "string list \<Rightarrow> bool" where
  "mysql_reset_persist_statement words = starts_with_words words [''RESET'', ''PERSIST'']"

definition mysql_replication_verb_statement :: "string list \<Rightarrow> bool" where
  "mysql_replication_verb_statement words \<longleftrightarrow>
     leads_in words [''START'', ''STOP'', ''RESET''] \<and>
     (let noun = (if word_at words 1 ''ALL'' then 2 else 1)
      in noun < length words \<and>
         words ! noun \<in> {''SLAVE'', ''SLAVES'', ''REPLICA'', ''REPLICAS'', ''GROUP_REPLICATION''})"

definition mysql_replication_control_statement :: "string list \<Rightarrow> bool" where
  "mysql_replication_control_statement words \<longleftrightarrow>
     starts_with_words words [''CHANGE'', ''REPLICATION'', ''SOURCE''] \<or>
     starts_with_words words [''CHANGE'', ''MASTER''] \<or>
     mysql_replication_verb_statement words"

definition mysql_load_index_statement :: "string list \<Rightarrow> bool" where
  "mysql_load_index_statement words = starts_with_words words [''LOAD'', ''INDEX'']"

definition mysql_set_next_transaction_statement :: "string list \<Rightarrow> bool" where
  "mysql_set_next_transaction_statement words = starts_with_words words [''SET'', ''TRANSACTION'']"

definition mysql_set_session_transaction_statement :: "string list \<Rightarrow> bool" where
  "mysql_set_session_transaction_statement words \<longleftrightarrow>
     starts_with_words words [''SET'', ''SESSION'', ''TRANSACTION''] \<or>
     starts_with_words words [''SET'', ''LOCAL'', ''TRANSACTION'']"

definition mysql_rollback_targets_savepoint :: "string list \<Rightarrow> bool" where
  "mysql_rollback_targets_savepoint words \<longleftrightarrow>
     leads words ''ROLLBACK'' \<and>
     outcome_preserves_transaction_state (mysql_transaction_control_outcome_for_words words)"

definition mysql_statement_preserves_current_transaction_without_starting_one ::
    "string list \<Rightarrow> bool" where
  "mysql_statement_preserves_current_transaction_without_starting_one words \<longleftrightarrow>
     leads words ''SAVEPOINT'' \<or> mysql_release_savepoint_statement words \<or>
     mysql_rollback_targets_savepoint words"

definition mysql_transaction_control_starts_chain :: "string list \<Rightarrow> bool" where
  "mysql_transaction_control_starts_chain words \<longleftrightarrow>
     leads_in words [''COMMIT'', ''ROLLBACK''] \<and>
     outcome_starts_transaction_state (mysql_transaction_control_outcome_for_words words)"

definition mysql_statement_may_open_untracked_transaction :: "string list \<Rightarrow> bool" where
  "mysql_statement_may_open_untracked_transaction words \<longleftrightarrow>
     (if leads_in words [''CALL'', ''EXECUTE''] then True
      else if leads words ''BEGIN'' then mysql_statement_is_begin_not_atomic_for_words words
      else False)"

definition mysql_statement_opens_transaction_state :: "string list \<Rightarrow> bool" where
  "mysql_statement_opens_transaction_state words \<longleftrightarrow>
     (if leads words ''START'' then word_at words 1 ''TRANSACTION''
      else if leads words ''BEGIN'' \<and> mysql_statement_is_begin_not_atomic_for_words words then False
      else if leads words ''BEGIN'' then True
      else if leads words ''XA'' then
        outcome_starts_transaction_state (mysql_transaction_control_outcome_for_words words)
      else if leads_in words [''COMMIT'', ''ROLLBACK''] then
        mysql_transaction_control_starts_chain words
      else False)"

definition mysql_handler_open_statement :: "string list \<Rightarrow> bool" where
  "mysql_handler_open_statement words \<longleftrightarrow> leads words ''HANDLER'' \<and> ''OPEN'' \<in> set words"

subsection \<open>Lock statements\<close>

definition mysql_statement_acquires_table_lock :: "string list \<Rightarrow> bool" where
  "mysql_statement_acquires_table_lock words \<longleftrightarrow>
     starts_with_words words [''LOCK'', ''TABLES''] \<or> starts_with_words words [''LOCK'', ''TABLE'']"

definition mysql_statement_releases_table_lock :: "string list \<Rightarrow> bool" where
  "mysql_statement_releases_table_lock words \<longleftrightarrow>
     starts_with_words words [''UNLOCK'', ''TABLES''] \<or>
     starts_with_words words [''UNLOCK'', ''TABLE''] \<or>
     mysql_reset_connection_statement words \<or>
     starts_with_words words [''START'', ''TRANSACTION''] \<or>
     leads words ''BEGIN'' \<and> \<not> mysql_statement_is_begin_not_atomic_for_words words"

definition mysql_statement_acquires_global_read_lock :: "string list \<Rightarrow> bool" where
  "mysql_statement_acquires_global_read_lock words \<longleftrightarrow>
     leads words ''FLUSH'' \<and> ''TABLES'' \<in> set words \<and>
     has_window3 ''WITH'' ''READ'' ''LOCK'' words"

definition mysql_statement_acquires_flush_tables_for_export_lock :: "string list \<Rightarrow> bool" where
  "mysql_statement_acquires_flush_tables_for_export_lock words \<longleftrightarrow>
     leads words ''FLUSH'' \<and> ''TABLES'' \<in> set words \<and> has_window2 ''FOR'' ''EXPORT'' words"

definition mysql_statement_acquires_flush_table_lock :: "string list \<Rightarrow> bool" where
  "mysql_statement_acquires_flush_table_lock words \<longleftrightarrow>
     mysql_statement_acquires_global_read_lock words \<or>
     mysql_statement_acquires_flush_tables_for_export_lock words"

definition mysql_statement_releases_flush_table_lock :: "string list \<Rightarrow> bool" where
  "mysql_statement_releases_flush_table_lock words \<longleftrightarrow>
     starts_with_words words [''UNLOCK'', ''TABLES''] \<or>
     starts_with_words words [''UNLOCK'', ''TABLE''] \<or>
     mysql_reset_connection_statement words"

definition mysql_statement_releases_backup_lock :: "string list \<Rightarrow> bool" where
  "mysql_statement_releases_backup_lock words \<longleftrightarrow>
     starts_with_words words [''UNLOCK'', ''INSTANCE''] \<or>
     starts_with_words words [''BACKUP'', ''STAGE'', ''END''] \<or>
     starts_with_words words [''BACKUP'', ''UNLOCK''] \<or>
     mysql_reset_connection_statement words"

definition mysql_statement_acquires_backup_lock :: "string list \<Rightarrow> bool" where
  "mysql_statement_acquires_backup_lock words \<longleftrightarrow>
     starts_with_words words [''LOCK'', ''INSTANCE''] \<or>
     starts_with_words words [''BACKUP'', ''LOCK''] \<or>
     starts_with_words words [''BACKUP'', ''STAGE''] \<and>
       \<not> mysql_statement_releases_backup_lock words"

subsection \<open>Oracle statements\<close>

definition oracle_statement_opens_or_preserves_transaction_state_for_words ::
    "string list \<Rightarrow> bool" where
  "oracle_statement_opens_or_preserves_transaction_state_for_words words \<longleftrightarrow>
     (if leads words ''SAVEPOINT'' then True
      else if leads words ''ROLLBACK'' then word_at words (skip_optional_work words 1) ''TO''
      else if leads words ''SET'' then
        word_at words 1 ''TRANSACTION'' \<or> word_at words 1 ''CONSTRAINT'' \<or>
        word_at words 1 ''CONSTRAINTS''
      else if leads words ''LOCK'' then word_at words 1 ''TABLE''
      else False)"

definition oracle_set_transaction_statement_for_words :: "string list \<Rightarrow> bool" where
  "oracle_set_transaction_statement_for_words words \<longleftrightarrow>
     leads words ''SET'' \<and> word_at words 1 ''TRANSACTION''"

definition oracle_statement_has_implicit_commit_for_words :: "string list \<Rightarrow> bool" where
  "oracle_statement_has_implicit_commit_for_words words \<longleftrightarrow>
     (if leads words ''ALTER'' \<and> (word_at words 1 ''SESSION'' \<or> word_at words 1 ''SYSTEM'') then False
      else leads_in words
        [''CREATE'', ''ALTER'', ''DROP'', ''TRUNCATE'', ''RENAME'', ''GRANT'', ''REVOKE'',
         ''COMMENT'', ''ANALYZE'', ''AUDIT'', ''NOAUDIT'', ''PURGE'', ''FLASHBACK'',
         ''ASSOCIATE'', ''DISASSOCIATE'', ''ADMINISTER''])"

definition oracle_statement_should_skip_auto_commit_for_words :: "string list \<Rightarrow> bool" where
  "oracle_statement_should_skip_auto_commit_for_words words \<longleftrightarrow>
     (if is_transaction_control (oracle_transaction_control_outcome_for_words words) then True
      else if oracle_statement_opens_or_preserves_transaction_state_for_words words then True
      else if leads words ''ALTER'' \<and> (word_at words 1 ''SESSION'' \<or> word_at words 1 ''SYSTEM'')
        then True
      else if leads words ''SET'' \<and> word_at words 1 ''ROLE'' then True
      else False)"

definition oracle_statement_may_open_untracked_transaction_for_words :: "string list \<Rightarrow> bool" where
  "oracle_statement_may_open_untracked_transaction_for_words words =
     leads_in words [''BEGIN'', ''DECLARE'', ''CALL'', ''EXEC'', ''EXECUTE'']"

definition oracle_creates_private_temporary_table :: "string list \<Rightarrow> bool" where
  "oracle_creates_private_temporary_table words \<longleftrightarrow>
     leads words ''CREATE'' \<and> word_at words 1 ''PRIVATE'' \<and> word_at words 2 ''TEMPORARY'' \<and>
     word_at words 3 ''TABLE''"

datatype OracleAlterSessionTarget = CurrentSchema | IsolationLevel | NotRestatedByPoolSetup

definition oracle_alter_session_isolation_level_value ::
    "string list \<Rightarrow> TransactionIsolation option" where
  "oracle_alter_session_isolation_level_value v =
     (if v = [''SERIALIZABLE''] then Some Serializable
      else if v = [''READ'', ''COMMITTED''] then Some ReadCommitted
      else None)"

text \<open>
  \<open>assignments\<close> is the number of assignments the statement's text holds
  (\<^verbatim>\<open>statement_assignment_count\<close>); the words alone cannot tell, because the tokenizer drops quoted
  and numeric values.
\<close>

definition oracle_alter_session_set_target ::
    "nat \<Rightarrow> string list \<Rightarrow> OracleAlterSessionTarget" where
  "oracle_alter_session_set_target assignments words =
     (if \<not> (leads words ''ALTER'' \<and> word_at words 1 ''SESSION'' \<and> word_at words 2 ''SET'') then
        NotRestatedByPoolSetup
      else if assignments \<noteq> 1 then NotRestatedByPoolSetup
      else if word_at words 3 ''CURRENT_SCHEMA'' then CurrentSchema
      else if word_at words 3 ''ISOLATION_LEVEL'' \<and>
          oracle_alter_session_isolation_level_value (drop 4 words) \<noteq> None then IsolationLevel
      else NotRestatedByPoolSetup)"

definition oracle_session_residue_effects ::
    "nat \<Rightarrow> string list \<Rightarrow> StatementSessionResidueEffects" where
  "oracle_session_residue_effects assignments words =
     (let unknown_state = residue_effects_default\<lparr>may_leave_unknown_state := True\<rparr>
      in if \<not> (leads words ''ALTER'' \<and> word_at words 1 ''SESSION'') then
           (if oracle_statement_may_open_untracked_transaction_for_words words then unknown_state
            else if oracle_creates_private_temporary_table words then
              residue_effects_default\<lparr>creates_temporary_table := True\<rparr>
            else if leads words ''SET'' \<and> word_at words 1 ''ROLE'' then unknown_state
            else residue_effects_default)
         else if length words \<le> 2 then residue_effects_default
         else if words ! 2 = ''SET'' then
           (case oracle_alter_session_set_target assignments words of
              CurrentSchema \<Rightarrow> residue_effects_default
            | IsolationLevel \<Rightarrow>
                residue_effects_default\<lparr>sets_transaction_mode_override := True\<rparr>
            | NotRestatedByPoolSetup \<Rightarrow> unknown_state)
         else if words ! 2 = ''RESET'' then
           residue_effects_default\<lparr>clears_all_session_residue := True\<rparr>
         else if words ! 2 = ''CLOSE'' \<and> word_at words 3 ''DATABASE'' then residue_effects_default
         else unknown_state)"

section \<open>One statement never takes and gives back the same lock\<close>

lemma table_lock_readers_disjoint:
  "\<not> (mysql_statement_acquires_table_lock words \<and> mysql_statement_releases_table_lock words)"
  by (cases words)
    (auto simp: mysql_statement_acquires_table_lock_def mysql_statement_releases_table_lock_def
      mysql_reset_connection_statement_def)

lemma flush_lock_readers_disjoint:
  "\<not> (mysql_statement_acquires_flush_table_lock words \<and>
      mysql_statement_releases_flush_table_lock words)"
  by (cases words)
    (auto simp: mysql_statement_acquires_flush_table_lock_def
      mysql_statement_acquires_global_read_lock_def mysql_reset_connection_statement_def
      mysql_statement_acquires_flush_tables_for_export_lock_def
      mysql_statement_releases_flush_table_lock_def)

lemma backup_lock_readers_disjoint:
  "\<not> (mysql_statement_acquires_backup_lock words \<and> mysql_statement_releases_backup_lock words)"
  by (cases words; cases "tl words")
    (auto simp: mysql_statement_acquires_backup_lock_def mysql_statement_releases_backup_lock_def
      mysql_reset_connection_statement_def)

lemmas lock_readers_disjoint =
  table_lock_readers_disjoint flush_lock_readers_disjoint backup_lock_readers_disjoint

section \<open>The completion grammar\<close>

text \<open>
  The reference reading of what may follow \<open>COMMIT [WORK]\<close> and \<open>ROLLBACK [WORK]\<close>: a list of
  completion items, rendered as words. A release wins over everything; otherwise the last chain
  item decides whether a new transaction is open.
\<close>

datatype completion_item = AndChain | AndNoChain | Release | NoRelease

fun item_words :: "completion_item \<Rightarrow> string list" where
  "item_words AndChain = [''AND'', ''CHAIN'']"
| "item_words AndNoChain = [''AND'', ''NO'', ''CHAIN'']"
| "item_words Release = [''RELEASE'']"
| "item_words NoRelease = [''NO'', ''RELEASE'']"

definition render :: "completion_item list \<Rightarrow> string list" where
  "render items = concat (map item_words items)"

fun chain_after :: "bool \<Rightarrow> completion_item list \<Rightarrow> bool" where
  "chain_after c [] = c"
| "chain_after c (AndChain # items) = chain_after True items"
| "chain_after c (AndNoChain # items) = chain_after False items"
| "chain_after c (_ # items) = chain_after c items"

definition completion_reading ::
    "bool \<Rightarrow> bool \<Rightarrow> completion_item list \<Rightarrow> TransactionControlOutcome" where
  "completion_reading c r items =
     (if r \<or> Release \<in> set items then ReleasesSession
      else if chain_after c items then StartsTransaction
      else OutcomeClean)"

definition completion_tail :: "string list \<Rightarrow> string list" where
  "completion_tail words = drop (skip_optional_work words 1) words"

lemma render_simps [simp]:
  "render [] = []" "render (i # items) = item_words i @ render items"
  by (simp_all add: render_def)

lemma word_at_drop: "word_at words (i + k) w \<longleftrightarrow> k < length (drop i words) \<and> drop i words ! k = w"
  by (auto simp: word_at_def less_diff_conv add.commute)

lemma word_at_iff_drop: "word_at words i w \<longleftrightarrow> (\<exists>rest. drop i words = w # rest)"
  by (metis Cons_nth_drop_Suc drop_eq_Nil list.distinct(1) not_le nth_via_drop word_at_def)

lemma completion_loop_drop:
  assumes "drop i words = w # ws"
  shows "completion_loop words i c r =
    (if w = ''AND'' then
       (if ws \<noteq> [] \<and> hd ws = ''CHAIN'' then completion_loop words (i + 2) True r
        else if ws \<noteq> [] \<and> hd ws = ''NO'' \<and> tl ws \<noteq> [] \<and> hd (tl ws) = ''CHAIN'' then
          completion_loop words (i + 3) False r
        else RequiresDecision)
     else if w = ''NO'' \<and> ws \<noteq> [] \<and> hd ws = ''RELEASE'' then completion_loop words (i + 2) c r
     else if w = ''RELEASE'' then completion_loop words (i + 1) c True
     else RequiresDecision)"
proof -
  have i: "i < length words" and w: "words ! i = w"
    using assms by (auto simp: drop_eq_Nil nth_via_drop intro: ccontr)
  have at1: "word_at words (i + 1) v \<longleftrightarrow> ws \<noteq> [] \<and> hd ws = v" for v
    unfolding word_at_drop assms by (cases ws) auto
  have at2: "word_at words (i + 2) v \<longleftrightarrow> ws \<noteq> [] \<and> tl ws \<noteq> [] \<and> hd (tl ws) = v" for v
    unfolding word_at_drop assms by (cases ws; cases "tl ws") auto
  show ?thesis
    using i by (subst completion_loop.simps) (simp only: w at1 at2 not_le if_not_P not_less, auto)
qed

lemma completion_loop_end [simp]:
  "length words \<le> i \<Longrightarrow> completion_loop words i c r = completion_reading c r []"
  by (subst completion_loop.simps) (simp add: completion_reading_def)

lemma completion_loop_render:
  "drop i words = render items \<Longrightarrow> completion_loop words i c r = completion_reading c r items"
proof (induction items arbitrary: i c r)
  case Nil
  then show ?case by simp
next
  case (Cons item items)
  have rest: "drop (i + length (item_words item)) words = render items"
    using arg_cong [OF Cons.prems, of "drop (length (item_words item))"]
    by (simp add: add.commute)
  note IH = Cons.IH [OF rest]
  show ?case
    using IH Cons.prems
    by (cases item) (simp_all add: completion_loop_drop completion_reading_def numeral_eq_Suc)
qed

lemma completion_loop_accepts:
  "completion_loop words i c r \<noteq> RequiresDecision \<Longrightarrow> \<exists>items. drop i words = render items"
proof (induction "length words - i" arbitrary: i c r rule: less_induct)
  case less
  show ?case
  proof (cases "drop i words")
    case Nil
    then show ?thesis by (metis render_simps(1))
  next
    case (Cons w ws)
    have i: "i < length words" using Cons by (metis drop_eq_Nil list.distinct(1) not_le)
    have extend: "\<exists>items. drop i words = render items"
      if "w # ws = item_words item @ drop (length (item_words item)) (w # ws)"
        and "completion_loop words (i + length (item_words item)) c' r' \<noteq> RequiresDecision"
      for item c' r'
    proof -
      have "0 < length (item_words item)" by (cases item) auto
      with i have "length words - (i + length (item_words item)) < length words - i" by linarith
      from less.hyps [OF this that(2)] obtain items
        where "drop (i + length (item_words item)) words = render items" by blast
      with that(1) Cons have "drop i words = render (item # items)"
        by (metis add.commute drop_drop render_simps(2))
      then show ?thesis by blast
    qed
    show ?thesis
      using less.prems
        extend [of AndChain] extend [of AndNoChain] extend [of Release] extend [of NoRelease]
      unfolding completion_loop_drop [OF Cons]
      by (cases ws; cases "tl ws") (auto simp: numeral_eq_Suc split: if_splits)
  qed
qed

text \<open>
  C22. What MySQL's COMMIT and ROLLBACK readers answer, for every list of words: a ROLLBACK TO
  keeps the transaction; a statement whose words after the optional WORK are a rendering of
  completion items gets the reading of those items (released if any item releases, a new
  transaction if the last chain item opens one, clean otherwise); and every other statement, and
  only such a statement, is left to the user's decision.
\<close>

theorem mysql_completion_grammar:
  "mysql_commit_or_rollback_control_outcome words = t \<longleftrightarrow>
     (if leads words ''ROLLBACK'' \<and> (\<exists>rest. completion_tail words = ''TO'' # rest)
      then t = PreservesTransaction
      else if \<exists>items. completion_tail words = render items
      then \<exists>items. completion_tail words = render items \<and> t = completion_reading False False items
      else t = RequiresDecision)"
proof -
  let ?i = "skip_optional_work words 1"
  have to: "word_at words ?i ''TO'' \<longleftrightarrow> (\<exists>rest. completion_tail words = ''TO'' # rest)"
    unfolding completion_tail_def by (rule word_at_iff_drop)
  have loop: "completion_loop words ?i False False = t \<longleftrightarrow>
     (if \<exists>items. completion_tail words = render items
      then \<exists>items. completion_tail words = render items \<and> t = completion_reading False False items
      else t = RequiresDecision)"
    using completion_loop_render [of ?i words _ False False]
      completion_loop_accepts [of words ?i False False]
    by (auto simp: completion_tail_def)
  show ?thesis
    unfolding mysql_commit_or_rollback_control_outcome_def Let_def to
    using loop by auto
qed

end
