(* ===== verification/Statement_Transition.thy ===== *)
theory Statement_Transition
  imports Statement_Effects
begin

text \<open>
  How the belief about a session moves when one statement has run on it: the default methods of
  \<^verbatim>\<open>StatementSessionPostProcessor\<close> (no backend overrides them, so they take no post-processor here),
  \<^verbatim>\<open>transaction_session_state_after_statement\<close> and \<^verbatim>\<open>retained_session_state_after_statement\<close> of
  \<^verbatim>\<open>src/db/transaction.rs\<close>. The lemmas show what may lower a claim, that a failed statement lowers
  nothing it cannot answer for, and that the folded effects of a unit over-approximate running its
  statements one after the other.
\<close>

section \<open>The default methods of the post-processor\<close>

definition effects_for_sql ::
    "'tool splitter \<Rightarrow> (string \<Rightarrow> StatementSessionEffects) \<Rightarrow> DatabaseType \<Rightarrow> string
       \<Rightarrow> StatementSessionEffects" where
  "effects_for_sql split effects_for_single_statement db_type sql =
     for_unit split db_type sql effects_for_single_statement"

definition may_need_preservation_after_statement ::
    "TransactionSessionState \<Rightarrow> StatementSessionEffects \<Rightarrow> bool \<Rightarrow> bool \<Rightarrow> bool \<Rightarrow> bool" where
  "may_need_preservation_after_statement prior_state effects server_reports_uncommitted_work
     statement_failed server_probe_used_fallback =
     (let clears_transaction_state =
            eff_has_implicit_commit effects
            \<or> \<not> statement_failed
              \<and> (clears_session_state (state_hint effects) \<or> eff_clears_transaction_state effects)
      in server_reports_uncommitted_work
         \<or> eff_starts_transaction_state effects
         \<or> eff_opens_or_preserves_transaction_state effects
         \<or> tss_may_have_uncommitted_work prior_state \<and> \<not> clears_transaction_state
         \<or> server_probe_used_fallback
           \<and> requires_retention_when_autocommit_off (state_hint effects))"

definition requires_transaction_decision_after_statement ::
    "TransactionSessionState \<Rightarrow> StatementSessionEffects \<Rightarrow> bool \<Rightarrow> bool \<Rightarrow> bool" where
  "requires_transaction_decision_after_statement prior_state effects statement_failed
     interruption_requires_transaction_decision =
     (if interruption_requires_transaction_decision then True
      else if eff_has_implicit_commit effects then False
      else if statement_failed then tss_requires_transaction_decision prior_state
      else if clears_session_state (state_hint effects) \<or> eff_clears_transaction_state effects
        then False
      else tss_requires_transaction_decision prior_state
           \<or> requires_transaction_decision_after_success (state_hint effects))"

section \<open>The state after a statement\<close>

definition transaction_session_state_after_statement ::
    "TransactionSessionState \<Rightarrow> StatementSessionEffects \<Rightarrow> bool \<Rightarrow> bool \<Rightarrow> bool \<Rightarrow> bool
       \<Rightarrow> TransactionSessionState" where
  "transaction_session_state_after_statement prior_state effects server_reports_uncommitted_work
     statement_failed server_probe_used_fallback interruption_requires_transaction_decision =
     (if prior_state = InvalidSession then InvalidSession
      else
        (let requires_decision =
               requires_transaction_decision_after_statement prior_state effects statement_failed
                 interruption_requires_transaction_decision;
             requires_decision =
               requires_decision
               \<or> server_reports_uncommitted_work \<and> tss_requires_transaction_decision prior_state
                 \<and> eff_has_implicit_commit effects;
             may_need_preservation =
               may_need_preservation_after_statement prior_state effects
                 server_reports_uncommitted_work statement_failed server_probe_used_fallback
         in from_flags (may_need_preservation \<or> requires_decision) requires_decision))"

definition residue_after_statement ::
    "SessionResidueState \<Rightarrow> StatementSessionEffects \<Rightarrow> bool \<Rightarrow> SessionResidueState" where
  "residue_after_statement prior effects statement_failed =
     (if statement_failed then
        residue_merged_with (residue_with_statement_diagnostics_cleared prior)
          (residue_from_effects (without_statement_diagnostics (session_residue effects)))
      else if eff_releases_physical_session effects then residue_default
      else residue_after_successful_effects prior (session_residue effects))"

definition lock_after_statement ::
    "SessionLockState \<Rightarrow> StatementSessionEffects \<Rightarrow> bool \<Rightarrow> SessionLockState" where
  "lock_after_statement prior effects statement_failed =
     (if statement_failed then
        new_with_session_locks
          (may_hold_table_lock prior \<or> eff_acquires_table_lock effects)
          (may_hold_flush_table_lock prior \<or> eff_acquires_flush_table_lock effects)
          (may_hold_backup_lock prior \<or> eff_acquires_backup_lock effects)
          (may_hold_named_lock prior \<or> eff_acquires_named_lock effects)
      else if eff_releases_physical_session effects then
        new_with_session_locks False False False False
      else
        new_with_session_locks
          (if eff_releases_table_lock effects then False
           else if eff_acquires_table_lock effects then True
           else may_hold_table_lock prior)
          (if eff_releases_flush_table_lock effects then False
           else if eff_acquires_flush_table_lock effects then True
           else may_hold_flush_table_lock prior)
          (if eff_releases_backup_lock effects then False
           else if eff_acquires_backup_lock effects then True
           else may_hold_backup_lock prior)
          (if eff_acquires_named_lock effects then True
           else if eff_releases_all_named_locks effects then False
           else may_hold_named_lock prior))"

definition retained_session_state_after_statement ::
    "RetainedSessionState \<Rightarrow> StatementSessionEffects \<Rightarrow> bool \<Rightarrow> bool \<Rightarrow> bool \<Rightarrow> bool
       \<Rightarrow> RetainedSessionState" where
  "retained_session_state_after_statement prior_state effects server_reports_uncommitted_work
     statement_failed server_probe_used_fallback interruption_requires_transaction_decision =
     (let released_known_table_lock =
            \<not> statement_failed \<and> \<not> server_probe_used_fallback
            \<and> eff_releases_table_lock effects
            \<and> may_hold_table_lock (lock_state prior_state)
            \<and> \<not> eff_starts_transaction_state effects;
          transaction_state_after =
            (if transaction_state prior_state = InvalidSession then InvalidSession
             else if released_known_table_lock then
               (if clears_session_state (state_hint effects)
                then from_flags server_reports_uncommitted_work False
                else
                  (let prior_requires_decision =
                         tss_requires_transaction_decision (transaction_state prior_state)
                         \<or> interruption_requires_transaction_decision;
                       prior_dirty = retained_may_have_uncommitted_work prior_state
                   in from_flags (server_reports_uncommitted_work \<or> prior_dirty)
                        prior_requires_decision))
             else
               transaction_session_state_after_statement (transaction_state prior_state) effects
                 server_reports_uncommitted_work statement_failed server_probe_used_fallback
                 interruption_requires_transaction_decision)
      in from_parts transaction_state_after
           (residue_after_statement (session_residue_state prior_state) effects statement_failed)
           (lock_after_statement (lock_state prior_state) effects statement_failed))"

lemmas after_statement_defs =
  retained_session_state_after_statement_def transaction_session_state_after_statement_def
  may_need_preservation_after_statement_def requires_transaction_decision_after_statement_def

lemma after_statement_parts [simp]:
  "session_residue_state (retained_session_state_after_statement s e srv failed fb intr) =
     residue_after_statement (session_residue_state s) e failed"
  "lock_state (retained_session_state_after_statement s e srv failed fb intr) =
     lock_after_statement (lock_state s) e failed"
  by (simp_all add: retained_session_state_after_statement_def Let_def from_parts_def)

section \<open>Monotonicity of a successful statement\<close>

lemma residue_after_mono:
  "residue_le r r' \<Longrightarrow> residue_le (residue_after_statement r e failed) (residue_after_statement r' e failed)"
  by (auto simp: residue_le_fields residue_after_statement_def residue_after_successful_effects_def
      state_defs Let_def)

lemma lock_after_mono:
  "lock_le l l' \<Longrightarrow> lock_le (lock_after_statement l e failed) (lock_after_statement l' e failed)"
  by (auto simp: lock_le_fields lock_after_statement_def new_with_session_locks_def)

lemma residue_then_bound:
  "residue_le (residue_after_statement (residue_after_statement r a False) b False)
     (residue_after_statement r (eff_then a b) False)"
  by (auto simp: residue_le_fields residue_after_statement_def residue_after_successful_effects_def
      then_defs state_defs effect_defs Let_def)

lemma lock_then_bound:
  "lock_le (lock_after_statement (lock_after_statement l a False) b False)
     (lock_after_statement l (eff_then a b) False)"
  by (auto simp: lock_le_fields lock_after_statement_def new_with_session_locks_def then_defs
      effect_defs)

text \<open>
  A successful statement never claims more about the transaction than the sum of what was claimed
  before and what it adds.
\<close>

definition transaction_claim_bound ::
    "TransactionSessionState \<Rightarrow> StatementSessionEffects \<Rightarrow> bool \<Rightarrow> bool \<Rightarrow> TransactionSessionState" where
  "transaction_claim_bound prior e srv fb =
     (if prior = InvalidSession then InvalidSession
      else from_flags
        (srv \<or> eff_starts_transaction_state e \<or> eff_opens_or_preserves_transaction_state e
         \<or> prior \<noteq> Clean \<or> fb \<and> requires_retention_when_autocommit_off (state_hint e))
        (tss_requires_transaction_decision prior
         \<or> requires_transaction_decision_after_success (state_hint e)))"

lemma after_statement_claim_bound:
  "transaction_state (retained_session_state_after_statement s e srv False fb False)
   \<le> transaction_claim_bound (transaction_state s) e srv fb"
  by (cases "transaction_state s")
    (auto simp: after_statement_defs transaction_claim_bound_def from_parts_def state_defs Let_def)

lemma then_claim_bound:
  "transaction_state (retained_session_state_after_statement s (eff_then a b) srv False fb False)
   = transaction_claim_bound (transaction_state s) (eff_then a b) srv fb"
  by (cases "transaction_state s")
    (auto simp: after_statement_defs transaction_claim_bound_def from_parts_def then_defs
      state_defs effect_defs Let_def from_flags_def)

lemma claim_bound_then:
  assumes "m \<le> transaction_claim_bound prior a srv fb"
  shows "transaction_claim_bound m b srv fb \<le> transaction_claim_bound prior (eff_then a b) srv fb"
proof (cases "prior = InvalidSession")
  case True
  then show ?thesis by (simp add: transaction_claim_bound_def)
next
  case False
  let ?w = "srv \<or> eff_starts_transaction_state a \<or> eff_opens_or_preserves_transaction_state a
         \<or> prior \<noteq> Clean \<or> fb \<and> requires_retention_when_autocommit_off (state_hint a)"
  let ?d = "tss_requires_transaction_decision prior
         \<or> requires_transaction_decision_after_success (state_hint a)"
  from assms False have m: "m \<le> from_flags ?w ?d"
    by (simp add: transaction_claim_bound_def)
  then have "m \<noteq> InvalidSession"
    and dirty: "m \<noteq> Clean \<Longrightarrow> ?w \<or> ?d"
    and decide: "tss_requires_transaction_decision m \<Longrightarrow> ?d"
    by (cases m; auto simp: from_flags_def less_eq_TransactionSessionState_def
        tss_requires_transaction_decision_def split: if_splits)+
  with False show ?thesis
    by (auto simp: transaction_claim_bound_def then_defs effect_defs)
qed

section \<open>A unit over-approximates its statements\<close>

abbreviation run_statements ::
    "(string \<Rightarrow> StatementSessionEffects) \<Rightarrow> bool \<Rightarrow> bool \<Rightarrow> RetainedSessionState \<Rightarrow> string list
       \<Rightarrow> RetainedSessionState" where
  "run_statements single srv fb prior statements \<equiv>
     foldl (\<lambda>s t. retained_session_state_after_statement s (single t) srv False fb False)
       prior statements"

definition covered_by ::
    "RetainedSessionState \<Rightarrow> RetainedSessionState \<Rightarrow> StatementSessionEffects \<Rightarrow> bool \<Rightarrow> bool \<Rightarrow> bool" where
  "covered_by s prior e srv fb \<longleftrightarrow>
     transaction_state s \<le> transaction_claim_bound (transaction_state prior) e srv fb
     \<and> residue_le (session_residue_state s)
         (residue_after_statement (session_residue_state prior) e False)
     \<and> lock_le (lock_state s) (lock_after_statement (lock_state prior) e False)"

lemma covered_by_first:
  "covered_by (retained_session_state_after_statement prior e srv False fb False) prior e srv fb"
  by (simp add: covered_by_def after_statement_claim_bound residue.le_refl lock.le_refl)

lemma covered_by_next:
  assumes "covered_by s prior acc srv fb"
  shows "covered_by (retained_session_state_after_statement s e srv False fb False) prior
           (eff_then acc e) srv fb"
proof -
  have "transaction_claim_bound (transaction_state s) e srv fb
      \<le> transaction_claim_bound (transaction_state prior) (eff_then acc e) srv fb"
    using assms by (intro claim_bound_then) (simp add: covered_by_def)
  with after_statement_claim_bound
  have "transaction_state (retained_session_state_after_statement s e srv False fb False)
      \<le> transaction_claim_bound (transaction_state prior) (eff_then acc e) srv fb"
    by (rule order_trans)
  moreover have "residue_le (residue_after_statement (session_residue_state s) e False)
      (residue_after_statement (session_residue_state prior) (eff_then acc e) False)"
    using assms residue.le_trans residue_after_mono residue_then_bound
    unfolding covered_by_def by blast
  moreover have "lock_le (lock_after_statement (lock_state s) e False)
      (lock_after_statement (lock_state prior) (eff_then acc e) False)"
    using assms lock.le_trans lock_after_mono lock_then_bound
    unfolding covered_by_def by blast
  ultimately show ?thesis by (simp add: covered_by_def)
qed

lemma run_statements_covered:
  "covered_by s prior acc srv fb \<Longrightarrow>
     covered_by (run_statements single srv fb s statements) prior
       (foldl (\<lambda>folded t. eff_then folded (single t)) acc statements) srv fb"
  by (induction statements arbitrary: s acc) (simp_all add: covered_by_next)

lemma foldl_then_start:
  "foldl (\<lambda>folded t. eff_then folded (single t)) (eff_then g e) statements
   = eff_then g (foldl (\<lambda>folded t. eff_then folded (single t)) e statements)"
  by (induction statements arbitrary: e) (simp_all add: then_assoc)

text \<open>What a composed statement does to the residue and to the locks, in closed form.\<close>

definition consumed_next :: "bool \<Rightarrow> SessionResidueState \<Rightarrow> SessionResidueState" where
  "consumed_next c r = (if c then r\<lparr>may_have_next_transaction_mode_override := False\<rparr> else r)"

definition lock_acquired :: "StatementSessionEffects \<Rightarrow> SessionLockState" where
  "lock_acquired e =
     new_with_session_locks (eff_acquires_table_lock e) (eff_acquires_flush_table_lock e)
       (eff_acquires_backup_lock e) (eff_acquires_named_lock e)"

lemma consumed_next_mono: "(c' \<Longrightarrow> c) \<Longrightarrow> residue_le (consumed_next c r) (consumed_next c' r)"
  by (auto simp: consumed_next_def residue_le_fields)

lemma residue_from_then:
  "residue_from_effects (session_residue (eff_then a b))
   = residue_merged_with (residue_from_effects (session_residue a))
       (residue_from_effects (session_residue b))"
  by (simp add: residue_from_effects_def residue_merged_with_def then_defs)

lemma residue_after_then:
  "residue_after_statement r (eff_then a b) False
   = residue_merged_with
       (consumed_next (consumes_next_transaction_mode_override (session_residue (eff_then a b))) r)
       (residue_from_effects (session_residue (eff_then a b)))"
  by (simp add: residue_after_statement_def residue_after_successful_effects_def consumed_next_def
      eff_releases_physical_session_def eff_then_def transaction_effects_then_def
      residue_effects_then_def Let_def)

lemma lock_acquired_then:
  "lock_acquired (eff_then a b) = lock_merged_with (lock_acquired a) (lock_acquired b)"
  by (simp add: lock_acquired_def new_with_session_locks_def lock_merged_with_def eff_then_def
      eff_acquires_table_lock_def eff_acquires_flush_table_lock_def eff_acquires_backup_lock_def
      eff_acquires_named_lock_def)

lemma lock_after_then:
  "lock_after_statement l (eff_then a b) False = lock_merged_with l (lock_acquired (eff_then a b))"
  by (cases l)
    (simp add: lock_after_statement_def lock_acquired_def new_with_session_locks_def
      lock_merged_with_def eff_releases_physical_session_def eff_releases_table_lock_def
      eff_releases_flush_table_lock_def eff_releases_backup_lock_def
      eff_releases_all_named_locks_def eff_then_def transaction_effects_then_def)

text \<open>Adding what the text as given says can only raise the covered claims.\<close>

lemma covered_by_as_given:
  assumes "covered_by s prior (eff_then a b) srv fb"
    and "consumes_next_transaction_mode_override (session_residue g) \<Longrightarrow>
         consumes_next_transaction_mode_override (session_residue (eff_then a b))"
  shows "covered_by s prior (eff_then g (eff_then a b)) srv fb"
proof -
  have "transaction_claim_bound (transaction_state prior) (eff_then a b) srv fb
      \<le> transaction_claim_bound (transaction_state prior) (eff_then g (eff_then a b)) srv fb"
    by (auto simp: transaction_claim_bound_def then_defs effect_defs)
  moreover have "residue_le
      (residue_after_statement (session_residue_state prior) (eff_then a b) False)
      (residue_after_statement (session_residue_state prior) (eff_then g (eff_then a b)) False)"
    unfolding residue_after_then
  proof (rule residue.join_mono)
    show "residue_le
        (consumed_next (consumes_next_transaction_mode_override (session_residue (eff_then a b)))
           (session_residue_state prior))
        (consumed_next
           (consumes_next_transaction_mode_override (session_residue (eff_then g (eff_then a b))))
           (session_residue_state prior))"
      using assms(2) by (intro consumed_next_mono) (auto simp: then_defs)
    show "residue_le (residue_from_effects (session_residue (eff_then a b)))
        (residue_from_effects (session_residue (eff_then g (eff_then a b))))"
      by (simp only: residue_from_then [of g] residue.upper2)
  qed
  moreover have "lock_le
      (lock_after_statement (lock_state prior) (eff_then a b) False)
      (lock_after_statement (lock_state prior) (eff_then g (eff_then a b)) False)"
    unfolding lock_after_then lock_acquired_then [of g]
    by (intro lock.join_mono lock.le_refl lock.upper2)
  ultimately show ?thesis
    using assms(1) unfolding covered_by_def
    by (meson order_trans residue.le_trans lock.le_trans)
qed

lemma covered_by_then_le:
  "covered_by s prior (eff_then a b) srv fb \<Longrightarrow>
     retained_le s (retained_session_state_after_statement prior (eff_then a b) srv False fb False)"
  by (rule retained_leI) (simp_all add: covered_by_def then_claim_bound)

lemma untracked_flag_accessors:
  fixes e :: StatementSessionEffects and u :: bool
  defines "f \<equiv> e\<lparr>transaction := (transaction e)\<lparr>may_open_untracked_transaction := u\<rparr>\<rparr>"
  shows "state_hint f = state_hint e" "session_residue f = session_residue e"
    "eff_has_implicit_commit f = eff_has_implicit_commit e"
    "eff_clears_transaction_state f = eff_clears_transaction_state e"
    "eff_starts_transaction_state f = eff_starts_transaction_state e"
    "eff_opens_or_preserves_transaction_state f = eff_opens_or_preserves_transaction_state e"
    "eff_releases_physical_session f = eff_releases_physical_session e"
    "eff_releases_table_lock f = eff_releases_table_lock e"
    "eff_acquires_table_lock f = eff_acquires_table_lock e"
    "eff_releases_flush_table_lock f = eff_releases_flush_table_lock e"
    "eff_acquires_flush_table_lock f = eff_acquires_flush_table_lock e"
    "eff_releases_backup_lock f = eff_releases_backup_lock e"
    "eff_acquires_backup_lock f = eff_acquires_backup_lock e"
    "eff_acquires_named_lock f = eff_acquires_named_lock e"
    "eff_releases_all_named_locks f = eff_releases_all_named_locks e"
  by (simp_all add: f_def effect_defs)

lemma after_statement_ignores_untracked_flag:
  "retained_session_state_after_statement s
     (e\<lparr>transaction := (transaction e)\<lparr>may_open_untracked_transaction := u\<rparr>\<rparr>) srv failed fb intr
   = retained_session_state_after_statement s e srv failed fb intr"
  unfolding after_statement_defs residue_after_statement_def lock_after_statement_def
    untracked_flag_accessors by (rule refl)

lemma after_unit:
  assumes "\<not> length (unit_statements split db_type sql) < 2"
  shows "retained_session_state_after_statement s (effects_for_sql split single db_type sql)
           srv failed fb intr
         = retained_session_state_after_statement s
             (unit_merge single sql (unit_statements split db_type sql)) srv failed fb intr"
  using assms
  by (simp add: effects_for_sql_def for_unit_several Let_def after_statement_ignores_untracked_flag)

section \<open>Properties\<close>

text \<open>
  C2. Filing a unit by its folded effects is safe: the belief about the session after the whole
  unit claims at least what running its statements one by one, each successfully, would have
  claimed, in every part of the state (transaction, residue, locks). The one thing the text as
  given may not add is a consumed one-shot transaction mode that none of its statements consumes.
\<close>

theorem unit_over_approximates_its_statements:
  assumes several: "\<not> length (unit_statements split db_type sql) < 2"
    and consumed: "consumes_next_transaction_mode_override (session_residue (single sql)) \<Longrightarrow>
      \<exists>t \<in> set (unit_statements split db_type sql).
        consumes_next_transaction_mode_override (session_residue (single t))"
  shows "retained_le
    (run_statements single srv fb prior (unit_statements split db_type sql))
    (retained_session_state_after_statement prior (effects_for_sql split single db_type sql)
       srv False fb False)"
proof -
  obtain x y zs where xs: "unit_statements split db_type sql = x # y # zs"
    using several by (cases "unit_statements split db_type sql" rule: remdups_adj.cases) auto
  let ?merge = "foldl (\<lambda>folded t. eff_then folded (single t))"
  define m where "m = ?merge (single x) (y # zs)"
  have m_iff: "consumes_next_transaction_mode_override (session_residue m) \<longleftrightarrow>
      (\<exists>t \<in> set (x # y # zs). consumes_next_transaction_mode_override (session_residue (single t)))"
    unfolding m_def
    by (subst unit_merge_additive
        [where P = "\<lambda>e. consumes_next_transaction_mode_override (session_residue e)"])
      (auto simp: then_defs)
  obtain a b where m_then: "m = eff_then a b"
    unfolding m_def by (cases zs rule: rev_cases) auto
  have "covered_by (run_statements single srv fb prior (x # y # zs)) prior m srv fb"
    using run_statements_covered [OF covered_by_first, where single = single
        and statements = "y # zs"] by (simp add: m_def)
  then have "covered_by (run_statements single srv fb prior (x # y # zs)) prior
      (eff_then (single sql) m) srv fb"
    using covered_by_as_given consumed m_iff m_then xs by metis
  moreover have "eff_then (single sql) m = unit_merge single sql (x # y # zs)"
    by (simp add: m_def foldl_then_start then_assoc)
  ultimately show ?thesis
    using covered_by_then_le after_unit [OF several] xs by metis
qed

theorem unit_over_approximates_its_statements_witness:
  "retained_le
    (run_statements insert_effects False False retained_default [''INSERT'', ''COMMIT''])
    (retained_session_state_after_statement retained_default
       (effects_for_sql (\<lambda>_ _. [StatementItem ''INSERT'', ToolCommandItem (), StatementItem ''COMMIT''])
          insert_effects MySQL ''INSERT; COMMIT'') False False False False)"
proof -
  let ?split = "\<lambda>_ _. [StatementItem ''INSERT'', ToolCommandItem (), StatementItem ''COMMIT'']"
  have xs: "unit_statements ?split MySQL ''INSERT; COMMIT'' = [''INSERT'', ''COMMIT'']"
    by (simp add: unit_statements_def List.map_filter_def)
  have "\<not> consumes_next_transaction_mode_override (session_residue (insert_effects ''INSERT; COMMIT''))"
    by (simp add: insert_effects_def effects_default_def residue_effects_default_def)
  then show ?thesis
    using unit_over_approximates_its_statements
      [of ?split MySQL "''INSERT; COMMIT''" insert_effects False False retained_default]
    by (simp add: xs)
qed

text \<open>
  C27. A statement that failed lowers nothing the application cannot answer for. Every lock that may
  have been held may still be held, every kind of residue but the statement diagnostics is still
  claimed (a pending one-shot transaction mode included), and the transaction claim does not drop,
  except when the failed statement commits implicitly and the server itself reports no open work.
\<close>

theorem failed_statement_lowers_nothing:
  "lock_le (lock_state s)
     (lock_state (retained_session_state_after_statement s e srv True fb intr))
   \<and> residue_le (residue_with_statement_diagnostics_cleared (session_residue_state s))
     (session_residue_state (retained_session_state_after_statement s e srv True fb intr))
   \<and> (transaction_state s
        \<le> transaction_state (retained_session_state_after_statement s e srv True fb intr)
      \<or> eff_has_implicit_commit e \<and> srv = False)"
proof (intro conjI)
  show "lock_le (lock_state s)
      (lock_state (retained_session_state_after_statement s e srv True fb intr))"
    by (simp add: lock_le_fields lock_after_statement_def new_with_session_locks_def)
  show "residue_le (residue_with_statement_diagnostics_cleared (session_residue_state s))
      (session_residue_state (retained_session_state_after_statement s e srv True fb intr))"
    by (simp add: residue_after_statement_def residue.upper1)
  show "transaction_state s
        \<le> transaction_state (retained_session_state_after_statement s e srv True fb intr)
      \<or> eff_has_implicit_commit e \<and> srv = False"
    by (cases "transaction_state s")
      (auto simp: after_statement_defs from_parts_def state_defs Let_def from_flags_def
        less_eq_TransactionSessionState_def)
qed



text \<open>
  Whether a session is invalid is not a statement's to decide: a statement neither invents an
  invalid session nor repairs one, whatever it reports.
\<close>

theorem invalid_session_is_absorbing:
  "transaction_state (retained_session_state_after_statement s e srv failed fb intr) = InvalidSession
   \<longleftrightarrow> transaction_state s = InvalidSession"
  by (auto simp: after_statement_defs from_parts_def Let_def)

end
