(* ===== verification/Rust_Text.thy ===== *)
theory Rust_Text
  imports Prelude
begin

text \<open>
  What the source uses of Rust's \<^verbatim>\<open>str\<close>. A text is the list of its UTF-8 bytes, so that an index of the
  model is a byte index of the source. \<open>trim\<close> removes the white space of the Unicode property
  \<^verbatim>\<open>White_Space\<close>, whose members are listed by their encodings; \<open>contains_text\<close> is
  \<^verbatim>\<open>str::contains\<close>.
\<close>

definition byte_between :: "char \<Rightarrow> char \<Rightarrow> char \<Rightarrow> bool" where
  "byte_between lo hi c \<longleftrightarrow>
     (of_char lo :: nat) \<le> of_char c \<and> (of_char c :: nat) \<le> of_char hi"

definition to_ascii_lower :: "char \<Rightarrow> char" where
  "to_ascii_lower c =
     (if byte_between CHR ''A'' CHR ''Z'' c then char_of (of_char c + 32 :: nat) else c)"

definition to_ascii_lowercase :: "string \<Rightarrow> string" where
  "to_ascii_lowercase s = map to_ascii_lower s"

definition contains_text :: "string \<Rightarrow> string \<Rightarrow> bool" where
  "contains_text hay needle \<longleftrightarrow>
     list_ex (\<lambda>i. take (length needle) (drop i hay) = needle) [0..<Suc (length hay)]"

text \<open>\<^verbatim>\<open>str::find\<close>: the index of the first occurrence.\<close>

definition find_text :: "string \<Rightarrow> string \<Rightarrow> nat option" where
  "find_text hay needle =
     find (\<lambda>i. take (length needle) (drop i hay) = needle) [0..<Suc (length hay)]"

text \<open>The ASCII classes of \<^verbatim>\<open>u8\<close>.\<close>

definition is_ascii_digit :: "char \<Rightarrow> bool" where
  "is_ascii_digit c = byte_between CHR ''0'' CHR ''9'' c"

definition is_ascii_alphabetic :: "char \<Rightarrow> bool" where
  "is_ascii_alphabetic c \<longleftrightarrow> byte_between CHR ''a'' CHR ''z'' c \<or> byte_between CHR ''A'' CHR ''Z'' c"

definition is_ascii_whitespace :: "char \<Rightarrow> bool" where
  "is_ascii_whitespace c \<longleftrightarrow> c \<in> {CHR 0x09, CHR 0x0A, CHR 0x0C, CHR 0x0D, CHR 0x20}"

definition is_ascii_control :: "char \<Rightarrow> bool" where
  "is_ascii_control c \<longleftrightarrow> byte_between CHR 0x00 CHR 0x1F c \<or> c = CHR 0x7F"

definition to_ascii_upper :: "char \<Rightarrow> char" where
  "to_ascii_upper c =
     (if byte_between CHR ''a'' CHR ''z'' c then char_of (of_char c - 32 :: nat) else c)"

definition to_ascii_uppercase :: "string \<Rightarrow> string" where
  "to_ascii_uppercase s = map to_ascii_upper s"

definition starts_with :: "string \<Rightarrow> string \<Rightarrow> bool" where
  "starts_with s prefix \<longleftrightarrow> take (length prefix) s = prefix"

definition strip_prefix :: "string \<Rightarrow> string \<Rightarrow> string option" where
  "strip_prefix prefix s = (if starts_with s prefix then Some (drop (length prefix) s) else None)"

text \<open>\<^verbatim>\<open>bytes.get(i)\<close> and the slice \<^verbatim>\<open>&s[a..b]\<close>.\<close>

definition byte_at :: "string \<Rightarrow> nat \<Rightarrow> char option" where
  "byte_at s i = (if i < length s then Some (s ! i) else None)"

definition slice :: "string \<Rightarrow> nat \<Rightarrow> nat \<Rightarrow> string" where
  "slice s a b = take (b - a) (drop a s)"

definition white_space :: "string list" where
  "white_space =
     [[CHR 0x09], [CHR 0x0A], [CHR 0x0B], [CHR 0x0C], [CHR 0x0D], [CHR 0x20],
      [CHR 0xC2, CHR 0x85], [CHR 0xC2, CHR 0xA0], [CHR 0xE1, CHR 0x9A, CHR 0x80],
      [CHR 0xE2, CHR 0x80, CHR 0x80], [CHR 0xE2, CHR 0x80, CHR 0x81],
      [CHR 0xE2, CHR 0x80, CHR 0x82], [CHR 0xE2, CHR 0x80, CHR 0x83],
      [CHR 0xE2, CHR 0x80, CHR 0x84], [CHR 0xE2, CHR 0x80, CHR 0x85],
      [CHR 0xE2, CHR 0x80, CHR 0x86], [CHR 0xE2, CHR 0x80, CHR 0x87],
      [CHR 0xE2, CHR 0x80, CHR 0x88], [CHR 0xE2, CHR 0x80, CHR 0x89],
      [CHR 0xE2, CHR 0x80, CHR 0x8A], [CHR 0xE2, CHR 0x80, CHR 0xA8],
      [CHR 0xE2, CHR 0x80, CHR 0xA9], [CHR 0xE2, CHR 0x80, CHR 0xAF],
      [CHR 0xE2, CHR 0x81, CHR 0x9F], [CHR 0xE3, CHR 0x80, CHR 0x80]]"

text \<open>\<open>strip_front ws s\<close> drops members of \<open>ws\<close> from the front of \<open>s\<close> as long as there is one.\<close>

function strip_front :: "string list \<Rightarrow> string \<Rightarrow> string" where
  "strip_front ws s =
     (case find (\<lambda>w. w \<noteq> [] \<and> take (length w) s = w) ws of
        None \<Rightarrow> s
      | Some w \<Rightarrow> strip_front ws (drop (length w) s))"
  by pat_completeness auto
termination
proof (relation "measure (\<lambda>(ws, s). length s)")
  fix ws s w
  assume "find (\<lambda>w. w \<noteq> [] \<and> take (length w) s = w) ws = Some w"
  then have "w \<noteq> []" "take (length w) s = w" by (auto simp: find_Some_iff)
  then have "0 < length w" "s \<noteq> []" by auto
  then show "((ws, drop (length w) s), ws, s) \<in> measure (\<lambda>(ws, s). length s)" by simp
qed simp

declare strip_front.simps [simp del]

definition trim_start :: "string \<Rightarrow> string" where
  "trim_start s = strip_front white_space s"

definition trim_end :: "string \<Rightarrow> string" where
  "trim_end s = rev (strip_front (map rev white_space) (rev s))"

definition trim :: "string \<Rightarrow> string" where
  "trim s = trim_end (trim_start s)"

section \<open>Containment\<close>

lemma contains_text_iff: "contains_text hay needle \<longleftrightarrow> (\<exists>p q. hay = p @ needle @ q)"
proof
  assume "contains_text hay needle"
  then obtain i where "take (length needle) (drop i hay) = needle"
    by (auto simp: contains_text_def list_ex_iff)
  then have "hay = take i hay @ needle @ drop (length needle) (drop i hay)"
    by (metis append_take_drop_id)
  then show "\<exists>p q. hay = p @ needle @ q" by blast
next
  assume "\<exists>p q. hay = p @ needle @ q"
  then obtain p q where hay: "hay = p @ needle @ q" by blast
  then have "take (length needle) (drop (length p) hay) = needle" "length p < Suc (length hay)"
    by simp_all
  then show "contains_text hay needle"
    unfolding contains_text_def list_ex_iff by (metis atLeast0LessThan lessThan_iff set_upt)
qed

lemma contains_text_trans:
  "contains_text a b \<Longrightarrow> contains_text b c \<Longrightarrow> contains_text a c"
  by (metis append.assoc contains_text_iff)

lemma contains_text_refl [simp]: "contains_text s s"
  by (metis append_Nil append_Nil2 contains_text_iff)

section \<open>Trimming\<close>

lemma strip_front_keeps:
  assumes "\<forall>w \<in> set ws. w \<noteq> [] \<longrightarrow> hd w \<noteq> c"
  shows "strip_front ws (c # s) = c # s"
proof -
  have "\<not> (w \<noteq> [] \<and> take (length w) (c # s) = w)" if "w \<in> set ws" for w
    using assms that by (cases w) auto
  then have "find (\<lambda>w. w \<noteq> [] \<and> take (length w) (c # s) = w) ws = None"
    by (auto simp: find_None_iff)
  then show ?thesis by (simp add: strip_front.simps [of ws])
qed

lemma white_space_ends:
  assumes "byte_between CHR ''!'' CHR ''~'' c"
  shows "\<forall>w \<in> set white_space. w \<noteq> [] \<longrightarrow> hd w \<noteq> c"
    "\<forall>w \<in> set (map rev white_space). w \<noteq> [] \<longrightarrow> hd w \<noteq> c"
  using assms by (auto simp: white_space_def byte_between_def)

text \<open>A text between two visible ASCII characters is trimmed already.\<close>

lemma trim_visible:
  assumes "s \<noteq> []" "byte_between CHR ''!'' CHR ''~'' (hd s)" "byte_between CHR ''!'' CHR ''~'' (last s)"
  shows "trim s = s"
proof -
  have "strip_front white_space s = s"
    using strip_front_keeps [OF white_space_ends(1) [OF assms(2)], of "tl s"] assms(1) by simp
  moreover have "strip_front (map rev white_space) (rev s) = rev s"
    using strip_front_keeps [OF white_space_ends(2) [OF assms(3)]] assms(1)
    by (cases s rule: rev_cases) simp_all
  ultimately show ?thesis by (simp add: trim_def trim_start_def trim_end_def)
qed

end
