(* ===== verification/Statement_Reader.thy ===== *)
theory Statement_Reader
  imports Txn_Control Statement_Transition Rust_Text
begin

text \<open>
  What one statement's text says about the session: the two post-processors of
  \<^verbatim>\<open>src/db/transaction.rs\<close> (Oracle, and MySQL/MariaDB) that turn a statement into its
  \<^verbatim>\<open>StatementSessionEffects\<close>, and the questions they ask on the way. The questions asked of the words of a
  statement are the definitions of \<^verbatim>\<open>Txn_Control\<close>. The ones asked of its raw text (tokenizing,
  classification, splitting a SET list) are the fields of the record \<open>text_reader\<close>, an argument of
  every definition here; each field names the source function it stands for. So every theorem
  holds whatever the text readers answer.
\<close>

section \<open>Statement kinds and the text readers\<close>

datatype SqlKind =
  SelectLike | Dml | Ddl | SessionControl | PlsqlOrProcedure | Script | TransactionControl
  | UnknownKind

definition is_select_like :: "SqlKind \<Rightarrow> bool" where
  "is_select_like k \<longleftrightarrow> k = SelectLike"

definition is_dml_or_ddl_or_plsql_or_script :: "SqlKind \<Rightarrow> bool" where
  "is_dml_or_ddl_or_plsql_or_script k \<longleftrightarrow> k \<in> {Dml, Ddl, PlsqlOrProcedure, Script}"

datatype MySqlTransactionModeAssignmentScope = SessionScope | NextTransactionScope

text \<open>
  The fields, in order: the words and the kind of \<^verbatim>\<open>SqlStatementAnalysis::new_for_db_type\<close>;
  \<^verbatim>\<open>mariadb_set_statement_inner_sql\<close>; \<^verbatim>\<open>mysql_autocommit_assignment_values\<close>;
  \<^verbatim>\<open>mysql_transaction_mode_assignment_scopes\<close>;
  \<^verbatim>\<open>mysql_set_body_starts_with_user_variable\<close>; \<^verbatim>\<open>MysqlExecutor::is_select_statement_for_db_type\<close>;
  \<^verbatim>\<open>sql_contains_word_sequence_any_depth_for_db_type\<close>; \<^verbatim>\<open>mysql_explain_executed_statement\<close>;
  \<^verbatim>\<open>mysql_fully_executed_explain_target\<close>; the body test of
  \<^verbatim>\<open>mysql_do_statement_is_known_lock_function_only\<close>; \<^verbatim>\<open>mysql_unquoted_invokes_function\<close>;
  \<^verbatim>\<open>mysql_unquoted_compact_upper\<close>; \<^verbatim>\<open>mysql_set_assigns_user_variable\<close>;
  \<^verbatim>\<open>mysql_set_has_untracked_session_assignment\<close>;
  \<^verbatim>\<open>mysql_set_statement_affects_only_global_or_persist_scope\<close>; \<^verbatim>\<open>statement_assignment_count\<close>;
  \<^verbatim>\<open>mysql_select_statement_is_named_lock_release_only\<close>.
\<close>

record text_reader =
  rd_words :: "DatabaseType \<Rightarrow> string \<Rightarrow> string list"
  rd_kind :: "DatabaseType \<Rightarrow> string \<Rightarrow> SqlKind"
  rd_set_statement_inner :: "string \<Rightarrow> string option"
  rd_autocommit_values :: "string \<Rightarrow> string list"
  rd_mode_scopes :: "string \<Rightarrow> MySqlTransactionModeAssignmentScope list"
  rd_body_is_user_variable :: "string \<Rightarrow> bool"
  rd_is_select :: "DatabaseType \<Rightarrow> string \<Rightarrow> bool"
  rd_word_sequence :: "DatabaseType \<Rightarrow> string \<Rightarrow> string list \<Rightarrow> bool"
  rd_explain_executed :: "DatabaseType \<Rightarrow> string \<Rightarrow> string option"
  rd_explain_target :: "DatabaseType \<Rightarrow> string \<Rightarrow> string option"
  rd_do_body_is_lock_call :: "string \<Rightarrow> bool"
  rd_invokes :: "string \<Rightarrow> string \<Rightarrow> bool"
  rd_compact_upper :: "string \<Rightarrow> string"
  rd_set_user_variable :: "string \<Rightarrow> bool"
  rd_set_untracked_session :: "string \<Rightarrow> bool"
  rd_set_global_only :: "string \<Rightarrow> string list \<Rightarrow> bool"
  rd_assignment_count :: "string \<Rightarrow> nat"
  rd_select_is_release :: "string \<Rightarrow> bool"

section \<open>Auto-commit assignments\<close>

definition mysql_normalized_autocommit_bool :: "string \<Rightarrow> bool option" where
  "mysql_normalized_autocommit_bool v =
     (if v \<in> {''1'', ''ON'', ''TRUE''} then Some True
      else if v \<in> {''0'', ''OFF'', ''FALSE''} then Some False
      else None)"

definition mysql_is_autocommit_assignment :: "text_reader \<Rightarrow> string \<Rightarrow> bool" where
  "mysql_is_autocommit_assignment rd sql \<longleftrightarrow> rd_autocommit_values rd sql \<noteq> []"

definition mysql_autocommit_assignment_value :: "text_reader \<Rightarrow> string \<Rightarrow> string option" where
  "mysql_autocommit_assignment_value rd sql =
     (let values = rd_autocommit_values rd sql
      in if values = [] then None else Some (last values))"

definition mysql_set_autocommit_value :: "text_reader \<Rightarrow> string \<Rightarrow> bool option" where
  "mysql_set_autocommit_value rd sql =
     (case mysql_autocommit_assignment_value rd sql of
        None \<Rightarrow> None
      | Some v \<Rightarrow> mysql_normalized_autocommit_bool v)"

definition mysql_autocommit_assignments_are_all_literal :: "text_reader \<Rightarrow> string \<Rightarrow> bool" where
  "mysql_autocommit_assignments_are_all_literal rd sql \<longleftrightarrow>
     rd_autocommit_values rd sql \<noteq> [] \<and>
     list_all (\<lambda>v. mysql_normalized_autocommit_bool v \<noteq> None) (rd_autocommit_values rd sql)"

fun transitions_loop :: "bool \<Rightarrow> bool \<Rightarrow> string list \<Rightarrow> bool option" where
  "transitions_loop current transitions [] = Some transitions"
| "transitions_loop current transitions (v # vs) =
     (case mysql_normalized_autocommit_bool v of
        None \<Rightarrow> None
      | Some nxt \<Rightarrow> transitions_loop nxt (transitions \<or> (\<not> current \<and> nxt)) vs)"

definition mysql_autocommit_assignment_transitions_to_on ::
    "text_reader \<Rightarrow> string \<Rightarrow> bool \<Rightarrow> bool option" where
  "mysql_autocommit_assignment_transitions_to_on rd sql initial_auto_commit =
     transitions_loop initial_auto_commit False (rd_autocommit_values rd sql)"

section \<open>Questions about one MySQL statement\<close>

definition mysql_effective_statement_sql_for_db_type ::
    "text_reader \<Rightarrow> DatabaseType \<Rightarrow> string \<Rightarrow> string" where
  "mysql_effective_statement_sql_for_db_type rd db_type sql =
     (case db_type of
        MariaDB \<Rightarrow> (case rd_set_statement_inner rd sql of Some inner \<Rightarrow> inner | None \<Rightarrow> sql)
      | MySQL \<Rightarrow> sql
      | Oracle \<Rightarrow> sql)"

definition mysql_set_transaction_mode_assignment_affects_physical_session ::
    "text_reader \<Rightarrow> string \<Rightarrow> bool" where
  "mysql_set_transaction_mode_assignment_affects_physical_session rd sql \<longleftrightarrow>
     rd_mode_scopes rd sql \<noteq> []"

definition mysql_set_transaction_statement_affects_physical_session ::
    "text_reader \<Rightarrow> string \<Rightarrow> string list \<Rightarrow> bool" where
  "mysql_set_transaction_statement_affects_physical_session rd sql words \<longleftrightarrow>
     (\<not> rd_body_is_user_variable rd sql \<and>
        (mysql_set_next_transaction_statement words \<or>
         mysql_set_session_transaction_statement words)) \<or>
     mysql_set_transaction_mode_assignment_affects_physical_session rd sql"

definition mysql_statement_starts_read_transaction ::
    "text_reader \<Rightarrow> DatabaseType \<Rightarrow> string \<Rightarrow> string list \<Rightarrow> bool" where
  "mysql_statement_starts_read_transaction rd db_type sql words \<longleftrightarrow>
     leads_in words [''SELECT'', ''VALUES'', ''TABLE''] \<or>
     leads words ''WITH'' \<and> rd_is_select rd db_type sql"

definition mysql_select_has_locking_clause :: "text_reader \<Rightarrow> string \<Rightarrow> bool" where
  "mysql_select_has_locking_clause rd sql \<longleftrightarrow>
     rd_word_sequence rd MySQL sql [''FOR'', ''UPDATE''] \<or>
     rd_word_sequence rd MySQL sql [''FOR'', ''SHARE''] \<or>
     rd_word_sequence rd MySQL sql [''LOCK'', ''IN'', ''SHARE'', ''MODE'']"

definition mysql_do_statement_is_known_lock_function_only ::
    "text_reader \<Rightarrow> string \<Rightarrow> string list \<Rightarrow> bool" where
  "mysql_do_statement_is_known_lock_function_only rd sql words \<longleftrightarrow>
     leads words ''DO'' \<and> rd_do_body_is_lock_call rd sql"

definition mysql_statement_may_leave_uncommitted_work_for_statement ::
    "text_reader \<Rightarrow> DatabaseType \<Rightarrow> string \<Rightarrow> string list \<Rightarrow> bool" where
  "mysql_statement_may_leave_uncommitted_work_for_statement rd db_type sql words \<longleftrightarrow>
     (let read_only_cte = (leads words ''WITH'' \<and> rd_is_select rd db_type sql)
      in if leads words ''SELECT'' \<and> mysql_select_has_locking_clause rd sql then True
         else if leads words ''WITH'' \<and> read_only_cte \<and> mysql_select_has_locking_clause rd sql
           then True
         else if leads words ''WITH'' then \<not> rd_is_select rd db_type sql
         else if leads words ''START'' \<and> mysql_replication_control_statement words then False
         else if leads words ''LOAD'' \<and> mysql_load_index_statement words then False
         else if leads words ''RELEASE'' \<and> mysql_release_savepoint_statement words then True
         else if leads words ''ROLLBACK'' \<and> mysql_rollback_targets_savepoint words then True
         else if leads words ''XA'' then
           mysql_transaction_control_outcome_for_words words
             \<in> {StartsTransaction, PreservesTransaction, RequiresDecision}
         else if leads words ''DO'' \<and> mysql_do_statement_is_known_lock_function_only rd sql words
           then False
         else leads_in words
           [''INSERT'', ''UPDATE'', ''DELETE'', ''REPLACE'', ''CALL'', ''DO'', ''LOAD'', ''START'',
            ''BEGIN'', ''SAVEPOINT''])"

definition mysql_statement_may_leave_uncommitted_work ::
    "text_reader \<Rightarrow> DatabaseType \<Rightarrow> string \<Rightarrow> string list \<Rightarrow> bool" where
  "mysql_statement_may_leave_uncommitted_work rd db_type sql words =
     (case rd_explain_target rd db_type sql of
        Some executed \<Rightarrow>
          mysql_statement_may_leave_uncommitted_work_for_statement rd db_type executed
            (rd_words rd db_type executed)
      | None \<Rightarrow> mysql_statement_may_leave_uncommitted_work_for_statement rd db_type sql words)"

definition mysql_statement_consumes_next_transaction_mode_override_via_implicit_commit ::
    "text_reader \<Rightarrow> DatabaseType \<Rightarrow> string \<Rightarrow> string list \<Rightarrow> bool" where
  "mysql_statement_consumes_next_transaction_mode_override_via_implicit_commit rd db_type sql words
     \<longleftrightarrow>
     (if leads words ''LOAD'' \<and> mysql_load_index_statement words then True
      else if leads words ''SET'' \<and> mysql_set_account_ddl_statement words then True
      else if leads words ''CREATE'' \<and> mysql_create_statement_is_temporary words then False
      else if leads words ''DROP'' \<and> mysql_drop_statement_is_temporary words then False
      else if leads words ''RESET'' \<and> mysql_reset_connection_statement words then False
      else if leads words ''RESET'' \<and> mysql_reset_persist_statement words then False
      else if leads words ''ANALYZE'' \<and> rd_explain_executed rd db_type sql \<noteq> None then False
      else if leads_in words [''START'', ''STOP'', ''CHANGE''] \<and>
          mysql_replication_control_statement words then True
      else leads_in words
        [''CREATE'', ''ALTER'', ''DROP'', ''RENAME'', ''TRUNCATE'', ''GRANT'', ''REVOKE'',
         ''ANALYZE'', ''CACHE'', ''CHECK'', ''OPTIMIZE'', ''REPAIR'', ''RESET'', ''FLUSH'',
         ''INSTALL'', ''UNINSTALL''])"

definition mysql_statement_has_implicit_commit ::
    "text_reader \<Rightarrow> DatabaseType \<Rightarrow> string \<Rightarrow> string list \<Rightarrow> bool" where
  "mysql_statement_has_implicit_commit rd db_type sql words \<longleftrightarrow>
     mysql_statement_consumes_next_transaction_mode_override_via_implicit_commit
       rd db_type sql words \<or>
     mysql_statement_acquires_table_lock words"

definition mysql_statement_consumes_next_transaction_mode_override ::
    "text_reader \<Rightarrow> DatabaseType \<Rightarrow> string \<Rightarrow> string list \<Rightarrow> bool" where
  "mysql_statement_consumes_next_transaction_mode_override rd db_type sql words \<longleftrightarrow>
     \<not> mysql_set_transaction_statement_affects_physical_session rd sql words \<and>
     (mysql_transaction_control_outcome_for_words words = ReleasesSession \<or>
      mysql_statement_opens_transaction_state words \<or>
      mysql_statement_starts_read_transaction rd db_type sql words \<or>
      mysql_statement_may_leave_uncommitted_work rd db_type sql words)"

definition mysql_statement_consumes_next_transaction_mode_override_for_execution ::
    "text_reader \<Rightarrow> DatabaseType \<Rightarrow> string \<Rightarrow> string list \<Rightarrow> bool \<Rightarrow> bool" where
  "mysql_statement_consumes_next_transaction_mode_override_for_execution
       rd db_type sql words auto_commit \<longleftrightarrow>
     (if mysql_set_transaction_statement_affects_physical_session rd sql words then False
      else if mysql_transaction_control_outcome_for_words words = ReleasesSession \<or>
          mysql_reset_connection_statement words \<or>
          mysql_statement_opens_transaction_state words \<or>
          mysql_statement_acquires_table_lock words \<or>
          mysql_statement_consumes_next_transaction_mode_override_via_implicit_commit
            rd db_type sql words then True
      else if mysql_statement_may_leave_uncommitted_work rd db_type sql words then
        \<not> mysql_statement_preserves_current_transaction_without_starting_one words \<or> \<not> auto_commit
      else mysql_statement_starts_read_transaction rd db_type sql words)"

definition mysql_statement_consumes_pending_transaction_mode_override_for_preflight ::
    "text_reader \<Rightarrow> DatabaseType \<Rightarrow> string \<Rightarrow> bool" where
  "mysql_statement_consumes_pending_transaction_mode_override_for_preflight rd db_type sql \<longleftrightarrow>
     (let sql = mysql_effective_statement_sql_for_db_type rd db_type sql;
          words = rd_words rd db_type sql
      in if rd_kind rd db_type sql = Script then False
         else if mysql_set_transaction_statement_affects_physical_session rd sql words then False
         else mysql_transaction_control_outcome_for_words words
                \<in> {StartsTransaction, ReleasesSession} \<or>
              mysql_reset_connection_statement words \<or>
              mysql_statement_starts_read_transaction rd db_type sql words \<or>
              mysql_statement_acquires_table_lock words \<or>
              mysql_statement_consumes_next_transaction_mode_override_via_implicit_commit
                rd db_type sql words \<or>
              mysql_statement_may_leave_uncommitted_work rd db_type sql words \<and>
              \<not> mysql_statement_preserves_current_transaction_without_starting_one words)"

definition mysql_transaction_control_outcome_for_db_type ::
    "text_reader \<Rightarrow> DatabaseType \<Rightarrow> string \<Rightarrow> TransactionControlOutcome" where
  "mysql_transaction_control_outcome_for_db_type rd db_type sql =
     mysql_transaction_control_outcome_for_words
       (rd_words rd db_type (mysql_effective_statement_sql_for_db_type rd db_type sql))"

section \<open>Named locks and user variables\<close>

definition mysql_statement_invokes_function ::
    "text_reader \<Rightarrow> string \<Rightarrow> string list \<Rightarrow> string \<Rightarrow> bool" where
  "mysql_statement_invokes_function rd sql words function_call_prefix \<longleftrightarrow>
     (if leads_in words
          [''SELECT'', ''WITH'', ''DO'', ''SET'', ''INSERT'', ''UPDATE'', ''DELETE'', ''REPLACE'',
           ''CALL'', ''VALUES''] then True
      else if leads words ''CREATE'' then mysql_create_table_select_statement words
      else if leads words ''BEGIN'' then mysql_statement_is_begin_not_atomic_for_words words
      else False) \<and>
     rd_invokes rd sql function_call_prefix"

definition mysql_statement_acquires_named_lock ::
    "text_reader \<Rightarrow> string \<Rightarrow> string list \<Rightarrow> bool" where
  "mysql_statement_acquires_named_lock rd sql words =
     mysql_statement_invokes_function rd sql words ''GET_LOCK(''"

definition mysql_statement_releases_named_lock ::
    "text_reader \<Rightarrow> string \<Rightarrow> string list \<Rightarrow> bool" where
  "mysql_statement_releases_named_lock rd sql words =
     mysql_statement_invokes_function rd sql words ''RELEASE_LOCK(''"

definition mysql_statement_releases_all_named_locks ::
    "text_reader \<Rightarrow> string \<Rightarrow> string list \<Rightarrow> bool" where
  "mysql_statement_releases_all_named_locks rd sql words \<longleftrightarrow>
     mysql_reset_connection_statement words \<or>
     mysql_statement_invokes_function rd sql words ''RELEASE_ALL_LOCKS(''"

definition mysql_user_variable_name_byte :: "char \<Rightarrow> bool" where
  "mysql_user_variable_name_byte b \<longleftrightarrow>
     byte_between CHR ''a'' CHR ''z'' b \<or> byte_between CHR ''A'' CHR ''Z'' b \<or>
     byte_between CHR ''0'' CHR ''9'' b \<or> b \<in> {CHR ''_'', CHR ''$'', CHR ''.''}"

definition name_end :: "string \<Rightarrow> nat \<Rightarrow> nat" where
  "name_end bytes pos = pos + length (takeWhile mysql_user_variable_name_byte (drop pos bytes))"

function user_variable_assignment_loop :: "string \<Rightarrow> nat \<Rightarrow> bool" where
  "user_variable_assignment_loop bytes idx =
     (if length bytes \<le> idx then False
      else if bytes ! idx \<noteq> CHR ''@'' then user_variable_assignment_loop bytes (idx + 1)
      else if idx + 1 < length bytes \<and> bytes ! (idx + 1) = CHR ''@'' then
        user_variable_assignment_loop bytes (idx + 2)
      else if take 2 (drop (name_end bytes (idx + 1)) bytes) = '':='' then True
      else user_variable_assignment_loop bytes (idx + 1))"
  by pat_completeness auto
termination
  by (relation "measure (\<lambda>(bytes, idx). length bytes - idx)") auto

declare user_variable_assignment_loop.simps [simp del]

definition mysql_compact_contains_user_variable_assignment :: "string \<Rightarrow> bool" where
  "mysql_compact_contains_user_variable_assignment compact =
     user_variable_assignment_loop compact 0"

definition mysql_statement_assigns_user_variable ::
    "text_reader \<Rightarrow> string \<Rightarrow> string list \<Rightarrow> bool" where
  "mysql_statement_assigns_user_variable rd sql words \<longleftrightarrow>
     (let compact = rd_compact_upper rd sql
      in if leads_in words [''SELECT'', ''WITH''] then
           contains_text compact ''INTO@'' \<or> mysql_compact_contains_user_variable_assignment compact
         else if leads_in words
             [''DO'', ''INSERT'', ''UPDATE'', ''DELETE'', ''REPLACE'', ''VALUES''] then
           mysql_compact_contains_user_variable_assignment compact
         else if leads words ''CREATE'' \<and> mysql_create_table_select_statement words then
           mysql_compact_contains_user_variable_assignment compact
         else False)"

definition mysql_set_has_known_session_setting ::
    "text_reader \<Rightarrow> string \<Rightarrow> string list \<Rightarrow> bool" where
  "mysql_set_has_known_session_setting rd sql words \<longleftrightarrow>
     starts_with_words words [''SET'', ''NAMES''] \<or>
     starts_with_words words [''SET'', ''CHARACTER'', ''SET''] \<or>
     rd_set_untracked_session rd sql"

section \<open>The state hint of a MySQL statement\<close>

text \<open>
  The source returns early many times; the parts below are its successive groups, composed by
  \<open>mysql_session_state_hint\<close> in the source's order.
\<close>

definition literal_autocommit_hint ::
    "text_reader \<Rightarrow> string \<Rightarrow> string list \<Rightarrow> bool \<Rightarrow> bool \<Rightarrow> TransactionStatementStateHint" where
  "literal_autocommit_hint rd sql words acquires_named_lock enabled =
     (let hint = mysql_autocommit_hint enabled;
          hint = (if acquires_named_lock then
                    hint\<lparr>may_leave_session_bound_state := True, hint_may_hold_session_lock := True,
                         requires_retention_when_autocommit_off := True\<rparr>
                  else hint);
          hint = (if leads words ''SET'' \<and> rd_set_user_variable rd sql then
                    hint\<lparr>may_leave_session_bound_state := True,
                         may_leave_untracked_session_state := True\<rparr>
                  else hint);
          hint = (if leads words ''SET'' \<and> rd_set_untracked_session rd sql then
                    hint\<lparr>may_leave_session_bound_state := True,
                         may_leave_untracked_session_state := True\<rparr>
                  else hint)
      in (if leads words ''SET'' \<and>
             mysql_set_transaction_mode_assignment_affects_physical_session rd sql then
            hint\<lparr>may_leave_session_bound_state := True\<rparr>
          else hint))"

definition completion_hint :: "string list \<Rightarrow> TransactionStatementStateHint" where
  "completion_hint words =
     (case mysql_transaction_control_outcome_for_words words of
        OutcomeClean \<Rightarrow> mysql_hint True False False False False
      | ReleasesSession \<Rightarrow> mysql_hint True False False False False
      | StartsTransaction \<Rightarrow> mysql_hint False True False True False
      | PreservesTransaction \<Rightarrow>
          (if mysql_rollback_targets_savepoint words then mysql_hint False True False True False
           else mysql_hint False False False False False)
      | RequiresDecision \<Rightarrow> mysql_hint False True False True True
      | NotTransactionControl \<Rightarrow> hint_default)"

definition xa_hint :: "string list \<Rightarrow> TransactionStatementStateHint" where
  "xa_hint words =
     (case mysql_transaction_control_outcome_for_words words of
        OutcomeClean \<Rightarrow> mysql_hint True False False False False
      | ReleasesSession \<Rightarrow> mysql_hint True False False False False
      | StartsTransaction \<Rightarrow> mysql_hint False True False True False
      | PreservesTransaction \<Rightarrow> mysql_hint False False False True False
      | RequiresDecision \<Rightarrow> mysql_hint False True False True True
      | NotTransactionControl \<Rightarrow> hint_default)"

definition set_hint ::
    "text_reader \<Rightarrow> string \<Rightarrow> string list \<Rightarrow> TransactionStatementStateHint" where
  "set_hint rd sql words =
     (if mysql_set_account_ddl_statement words then mysql_hint True False False False False
      else if rd_set_global_only rd sql words then hint_default
      else if mysql_set_transaction_statement_affects_physical_session rd sql words then
        mysql_hint False True False False False
      else mysql_untracked_session_hint False True False False False)"

definition leading_keyword_hint ::
    "text_reader \<Rightarrow> DatabaseType \<Rightarrow> string \<Rightarrow> string list \<Rightarrow> TransactionStatementStateHint" where
  "leading_keyword_hint rd db_type sql words =
     (let read_only_cte = (leads words ''WITH'' \<and> rd_is_select rd db_type sql);
          assigns_user_variable = mysql_statement_assigns_user_variable rd sql words
      in if leads_in words [''COMMIT'', ''ROLLBACK''] then completion_hint words
         else if leads words ''BEGIN'' \<and> mysql_statement_is_begin_not_atomic_for_words words then
           mysql_untracked_session_hint False True False True False
         else if leads words ''CALL'' then mysql_untracked_session_hint False True False True False
         else if leads words ''DO'' \<and> mysql_do_statement_is_known_lock_function_only rd sql words
           then hint_default
         else if leads words ''DO'' then mysql_untracked_session_hint False True False True False
         else if leads words ''VALUES'' \<and> assigns_user_variable then
           mysql_untracked_session_hint False True False False False
         else if leads words ''USE'' then mysql_hint False True False False False
         else if leads words ''RELEASE'' \<and> mysql_release_savepoint_statement words then
           mysql_hint False True False True False
         else if leads_in words [''START'', ''STOP'', ''CHANGE''] \<and>
             mysql_replication_control_statement words then mysql_hint True False False False False
         else if leads_in words [''START'', ''BEGIN'', ''SAVEPOINT''] then
           mysql_hint False True False True False
         else if leads words ''XA'' then xa_hint words
         else if leads words ''WITH'' \<and> read_only_cte then hint_default
         else if leads_in words [''INSERT'', ''UPDATE'', ''DELETE'', ''REPLACE'', ''WITH''] \<and>
             assigns_user_variable then mysql_untracked_session_hint False True False True False
         else if leads_in words [''INSERT'', ''UPDATE'', ''DELETE'', ''REPLACE'', ''WITH''] then
           mysql_hint False True False True False
         else if leads words ''LOAD'' \<and> mysql_load_index_statement words then
           mysql_hint True False False False False
         else if leads words ''LOAD'' then mysql_hint False True False True False
         else if leads_in words [''PREPARE'', ''EXECUTE'', ''DEALLOCATE''] then
           mysql_untracked_session_hint False True False False False
         else if leads words ''HANDLER'' \<and> mysql_handler_open_statement words then
           mysql_untracked_session_hint False True False False False
         else if leads words ''LOCK'' then mysql_untracked_session_hint False True False False False
         else if leads words ''UNLOCK'' then mysql_hint False True False False False
         else if leads words ''CREATE'' \<and> mysql_create_statement_is_temporary words then
           mysql_untracked_session_hint False True False False False
         else if leads words ''DROP'' \<and> mysql_drop_statement_is_temporary words then
           mysql_hint False False False False False
         else if leads_in words [''CREATE'', ''ALTER'', ''DROP'', ''RENAME'', ''TRUNCATE''] then
           mysql_hint True False False False False
         else if leads words ''RESET'' \<and> mysql_reset_persist_statement words then hint_default
         else if leads_in words
             [''GRANT'', ''REVOKE'', ''ANALYZE'', ''CACHE'', ''CHECK'', ''OPTIMIZE'', ''REPAIR'',
              ''RESET'', ''FLUSH'', ''INSTALL'', ''UNINSTALL''] then
           mysql_hint True False False False False
         else if leads words ''SET'' then set_hint rd sql words
         else hint_default)"

definition lock_or_read_hint ::
    "text_reader \<Rightarrow> DatabaseType \<Rightarrow> string \<Rightarrow> string list \<Rightarrow> TransactionStatementStateHint" where
  "lock_or_read_hint rd db_type sql words =
     (let select_like = (leads words ''SELECT'' \<or>
                         leads words ''WITH'' \<and> rd_is_select rd db_type sql);
          locking_select = (select_like \<and> mysql_select_has_locking_clause rd sql);
          assigns_user_variable = mysql_statement_assigns_user_variable rd sql words;
          acquires_named_lock = mysql_statement_acquires_named_lock rd sql words
      in if mysql_create_table_select_statement words \<and>
             (acquires_named_lock \<or> assigns_user_variable) then
           (mysql_hint (\<not> mysql_create_statement_is_temporary words) True acquires_named_lock
              False False)\<lparr>may_leave_untracked_session_state := assigns_user_variable\<rparr>
         else if acquires_named_lock then
           (let hint = mysql_hint False True True True False
            in if leads words ''DO'' \<and>
                 \<not> mysql_do_statement_is_known_lock_function_only rd sql words then
                 hint\<lparr>may_leave_untracked_session_state := True\<rparr>
               else hint)
         else if mysql_statement_acquires_backup_lock words then mysql_hint False True True True False
         else if mysql_statement_acquires_flush_table_lock words then
           mysql_hint True True True True False
         else if mysql_statement_acquires_table_lock words then mysql_hint True True True True False
         else if locking_select \<and> select_like \<and> assigns_user_variable then
           mysql_untracked_session_hint False True False True False
         else if locking_select then mysql_hint False False False True False
         else if select_like \<and> assigns_user_variable then
           mysql_untracked_session_hint False True False False False
         else leading_keyword_hint rd db_type sql words)"

definition mysql_session_state_hint ::
    "text_reader \<Rightarrow> DatabaseType \<Rightarrow> string \<Rightarrow> string list \<Rightarrow> TransactionStatementStateHint" where
  "mysql_session_state_hint rd db_type sql words =
     (let acquires_named_lock = mysql_statement_acquires_named_lock rd sql words
      in if statement_is_plain_keyword words ''COMMIT'' \<or>
            statement_is_plain_keyword words ''ROLLBACK'' then
           mysql_hint True False False False False
         else
           (case (if mysql_autocommit_assignments_are_all_literal rd sql
                  then mysql_set_autocommit_value rd sql else None) of
              Some enabled \<Rightarrow> literal_autocommit_hint rd sql words acquires_named_lock enabled
            | None \<Rightarrow>
                (if mysql_is_autocommit_assignment rd sql then
                   (let hint = (mysql_untracked_session_hint False True False True True)
                                 \<lparr>changes_auto_commit := True\<rparr>
                    in if acquires_named_lock then hint\<lparr>hint_may_hold_session_lock := True\<rparr>
                       else hint)
                 else lock_or_read_hint rd db_type sql words)))"

section \<open>The residue effects of a MySQL statement\<close>

definition mysql_set_transaction_mode_assignment_sets_next_override ::
    "text_reader \<Rightarrow> string \<Rightarrow> bool" where
  "mysql_set_transaction_mode_assignment_sets_next_override rd sql \<longleftrightarrow>
     list_ex (\<lambda>scope. scope = NextTransactionScope) (rd_mode_scopes rd sql)"

definition mysql_set_transaction_mode_assignment_sets_session_override ::
    "text_reader \<Rightarrow> string \<Rightarrow> bool" where
  "mysql_set_transaction_mode_assignment_sets_session_override rd sql \<longleftrightarrow>
     list_ex (\<lambda>scope. scope = SessionScope) (rd_mode_scopes rd sql)"

definition mysql_diagnostics_effects ::
    "text_reader \<Rightarrow> DatabaseType \<Rightarrow> string \<Rightarrow> string list \<Rightarrow> StatementSessionResidueEffects" where
  "mysql_diagnostics_effects rd db_type sql words =
     (let found_rows = (leads_in words [''SELECT'', ''WITH''] \<and>
                        ''SQL_CALC_FOUND_ROWS'' \<in> set words);
          preserves_diagnostics = (leads words ''CALL'' \<or>
            leads words ''SHOW'' \<and> list_ex (\<lambda>w. w \<in> {''WARNINGS'', ''ERRORS''}) words);
          diagnostics = (found_rows \<or> preserves_diagnostics \<or> rd_kind rd db_type sql = Dml)
      in residue_effects_default
           \<lparr>sets_found_rows := found_rows, sets_statement_diagnostics := diagnostics,
            clears_statement_diagnostics := \<not> diagnostics,
            sets_user_variable := mysql_statement_assigns_user_variable rd sql words\<rparr>)"

definition mysql_leading_residue_effects ::
    "text_reader \<Rightarrow> string \<Rightarrow> string list \<Rightarrow> StatementSessionResidueEffects \<Rightarrow>
     StatementSessionResidueEffects" where
  "mysql_leading_residue_effects rd sql words effects =
     (if leads words ''CREATE'' \<and> mysql_create_statement_is_temporary words then
        effects\<lparr>creates_temporary_table := True\<rparr>
      else if leads words ''PREPARE'' then effects\<lparr>creates_prepared_statement := True\<rparr>
      else if leads words ''SET'' \<and> \<not> mysql_set_account_ddl_statement words then
        (let starts_with_user_variable = rd_body_is_user_variable rd sql
         in effects
              \<lparr>sets_user_variable := rd_set_user_variable rd sql,
               sets_session_setting := mysql_set_has_known_session_setting rd sql words,
               sets_next_transaction_mode_override :=
                 (\<not> starts_with_user_variable \<and> mysql_set_next_transaction_statement words) \<or>
                 mysql_set_transaction_mode_assignment_sets_next_override rd sql,
               sets_transaction_mode_override :=
                 (\<not> starts_with_user_variable \<and> mysql_set_session_transaction_statement words) \<or>
                 mysql_set_transaction_mode_assignment_sets_session_override rd sql\<rparr>)
      else if leads words ''HANDLER'' \<and> mysql_handler_open_statement words then
        effects\<lparr>may_leave_unknown_state := True\<rparr>
      else if leads words ''BEGIN'' \<and> mysql_statement_is_begin_not_atomic_for_words words then
        effects\<lparr>may_leave_unknown_state := True\<rparr>
      else if leads words ''CALL'' then effects\<lparr>may_leave_unknown_state := True\<rparr>
      else effects)"

definition mysql_session_residue_effects ::
    "text_reader \<Rightarrow> DatabaseType \<Rightarrow> string \<Rightarrow> string list \<Rightarrow> TransactionStatementStateHint \<Rightarrow>
     StatementSessionResidueEffects" where
  "mysql_session_residue_effects rd db_type sql words hint =
     (if mysql_reset_connection_statement words then
        residue_effects_default\<lparr>clears_all_session_residue := True\<rparr>
      else
        (let effects = mysql_leading_residue_effects rd sql words
                         (mysql_diagnostics_effects rd db_type sql words);
             effects = (if may_leave_untracked_session_state hint \<and>
                           \<not> residue_effects_may_leave_session_residue effects then
                          effects\<lparr>may_leave_unknown_state := True\<rparr>
                        else effects)
         in effects\<lparr>consumes_next_transaction_mode_override :=
              mysql_statement_consumes_next_transaction_mode_override rd db_type sql words\<rparr>))"

section \<open>The post-processors\<close>

definition oracle_select_has_locking_clause :: "text_reader \<Rightarrow> string \<Rightarrow> bool" where
  "oracle_select_has_locking_clause rd sql = rd_word_sequence rd Oracle sql [''FOR'', ''UPDATE'']"

definition oracle_statement_may_leave_uncommitted_work ::
    "text_reader \<Rightarrow> string \<Rightarrow> string list \<Rightarrow> bool" where
  "oracle_statement_may_leave_uncommitted_work rd sql words \<longleftrightarrow>
     rd_kind rd Oracle sql \<in> {Dml, PlsqlOrProcedure} \<or>
     leads_in words [''SELECT'', ''WITH''] \<and> oracle_select_has_locking_clause rd sql"

definition oracle_effects_for_single_statement ::
    "text_reader \<Rightarrow> string \<Rightarrow> StatementSessionEffects" where
  "oracle_effects_for_single_statement rd sql =
     (let words = rd_words rd Oracle sql;
          control = oracle_transaction_control_outcome_for_words words
      in effects_default
           \<lparr>transaction := transaction_effects_default
              \<lparr>clears_state := outcome_clears_transaction_state control,
               opens_or_preserves_state :=
                 oracle_statement_opens_or_preserves_transaction_state_for_words words,
               has_implicit_commit := oracle_statement_has_implicit_commit_for_words words,
               skip_auto_commit := oracle_statement_should_skip_auto_commit_for_words words,
               requires_decision_after_success := outcome_requires_transaction_decision control,
               changes_transaction_mode := oracle_set_transaction_statement_for_words words,
               may_leave_uncommitted_work :=
                 oracle_statement_may_leave_uncommitted_work rd sql words,
               may_open_untracked_transaction :=
                 oracle_statement_may_open_untracked_transaction_for_words words\<rparr>,
            session_residue :=
              oracle_session_residue_effects (rd_assignment_count rd sql) words\<rparr>)"

definition mysql_effects_for_single_statement ::
    "text_reader \<Rightarrow> DatabaseType \<Rightarrow> string \<Rightarrow> StatementSessionEffects" where
  "mysql_effects_for_single_statement rd db_type sql =
     (let sql = mysql_effective_statement_sql_for_db_type rd db_type sql;
          words = rd_words rd db_type sql;
          hint = mysql_session_state_hint rd db_type sql words;
          control = mysql_transaction_control_outcome_for_words words
      in \<lparr>state_hint = hint,
          transaction = transaction_effects_default
            \<lparr>clears_state := outcome_clears_transaction_state control \<or>
                             outcome_starts_transaction_state control,
             has_implicit_commit := mysql_statement_has_implicit_commit rd db_type sql words,
             starts_state := mysql_statement_opens_transaction_state words,
             may_leave_uncommitted_work :=
               mysql_statement_may_leave_uncommitted_work rd db_type sql words,
             rollback_targets_savepoint := mysql_rollback_targets_savepoint words,
             control_starts_chain := mysql_transaction_control_starts_chain words,
             releases_physical_session := outcome_releases_physical_session control,
             may_open_untracked_transaction :=
               mysql_statement_may_open_untracked_transaction words\<rparr>,
          session_residue = mysql_session_residue_effects rd db_type sql words hint,
          table_lock =
            (if mysql_statement_releases_table_lock words then TableLockReleases
             else if mysql_statement_acquires_table_lock words then TableLockAcquires
             else TableLockNone),
          flush_table_lock =
            (if mysql_statement_releases_flush_table_lock words then FlushTableLockReleases
             else if mysql_statement_acquires_flush_table_lock words then FlushTableLockAcquires
             else FlushTableLockNone),
          backup_lock =
            (if mysql_statement_releases_backup_lock words then BackupLockReleases
             else if mysql_statement_acquires_backup_lock words then BackupLockAcquires
             else BackupLockNone),
          named_lock =
            \<lparr>acquires = mysql_statement_acquires_named_lock rd sql words,
             releases_one = mysql_statement_releases_named_lock rd sql words,
             releases_all = mysql_statement_releases_all_named_locks rd sql words\<rparr>\<rparr>)"

definition effects_for_single_statement ::
    "text_reader \<Rightarrow> DatabaseType \<Rightarrow> string \<Rightarrow> StatementSessionEffects" where
  "effects_for_single_statement rd db_type sql =
     (case db_type of
        Oracle \<Rightarrow> oracle_effects_for_single_statement rd sql
      | MySQL \<Rightarrow> mysql_effects_for_single_statement rd MySQL sql
      | MariaDB \<Rightarrow> mysql_effects_for_single_statement rd MariaDB sql)"

section \<open>The execution context and the server probe\<close>

definition mysql_statement_session_effects_for_execution_context ::
    "text_reader \<Rightarrow> DatabaseType \<Rightarrow> string \<Rightarrow> bool \<Rightarrow> StatementSessionEffects \<Rightarrow>
     StatementSessionEffects" where
  "mysql_statement_session_effects_for_execution_context rd db_type sql auto_commit effects =
     (let sql = mysql_effective_statement_sql_for_db_type rd db_type sql;
          words = rd_words rd db_type sql;
          hint = state_hint effects;
          hint = (if mysql_is_autocommit_assignment rd sql then
                    (case mysql_autocommit_assignment_transitions_to_on rd sql auto_commit of
                       Some transitions \<Rightarrow> hint\<lparr>clears_session_state := transitions\<rparr>
                     | None \<Rightarrow> hint\<lparr>requires_transaction_decision_after_success := True\<rparr>)
                  else hint)
      in effects
           \<lparr>state_hint := hint,
            session_residue := (session_residue effects)
              \<lparr>consumes_next_transaction_mode_override :=
                 mysql_statement_consumes_next_transaction_mode_override_for_execution
                   rd db_type sql words auto_commit\<rparr>\<rparr>)"

definition mysql_statement_is_read_only_transaction_probe_noise ::
    "text_reader \<Rightarrow> DatabaseType \<Rightarrow> string \<Rightarrow> StatementSessionEffects \<Rightarrow> bool" where
  "mysql_statement_is_read_only_transaction_probe_noise rd db_type sql effects \<longleftrightarrow>
     (let sql = mysql_effective_statement_sql_for_db_type rd db_type sql;
          words = rd_words rd db_type sql;
          hint = state_hint effects
      in mysql_statement_starts_read_transaction rd db_type sql words \<and>
         \<not> eff_has_implicit_commit effects \<and>
         \<not> eff_starts_transaction_state effects \<and>
         \<not> eff_opens_or_preserves_transaction_state effects \<and>
         \<not> eff_may_leave_uncommitted_work effects \<and>
         \<not> eff_releases_physical_session effects \<and>
         \<not> eff_may_leave_session_residue effects \<and>
         \<not> eff_acquires_table_lock effects \<and>
         \<not> eff_acquires_flush_table_lock effects \<and>
         \<not> eff_acquires_backup_lock effects \<and>
         \<not> eff_acquires_named_lock effects \<and>
         \<not> clears_session_state hint \<and>
         \<not> may_leave_session_bound_state hint \<and>
         \<not> may_leave_untracked_session_state hint \<and>
         \<not> hint_may_hold_session_lock hint \<and>
         \<not> requires_retention_when_autocommit_off hint \<and>
         \<not> requires_transaction_decision_after_success hint \<and>
         \<not> changes_auto_commit hint)"

definition mysql_statement_server_probe_requires_transaction_preservation ::
    "text_reader \<Rightarrow> DatabaseType \<Rightarrow> string \<Rightarrow> RetainedSessionState \<Rightarrow> StatementSessionEffects \<Rightarrow>
     bool" where
  "mysql_statement_server_probe_requires_transaction_preservation rd db_type sql prior effects
     \<longleftrightarrow>
     (let hint = state_hint effects
      in if retained_may_have_uncommitted_work prior \<or>
            eff_starts_transaction_state effects \<or>
            eff_opens_or_preserves_transaction_state effects \<or>
            eff_may_leave_uncommitted_work effects \<or>
            requires_transaction_decision_after_success hint then True
         else if clears_all_session_residue (session_residue effects) \<or>
            eff_has_implicit_commit effects \<or>
            clears_session_state hint \<or>
            eff_clears_transaction_state effects \<or>
            eff_releases_physical_session effects \<or>
            mysql_statement_is_read_only_transaction_probe_noise rd db_type sql effects then False
         else rd_kind rd db_type (mysql_effective_statement_sql_for_db_type rd db_type sql)
                \<in> {Dml, PlsqlOrProcedure, Script, UnknownKind})"

definition mysql_server_probe_reports_uncommitted_work_for_statement ::
    "text_reader \<Rightarrow> DatabaseType \<Rightarrow> string \<Rightarrow> RetainedSessionState \<Rightarrow> StatementSessionEffects \<Rightarrow>
     bool \<Rightarrow> bool" where
  "mysql_server_probe_reports_uncommitted_work_for_statement rd db_type sql prior effects
       server_reports_uncommitted_work \<longleftrightarrow>
     server_reports_uncommitted_work \<and>
     mysql_statement_server_probe_requires_transaction_preservation rd db_type sql prior effects"

definition mysql_transaction_probe_fallback_on_error ::
    "text_reader \<Rightarrow> DatabaseType \<Rightarrow> string \<Rightarrow> RetainedSessionState \<Rightarrow> StatementSessionEffects \<Rightarrow>
     bool \<Rightarrow> bool" where
  "mysql_transaction_probe_fallback_on_error rd db_type sql prior effects
       requires_transaction_decision \<longleftrightarrow>
     (if requires_transaction_decision then True
      else if clears_all_session_residue (session_residue effects) then False
      else if eff_has_implicit_commit effects \<and> retained_may_have_uncommitted_work prior then True
      else if clears_session_state (state_hint effects) then False
      else mysql_statement_server_probe_requires_transaction_preservation
             rd db_type sql prior effects)"

section \<open>Coherence of the readings\<close>

lemma completion_outcome_iff:
  assumes "leads_in words [''COMMIT'', ''ROLLBACK'']"
  shows "mysql_transaction_control_outcome_for_words words =
    mysql_commit_or_rollback_control_outcome words"
  using assms by (auto simp: mysql_transaction_control_outcome_for_words_def leads_in_iff)

lemma xa_outcome_iff:
  assumes "leads words ''XA''"
  shows "mysql_transaction_control_outcome_for_words words = mysql_xa_control_outcome words"
  using assms by (auto simp: mysql_transaction_control_outcome_for_words_def leads_in_iff)

lemma opens_iff_outcome_starts:
  "mysql_statement_opens_transaction_state words \<longleftrightarrow>
   mysql_transaction_control_outcome_for_words words = StartsTransaction"
  by (auto simp: mysql_statement_opens_transaction_state_def outcome_starts_transaction_state_def
      mysql_transaction_control_starts_chain_def leads_in_iff
      mysql_transaction_control_outcome_for_words_def split: if_splits)

lemma control_keyword:
  assumes "mysql_transaction_control_outcome_for_words words \<noteq> NotTransactionControl"
  obtains w where "leads words w"
    "w \<in> {''BEGIN'', ''START'', ''SAVEPOINT'', ''RELEASE'', ''COMMIT'', ''ROLLBACK'', ''XA''}"
proof (cases "leading_keyword words")
  case None
  with assms show ?thesis
    by (simp add: mysql_transaction_control_outcome_for_words_def leads_in_def)
next
  case (Some w)
  have "w \<in> {''BEGIN'', ''START'', ''SAVEPOINT'', ''RELEASE'', ''COMMIT'', ''ROLLBACK'', ''XA''}"
  proof (rule ccontr)
    assume "w \<notin> {''BEGIN'', ''START'', ''SAVEPOINT'', ''RELEASE'', ''COMMIT'', ''ROLLBACK'', ''XA''}"
    with assms Some show False by (simp add: mysql_transaction_control_outcome_for_words_def)
  qed
  with Some show ?thesis by (rule that)
qed

lemma start_control:
  "leads words ''START'' \<Longrightarrow>
   mysql_transaction_control_outcome_for_words words \<noteq> NotTransactionControl \<longleftrightarrow>
   word_at words 1 ''TRANSACTION''"
  by (simp add: mysql_transaction_control_outcome_for_words_def)

lemma start_transaction_is_not_replication:
  assumes "leads words ''START''" "word_at words 1 ''TRANSACTION''"
  shows "\<not> mysql_replication_control_statement words"
  using assms
  by (cases words; cases "tl words")
    (auto simp: mysql_replication_control_statement_def mysql_replication_verb_statement_def
      leads_in_iff)

lemma implicit_commit_keyword:
  assumes "leads words w"
    and "w \<in> {''BEGIN'', ''SAVEPOINT'', ''RELEASE'', ''COMMIT'', ''ROLLBACK'', ''XA''}"
  shows "\<not> mysql_statement_has_implicit_commit rd db_type sql words"
  using assms(2)
  by (elim insertE emptyE)
    (simp_all add: assms(1) mysql_statement_has_implicit_commit_def
      mysql_statement_acquires_table_lock_def starts_with_words_Cons
      mysql_statement_consumes_next_transaction_mode_override_via_implicit_commit_def)

lemma implicit_commit_start:
  assumes "leads words ''START''" "\<not> mysql_replication_control_statement words"
  shows "\<not> mysql_statement_has_implicit_commit rd db_type sql words"
  using assms
  by (simp add: mysql_statement_has_implicit_commit_def
      mysql_statement_acquires_table_lock_def starts_with_words_Cons
      mysql_statement_consumes_next_transaction_mode_override_via_implicit_commit_def)

lemma implicit_commit_is_not_control:
  assumes "mysql_statement_has_implicit_commit rd db_type sql words"
  shows "mysql_transaction_control_outcome_for_words words = NotTransactionControl"
proof (rule ccontr)
  assume c: "mysql_transaction_control_outcome_for_words words \<noteq> NotTransactionControl"
  obtain w where w: "leads words w"
    and "w \<in> {''BEGIN'', ''START'', ''SAVEPOINT'', ''RELEASE'', ''COMMIT'', ''ROLLBACK'', ''XA''}"
    using c by (rule control_keyword)
  then have kw: "w \<in> insert ''START''
      {''BEGIN'', ''SAVEPOINT'', ''RELEASE'', ''COMMIT'', ''ROLLBACK'', ''XA''}"
    by (simp only: insert_commute)
  from kw show False
  proof (rule insertE)
    assume 1: "w = ''START''"
    with w c have "\<not> mysql_replication_control_statement words"
      using start_control start_transaction_is_not_replication by blast
    with assms implicit_commit_start w 1 show False by blast
  next
    assume "w \<in> {''BEGIN'', ''SAVEPOINT'', ''RELEASE'', ''COMMIT'', ''ROLLBACK'', ''XA''}"
    from implicit_commit_keyword [OF w this] assms show False by simp
  qed
qed

lemma rollback_savepoint_outcome:
  "mysql_rollback_targets_savepoint words \<Longrightarrow>
   mysql_transaction_control_outcome_for_words words = PreservesTransaction"
  by (simp add: mysql_rollback_targets_savepoint_def outcome_preserves_transaction_state_def)

section \<open>Preflight and execution agree on a pending SET TRANSACTION\<close>

lemma keeps_current_keyword:
  "mysql_statement_preserves_current_transaction_without_starting_one words \<Longrightarrow>
   leads_in words [''SAVEPOINT'', ''RELEASE'', ''ROLLBACK'']"
  by (auto simp: mysql_statement_preserves_current_transaction_without_starting_one_def leads_in_iff
      mysql_release_savepoint_statement_def starts_with_words_Cons
      mysql_rollback_targets_savepoint_def)

lemma read_does_not_keep_current:
  assumes "mysql_statement_starts_read_transaction rd db_type sql words"
  shows "\<not> mysql_statement_preserves_current_transaction_without_starting_one words"
  using assms keeps_current_keyword [of words]
  by (auto simp: mysql_statement_starts_read_transaction_def leads_in_iff)

lemma preflight_consumption:
  fixes rd db_type sql
  defines "eff \<equiv> mysql_effective_statement_sql_for_db_type rd db_type sql"
  shows "mysql_statement_consumes_pending_transaction_mode_override_for_preflight rd db_type sql \<longleftrightarrow>
     rd_kind rd db_type eff \<noteq> Script \<and>
     mysql_statement_consumes_next_transaction_mode_override_for_execution
       rd db_type eff (rd_words rd db_type eff) True"
  using read_does_not_keep_current [of rd db_type eff "rd_words rd db_type eff"]
  by (auto simp: mysql_statement_consumes_pending_transaction_mode_override_for_preflight_def
      mysql_statement_consumes_next_transaction_mode_override_for_execution_def
      opens_iff_outcome_starts Let_def eff_def)

lemma consumption_needs_no_auto_commit:
  assumes "mysql_statement_consumes_next_transaction_mode_override_for_execution
    rd db_type sql words True"
  shows "mysql_statement_consumes_next_transaction_mode_override_for_execution
    rd db_type sql words auto_commit"
  using assms
  by (auto simp: mysql_statement_consumes_next_transaction_mode_override_for_execution_def
      split: if_splits)

text \<open>
  The statement the preflight lets past a pending one-shot SET TRANSACTION, because it will
  consume the pending mode, is exactly a statement (not a script) whose execution consumes it
  whether auto-commit is on or off. The preflight and the execution ask different questions in a
  different order, and neither lets through, or holds back, a statement the other reads
  differently.
\<close>

lemma preflight_consumes_iff_execution_consumes:
  "mysql_statement_consumes_pending_transaction_mode_override_for_preflight rd db_type sql \<longleftrightarrow>
     (let eff = mysql_effective_statement_sql_for_db_type rd db_type sql
      in rd_kind rd db_type eff \<noteq> Script \<and>
         (\<forall>auto_commit. mysql_statement_consumes_next_transaction_mode_override_for_execution
           rd db_type eff (rd_words rd db_type eff) auto_commit))"
  using consumption_needs_no_auto_commit by (auto simp: preflight_consumption Let_def)

section \<open>What a transaction-control statement does to the session\<close>

lemma control_is_not_block:
  "mysql_transaction_control_outcome_for_words words \<noteq> NotTransactionControl \<Longrightarrow>
   \<not> mysql_statement_is_begin_not_atomic_for_words words"
  by (auto simp: mysql_transaction_control_outcome_for_words_def
      mysql_statement_is_begin_not_atomic_for_words_def)

lemma control_statement_takes_no_named_lock:
  assumes c: "mysql_transaction_control_outcome_for_words words \<noteq> NotTransactionControl"
  shows "\<not> mysql_statement_acquires_named_lock rd sql words"
proof -
  obtain w where w: "leads words w"
    and kw: "w \<in> {''BEGIN'', ''START'', ''SAVEPOINT'', ''RELEASE'', ''COMMIT'', ''ROLLBACK'', ''XA''}"
    using c by (rule control_keyword)
  from kw show ?thesis
    by (elim insertE emptyE)
      (simp_all add: w control_is_not_block [OF c] mysql_statement_acquires_named_lock_def
        mysql_statement_invokes_function_def)
qed

lemma plain_completion_is_clean:
  assumes "statement_is_plain_keyword words w" "w = ''COMMIT'' \<or> w = ''ROLLBACK''"
  shows "mysql_transaction_control_outcome_for_words words = OutcomeClean"
proof -
  have "words = [w] \<or> words = [w, ''WORK'']"
    using assms(1) by (cases words; cases "tl words"; cases "tl (tl words)")
      (auto simp: statement_is_plain_keyword_def split: if_splits)
  then have "completion_tail words = []" "leads words w"
    by (auto simp: completion_tail_def skip_optional_work_def)
  then show ?thesis
    using assms(2) completion_loop_render [of "skip_optional_work words 1" words "[]" False False]
    by (subst completion_outcome_iff)
      (auto simp: mysql_commit_or_rollback_control_outcome_def completion_tail_def leads_in_iff
        word_at_iff_drop completion_reading_def Let_def)
qed

lemma control_reaches_keyword_hint:
  assumes "leads words w"
    and "w \<in> {''BEGIN'', ''START'', ''SAVEPOINT'', ''RELEASE'', ''COMMIT'', ''ROLLBACK'', ''XA''}"
    and "\<not> mysql_statement_acquires_named_lock rd sql words"
  shows "lock_or_read_hint rd db_type sql words = leading_keyword_hint rd db_type sql words"
  using assms(2)
  by (elim insertE emptyE)
    (simp_all add: assms(1,3) lock_or_read_hint_def Let_def starts_with_words_Cons
      mysql_create_table_select_statement_def mysql_create_table_statement_def
      mysql_statement_acquires_backup_lock_def mysql_statement_acquires_flush_table_lock_def
      mysql_statement_acquires_global_read_lock_def mysql_statement_acquires_table_lock_def
      mysql_statement_acquires_flush_tables_for_export_lock_def)

definition hint_follows_outcome ::
    "TransactionStatementStateHint \<Rightarrow> TransactionControlOutcome \<Rightarrow> bool" where
  "hint_follows_outcome hint control \<longleftrightarrow>
     (clears_session_state hint \<longleftrightarrow> outcome_clears_transaction_state control) \<and>
     (requires_transaction_decision_after_success hint \<longleftrightarrow>
        outcome_requires_transaction_decision control)"

lemma completion_and_xa_hints_follow_outcome:
  "hint_follows_outcome (xa_hint words) (mysql_transaction_control_outcome_for_words words)"
  "hint_follows_outcome (completion_hint words) (mysql_transaction_control_outcome_for_words words)"
  by (cases "mysql_transaction_control_outcome_for_words words";
      simp add: hint_follows_outcome_def xa_hint_def completion_hint_def mysql_hint_def hint_default_def
        outcome_defs)+

lemma opener_keyword_outcome:
  assumes "leads words w" "w \<in> {''BEGIN'', ''START'', ''SAVEPOINT'', ''RELEASE''}"
    and "mysql_transaction_control_outcome_for_words words \<noteq> NotTransactionControl"
  shows "mysql_transaction_control_outcome_for_words words \<in> {StartsTransaction, PreservesTransaction}"
  using assms(2,3)
  by (elim insertE emptyE)
    (simp_all add: assms(1) mysql_transaction_control_outcome_for_words_def
      split: if_splits)

lemma opener_keyword_hint:
  assumes w: "leads words w" "w \<in> {''BEGIN'', ''START'', ''SAVEPOINT'', ''RELEASE''}"
    and c: "mysql_transaction_control_outcome_for_words words \<noteq> NotTransactionControl"
  shows "leading_keyword_hint rd db_type sql words = mysql_hint False True False True False"
proof -
  have repl: "\<not> mysql_replication_control_statement words" if "w = ''START''"
    using that w c start_control start_transaction_is_not_replication by blast
  note atomic = control_is_not_block [OF c]
  have rel: "mysql_release_savepoint_statement words" if "w = ''RELEASE''"
    using that w(1) c
    by (simp add: mysql_transaction_control_outcome_for_words_def split: if_splits)
  show ?thesis
    using w(2) repl atomic rel
    by (elim insertE emptyE) (simp_all add: w(1) leading_keyword_hint_def Let_def)
qed

lemma control_hint:
  assumes c: "mysql_transaction_control_outcome_for_words words \<noteq> NotTransactionControl"
    and a: "rd_autocommit_values rd sql = []"
  shows "hint_follows_outcome (mysql_session_state_hint rd db_type sql words)
    (mysql_transaction_control_outcome_for_words words)"
proof (cases "statement_is_plain_keyword words ''COMMIT'' \<or>
    statement_is_plain_keyword words ''ROLLBACK''")
  case True
  with plain_completion_is_clean
  have "mysql_transaction_control_outcome_for_words words = OutcomeClean" by blast
  with True show ?thesis
    by (simp add: mysql_session_state_hint_def hint_follows_outcome_def mysql_hint_def outcome_defs)
next
  case False
  obtain w where w: "leads words w"
    and kw: "w \<in> {''BEGIN'', ''START'', ''SAVEPOINT'', ''RELEASE'', ''COMMIT'', ''ROLLBACK'', ''XA''}"
    using c by (rule control_keyword)
  note noname = control_statement_takes_no_named_lock [OF c]
  have hint: "mysql_session_state_hint rd db_type sql words = leading_keyword_hint rd db_type sql words"
    using False a control_reaches_keyword_hint [OF w kw noname]
    by (simp add: mysql_session_state_hint_def mysql_autocommit_assignments_are_all_literal_def
        mysql_is_autocommit_assignment_def Let_def)
  show ?thesis
  proof (cases "w \<in> {''BEGIN'', ''START'', ''SAVEPOINT'', ''RELEASE''}")
    case True
    from opener_keyword_outcome [OF w True c] opener_keyword_hint [OF w True c] hint
    show ?thesis by (auto simp: hint_follows_outcome_def mysql_hint_def outcome_defs)
  next
    case no_opener: False
    have "leading_keyword_hint rd db_type sql words =
      (if w = ''XA'' then xa_hint words else completion_hint words)"
      using kw no_opener
      by (elim insertE emptyE) (simp_all add: w leading_keyword_hint_def Let_def)
    with hint show ?thesis using completion_and_xa_hints_follow_outcome by simp
  qed
qed

definition control_result ::
    "TransactionControlOutcome \<Rightarrow> TransactionSessionState \<Rightarrow> bool \<Rightarrow> TransactionSessionState" where
  "control_result control prior server_reports =
     (case control of
        OutcomeClean \<Rightarrow> from_flags server_reports False
      | ReleasesSession \<Rightarrow> from_flags server_reports False
      | StartsTransaction \<Rightarrow> MaybeDirty
      | PreservesTransaction \<Rightarrow>
          from_flags (server_reports \<or> tss_may_have_uncommitted_work prior)
            (tss_requires_transaction_decision prior)
      | RequiresDecision \<Rightarrow> DecisionRequired
      | NotTransactionControl \<Rightarrow> prior)"

lemma mysql_effects_parts:
  fixes rd db_type sql
  defines "eff \<equiv> mysql_effective_statement_sql_for_db_type rd db_type sql"
  defines "words \<equiv> rd_words rd db_type eff"
  defines "control \<equiv> mysql_transaction_control_outcome_for_words words"
  shows "state_hint (mysql_effects_for_single_statement rd db_type sql) =
      mysql_session_state_hint rd db_type eff words"
    and "eff_clears_transaction_state (mysql_effects_for_single_statement rd db_type sql) \<longleftrightarrow>
      control \<in> {OutcomeClean, ReleasesSession, StartsTransaction}"
    and "eff_starts_transaction_state (mysql_effects_for_single_statement rd db_type sql) \<longleftrightarrow>
      control = StartsTransaction"
    and "eff_has_implicit_commit (mysql_effects_for_single_statement rd db_type sql) \<longleftrightarrow>
      mysql_statement_has_implicit_commit rd db_type eff words"
    and "\<not> eff_opens_or_preserves_transaction_state (mysql_effects_for_single_statement rd db_type sql)"
  by (auto simp: mysql_effects_for_single_statement_def Let_def eff_def words_def control_def
      eff_clears_transaction_state_def eff_starts_transaction_state_def eff_has_implicit_commit_def
      eff_opens_or_preserves_transaction_state_def transaction_effects_default_def outcome_defs
      opens_iff_outcome_starts)

text \<open>
  From the words of a transaction-control statement to the state of the session: on a usable
  session, a statement that ran leaves the transaction exactly where its outcome says. A clean
  COMMIT or ROLLBACK leaves only what the server still reports, a statement that opens a
  transaction leaves work that may be uncommitted and no older decision, a savepoint statement
  keeps what was there, and one the reader cannot finish asks the user.
\<close>

lemma control_statement_moves_the_session:
  assumes "mysql_transaction_control_outcome_for_db_type rd db_type sql = control"
    and "control \<noteq> NotTransactionControl"
    and "rd_autocommit_values rd (mysql_effective_statement_sql_for_db_type rd db_type sql) = []"
    and "prior \<noteq> InvalidSession"
  shows "transaction_session_state_after_statement prior
      (mysql_effects_for_single_statement rd db_type sql) server_reports False False False =
    control_result control prior server_reports"
proof -
  let ?eff = "mysql_effective_statement_sql_for_db_type rd db_type sql"
  let ?words = "rd_words rd db_type ?eff"
  have c: "mysql_transaction_control_outcome_for_words ?words = control"
    using assms(1) by (simp add: mysql_transaction_control_outcome_for_db_type_def)
  with assms(2) have "\<not> mysql_statement_has_implicit_commit rd db_type ?eff ?words"
    using implicit_commit_is_not_control by blast
  moreover have "hint_follows_outcome (mysql_session_state_hint rd db_type ?eff ?words) control"
    using control_hint assms(2,3) c by blast
  ultimately show ?thesis
    using assms(2,4)
    by (cases control)
      (simp_all add: transaction_session_state_after_statement_def Let_def control_result_def
        requires_transaction_decision_after_statement_def may_need_preservation_after_statement_def
        mysql_effects_parts c hint_follows_outcome_def outcome_defs from_flags_def)
qed

text \<open>
  A reader to evaluate the theorems on: it takes a text to be its blank-separated words, finds no
  assignments and no lock functions, and calls a SELECT a read.
\<close>

fun blank_words :: "string \<Rightarrow> string \<Rightarrow> string list" where
  "blank_words acc [] = (if acc = [] then [] else [rev acc])"
| "blank_words acc (c # cs) =
     (if c = CHR '' '' then (if acc = [] then [] else [rev acc]) @ blank_words [] cs
      else blank_words (c # acc) cs)"

definition blank_reader :: text_reader where
  "blank_reader =
     \<lparr>rd_words = (\<lambda>_ sql. blank_words [] sql),
      rd_kind = (\<lambda>_ sql. if leads (blank_words [] sql) ''SELECT'' then SelectLike else UnknownKind),
      rd_set_statement_inner = (\<lambda>_. None), rd_autocommit_values = (\<lambda>_. []),
      rd_mode_scopes = (\<lambda>_. []), rd_body_is_user_variable = (\<lambda>_. False),
      rd_is_select = (\<lambda>_ sql. leads (blank_words [] sql) ''SELECT''),
      rd_word_sequence = (\<lambda>_ _ _. False),
      rd_explain_executed =
        (\<lambda>_ sql. if leads (blank_words [] sql) ''ANALYZE'' then Some (drop 8 sql) else None),
      rd_explain_target =
        (\<lambda>_ sql. if leads (blank_words [] sql) ''ANALYZE'' then Some (drop 8 sql) else None),
      rd_do_body_is_lock_call = (\<lambda>_. False), rd_invokes = (\<lambda>_ _. False),
      rd_compact_upper = (\<lambda>sql. filter (\<lambda>c. c \<noteq> CHR '' '') sql), rd_set_user_variable = (\<lambda>_. False),
      rd_set_untracked_session = (\<lambda>_. False), rd_set_global_only = (\<lambda>_ _. False),
      rd_assignment_count = (\<lambda>_. 0), rd_select_is_release = (\<lambda>_. False)\<rparr>"

lemma control_statement_moves_the_session_witness:
  "transaction_session_state_after_statement DecisionRequired
      (mysql_effects_for_single_statement blank_reader MySQL ''COMMIT AND CHAIN'') False False False
      False = MaybeDirty"
proof -
  have "mysql_transaction_control_outcome_for_db_type blank_reader MySQL ''COMMIT AND CHAIN'' =
    StartsTransaction"
    by code_simp
  moreover have "rd_autocommit_values blank_reader
      (mysql_effective_statement_sql_for_db_type blank_reader MySQL ''COMMIT AND CHAIN'') = []"
    by (simp add: blank_reader_def)
  ultimately show ?thesis
    using control_statement_moves_the_session
      [of blank_reader MySQL "''COMMIT AND CHAIN''" StartsTransaction DecisionRequired False]
    by (simp add: control_result_def)
qed

section \<open>Auto-commit assignments in one SET list\<close>

fun turns_on :: "bool \<Rightarrow> bool list \<Rightarrow> bool" where
  "turns_on current [] = False"
| "turns_on current (b # bs) \<longleftrightarrow> (\<not> current \<and> b) \<or> turns_on b bs"

lemma transitions_loop_exact:
  "transitions_loop current t vs =
     (if list_all (\<lambda>v. mysql_normalized_autocommit_bool v \<noteq> None) vs
      then Some (t \<or> turns_on current (map (\<lambda>v. the (mysql_normalized_autocommit_bool v)) vs))
      else None)"
  by (induction vs arbitrary: current t) (auto split: option.splits)

text \<open>
  The auto-commit reading of one SET list: when every value is a literal, the statement is
  reported to commit open work exactly when auto-commit goes from off to on at some assignment of
  the list, counted from the value the session had (so ON followed by OFF still commits); when any
  value is not a literal, the statement asks for a decision instead and keeps the hint's own claim
  about clearing.
\<close>

theorem autocommit_list_reading:
  "state_hint
     (mysql_statement_session_effects_for_execution_context rd db_type sql auto_commit effects) =
   (let eff = mysql_effective_statement_sql_for_db_type rd db_type sql;
        vals = map mysql_normalized_autocommit_bool (rd_autocommit_values rd eff)
    in if vals = [] then state_hint effects
       else if None \<in> set vals then
         (state_hint effects)\<lparr>requires_transaction_decision_after_success := True\<rparr>
       else (state_hint effects)\<lparr>clears_session_state := turns_on auto_commit (map the vals)\<rparr>)"
proof -
  let ?eff = "mysql_effective_statement_sql_for_db_type rd db_type sql"
  have "None \<in> set (map mysql_normalized_autocommit_bool (rd_autocommit_values rd ?eff)) \<longleftrightarrow>
      \<not> list_all (\<lambda>v. mysql_normalized_autocommit_bool v \<noteq> None) (rd_autocommit_values rd ?eff)"
    by (force simp: list_all_iff)
  then show ?thesis
    unfolding mysql_statement_session_effects_for_execution_context_def Let_def
      mysql_is_autocommit_assignment_def mysql_autocommit_assignment_transitions_to_on_def
      transitions_loop_exact
    by (auto simp: comp_def)
qed

section \<open>Reads and the server probe\<close>

definition plain_read :: "text_reader \<Rightarrow> DatabaseType \<Rightarrow> string \<Rightarrow> bool" where
  "plain_read rd db_type sql \<longleftrightarrow>
     (let eff = mysql_effective_statement_sql_for_db_type rd db_type sql;
          words = rd_words rd db_type eff
      in leads words ''SELECT'' \<and> ''SQL_CALC_FOUND_ROWS'' \<notin> set words \<and>
         rd_kind rd db_type eff = SelectLike \<and>
         \<not> mysql_select_has_locking_clause rd eff \<and>
         \<not> mysql_statement_assigns_user_variable rd eff words \<and>
         \<not> rd_invokes rd eff ''GET_LOCK('' \<and>
         rd_autocommit_values rd eff = [] \<and>
         rd_explain_target rd db_type eff = None)"

lemma select_is_not_control:
  assumes "leads words ''SELECT''"
  shows "mysql_transaction_control_outcome_for_words words = NotTransactionControl"
    and "\<not> mysql_statement_has_implicit_commit rd db_type sql words"
    and "\<not> mysql_reset_connection_statement words"
    and "\<not> mysql_statement_acquires_table_lock words"
    and "\<not> mysql_statement_acquires_flush_table_lock words"
    and "\<not> mysql_statement_acquires_backup_lock words"
    and "\<not> mysql_create_table_select_statement words"
    and "\<not> statement_is_plain_keyword words ''COMMIT''"
    and "\<not> statement_is_plain_keyword words ''ROLLBACK''"
  using assms
  by (simp_all add: mysql_transaction_control_outcome_for_words_def starts_with_words_Cons
      mysql_statement_has_implicit_commit_def mysql_reset_connection_statement_def
      mysql_statement_consumes_next_transaction_mode_override_via_implicit_commit_def
      mysql_statement_acquires_table_lock_def mysql_statement_acquires_flush_table_lock_def
      mysql_statement_acquires_backup_lock_def mysql_statement_acquires_global_read_lock_def
      mysql_statement_acquires_flush_tables_for_export_lock_def
      mysql_create_table_select_statement_def mysql_create_table_statement_def
      statement_is_plain_keyword_def)

lemma plain_read_hint:
  assumes "leads words ''SELECT''" "\<not> mysql_select_has_locking_clause rd sql"
    "\<not> mysql_statement_assigns_user_variable rd sql words"
    "\<not> mysql_statement_acquires_named_lock rd sql words" "rd_autocommit_values rd sql = []"
  shows "mysql_session_state_hint rd db_type sql words = hint_default"
  using assms
  by (simp add: mysql_session_state_hint_def mysql_autocommit_assignments_are_all_literal_def
      mysql_is_autocommit_assignment_def lock_or_read_hint_def leading_keyword_hint_def Let_def
      select_is_not_control)

lemma plain_read_residue:
  assumes "leads words ''SELECT''" "''SQL_CALC_FOUND_ROWS'' \<notin> set words"
    "rd_kind rd db_type sql = SelectLike" "\<not> mysql_statement_assigns_user_variable rd sql words"
  shows "\<not> residue_effects_may_leave_session_residue
    (mysql_session_residue_effects rd db_type sql words hint_default)"
  using assms
  by (simp add: mysql_session_residue_effects_def mysql_leading_residue_effects_def Let_def
      mysql_diagnostics_effects_def select_is_not_control effect_defs)

text \<open>
  A plain read is never the user's uncommitted work: for a SELECT that locks nothing, assigns
  no user variable, calls no GET_LOCK and executes no explained statement, on a session that had no
  uncommitted work, the server's report of an open transaction is not believed, whatever the
  server answers.
\<close>

lemma plain_read_is_not_work:
  assumes "plain_read rd db_type sql" "\<not> retained_may_have_uncommitted_work prior"
  shows "\<not> mysql_server_probe_reports_uncommitted_work_for_statement rd db_type sql prior
    (mysql_effects_for_single_statement rd db_type sql) server_reports"
proof -
  let ?eff = "mysql_effective_statement_sql_for_db_type rd db_type sql"
  let ?words = "rd_words rd db_type ?eff"
  let ?e = "mysql_effects_for_single_statement rd db_type sql"
  note pr = assms(1) [unfolded plain_read_def Let_def]
  have named: "\<not> mysql_statement_acquires_named_lock rd ?eff ?words"
    using pr by (simp add: mysql_statement_acquires_named_lock_def
        mysql_statement_invokes_function_def)
  have hint: "mysql_session_state_hint rd db_type ?eff ?words = hint_default"
    using plain_read_hint named pr by blast
  have work: "\<not> mysql_statement_may_leave_uncommitted_work rd db_type ?eff ?words"
    using pr by (simp add: mysql_statement_may_leave_uncommitted_work_def
        mysql_statement_may_leave_uncommitted_work_for_statement_def Let_def)
  have residue: "\<not> residue_effects_may_leave_session_residue
      (mysql_session_residue_effects rd db_type ?eff ?words hint_default)"
    using plain_read_residue pr by blast
  have read: "mysql_statement_starts_read_transaction rd db_type ?eff ?words"
    using pr by (simp add: mysql_statement_starts_read_transaction_def)
  have sel: "leads ?words ''SELECT''" using pr by blast
  note ctl = select_is_not_control [OF sel]
  have quiet: "\<not> eff_may_leave_uncommitted_work ?e" "\<not> eff_releases_physical_session ?e"
    "\<not> eff_may_leave_session_residue ?e" "\<not> eff_acquires_table_lock ?e"
    "\<not> eff_acquires_flush_table_lock ?e" "\<not> eff_acquires_backup_lock ?e"
    "\<not> eff_acquires_named_lock ?e"
    using hint work residue ctl named
    by (simp_all add: mysql_effects_for_single_statement_def Let_def outcome_defs
        eff_may_leave_uncommitted_work_def eff_releases_physical_session_def
        eff_may_leave_session_residue_def eff_acquires_table_lock_def
        eff_acquires_flush_table_lock_def eff_acquires_backup_lock_def eff_acquires_named_lock_def)
  have noise: "mysql_statement_is_read_only_transaction_probe_noise rd db_type sql ?e"
    using quiet read
    by (simp add: mysql_statement_is_read_only_transaction_probe_noise_def Let_def
        mysql_effects_parts hint ctl hint_default_def)
  show ?thesis
    using quiet noise assms(2)
    by (simp add: mysql_server_probe_reports_uncommitted_work_for_statement_def Let_def
        mysql_statement_server_probe_requires_transaction_preservation_def
        mysql_effects_parts hint ctl hint_default_def)
qed

lemma plain_read_is_not_work_witness:
  "\<not> mysql_server_probe_reports_uncommitted_work_for_statement blank_reader MySQL
     ''SELECT ID FROM T'' retained_default
     (mysql_effects_for_single_statement blank_reader MySQL ''SELECT ID FROM T'') True"
proof (rule plain_read_is_not_work)
  show "plain_read blank_reader MySQL ''SELECT ID FROM T''" by code_simp
  show "\<not> retained_may_have_uncommitted_work retained_default" by code_simp
qed

section \<open>MariaDB's executing ANALYZE\<close>

text \<open>
  MariaDB's \<open>ANALYZE <statement>\<close> executes the statement and commits nothing, and the reader
  of implicit commits says so. The statement hint of the same text still says that the statement
  ends the transaction: a successful one takes a session from a decision the user owes to mere
  dirtiness, or to clean when the server reports nothing open.
\<close>

theorem executing_analyze_drops_a_decision:
  assumes "leads (rd_words rd MariaDB sql) ''ANALYZE''"
    and "rd_explain_executed rd MariaDB sql \<noteq> None"
    and "rd_set_statement_inner rd sql = None"
    and "rd_autocommit_values rd sql = []"
  shows "\<not> eff_has_implicit_commit (mysql_effects_for_single_statement rd MariaDB sql) \<and>
    transaction_session_state_after_statement DecisionRequired
      (mysql_effects_for_single_statement rd MariaDB sql) server_reports False False False =
      (if server_reports then MaybeDirty else Clean)"
proof -
  let ?words = "rd_words rd MariaDB sql"
  let ?e = "mysql_effects_for_single_statement rd MariaDB sql"
  have eff: "mysql_effective_statement_sql_for_db_type rd MariaDB sql = sql"
    using assms(3) by (simp add: mysql_effective_statement_sql_for_db_type_def)
  have commit: "\<not> mysql_statement_has_implicit_commit rd MariaDB sql ?words"
    using assms(1,2)
    by (simp add: mysql_statement_has_implicit_commit_def mysql_statement_acquires_table_lock_def
        mysql_statement_consumes_next_transaction_mode_override_via_implicit_commit_def
        starts_with_words_Cons)
  have implicit: "\<not> eff_has_implicit_commit ?e"
    using commit by (simp add: mysql_effects_parts eff)
  have named: "\<not> mysql_statement_acquires_named_lock rd sql ?words"
    using assms(1)
    by (simp add: mysql_statement_acquires_named_lock_def mysql_statement_invokes_function_def)
  have "mysql_session_state_hint rd MariaDB sql ?words = mysql_hint True False False False False"
    using assms(1,4) named
    by (simp add: mysql_session_state_hint_def statement_is_plain_keyword_def Let_def
        mysql_autocommit_assignments_are_all_literal_def mysql_is_autocommit_assignment_def
        lock_or_read_hint_def leading_keyword_hint_def starts_with_words_Cons
        mysql_create_table_select_statement_def mysql_create_table_statement_def
        mysql_statement_acquires_table_lock_def mysql_statement_acquires_flush_table_lock_def
        mysql_statement_acquires_backup_lock_def mysql_statement_acquires_global_read_lock_def
        mysql_statement_acquires_flush_tables_for_export_lock_def)
  moreover have "mysql_transaction_control_outcome_for_words ?words = NotTransactionControl"
    using assms(1) by (simp add: mysql_transaction_control_outcome_for_words_def)
  ultimately show ?thesis
    using implicit
    by (simp add: transaction_session_state_after_statement_def Let_def
        requires_transaction_decision_after_statement_def may_need_preservation_after_statement_def
        mysql_effects_parts eff mysql_hint_def)
qed

theorem executing_analyze_drops_a_decision_witness:
  "transaction_session_state_after_statement DecisionRequired
     (mysql_effects_for_single_statement blank_reader MariaDB ''ANALYZE UPDATE T SET C = 1'') True
     False False False = MaybeDirty"
proof -
  have "leads (rd_words blank_reader MariaDB ''ANALYZE UPDATE T SET C = 1'') ''ANALYZE''"
    "rd_explain_executed blank_reader MariaDB ''ANALYZE UPDATE T SET C = 1'' \<noteq> None"
    "rd_set_statement_inner blank_reader ''ANALYZE UPDATE T SET C = 1'' = None"
    "rd_autocommit_values blank_reader ''ANALYZE UPDATE T SET C = 1'' = []"
    by code_simp+
  from executing_analyze_drops_a_decision [OF this] show ?thesis by simp
qed

end
