(* ===== verification/Batch_Effects.thy ===== *)
theory Batch_Effects
  imports Statement_Reader
begin

text \<open>
  What a whole MySQL or MariaDB batch leaves on its session (\<^verbatim>\<open>MySqlBatchSessionEffects\<close> in
  \<^verbatim>\<open>src/db/transaction.rs\<close>). The record's fields carry the prefix \<open>batch\<close>; a method that takes
  \<^verbatim>\<open>&mut self\<close> returns the updated record, paired with its result where it has one. The
  statements of a batch are the steps of the relation \<open>batch_step\<close>, and the reachable batches its
  closure. The lemmas show when a batch's reading of the session is right: what a released session
  keeps, what a failed statement may claim about a commit, and that the lock and residue deltas a
  batch accumulates are those the statement-by-statement rules compute.
\<close>

section \<open>Deltas\<close>

datatype BatchPriorTransactionEffect =
  PriorPreserve | PriorClear | ClearUnlessServerDisagrees | ClearIfPriorTableLock bool

datatype BatchTableLockDelta = TablePreserve | TableMayHold | TableReleased

datatype BatchFlushTableLockDelta = FlushPreserve | FlushMayHold | FlushReleased

datatype BatchBackupLockDelta = BackupPreserve | BackupMayHold | BackupReleased

datatype BatchNamedLockDelta = NamedPreserve | NamedMayHold | NamedReleasedAll

record MySqlBatchSessionEffects =
  batch_db_type :: DatabaseType
  batch_may_have_uncommitted_work :: bool
  batch_transaction_state_cleared :: bool
  batch_requires_decision :: bool
  batch_probe_requires_preservation :: bool
  batch_released :: bool
  batch_interrupted_requires_discard :: bool
  batch_prior_effect :: BatchPriorTransactionEffect
  batch_residue :: SessionResidueState
  batch_residue_cleared :: bool
  batch_table_lock :: BatchTableLockDelta
  batch_flush_lock :: BatchFlushTableLockDelta
  batch_backup_lock :: BatchBackupLockDelta
  batch_named_lock :: BatchNamedLockDelta
  batch_uncertain_named_release :: bool

definition for_db_type :: "DatabaseType \<Rightarrow> MySqlBatchSessionEffects" where
  "for_db_type db_type =
     \<lparr>batch_db_type = db_type, batch_may_have_uncommitted_work = False,
      batch_transaction_state_cleared = False, batch_requires_decision = False,
      batch_probe_requires_preservation = False, batch_released = False,
      batch_interrupted_requires_discard = False, batch_prior_effect = PriorPreserve,
      batch_residue = residue_default, batch_residue_cleared = False,
      batch_table_lock = TablePreserve, batch_flush_lock = FlushPreserve,
      batch_backup_lock = BackupPreserve, batch_named_lock = NamedPreserve,
      batch_uncertain_named_release = False\<rparr>"

definition batch_default :: MySqlBatchSessionEffects where
  "batch_default = for_db_type MySQL"

subsection \<open>The prior transaction\<close>

definition clears_prior :: "BatchPriorTransactionEffect \<Rightarrow> RetainedSessionState \<Rightarrow> bool" where
  "clears_prior p prior =
     (case p of
        PriorPreserve \<Rightarrow> False
      | PriorClear \<Rightarrow> True
      | ClearUnlessServerDisagrees \<Rightarrow> True
      | ClearIfPriorTableLock _ \<Rightarrow> may_hold_table_lock (lock_state prior))"

definition clears_prior_confirmed ::
    "BatchPriorTransactionEffect \<Rightarrow> RetainedSessionState \<Rightarrow> bool" where
  "clears_prior_confirmed p prior =
     (case p of ClearUnlessServerDisagrees \<Rightarrow> False | _ \<Rightarrow> clears_prior p prior)"

definition clear_is_tentative :: "BatchPriorTransactionEffect \<Rightarrow> bool" where
  "clear_is_tentative p \<longleftrightarrow> p = ClearUnlessServerDisagrees"

definition tentatively_cleared :: "BatchPriorTransactionEffect \<Rightarrow> BatchPriorTransactionEffect" where
  "tentatively_cleared p =
     (case p of
        PriorClear \<Rightarrow> PriorClear
      | ClearIfPriorTableLock w \<Rightarrow> ClearIfPriorTableLock w
      | PriorPreserve \<Rightarrow> ClearUnlessServerDisagrees
      | ClearUnlessServerDisagrees \<Rightarrow> ClearUnlessServerDisagrees)"

definition prior_may_have_uncommitted_work_after_batch ::
    "BatchPriorTransactionEffect \<Rightarrow> RetainedSessionState \<Rightarrow> bool \<Rightarrow> bool" where
  "prior_may_have_uncommitted_work_after_batch p prior batch_work =
     (case p of
        PriorClear \<Rightarrow> batch_work
      | ClearUnlessServerDisagrees \<Rightarrow> batch_work
      | ClearIfPriorTableLock work_after_clear \<Rightarrow>
          (if may_hold_table_lock (lock_state prior) then work_after_clear
           else retained_may_have_uncommitted_work prior \<or> batch_work)
      | PriorPreserve \<Rightarrow> retained_may_have_uncommitted_work prior \<or> batch_work)"

definition with_dirty_work_after_conditional_clear ::
    "BatchPriorTransactionEffect \<Rightarrow> BatchPriorTransactionEffect" where
  "with_dirty_work_after_conditional_clear p =
     (case p of ClearIfPriorTableLock _ \<Rightarrow> ClearIfPriorTableLock True | other \<Rightarrow> other)"

subsection \<open>Locks\<close>

definition table_after_batch :: "BatchTableLockDelta \<Rightarrow> RetainedSessionState \<Rightarrow> bool" where
  "table_after_batch d prior =
     (case d of
        TablePreserve \<Rightarrow> may_hold_table_lock (lock_state prior)
      | TableMayHold \<Rightarrow> True
      | TableReleased \<Rightarrow> False)"

definition flush_after_batch :: "BatchFlushTableLockDelta \<Rightarrow> RetainedSessionState \<Rightarrow> bool" where
  "flush_after_batch d prior =
     (case d of
        FlushPreserve \<Rightarrow> may_hold_flush_table_lock (lock_state prior)
      | FlushMayHold \<Rightarrow> True
      | FlushReleased \<Rightarrow> False)"

definition backup_after_batch :: "BatchBackupLockDelta \<Rightarrow> RetainedSessionState \<Rightarrow> bool" where
  "backup_after_batch d prior =
     (case d of
        BackupPreserve \<Rightarrow> may_hold_backup_lock (lock_state prior)
      | BackupMayHold \<Rightarrow> True
      | BackupReleased \<Rightarrow> False)"

definition named_after_batch :: "BatchNamedLockDelta \<Rightarrow> RetainedSessionState \<Rightarrow> bool" where
  "named_after_batch d prior =
     (case d of
        NamedPreserve \<Rightarrow> retained_may_hold_named_lock prior
      | NamedMayHold \<Rightarrow> True
      | NamedReleasedAll \<Rightarrow> False)"

section \<open>Marks\<close>

definition adopt_session_transaction_mode_override ::
    "MySqlBatchSessionEffects \<Rightarrow> MySqlBatchSessionEffects" where
  "adopt_session_transaction_mode_override b =
     b\<lparr>batch_residue := residue_with_session_transaction_mode_override_adopted (batch_residue b)\<rparr>"

definition mark_transaction_dirty :: "MySqlBatchSessionEffects \<Rightarrow> MySqlBatchSessionEffects" where
  "mark_transaction_dirty b =
     b\<lparr>batch_may_have_uncommitted_work := True, batch_transaction_state_cleared := False,
       batch_prior_effect := with_dirty_work_after_conditional_clear (batch_prior_effect b)\<rparr>"

definition mark_transaction_clean :: "MySqlBatchSessionEffects \<Rightarrow> MySqlBatchSessionEffects" where
  "mark_transaction_clean b =
     b\<lparr>batch_may_have_uncommitted_work := False, batch_transaction_state_cleared := True,
       batch_prior_effect := PriorClear\<rparr>"

definition mark_prior_transaction_clean ::
    "MySqlBatchSessionEffects \<Rightarrow> MySqlBatchSessionEffects" where
  "mark_prior_transaction_clean b = b\<lparr>batch_prior_effect := PriorClear\<rparr>"

definition mark_physical_session_released ::
    "MySqlBatchSessionEffects \<Rightarrow> MySqlBatchSessionEffects" where
  "mark_physical_session_released b =
     (mark_transaction_clean (b\<lparr>batch_released := True\<rparr>))
       \<lparr>batch_requires_decision := False, batch_probe_requires_preservation := False,
        batch_residue := residue_default, batch_residue_cleared := True,
        batch_table_lock := TableReleased, batch_flush_lock := FlushReleased,
        batch_backup_lock := BackupReleased, batch_named_lock := NamedReleasedAll,
        batch_uncertain_named_release := False\<rparr>"

definition reset_after_physical_session_release ::
    "MySqlBatchSessionEffects \<Rightarrow> MySqlBatchSessionEffects" where
  "reset_after_physical_session_release b =
     (for_db_type (batch_db_type b))
       \<lparr>batch_prior_effect := PriorClear, batch_residue_cleared := True,
        batch_table_lock := TableReleased, batch_flush_lock := FlushReleased,
        batch_backup_lock := BackupReleased, batch_named_lock := NamedReleasedAll\<rparr>"

definition mark_conditional_table_lock_transaction_clear ::
    "MySqlBatchSessionEffects \<Rightarrow> MySqlBatchSessionEffects" where
  "mark_conditional_table_lock_transaction_clear b =
     (if batch_prior_effect b \<noteq> PriorClear
      then b\<lparr>batch_prior_effect := ClearIfPriorTableLock False\<rparr> else b)"

definition defer_batch_dirtiness_to_server_probe ::
    "MySqlBatchSessionEffects \<Rightarrow> MySqlBatchSessionEffects" where
  "defer_batch_dirtiness_to_server_probe b =
     b\<lparr>batch_may_have_uncommitted_work := False, batch_transaction_state_cleared := True,
       batch_prior_effect := tentatively_cleared (batch_prior_effect b),
       batch_requires_decision := False\<rparr>"

lemmas batch_marks =
  mark_transaction_dirty_def mark_transaction_clean_def mark_prior_transaction_clean_def
  mark_physical_session_released_def reset_after_physical_session_release_def
  mark_conditional_table_lock_transaction_clear_def defer_batch_dirtiness_to_server_probe_def
  for_db_type_def

section \<open>One statement of a batch\<close>

text \<open>
  The groups of \<^verbatim>\<open>apply_statement_effects\<close>, composed in the source's order. \<open>confirmed\<close> is the
  source's \<^verbatim>\<open>cleanup_effects_confirmed\<close>: the statement succeeded, so what it ends has ended.
\<close>

definition apply_probe_claim ::
    "text_reader \<Rightarrow> string \<Rightarrow> StatementSessionEffects \<Rightarrow> MySqlBatchSessionEffects \<Rightarrow>
     MySqlBatchSessionEffects" where
  "apply_probe_claim rd sql effects b =
     (if mysql_statement_server_probe_requires_transaction_preservation rd (batch_db_type b)
           (mysql_effective_statement_sql_for_db_type rd (batch_db_type b) sql) retained_default
           effects
      then b\<lparr>batch_probe_requires_preservation := True\<rparr> else b)"

definition apply_residue ::
    "StatementSessionEffects \<Rightarrow> bool \<Rightarrow> MySqlBatchSessionEffects \<Rightarrow> MySqlBatchSessionEffects" where
  "apply_residue effects confirmed b =
     (if confirmed then
        (let b = b\<lparr>batch_residue :=
                     residue_after_successful_effects (batch_residue b) (session_residue effects)\<rparr>
         in if clears_all_session_residue (session_residue effects)
            then b\<lparr>batch_residue_cleared := True\<rparr> else b)
      else b\<lparr>batch_residue :=
               residue_merged_with (residue_with_statement_diagnostics_cleared (batch_residue b))
                 (residue_from_effects (without_statement_diagnostics (session_residue effects)))\<rparr>)"

definition apply_table_lock ::
    "StatementSessionEffects \<Rightarrow> bool \<Rightarrow> bool \<Rightarrow> MySqlBatchSessionEffects \<Rightarrow>
     MySqlBatchSessionEffects" where
  "apply_table_lock effects confirmed had_known_table_lock b =
     (if confirmed \<and> eff_releases_table_lock effects then
        (let b = b\<lparr>batch_table_lock := TableReleased\<rparr>
         in if had_known_table_lock then mark_transaction_clean b
            else mark_conditional_table_lock_transaction_clear b)
      else if eff_acquires_table_lock effects then b\<lparr>batch_table_lock := TableMayHold\<rparr>
      else b)"

definition apply_flush_and_backup_lock ::
    "StatementSessionEffects \<Rightarrow> bool \<Rightarrow> MySqlBatchSessionEffects \<Rightarrow> MySqlBatchSessionEffects" where
  "apply_flush_and_backup_lock effects confirmed b =
     (let b = (if confirmed \<and> eff_releases_flush_table_lock effects
               then b\<lparr>batch_flush_lock := FlushReleased\<rparr>
               else if eff_acquires_flush_table_lock effects
               then b\<lparr>batch_flush_lock := FlushMayHold\<rparr> else b)
      in if confirmed \<and> eff_releases_backup_lock effects
         then b\<lparr>batch_backup_lock := BackupReleased\<rparr>
         else if eff_acquires_backup_lock effects
         then b\<lparr>batch_backup_lock := BackupMayHold\<rparr> else b)"

definition apply_named_lock ::
    "StatementSessionEffects \<Rightarrow> bool \<Rightarrow> MySqlBatchSessionEffects \<Rightarrow> MySqlBatchSessionEffects" where
  "apply_named_lock effects confirmed b =
     (let b = (if confirmed \<and> eff_releases_all_named_locks effects
               then b\<lparr>batch_named_lock := NamedReleasedAll,
                      batch_uncertain_named_release := False\<rparr> else b)
      in if eff_acquires_named_lock effects then b\<lparr>batch_named_lock := NamedMayHold\<rparr>
         else if eff_releases_named_lock effects \<and> \<not> eff_releases_all_named_locks effects
         then b\<lparr>batch_uncertain_named_release := True\<rparr> else b)"

definition apply_control_outcome ::
    "TransactionControlOutcome \<Rightarrow> bool \<Rightarrow> MySqlBatchSessionEffects \<Rightarrow> MySqlBatchSessionEffects" where
  "apply_control_outcome control confirmed b =
     (if (control = OutcomeClean \<or> control = ReleasesSession) \<and> confirmed then
        (mark_transaction_clean b)\<lparr>batch_requires_decision := False\<rparr>
      else if control = StartsTransaction then
        mark_transaction_dirty (mark_prior_transaction_clean b)
      else if control = RequiresDecision then mark_transaction_dirty b
      else b)"

definition apply_dirtiness ::
    "StatementSessionEffects \<Rightarrow> bool \<Rightarrow> bool \<Rightarrow> MySqlBatchSessionEffects \<Rightarrow>
     MySqlBatchSessionEffects" where
  "apply_dirtiness effects auto_commit confirmed b =
     (if confirmed \<and> clears_session_state (state_hint effects) then
        (mark_transaction_clean b)\<lparr>batch_requires_decision := False\<rparr>
      else if eff_starts_transaction_state effects \<or>
          \<not> auto_commit \<and> eff_may_leave_uncommitted_work effects then mark_transaction_dirty b
      else b)"

definition apply_statement_effects ::
    "text_reader \<Rightarrow> string \<Rightarrow> bool \<Rightarrow> StatementSessionEffects \<Rightarrow> bool \<Rightarrow>
     MySqlBatchSessionEffects \<Rightarrow> MySqlBatchSessionEffects \<times> TransactionStatementStateHint" where
  "apply_statement_effects rd sql auto_commit effects confirmed b =
     (let b = (if batch_released b then reset_after_physical_session_release b else b);
          db_type = batch_db_type b;
          effective_sql = mysql_effective_statement_sql_for_db_type rd db_type sql;
          effects = mysql_statement_session_effects_for_execution_context rd db_type sql auto_commit
                      effects;
          hint = state_hint effects;
          had_known_table_lock = (batch_table_lock b = TableMayHold);
          b = apply_probe_claim rd sql effects b
      in if confirmed \<and> eff_releases_physical_session effects then
           (mark_physical_session_released b, hint)
         else
           (let b = (if confirmed \<and> requires_transaction_decision_after_success hint
                     then b\<lparr>batch_requires_decision := True\<rparr> else b);
                b = apply_residue effects confirmed b;
                b = apply_table_lock effects confirmed had_known_table_lock b;
                b = apply_flush_and_backup_lock effects confirmed b;
                b = apply_named_lock effects confirmed b;
                b = apply_control_outcome
                      (mysql_transaction_control_outcome_for_db_type rd db_type effective_sql)
                      confirmed b;
                b = apply_dirtiness effects auto_commit confirmed b
            in (b, hint)))"

definition apply_successful_statement_effects ::
    "text_reader \<Rightarrow> string \<Rightarrow> bool \<Rightarrow> StatementSessionEffects \<Rightarrow>
     MySqlBatchSessionEffects \<Rightarrow> MySqlBatchSessionEffects \<times> TransactionStatementStateHint" where
  "apply_successful_statement_effects rd sql auto_commit effects b =
     apply_statement_effects rd sql auto_commit effects True b"

definition apply_interrupted_statement_effects ::
    "text_reader \<Rightarrow> string \<Rightarrow> bool \<Rightarrow> StatementSessionEffects \<Rightarrow>
     MySqlBatchSessionEffects \<Rightarrow> MySqlBatchSessionEffects \<times> TransactionStatementStateHint" where
  "apply_interrupted_statement_effects rd sql auto_commit effects b =
     (let (b, hint) = apply_statement_effects rd sql auto_commit effects False b
      in (if \<not> statement_cancel_can_reuse_session hint
          then b\<lparr>batch_interrupted_requires_discard := True\<rparr> else b, hint))"

definition apply_failed_statement_effects ::
    "text_reader \<Rightarrow> string \<Rightarrow> bool \<Rightarrow> StatementSessionEffects \<Rightarrow>
     MySqlBatchSessionEffects \<Rightarrow> MySqlBatchSessionEffects \<times> TransactionStatementStateHint" where
  "apply_failed_statement_effects rd sql auto_commit effects b =
     (let effects = mysql_statement_session_effects_for_execution_context rd (batch_db_type b) sql
                      auto_commit effects;
          (b, hint) = apply_statement_effects rd sql auto_commit effects False b
      in (if eff_has_implicit_commit effects then defer_batch_dirtiness_to_server_probe b else b,
          hint))"

section \<open>After the batch\<close>

definition batch_may_hold_table_lock :: "MySqlBatchSessionEffects \<Rightarrow> bool" where
  "batch_may_hold_table_lock b \<longleftrightarrow>
     batch_table_lock b = TableMayHold \<or> batch_flush_lock b = FlushMayHold"

definition may_require_resolution :: "MySqlBatchSessionEffects \<Rightarrow> bool" where
  "may_require_resolution b \<longleftrightarrow>
     batch_may_have_uncommitted_work b \<or>
     residue_requires_physical_session_preservation (batch_residue b) \<or>
     batch_may_hold_table_lock b \<or> batch_backup_lock b = BackupMayHold \<or>
     batch_named_lock b = NamedMayHold \<or> batch_uncertain_named_release b"

definition prior_transaction_state_after_batch ::
    "MySqlBatchSessionEffects \<Rightarrow> RetainedSessionState \<Rightarrow> TransactionSessionState" where
  "prior_transaction_state_after_batch b prior =
     (if transaction_state prior = InvalidSession then InvalidSession
      else if clears_prior (batch_prior_effect b) prior then Clean
      else transaction_state prior)"

definition may_have_uncommitted_work_after_batch ::
    "MySqlBatchSessionEffects \<Rightarrow> RetainedSessionState \<Rightarrow> bool" where
  "may_have_uncommitted_work_after_batch b prior =
     prior_may_have_uncommitted_work_after_batch (batch_prior_effect b) prior
       (batch_may_have_uncommitted_work b)"

definition session_residue_state_after_batch ::
    "MySqlBatchSessionEffects \<Rightarrow> RetainedSessionState \<Rightarrow> SessionResidueState" where
  "session_residue_state_after_batch b prior =
     (if batch_residue_cleared b then batch_residue b
      else residue_merged_with (session_residue_state prior) (batch_residue b))"

definition lock_state_after_batch ::
    "MySqlBatchSessionEffects \<Rightarrow> RetainedSessionState \<Rightarrow> SessionLockState" where
  "lock_state_after_batch b prior =
     new_with_session_locks
       (table_after_batch (batch_table_lock b) prior)
       (flush_after_batch (batch_flush_lock b) prior)
       (backup_after_batch (batch_backup_lock b) prior)
       (named_after_batch (batch_named_lock b) prior)"

definition server_transaction_probe_reports_uncommitted_work_after_batch ::
    "MySqlBatchSessionEffects \<Rightarrow> RetainedSessionState \<Rightarrow> bool \<Rightarrow> bool" where
  "server_transaction_probe_reports_uncommitted_work_after_batch b prior server_reports \<longleftrightarrow>
     server_reports \<and>
     (batch_probe_requires_preservation b \<or>
      may_have_uncommitted_work_after_batch b prior \<or>
      tss_requires_transaction_decision (prior_transaction_state_after_batch b prior) \<or>
      batch_requires_decision b \<or>
      clear_is_tentative (batch_prior_effect b) \<and> retained_may_have_uncommitted_work prior)"

definition retained_state_after_successful_batch ::
    "MySqlBatchSessionEffects \<Rightarrow> RetainedSessionState \<Rightarrow> bool \<Rightarrow> RetainedSessionState" where
  "retained_state_after_successful_batch b prior server_reports =
     (let prior_transaction_state = prior_transaction_state_after_batch b prior;
          server_reports =
            server_transaction_probe_reports_uncommitted_work_after_batch b prior server_reports;
          decision_preserved =
            (server_reports \<and> clear_is_tentative (batch_prior_effect b) \<and>
             tss_requires_transaction_decision (transaction_state prior));
          t = (if prior_transaction_state = InvalidSession then InvalidSession
               else from_flags
                      (may_have_uncommitted_work_after_batch b prior \<or> server_reports)
                      (decision_preserved \<or>
                       tss_requires_transaction_decision prior_transaction_state \<or>
                       batch_requires_decision b))
      in from_parts t (session_residue_state_after_batch b prior) (lock_state_after_batch b prior))"

definition outcome_after_successful_batch ::
    "MySqlBatchSessionEffects \<Rightarrow> RetainedSessionState \<Rightarrow> bool \<Rightarrow> RetainedSessionOutcome" where
  "outcome_after_successful_batch b prior server_reports =
     (if batch_released b
      then DiscardPhysical (retained_state_after_successful_batch b prior server_reports)
      else Retain (retained_state_after_successful_batch b prior server_reports))"

definition interrupted_transaction_state ::
    "MySqlBatchSessionEffects \<Rightarrow> RetainedSessionState \<Rightarrow> TransactionSessionState" where
  "interrupted_transaction_state b prior =
     (let prior_transaction_state = prior_transaction_state_after_batch b prior;
          prior_work = (\<not> clears_prior_confirmed (batch_prior_effect b) prior \<and>
                        retained_may_have_uncommitted_work prior);
          requires_decision =
            (tss_requires_transaction_decision prior_transaction_state \<or>
             batch_requires_decision b \<or>
             clear_is_tentative (batch_prior_effect b) \<and>
               tss_requires_transaction_decision (transaction_state prior) \<or>
             may_have_uncommitted_work_after_batch b prior \<or>
             batch_uncertain_named_release b \<and> prior_work)
      in if prior_transaction_state = InvalidSession then InvalidSession
         else if requires_decision then DecisionRequired
         else if prior_work then transaction_state prior
         else Clean)"

definition retained_state_after_interrupted_batch ::
    "MySqlBatchSessionEffects \<Rightarrow> RetainedSessionState \<Rightarrow> RetainedSessionState option" where
  "retained_state_after_interrupted_batch b prior =
     (let s = from_parts (interrupted_transaction_state b prior)
                (session_residue_state_after_batch b prior) (lock_state_after_batch b prior)
      in if requires_physical_session_preservation s then Some s else None)"

record MySqlInterruptedBatchSessionDecision =
  decision_outcome :: RetainedSessionOutcome
  requires_session_info_sync :: bool

definition decision_after_interrupted_batch ::
    "MySqlBatchSessionEffects \<Rightarrow> RetainedSessionState \<Rightarrow> bool \<Rightarrow>
     MySqlInterruptedBatchSessionDecision" where
  "decision_after_interrupted_batch b prior script_mode =
     (if batch_released b then
        \<lparr>decision_outcome = DiscardPhysical
           (case retained_state_after_interrupted_batch b prior of
              Some s \<Rightarrow> s | None \<Rightarrow> retained_default),
         requires_session_info_sync = False\<rparr>
      else
        (case retained_state_after_interrupted_batch b prior of
           Some s \<Rightarrow>
             (if batch_interrupted_requires_discard b \<and> \<not> transaction_resolution_action_allowed s then
                \<lparr>decision_outcome = DiscardPhysical s, requires_session_info_sync = False\<rparr>
              else
                \<lparr>decision_outcome = Retain
                   (if batch_interrupted_requires_discard b
                    then retained_with_untracked_session_state s else s),
                 requires_session_info_sync = True\<rparr>)
         | None \<Rightarrow>
             (if script_mode then
                \<lparr>decision_outcome = DiscardPhysical retained_default,
                 requires_session_info_sync = False\<rparr>
              else if batch_interrupted_requires_discard b then
                \<lparr>decision_outcome = DiscardPhysical retained_default,
                 requires_session_info_sync = False\<rparr>
              else \<lparr>decision_outcome = Retain prior, requires_session_info_sync = False\<rparr>)))"

section \<open>Runs of a batch\<close>

text \<open>
  What a batch lives through: a statement that succeeded, failed or was interrupted, with the
  auto-commit setting it ran under and the effects its post-processor computed, or the adoption of
  a session-scoped transaction mode into the tab.
\<close>

datatype batch_event =
  Succeeded string bool StatementSessionEffects
| Failed string bool StatementSessionEffects
| Interrupted string bool StatementSessionEffects
| AdoptedMode

fun batch_step ::
    "text_reader \<Rightarrow> MySqlBatchSessionEffects \<Rightarrow> batch_event \<Rightarrow> MySqlBatchSessionEffects" where
  "batch_step rd b (Succeeded sql ac e) = fst (apply_successful_statement_effects rd sql ac e b)"
| "batch_step rd b (Failed sql ac e) = fst (apply_failed_statement_effects rd sql ac e b)"
| "batch_step rd b (Interrupted sql ac e) = fst (apply_interrupted_statement_effects rd sql ac e b)"
| "batch_step rd b AdoptedMode = adopt_session_transaction_mode_override b"

definition run_batch ::
    "text_reader \<Rightarrow> DatabaseType \<Rightarrow> batch_event list \<Rightarrow> MySqlBatchSessionEffects" where
  "run_batch rd db_type events = foldl (batch_step rd) (for_db_type db_type) events"

section \<open>What each group leaves alone\<close>

lemma apply_probe_claim_keeps [simp]:
  "batch_db_type (apply_probe_claim rd sql e b) = batch_db_type b"
  "batch_may_have_uncommitted_work (apply_probe_claim rd sql e b) = batch_may_have_uncommitted_work b"
  "batch_transaction_state_cleared (apply_probe_claim rd sql e b) = batch_transaction_state_cleared b"
  "batch_requires_decision (apply_probe_claim rd sql e b) = batch_requires_decision b"
  "batch_released (apply_probe_claim rd sql e b) = batch_released b"
  "batch_interrupted_requires_discard (apply_probe_claim rd sql e b) = batch_interrupted_requires_discard b"
  "batch_prior_effect (apply_probe_claim rd sql e b) = batch_prior_effect b"
  "batch_residue (apply_probe_claim rd sql e b) = batch_residue b"
  "batch_residue_cleared (apply_probe_claim rd sql e b) = batch_residue_cleared b"
  "batch_table_lock (apply_probe_claim rd sql e b) = batch_table_lock b"
  "batch_flush_lock (apply_probe_claim rd sql e b) = batch_flush_lock b"
  "batch_backup_lock (apply_probe_claim rd sql e b) = batch_backup_lock b"
  "batch_named_lock (apply_probe_claim rd sql e b) = batch_named_lock b"
  "batch_uncertain_named_release (apply_probe_claim rd sql e b) = batch_uncertain_named_release b"
  by (simp_all add: apply_probe_claim_def Let_def batch_marks)

lemma apply_residue_keeps [simp]:
  "batch_db_type (apply_residue e c b) = batch_db_type b"
  "batch_may_have_uncommitted_work (apply_residue e c b) = batch_may_have_uncommitted_work b"
  "batch_transaction_state_cleared (apply_residue e c b) = batch_transaction_state_cleared b"
  "batch_requires_decision (apply_residue e c b) = batch_requires_decision b"
  "batch_probe_requires_preservation (apply_residue e c b) = batch_probe_requires_preservation b"
  "batch_released (apply_residue e c b) = batch_released b"
  "batch_interrupted_requires_discard (apply_residue e c b) = batch_interrupted_requires_discard b"
  "batch_prior_effect (apply_residue e c b) = batch_prior_effect b"
  "batch_table_lock (apply_residue e c b) = batch_table_lock b"
  "batch_flush_lock (apply_residue e c b) = batch_flush_lock b"
  "batch_backup_lock (apply_residue e c b) = batch_backup_lock b"
  "batch_named_lock (apply_residue e c b) = batch_named_lock b"
  "batch_uncertain_named_release (apply_residue e c b) = batch_uncertain_named_release b"
  by (simp_all add: apply_residue_def Let_def batch_marks)

lemma apply_table_lock_keeps [simp]:
  "batch_db_type (apply_table_lock e c k b) = batch_db_type b"
  "batch_requires_decision (apply_table_lock e c k b) = batch_requires_decision b"
  "batch_probe_requires_preservation (apply_table_lock e c k b) = batch_probe_requires_preservation b"
  "batch_released (apply_table_lock e c k b) = batch_released b"
  "batch_interrupted_requires_discard (apply_table_lock e c k b) = batch_interrupted_requires_discard b"
  "batch_residue (apply_table_lock e c k b) = batch_residue b"
  "batch_residue_cleared (apply_table_lock e c k b) = batch_residue_cleared b"
  "batch_flush_lock (apply_table_lock e c k b) = batch_flush_lock b"
  "batch_backup_lock (apply_table_lock e c k b) = batch_backup_lock b"
  "batch_named_lock (apply_table_lock e c k b) = batch_named_lock b"
  "batch_uncertain_named_release (apply_table_lock e c k b) = batch_uncertain_named_release b"
  by (simp_all add: apply_table_lock_def Let_def batch_marks)

lemma apply_flush_and_backup_lock_keeps [simp]:
  "batch_db_type (apply_flush_and_backup_lock e c b) = batch_db_type b"
  "batch_may_have_uncommitted_work (apply_flush_and_backup_lock e c b) = batch_may_have_uncommitted_work b"
  "batch_transaction_state_cleared (apply_flush_and_backup_lock e c b) = batch_transaction_state_cleared b"
  "batch_requires_decision (apply_flush_and_backup_lock e c b) = batch_requires_decision b"
  "batch_probe_requires_preservation (apply_flush_and_backup_lock e c b) = batch_probe_requires_preservation b"
  "batch_released (apply_flush_and_backup_lock e c b) = batch_released b"
  "batch_interrupted_requires_discard (apply_flush_and_backup_lock e c b) = batch_interrupted_requires_discard b"
  "batch_prior_effect (apply_flush_and_backup_lock e c b) = batch_prior_effect b"
  "batch_residue (apply_flush_and_backup_lock e c b) = batch_residue b"
  "batch_residue_cleared (apply_flush_and_backup_lock e c b) = batch_residue_cleared b"
  "batch_table_lock (apply_flush_and_backup_lock e c b) = batch_table_lock b"
  "batch_named_lock (apply_flush_and_backup_lock e c b) = batch_named_lock b"
  "batch_uncertain_named_release (apply_flush_and_backup_lock e c b) = batch_uncertain_named_release b"
  by (simp_all add: apply_flush_and_backup_lock_def Let_def batch_marks)

lemma apply_named_lock_keeps [simp]:
  "batch_db_type (apply_named_lock e c b) = batch_db_type b"
  "batch_may_have_uncommitted_work (apply_named_lock e c b) = batch_may_have_uncommitted_work b"
  "batch_transaction_state_cleared (apply_named_lock e c b) = batch_transaction_state_cleared b"
  "batch_requires_decision (apply_named_lock e c b) = batch_requires_decision b"
  "batch_probe_requires_preservation (apply_named_lock e c b) = batch_probe_requires_preservation b"
  "batch_released (apply_named_lock e c b) = batch_released b"
  "batch_interrupted_requires_discard (apply_named_lock e c b) = batch_interrupted_requires_discard b"
  "batch_prior_effect (apply_named_lock e c b) = batch_prior_effect b"
  "batch_residue (apply_named_lock e c b) = batch_residue b"
  "batch_residue_cleared (apply_named_lock e c b) = batch_residue_cleared b"
  "batch_table_lock (apply_named_lock e c b) = batch_table_lock b"
  "batch_flush_lock (apply_named_lock e c b) = batch_flush_lock b"
  "batch_backup_lock (apply_named_lock e c b) = batch_backup_lock b"
  by (simp_all add: apply_named_lock_def Let_def batch_marks)

lemma apply_control_outcome_keeps [simp]:
  "batch_db_type (apply_control_outcome t c b) = batch_db_type b"
  "batch_probe_requires_preservation (apply_control_outcome t c b) = batch_probe_requires_preservation b"
  "batch_released (apply_control_outcome t c b) = batch_released b"
  "batch_interrupted_requires_discard (apply_control_outcome t c b) = batch_interrupted_requires_discard b"
  "batch_residue (apply_control_outcome t c b) = batch_residue b"
  "batch_residue_cleared (apply_control_outcome t c b) = batch_residue_cleared b"
  "batch_table_lock (apply_control_outcome t c b) = batch_table_lock b"
  "batch_flush_lock (apply_control_outcome t c b) = batch_flush_lock b"
  "batch_backup_lock (apply_control_outcome t c b) = batch_backup_lock b"
  "batch_named_lock (apply_control_outcome t c b) = batch_named_lock b"
  "batch_uncertain_named_release (apply_control_outcome t c b) = batch_uncertain_named_release b"
  by (simp_all add: apply_control_outcome_def Let_def batch_marks)

lemma apply_dirtiness_keeps [simp]:
  "batch_db_type (apply_dirtiness e a c b) = batch_db_type b"
  "batch_probe_requires_preservation (apply_dirtiness e a c b) = batch_probe_requires_preservation b"
  "batch_released (apply_dirtiness e a c b) = batch_released b"
  "batch_interrupted_requires_discard (apply_dirtiness e a c b) = batch_interrupted_requires_discard b"
  "batch_residue (apply_dirtiness e a c b) = batch_residue b"
  "batch_residue_cleared (apply_dirtiness e a c b) = batch_residue_cleared b"
  "batch_table_lock (apply_dirtiness e a c b) = batch_table_lock b"
  "batch_flush_lock (apply_dirtiness e a c b) = batch_flush_lock b"
  "batch_backup_lock (apply_dirtiness e a c b) = batch_backup_lock b"
  "batch_named_lock (apply_dirtiness e a c b) = batch_named_lock b"
  "batch_uncertain_named_release (apply_dirtiness e a c b) = batch_uncertain_named_release b"
  by (simp_all add: apply_dirtiness_def Let_def batch_marks)

lemma apply_lock_fields [simp]:
  "batch_table_lock (apply_table_lock e c k b) =
     (if c \<and> eff_releases_table_lock e then TableReleased
      else if eff_acquires_table_lock e then TableMayHold else batch_table_lock b)"
  "batch_flush_lock (apply_flush_and_backup_lock e c b) =
     (if c \<and> eff_releases_flush_table_lock e then FlushReleased
      else if eff_acquires_flush_table_lock e then FlushMayHold else batch_flush_lock b)"
  "batch_backup_lock (apply_flush_and_backup_lock e c b) =
     (if c \<and> eff_releases_backup_lock e then BackupReleased
      else if eff_acquires_backup_lock e then BackupMayHold else batch_backup_lock b)"
  "batch_named_lock (apply_named_lock e c b) =
     (if eff_acquires_named_lock e then NamedMayHold
      else if c \<and> eff_releases_all_named_locks e then NamedReleasedAll else batch_named_lock b)"
  by (simp_all add: apply_table_lock_def apply_flush_and_backup_lock_def apply_named_lock_def
      Let_def batch_marks)

section \<open>The invariant of a batch\<close>

definition batch_inv :: "DatabaseType \<Rightarrow> MySqlBatchSessionEffects \<Rightarrow> bool" where
  "batch_inv db_type b \<longleftrightarrow>
     batch_db_type b = db_type \<and>
     (batch_released b \<longrightarrow>
        batch_prior_effect b = PriorClear \<and> \<not> batch_may_have_uncommitted_work b \<and>
        \<not> batch_requires_decision b \<and> \<not> batch_probe_requires_preservation b \<and>
        batch_residue b = residue_default \<and> batch_residue_cleared b \<and>
        batch_table_lock b = TableReleased \<and> batch_flush_lock b = FlushReleased \<and>
        batch_backup_lock b = BackupReleased \<and> batch_named_lock b = NamedReleasedAll \<and>
        \<not> batch_uncertain_named_release b)"

lemma for_db_type_inv [simp]: "batch_inv db_type (for_db_type db_type)"
  by (simp add: batch_inv_def for_db_type_def)

definition reusable_batch :: "MySqlBatchSessionEffects \<Rightarrow> MySqlBatchSessionEffects" where
  "reusable_batch b = (if batch_released b then reset_after_physical_session_release b else b)"

lemma reusable_batch_fields [simp]:
  "batch_db_type (reusable_batch b) = batch_db_type b"
  "\<not> batch_released (reusable_batch b)"
  by (simp_all add: reusable_batch_def batch_marks)

lemma execution_context_keeps [simp]:
  "transaction (mysql_statement_session_effects_for_execution_context rd d sql ac e) = transaction e"
  "table_lock (mysql_statement_session_effects_for_execution_context rd d sql ac e) = table_lock e"
  "flush_table_lock (mysql_statement_session_effects_for_execution_context rd d sql ac e) =
     flush_table_lock e"
  "backup_lock (mysql_statement_session_effects_for_execution_context rd d sql ac e) = backup_lock e"
  "named_lock (mysql_statement_session_effects_for_execution_context rd d sql ac e) = named_lock e"
  by (simp_all add: mysql_statement_session_effects_for_execution_context_def Let_def)

lemma execution_context_idem [simp]:
  "mysql_statement_session_effects_for_execution_context rd d sql ac
     (mysql_statement_session_effects_for_execution_context rd d sql ac e) =
   mysql_statement_session_effects_for_execution_context rd d sql ac e"
  by (simp add: mysql_statement_session_effects_for_execution_context_def Let_def
      split: option.split)

lemma context_accessors [simp]:
  "eff_releases_physical_session
     (mysql_statement_session_effects_for_execution_context rd d sql ac e) =
   eff_releases_physical_session e"
  "eff_releases_table_lock (mysql_statement_session_effects_for_execution_context rd d sql ac e) =
   eff_releases_table_lock e"
  "eff_acquires_table_lock (mysql_statement_session_effects_for_execution_context rd d sql ac e) =
   eff_acquires_table_lock e"
  "eff_releases_flush_table_lock
     (mysql_statement_session_effects_for_execution_context rd d sql ac e) =
   eff_releases_flush_table_lock e"
  "eff_acquires_flush_table_lock
     (mysql_statement_session_effects_for_execution_context rd d sql ac e) =
   eff_acquires_flush_table_lock e"
  "eff_releases_backup_lock (mysql_statement_session_effects_for_execution_context rd d sql ac e) =
   eff_releases_backup_lock e"
  "eff_acquires_backup_lock (mysql_statement_session_effects_for_execution_context rd d sql ac e) =
   eff_acquires_backup_lock e"
  "eff_releases_all_named_locks
     (mysql_statement_session_effects_for_execution_context rd d sql ac e) =
   eff_releases_all_named_locks e"
  "eff_releases_named_lock (mysql_statement_session_effects_for_execution_context rd d sql ac e) =
   eff_releases_named_lock e"
  "eff_acquires_named_lock (mysql_statement_session_effects_for_execution_context rd d sql ac e) =
   eff_acquires_named_lock e"
  "eff_has_implicit_commit (mysql_statement_session_effects_for_execution_context rd d sql ac e) =
   eff_has_implicit_commit e"
  by (simp_all add: eff_releases_physical_session_def eff_releases_table_lock_def
      eff_acquires_table_lock_def eff_releases_flush_table_lock_def
      eff_acquires_flush_table_lock_def eff_releases_backup_lock_def eff_acquires_backup_lock_def
      eff_releases_all_named_locks_def eff_releases_named_lock_def eff_acquires_named_lock_def
      eff_has_implicit_commit_def)

lemma apply_statement_released:
  assumes "confirmed" "eff_releases_physical_session e"
  shows "fst (apply_statement_effects rd sql ac e confirmed b) =
    mark_physical_session_released (apply_probe_claim rd sql
      (mysql_statement_session_effects_for_execution_context rd (batch_db_type b) sql ac e)
      (reusable_batch b))"
  using assms
  by (simp add: apply_statement_effects_def reusable_batch_def [symmetric] Let_def)

lemma apply_statement_locks:
  assumes "\<not> (confirmed \<and> eff_releases_physical_session e)"
  shows "batch_released (fst (apply_statement_effects rd sql ac e confirmed b)) \<longleftrightarrow> False"
    and "batch_table_lock (fst (apply_statement_effects rd sql ac e confirmed b)) =
      (if confirmed \<and> eff_releases_table_lock e then TableReleased
       else if eff_acquires_table_lock e then TableMayHold
       else batch_table_lock (reusable_batch b))"
    and "batch_flush_lock (fst (apply_statement_effects rd sql ac e confirmed b)) =
      (if confirmed \<and> eff_releases_flush_table_lock e then FlushReleased
       else if eff_acquires_flush_table_lock e then FlushMayHold
       else batch_flush_lock (reusable_batch b))"
    and "batch_backup_lock (fst (apply_statement_effects rd sql ac e confirmed b)) =
      (if confirmed \<and> eff_releases_backup_lock e then BackupReleased
       else if eff_acquires_backup_lock e then BackupMayHold
       else batch_backup_lock (reusable_batch b))"
    and "batch_named_lock (fst (apply_statement_effects rd sql ac e confirmed b)) =
      (if eff_acquires_named_lock e then NamedMayHold
       else if confirmed \<and> eff_releases_all_named_locks e then NamedReleasedAll
       else batch_named_lock (reusable_batch b))"
  unfolding apply_statement_effects_def reusable_batch_def [symmetric] Let_def
  by (simp_all only: context_accessors reusable_batch_fields if_not_P [OF assms] fst_conv) simp_all

lemma context_residue [simp]:
  "clears_all_session_residue (session_residue
     (mysql_statement_session_effects_for_execution_context rd d sql ac e)) =
   clears_all_session_residue (session_residue e)"
  "residue_from_effects (session_residue
     (mysql_statement_session_effects_for_execution_context rd d sql ac e)) =
   residue_from_effects (session_residue e)"
  "residue_from_effects (without_statement_diagnostics (session_residue
     (mysql_statement_session_effects_for_execution_context rd d sql ac e))) =
   residue_from_effects (without_statement_diagnostics (session_residue e))"
  by (simp_all add: mysql_statement_session_effects_for_execution_context_def Let_def
      without_statement_diagnostics_def residue_from_effects_def)

lemma apply_statement_residue:
  assumes "\<not> (confirmed \<and> eff_releases_physical_session e)"
  shows "batch_residue (fst (apply_statement_effects rd sql ac e confirmed b)) =
      (if confirmed then
         residue_after_successful_effects (batch_residue (reusable_batch b))
           (session_residue
             (mysql_statement_session_effects_for_execution_context rd (batch_db_type b) sql ac e))
       else residue_merged_with
         (residue_with_statement_diagnostics_cleared (batch_residue (reusable_batch b)))
         (residue_from_effects (without_statement_diagnostics (session_residue e))))"
    and "batch_residue_cleared (fst (apply_statement_effects rd sql ac e confirmed b)) \<longleftrightarrow>
      (confirmed \<and> clears_all_session_residue (session_residue e)) \<or>
      batch_residue_cleared (reusable_batch b)"
  unfolding apply_statement_effects_def reusable_batch_def [symmetric] Let_def
  by (simp_all only: context_accessors reusable_batch_fields if_not_P [OF assms] fst_conv)
    (simp_all add: apply_residue_def Let_def)

lemma apply_statement_db_type [simp]:
  "batch_db_type (fst (apply_statement_effects rd sql ac e confirmed b)) = batch_db_type b"
  by (cases "confirmed \<and> eff_releases_physical_session e")
    (simp_all add: apply_statement_released mark_physical_session_released_def
      mark_transaction_clean_def apply_statement_effects_def reusable_batch_def [symmetric] Let_def)

lemma released_fields:
  "batch_inv (batch_db_type b) (mark_physical_session_released b)"
  by (simp add: batch_inv_def batch_marks)

lemma apply_statement_inv:
  "batch_inv (batch_db_type b) (fst (apply_statement_effects rd sql ac e confirmed b))"
proof (cases "confirmed \<and> eff_releases_physical_session e")
  case True
  then show ?thesis
    using released_fields [of "apply_probe_claim rd sql
      (mysql_statement_session_effects_for_execution_context rd (batch_db_type b) sql ac e)
      (reusable_batch b)"]
    by (simp add: apply_statement_released)
next
  case False
  then show ?thesis by (simp add: batch_inv_def apply_statement_locks(1))
qed

lemma batch_step_inv: "batch_inv db_type b \<Longrightarrow> batch_inv db_type (batch_step rd b ev)"
proof (cases ev)
  case (Succeeded sql ac e)
  assume "batch_inv db_type b"
  then show ?thesis
    using Succeeded apply_statement_inv [of b rd sql ac e True]
    by (simp add: apply_successful_statement_effects_def batch_inv_def)
next
  case (Failed sql ac e)
  assume "batch_inv db_type b"
  then show ?thesis
    using Failed
    by (simp add: apply_failed_statement_effects_def batch_inv_def Let_def case_prod_unfold
        defer_batch_dirtiness_to_server_probe_def apply_statement_locks(1))
next
  case (Interrupted sql ac e)
  assume "batch_inv db_type b"
  then show ?thesis
    using Interrupted
    by (simp add: apply_interrupted_statement_effects_def batch_inv_def Let_def case_prod_unfold
        apply_statement_locks(1))
next
  case AdoptedMode
  assume "batch_inv db_type b"
  then show ?thesis
    using AdoptedMode
    by (simp add: adopt_session_transaction_mode_override_def batch_inv_def residue_default_def
        residue_with_session_transaction_mode_override_adopted_def)
qed

section \<open>Locks and residue, statement by statement\<close>

fun event_locks :: "SessionLockState \<Rightarrow> batch_event \<Rightarrow> SessionLockState" where
  "event_locks l (Succeeded _ _ e) = lock_after_statement l e False"
| "event_locks l (Failed _ _ e) = lock_after_statement l e True"
| "event_locks l (Interrupted _ _ e) = lock_after_statement l e True"
| "event_locks l AdoptedMode = l"

fun event_residue ::
    "text_reader \<Rightarrow> DatabaseType \<Rightarrow> SessionResidueState \<Rightarrow> batch_event \<Rightarrow> SessionResidueState" where
  "event_residue rd db_type r (Succeeded sql ac e) =
     residue_after_statement r
       (mysql_statement_session_effects_for_execution_context rd db_type sql ac e) False"
| "event_residue rd db_type r (Failed sql ac e) = residue_after_statement r e True"
| "event_residue rd db_type r (Interrupted sql ac e) = residue_after_statement r e True"
| "event_residue rd db_type r AdoptedMode =
     residue_with_session_transaction_mode_override_adopted r"

lemma lock_projections [simp]:
  "may_hold_table_lock (new_with_session_locks t f k n) = t"
  "may_hold_flush_table_lock (new_with_session_locks t f k n) = f"
  "may_hold_backup_lock (new_with_session_locks t f k n) = k"
  "may_hold_named_lock (new_with_session_locks t f k n) = n"
  by (simp_all add: new_with_session_locks_def)

lemma reusable_lock_state:
  assumes "batch_inv db_type b"
  shows "lock_state_after_batch (reusable_batch b) prior = lock_state_after_batch b prior"
  using assms by (simp add: reusable_batch_def batch_inv_def batch_marks lock_state_after_batch_def)

lemma apply_statement_lock_state:
  assumes "batch_inv db_type b"
  shows "lock_state_after_batch (fst (apply_statement_effects rd sql ac e confirmed b)) prior =
    lock_after_statement (lock_state_after_batch b prior) e (\<not> confirmed)"
proof (cases "confirmed \<and> eff_releases_physical_session e")
  case True
  then show ?thesis
    by (simp add: apply_statement_released lock_state_after_batch_def batch_marks
        lock_after_statement_def table_after_batch_def flush_after_batch_def backup_after_batch_def
        named_after_batch_def)
next
  case False
  then show ?thesis
    unfolding reusable_lock_state [OF assms, symmetric]
    by (simp add: apply_statement_locks lock_state_after_batch_def lock_after_statement_def
        table_after_batch_def flush_after_batch_def backup_after_batch_def named_after_batch_def)
qed

lemma batch_step_locks:
  assumes "batch_inv db_type b"
  shows "lock_state_after_batch (batch_step rd b ev) prior =
    event_locks (lock_state_after_batch b prior) ev"
proof (cases ev)
  case (Succeeded sql ac e)
  then show ?thesis
    by (simp add: apply_successful_statement_effects_def apply_statement_lock_state [OF assms])
next
  case (Failed sql ac e)
  have deferred: "lock_state_after_batch (defer_batch_dirtiness_to_server_probe b') prior =
      lock_state_after_batch b' prior" for b'
    by (simp add: defer_batch_dirtiness_to_server_probe_def lock_state_after_batch_def)
  have ctx: "lock_after_statement l
      (mysql_statement_session_effects_for_execution_context rd d sql ac e) f =
      lock_after_statement l e f" for l d f
    by (simp add: lock_after_statement_def)
  show ?thesis
    using Failed
    by (simp add: apply_failed_statement_effects_def apply_statement_lock_state [OF assms] Let_def
        case_prod_unfold deferred ctx)
next
  case (Interrupted sql ac e)
  have flag: "lock_state_after_batch (b'\<lparr>batch_interrupted_requires_discard := True\<rparr>) prior =
      lock_state_after_batch b' prior" for b'
    by (simp add: lock_state_after_batch_def)
  show ?thesis
    using Interrupted
    by (simp add: apply_interrupted_statement_effects_def apply_statement_lock_state [OF assms]
        Let_def case_prod_unfold flag)
next
  case AdoptedMode
  then show ?thesis
    by (simp add: adopt_session_transaction_mode_override_def lock_state_after_batch_def)
qed

interpretation lock_runs: run_simulation "batch_step rd" "batch_inv db_type" event_locks
    "\<lambda>b l. lock_state_after_batch b prior = l" for rd db_type prior
  by unfold_locales (auto intro: batch_step_inv simp: batch_step_locks)

text \<open>
  C10. The locks a batch accumulates as deltas are exactly the locks of the statement-by-statement
  rules: for every reader of the texts, every sequence of statements (successful, failed or
  interrupted, releases of the physical session included) and every session the batch started from,
  the locks recorded after the batch are those obtained by applying the rule for one statement
  after another to the locks the session had.
\<close>

theorem batch_locks_refine_statement_locks:
  "lock_state (retained_state_after_successful_batch (run_batch rd db_type events) prior
     server_reports) =
   foldl event_locks (lock_state prior) events"
proof -
  have start: "lock_state_after_batch (for_db_type db_type) prior = lock_state prior"
    by (simp add: lock_state_after_batch_def for_db_type_def table_after_batch_def
        flush_after_batch_def backup_after_batch_def named_after_batch_def new_with_session_locks_def
        retained_may_hold_named_lock_def)
  have "lock_state_after_batch (run_batch rd db_type events) prior =
      foldl event_locks (lock_state prior) events"
    unfolding run_batch_def by (rule lock_runs.run_rel [OF for_db_type_inv start])
  then show ?thesis
    by (simp add: retained_state_after_successful_batch_def Let_def from_parts_def)
qed

lemma residue_after_successful_mono:
  assumes "residue_le r (residue_merged_with p s)"
  shows "residue_le (residue_after_successful_effects r e)
    (residue_merged_with (if clears_all_session_residue e then residue_default else p)
      (residue_after_successful_effects s e))"
proof (cases "clears_all_session_residue e")
  case True
  then show ?thesis
    by (simp add: residue_after_successful_effects_def residue.join_bot residue.le_refl)
next
  case False
  then show ?thesis
    using assms
    by (cases "clears_statement_diagnostics e"; cases "consumes_next_transaction_mode_override e";
        simp add: residue_le_fields residue_after_successful_effects_def residue_merged_with_def
          Let_def residue_from_effects_def; meson)
qed

lemma failed_residue_mono:
  assumes "residue_le r (residue_merged_with p s)"
  shows "residue_le (residue_merged_with (residue_with_statement_diagnostics_cleared r) x)
    (residue_merged_with p
      (residue_merged_with (residue_with_statement_diagnostics_cleared s) x))"
  using assms
  by (simp add: residue_le_fields residue_merged_with_def
      residue_with_statement_diagnostics_cleared_def) meson

text \<open>The part of the session's own residue that a batch still counts.\<close>

definition kept_residue ::
    "MySqlBatchSessionEffects \<Rightarrow> RetainedSessionState \<Rightarrow> SessionResidueState" where
  "kept_residue b prior =
     (if batch_residue_cleared b then residue_default else session_residue_state prior)"

lemma residue_after_batch_eq:
  "session_residue_state_after_batch b prior =
   residue_merged_with (kept_residue b prior) (batch_residue b)"
  by (simp add: session_residue_state_after_batch_def kept_residue_def residue.join_bot)

lemma reusable_residue:
  assumes "batch_inv db_type b"
  shows "batch_residue (reusable_batch b) = batch_residue b"
    and "batch_residue_cleared (reusable_batch b) = batch_residue_cleared b"
  using assms by (simp_all add: reusable_batch_def batch_inv_def batch_marks)

lemma apply_statement_residue_eq:
  assumes "batch_inv db_type b"
  shows "batch_residue (fst (apply_statement_effects rd sql ac e confirmed b)) =
    residue_after_statement (batch_residue b)
      (mysql_statement_session_effects_for_execution_context rd db_type sql ac e) (\<not> confirmed)"
proof -
  have db: "batch_db_type b = db_type" using assms by (simp add: batch_inv_def)
  show ?thesis
    by (cases "confirmed \<and> eff_releases_physical_session e")
      (auto simp: apply_statement_released apply_statement_residue reusable_residue [OF assms] db
        batch_marks residue_after_statement_def)
qed

lemma apply_statement_kept_residue:
  assumes "batch_inv db_type b"
  shows "kept_residue (fst (apply_statement_effects rd sql ac e confirmed b)) prior =
    (if confirmed \<and> (eff_releases_physical_session e \<or> clears_all_session_residue (session_residue e))
     then residue_default else kept_residue b prior)"
  by (cases "confirmed \<and> eff_releases_physical_session e")
    (auto simp: kept_residue_def apply_statement_released apply_statement_residue batch_marks
      reusable_residue [OF assms])

lemma residue_after_statement_mono:
  assumes "residue_le r (residue_merged_with p s)"
  shows "residue_le (residue_after_statement r e failed)
    (residue_merged_with
      (if \<not> failed \<and> (eff_releases_physical_session e \<or> clears_all_session_residue (session_residue e))
       then residue_default else p)
      (residue_after_statement s e failed))"
  using residue_after_successful_mono [OF assms, of "session_residue e"]
    failed_residue_mono [OF assms]
  by (auto simp: residue_after_statement_def residue.bot_least)

lemma apply_statement_residue_le:
  assumes "batch_inv db_type b" "residue_le r (session_residue_state_after_batch b prior)"
  shows "residue_le
    (residue_after_statement r
      (mysql_statement_session_effects_for_execution_context rd db_type sql ac e) (\<not> confirmed))
    (session_residue_state_after_batch
      (fst (apply_statement_effects rd sql ac e confirmed b)) prior)"
  using residue_after_statement_mono [OF assms(2) [unfolded residue_after_batch_eq], of
      "mysql_statement_session_effects_for_execution_context rd db_type sql ac e" "\<not> confirmed"]
  by (simp add: residue_after_batch_eq apply_statement_kept_residue [OF assms(1)]
      apply_statement_residue_eq [OF assms(1)])

lemma failed_residue_context [simp]:
  "residue_after_statement r
     (mysql_statement_session_effects_for_execution_context rd d sql ac e) True =
   residue_after_statement r e True"
  by (simp add: residue_after_statement_def)

lemma batch_step_residue:
  assumes "batch_inv db_type b"
  shows "batch_residue (batch_step rd b ev) = event_residue rd db_type (batch_residue b) ev"
  by (cases ev)
    (simp_all add: apply_successful_statement_effects_def apply_failed_statement_effects_def
      apply_interrupted_statement_effects_def adopt_session_transaction_mode_override_def Let_def
      case_prod_unfold apply_statement_residue_eq [OF assms]
      defer_batch_dirtiness_to_server_probe_def)

lemma batch_step_residue_le:
  assumes "batch_inv db_type b" "residue_le r (session_residue_state_after_batch b prior)"
  shows "residue_le (event_residue rd db_type r ev)
    (session_residue_state_after_batch (batch_step rd b ev) prior)"
proof (cases ev)
  case (Succeeded sql ac e)
  then show ?thesis
    using apply_statement_residue_le [OF assms, of rd sql ac e True]
    by (simp add: apply_successful_statement_effects_def)
next
  case (Failed sql ac e)
  have deferred: "session_residue_state_after_batch (defer_batch_dirtiness_to_server_probe b') prior =
      session_residue_state_after_batch b' prior" for b'
    by (simp add: defer_batch_dirtiness_to_server_probe_def session_residue_state_after_batch_def)
  have "batch_db_type b = db_type" using assms(1) by (simp add: batch_inv_def)
  with Failed show ?thesis
    using apply_statement_residue_le [OF assms, of rd sql ac
        "mysql_statement_session_effects_for_execution_context rd db_type sql ac e" False]
    by (simp add: apply_failed_statement_effects_def Let_def case_prod_unfold deferred)
next
  case (Interrupted sql ac e)
  have flag: "session_residue_state_after_batch
      (b'\<lparr>batch_interrupted_requires_discard := True\<rparr>) prior =
      session_residue_state_after_batch b' prior" for b'
    by (simp add: session_residue_state_after_batch_def)
  from Interrupted show ?thesis
    using apply_statement_residue_le [OF assms, of rd sql ac e False]
    by (simp add: apply_interrupted_statement_effects_def Let_def case_prod_unfold flag)
next
  case AdoptedMode
  then show ?thesis
    using assms(2)
    by (cases "batch_residue_cleared b")
      (simp_all add: adopt_session_transaction_mode_override_def residue_le_fields
        session_residue_state_after_batch_def residue_merged_with_def
        residue_with_session_transaction_mode_override_adopted_def)
qed

interpretation residue_runs: run_simulation "batch_step rd" "batch_inv db_type"
    "event_residue rd db_type" "\<lambda>b r. residue_le r (session_residue_state_after_batch b prior)"
    for rd db_type prior
  by unfold_locales (auto intro: batch_step_inv batch_step_residue_le)

interpretation fresh_residue_runs: run_simulation "batch_step rd" "batch_inv db_type"
    "event_residue rd db_type" "\<lambda>b r. batch_residue b = r" for rd db_type
  by unfold_locales (auto intro: batch_step_inv simp: batch_step_residue)

text \<open>
  C29. The residue a batch records never misses anything the statement-by-statement rules would
  have left on the session, for every sequence of statements and every starting session; and for a
  session that started without residue it is exactly what those rules leave.
\<close>

theorem batch_residue_covers_statement_residue:
  "if session_residue_state prior = residue_default
   then session_residue_state
          (retained_state_after_successful_batch (run_batch rd db_type events) prior server_reports) =
        foldl (event_residue rd db_type) residue_default events
   else residue_le
          (foldl (event_residue rd db_type) (session_residue_state prior) events)
          (session_residue_state
            (retained_state_after_successful_batch (run_batch rd db_type events) prior
              server_reports))"
proof -
  have part: "session_residue_state (retained_state_after_successful_batch b prior server_reports) =
      session_residue_state_after_batch b prior" for b
    by (simp add: retained_state_after_successful_batch_def Let_def from_parts_def)
  have fresh: "batch_residue (run_batch rd db_type events) =
      foldl (event_residue rd db_type) residue_default events"
    unfolding run_batch_def
    by (rule fresh_residue_runs.run_rel [OF for_db_type_inv]) (simp add: for_db_type_def)
  have "residue_le (foldl (event_residue rd db_type) (session_residue_state prior) events)
      (session_residue_state_after_batch (run_batch rd db_type events) prior)"
    unfolding run_batch_def
    by (rule residue_runs.run_rel [OF for_db_type_inv])
      (simp add: for_db_type_def residue_after_batch_eq kept_residue_def residue.upper1)
  then show ?thesis
    by (simp add: part residue_after_batch_eq kept_residue_def residue.join_bot fresh)
qed

section \<open>The transaction a batch started from\<close>

lemma run_batch_inv [simp]: "batch_inv db_type (run_batch rd db_type events)"
  unfolding run_batch_def by (rule lock_runs.run_inv) simp

lemma released_after_batch:
  assumes "batch_inv db_type b" "batch_released b" "transaction_state prior \<noteq> InvalidSession"
  shows "retained_state_after_successful_batch b prior server_reports = retained_default"
    and "retained_state_after_interrupted_batch b prior = None"
  using assms
  by (simp_all add: batch_inv_def retained_state_after_successful_batch_def Let_def
      prior_transaction_state_after_batch_def clears_prior_def may_have_uncommitted_work_after_batch_def
      prior_may_have_uncommitted_work_after_batch_def session_residue_state_after_batch_def
      server_transaction_probe_reports_uncommitted_work_after_batch_def clear_is_tentative_def
      lock_state_after_batch_def table_after_batch_def flush_after_batch_def backup_after_batch_def
      named_after_batch_def retained_state_after_interrupted_batch_def interrupted_transaction_state_def
      clears_prior_confirmed_def state_defs)

text \<open>
  A batch whose last statement released the physical session leaves nothing: whatever the
  session held before (unless it was already unusable) and whatever the server reports, the state
  recorded after the batch, successful or interrupted, is the empty one, and the session is closed.
\<close>

lemma released_batch_leaves_nothing:
  assumes "batch_released (run_batch rd db_type events)" "transaction_state prior \<noteq> InvalidSession"
  shows "outcome_after_successful_batch (run_batch rd db_type events) prior server_reports =
      DiscardPhysical retained_default \<and>
    decision_outcome (decision_after_interrupted_batch (run_batch rd db_type events) prior script) =
      DiscardPhysical retained_default"
  using assms released_after_batch [OF run_batch_inv assms]
  by (simp add: outcome_after_successful_batch_def decision_after_interrupted_batch_def)

definition dirty_session :: "TransactionSessionState \<Rightarrow> RetainedSessionState" where
  "dirty_session t = retained_default\<lparr>transaction_state := t\<rparr>"

definition ran :: "string \<Rightarrow> batch_event" where
  "ran sql = Succeeded sql False (mysql_effects_for_single_statement blank_reader MySQL sql)"

definition failed :: "string \<Rightarrow> batch_event" where
  "failed sql = Failed sql False (mysql_effects_for_single_statement blank_reader MySQL sql)"

lemma released_batch_leaves_nothing_witness:
  "outcome_after_successful_batch (run_batch blank_reader MySQL [ran ''COMMIT RELEASE''])
     (dirty_session DecisionRequired) True = DiscardPhysical retained_default"
proof -
  have "batch_released (run_batch blank_reader MySQL [ran ''COMMIT RELEASE''])" by code_simp
  moreover have "transaction_state (dirty_session DecisionRequired) \<noteq> InvalidSession"
    by (simp add: dirty_session_def)
  ultimately show ?thesis using released_batch_leaves_nothing by blast
qed

lemma prior_clear_kept [simp]:
  "batch_prior_effect b = PriorClear \<Longrightarrow> batch_prior_effect (reusable_batch b) = PriorClear"
  "batch_prior_effect b = PriorClear \<Longrightarrow>
   batch_prior_effect (apply_table_lock e c k b) = PriorClear"
  "batch_prior_effect b = PriorClear \<Longrightarrow>
   batch_prior_effect (apply_control_outcome t c b) = PriorClear"
  "batch_prior_effect b = PriorClear \<Longrightarrow>
   batch_prior_effect (apply_dirtiness e a c b) = PriorClear"
  by (simp_all add: reusable_batch_def batch_marks apply_table_lock_def apply_control_outcome_def
      apply_dirtiness_def Let_def with_dirty_work_after_conditional_clear_def)

lemma apply_statement_prior_clear:
  assumes "batch_prior_effect b = PriorClear"
  shows "batch_prior_effect (fst (apply_statement_effects rd sql ac e confirmed b)) = PriorClear"
proof (cases "confirmed \<and> eff_releases_physical_session e")
  case True
  then show ?thesis
    by (simp add: apply_statement_released mark_physical_session_released_def
        mark_transaction_clean_def)
next
  case False
  show ?thesis
    unfolding apply_statement_effects_def reusable_batch_def [symmetric] Let_def
    by (simp only: context_accessors if_not_P [OF False] fst_conv) (simp add: assms)
qed

lemma batch_step_prior_clear:
  "batch_prior_effect b = PriorClear \<Longrightarrow> batch_prior_effect (batch_step rd b ev) = PriorClear"
  by (cases ev)
    (simp_all add: apply_successful_statement_effects_def apply_failed_statement_effects_def
      apply_interrupted_statement_effects_def adopt_session_transaction_mode_override_def Let_def
      case_prod_unfold apply_statement_prior_clear defer_batch_dirtiness_to_server_probe_def
      tentatively_cleared_def)

interpretation clear_runs: run_invariant "batch_step rd"
    "\<lambda>b. batch_prior_effect b = PriorClear" for rd
  by unfold_locales (simp_all add: batch_step_prior_clear)

lemma clean_statement_clears_prior:
  assumes "mysql_transaction_control_outcome_for_db_type rd (batch_db_type b)
      (mysql_effective_statement_sql_for_db_type rd (batch_db_type b) sql) = OutcomeClean"
  shows "batch_prior_effect (batch_step rd b (Succeeded sql ac e)) = PriorClear"
proof (cases "eff_releases_physical_session e")
  case True
  then show ?thesis
    by (simp add: apply_successful_statement_effects_def apply_statement_released
        mark_physical_session_released_def mark_transaction_clean_def)
next
  case False
  have "batch_prior_effect (apply_control_outcome OutcomeClean True b') = PriorClear" for b'
    by (simp add: apply_control_outcome_def mark_transaction_clean_def)
  then show ?thesis
    using False assms
    by (simp add: apply_successful_statement_effects_def apply_statement_effects_def
        reusable_batch_def [symmetric] Let_def)
qed

text \<open>
  C30. Work a batch has really committed is never resurrected: once a statement of the batch that
  is read as a clean COMMIT or ROLLBACK has succeeded, nothing that follows in the batch (a parse
  error in a DDL statement included) lets the transaction the session had before the batch back
  into the recorded state, at a successful end or at an interruption.
\<close>

theorem committed_work_is_never_resurrected:
  assumes "mysql_transaction_control_outcome_for_db_type rd db_type
      (mysql_effective_statement_sql_for_db_type rd db_type sql) = OutcomeClean"
    and "transaction_state prior \<noteq> InvalidSession" "transaction_state other \<noteq> InvalidSession"
    and b: "b = run_batch rd db_type (before @ Succeeded sql ac e # after)"
  shows "transaction_state (retained_state_after_successful_batch b prior server_reports) =
      transaction_state (retained_state_after_successful_batch b other server_reports) \<and>
    interrupted_transaction_state b prior = interrupted_transaction_state b other"
proof -
  have "batch_db_type (run_batch rd db_type before) = db_type"
    using run_batch_inv [of db_type rd before] by (simp add: batch_inv_def)
  then have "batch_prior_effect
      (batch_step rd (run_batch rd db_type before) (Succeeded sql ac e)) = PriorClear"
    using assms(1) by (intro clean_statement_clears_prior) simp
  then have "batch_prior_effect b = PriorClear"
    using clear_runs.run_inv [of "batch_step rd (run_batch rd db_type before) (Succeeded sql ac e)"]
    by (simp add: b run_batch_def)
  then show ?thesis
    using assms(2,3)
    by (simp add: retained_state_after_successful_batch_def interrupted_transaction_state_def Let_def
        from_parts_def prior_transaction_state_after_batch_def clears_prior_def
        clears_prior_confirmed_def may_have_uncommitted_work_after_batch_def clear_is_tentative_def
        prior_may_have_uncommitted_work_after_batch_def
        server_transaction_probe_reports_uncommitted_work_after_batch_def)
qed

theorem committed_work_is_never_resurrected_witness:
  "transaction_state (retained_state_after_successful_batch
     (run_batch blank_reader MySQL [ran ''COMMIT'', failed ''DROP TABEL T''])
     (dirty_session DecisionRequired) True) = Clean"
proof -
  let ?b = "run_batch blank_reader MySQL [ran ''COMMIT'', failed ''DROP TABEL T'']"
  have "mysql_transaction_control_outcome_for_db_type blank_reader MySQL
      (mysql_effective_statement_sql_for_db_type blank_reader MySQL ''COMMIT'') = OutcomeClean"
    by code_simp
  from committed_work_is_never_resurrected [OF this, of "dirty_session DecisionRequired"
      retained_default ?b "[]" False "mysql_effects_for_single_statement blank_reader MySQL ''COMMIT''"
      "[failed ''DROP TABEL T'']" True]
  have "transaction_state (retained_state_after_successful_batch ?b
      (dirty_session DecisionRequired) True) =
    transaction_state (retained_state_after_successful_batch ?b retained_default True)"
    by (simp add: dirty_session_def ran_def retained_default_def)
  also have "\<dots> = Clean" by code_simp
  finally show ?thesis .
qed

section \<open>Failed statements and the prior transaction\<close>

definition reads_as_opener :: "text_reader \<Rightarrow> DatabaseType \<Rightarrow> string \<Rightarrow> bool" where
  "reads_as_opener rd db_type sql \<longleftrightarrow>
     mysql_transaction_control_outcome_for_db_type rd db_type
       (mysql_effective_statement_sql_for_db_type rd db_type sql) = StartsTransaction"

fun failed_without_opening :: "text_reader \<Rightarrow> DatabaseType \<Rightarrow> batch_event \<Rightarrow> bool" where
  "failed_without_opening rd db_type (Failed sql ac e) \<longleftrightarrow> \<not> reads_as_opener rd db_type sql"
| "failed_without_opening rd db_type _ \<longleftrightarrow> False"

definition unsettled :: "MySqlBatchSessionEffects \<Rightarrow> bool" where
  "unsettled b \<longleftrightarrow> batch_prior_effect b \<in> {PriorPreserve, ClearUnlessServerDisagrees}"

lemma failed_statement_prior_effect:
  assumes "\<not> batch_released b" "\<not> reads_as_opener rd (batch_db_type b) sql" "unsettled b"
  shows "batch_prior_effect (fst (apply_statement_effects rd sql ac e False b)) =
    batch_prior_effect b"
proof -
  have reuse: "reusable_batch b = b" using assms(1) by (simp add: reusable_batch_def)
  have table: "batch_prior_effect (apply_table_lock e' False k b') = batch_prior_effect b'"
    for e' k b' by (simp add: apply_table_lock_def)
  have control: "batch_prior_effect (apply_control_outcome t False b') = batch_prior_effect b'"
    if "t \<noteq> StartsTransaction" "unsettled b'" for t b'
    using that by (auto simp: apply_control_outcome_def mark_transaction_dirty_def unsettled_def
        with_dirty_work_after_conditional_clear_def)
  have dirt: "batch_prior_effect (apply_dirtiness e' a False b') = batch_prior_effect b'"
    if "unsettled b'" for e' a b'
    using that by (auto simp: apply_dirtiness_def mark_transaction_dirty_def unsettled_def
        with_dirty_work_after_conditional_clear_def)
  show ?thesis
    using assms(2,3) unfolding apply_statement_effects_def reusable_batch_def [symmetric] Let_def
    by (simp add: reads_as_opener_def reuse control dirt table unsettled_def)
qed

lemma failed_step_unsettled:
  assumes "failed_without_opening rd (batch_db_type b) ev" "\<not> batch_released b" "unsettled b"
  shows "unsettled (batch_step rd b ev)" "\<not> batch_released (batch_step rd b ev)"
    "batch_db_type (batch_step rd b ev) = batch_db_type b"
proof -
  from assms(1) obtain sql ac e where ev: "ev = Failed sql ac e"
    and no: "\<not> reads_as_opener rd (batch_db_type b) sql" by (cases ev) auto
  note same = failed_statement_prior_effect [OF assms(2) no assms(3)]
  show "unsettled (batch_step rd b ev)" "\<not> batch_released (batch_step rd b ev)"
    "batch_db_type (batch_step rd b ev) = batch_db_type b"
    using assms(3)
    by (auto simp: ev apply_failed_statement_effects_def Let_def case_prod_unfold unsettled_def same
        defer_batch_dirtiness_to_server_probe_def tentatively_cleared_def
        apply_statement_locks(1))
qed

lemma failed_run_unsettled:
  assumes "list_all (failed_without_opening rd (batch_db_type b)) events" "\<not> batch_released b"
    "unsettled b"
  shows "unsettled (foldl (batch_step rd) b events)"
  using assms
proof (induction events arbitrary: b)
  case (Cons ev events)
  then have "failed_without_opening rd (batch_db_type b) ev" by simp
  note step = failed_step_unsettled [OF this Cons.prems(2,3)]
  from Cons.prems(1) have "list_all (failed_without_opening rd (batch_db_type (batch_step rd b ev)))
      events"
    using step(3) by simp
  from Cons.IH [OF this step(2,1)] show ?case by simp
qed simp

definition claim_of :: "TransactionSessionState \<Rightarrow> TransactionSessionState" where
  "claim_of t = from_flags (tss_may_have_uncommitted_work t) (tss_requires_transaction_decision t)"

text \<open>
  A batch in which every statement failed, none of them reading as a statement that opens a
  transaction, takes nothing from the session: when the server reports an open transaction the
  recorded state claims at least the work and the decision the session claimed before, and when the
  batch was interrupted, so that no server is asked, it does so unconditionally.
\<close>

lemma failed_batch_keeps_prior_claims:
  assumes "list_all (failed_without_opening rd db_type) events"
    and "transaction_state prior \<noteq> InvalidSession"
    and b: "b = run_batch rd db_type events"
  shows "claim_of (transaction_state prior)
      \<le> transaction_state (retained_state_after_successful_batch b prior True) \<and>
    claim_of (transaction_state prior) \<le> interrupted_transaction_state b prior"
proof -
  have "unsettled b"
    using assms(1) unfolding b run_batch_def
    by (intro failed_run_unsettled) (simp_all add: for_db_type_def unsettled_def)
  then consider "batch_prior_effect b = PriorPreserve"
    | "batch_prior_effect b = ClearUnlessServerDisagrees"
    by (auto simp: unsettled_def)
  then show ?thesis
    using assms(2)
    by cases
      (cases "transaction_state prior";
       simp add: retained_state_after_successful_batch_def Let_def from_parts_def claim_of_def
        interrupted_transaction_state_def prior_transaction_state_after_batch_def clears_prior_def
        clears_prior_confirmed_def clear_is_tentative_def may_have_uncommitted_work_after_batch_def
        prior_may_have_uncommitted_work_after_batch_def tss_requires_transaction_decision_def
        server_transaction_probe_reports_uncommitted_work_after_batch_def
        retained_may_have_uncommitted_work_def)+
qed

lemma failed_batch_keeps_prior_claims_witness:
  "DecisionRequired \<le> transaction_state (retained_state_after_successful_batch
     (run_batch blank_reader MySQL [failed ''DROP TABEL T'']) (dirty_session DecisionRequired) True)"
proof -
  have "list_all (failed_without_opening blank_reader MySQL) [failed ''DROP TABEL T'']"
    by code_simp
  moreover have "transaction_state (dirty_session DecisionRequired) \<noteq> InvalidSession"
    by (simp add: dirty_session_def)
  moreover have "claim_of (transaction_state (dirty_session DecisionRequired)) = DecisionRequired"
    by code_simp
  ultimately show ?thesis
    using failed_batch_keeps_prior_claims [of blank_reader MySQL "[failed ''DROP TABEL T'']"
        "dirty_session DecisionRequired" "run_batch blank_reader MySQL [failed ''DROP TABEL T'']"]
    by simp
qed

text \<open>
  The opening statements are the exception the previous property has to name: a batch whose
  only statement is a failed one that reads as opening a transaction (such as an XA START the
  server refuses because a transaction is already open) drops the decision the session owed. It
  records mere dirtiness even when the server reports the transaction still open.
\<close>

theorem failed_opener_drops_a_decision:
  assumes "reads_as_opener rd db_type sql" "\<not> eff_has_implicit_commit e"
    and "transaction_state prior = DecisionRequired"
  shows "transaction_state (retained_state_after_successful_batch
    (run_batch rd db_type [Failed sql ac e]) prior True) = MaybeDirty"
proof -
  let ?c = "mysql_statement_session_effects_for_execution_context rd db_type sql ac"
  let ?b = "fst (apply_statement_effects rd sql ac (?c e) False (for_db_type db_type))"
  have reuse: "reusable_batch (for_db_type db_type) = for_db_type db_type"
    "batch_db_type (for_db_type db_type) = db_type"
    by (simp_all add: reusable_batch_def for_db_type_def)
  have table: "apply_table_lock e' False k b' =
      (if eff_acquires_table_lock e' then b'\<lparr>batch_table_lock := TableMayHold\<rparr> else b')" for e' k b'
    by (simp add: apply_table_lock_def)
  have "batch_prior_effect ?b = PriorClear" "batch_may_have_uncommitted_work ?b"
    "\<not> batch_requires_decision ?b"
    using assms(1)
    unfolding apply_statement_effects_def reusable_batch_def [symmetric] reuse Let_def
      reads_as_opener_def
    by (simp_all add: table apply_control_outcome_def apply_dirtiness_def mark_transaction_dirty_def
        mark_prior_transaction_clean_def with_dirty_work_after_conditional_clear_def for_db_type_def)
  moreover have "run_batch rd db_type [Failed sql ac e] = ?b"
    using assms(2)
    by (simp add: run_batch_def apply_failed_statement_effects_def Let_def case_prod_unfold reuse)
  ultimately show ?thesis
    using assms(3)
    by (simp add: retained_state_after_successful_batch_def Let_def from_parts_def
        prior_transaction_state_after_batch_def clears_prior_def clear_is_tentative_def
        may_have_uncommitted_work_after_batch_def prior_may_have_uncommitted_work_after_batch_def
        tss_requires_transaction_decision_def)
qed

theorem failed_opener_drops_a_decision_witness:
  "transaction_state (retained_state_after_successful_batch
     (run_batch blank_reader MySQL [failed ''XA START T1'']) (dirty_session DecisionRequired) True) =
   MaybeDirty"
proof -
  have "reads_as_opener blank_reader MySQL ''XA START T1''"
    "\<not> eff_has_implicit_commit (mysql_effects_for_single_statement blank_reader MySQL ''XA START T1'')"
    by code_simp+
  from failed_opener_drops_a_decision [OF this, of "dirty_session DecisionRequired" False]
  show ?thesis by (simp add: failed_def dirty_session_def)
qed

section \<open>Interrupted batches\<close>

text \<open>
  An interrupted batch never closes a session over work the user could still commit or roll
  back: unless a statement of the batch released the session, or the batch has confirmed that the
  prior transaction ended, a session that had uncommitted work is retained, still claims that work
  and still offers its resolution, whatever else the batch did and in script mode too.
\<close>

lemma interrupted_batch_keeps_resolvable_work:
  assumes "\<not> batch_released b"
    and "transaction_state prior \<in> {MaybeDirty, BlockedDirty, DecisionRequired}"
    and "\<not> clears_prior_confirmed (batch_prior_effect b) prior"
  shows "\<exists>s. decision_outcome (decision_after_interrupted_batch b prior script_mode) = Retain s \<and>
    retained_may_have_uncommitted_work s \<and> transaction_resolution_action_allowed s"
proof -
  let ?t = "interrupted_transaction_state b prior"
  let ?s = "from_parts ?t (session_residue_state_after_batch b prior) (lock_state_after_batch b prior)"
  have t: "?t \<in> {MaybeDirty, BlockedDirty, DecisionRequired}"
    using assms(2,3)
    by (auto simp: interrupted_transaction_state_def Let_def prior_transaction_state_after_batch_def
        retained_may_have_uncommitted_work_def)
  have "retained_may_have_uncommitted_work ?s" "transaction_resolution_action_allowed ?s"
    "requires_physical_session_preservation ?s"
    using t by (auto simp: from_parts_def state_defs)
  moreover have "retained_may_have_uncommitted_work (retained_with_untracked_session_state s) =
      retained_may_have_uncommitted_work s"
    "transaction_resolution_action_allowed (retained_with_untracked_session_state s) =
      transaction_resolution_action_allowed s" for s
    by (simp_all add: state_defs)
  ultimately show ?thesis
    using assms(1)
    by (simp add: decision_after_interrupted_batch_def retained_state_after_interrupted_batch_def)
qed

lemma interrupted_batch_keeps_resolvable_work_witness:
  "\<exists>s. decision_outcome (decision_after_interrupted_batch
      (run_batch blank_reader MySQL [failed ''DROP TABEL T'']) (dirty_session DecisionRequired) True) =
      Retain s \<and> retained_may_have_uncommitted_work s \<and> transaction_resolution_action_allowed s"
  by (rule interrupted_batch_keeps_resolvable_work) code_simp+

end
