(* ===== verification/Session_Policy.thy ===== *)
theory Session_Policy
  imports Batch_Effects
begin

text \<open>
  The session policy of \<^verbatim>\<open>src/db/session_policy.rs\<close>: which user actions may proceed on a retained
  session (the preflight decisions), what becomes of a physical session after a cancel, a timeout
  or a connection error (\<^verbatim>\<open>decide_session_after_interrupt\<close>), the same question for a pooled MySQL
  session, and how a decision is applied. The trait \<^verbatim>\<open>SessionDecisionApplier\<close> is the record
  \<open>applier\<close> of its seven hooks over a state; the Oracle cleanup's implementation of it
  (\<^verbatim>\<open>src/ui/sql_editor/execution.rs\<close>) hands the session back through a log of
  hand-back events. The lemmas show when a session may be reused, that a session the user still
  needs is not replaced, and that a decision hands a session back at most once.
\<close>

section \<open>States and decisions\<close>

datatype ExecutionState =
  ExecIdle | RunningStatement | RunningScript | LazyFetchOnly | ExecCancelRequested | ClosingCursor
  | ExecFinished | ExecUnknown

datatype LazyFetchState =
  LazyNone | LazyWaiting | LazyFetching | LazyCloseRequested | LazyCancelRequested | LazyClosed
  | LazyUnknown

datatype SessionDecision =
  IgnoreStaleEvent | ReuseSamePhysicalSession | ReplacePhysicalSessionKeepUiConnected
  | RequireCommitOrRollback | RequirePhysicalSessionResolution | MarkDirtyAndBlockNextExecution

datatype MySqlPooledSessionReuseDecision = RetainIfSessionInfoSynced | DropPhysicalSession

record MySqlPooledActionDecisionContext =
  pooled_requires_transaction_decision :: bool
  action_released_physical_session :: bool
  pooled_was_cancelled :: bool
  pooled_recoverable_timeout :: bool
  pooled_lock_wait_timeout :: bool
  action_result_allows_reuse :: bool
  pooled_state_hint :: TransactionStatementStateHint

datatype RetainedSessionPreflightAction =
  Execute | TransactionOptionChange | ScopeChange | ConnectionTransition | PoolResize | Close
  | ReleaseClean | Discard

datatype RetainedSessionPreflightDecision = Allow | RequireResolution

section \<open>Preflight\<close>

definition retained_session_state_preflight_decision ::
    "RetainedSessionPreflightAction \<Rightarrow> RetainedSessionState \<Rightarrow> RetainedSessionPreflightDecision" where
  "retained_session_state_preflight_decision action state =
     (case action of
        Execute \<Rightarrow> (if retained_blocks_execution state then RequireResolution else Allow)
      | TransactionOptionChange \<Rightarrow>
          (if retained_allows_transaction_option_change state then Allow else RequireResolution)
      | ScopeChange \<Rightarrow> Allow
      | ConnectionTransition \<Rightarrow>
          (if requires_physical_session_preservation state then RequireResolution else Allow)
      | PoolResize \<Rightarrow>
          (if requires_physical_session_preservation state then RequireResolution else Allow)
      | ReleaseClean \<Rightarrow>
          (if requires_physical_session_preservation state then RequireResolution else Allow)
      | Close \<Rightarrow>
          (if transaction_resolution_action_allowed state then RequireResolution else Allow)
      | Discard \<Rightarrow> Allow)"

definition retained_session_preflight_decision ::
    "RetainedSessionPreflightAction \<Rightarrow> TransactionSessionState \<Rightarrow>
     RetainedSessionPreflightDecision" where
  "retained_session_preflight_decision action state =
     retained_session_state_preflight_decision action (from_transaction_state state)"

text \<open>What each backend answers; MariaDB has MySQL's.\<close>

definition oracle_can_replace_retained_transaction_mode :: "RetainedSessionState \<Rightarrow> bool" where
  "oracle_can_replace_retained_transaction_mode state = False"

definition mysql_can_replace_retained_transaction_mode :: "RetainedSessionState \<Rightarrow> bool" where
  "mysql_can_replace_retained_transaction_mode state = allows_transaction_mode_replacement state"

definition backend_can_replace_retained_transaction_mode ::
    "DatabaseType \<Rightarrow> RetainedSessionState \<Rightarrow> bool" where
  "backend_can_replace_retained_transaction_mode db_type state =
     (case db_type of
        Oracle \<Rightarrow> oracle_can_replace_retained_transaction_mode state
      | MySQL \<Rightarrow> mysql_can_replace_retained_transaction_mode state
      | MariaDB \<Rightarrow> mysql_can_replace_retained_transaction_mode state)"

definition retained_session_state_transaction_mode_change_preflight_decision ::
    "DatabaseType \<Rightarrow> RetainedSessionState \<Rightarrow> RetainedSessionPreflightDecision" where
  "retained_session_state_transaction_mode_change_preflight_decision db_type state =
     (if backend_can_replace_retained_transaction_mode db_type state then Allow
      else retained_session_state_preflight_decision TransactionOptionChange state)"

text \<open>The gate the editor asks, with the message it refuses with.\<close>

definition connection_ensure_option_change_allowed ::
    "RetainedSessionState \<Rightarrow> string \<Rightarrow> string + unit" where
  "connection_ensure_option_change_allowed state action =
     (if retained_session_state_preflight_decision TransactionOptionChange state = Allow then Inr ()
      else Inl (''Cannot change '' @ action @ '' while the current DB session is '' @
                retained_label state @ ''. '' @ blocked_option_change_remedy state))"

definition ensure_retained_session_option_change_allowed ::
    "DatabaseType \<Rightarrow> RetainedSessionState \<Rightarrow> TransactionOptionKind \<Rightarrow> string + unit" where
  "ensure_retained_session_option_change_allowed db_type state opt =
     (if opt = TransactionModeOption \<and> backend_can_replace_retained_transaction_mode db_type state
      then Inr ()
      else connection_ensure_option_change_allowed state (option_kind_label opt))"

subsection \<open>Statements that clean up after themselves\<close>

text \<open>
  \<^verbatim>\<open>statement_can_cleanup_retained_session_for_preflight\<close> of \<^verbatim>\<open>src/db/transaction.rs\<close>. It reads the effects
  of the whole unit, so it takes the splitter as well.
\<close>

definition unit_effects ::
    "text_reader \<Rightarrow> 'tool splitter \<Rightarrow> DatabaseType \<Rightarrow> string \<Rightarrow> StatementSessionEffects" where
  "unit_effects rd split db_type sql =
     effects_for_sql split (effects_for_single_statement rd db_type) db_type sql"

definition mysql_statement_is_named_lock_release_cleanup_only ::
    "text_reader \<Rightarrow> string \<Rightarrow> string list \<Rightarrow> bool" where
  "mysql_statement_is_named_lock_release_cleanup_only rd sql words \<longleftrightarrow>
     (if leads words ''DO'' then
        mysql_do_statement_is_known_lock_function_only rd sql words \<and>
        \<not> mysql_statement_acquires_named_lock rd sql words
      else if leads words ''SELECT'' then rd_select_is_release rd sql
      else False)"

definition mysql_statement_is_lock_cleanup_only_for_preflight ::
    "text_reader \<Rightarrow> string \<Rightarrow> string list \<Rightarrow> SessionLockState \<Rightarrow>
     StatementSessionEffects \<Rightarrow> bool" where
  "mysql_statement_is_lock_cleanup_only_for_preflight rd sql words locks effects
     \<longleftrightarrow>
     (if mysql_reset_connection_statement words then True
      else if may_hold_table_lock locks \<and> eff_releases_table_lock effects then
        starts_with_words words [''UNLOCK'', ''TABLES''] \<or>
        starts_with_words words [''UNLOCK'', ''TABLE''] \<or>
        starts_with_words words [''START'', ''TRANSACTION''] \<or>
        leads words ''BEGIN'' \<and> \<not> mysql_statement_is_begin_not_atomic_for_words words
      else if may_hold_flush_table_lock locks \<and> eff_releases_flush_table_lock effects then
        starts_with_words words [''UNLOCK'', ''TABLES''] \<or>
        starts_with_words words [''UNLOCK'', ''TABLE'']
      else if may_hold_backup_lock locks \<and> eff_releases_backup_lock effects then
        starts_with_words words [''UNLOCK'', ''INSTANCE'']
      else if may_hold_named_lock locks \<and>
          (eff_releases_named_lock effects \<or> eff_releases_all_named_locks effects) then
        mysql_statement_is_named_lock_release_cleanup_only rd sql words
      else False)"

definition mysql_statement_can_cleanup_retained_session_for_preflight ::
    "text_reader \<Rightarrow> 'tool splitter \<Rightarrow> DatabaseType \<Rightarrow> string \<Rightarrow>
     RetainedSessionState \<Rightarrow> bool" where
  "mysql_statement_can_cleanup_retained_session_for_preflight
       rd split db_type sql state \<longleftrightarrow>
     (if tss_blocks_execution (transaction_state state) then False
      else
        (let effective_sql = mysql_effective_statement_sql_for_db_type rd db_type sql;
             words = rd_words rd db_type effective_sql;
             effects = unit_effects rd split db_type sql;
             locks = lock_state state
         in if rd_kind rd db_type effective_sql = Script then False
            else if mysql_reset_connection_statement words then
              \<not> retained_may_have_uncommitted_work state \<and>
              (has_session_residue_or_lock state \<or> retained_may_have_transaction_mode_override state)
            else if retained_may_have_transaction_mode_override state \<and>
                eff_releases_physical_session effects \<and>
                \<not> retained_may_have_uncommitted_work state then True
            else if (may_hold_table_lock locks \<and> eff_releases_table_lock effects \<or>
                 may_hold_flush_table_lock locks \<and> eff_releases_flush_table_lock effects \<or>
                 may_hold_backup_lock locks \<and> eff_releases_backup_lock effects \<or>
                 may_hold_named_lock locks \<and>
                   (eff_releases_named_lock effects \<or> eff_releases_all_named_locks effects)) \<and>
                mysql_statement_is_lock_cleanup_only_for_preflight
                  rd effective_sql words locks effects then True
            else
              \<not> retained_may_have_uncommitted_work state \<and>
              (retained_may_have_unknown_session_state state \<or>
               retained_may_have_transaction_mode_override state) \<and>
              clears_all_session_residue (session_residue effects)))"

definition statement_can_cleanup_retained_session_for_preflight ::
    "text_reader \<Rightarrow> 'tool splitter \<Rightarrow> DatabaseType \<Rightarrow> string \<Rightarrow>
     RetainedSessionState \<Rightarrow> bool" where
  "statement_can_cleanup_retained_session_for_preflight rd split db_type sql state
     \<longleftrightarrow>
     (if db_type = MySQL \<or> db_type = MariaDB then
        mysql_statement_can_cleanup_retained_session_for_preflight
          rd split db_type sql state
      else if retained_may_have_uncommitted_work state \<or>
          tss_blocks_execution (transaction_state state) then False
      else if rd_kind rd db_type sql = Script then False
      else
        (retained_may_have_unknown_session_state state \<or>
         retained_may_have_transaction_mode_override state) \<and>
        clears_all_session_residue (session_residue (unit_effects rd split db_type sql)))"

definition retained_session_execute_can_consume_pending_transaction_mode ::
    "text_reader \<Rightarrow> DatabaseType \<Rightarrow> string \<Rightarrow> RetainedSessionState \<Rightarrow> bool" where
  "retained_session_execute_can_consume_pending_transaction_mode rd db_type sql state =
     (case db_type of
        MySQL \<Rightarrow> retained_has_only_next_transaction_mode_override state \<and>
          mysql_statement_consumes_pending_transaction_mode_override_for_preflight rd MySQL sql
      | MariaDB \<Rightarrow> retained_has_only_next_transaction_mode_override state \<and>
          mysql_statement_consumes_pending_transaction_mode_override_for_preflight rd MariaDB sql
      | Oracle \<Rightarrow> False)"

definition retained_session_state_execute_preflight_decision_for_sql ::
    "text_reader \<Rightarrow> 'tool splitter \<Rightarrow> DatabaseType \<Rightarrow> string \<Rightarrow>
     RetainedSessionState \<Rightarrow> RetainedSessionPreflightDecision" where
  "retained_session_state_execute_preflight_decision_for_sql
       rd split db_type sql state =
     (if retained_blocks_execution state \<and>
         \<not> retained_session_execute_can_consume_pending_transaction_mode rd db_type sql state \<and>
         \<not> statement_can_cleanup_retained_session_for_preflight
             rd split db_type sql state
      then RequireResolution else Allow)"

section \<open>After an interrupt\<close>

record InterruptDecisionContext =
  operation_matches :: bool
  connection_generation_matches :: bool
  execution_state :: ExecutionState
  worker_done :: bool
  has_connection_error :: bool
  sql_kind :: SqlKind
  prior_retained_state :: RetainedSessionState
  lazy_state :: LazyFetchState
  lazy_close_requested :: bool
  lazy_cancel_requested :: bool
  cursor_closed :: bool
  fetch_worker_done :: bool
  timed_out :: bool
  ctx_recoverable_timeout :: bool
  cancelled :: bool
  timeout_settings_restored :: bool
  health_check_ok :: bool
  autocommit :: bool
  ctx_state_hint :: TransactionStatementStateHint

definition retained_state_interrupt_resolution ::
    "RetainedSessionState \<Rightarrow> SessionDecision option" where
  "retained_state_interrupt_resolution state =
     (if \<not> requires_physical_session_preservation state then None
      else Some (if transaction_resolution_action_allowed state then RequireCommitOrRollback
                 else RequirePhysicalSessionResolution))"

definition decide_dml_or_script :: "InterruptDecisionContext \<Rightarrow> SessionDecision" where
  "decide_dml_or_script ctx =
     (case retained_state_interrupt_resolution (prior_retained_state ctx) of
        Some decision \<Rightarrow> decision
      | None \<Rightarrow>
          (let hint = ctx_state_hint ctx
           in if sql_kind ctx = PlsqlOrProcedure \<and> hint_may_hold_session_lock hint \<and>
                 \<not> may_leave_untracked_session_state hint \<and>
                 \<not> requires_transaction_decision_after_success hint \<and> \<not> changes_auto_commit hint
              then ReplacePhysicalSessionKeepUiConnected
              else if \<not> autocommit ctx then RequireCommitOrRollback
              else ReplacePhysicalSessionKeepUiConnected))"

definition decide_transaction_control :: "InterruptDecisionContext \<Rightarrow> SessionDecision" where
  "decide_transaction_control ctx =
     (case retained_state_interrupt_resolution (prior_retained_state ctx) of
        Some decision \<Rightarrow> decision
      | None \<Rightarrow>
          (let hint = ctx_state_hint ctx
           in if \<not> autocommit ctx then RequireCommitOrRollback
              else if clears_session_state hint \<and> \<not> may_leave_session_bound_state hint \<and>
                 \<not> may_leave_untracked_session_state hint \<and> \<not> hint_may_hold_session_lock hint \<and>
                 \<not> requires_retention_when_autocommit_off hint \<and>
                 \<not> requires_transaction_decision_after_success hint \<and> \<not> changes_auto_commit hint
              then ReplacePhysicalSessionKeepUiConnected
              else MarkDirtyAndBlockNextExecution))"

definition decide_not_select_like :: "InterruptDecisionContext \<Rightarrow> SessionDecision" where
  "decide_not_select_like ctx =
     (case retained_state_interrupt_resolution (prior_retained_state ctx) of
        Some decision \<Rightarrow> decision
      | None \<Rightarrow>
          (let hint = ctx_state_hint ctx
           in if sql_kind ctx = UnknownKind \<and>
                 (hint_may_hold_session_lock hint \<or>
                  may_leave_session_bound_state hint \<and>
                  \<not> requires_retention_when_autocommit_off hint \<and>
                  \<not> requires_transaction_decision_after_success hint)
              then ReplacePhysicalSessionKeepUiConnected
              else if sql_kind ctx = UnknownKind \<and> \<not> autocommit ctx then RequireCommitOrRollback
              else ReplacePhysicalSessionKeepUiConnected))"

definition decide_unsafe_read :: "InterruptDecisionContext \<Rightarrow> SessionDecision" where
  "decide_unsafe_read ctx =
     (case retained_state_interrupt_resolution (prior_retained_state ctx) of
        Some decision \<Rightarrow> decision
      | None \<Rightarrow>
          (let hint = ctx_state_hint ctx
           in if hint_may_hold_session_lock hint then ReplacePhysicalSessionKeepUiConnected
              else if \<not> autocommit ctx \<and> requires_retention_when_autocommit_off hint
              then RequireCommitOrRollback
              else ReplacePhysicalSessionKeepUiConnected))"

definition lazy_fetch_settled :: "InterruptDecisionContext \<Rightarrow> bool" where
  "lazy_fetch_settled ctx =
     (case lazy_state ctx of
        LazyNone \<Rightarrow> True
      | LazyClosed \<Rightarrow> cursor_closed ctx \<and> fetch_worker_done ctx
      | LazyWaiting \<Rightarrow> lazy_close_requested ctx \<and> cursor_closed ctx
      | LazyFetching \<Rightarrow>
          lazy_cancel_requested ctx \<and> fetch_worker_done ctx \<and> cursor_closed ctx
      | LazyCloseRequested \<Rightarrow> False
      | LazyCancelRequested \<Rightarrow> False
      | LazyUnknown \<Rightarrow> False)"

definition decide_reusable_read :: "InterruptDecisionContext \<Rightarrow> SessionDecision" where
  "decide_reusable_read ctx =
     (if \<not> lazy_fetch_settled ctx then ReplacePhysicalSessionKeepUiConnected
      else if timed_out ctx \<and> \<not> ctx_recoverable_timeout ctx
      then ReplacePhysicalSessionKeepUiConnected
      else if \<not> (cancelled ctx \<or> timed_out ctx \<and> ctx_recoverable_timeout ctx)
      then ReplacePhysicalSessionKeepUiConnected
      else if \<not> timeout_settings_restored ctx then ReplacePhysicalSessionKeepUiConnected
      else if health_check_ok ctx then ReuseSamePhysicalSession
      else ReplacePhysicalSessionKeepUiConnected)"

definition decide_session_after_interrupt :: "InterruptDecisionContext \<Rightarrow> SessionDecision" where
  "decide_session_after_interrupt ctx =
     (if \<not> operation_matches ctx \<or> \<not> connection_generation_matches ctx then IgnoreStaleEvent
      else if execution_state ctx = ExecUnknown \<or> \<not> worker_done ctx
      then ReplacePhysicalSessionKeepUiConnected
      else if has_connection_error ctx then ReplacePhysicalSessionKeepUiConnected
      else if transaction_state (prior_retained_state ctx) = InvalidSession
      then RequirePhysicalSessionResolution
      else if sql_kind ctx = Ddl \<or> sql_kind ctx = SessionControl then
        (case retained_state_interrupt_resolution (prior_retained_state ctx) of
           Some decision \<Rightarrow> decision
         | None \<Rightarrow> ReplacePhysicalSessionKeepUiConnected)
      else if sql_kind ctx = Script \<and> \<not> statement_cancel_can_reuse_session (ctx_state_hint ctx) then
        (if \<not> autocommit ctx \<or> retained_may_have_uncommitted_work (prior_retained_state ctx) \<or>
            requires_retention_when_autocommit_off (ctx_state_hint ctx) then RequireCommitOrRollback
         else if requires_physical_session_preservation (prior_retained_state ctx)
         then RequirePhysicalSessionResolution
         else ReplacePhysicalSessionKeepUiConnected)
      else if is_dml_or_ddl_or_plsql_or_script (sql_kind ctx) then decide_dml_or_script ctx
      else if sql_kind ctx = TransactionControl then decide_transaction_control ctx
      else if \<not> is_select_like (sql_kind ctx) then decide_not_select_like ctx
      else if \<not> statement_cancel_can_reuse_session (ctx_state_hint ctx) then decide_unsafe_read ctx
      else decide_reusable_read ctx)"

definition decide_mysql_pooled_session_after_action ::
    "MySqlPooledActionDecisionContext \<Rightarrow> MySqlPooledSessionReuseDecision" where
  "decide_mysql_pooled_session_after_action ctx =
     (if action_released_physical_session ctx then DropPhysicalSession
      else if \<not> action_result_allows_reuse ctx \<and> \<not> pooled_was_cancelled ctx \<and>
          \<not> pooled_recoverable_timeout ctx \<and> \<not> pooled_lock_wait_timeout ctx
      then DropPhysicalSession
      else if pooled_requires_transaction_decision ctx then RetainIfSessionInfoSynced
      else if pooled_was_cancelled ctx \<or> pooled_recoverable_timeout ctx then
        (if statement_cancel_can_reuse_session (pooled_state_hint ctx)
         then RetainIfSessionInfoSynced else DropPhysicalSession)
      else if pooled_lock_wait_timeout ctx then DropPhysicalSession
      else if action_result_allows_reuse ctx then RetainIfSessionInfoSynced
      else DropPhysicalSession)"

section \<open>Applying a decision\<close>

record 's applier =
  discard_physical_session :: "'s \<Rightarrow> 's"
  mark_connected :: "'s \<Rightarrow> 's"
  mark_replace_pending :: "'s \<Rightarrow> 's"
  clear_replace_pending :: "'s \<Rightarrow> 's"
  mark_transaction_decision_required :: "'s \<Rightarrow> 's"
  mark_physical_session_resolution_required :: "'s \<Rightarrow> 's"
  mark_dirty_and_block_next_execution :: "'s \<Rightarrow> 's"

definition apply_session_decision :: "SessionDecision \<Rightarrow> 's applier \<Rightarrow> 's \<Rightarrow> 's" where
  "apply_session_decision decision ap s =
     (case decision of
        IgnoreStaleEvent \<Rightarrow> s
      | ReuseSamePhysicalSession \<Rightarrow> clear_replace_pending ap (mark_connected ap s)
      | ReplacePhysicalSessionKeepUiConnected \<Rightarrow>
          mark_replace_pending ap (mark_connected ap (discard_physical_session ap s))
      | RequireCommitOrRollback \<Rightarrow> mark_transaction_decision_required ap (mark_connected ap s)
      | RequirePhysicalSessionResolution \<Rightarrow>
          mark_physical_session_resolution_required ap (mark_connected ap s)
      | MarkDirtyAndBlockNextExecution \<Rightarrow>
          mark_dirty_and_block_next_execution ap (mark_connected ap s))"

text \<open>
  The Oracle cleanup's applier. A hand-back is an event of its log: the session is filed for the tab
  with a state, or released (closed) naming the state the close destroys.
\<close>

datatype hand_back_event = Filed RetainedSessionState | Released RetainedSessionState

record OracleCleanupSessionDecisionApplier =
  oracle_prior_retained_state :: RetainedSessionState
  session_state_delta :: RetainedSessionState
  session_state_delta_recorded :: bool
  reuse_state :: TransactionSessionState
  force_discard_after_transaction_resolution :: bool
  hand_back_log :: "hand_back_event list"

definition retained_state_after_cleanup_update ::
    "RetainedSessionState \<Rightarrow> TransactionSessionState \<Rightarrow> RetainedSessionState \<Rightarrow> bool \<Rightarrow>
     RetainedSessionState" where
  "retained_state_after_cleanup_update prior t delta delta_recorded =
     (let t = (if transaction_state prior = InvalidSession \<or>
                  delta_recorded \<and> transaction_state delta = InvalidSession
               then InvalidSession else t)
      in if delta_recorded then with_transaction_state delta t
         else with_transaction_state prior t)"

definition retained_state_for_transaction_state ::
    "OracleCleanupSessionDecisionApplier \<Rightarrow> TransactionSessionState \<Rightarrow> RetainedSessionState" where
  "retained_state_for_transaction_state a t =
     (let s = retained_state_after_cleanup_update (oracle_prior_retained_state a) t
                (session_state_delta a) (session_state_delta_recorded a)
      in if force_discard_after_transaction_resolution a
         then retained_with_untracked_session_state s else s)"

definition retained_state_a_discard_destroys ::
    "OracleCleanupSessionDecisionApplier \<Rightarrow> RetainedSessionState" where
  "retained_state_a_discard_destroys a =
     (let carrying = (if session_state_delta_recorded a then session_state_delta a
                      else oracle_prior_retained_state a)
      in retained_state_for_transaction_state a (transaction_state carrying))"

definition store_retained_state ::
    "RetainedSessionState \<Rightarrow> OracleCleanupSessionDecisionApplier \<Rightarrow>
     OracleCleanupSessionDecisionApplier" where
  "store_retained_state s a = a\<lparr>hand_back_log := hand_back_log a @ [Filed s]\<rparr>"

definition store_state ::
    "TransactionSessionState \<Rightarrow> OracleCleanupSessionDecisionApplier \<Rightarrow>
     OracleCleanupSessionDecisionApplier" where
  "store_state t a = store_retained_state (retained_state_for_transaction_state a t) a"

definition oracle_cleanup_applier :: "OracleCleanupSessionDecisionApplier applier" where
  "oracle_cleanup_applier =
     \<lparr>discard_physical_session =
        (\<lambda>a. a\<lparr>hand_back_log := hand_back_log a @ [Released (retained_state_a_discard_destroys a)]\<rparr>),
      mark_connected = (\<lambda>a. a),
      mark_replace_pending = (\<lambda>a. a),
      clear_replace_pending = (\<lambda>a. store_state (reuse_state a) a),
      mark_transaction_decision_required = (\<lambda>a. store_state DecisionRequired a),
      mark_physical_session_resolution_required =
        (\<lambda>a. let s = retained_state_for_transaction_state a (reuse_state a)
             in store_retained_state
                  (if retained_blocks_execution s then s
                   else retained_with_untracked_session_state s) a),
      mark_dirty_and_block_next_execution = (\<lambda>a. store_state BlockedDirty a)\<rparr>"

section \<open>When a session may be reused, and when it may not be replaced\<close>

text \<open>
  After an interrupt a physical session is handed on exactly when everything about it is
  settled: the event is the current operation's, its worker has finished, the connection is sound,
  the session was usable, the statement was a read whose cancellation leaves nothing, its cursor and
  fetch worker are confirmed finished, it ended by a cancel or a recoverable timeout, the timeout
  settings are back, and the session answered its health check.
\<close>

lemma reuse_exactly_when_settled:
  "decide_session_after_interrupt ctx = ReuseSamePhysicalSession \<longleftrightarrow>
     operation_matches ctx \<and> connection_generation_matches ctx \<and>
     execution_state ctx \<noteq> ExecUnknown \<and> worker_done ctx \<and> \<not> has_connection_error ctx \<and>
     transaction_state (prior_retained_state ctx) \<noteq> InvalidSession \<and>
     sql_kind ctx = SelectLike \<and> statement_cancel_can_reuse_session (ctx_state_hint ctx) \<and>
     lazy_fetch_settled ctx \<and>
     (if timed_out ctx then ctx_recoverable_timeout ctx else cancelled ctx) \<and>
     timeout_settings_restored ctx \<and> health_check_ok ctx"
  by (simp add: decide_session_after_interrupt_def decide_dml_or_script_def
      decide_transaction_control_def decide_not_select_like_def decide_unsafe_read_def
      decide_reusable_read_def retained_state_interrupt_resolution_def is_select_like_def
      is_dml_or_ddl_or_plsql_or_script_def Let_def) auto

definition transport_failed :: "InterruptDecisionContext \<Rightarrow> bool" where
  "transport_failed ctx \<longleftrightarrow>
     execution_state ctx = ExecUnknown \<or> \<not> worker_done ctx \<or> has_connection_error ctx"

definition reusable_read :: "InterruptDecisionContext \<Rightarrow> bool" where
  "reusable_read ctx \<longleftrightarrow>
     sql_kind ctx = SelectLike \<and> statement_cancel_can_reuse_session (ctx_state_hint ctx)"

text \<open>
  C31. A session the user may still need is not replaced behind their back: when the interrupt
  is about this operation and this connection, on a sound connection whose worker has finished, a session that has to be preserved always goes to the user, with
  commit and rollback or for an explicit cleanup, whatever the interrupted statement was and
  whatever it timed out on. The only statements outside this rule are reads whose cancellation
  leaves nothing of their own.
\<close>

theorem preserved_session_is_not_replaced:
  assumes "operation_matches ctx" "connection_generation_matches ctx"
    and "\<not> transport_failed ctx" "\<not> reusable_read ctx"
    and "requires_physical_session_preservation (prior_retained_state ctx)"
  shows "decide_session_after_interrupt ctx
    \<in> {RequireCommitOrRollback, RequirePhysicalSessionResolution}"
proof -
  have "\<exists>d. retained_state_interrupt_resolution (prior_retained_state ctx) = Some d \<and>
      d \<in> {RequireCommitOrRollback, RequirePhysicalSessionResolution}"
    using assms(5) by (simp add: retained_state_interrupt_resolution_def)
  then show ?thesis
    using assms
    by (auto simp: decide_session_after_interrupt_def decide_dml_or_script_def
        decide_transaction_control_def decide_not_select_like_def decide_unsafe_read_def
        transport_failed_def reusable_read_def is_select_like_def)
qed

definition interrupted_update :: "RetainedSessionState \<Rightarrow> InterruptDecisionContext" where
  "interrupted_update prior =
     \<lparr>operation_matches = True, connection_generation_matches = True,
      execution_state = RunningStatement, worker_done = True, has_connection_error = False,
      sql_kind = Dml, prior_retained_state = prior, lazy_state = LazyNone,
      lazy_close_requested = False, lazy_cancel_requested = False, cursor_closed = False,
      fetch_worker_done = False, timed_out = False, ctx_recoverable_timeout = False,
      cancelled = True, timeout_settings_restored = False, health_check_ok = False,
      autocommit = True, ctx_state_hint = mysql_hint False True False True False\<rparr>"

theorem preserved_session_is_not_replaced_witness:
  "decide_session_after_interrupt (interrupted_update (dirty_session MaybeDirty))
     \<in> {RequireCommitOrRollback, RequirePhysicalSessionResolution}"
  by (rule preserved_session_is_not_replaced) code_simp+

text \<open>
  The two gates in front of a transaction-mode change are one rule: on every backend and for
  every session, the preflight decision allows the change exactly when the gate the editor asks
  raises no error.
\<close>

theorem transaction_mode_gates_agree:
  "retained_session_state_transaction_mode_change_preflight_decision db_type state = Allow \<longleftrightarrow>
   ensure_retained_session_option_change_allowed db_type state TransactionModeOption = Inr ()"
  by (simp add: retained_session_state_transaction_mode_change_preflight_decision_def
      ensure_retained_session_option_change_allowed_def connection_ensure_option_change_allowed_def)

text \<open>
  What happens to a pooled session after an action: it is kept exactly when the action did not
  release it and either a transaction decision is owed and the action ended in a way the session
  survives, or no decision is owed and the action was interrupted harmlessly or allowed reuse
  without a lock-wait timeout.
\<close>

theorem pooled_session_kept_exactly_when_safe:
  "decide_mysql_pooled_session_after_action ctx = RetainIfSessionInfoSynced \<longleftrightarrow>
     \<not> action_released_physical_session ctx \<and>
     (if pooled_requires_transaction_decision ctx
      then action_result_allows_reuse ctx \<or> pooled_was_cancelled ctx \<or>
           pooled_recoverable_timeout ctx \<or> pooled_lock_wait_timeout ctx
      else if pooled_was_cancelled ctx \<or> pooled_recoverable_timeout ctx
      then statement_cancel_can_reuse_session (pooled_state_hint ctx)
      else action_result_allows_reuse ctx \<and> \<not> pooled_lock_wait_timeout ctx)"
  by (auto simp: decide_mysql_pooled_session_after_action_def)

section \<open>Statements on a blocked session\<close>

text \<open>
  While a session's transaction itself blocks execution, no statement passes the preflight: not
  one that would consume a pending mode, not one that would clean the session up, on any backend
  and for whatever the text readers make of the statement.
\<close>

lemma blocked_transaction_admits_no_statement:
  assumes "tss_blocks_execution (transaction_state state)"
  shows "retained_session_state_execute_preflight_decision_for_sql rd split db_type sql state =
    RequireResolution"
proof -
  have "transaction_state state \<noteq> Clean" using assms by (auto simp: tss_blocks_execution_def)
  moreover have "retained_blocks_execution state"
    using assms by (simp add: retained_blocks_execution_def capabilities_def)
  ultimately show ?thesis
    using assms
    by (simp add: retained_session_state_execute_preflight_decision_for_sql_def
        retained_session_execute_can_consume_pending_transaction_mode_def
        statement_can_cleanup_retained_session_for_preflight_def
        mysql_statement_can_cleanup_retained_session_for_preflight_def
        retained_has_only_next_transaction_mode_override_def split: DatabaseType.split)
qed

lemma blocked_transaction_admits_no_statement_witness:
  "retained_session_state_execute_preflight_decision_for_sql blank_reader
     (\<lambda>_ sql. [StatementItem sql :: unit ScriptItem]) MySQL ''RESET CONNECTION''
     (dirty_session DecisionRequired) = RequireResolution"
  by (rule blocked_transaction_admits_no_statement) code_simp

lemma consumer_sets_no_override:
  assumes "mysql_statement_consumes_next_transaction_mode_override_for_execution
    rd db_type sql words auto_commit"
  shows "\<not> sets_next_transaction_mode_override
    (mysql_session_residue_effects rd db_type sql words hint)"
  using assms
  by (auto simp: mysql_statement_consumes_next_transaction_mode_override_for_execution_def
      mysql_set_transaction_statement_affects_physical_session_def
      mysql_set_transaction_mode_assignment_affects_physical_session_def
      mysql_session_residue_effects_def mysql_leading_residue_effects_def Let_def
      mysql_diagnostics_effects_def residue_effects_default_def
      mysql_set_transaction_mode_assignment_sets_next_override_def split: if_splits)

definition after_success ::
    "text_reader \<Rightarrow> DatabaseType \<Rightarrow> string \<Rightarrow> bool \<Rightarrow> RetainedSessionState \<Rightarrow> bool \<Rightarrow>
     RetainedSessionState" where
  "after_success rd db_type sql auto_commit state server_reports =
     retained_session_state_after_statement state
       (mysql_statement_session_effects_for_execution_context rd db_type sql auto_commit
         (mysql_effects_for_single_statement rd db_type sql))
       server_reports False False False"

lemma after_success_residue:
  "session_residue_state (after_success rd db_type sql auto_commit state server_reports) =
   residue_after_statement (session_residue_state state)
     (mysql_statement_session_effects_for_execution_context rd db_type sql auto_commit
       (mysql_effects_for_single_statement rd db_type sql)) False"
  by (simp add: after_success_def retained_session_state_after_statement_def Let_def from_parts_def)

lemma consumed_override_is_gone:
  assumes "mysql_statement_consumes_pending_transaction_mode_override_for_preflight rd db_type sql"
  shows "\<not> may_have_next_transaction_mode_override (session_residue_state
    (after_success rd db_type sql auto_commit state server_reports))"
proof -
  let ?eff = "mysql_effective_statement_sql_for_db_type rd db_type sql"
  let ?words = "rd_words rd db_type ?eff"
  have consumes: "mysql_statement_consumes_next_transaction_mode_override_for_execution
      rd db_type ?eff ?words auto_commit"
    using assms preflight_consumption consumption_needs_no_auto_commit by blast
  have "\<not> sets_next_transaction_mode_override
      (mysql_session_residue_effects rd db_type ?eff ?words hint)" for hint
    using consumer_sets_no_override [OF consumes] .
  then show ?thesis
    unfolding after_success_residue residue_after_statement_def
    by (simp add: residue_after_successful_effects_def Let_def residue_default_def consumes
        mysql_statement_session_effects_for_execution_context_def
        mysql_effects_for_single_statement_def residue_from_effects_def residue_merged_with_def)
qed

lemma cleaned_override_is_gone:
  assumes "mysql_statement_can_cleanup_retained_session_for_preflight rd split db_type sql state"
    and "retained_has_only_next_transaction_mode_override state"
    and "length (unit_statements split db_type sql) < 2" "db_type = MySQL \<or> db_type = MariaDB"
  shows "\<not> may_have_next_transaction_mode_override (session_residue_state
    (after_success rd db_type sql auto_commit state server_reports))"
proof -
  let ?e = "mysql_effects_for_single_statement rd db_type sql"
  let ?words = "rd_words rd db_type (mysql_effective_statement_sql_for_db_type rd db_type sql)"
  have unit: "unit_effects rd split db_type sql = ?e"
    using assms(3,4)
    by (auto simp: unit_effects_def effects_for_sql_def for_unit_single
        effects_for_single_statement_def)
  have reset: "mysql_reset_connection_statement ?words \<Longrightarrow>
      clears_all_session_residue (session_residue ?e)"
    by (simp add: mysql_effects_for_single_statement_def Let_def mysql_session_residue_effects_def)
  have "\<not> may_hold_table_lock (lock_state state)" "\<not> may_hold_flush_table_lock (lock_state state)"
    "\<not> may_hold_backup_lock (lock_state state)" "\<not> may_hold_named_lock (lock_state state)"
    using assms(2)
    by (auto simp: retained_has_only_next_transaction_mode_override_def
        lock_may_hold_session_lock_def)
  with assms(1) reset unit
  have "eff_releases_physical_session ?e \<or> clears_all_session_residue (session_residue ?e)"
    by (auto simp: mysql_statement_can_cleanup_retained_session_for_preflight_def Let_def
        split: if_splits)
  then show ?thesis
    unfolding after_success_residue residue_after_statement_def
    by (auto simp: residue_after_successful_effects_def residue_default_def)
qed

text \<open>
  C32. The preflight's exception for a pending one-shot SET TRANSACTION always pays off: on a
  MySQL-family session that is blocked only by the pending mode, a single statement the preflight
  admits leaves, once it has succeeded, no pending mode behind, with auto-commit on or off. The
  session cannot stay blocked by a mode that an admitted statement was supposed to consume.
\<close>

theorem admitted_statement_consumes_the_pending_mode:
  assumes "db_type = MySQL \<or> db_type = MariaDB"
    and "retained_has_only_next_transaction_mode_override state"
    and "length (unit_statements split db_type sql) < 2"
    and "retained_session_state_execute_preflight_decision_for_sql rd split db_type sql state = Allow"
  shows "\<not> may_have_next_transaction_mode_override (session_residue_state
    (after_success rd db_type sql auto_commit state server_reports))"
proof -
  have "retained_blocks_execution state"
    using assms(2) by (auto simp: state_defs)
  with assms(4)
  consider "retained_session_execute_can_consume_pending_transaction_mode rd db_type sql state"
    | "statement_can_cleanup_retained_session_for_preflight rd split db_type sql state"
    by (auto simp: retained_session_state_execute_preflight_decision_for_sql_def split: if_splits)
  then show ?thesis
  proof cases
    case 1
    with assms(1) have
      "mysql_statement_consumes_pending_transaction_mode_override_for_preflight rd db_type sql"
      by (auto simp: retained_session_execute_can_consume_pending_transaction_mode_def)
    then show ?thesis by (rule consumed_override_is_gone)
  next
    case 2
    with assms(1)
    have "mysql_statement_can_cleanup_retained_session_for_preflight rd split db_type sql state"
      by (auto simp: statement_can_cleanup_retained_session_for_preflight_def)
    from cleaned_override_is_gone [OF this assms(2,3,1)] show ?thesis .
  qed
qed

definition pending_mode_session :: RetainedSessionState where
  "pending_mode_session = retained_default
     \<lparr>session_residue_state := residue_default\<lparr>may_have_next_transaction_mode_override := True\<rparr>\<rparr>"

theorem admitted_statement_consumes_the_pending_mode_witness:
  "\<not> may_have_next_transaction_mode_override (session_residue_state
     (after_success blank_reader MySQL ''SELECT ID FROM T'' False pending_mode_session True))"
proof (rule admitted_statement_consumes_the_pending_mode)
  let ?split = "\<lambda>_ sql. [StatementItem sql :: unit ScriptItem]"
  show "MySQL = MySQL \<or> MySQL = MariaDB" by simp
  show "retained_has_only_next_transaction_mode_override pending_mode_session" by code_simp
  show "length (unit_statements ?split MySQL ''SELECT ID FROM T'') < 2" by code_simp
  show "retained_session_state_execute_preflight_decision_for_sql blank_reader ?split MySQL
      ''SELECT ID FROM T'' pending_mode_session = Allow" by code_simp
qed

section \<open>A decision hands a session back at most once\<close>

text \<open>
  The contract of the trait's hooks: the two hooks about the tab's connection hand nothing back, and
  each of the others hands the session back once.
\<close>

locale decision_hooks =
  fixes ap :: "'s applier"
    and handed :: "'s \<Rightarrow> 'e list"
  assumes connected_quiet: "handed (mark_connected ap s) = handed s"
    and replace_pending_quiet: "handed (mark_replace_pending ap s) = handed s"
    and discard_once: "length (handed (discard_physical_session ap s)) = Suc (length (handed s))"
    and reuse_once: "length (handed (clear_replace_pending ap s)) = Suc (length (handed s))"
    and decision_once:
      "length (handed (mark_transaction_decision_required ap s)) = Suc (length (handed s))"
    and resolution_once:
      "length (handed (mark_physical_session_resolution_required ap s)) = Suc (length (handed s))"
    and dirty_once:
      "length (handed (mark_dirty_and_block_next_execution ap s)) = Suc (length (handed s))"
begin

lemma handed_back:
  "length (handed (apply_session_decision d ap s)) =
   length (handed s) + (if d = IgnoreStaleEvent then 0 else 1)"
  by (cases d)
    (simp_all add: apply_session_decision_def connected_quiet replace_pending_quiet discard_once
      reuse_once decision_once resolution_once dirty_once)

end

interpretation oracle_hooks: decision_hooks oracle_cleanup_applier hand_back_log
  by unfold_locales
    (simp_all add: oracle_cleanup_applier_def store_state_def store_retained_state_def Let_def)

lemma filed_states_are_preserved:
  "requires_physical_session_preservation (retained_state_for_transaction_state a DecisionRequired)"
  "requires_physical_session_preservation (retained_state_for_transaction_state a BlockedDirty)"
  "requires_physical_session_preservation (retained_with_untracked_session_state s)"
  "retained_blocks_execution s \<Longrightarrow> requires_physical_session_preservation s"
  by (auto simp: retained_state_for_transaction_state_def retained_state_after_cleanup_update_def
      Let_def with_transaction_state_def state_defs)

text \<open>
  Applying a decision to an Oracle session hands it back exactly once, unless the event was
  stale, when it is not touched: it is closed exactly when the decision replaces it and filed for
  the tab otherwise. After a decision that leaves something to the user, the filed state is one that
  no later action releases without asking: leaving the connection, resizing the pool and releasing
  the session all require a resolution first.
\<close>

lemma oracle_decision_hands_back_once:
  "\<exists>evs. hand_back_log (apply_session_decision d oracle_cleanup_applier a) = hand_back_log a @ evs \<and>
     length evs = (if d = IgnoreStaleEvent then 0 else 1) \<and>
     ((\<exists>s. evs = [Released s]) \<longleftrightarrow> d = ReplacePhysicalSessionKeepUiConnected) \<and>
     (if d \<in> {RequireCommitOrRollback, RequirePhysicalSessionResolution,
              MarkDirtyAndBlockNextExecution}
      then \<exists>s. evs = [Filed s] \<and>
             retained_session_state_preflight_decision ConnectionTransition s = RequireResolution \<and>
             retained_session_state_preflight_decision PoolResize s = RequireResolution \<and>
             retained_session_state_preflight_decision ReleaseClean s = RequireResolution
      else True)"
proof -
  let ?evs = "drop (length (hand_back_log a))
    (hand_back_log (apply_session_decision d oracle_cleanup_applier a))"
  have log: "hand_back_log (apply_session_decision d oracle_cleanup_applier a) =
      hand_back_log a @ ?evs"
    by (cases d)
      (simp_all add: apply_session_decision_def oracle_cleanup_applier_def store_state_def
        store_retained_state_def Let_def)
  have len: "length ?evs = (if d = IgnoreStaleEvent then 0 else 1)"
    by (simp add: oracle_hooks.handed_back)
  have "((\<exists>s. ?evs = [Released s]) \<longleftrightarrow> d = ReplacePhysicalSessionKeepUiConnected) \<and>
     (if d \<in> {RequireCommitOrRollback, RequirePhysicalSessionResolution,
              MarkDirtyAndBlockNextExecution}
      then \<exists>s. ?evs = [Filed s] \<and> requires_physical_session_preservation s else True)"
    by (cases d)
      (simp_all add: apply_session_decision_def oracle_cleanup_applier_def store_state_def
        store_retained_state_def Let_def filed_states_are_preserved)
  then show ?thesis
    by (intro exI [of _ ?evs] conjI log len)
      (auto simp: retained_session_state_preflight_decision_def split: if_splits)
qed

end
