(* ===== verification/Message_Policy.thy ===== *)
theory Message_Policy
  imports Session_Policy
begin

text \<open>
  Reading what a failed call said (\<^verbatim>\<open>src/db/session_policy.rs\<close>, second half): the marker catalogs of the
  three backends, the classifiers built on them (recoverable timeout, lock-wait timeout, user
  cancel, aborted execution, lost connection), what a caller that may continue without a read does
  with its failure, and the rule for not taking the app's own cancel for a session's answer. A call
  that can be asked again is a function from a world to its result and the next world, so that a
  cancel pressed while the call ran is visible only in the world after it.
\<close>

section \<open>Marker catalogs\<close>

definition all_db_types :: "DatabaseType list" where
  "all_db_types = [Oracle, MySQL, MariaDB]"

definition fatal_connection_markers :: "string list" where
  "fatal_connection_markers =
     [''bad handshake'', ''communications link failure'', ''can'' @ [CHR 0x27] @ ''t connect to mysql server'',
      ''connection aborted'', ''connection closed'', ''ora-3114'', ''ora-03113'', ''ora-03114'',
      ''ora-03135'', ''error 2006'', ''error 2013'', ''failed to read packet'',
      ''failed to read from socket'', ''failed to receive packet'', ''failed to write to socket'',
      ''not connected'', ''closed connection'', ''connection was killed'', ''connection lost'',
      ''connection refused'', ''server has gone away'', ''server has closed the connection'',
      ''server closed the connection'', ''server shutdown in progress'', ''lost connection'',
      ''commands out of sync'', ''connection reset'', ''broken pipe'', ''driver error'',
      ''drivererror'', ''malformed packet'', ''network is unreachable'',
      ''no connection available'', ''operation timed out'', ''packet out of order'',
      ''packets out of order'', ''pool disconnected'', ''socket timeout'', ''network timeout'',
      ''read timeout'', ''write timeout'', ''connection timeout'', ''unexpected eof'']"

definition MYSQL_QUERY_CANCEL_MARKERS :: "string list" where
  "MYSQL_QUERY_CANCEL_MARKERS = [''query execution was interrupted'', ''query was killed'']"

definition MYSQL_CONNECTION_LOSS_MARKERS :: "string list" where
  "MYSQL_CONNECTION_LOSS_MARKERS =
     [''lost connection'', ''server has gone away'', ''server has closed the connection'',
      ''server closed the connection'', ''connection was killed'', ''communications link failure'',
      ''error 2006'', ''error 2013'']"

definition query_cancel_markers_for_db_type :: "DatabaseType \<Rightarrow> string list" where
  "query_cancel_markers_for_db_type db_type =
     (case db_type of
        Oracle \<Rightarrow> [''ora-01013'', ''user requested cancel'']
      | MySQL \<Rightarrow> MYSQL_QUERY_CANCEL_MARKERS
      | MariaDB \<Rightarrow> MYSQL_QUERY_CANCEL_MARKERS)"

definition MYSQL_QUERY_TIMEOUT_MARKERS :: "string list" where
  "MYSQL_QUERY_TIMEOUT_MARKERS =
     [''error 3024'', ''maximum statement execution time exceeded'', ''error 1969'',
      ''max_statement_time exceeded'', ''execution time limit'']"

definition query_timeout_markers_for_db_type :: "DatabaseType \<Rightarrow> string list" where
  "query_timeout_markers_for_db_type db_type =
     (case db_type of
        Oracle \<Rightarrow> [''dpi-1067'', ''oracle thin call timeout exceeded'']
      | MySQL \<Rightarrow> MYSQL_QUERY_TIMEOUT_MARKERS
      | MariaDB \<Rightarrow> MYSQL_QUERY_TIMEOUT_MARKERS)"

definition connection_loss_markers_for_db_type :: "DatabaseType \<Rightarrow> string list" where
  "connection_loss_markers_for_db_type db_type =
     (case db_type of
        Oracle \<Rightarrow> [''not logged on'', ''end-of-file on communication channel'', ''ora-01012'',
                   ''ora-03113'', ''ora-03114'', ''ora-03135'', ''dpi-1002'', ''dpi-1010'',
                   ''dpi-1080'']
      | MySQL \<Rightarrow> MYSQL_CONNECTION_LOSS_MARKERS
      | MariaDB \<Rightarrow> MYSQL_CONNECTION_LOSS_MARKERS)"

definition error_line_patterns_for_db_type :: "DatabaseType \<Rightarrow> string list" where
  "error_line_patterns_for_db_type db_type =
     (case db_type of Oracle \<Rightarrow> [''ora-06512: at line''] | MySQL \<Rightarrow> [] | MariaDB \<Rightarrow> [])"

definition error_line_message_patterns :: "string list" where
  "error_line_message_patterns =
     [''error at line'', ''near line'', ''line:'', '' at line ''] @
     concat (map error_line_patterns_for_db_type all_db_types)"

definition lower_matches_any_db_marker ::
    "string \<Rightarrow> (DatabaseType \<Rightarrow> string list) \<Rightarrow> bool" where
  "lower_matches_any_db_marker lower markers_for \<longleftrightarrow>
     list_ex (contains_text lower) (concat (map markers_for all_db_types))"

section \<open>Classifiers\<close>

definition is_lock_wait_timeout_message :: "string \<Rightarrow> bool" where
  "is_lock_wait_timeout_message lower \<longleftrightarrow>
     contains_text lower ''error 1205'' \<or> contains_text lower ''lock wait timeout exceeded''"

definition has_structured_mysql_recoverable_timeout_marker :: "string \<Rightarrow> bool" where
  "has_structured_mysql_recoverable_timeout_marker lower \<longleftrightarrow>
     contains_text lower ''error 3024'' \<or> contains_text lower ''error 1969''"

definition has_fatal_connection_marker :: "string \<Rightarrow> bool" where
  "has_fatal_connection_marker lower = list_ex (contains_text lower) fatal_connection_markers"

definition backend_is_recoverable_timeout_message :: "DatabaseType \<Rightarrow> string \<Rightarrow> string \<Rightarrow> bool" where
  "backend_is_recoverable_timeout_message db_type trimmed lower =
     (case db_type of
        Oracle \<Rightarrow>
          contains_text trimmed ''DPI-1067'' \<or> contains_text lower ''dpi-1067'' \<or>
          contains_text lower (to_ascii_lowercase ''Oracle thin call timeout exceeded'')
      | _ \<Rightarrow>
          contains_text lower ''error 3024'' \<or> contains_text lower ''er_query_timeout'' \<or>
          contains_text lower ''max_execution_time'' \<or> contains_text lower ''max_statement_time'' \<or>
          contains_text lower ''max statement time exceeded'' \<or>
          contains_text lower ''maximum statement execution time exceeded'')"

definition is_recoverable_timeout_message :: "DatabaseType \<Rightarrow> string \<Rightarrow> bool" where
  "is_recoverable_timeout_message db_type err_msg \<longleftrightarrow>
     (let trimmed = trim err_msg;
          lower = to_ascii_lowercase trimmed
      in if is_lock_wait_timeout_message lower then False
         else if (case db_type of
                    MySQL \<Rightarrow> has_structured_mysql_recoverable_timeout_marker lower
                  | MariaDB \<Rightarrow> has_structured_mysql_recoverable_timeout_marker lower
                  | Oracle \<Rightarrow> False) then True
         else if has_fatal_connection_marker lower then False
         else backend_is_recoverable_timeout_message db_type trimmed lower)"

definition is_recoverable_timeout ::
    "DatabaseType \<Rightarrow> string \<Rightarrow> SqlKind \<Rightarrow> LazyFetchState \<Rightarrow> bool" where
  "is_recoverable_timeout db_type err_msg kind lazy \<longleftrightarrow>
     (if \<not> is_select_like kind then False
      else if lazy = LazyUnknown then False
      else is_recoverable_timeout_message db_type err_msg)"

definition message_is_lock_wait_timeout :: "string \<Rightarrow> bool" where
  "message_is_lock_wait_timeout message =
     is_lock_wait_timeout_message (to_ascii_lowercase (trim message))"

definition message_has_fatal_connection_marker :: "string \<Rightarrow> bool" where
  "message_has_fatal_connection_marker message =
     has_fatal_connection_marker (to_ascii_lowercase (trim message))"

definition message_reports_query_timeout :: "string \<Rightarrow> bool" where
  "message_reports_query_timeout lower \<longleftrightarrow>
     contains_text lower ''query timed out'' \<or>
     lower_matches_any_db_marker lower query_timeout_markers_for_db_type"

definition message_indicates_query_cancel :: "string \<Rightarrow> bool" where
  "message_indicates_query_cancel message \<longleftrightarrow>
     (let lower = to_ascii_lowercase (trim message)
      in if contains_text lower (to_ascii_lowercase ''Query cancelled'') \<or>
            contains_text lower ''query canceled'' then True
         else if message_reports_query_timeout lower then False
         else lower_matches_any_db_marker lower query_cancel_markers_for_db_type)"

definition message_indicates_execution_abort :: "string \<Rightarrow> bool" where
  "message_indicates_execution_abort message \<longleftrightarrow>
     (if message_indicates_query_cancel message then True
      else
        (let lower = to_ascii_lowercase (trim message)
         in message_reports_query_timeout lower \<or> contains_text lower ''timed out'' \<or>
            contains_text lower ''timeout''))"

definition message_indicates_connection_loss :: "string \<Rightarrow> bool" where
  "message_indicates_connection_loss message \<longleftrightarrow>
     (let lower = to_ascii_lowercase (trim message)
      in contains_text lower ''not connected'' \<or> contains_text lower ''connection was lost'' \<or>
         contains_text lower ''connection lost'' \<or>
         lower_matches_any_db_marker lower connection_loss_markers_for_db_type)"

section \<open>Failed reads and stray cancels\<close>

datatype FailedReadDisposition = FailOpen | Stop

definition disposition_of :: "string \<Rightarrow> FailedReadDisposition" where
  "disposition_of message = (if message_indicates_query_cancel message then Stop else FailOpen)"

definition stops_the_action :: "FailedReadDisposition \<Rightarrow> bool" where
  "stops_the_action d \<longleftrightarrow> d = Stop"

datatype SessionCancelResidue = NothingLeftToLand | MayLandOnTheNextCall

definition ORACLE_OCI :: SessionCancelResidue where "ORACLE_OCI = MayLandOnTheNextCall"

definition ORACLE_THIN :: SessionCancelResidue where "ORACLE_THIN = MayLandOnTheNextCall"

definition MYSQL_FAMILY :: SessionCancelResidue where "MYSQL_FAMILY = MayLandOnTheNextCall"

definition after_a_cancel_this_app_sent ::
    "bool \<Rightarrow> SessionCancelResidue \<Rightarrow> SessionCancelResidue" where
  "after_a_cancel_this_app_sent cancel_sent driver =
     (if cancel_sent then driver else NothingLeftToLand)"

definition may_land_on_the_next_call :: "SessionCancelResidue \<Rightarrow> bool" where
  "may_land_on_the_next_call r \<longleftrightarrow> r = MayLandOnTheNextCall"

text \<open>
  \<open>display\<close> renders an error; \<open>ask\<close> makes the call. The warning the source logs before asking again
  is left out.
\<close>

definition answer_not_taken_from_our_own_cancel_when ::
    "('e \<Rightarrow> string) \<Rightarrow> ('w \<Rightarrow> SessionCancelResidue) \<Rightarrow> ('w \<Rightarrow> ('e + 't) \<times> 'w) \<Rightarrow> 'w \<Rightarrow>
     ('e + 't) \<times> 'w" where
  "answer_not_taken_from_our_own_cancel_when display residue_when_the_answer_came ask w =
     (case ask w of
        (Inr t, w1) \<Rightarrow> (Inr t, w1)
      | (Inl e, w1) \<Rightarrow>
          (if \<not> may_land_on_the_next_call (residue_when_the_answer_came w1) \<or>
              \<not> message_indicates_query_cancel (display e)
           then (Inl e, w1)
           else ask w1))"

definition answer_not_taken_from_our_own_cancel ::
    "('e \<Rightarrow> string) \<Rightarrow> SessionCancelResidue \<Rightarrow> ('w \<Rightarrow> ('e + 't) \<times> 'w) \<Rightarrow> 'w \<Rightarrow> ('e + 't) \<times> 'w" where
  "answer_not_taken_from_our_own_cancel display residue ask w =
     answer_not_taken_from_our_own_cancel_when display (\<lambda>_. residue) ask w"

definition answer_a_call_a_cancel_could_be_aimed_at ::
    "('e \<Rightarrow> string) \<Rightarrow> SessionCancelResidue \<Rightarrow> ('w \<Rightarrow> bool) \<Rightarrow> ('w \<Rightarrow> ('e + 't) \<times> 'w) \<Rightarrow> 'w \<Rightarrow>
     ('e + 't) \<times> 'w" where
  "answer_a_call_a_cancel_could_be_aimed_at display driver a_cancel_is_aimed_at_this_call ask w =
     answer_not_taken_from_our_own_cancel_when display
       (\<lambda>w1. if a_cancel_is_aimed_at_this_call w1 then NothingLeftToLand else driver) ask w"

section \<open>Properties\<close>

definition app_says_cancelled :: "string \<Rightarrow> bool" where
  "app_says_cancelled message \<longleftrightarrow>
     contains_text (to_ascii_lowercase (trim message)) ''query cancelled'' \<or>
     contains_text (to_ascii_lowercase (trim message)) ''query canceled''"

lemma app_sentence: "to_ascii_lowercase ''Query cancelled'' = ''query cancelled''"
  by code_simp

lemma cancel_despite_timeout:
  assumes "message_reports_query_timeout (to_ascii_lowercase (trim message))"
  shows "message_indicates_query_cancel message \<longleftrightarrow> app_says_cancelled message"
  using assms
  by (simp add: message_indicates_query_cancel_def app_says_cancelled_def app_sentence Let_def)

text \<open>
  One failure is one event: a message in which any backend says that a limit was exceeded,
  however cancel-shaped its wording, is read as the user's cancel only when the app itself wrote
  that it cancelled; it stops an action that may fail open only then; and it always counts as an
  aborted execution.
\<close>

lemma timeout_is_not_read_as_a_cancel:
  assumes "marker \<in> set (query_timeout_markers_for_db_type db_type)"
    and "contains_text (to_ascii_lowercase (trim message)) marker"
  shows "(message_indicates_query_cancel message \<longleftrightarrow> app_says_cancelled message) \<and>
    (disposition_of message = Stop \<longleftrightarrow> app_says_cancelled message) \<and>
    message_indicates_execution_abort message"
proof -
  have "db_type \<in> set all_db_types" by (cases db_type) (simp_all add: all_db_types_def)
  with assms have timeout: "message_reports_query_timeout (to_ascii_lowercase (trim message))"
    by (auto simp: message_reports_query_timeout_def lower_matches_any_db_marker_def list_ex_iff)
  then show ?thesis
    by (simp add: cancel_despite_timeout disposition_of_def message_indicates_execution_abort_def)
qed

lemma timeout_is_not_read_as_a_cancel_witness:
  "\<not> message_indicates_query_cancel
     ''ERROR 3024 (HY000): Query execution was interrupted, maximum statement execution time exceeded''"
proof -
  let ?m = "''ERROR 3024 (HY000): Query execution was interrupted, maximum statement execution time exceeded''"
  have "''error 3024'' \<in> set (query_timeout_markers_for_db_type MySQL)" by code_simp
  moreover have "contains_text (to_ascii_lowercase (trim ?m)) ''error 3024''" by code_simp
  ultimately have "message_indicates_query_cancel ?m \<longleftrightarrow> app_says_cancelled ?m"
    using timeout_is_not_read_as_a_cancel by blast
  moreover have "\<not> app_says_cancelled ?m" by code_simp
  ultimately show ?thesis by blast
qed

text \<open>
  A timed-out session whose error is a lock-wait timeout, or names a lost connection without
  the server's own timeout code, is never handed on: the recoverability the caller derives from the
  message keeps the interrupt decision from reusing the physical session.
\<close>

lemma unrecoverable_timeout_is_not_reused:
  assumes "timed_out ctx"
    and "ctx_recoverable_timeout ctx =
      is_recoverable_timeout db_type message (sql_kind ctx) (lazy_state ctx)"
    and "message_is_lock_wait_timeout message \<or>
      message_has_fatal_connection_marker message \<and>
      \<not> has_structured_mysql_recoverable_timeout_marker (to_ascii_lowercase (trim message))"
  shows "decide_session_after_interrupt ctx \<noteq> ReuseSamePhysicalSession"
proof -
  have "\<not> is_recoverable_timeout_message db_type message"
    using assms(3)
    by (auto simp: is_recoverable_timeout_message_def Let_def message_is_lock_wait_timeout_def
        message_has_fatal_connection_marker_def split: DatabaseType.split)
  then have "\<not> ctx_recoverable_timeout ctx"
    using assms(2) by (simp add: is_recoverable_timeout_def)
  with assms(1) show ?thesis
    by (simp add: decide_session_after_interrupt_def decide_dml_or_script_def
        decide_transaction_control_def decide_not_select_like_def decide_unsafe_read_def
        decide_reusable_read_def retained_state_interrupt_resolution_def Let_def)
qed

lemma unrecoverable_timeout_is_not_reused_witness:
  "decide_session_after_interrupt
     ((interrupted_update retained_default)\<lparr>sql_kind := SelectLike, timed_out := True\<rparr>)
   \<noteq> ReuseSamePhysicalSession"
proof -
  let ?ctx = "(interrupted_update retained_default)\<lparr>sql_kind := SelectLike, timed_out := True\<rparr>"
  let ?m = "''ERROR 1205 (HY000): Lock wait timeout exceeded''"
  have lock: "message_is_lock_wait_timeout ?m" by code_simp
  have "\<not> is_recoverable_timeout_message MySQL ?m"
    using lock
    by (simp add: is_recoverable_timeout_message_def message_is_lock_wait_timeout_def Let_def)
  then have "ctx_recoverable_timeout ?ctx =
      is_recoverable_timeout MySQL ?m (sql_kind ?ctx) (lazy_state ?ctx)"
    by (simp add: is_recoverable_timeout_def interrupted_update_def)
  from unrecoverable_timeout_is_not_reused [OF _ this] lock show ?thesis by simp
qed

text \<open>
  A call is asked a second time only past a stray cancel. When the first answer is an error,
  the call is not repeated if a cancel was aimed at it by the time the answer came (so a COMMIT the
  user cancelled is not run after all), nor if the error reports a timeout the app did not itself
  call a cancel, nor if the driver leaves no cancel behind: the answer, and the world it leaves, are
  those of the first call.
\<close>

lemma call_is_repeated_only_past_a_stray_cancel:
  assumes "ask w = (Inl e, w1)"
    and "aimed w1 \<or> driver = NothingLeftToLand \<or>
      message_reports_query_timeout (to_ascii_lowercase (trim (display e))) \<and>
      \<not> app_says_cancelled (display e)"
  shows "answer_a_call_a_cancel_could_be_aimed_at display driver aimed ask w = (Inl e, w1)"
proof -
  consider "aimed w1 \<or> driver = NothingLeftToLand" | "\<not> message_indicates_query_cancel (display e)"
    using assms(2) cancel_despite_timeout by blast
  then show ?thesis
    by cases
      (auto simp: answer_a_call_a_cancel_could_be_aimed_at_def assms(1)
        answer_not_taken_from_our_own_cancel_when_def may_land_on_the_next_call_def)
qed

lemma call_is_repeated_only_past_a_stray_cancel_witness:
  "answer_a_call_a_cancel_could_be_aimed_at (\<lambda>m. m) ORACLE_OCI (\<lambda>w. w > 0)
     (\<lambda>w :: nat. (if w = 0 then Inl ''ORA-01013'' else Inr (), w + 1)) 0 = (Inl ''ORA-01013'', 1)"
  by (rule call_is_repeated_only_past_a_stray_cancel) simp_all

text \<open>
  On the MySQL family the display catalog of lost connections is covered by the fail-closed
  catalog that forbids session reuse: a message with any of its markers, anywhere in it, also
  carries a fatal marker.
\<close>

theorem mysql_connection_loss_is_fatal:
  assumes "marker \<in> set MYSQL_CONNECTION_LOSS_MARKERS"
    and "contains_text (to_ascii_lowercase (trim message)) marker"
  shows "message_indicates_connection_loss message \<and> message_has_fatal_connection_marker message"
proof -
  have "set MYSQL_CONNECTION_LOSS_MARKERS \<subseteq> set fatal_connection_markers" by code_simp
  with assms have "message_has_fatal_connection_marker message"
    by (auto simp: message_has_fatal_connection_marker_def has_fatal_connection_marker_def
        list_ex_iff)
  moreover have "marker \<in> set (connection_loss_markers_for_db_type MySQL)"
    using assms(1) by (simp add: connection_loss_markers_for_db_type_def)
  with assms(2) have "message_indicates_connection_loss message"
    by (auto simp: message_indicates_connection_loss_def lower_matches_any_db_marker_def list_ex_iff
        all_db_types_def Let_def)
  ultimately show ?thesis by blast
qed

theorem mysql_connection_loss_is_fatal_witness:
  "message_has_fatal_connection_marker ''ERROR 2013: Lost connection to MySQL server during query''"
proof -
  have "''lost connection'' \<in> set MYSQL_CONNECTION_LOSS_MARKERS" by code_simp
  moreover have "contains_text (to_ascii_lowercase
      (trim ''ERROR 2013: Lost connection to MySQL server during query'')) ''lost connection''"
    by code_simp
  ultimately show ?thesis using mysql_connection_loss_is_fatal by blast
qed

text \<open>The Oracle half of the display catalog is not covered by the fail-closed one.\<close>

lemma oracle_connection_loss_not_fatal:
  "message_indicates_connection_loss ''ORA-01012: not logged on'' \<and>
   \<not> message_has_fatal_connection_marker ''ORA-01012: not logged on''"
  by code_simp

end
