(* ===== verification/Lock_Order.thy ===== *)
theory Lock_Order
  imports Rust_Text
begin

text \<open>
  The debug-build lock-order tracker of \<^verbatim>\<open>src/db/lock_order.rs\<close>. The three statics of the source are the
  three parts of the record \<open>tracker\<close>: the locks each thread holds (outermost first), the ordered
  pairs observed with the place that first took them, and the messages of the inversions found. A
  run of the program is a list of events, each thread entering and leaving lock scopes in any
  interleaving. The lemmas show that the report is complete and sound: it is empty for the app's
  locks exactly when no pair of locks was taken in both orders and none re-entered.
\<close>

section \<open>State\<close>

record tracker =
  HELD :: "nat \<Rightarrow> string list"
  OBSERVED :: "string \<times> string \<Rightarrow> string option"
  INVERSIONS :: "string set"

definition tracker_init :: tracker where
  "tracker_init = \<lparr>HELD = (\<lambda>_. []), OBSERVED = (\<lambda>_. None), INVERSIONS = {}\<rparr>"

definition names_ALL :: "string list" where
  "names_ALL =
     [''ACTIVITY_REGISTRY'', ''DB_CONNECTION'', ''POOL_CONTEXT_CACHE'', ''SESSION_LEASE'',
      ''CONNECTION_REGISTRY'', ''SENDER_REGISTRATIONS'', ''RETIRED_GENERATIONS'',
      ''POOL_HANDOUT_HOLDS'', ''RUNTIME_STATE'', ''RETAINED_LEASES'', ''PENDING_CLEANUPS'',
      ''CANCELLED_WORK'']"

section \<open>Entering and leaving a lock\<close>

definition reentrant_message :: "string \<Rightarrow> string \<Rightarrow> string" where
  "reentrant_message name loc =
     ''re-entrant acquire of '' @ name @ '' (already held) at '' @ loc"

definition inversion_message :: "string \<Rightarrow> string \<Rightarrow> string \<Rightarrow> string \<Rightarrow> string" where
  "inversion_message held name loc first =
     held @ '' -> '' @ name @ '' at '' @ loc @ '' inverts '' @ name @ '' -> '' @ held @
     '' first seen at '' @ first"

text \<open>One round of the loop over the locks the thread already holds.\<close>

definition enter_round ::
    "string \<Rightarrow> string \<Rightarrow> (string \<times> string \<Rightarrow> string option) \<times> string list \<Rightarrow> string \<Rightarrow>
     (string \<times> string \<Rightarrow> string option) \<times> string list" where
  "enter_round name loc s held =
     (let (observed, inverted) = s;
          observed = (if observed (held, name) = None then observed((held, name) \<mapsto> loc)
                      else observed)
      in (observed,
          if held = name then inverted @ [reentrant_message name loc]
          else (case observed (name, held) of
                  Some first \<Rightarrow> inverted @ [inversion_message held name loc first]
                | None \<Rightarrow> inverted)))"

definition mentions_shared_lock :: "string \<Rightarrow> bool" where
  "mentions_shared_lock entry \<longleftrightarrow> list_ex (contains_text entry) names_ALL"

text \<open>
  The result is \<open>Inl\<close> with the messages of the panic when the strict check is on and a real shared
  lock is involved; the scope is then not entered, but what was recorded stays recorded.
\<close>

definition enter ::
    "bool \<Rightarrow> nat \<Rightarrow> string \<Rightarrow> string \<Rightarrow> tracker \<Rightarrow> (string list + unit) \<times> tracker" where
  "enter strict t name loc s =
     (let outer = HELD s t
      in if outer = [] then (Inr (), s\<lparr>HELD := (HELD s)(t := outer @ [name])\<rparr>)
         else
           (let (observed, inverted) = foldl (enter_round name loc) (OBSERVED s, []) outer;
                s = s\<lparr>OBSERVED := observed, INVERSIONS := INVERSIONS s \<union> set inverted\<rparr>;
                real = filter mentions_shared_lock inverted
            in if real \<noteq> [] \<and> strict then (Inl real, s)
               else (Inr (), s\<lparr>HELD := (HELD s)(t := outer @ [name])\<rparr>)))"

definition leave :: "nat \<Rightarrow> tracker \<Rightarrow> tracker" where
  "leave t s = s\<lparr>HELD := (HELD s)(t := butlast (HELD s t))\<rparr>"

definition observed_lock_order :: "tracker \<Rightarrow> (string \<times> string) set" where
  "observed_lock_order s = dom (OBSERVED s)"

definition shared_lock_order_inversions :: "tracker \<Rightarrow> string set" where
  "shared_lock_order_inversions s = {e \<in> INVERSIONS s. mentions_shared_lock e}"

definition shared_observed_lock_order :: "tracker \<Rightarrow> (string \<times> string) set" where
  "shared_observed_lock_order s =
     {(a, b) \<in> observed_lock_order s. a \<in> set names_ALL \<and> b \<in> set names_ALL}"

datatype lock_event = EnterScope bool nat string string | LeaveScope nat

fun lock_step :: "tracker \<Rightarrow> lock_event \<Rightarrow> tracker" where
  "lock_step s (EnterScope strict t name loc) = snd (enter strict t name loc s)"
| "lock_step s (LeaveScope t) = leave t s"

definition run_locks :: "lock_event list \<Rightarrow> tracker" where
  "run_locks events = foldl lock_step tracker_init events"

section \<open>What one acquisition records\<close>

abbreviation rounds ::
    "string \<Rightarrow> string \<Rightarrow> (string \<times> string \<Rightarrow> string option) \<Rightarrow> string list \<Rightarrow>
     (string \<times> string \<Rightarrow> string option) \<times> string list" where
  "rounds name loc observed outer \<equiv> foldl (enter_round name loc) (observed, []) outer"

definition explained ::
    "(string \<times> string \<Rightarrow> string option) \<Rightarrow> string \<Rightarrow> bool" where
  "explained observed entry \<longleftrightarrow>
     (\<exists>name loc. (name, name) \<in> dom observed \<and> entry = reentrant_message name loc) \<or>
     (\<exists>a b loc first. a \<noteq> b \<and> (a, b) \<in> dom observed \<and> (b, a) \<in> dom observed \<and>
        entry = inversion_message a b loc first)"

definition reported :: "string set \<Rightarrow> string \<Rightarrow> string \<Rightarrow> bool" where
  "reported entries a b \<longleftrightarrow>
     (\<exists>loc. a = b \<and> reentrant_message a loc \<in> entries) \<or>
     (\<exists>loc first. inversion_message a b loc first \<in> entries \<or>
                  inversion_message b a loc first \<in> entries)"

text \<open>The tracker's invariant: both-order pairs are reported, and reports are explained.\<close>

definition order_inv :: "(string \<times> string \<Rightarrow> string option) \<Rightarrow> string set \<Rightarrow> bool" where
  "order_inv observed entries \<longleftrightarrow>
     (\<forall>a b. (a, b) \<in> dom observed \<longrightarrow> (b, a) \<in> dom observed \<longrightarrow> reported entries a b) \<and>
     (\<forall>e \<in> entries. explained observed e)"

lemma explained_mono:
  assumes "explained observed e" "dom observed \<subseteq> dom observed'"
  shows "explained observed' e"
  using assms(1) unfolding explained_def
  by (elim disjE exE conjE) (metis assms(2) subsetD)+

lemma reported_mono: "reported entries a b \<Longrightarrow> entries \<subseteq> entries' \<Longrightarrow> reported entries' a b"
  unfolding reported_def by blast

lemma reported_sym: "reported entries a b = reported entries b a"
  unfolding reported_def by blast

lemma enter_round_inv:
  assumes "order_inv observed (entries \<union> set inverted)"
    and "enter_round name loc (observed, inverted) held = (observed', inverted')"
  shows "order_inv observed' (entries \<union> set inverted')"
proof -
  let ?entries = "entries \<union> set inverted" and ?entries' = "entries \<union> set inverted'"
  have dom: "dom observed' = insert (held, name) (dom observed)"
    using assms(2) by (auto simp: enter_round_def Let_def split: if_splits option.splits)
  have sub: "?entries \<subseteq> ?entries'"
    using assms(2) by (auto simp: enter_round_def Let_def split: if_splits option.splits)
  have new: "reported ?entries' held name" if ba: "(name, held) \<in> dom observed'"
  proof (cases "held = name")
    case True
    then have "reentrant_message name loc \<in> ?entries'"
      using assms(2) by (auto simp: enter_round_def Let_def)
    with True show ?thesis unfolding reported_def by blast
  next
    case False
    from ba obtain first where "observed' (name, held) = Some first" by blast
    with False have "inversion_message held name loc first \<in> ?entries'"
      using assms(2) by (auto simp: enter_round_def Let_def split: if_splits option.splits)
    then show ?thesis unfolding reported_def by blast
  qed
  have fresh: "explained observed' e" if e: "e \<in> ?entries' - ?entries" for e
  proof (cases "held = name")
    case True
    then have "e = reentrant_message name loc"
      using e assms(2) by (auto simp: enter_round_def Let_def split: if_splits)
    then show ?thesis using dom True by (auto simp: explained_def)
  next
    case False
    then have "inverted' = (case observed' (name, held) of
        Some f \<Rightarrow> inverted @ [inversion_message held name loc f] | None \<Rightarrow> inverted)"
      using assms(2) by (auto simp: enter_round_def Let_def split: if_splits)
    with e obtain first where msg: "e = inversion_message held name loc first"
      and other: "(name, held) \<in> dom observed'"
      by (cases "observed' (name, held)") auto
    have "(held, name) \<in> dom observed'" using dom by simp
    with msg other False show ?thesis unfolding explained_def by metis
  qed
  show ?thesis
    unfolding order_inv_def
  proof (intro conjI allI impI ballI)
    fix a b
    assume ab: "(a, b) \<in> dom observed'" and ba: "(b, a) \<in> dom observed'"
    show "reported ?entries' a b"
    proof (cases "(a, b) = (held, name) \<or> (b, a) = (held, name)")
      case True
      then show ?thesis using new ab ba reported_sym by blast
    next
      case False
      then have "(a, b) \<in> dom observed" "(b, a) \<in> dom observed" using ab ba dom by auto
      then show ?thesis using assms(1) reported_mono [OF _ sub] unfolding order_inv_def by blast
    qed
  next
    fix e
    assume "e \<in> ?entries'"
    then show "explained observed' e"
      using fresh assms(1) explained_mono dom unfolding order_inv_def by blast
  qed
qed

lemma rounds_inv:
  "order_inv observed (entries \<union> set inverted) \<Longrightarrow>
   foldl (enter_round name loc) (observed, inverted) outer = (observed', inverted') \<Longrightarrow>
   order_inv observed' (entries \<union> set inverted')"
proof (induction outer arbitrary: observed inverted)
  case (Cons held outer)
  obtain o1 i1 where step: "enter_round name loc (observed, inverted) held = (o1, i1)"
    by fastforce
  from enter_round_inv [OF Cons.prems(1) step] Cons.IH [of o1 i1] Cons.prems(2) step
  show ?case by simp
qed simp

definition tracker_inv :: "tracker \<Rightarrow> bool" where
  "tracker_inv s \<longleftrightarrow> order_inv (OBSERVED s) (INVERSIONS s)"

lemma enter_inv:
  assumes "tracker_inv s"
  shows "tracker_inv (snd (enter strict t name loc s))"
proof -
  obtain o1 i1 where r: "rounds name loc (OBSERVED s) (HELD s t) = (o1, i1)" by fastforce
  from rounds_inv [of "OBSERVED s" "INVERSIONS s" "[]", OF _ r] assms
  have "order_inv o1 (INVERSIONS s \<union> set i1)" by (simp add: tracker_inv_def)
  then show ?thesis using assms r by (simp add: enter_def Let_def tracker_inv_def)
qed

interpretation tracker_runs: run_invariant lock_step tracker_inv
proof
  fix s e
  assume "tracker_inv s"
  then show "tracker_inv (lock_step s e)"
    by (cases e) (simp_all add: enter_inv, simp add: leave_def tracker_inv_def)
qed

lemma run_tracker_inv: "tracker_inv (run_locks events)"
  unfolding run_locks_def
  by (rule tracker_runs.run_inv) (simp add: tracker_inv_def tracker_init_def order_inv_def)

section \<open>Completeness and soundness of the report\<close>

lemma messages_name_their_locks:
  "contains_text (reentrant_message a loc) a"
  "contains_text (inversion_message a b loc first) a"
  "contains_text (inversion_message a b loc first) b"
  unfolding contains_text_iff reentrant_message_def inversion_message_def
  by (metis append.assoc append_Nil)+

lemma reported_shared:
  assumes "reported entries a b" "a \<in> set names_ALL \<or> b \<in> set names_ALL"
  shows "\<exists>e \<in> entries. mentions_shared_lock e"
proof -
  from assms(1) obtain e where "e \<in> entries" "contains_text e a" "contains_text e b"
    unfolding reported_def using messages_name_their_locks by blast
  with assms(2) show ?thesis by (auto simp: mentions_shared_lock_def list_ex_iff)
qed

text \<open>
  C18. The lock-order report is complete: in every run of any number of threads, for two locks of
  which at least one is a shared lock of the app, if the tracker observed the pair in both orders,
  or observed a re-entrant acquisition, the inversions reported for the shared locks are not empty.
\<close>

theorem lock_order_report_complete:
  assumes "(a, b) \<in> observed_lock_order (run_locks events)"
    and "(b, a) \<in> observed_lock_order (run_locks events)"
    and "a \<in> set names_ALL \<or> b \<in> set names_ALL"
  shows "shared_lock_order_inversions (run_locks events) \<noteq> {}"
proof -
  have "reported (INVERSIONS (run_locks events)) a b"
    using run_tracker_inv assms(1,2)
    unfolding tracker_inv_def order_inv_def observed_lock_order_def by blast
  from reported_shared [OF this assms(3)] show ?thesis
    by (auto simp: shared_lock_order_inversions_def)
qed

definition crossed_locks :: "lock_event list" where
  "crossed_locks =
     [EnterScope False 1 ''DB_CONNECTION'' ''a.rs:1'', EnterScope False 1 ''SESSION_LEASE'' ''a.rs:2'',
      LeaveScope 1, LeaveScope 1,
      EnterScope False 2 ''SESSION_LEASE'' ''b.rs:1'', EnterScope False 2 ''DB_CONNECTION'' ''b.rs:2'']"

theorem lock_order_report_complete_witness:
  "shared_lock_order_inversions (run_locks crossed_locks) \<noteq> {}"
proof (rule lock_order_report_complete)
  show "(''DB_CONNECTION'', ''SESSION_LEASE'') \<in> observed_lock_order (run_locks crossed_locks)"
    "(''SESSION_LEASE'', ''DB_CONNECTION'') \<in> observed_lock_order (run_locks crossed_locks)"
    by (simp_all add: crossed_locks_def run_locks_def tracker_init_def enter_def enter_round_def
        leave_def observed_lock_order_def Let_def dom_def)
  show "''DB_CONNECTION'' \<in> set names_ALL \<or> ''SESSION_LEASE'' \<in> set names_ALL"
    by (simp add: names_ALL_def)
qed

text \<open>
  What really happened, told by the events alone. A scope of a thread is open from the event that entered it (an
  attempt that the strict check stopped enters nothing) until the thread has left more scopes than it entered
  since. One lock is taken inside another when its scope is asked for while the other's is open.
\<close>

abbreviation granted :: "lock_event list \<Rightarrow> bool \<Rightarrow> nat \<Rightarrow> string \<Rightarrow> string \<Rightarrow> bool" where
  "granted past strict t name loc \<equiv> fst (enter strict t name loc (run_locks past)) = Inr ()"

fun opens :: "nat \<Rightarrow> lock_event list \<Rightarrow> lock_event list \<Rightarrow> nat" where
  "opens t past [] = 0"
| "opens t past (e # later) =
     (case e of
        EnterScope strict t' name loc \<Rightarrow> if t' = t \<and> granted past strict t' name loc then 1 else 0
      | LeaveScope _ \<Rightarrow> 0) + opens t (past @ [e]) later"

fun closes :: "nat \<Rightarrow> lock_event list \<Rightarrow> nat" where
  "closes t [] = 0"
| "closes t (e # later) = (if e = LeaveScope t then 1 else 0) + closes t later"

definition still_open :: "nat \<Rightarrow> lock_event list \<Rightarrow> lock_event list \<Rightarrow> bool" where
  "still_open t past later \<longleftrightarrow> (\<forall>n \<le> length later. closes t (take n later) \<le> opens t past (take n later))"

definition holds :: "lock_event list \<Rightarrow> nat \<Rightarrow> string \<Rightarrow> bool" where
  "holds events t name \<longleftrightarrow>
     (\<exists>past strict loc later. events = past @ EnterScope strict t name loc # later \<and>
        granted past strict t name loc \<and> still_open t (past @ [EnterScope strict t name loc]) later)"

definition taken_inside :: "lock_event list \<Rightarrow> string \<Rightarrow> string \<Rightarrow> bool" where
  "taken_inside events outer inner \<longleftrightarrow>
     (\<exists>past strict t loc later. events = past @ EnterScope strict t inner loc # later \<and> holds past t outer)"

lemma opens_append: "opens t past (xs @ ys) = opens t past xs + opens t (past @ xs) ys"
  by (induction xs arbitrary: past) simp_all

lemma closes_append: "closes t (xs @ ys) = closes t xs + closes t ys"
  by (induction xs) simp_all

lemma run_locks_snoc: "run_locks (events @ [e]) = lock_step (run_locks events) e"
  by (simp add: run_locks_def)

lemma still_open_snoc:
  assumes "still_open t past later" "closes t (later @ [e]) \<le> opens t past (later @ [e])"
  shows "still_open t past (later @ [e])"
  using assms by (auto simp: still_open_def le_Suc_eq)

text \<open>The tracker's own stack: every entry belongs to an open scope, at the depth its position says.\<close>

definition scope_at :: "lock_event list \<Rightarrow> nat \<Rightarrow> nat \<Rightarrow> bool" where
  "scope_at events t i \<longleftrightarrow>
     (\<exists>past strict loc later. events = past @ EnterScope strict t (HELD (run_locks events) t ! i) loc # later \<and>
        granted past strict t (HELD (run_locks events) t ! i) loc \<and>
        still_open t (past @ [EnterScope strict t (HELD (run_locks events) t ! i) loc]) later \<and>
        length (HELD (run_locks events) t) + closes t later =
          Suc i + opens t (past @ [EnterScope strict t (HELD (run_locks events) t ! i) loc]) later)"

lemma held_after_enter:
  "HELD (snd (enter strict t' name loc s)) t =
     (if t' = t \<and> fst (enter strict t' name loc s) = Inr () then HELD s t @ [name] else HELD s t)"
  by (auto simp: enter_def Let_def split: prod.splits)

lemma scope_at_snoc:
  assumes "scope_at events t i" "i < length (HELD (run_locks (events @ [e])) t)" "i < length (HELD (run_locks events) t)"
  shows "scope_at (events @ [e]) t i"
proof -
  let ?name = "HELD (run_locks events) t ! i"
  obtain past strict loc later where scope: "events = past @ EnterScope strict t ?name loc # later"
      "granted past strict t ?name loc" "still_open t (past @ [EnterScope strict t ?name loc]) later"
      "length (HELD (run_locks events) t) + closes t later =
        Suc i + opens t (past @ [EnterScope strict t ?name loc]) later"
    using assms(1) unfolding scope_at_def by blast
  let ?past = "past @ [EnterScope strict t ?name loc]"
  note all = scope(1) [symmetric]
  have name: "HELD (run_locks (events @ [e])) t ! i = ?name"
    using assms(2,3) by (cases e) (auto simp: run_locks_snoc held_after_enter leave_def nth_append nth_butlast)
  have count: "length (HELD (run_locks (events @ [e])) t) + closes t (later @ [e]) =
      Suc i + opens t ?past (later @ [e])"
    using scope(4) assms(3)
    by (cases e) (auto simp: run_locks_snoc held_after_enter leave_def opens_append closes_append all)
  then have "closes t (later @ [e]) \<le> opens t ?past (later @ [e])" using assms(2) by linarith
  then have "still_open t ?past (later @ [e])" by (rule still_open_snoc [OF scope(3)])
  then show ?thesis
    unfolding scope_at_def name using scope(1,2) count
    by (intro exI [of _ past] exI [of _ strict] exI [of _ loc] exI [of _ "later @ [e]"]) simp
qed

lemma held_scopes: "i < length (HELD (run_locks events) t) \<Longrightarrow> scope_at events t i"
proof (induction events arbitrary: i rule: rev_induct)
  case Nil
  then show ?case by (simp add: run_locks_def tracker_init_def)
next
  case (snoc e events)
  show ?case
  proof (cases "i < length (HELD (run_locks events) t)")
    case True
    then show ?thesis using scope_at_snoc snoc by blast
  next
    case False
    then obtain strict name loc where e: "e = EnterScope strict t name loc" "granted events strict t name loc"
        "i = length (HELD (run_locks events) t)"
      using snoc.prems by (cases e) (auto simp: run_locks_snoc held_after_enter leave_def split: if_splits)
    then have "HELD (run_locks (events @ [e])) t = HELD (run_locks events) t @ [name]"
      by (simp add: run_locks_snoc held_after_enter)
    then show ?thesis
      unfolding scope_at_def using e
      by (intro exI [of _ events] exI [of _ strict] exI [of _ loc] exI [of _ "[]"]) (simp add: still_open_def)
  qed
qed

lemma held_is_open: "name \<in> set (HELD (run_locks events) t) \<Longrightarrow> holds events t name"
  unfolding in_set_conv_nth holds_def using held_scopes unfolding scope_at_def by blast

lemma rounds_observe:
  "dom (fst (foldl (enter_round name loc) (observed, inverted) outer)) =
     dom observed \<union> (\<lambda>held. (held, name)) ` set outer"
proof (induction outer arbitrary: observed inverted)
  case (Cons held outer)
  obtain o1 i1 where step: "enter_round name loc (observed, inverted) held = (o1, i1)" by fastforce
  then have "dom o1 = insert (held, name) (dom observed)"
    by (auto simp: enter_round_def Let_def split: if_splits option.splits)
  then show ?case using Cons.IH [of o1 i1] step by auto
qed simp

lemma enter_observes:
  "observed_lock_order (snd (enter strict t name loc s)) =
     observed_lock_order s \<union> (\<lambda>held. (held, name)) ` set (HELD s t)"
proof -
  obtain o1 i1 where r: "rounds name loc (OBSERVED s) (HELD s t) = (o1, i1)" by fastforce
  then have "dom o1 = dom (OBSERVED s) \<union> (\<lambda>held. (held, name)) ` set (HELD s t)"
    using rounds_observe [of name loc "OBSERVED s" "[]" "HELD s t"] by simp
  then show ?thesis using r by (simp add: enter_def Let_def observed_lock_order_def)
qed

lemma taken_inside_snoc: "taken_inside events a b \<Longrightarrow> taken_inside (events @ [e]) a b"
  unfolding taken_inside_def by (metis append.assoc append_Cons)

text \<open>The table of the tracker holds nothing that did not happen.\<close>

lemma observed_happened:
  "(a, b) \<in> observed_lock_order (run_locks events) \<Longrightarrow> taken_inside events a b"
proof (induction events rule: rev_induct)
  case Nil
  then show ?case by (simp add: run_locks_def tracker_init_def observed_lock_order_def)
next
  case (snoc e events)
  consider "(a, b) \<in> observed_lock_order (run_locks events)" |
    strict t loc where "e = EnterScope strict t b loc" "a \<in> set (HELD (run_locks events) t)"
    using snoc.prems
    by (cases e) (auto simp: run_locks_snoc enter_observes, simp add: observed_lock_order_def leave_def)
  then show ?case
  proof cases
    case 2
    then show ?thesis using held_is_open unfolding taken_inside_def by blast
  qed (use snoc.IH taken_inside_snoc in blast)
qed

text \<open>
  C33. And it is sound: every message in the report, in every run of any number of threads, names two locks
  that were really taken in both orders (or one that was taken again while it was held): some thread asked
  for the second while a scope of the first that it had entered was not yet left, and some thread asked for the
  first inside the second.
\<close>

theorem lock_order_report_sound:
  assumes "e \<in> INVERSIONS (run_locks events)"
  shows "\<exists>a b. taken_inside events a b \<and> taken_inside events b a \<and> contains_text e a \<and> contains_text e b"
proof -
  have "explained (OBSERVED (run_locks events)) e"
    using run_tracker_inv assms unfolding tracker_inv_def order_inv_def by blast
  then obtain a b where "(a, b) \<in> observed_lock_order (run_locks events)" "(b, a) \<in> observed_lock_order (run_locks events)"
      "contains_text e a" "contains_text e b"
    unfolding explained_def observed_lock_order_def using messages_name_their_locks by blast
  then show ?thesis using observed_happened by blast
qed

theorem lock_order_report_sound_witness:
  "\<exists>a b. taken_inside crossed_locks a b \<and> taken_inside crossed_locks b a \<and>
    contains_text (inversion_message ''SESSION_LEASE'' ''DB_CONNECTION'' ''b.rs:2'' ''a.rs:2'') a \<and>
    contains_text (inversion_message ''SESSION_LEASE'' ''DB_CONNECTION'' ''b.rs:2'' ''a.rs:2'') b"
proof (rule lock_order_report_sound)
  show "inversion_message ''SESSION_LEASE'' ''DB_CONNECTION'' ''b.rs:2'' ''a.rs:2''
    \<in> INVERSIONS (run_locks crossed_locks)"
    by (simp add: crossed_locks_def run_locks_def tracker_init_def enter_def enter_round_def
        leave_def Let_def)
qed

end
