(* ===== verification/Spool_Session.thy ===== *)
theory Spool_Session
  imports Session_State Rust_Text "HOL-Library.Word"
begin

text \<open>
  The client-side session of one query tab (\<^verbatim>\<open>src/db/session.rs\<close>): its SQL*Plus settings and bind
  variables, and the process-wide table that says which session spools to which file. The two
  statics of the source (\<^verbatim>\<open>NEXT_SPOOL_OWNER_ID\<close>, a 64-bit counter, and \<^verbatim>\<open>SPOOL_PATH_OWNERS\<close>) and the
  sessions alive are one \<open>process\<close> state; a program is a sequence of events on it, a session being
  dropped when its tab goes away or a reset replaces it. A path is its text and a bind's compiled
  values are texts, as in the source. The invariant, kept by every event, says that the table lists
  exactly the open spool files, so that no two tabs ever spool to one file.
\<close>

section \<open>Data\<close>

datatype BindDataType =
  NumberType | Varchar2Type "32 word" | DateType | TimestampType "8 word" | RefCursorType | ClobType

record CursorResult =
  cursor_columns :: "string list"
  cursor_rows :: "string list list"

datatype BindValue = Scalar "string option" | Cursor "CursorResult option"

record BindVar =
  bind_data_type :: BindDataType
  bind_value :: BindValue
  prompted :: bool

record ServerOutputConfig =
  server_output_enabled :: bool
  server_output_size :: "32 word"

record CompiledObject =
  compiled_owner :: "string option"
  compiled_object_type :: string
  compiled_name :: string

datatype ComputeMode = ComputeSum | ComputeCount

record ComputeConfig =
  compute_mode :: ComputeMode
  compute_label :: "string option"
  compute_of_column :: "string option"
  compute_on_column :: "string option"

type_synonym owner_id = "64 word"

record SessionState =
  session_db_type :: DatabaseType
  binds :: "string \<Rightarrow> BindVar option"
  displayed_cursor_binds :: "string set"
  define_vars :: "string \<Rightarrow> string option"
  column_new_values :: "string \<Rightarrow> string option"
  server_output :: ServerOutputConfig
  last_compiled :: "CompiledObject option"
  continue_on_error :: bool
  define_enabled :: bool
  define_char :: char
  concat_enabled :: bool
  concat_char :: char
  escape_enabled :: bool
  escape_char :: char
  scan_enabled :: bool
  verify_enabled :: bool
  echo_enabled :: bool
  timing_enabled :: bool
  feedback_enabled :: bool
  heading_enabled :: bool
  pagesize :: "32 word"
  linesize :: "32 word"
  trimspool_enabled :: bool
  trimout_enabled :: bool
  sqlblanklines_enabled :: bool
  tab_enabled :: bool
  colsep :: string
  null_text :: string
  break_column :: "string option"
  compute :: "ComputeConfig option"
  spool_path :: "string option"
  spool_truncate :: bool
  spool_owner :: owner_id
  mysql_delimiter :: "string option"

definition DEFAULT_NULL_TEXT :: string where "DEFAULT_NULL_TEXT = ''NULL''"

definition server_output_default :: ServerOutputConfig where
  "server_output_default = \<lparr>server_output_enabled = True, server_output_size = 1000000\<rparr>"

definition session_default :: "owner_id \<Rightarrow> SessionState" where
  "session_default owner =
     \<lparr>session_db_type = Oracle, binds = (\<lambda>_. None), displayed_cursor_binds = {},
      define_vars = (\<lambda>_. None), column_new_values = (\<lambda>_. None),
      server_output = server_output_default, last_compiled = None, continue_on_error = False,
      define_enabled = True, define_char = CHR ''&'', concat_enabled = True,
      concat_char = CHR ''.'', escape_enabled = False, escape_char = CHR 0x5C,
      scan_enabled = True, verify_enabled = False, echo_enabled = False, timing_enabled = False,
      feedback_enabled = True, heading_enabled = True, pagesize = 14, linesize = 80,
      trimspool_enabled = False, trimout_enabled = False, sqlblanklines_enabled = False,
      tab_enabled = True, colsep = '' | '', null_text = DEFAULT_NULL_TEXT, break_column = None,
      compute = None, spool_path = None, spool_truncate = False, spool_owner = owner,
      mysql_delimiter = None\<rparr>"

section \<open>Bind variables\<close>

definition bind_var_new :: "BindDataType \<Rightarrow> BindVar" where
  "bind_var_new data_type =
     \<lparr>bind_data_type = data_type,
      bind_value = (if data_type = RefCursorType then Cursor None else Scalar None),
      prompted = False\<rparr>"

definition bind_var_from_prompt :: "BindDataType \<Rightarrow> string option \<Rightarrow> BindVar" where
  "bind_var_from_prompt data_type v =
     \<lparr>bind_data_type = data_type,
      bind_value = (if data_type = RefCursorType then Cursor None else Scalar v),
      prompted = True\<rparr>"

section \<open>Operations on one session\<close>

definition set_connection_db_type :: "DatabaseType \<Rightarrow> SessionState \<Rightarrow> SessionState" where
  "set_connection_db_type db_type s =
     (let s = (if session_db_type s \<noteq> db_type
               then s\<lparr>define_enabled := (case db_type of Oracle \<Rightarrow> True | MySQL \<Rightarrow> False
                                           | MariaDB \<Rightarrow> False)\<rparr>
               else s)
      in s\<lparr>session_db_type := db_type\<rparr>)"

definition for_connection :: "owner_id \<Rightarrow> DatabaseType \<Rightarrow> SessionState" where
  "for_connection owner db_type = set_connection_db_type db_type (session_default owner)"

text \<open>
  The owners table, and the operations that take its lock for their whole body. \<open>claim_spool_path\<close>
  answers with the source's message when another session owns the path.
\<close>

type_synonym owners = "string \<Rightarrow> owner_id option"

definition claim_spool_path ::
    "string \<Rightarrow> bool \<Rightarrow> owners \<Rightarrow> SessionState \<Rightarrow> (string + unit) \<times> owners \<times> SessionState" where
  "claim_spool_path path trunc owners s =
     (if (case owners path of Some owner \<Rightarrow> owner \<noteq> spool_owner s | None \<Rightarrow> False) then
        (Inl (''Spool file is already in use by another query tab: '' @ path), owners, s)
      else
        (let owners = (case spool_path s of
                         Some previous \<Rightarrow>
                           (if previous \<noteq> path \<and> owners previous = Some (spool_owner s)
                            then owners(previous := None) else owners)
                       | None \<Rightarrow> owners);
             owners = owners(path \<mapsto> spool_owner s)
         in (Inr (), owners, s\<lparr>spool_path := Some path, spool_truncate := trunc\<rparr>)))"

definition clear_spool_path :: "owners \<Rightarrow> SessionState \<Rightarrow> owners \<times> SessionState" where
  "clear_spool_path owners s =
     (case spool_path s of
        Some path \<Rightarrow>
          (if owners path = Some (spool_owner s) then owners(path := None) else owners,
           s\<lparr>spool_path := None, spool_truncate := False\<rparr>)
      | None \<Rightarrow> (owners, s\<lparr>spool_truncate := False\<rparr>))"

definition drop_spool_owner :: "owner_id \<Rightarrow> owners \<Rightarrow> owners" where
  "drop_spool_owner owner owners = (\<lambda>p. if owners p = Some owner then None else owners p)"

section \<open>The process\<close>

record process =
  next_spool_owner_id :: owner_id
  spool_path_owners :: owners
  sessions :: "nat \<Rightarrow> SessionState option"

definition process_init :: process where
  "process_init = \<lparr>next_spool_owner_id = 1, spool_path_owners = (\<lambda>_. None), sessions = (\<lambda>_. None)\<rparr>"

datatype spool_event =
  NewTab nat DatabaseType
| ResetTab nat DatabaseType
| ClaimSpool nat string bool
| SpoolOff nat
| SetBackend nat DatabaseType
| DropTab nat

fun spool_step :: "process \<Rightarrow> spool_event \<Rightarrow> process" where
  "spool_step p (NewTab k db_type) =
     (case sessions p k of
        Some _ \<Rightarrow> p
      | None \<Rightarrow>
          p\<lparr>next_spool_owner_id := next_spool_owner_id p + 1,
            sessions := (sessions p)(k \<mapsto> for_connection (next_spool_owner_id p) db_type)\<rparr>)"
| "spool_step p (ResetTab k db_type) =
     (case sessions p k of
        None \<Rightarrow> p
      | Some s \<Rightarrow>
          p\<lparr>next_spool_owner_id := next_spool_owner_id p + 1,
            spool_path_owners := drop_spool_owner (spool_owner s) (spool_path_owners p),
            sessions := (sessions p)(k \<mapsto> for_connection (next_spool_owner_id p) db_type)\<rparr>)"
| "spool_step p (ClaimSpool k path trunc) =
     (case sessions p k of
        None \<Rightarrow> p
      | Some s \<Rightarrow>
          (let (_, owners, s) = claim_spool_path path trunc (spool_path_owners p) s
           in p\<lparr>spool_path_owners := owners, sessions := (sessions p)(k \<mapsto> s)\<rparr>))"
| "spool_step p (SpoolOff k) =
     (case sessions p k of
        None \<Rightarrow> p
      | Some s \<Rightarrow>
          (let (owners, s) = clear_spool_path (spool_path_owners p) s
           in p\<lparr>spool_path_owners := owners, sessions := (sessions p)(k \<mapsto> s)\<rparr>))"
| "spool_step p (SetBackend k db_type) =
     (case sessions p k of
        None \<Rightarrow> p
      | Some s \<Rightarrow> p\<lparr>sessions := (sessions p)(k \<mapsto> set_connection_db_type db_type s)\<rparr>)"
| "spool_step p (DropTab k) =
     (case sessions p k of
        None \<Rightarrow> p
      | Some s \<Rightarrow>
          p\<lparr>spool_path_owners := drop_spool_owner (spool_owner s) (spool_path_owners p),
            sessions := (sessions p)(k := None)\<rparr>)"

definition run_process :: "spool_event list \<Rightarrow> process" where
  "run_process events = foldl spool_step process_init events"

section \<open>The table lists exactly the open spool files\<close>

text \<open>
  What the table is about: every tab's owner id and the file it spools to. The invariant is stated
  over this view, so that its proofs do not see the other settings of a session.
\<close>

type_synonym tab_view = "nat \<Rightarrow> (owner_id \<times> string option) option"

definition tab_view :: "process \<Rightarrow> tab_view" where
  "tab_view p k = map_option (\<lambda>s. (spool_owner s, spool_path s)) (sessions p k)"

definition table_inv :: "nat \<Rightarrow> owner_id \<Rightarrow> owners \<Rightarrow> tab_view \<Rightarrow> bool" where
  "table_inv n nxt owners v \<longleftrightarrow>
     unat nxt \<le> Suc n \<and>
     (\<forall>k w f. v k = Some (w, f) \<longrightarrow> w < nxt) \<and>
     (\<forall>j k w f g. v j = Some (w, f) \<longrightarrow> v k = Some (w, g) \<longrightarrow> j = k) \<and>
     (\<forall>path w. owners path = Some w \<longleftrightarrow> (\<exists>k. v k = Some (w, Some path)))"

definition spool_inv :: "nat \<Rightarrow> process \<Rightarrow> bool" where
  "spool_inv n p = table_inv n (next_spool_owner_id p) (spool_path_owners p) (tab_view p)"

lemma table_invI:
  assumes "unat nxt \<le> Suc n" "\<And>k w f. v k = Some (w, f) \<Longrightarrow> w < nxt"
    and "\<And>j k w f g. v j = Some (w, f) \<Longrightarrow> v k = Some (w, g) \<Longrightarrow> j = k"
    and "\<And>path w. owners path = Some w \<longleftrightarrow> (\<exists>k. v k = Some (w, Some path))"
  shows "table_inv n nxt owners v"
  unfolding table_inv_def using assms by blast

lemma table_inv_bound: "table_inv n nxt owners v \<Longrightarrow> unat nxt \<le> Suc n"
  and table_inv_below: "table_inv n nxt owners v \<Longrightarrow> v k = Some (w, f) \<Longrightarrow> w < nxt"
  and table_inv_one: "table_inv n nxt owners v \<Longrightarrow> v j = Some (w, f) \<Longrightarrow> v k = Some (w, g) \<Longrightarrow> j = k"
  and table_inv_listed: "table_inv n nxt owners v \<Longrightarrow>
    owners path = Some w \<longleftrightarrow> (\<exists>k. v k = Some (w, Some path))"
  unfolding table_inv_def by blast+

lemma table_inv_fresh: "table_inv n nxt owners v \<Longrightarrow> v k \<noteq> Some (nxt, f)"
  using table_inv_below by (metis less_irrefl)

lemma table_inv_mono: "table_inv n nxt owners v \<Longrightarrow> n \<le> m \<Longrightarrow> table_inv m nxt owners v"
  unfolding table_inv_def by (meson Suc_le_mono le_trans)

text \<open>A tab that is gone takes its rows of the table with it.\<close>

lemma drop_spool_owner_iff:
  "drop_spool_owner owner owners path = Some w \<longleftrightarrow> owners path = Some w \<and> w \<noteq> owner"
  by (auto simp: drop_spool_owner_def)

lemma table_inv_removed:
  assumes inv: "table_inv n nxt owners v" and k: "v k = Some (w, f)"
  shows "table_inv n nxt (drop_spool_owner w owners) (v(k := None))"
proof (rule table_invI)
  have old: "(v(k := None)) j = Some y \<longleftrightarrow> j \<noteq> k \<and> v j = Some y" for j y by simp
  have others: "j \<noteq> k \<longleftrightarrow> x \<noteq> w" if "v j = Some (x, g)" for j x g
    using that k table_inv_one [OF inv k] by (metis option.inject prod.inject)
  show "x < nxt" if "(v(k := None)) j = Some (x, g)" for j x g
    using that [unfolded old] table_inv_below [OF inv] by blast
  show "i = j" if "(v(k := None)) i = Some (x, g)" "(v(k := None)) j = Some (x, h)" for i j x g h
    using that [unfolded old] table_inv_one [OF inv] by blast
  show "drop_spool_owner w owners path = Some x \<longleftrightarrow> (\<exists>j. (v(k := None)) j = Some (x, Some path))"
    for path x
    unfolding drop_spool_owner_iff table_inv_listed [OF inv] old using others by blast
qed (rule table_inv_bound [OF inv])

text \<open>A tab that is new to the table brings an owner no other tab has, and its own file.\<close>

lemma table_inv_added:
  assumes inv: "table_inv n nxt owners v" and free: "v k = None"
    and nxt': "unat nxt' \<le> Suc m" "nxt \<le> nxt'" "w < nxt'"
    and fresh: "\<And>j f. v j \<noteq> Some (w, f)"
    and unlisted: "\<And>path. f = Some path \<Longrightarrow> owners path = None"
  shows "table_inv m nxt' (case f of None \<Rightarrow> owners | Some path \<Rightarrow> owners(path \<mapsto> w))
    (v(k \<mapsto> (w, f)))"
proof (rule table_invI)
  let ?v = "v(k \<mapsto> (w, f))"
  have new: "?v j = Some y \<longleftrightarrow> j = k \<and> y = (w, f) \<or> v j = Some y" for j y
    using free by auto
  show "x < nxt'" if "?v j = Some (x, g)" for j x g
    using that [unfolded new] table_inv_below [OF inv, of j x g] nxt'(2,3)
    by (metis order.strict_trans2 prod.inject)
  show "i = j" if "?v i = Some (x, g)" "?v j = Some (x, h)" for i j x g h
    using that [unfolded new] fresh table_inv_one [OF inv] by (metis prod.inject)
  have "(case f of None \<Rightarrow> owners | Some path \<Rightarrow> owners(path \<mapsto> w)) q = Some x \<longleftrightarrow>
      owners q = Some x \<or> f = Some q \<and> x = w" for q x
    using unlisted by (auto split: option.splits)
  then show "(case f of None \<Rightarrow> owners | Some path \<Rightarrow> owners(path \<mapsto> w)) q = Some x \<longleftrightarrow>
      (\<exists>j. ?v j = Some (x, Some q))" for q x
    unfolding new table_inv_listed [OF inv] by blast
qed (rule nxt'(1))

section \<open>Every event keeps it\<close>

lemma for_connection_view [simp]:
  "spool_owner (for_connection owner db_type) = owner"
  "spool_path (for_connection owner db_type) = None"
  by (simp_all add: for_connection_def set_connection_db_type_def session_default_def Let_def)

lemma set_connection_db_type_view [simp]:
  "spool_owner (set_connection_db_type db_type s) = spool_owner s"
  "spool_path (set_connection_db_type db_type s) = spool_path s"
  by (simp_all add: set_connection_db_type_def Let_def)

lemma tab_view_update [simp]:
  "tab_view (p\<lparr>next_spool_owner_id := x\<rparr>) = tab_view p"
  "tab_view (p\<lparr>spool_path_owners := owners\<rparr>) = tab_view p"
  "tab_view (p\<lparr>sessions := (sessions q)(k := y)\<rparr>) =
     (tab_view q)(k := map_option (\<lambda>s. (spool_owner s, spool_path s)) y)"
  by (simp_all add: tab_view_def fun_eq_iff)

lemma tab_view_Some: "sessions p k = Some s \<Longrightarrow> tab_view p k = Some (spool_owner s, spool_path s)"
  and tab_view_None: "sessions p k = None \<Longrightarrow> tab_view p k = None"
  by (simp_all add: tab_view_def)

lemma next_owner:
  assumes "table_inv n nxt owners v" "n < 2 ^ 64 - 2"
  shows "unat (nxt + 1) \<le> Suc (Suc n)" and "nxt < nxt + 1"
proof -
  have "unat nxt + 1 < 2 ^ 64"
    using table_inv_bound [OF assms(1)] assms(2) by simp
  then have "unat (nxt + 1) = unat nxt + 1"
    by (simp add: unat_word_ariths)
  then show "unat (nxt + 1) \<le> Suc (Suc n)" "nxt < nxt + 1"
    using table_inv_bound [OF assms(1)] by (simp_all add: word_less_nat_alt)
qed

lemma table_inv_new_tab:
  assumes "table_inv n nxt owners v" "n < 2 ^ 64 - 2" "v k = None"
  shows "table_inv (Suc n) (nxt + 1) owners (v(k \<mapsto> (nxt, None)))"
  using table_inv_added [OF assms(1,3) next_owner(1) [OF assms(1,2)] less_imp_le
      [OF next_owner(2) [OF assms(1,2)]] next_owner(2) [OF assms(1,2)] table_inv_fresh [OF assms(1)],
      where f = None]
  by simp

text \<open>
  A claim or a release is the tab leaving the table and coming back with its own id: the two table
  updates of the source amount to that.
\<close>

lemma claim_as_return:
  assumes inv: "table_inv n nxt owners v" and s: "v k = Some (spool_owner s, spool_path s)"
    and claimed: "claim_spool_path path trunc owners s = (Inr (), owners', s')"
  shows "owners' = (drop_spool_owner (spool_owner s) owners)(path \<mapsto> spool_owner s)"
    and "drop_spool_owner (spool_owner s) owners path = None"
    and "s' = s\<lparr>spool_path := Some path, spool_truncate := trunc\<rparr>"
proof -
  have own: "owners q = Some (spool_owner s) \<longleftrightarrow> spool_path s = Some q" for q
    unfolding table_inv_listed [OF inv] using s table_inv_one [OF inv s]
    by (metis option.inject prod.inject)
  show "owners' = (drop_spool_owner (spool_owner s) owners)(path \<mapsto> spool_owner s)"
  proof (rule ext)
    fix q
    show "owners' q = ((drop_spool_owner (spool_owner s) owners)(path \<mapsto> spool_owner s)) q"
    proof (cases "spool_path s")
      case None
      then show ?thesis
        using claimed own [of q]
        by (auto simp: claim_spool_path_def drop_spool_owner_def Let_def split: if_split_asm)
    next
      case (Some previous)
      then have "owners previous = Some (spool_owner s)" using own by blast
      then show ?thesis
        using claimed own [of q] Some
        by (cases "q = previous")
          (auto simp: claim_spool_path_def drop_spool_owner_def Let_def split: if_split_asm)
    qed
  qed
  show "drop_spool_owner (spool_owner s) owners path = None"
    using claimed
    by (auto simp: claim_spool_path_def drop_spool_owner_def split: if_splits option.splits)
  show "s' = s\<lparr>spool_path := Some path, spool_truncate := trunc\<rparr>"
    using claimed by (simp add: claim_spool_path_def Let_def split: if_splits)
qed

lemma claim_refused:
  "claim_spool_path path trunc owners s = (Inl m, owners', s') \<Longrightarrow> owners' = owners \<and> s' = s"
  by (simp add: claim_spool_path_def Let_def split: if_splits)

lemma clear_as_return:
  assumes inv: "table_inv n nxt owners v" and s: "v k = Some (spool_owner s, spool_path s)"
  shows "fst (clear_spool_path owners s) = drop_spool_owner (spool_owner s) owners"
proof -
  have own: "owners q = Some (spool_owner s) \<longleftrightarrow> spool_path s = Some q" for q
    unfolding table_inv_listed [OF inv] using s table_inv_one [OF inv s]
    by (metis option.inject prod.inject)
  then show ?thesis
    by (auto simp: clear_spool_path_def drop_spool_owner_def fun_eq_iff split: option.splits)
qed

lemma clear_view:
  "spool_owner (snd (clear_spool_path owners s)) = spool_owner s"
  "spool_path (snd (clear_spool_path owners s)) = None"
  "spool_truncate (snd (clear_spool_path owners s)) = False"
  by (simp_all add: clear_spool_path_def split: option.splits)

lemma table_inv_return:
  assumes inv: "table_inv n nxt owners v" and k: "v k = Some (w, f)"
    and unlisted: "\<And>path. g = Some path \<Longrightarrow> drop_spool_owner w owners path = None"
  shows "table_inv n nxt (case g of None \<Rightarrow> drop_spool_owner w owners
    | Some path \<Rightarrow> (drop_spool_owner w owners)(path \<mapsto> w)) (v(k \<mapsto> (w, g)))"
proof -
  have gone: "(v(k := None)) j \<noteq> Some (w, h)" for j h
    using table_inv_one [OF inv k, of j h] by (cases "j = k") (simp, auto)
  have "(v(k := None))(k \<mapsto> (w, g)) = v(k \<mapsto> (w, g))" by simp
  with table_inv_added [OF table_inv_removed [OF inv k] fun_upd_same table_inv_bound [OF inv]
      order_refl table_inv_below [OF inv k] gone unlisted]
  show ?thesis by metis
qed

lemma spool_step_inv:
  assumes inv: "spool_inv n p" and room: "n < 2 ^ 64 - 2"
  shows "spool_inv (Suc n) (spool_step p e)"
proof -
  note inv = inv [unfolded spool_inv_def]
  note later = table_inv_mono [OF _ le_SucI [OF le_refl]]
  show ?thesis
  proof (cases e)
    case (NewTab k db_type)
    show ?thesis
      using table_inv_new_tab [OF inv room, of k] later [OF inv]
      by (cases "sessions p k") (simp_all add: NewTab spool_inv_def tab_view_None)
  next
    case (ResetTab k db_type)
    show ?thesis
    proof (cases "sessions p k")
      case (Some s)
      show ?thesis
        using table_inv_new_tab [OF table_inv_removed [OF inv tab_view_Some [OF Some]] room, of k]
        by (simp add: ResetTab Some spool_inv_def)
    qed (simp add: ResetTab spool_inv_def later [OF inv])
  next
    case (ClaimSpool k path trunc)
    show ?thesis
    proof (cases "sessions p k")
      case (Some s)
      obtain r owners' s' where claim:
        "claim_spool_path path trunc (spool_path_owners p) s = (r, owners', s')"
        using prod_cases3 by blast
      show ?thesis
      proof (cases r)
        case (Inl m)
        then have "owners' = spool_path_owners p" "s' = s"
          using claim claim_refused by blast+
        then show ?thesis
          using later [OF inv] claim Some tab_view_Some [OF Some]
          by (simp add: ClaimSpool spool_inv_def fun_upd_idem)
      next
        case (Inr u)
        with claim have "claim_spool_path path trunc (spool_path_owners p) s = (Inr (), owners', s')"
          by simp
        note c = claim_as_return [OF inv tab_view_Some [OF Some] this]
        from table_inv_return [OF inv tab_view_Some [OF Some], of "Some path"] c(2)
        show ?thesis
          using later claim Some c(1,3) by (simp add: ClaimSpool spool_inv_def)
      qed
    qed (simp add: ClaimSpool spool_inv_def later [OF inv])
  next
    case (SpoolOff k)
    show ?thesis
    proof (cases "sessions p k")
      case (Some s)
      from table_inv_return [OF inv tab_view_Some [OF Some], of None]
      show ?thesis
        using later clear_as_return [OF inv tab_view_Some [OF Some]]
        by (simp add: SpoolOff Some spool_inv_def split_beta clear_view)
    qed (simp add: SpoolOff spool_inv_def later [OF inv])
  next
    case (SetBackend k db_type)
    show ?thesis
    proof (cases "sessions p k")
      case (Some s)
      then show ?thesis
        using later [OF inv] tab_view_Some [OF Some]
        by (simp add: SetBackend spool_inv_def fun_upd_idem)
    qed (simp add: SetBackend spool_inv_def later [OF inv])
  next
    case (DropTab k)
    show ?thesis
    proof (cases "sessions p k")
      case (Some s)
      then show ?thesis
        using later [OF table_inv_removed [OF inv tab_view_Some [OF Some]]]
        by (simp add: DropTab spool_inv_def)
    qed (simp add: DropTab spool_inv_def later [OF inv])
  qed
qed

lemma run_spool_inv: "length events < 2 ^ 64 - 2 \<Longrightarrow> spool_inv (length events) (run_process events)"
proof (induction events rule: rev_induct)
  case Nil
  then show ?case
    by (simp add: run_process_def process_init_def spool_inv_def table_inv_def tab_view_def)
next
  case (snoc e events)
  then have "spool_inv (length events) (run_process events)" "length events < 2 ^ 64 - 2" by auto
  then show ?case by (simp add: run_process_def spool_step_inv del: spool_step.simps)
qed

section \<open>The properties\<close>

text \<open>
  C25. Two live query tabs that spool to the same file are the same tab, whatever sequence of tab
  openings, resets, claims, releases, backend switches and closings led there. The bound is the
  width of the owner counter: after 2 to the 64 constructed sessions an id would be given twice.
\<close>

theorem spool_files_are_exclusive:
  assumes "length events < 2 ^ 64 - 2"
    and "sessions (run_process events) j = Some s" "spool_path s = Some path"
    and "sessions (run_process events) k = Some t" "spool_path t = Some path"
  shows "j = k"
proof -
  let ?p = "run_process events"
  note inv = run_spool_inv [OF assms(1), unfolded spool_inv_def]
  have js: "tab_view ?p j = Some (spool_owner s, Some path)"
    and kt: "tab_view ?p k = Some (spool_owner t, Some path)"
    using assms(2-5) tab_view_Some by metis+
  then have "spool_path_owners ?p path = Some (spool_owner s)"
    "spool_path_owners ?p path = Some (spool_owner t)"
    using table_inv_listed [OF inv] by blast+
  then show ?thesis using table_inv_one [OF inv js, of k] kt by simp
qed

definition two_tab_run :: "spool_event list" where
  "two_tab_run =
     [NewTab 0 Oracle, NewTab 1 MySQL, ClaimSpool 0 ''a.log'' True, ClaimSpool 1 ''a.log'' False]"

theorem spool_files_are_exclusive_witness:
  "map_option spool_path (sessions (run_process two_tab_run) 0) = Some (Some ''a.log'') \<and>
   map_option spool_path (sessions (run_process two_tab_run) 1) = Some None"
proof -
  let ?p = "run_process two_tab_run"
  have len: "length two_tab_run < 2 ^ 64 - 2" by (simp add: two_tab_run_def)
  have first: "map_option spool_path (sessions ?p 0) = Some (Some ''a.log'')"
    by (simp add: two_tab_run_def run_process_def process_init_def claim_spool_path_def Let_def)
  then obtain s where s: "sessions ?p 0 = Some s" "spool_path s = Some ''a.log''" by auto
  have "\<exists>t. sessions ?p 1 = Some t \<and> spool_path t \<in> {None, Some ''a.log''}"
    by (simp add: two_tab_run_def run_process_def process_init_def claim_spool_path_def Let_def)
  then obtain t where t: "sessions ?p 1 = Some t" "spool_path t \<in> {None, Some ''a.log''}" by blast
  have "spool_path t \<noteq> Some ''a.log''"
    using spool_files_are_exclusive [OF len s t(1)] by auto
  with first t show ?thesis by auto
qed

text \<open>
  A tab's claim of a spool file is refused exactly when another live tab spools to that file,
  after any sequence of tab openings, resets, claims, releases, backend switches and closings: the
  owners table holds no stale row that would refuse a claim, and misses none that should. In
  particular \<^verbatim>\<open>SPOOL OFF\<close>, a reset and a closed tab free the path.
\<close>

lemma claim_refused_iff_another_tab_spools:
  assumes "length events < 2 ^ 64 - 2" "sessions (run_process events) k = Some s"
  shows "isl (fst (claim_spool_path path trunc (spool_path_owners (run_process events)) s)) \<longleftrightarrow>
    (\<exists>j t. j \<noteq> k \<and> sessions (run_process events) j = Some t \<and> spool_path t = Some path)"
    (is "?refused \<longleftrightarrow> ?used")
proof -
  let ?p = "run_process events"
  note inv = run_spool_inv [OF assms(1), unfolded spool_inv_def]
  note k = tab_view_Some [OF assms(2)]
  have "?refused \<longleftrightarrow> (\<exists>w. spool_path_owners ?p path = Some w \<and> w \<noteq> spool_owner s)"
    by (simp add: claim_spool_path_def Let_def split: option.split)
  also have "\<dots> \<longleftrightarrow> (\<exists>w j. tab_view ?p j = Some (w, Some path) \<and> w \<noteq> spool_owner s)"
    by (simp add: table_inv_listed [OF inv])
  also have "\<dots> \<longleftrightarrow> (\<exists>w j. tab_view ?p j = Some (w, Some path) \<and> j \<noteq> k)"
    using k table_inv_one [OF inv k] by (metis option.inject prod.inject)
  also have "\<dots> \<longleftrightarrow> ?used"
    by (auto simp: tab_view_def)
  finally show ?thesis .
qed

lemma claim_refused_iff_another_tab_spools_witness:
  "(case sessions (run_process two_tab_run) 1 of
      Some s \<Rightarrow> isl (fst (claim_spool_path ''a.log'' True
        (spool_path_owners (run_process two_tab_run)) s))
    | None \<Rightarrow> False)"
proof -
  let ?p = "run_process two_tab_run"
  have len: "length two_tab_run < 2 ^ 64 - 2" by (simp add: two_tab_run_def)
  have "\<exists>t. sessions ?p 1 = Some t"
    by (simp add: two_tab_run_def run_process_def process_init_def claim_spool_path_def Let_def)
  then obtain t where t: "sessions ?p 1 = Some t" by blast
  have "\<exists>s. sessions ?p 0 = Some s \<and> spool_path s = Some ''a.log''"
    by (simp add: two_tab_run_def run_process_def process_init_def claim_spool_path_def Let_def)
  then have "\<exists>j s. j \<noteq> 1 \<and> sessions ?p j = Some s \<and> spool_path s = Some ''a.log''"
    by (intro exI [of _ 0]) simp
  then show ?thesis
    using claim_refused_iff_another_tab_spools [OF len t, of "''a.log''" True] t by simp
qed

end
