(* ===== verification/Sql_Scan.thy ===== *)
theory Sql_Scan
  imports Rust_Text
begin

text \<open>
  The scanners of the SQL text layer (the second half of \<^verbatim>\<open>src/db/sql_classification.rs\<close>, with the
  helpers it takes from \<^verbatim>\<open>src/sql_text.rs\<close>). They walk a text by byte index: \<open>skip_ignored_span\<close> steps
  over a comment or a quoted string, and the word scanners read upper-case words outside of those.
  Every scanner is total: \<open>skip_ignored_span\<close> always moves forward, and that is the termination
  argument of all of them.
\<close>

section \<open>Bytes and comment starts\<close>

definition is_word_start :: "char \<Rightarrow> bool" where
  "is_word_start c \<longleftrightarrow> is_ascii_alphabetic c \<or> c = CHR ''_''"

definition is_word_part :: "char \<Rightarrow> bool" where
  "is_word_part c \<longleftrightarrow>
     is_ascii_alphabetic c \<or> is_ascii_digit c \<or> c = CHR ''_'' \<or> c = CHR ''$'' \<or> c = CHR ''#''"

definition is_identifier_byte :: "char \<Rightarrow> bool" where
  "is_identifier_byte c \<longleftrightarrow>
     is_ascii_alphabetic c \<or> is_ascii_digit c \<or> c = CHR ''_'' \<or> c = CHR ''$'' \<or> c = CHR ''#''"

definition is_mysql_hash_comment_start :: "string \<Rightarrow> nat \<Rightarrow> bool" where
  "is_mysql_hash_comment_start s idx \<longleftrightarrow>
     byte_at s idx = Some CHR ''#'' \<and> (idx = 0 \<or> \<not> is_identifier_byte (s ! (idx - 1)))"

definition is_mysql_dash_comment_start :: "string \<Rightarrow> nat \<Rightarrow> bool" where
  "is_mysql_dash_comment_start s idx =
     (if byte_at s idx \<noteq> Some CHR ''-'' \<or> byte_at s (idx + 1) \<noteq> Some CHR ''-'' then False
      else
        (case byte_at s (idx + 2) of
           None \<Rightarrow> True
         | Some b \<Rightarrow>
             if is_ascii_whitespace b \<or> is_ascii_control b then True
             else if b = CHR ''-'' then
               (case dropWhile ((=) CHR ''-'') (drop idx s) of
                  [] \<Rightarrow> True
                | b # _ \<Rightarrow> is_ascii_whitespace b \<or> is_ascii_control b)
             else False))"

definition is_mysql_executable_comment_start :: "string \<Rightarrow> nat \<Rightarrow> bool" where
  "is_mysql_executable_comment_start s idx \<longleftrightarrow>
     byte_at s idx = Some CHR ''/'' \<and> byte_at s (idx + 1) = Some CHR ''*'' \<and>
     (byte_at s (idx + 2) = Some CHR ''!'' \<or>
      byte_at s (idx + 2) = Some CHR ''M'' \<and> byte_at s (idx + 3) = Some CHR ''!'')"

text \<open>\<^verbatim>\<open>char::from\<close> reads a byte as Latin-1, where two more bytes are white space.\<close>

definition is_valid_q_quote_delimiter_byte :: "char \<Rightarrow> bool" where
  "is_valid_q_quote_delimiter_byte c \<longleftrightarrow>
     \<not> byte_between CHR 0x09 CHR 0x0D c \<and> c \<notin> {CHR 0x20, CHR 0x85, CHR 0xA0, CHR 0x27}"

definition q_quote_closing_byte :: "char \<Rightarrow> char" where
  "q_quote_closing_byte c =
     (if c = CHR ''['' then CHR '']''
      else if c = CHR ''('' then CHR '')''
      else if c = CHR ''{'' then CHR ''}''
      else if c = CHR ''<'' then CHR ''>''
      else c)"

section \<open>Ignored spans\<close>

definition after_line :: "string \<Rightarrow> nat \<Rightarrow> nat" where
  "after_line s idx =
     (let offset = length (takeWhile (\<lambda>c. c \<noteq> CHR 0x0A) (drop idx s))
      in if idx + offset < length s then idx + offset + 1 else length s)"

definition skip_comment :: "string \<Rightarrow> nat \<Rightarrow> bool \<Rightarrow> nat option" where
  "skip_comment s idx mysql_compatible_comments =
     (if (if mysql_compatible_comments then is_mysql_dash_comment_start s idx
          else byte_at s idx = Some CHR ''-'' \<and> byte_at s (idx + 1) = Some CHR ''-'')
      then Some (after_line s idx)
      else if byte_at s idx = Some CHR ''#'' then Some (after_line s idx)
      else if byte_at s idx = Some CHR ''/'' \<and> byte_at s (idx + 1) = Some CHR ''*'' then
        (case find_text (drop (idx + 2) s) ''*/'' of
           Some offset \<Rightarrow> Some (idx + 2 + offset + 2)
         | None \<Rightarrow> Some (length s))
      else None)"

function quoted_end :: "string \<Rightarrow> char \<Rightarrow> nat \<Rightarrow> nat" where
  "quoted_end s quote pos =
     (if pos < length s then
        (if s ! pos = CHR 0x5C then quoted_end s quote (pos + 2)
         else if s ! pos = quote then
           (if byte_at s (pos + 1) = Some quote then quoted_end s quote (pos + 2) else pos + 1)
         else quoted_end s quote (pos + 1))
      else length s)"
  by pat_completeness auto
termination by (relation "measure (\<lambda>(s, quote, pos). length s - pos)") auto

declare quoted_end.simps [simp del]

definition skip_quoted :: "string \<Rightarrow> nat \<Rightarrow> nat option" where
  "skip_quoted s idx =
     (case byte_at s idx of
        None \<Rightarrow> None
      | Some quote \<Rightarrow>
          if quote \<in> {CHR 0x27, CHR 0x22, CHR 0x60} then Some (quoted_end s quote (idx + 1)) else None)"

definition q_quote_prefix :: "string \<Rightarrow> nat \<Rightarrow> (nat \<times> char) option" where
  "q_quote_prefix s idx =
     (if 0 < idx \<and> is_word_part (s ! (idx - 1)) then None
      else
        (case byte_at s idx of
           None \<Rightarrow> None
         | Some b \<Rightarrow>
             if to_ascii_upper b = CHR ''Q'' \<and> byte_at s (idx + 1) = Some CHR 0x27 then
               (case byte_at s (idx + 2) of
                  Some delimiter \<Rightarrow>
                    if is_valid_q_quote_delimiter_byte delimiter then Some (3, delimiter) else None
                | None \<Rightarrow> None)
             else if to_ascii_upper b = CHR ''N'' \<and>
               map_option to_ascii_upper (byte_at s (idx + 1)) = Some CHR ''Q'' \<and>
               byte_at s (idx + 2) = Some CHR 0x27 then
               (case byte_at s (idx + 3) of
                  Some delimiter \<Rightarrow>
                    if is_valid_q_quote_delimiter_byte delimiter then Some (4, delimiter) else None
                | None \<Rightarrow> None)
             else None))"

function q_quote_end :: "string \<Rightarrow> char \<Rightarrow> nat \<Rightarrow> nat" where
  "q_quote_end s closing pos =
     (if pos + 1 < length s then
        (if s ! pos = closing \<and> s ! (pos + 1) = CHR 0x27 then pos + 2
         else q_quote_end s closing (pos + 1))
      else length s)"
  by pat_completeness auto
termination by (relation "measure (\<lambda>(s, closing, pos). length s - pos)") auto

declare q_quote_end.simps [simp del]

definition skip_q_quote :: "string \<Rightarrow> nat \<Rightarrow> nat option" where
  "skip_q_quote s idx =
     (case q_quote_prefix s idx of
        None \<Rightarrow> None
      | Some (prefix_len, delimiter) \<Rightarrow>
          Some (q_quote_end s (q_quote_closing_byte delimiter) (idx + prefix_len)))"

definition skip_ignored_span :: "string \<Rightarrow> nat \<Rightarrow> bool \<Rightarrow> nat option" where
  "skip_ignored_span s idx mysql_compatible_comments =
     (case skip_comment s idx mysql_compatible_comments of
        Some n \<Rightarrow> Some n
      | None \<Rightarrow> (case skip_q_quote s idx of Some n \<Rightarrow> Some n | None \<Rightarrow> skip_quoted s idx))"

section \<open>Every span moves the scanner forward\<close>

lemma byte_at_Some: "byte_at s i = Some c \<longleftrightarrow> i < length s \<and> s ! i = c"
  by (auto simp: byte_at_def)

lemma after_line_bounds: "idx < length s \<Longrightarrow> idx < after_line s idx \<and> after_line s idx \<le> length s"
  by (auto simp: after_line_def Let_def)

lemma find_text_Some:
  assumes "find_text hay needle = Some i"
  shows "take (length needle) (drop i hay) = needle" "i + length needle \<le> length hay"
proof -
  from assms show eq: "take (length needle) (drop i hay) = needle"
    by (auto simp: find_text_def find_Some_iff)
  from assms have "i \<le> length hay" by (auto simp: find_text_def find_Some_iff simp del: upt_Suc)
  with arg_cong [OF eq, of length] show "i + length needle \<le> length hay" by auto
qed

lemma skip_comment_bounds:
  assumes "skip_comment s idx m = Some n"
  shows "idx < n \<and> n \<le> length s"
proof -
  from assms have idx: "idx < length s"
    by (auto simp: skip_comment_def byte_at_Some is_mysql_dash_comment_start_def split: if_splits)
  show ?thesis
  proof (cases "n = after_line s idx")
    case True
    with idx after_line_bounds show ?thesis by simp
  next
    case False
    with assms idx find_text_Some(2) [of "drop (idx + 2) s" "''*/''"] show ?thesis
      by (auto simp: skip_comment_def split: if_splits option.splits)
  qed
qed

lemma quoted_end_bounds: "min pos (length s) \<le> quoted_end s quote pos \<and> quoted_end s quote pos \<le> length s"
  by (induction s quote pos rule: quoted_end.induct) (subst (1 2) quoted_end.simps, auto)

lemma skip_quoted_bounds:
  assumes "skip_quoted s idx = Some n" shows "idx < n \<and> n \<le> length s"
proof -
  from assms obtain quote where "idx < length s" "n = quoted_end s quote (idx + 1)"
    by (auto simp: skip_quoted_def byte_at_Some split: option.splits if_splits)
  with quoted_end_bounds [of "idx + 1" s quote] show ?thesis by auto
qed

lemma q_quote_end_bounds: "min pos (length s) \<le> q_quote_end s closing pos \<and> q_quote_end s closing pos \<le> length s"
  by (induction s closing pos rule: q_quote_end.induct) (subst (1 2) q_quote_end.simps, auto)

lemma skip_q_quote_bounds: 
  assumes "skip_q_quote s idx = Some n" shows "idx < n \<and> n \<le> length s"
proof -
  from assms obtain k d where p: "q_quote_prefix s idx = Some (k, d)"
    and n: "n = q_quote_end s (q_quote_closing_byte d) (idx + k)"
    by (auto simp: skip_q_quote_def split: option.splits)
  from p have "0 < k" "idx < length s"
    by (auto simp: q_quote_prefix_def byte_at_Some split: if_splits option.splits)
  with n q_quote_end_bounds [of "idx + k" s "q_quote_closing_byte d"] show ?thesis by auto
qed

lemma skip_ignored_span_bounds: "skip_ignored_span s idx m = Some n \<Longrightarrow> idx < n \<and> n \<le> length s"
  by (auto simp: skip_ignored_span_def split: option.splits
      dest: skip_comment_bounds skip_q_quote_bounds skip_quoted_bounds)

section \<open>Words\<close>

definition word_end :: "string \<Rightarrow> nat \<Rightarrow> nat" where
  "word_end s idx = idx + length (takeWhile is_word_part (drop idx s))"

lemma word_end_bounds: "idx \<le> length s \<Longrightarrow> idx \<le> word_end s idx \<and> word_end s idx \<le> length s"
  using length_takeWhile_le [of is_word_part "drop idx s"] by (simp add: word_end_def)

function top_level_word_loop :: "string \<Rightarrow> bool \<Rightarrow> nat \<Rightarrow> nat \<Rightarrow> (string \<times> nat \<times> nat) option" where
  "top_level_word_loop s mysql_compatible_comments depth idx =
     (if idx < length s then
        (case skip_ignored_span s idx mysql_compatible_comments of
           Some next \<Rightarrow> top_level_word_loop s mysql_compatible_comments depth next
         | None \<Rightarrow>
             if s ! idx = CHR ''('' then
               top_level_word_loop s mysql_compatible_comments (depth + 1) (idx + 1)
             else if s ! idx = CHR '')'' then
               top_level_word_loop s mysql_compatible_comments (depth - 1) (idx + 1)
             else if depth = 0 \<and> is_word_start (s ! idx) then
               (let after = word_end s (idx + 1)
                in Some (to_ascii_uppercase (slice s idx after), idx, after))
             else top_level_word_loop s mysql_compatible_comments depth (idx + 1))
      else None)"
  by pat_completeness auto
termination
  by (relation "measure (\<lambda>(s, m, depth, idx). length s - idx)")
    (auto dest!: skip_ignored_span_bounds)

declare top_level_word_loop.simps [simp del]

definition next_top_level_word :: "string \<Rightarrow> nat \<Rightarrow> bool \<Rightarrow> (string \<times> nat \<times> nat) option" where
  "next_top_level_word s idx mysql_compatible_comments =
     top_level_word_loop s mysql_compatible_comments 0 idx"

function next_word_any_depth :: "string \<Rightarrow> nat \<Rightarrow> bool \<Rightarrow> (string \<times> nat \<times> nat) option" where
  "next_word_any_depth s idx mysql_compatible_comments =
     (if idx < length s then
        (case skip_ignored_span s idx mysql_compatible_comments of
           Some next \<Rightarrow> next_word_any_depth s next mysql_compatible_comments
         | None \<Rightarrow>
             if is_word_start (s ! idx) then
               (let after = word_end s (idx + 1)
                in Some (to_ascii_uppercase (slice s idx after), idx, after))
             else next_word_any_depth s (idx + 1) mysql_compatible_comments)
      else None)"
  by pat_completeness auto
termination
  by (relation "measure (\<lambda>(s, idx, m). length s - idx)") (auto dest!: skip_ignored_span_bounds)

declare next_word_any_depth.simps [simp del]

text \<open>Both scanners answer the upper-case text of a word that lies at or after the index.\<close>

definition word_of_text :: "string \<Rightarrow> nat \<Rightarrow> string \<times> nat \<times> nat \<Rightarrow> bool" where
  "word_of_text s idx r \<longleftrightarrow>
     (case r of (w, start, after) \<Rightarrow>
        idx \<le> start \<and> start < after \<and> after \<le> length s \<and> w = to_ascii_uppercase (slice s start after) \<and>
        is_word_start (s ! start))"

lemma word_found:
  "idx < length s \<Longrightarrow> is_word_start (s ! idx) \<Longrightarrow>
    word_of_text s idx (to_ascii_uppercase (slice s idx (word_end s (idx + 1))), idx, word_end s (idx + 1))"
  using word_end_bounds [of "idx + 1" s] by (simp add: word_of_text_def)

lemma word_of_text_mono: "word_of_text s j r \<Longrightarrow> i \<le> j \<Longrightarrow> word_of_text s i r"
  by (auto simp: word_of_text_def split: prod.splits)

lemma top_level_word_loop_word: "top_level_word_loop s m depth idx = Some r \<Longrightarrow> word_of_text s idx r"
proof (induction s m depth idx rule: top_level_word_loop.induct)
  case (1 s m depth idx)
  note step = "1.prems" [unfolded top_level_word_loop.simps [of s m depth idx]]
  have idx: "idx < length s" using step by (auto split: if_splits)
  show ?case
  proof (cases "skip_ignored_span s idx m")
    case (Some n)
    with step idx "1.IH" have "word_of_text s n r" by auto
    then show ?thesis using skip_ignored_span_bounds [OF Some] by (auto intro: word_of_text_mono)
  next
    case None
    show ?thesis
    proof (cases "s ! idx \<noteq> CHR ''('' \<and> s ! idx \<noteq> CHR '')'' \<and> depth = 0 \<and> is_word_start (s ! idx)")
      case True
      with step idx None word_found [OF idx] show ?thesis by (simp add: Let_def)
    next
      case False
      with step idx None "1.IH" have "word_of_text s (idx + 1) r"
        by (auto split: if_splits)
      then show ?thesis by (rule word_of_text_mono) simp
    qed
  qed
qed

lemma next_top_level_word_word: "next_top_level_word s idx m = Some r \<Longrightarrow> word_of_text s idx r"
  unfolding next_top_level_word_def by (rule top_level_word_loop_word)

lemma next_word_any_depth_word: "next_word_any_depth s idx m = Some r \<Longrightarrow> word_of_text s idx r"
proof (induction s idx m rule: next_word_any_depth.induct)
  case (1 s idx m)
  note step = "1.prems" [unfolded next_word_any_depth.simps [of s idx m]]
  have idx: "idx < length s" using step by (auto split: if_splits)
  show ?case
  proof (cases "skip_ignored_span s idx m")
    case (Some n)
    with step idx "1.IH" have "word_of_text s n r" by auto
    then show ?thesis using skip_ignored_span_bounds [OF Some] by (auto intro: word_of_text_mono)
  next
    case None
    show ?thesis
    proof (cases "is_word_start (s ! idx)")
      case True
      with step idx None word_found [OF idx] show ?thesis by (simp add: Let_def)
    next
      case False
      with step idx None "1.IH" have "word_of_text s (idx + 1) r" by simp
      then show ?thesis by (rule word_of_text_mono) simp
    qed
  qed
qed

lemma next_top_level_word_bounds:
  "next_top_level_word s idx m = Some (w, start, after) \<Longrightarrow>
    idx \<le> start \<and> start < after \<and> after \<le> length s"
  by (drule next_top_level_word_word) (simp add: word_of_text_def)

lemma next_word_any_depth_bounds:
  "next_word_any_depth s idx m = Some (w, start, after) \<Longrightarrow>
    idx \<le> start \<and> start < after \<and> after \<le> length s"
  by (drule next_word_any_depth_word) (simp add: word_of_text_def)

function statement_words_from :: "string \<Rightarrow> bool \<Rightarrow> nat \<Rightarrow> string list" where
  "statement_words_from s mysql_compatible_comments idx =
     (case next_top_level_word s idx mysql_compatible_comments of
        None \<Rightarrow> []
      | Some (word, start, after_word) \<Rightarrow>
          word # statement_words_from s mysql_compatible_comments after_word)"
  by pat_completeness auto
termination
  by (relation "measure (\<lambda>(s, m, idx). length s - idx)") (auto dest!: next_top_level_word_bounds)

declare statement_words_from.simps [simp del]

definition statement_words :: "string \<Rightarrow> bool \<Rightarrow> string list" where
  "statement_words s mysql_compatible_comments = statement_words_from s mysql_compatible_comments 0"

section \<open>The words of a text are words\<close>

definition is_word :: "string \<Rightarrow> bool" where
  "is_word w \<longleftrightarrow> w \<noteq> [] \<and> is_word_start (hd w) \<and> list_all is_word_part w \<and> to_ascii_uppercase w = w"

lemma to_ascii_upper_word:
  "is_word_part c \<Longrightarrow> is_word_part (to_ascii_upper c)"
  "is_word_start c \<Longrightarrow> is_word_start (to_ascii_upper c)"
  "to_ascii_upper (to_ascii_upper c) = to_ascii_upper c"
proof -
  have "(of_char c :: nat) - 32 < 256" using nat_of_char_less_256 [of c] by linarith
  then have "(of_char (char_of ((of_char c :: nat) - 32)) :: nat) = of_char c - 32" by simp
  then show "is_word_part c \<Longrightarrow> is_word_part (to_ascii_upper c)"
    "is_word_start c \<Longrightarrow> is_word_start (to_ascii_upper c)"
    "to_ascii_upper (to_ascii_upper c) = to_ascii_upper c"
    by (auto simp: is_word_part_def is_word_start_def is_ascii_alphabetic_def is_ascii_digit_def
        byte_between_def to_ascii_upper_def)
qed

lemma is_word_upper:
  assumes "is_word_start c" "list_all is_word_part cs"
  shows "is_word (to_ascii_uppercase (c # cs))"
proof -
  have "is_word_part c" using assms(1) by (auto simp: is_word_start_def is_word_part_def)
  then show ?thesis
    using assms
    by (auto simp: is_word_def to_ascii_uppercase_def to_ascii_upper_word list_all_iff)
qed

lemma word_at_is_word:
  assumes "start < length s" "is_word_start (s ! start)"
  shows "is_word (to_ascii_uppercase (slice s start (word_end s (start + 1))))"
proof -
  have "slice s start (word_end s (start + 1)) = s ! start # takeWhile is_word_part (drop (Suc start) s)"
    by (simp add: word_end_def slice_def Cons_nth_drop_Suc [OF assms(1), symmetric] flip: takeWhile_eq_take)
  then show ?thesis
    using assms(2) by (auto intro!: is_word_upper simp: list_all_iff dest: set_takeWhileD)
qed

lemma top_level_word_is_word:
  "top_level_word_loop s m depth idx = Some r \<Longrightarrow> is_word (fst r)"
proof (induction s m depth idx rule: top_level_word_loop.induct)
  case (1 s m depth idx)
  note step = "1.prems" [unfolded top_level_word_loop.simps [of s m depth idx]]
  have idx: "idx < length s" using step by (auto split: if_splits)
  show ?case
  proof (cases "skip_ignored_span s idx m")
    case (Some n)
    with step idx "1.IH" show ?thesis by auto
  next
    case None
    with step idx "1.IH" word_at_is_word [OF idx] show ?thesis
      by (auto simp: Let_def split: if_splits)
  qed
qed

lemma statement_words_from_words: "list_all is_word (statement_words_from s m idx)"
proof (induction s m idx rule: statement_words_from.induct)
  case (1 s m idx)
  then show ?case
    by (subst statement_words_from.simps)
      (auto simp: next_top_level_word_def split: option.split dest: top_level_word_is_word)
qed

lemma statement_words_words: "list_all is_word (statement_words s m)"
  by (simp add: statement_words_def statement_words_from_words)

function words_any_depth_from :: "string \<Rightarrow> bool \<Rightarrow> nat \<Rightarrow> string list" where
  "words_any_depth_from s mysql_compatible_comments idx =
     (case next_word_any_depth s idx mysql_compatible_comments of
        None \<Rightarrow> []
      | Some (word, start, after_word) \<Rightarrow>
          word # words_any_depth_from s mysql_compatible_comments after_word)"
  by pat_completeness auto
termination
  by (relation "measure (\<lambda>(s, m, idx). length s - idx)") (auto dest!: next_word_any_depth_bounds)

declare words_any_depth_from.simps [simp del]

definition statement_words_any_depth :: "string \<Rightarrow> bool \<Rightarrow> string list" where
  "statement_words_any_depth s mysql_compatible_comments =
     words_any_depth_from s mysql_compatible_comments 0"

function find_top_level_word :: "string \<Rightarrow> nat \<Rightarrow> string \<Rightarrow> bool \<Rightarrow> nat option" where
  "find_top_level_word s idx expected mysql_compatible_comments =
     (case next_top_level_word s idx mysql_compatible_comments of
        None \<Rightarrow> None
      | Some (word, start, after_word) \<Rightarrow>
          if word = expected then Some start
          else find_top_level_word s after_word expected mysql_compatible_comments)"
  by pat_completeness auto
termination
  by (relation "measure (\<lambda>(s, idx, expected, m). length s - idx)")
    (auto dest!: next_top_level_word_bounds)

declare find_top_level_word.simps [simp del]

section \<open>White space, parentheses and statement ends\<close>

function skip_ws_and_comments :: "string \<Rightarrow> nat \<Rightarrow> bool \<Rightarrow> nat" where
  "skip_ws_and_comments s idx mysql_compatible_comments =
     (if idx < length s then
        (if is_ascii_whitespace (s ! idx)
         then skip_ws_and_comments s (idx + 1) mysql_compatible_comments
         else
           (case skip_comment s idx mysql_compatible_comments of
              Some next \<Rightarrow> skip_ws_and_comments s next mysql_compatible_comments
            | None \<Rightarrow> idx))
      else idx)"
  by pat_completeness auto
termination
  by (relation "measure (\<lambda>(s, idx, m). length s - idx)") (auto dest!: skip_comment_bounds)

declare skip_ws_and_comments.simps [simp del]

function balanced_parens_loop :: "string \<Rightarrow> bool \<Rightarrow> nat \<Rightarrow> nat \<Rightarrow> nat option" where
  "balanced_parens_loop s mysql_compatible_comments depth idx =
     (if idx < length s then
        (case skip_ignored_span s idx mysql_compatible_comments of
           Some next \<Rightarrow> balanced_parens_loop s mysql_compatible_comments depth next
         | None \<Rightarrow>
             if s ! idx = CHR ''('' then
               balanced_parens_loop s mysql_compatible_comments (depth + 1) (idx + 1)
             else if s ! idx = CHR '')'' then
               (if depth - 1 = 0 then Some (idx + 1)
                else balanced_parens_loop s mysql_compatible_comments (depth - 1) (idx + 1))
             else balanced_parens_loop s mysql_compatible_comments depth (idx + 1))
      else None)"
  by pat_completeness auto
termination
  by (relation "measure (\<lambda>(s, m, depth, idx). length s - idx)")
    (auto dest!: skip_ignored_span_bounds)

declare balanced_parens_loop.simps [simp del]

definition skip_balanced_parens :: "string \<Rightarrow> nat \<Rightarrow> bool \<Rightarrow> nat option" where
  "skip_balanced_parens s idx mysql_compatible_comments =
     (if byte_at s idx \<noteq> Some CHR ''('' then None
      else balanced_parens_loop s mysql_compatible_comments 0 idx)"

lemma skip_ws_forward: "idx \<le> skip_ws_and_comments s idx mysql"
proof (induction s idx mysql rule: skip_ws_and_comments.induct)
  case (1 s idx mysql)
  show ?case
  proof (cases "idx < length s \<and> \<not> is_ascii_whitespace (s ! idx)")
    case True
    then show ?thesis
      using 1 by (cases "skip_comment s idx mysql")
        (auto simp: skip_ws_and_comments.simps [of s idx] dest!: skip_comment_bounds)
  next
    case False
    with 1 show ?thesis by (auto simp: skip_ws_and_comments.simps [of s idx])
  qed
qed

lemma balanced_parens_loop_forward: "balanced_parens_loop s mysql d idx = Some n \<Longrightarrow> idx < n \<and> n \<le> length s"
proof (induction s mysql d idx rule: balanced_parens_loop.induct)
  case (1 s mysql d idx)
  note step = "1.prems" [unfolded balanced_parens_loop.simps [of s mysql d idx]]
  have idx: "idx < length s" using step by (auto split: if_splits)
  show ?case
  proof (cases "skip_ignored_span s idx mysql")
    case (Some k)
    with step idx "1.IH" have "k < n \<and> n \<le> length s" by auto
    with skip_ignored_span_bounds [OF Some] show ?thesis by simp
  next
    case None
    with step idx "1.IH" show ?thesis by (auto split: if_splits)
  qed
qed

lemma skip_balanced_parens_bounds: "skip_balanced_parens s idx mysql = Some n \<Longrightarrow> idx < n \<and> n \<le> length s"
  by (auto simp: skip_balanced_parens_def split: if_splits dest: balanced_parens_loop_forward)

function has_significant_sql_after :: "string \<Rightarrow> nat \<Rightarrow> bool \<Rightarrow> bool" where
  "has_significant_sql_after s idx mysql_compatible_comments =
     (if idx < length s then
        (if is_ascii_whitespace (s ! idx) \<or> s ! idx = CHR '';''
         then has_significant_sql_after s (idx + 1) mysql_compatible_comments
         else
           (case skip_comment s idx mysql_compatible_comments of
              Some next \<Rightarrow> has_significant_sql_after s next mysql_compatible_comments
            | None \<Rightarrow> True))
      else False)"
  by pat_completeness auto
termination
  by (relation "measure (\<lambda>(s, idx, m). length s - idx)") (auto dest!: skip_comment_bounds)

declare has_significant_sql_after.simps [simp del]

function multiple_statements_from :: "string \<Rightarrow> bool \<Rightarrow> nat \<Rightarrow> bool" where
  "multiple_statements_from s mysql_compatible_comments idx =
     (if idx < length s then
        (case skip_ignored_span s idx mysql_compatible_comments of
           Some next \<Rightarrow> multiple_statements_from s mysql_compatible_comments next
         | None \<Rightarrow>
             if s ! idx = CHR '';'' \<and> has_significant_sql_after s (idx + 1) mysql_compatible_comments
             then True
             else multiple_statements_from s mysql_compatible_comments (idx + 1))
      else False)"
  by pat_completeness auto
termination
  by (relation "measure (\<lambda>(s, m, idx). length s - idx)") (auto dest!: skip_ignored_span_bounds)

declare multiple_statements_from.simps [simp del]

definition contains_multiple_statements :: "string \<Rightarrow> bool \<Rightarrow> bool" where
  "contains_multiple_statements s mysql_compatible_comments =
     multiple_statements_from s mysql_compatible_comments 0"

function assignment_count_from :: "string \<Rightarrow> nat \<Rightarrow> nat \<Rightarrow> nat" where
  "assignment_count_from s idx n =
     (if idx < length s then
        (case skip_ignored_span s idx False of
           Some next \<Rightarrow> assignment_count_from s next n
         | None \<Rightarrow>
             assignment_count_from s (idx + 1)
               (if s ! idx = CHR ''='' \<and>
                   \<not> (0 < idx \<and> s ! (idx - 1) \<in> {CHR '':'', CHR ''!'', CHR ''>'', CHR ''<'', CHR ''=''}) \<and>
                   byte_at s (idx + 1) \<noteq> Some CHR ''=''
                then n + 1 else n))
      else n)"
  by pat_completeness auto
termination
  by (relation "measure (\<lambda>(s, idx, n). length s - idx)") (auto dest!: skip_ignored_span_bounds)

declare assignment_count_from.simps [simp del]

definition statement_assignment_count :: "string \<Rightarrow> nat" where
  "statement_assignment_count s = assignment_count_from s 0 0"

section \<open>The end of a PL/SQL block\<close>

definition oracle_skip_end_qualifier :: "string \<Rightarrow> nat \<Rightarrow> nat" where
  "oracle_skip_end_qualifier s after_end =
     (case next_top_level_word s after_end False of
        None \<Rightarrow> after_end
      | Some (word, start, after_word) \<Rightarrow>
          if word \<notin> {''IF'', ''LOOP'', ''CASE''} then after_end
          else if list_all is_ascii_whitespace (slice s after_end start) then after_word
          else after_end)"

lemma oracle_skip_end_qualifier_bounds:
  "after_end \<le> length s \<Longrightarrow>
    after_end \<le> oracle_skip_end_qualifier s after_end \<and> oracle_skip_end_qualifier s after_end \<le> length s"
  by (auto simp: oracle_skip_end_qualifier_def split: option.splits dest!: next_top_level_word_bounds)

text \<open>The shape in which the next function's termination conditions ask for progress.\<close>

lemma scan_step:
  "next_top_level_word s idx m = Some r \<Longrightarrow> (w, q) = r \<Longrightarrow> (start, after) = q \<Longrightarrow>
    length s - after < length s - idx"
  by (auto dest!: next_top_level_word_bounds)

lemma end_scan_step:
  "next_top_level_word s idx m = Some r \<Longrightarrow> (w, q) = r \<Longrightarrow> (start, after) = q \<Longrightarrow>
    length s - oracle_skip_end_qualifier s after < length s - idx"
  using oracle_skip_end_qualifier_bounds [of after s] by (auto dest!: next_top_level_word_bounds)

definition oracle_slash_is_line_terminator :: "string \<Rightarrow> nat \<Rightarrow> bool" where
  "oracle_slash_is_line_terminator s idx =
     (let line_before = rev (takeWhile (\<lambda>c. c \<noteq> CHR 0x0A) (rev (take idx s)));
          line_after = takeWhile (\<lambda>c. c \<noteq> CHR 0x0A) (drop (idx + 1) s)
      in trim line_before = [] \<and> trim line_after = [])"

function oracle_skip_plsql_block_terminator :: "string \<Rightarrow> nat \<Rightarrow> nat" where
  "oracle_skip_plsql_block_terminator s idx =
     (if idx < length s then
        (if is_ascii_whitespace (s ! idx) \<or> s ! idx = CHR '';'' \<or>
            s ! idx = CHR ''/'' \<and> oracle_slash_is_line_terminator s idx
         then oracle_skip_plsql_block_terminator s (idx + 1)
         else idx)
      else idx)"
  by pat_completeness auto
termination by (relation "measure (\<lambda>(s, idx). length s - idx)") auto

declare oracle_skip_plsql_block_terminator.simps [simp del]

text \<open>
  The loop of \<^verbatim>\<open>oracle_plsql_block_end_boundary\<close>, with its five variables; the two \<^verbatim>\<open>saturating_sub\<close> are
  the subtraction of natural numbers.
\<close>

function plsql_block_loop :: "string \<Rightarrow> nat \<Rightarrow> nat \<Rightarrow> nat \<Rightarrow> bool \<Rightarrow> bool \<Rightarrow> nat option" where
  "plsql_block_loop s idx top_depth local_declare_depth declare_waiting_for_body
      declare_local_subprogram_pending =
     (case next_top_level_word s idx False of
        None \<Rightarrow> None
      | Some (word, start, after_word) \<Rightarrow>
          if declare_waiting_for_body \<and> top_depth = 0 then
            (if 0 < local_declare_depth then
               (if word \<in> {''BEGIN'', ''CASE'', ''IF'', ''LOOP''} then
                  plsql_block_loop s after_word top_depth (local_declare_depth + 1)
                    declare_waiting_for_body declare_local_subprogram_pending
                else if word = ''END'' then
                  plsql_block_loop s (oracle_skip_end_qualifier s after_word) top_depth
                    (local_declare_depth - 1) declare_waiting_for_body
                    declare_local_subprogram_pending
                else
                  plsql_block_loop s after_word top_depth local_declare_depth
                    declare_waiting_for_body declare_local_subprogram_pending)
             else if word \<in> {''PROCEDURE'', ''FUNCTION''} then
               plsql_block_loop s after_word top_depth local_declare_depth
                 declare_waiting_for_body True
             else if word = ''BEGIN'' \<and> declare_local_subprogram_pending then
               plsql_block_loop s after_word top_depth 1 declare_waiting_for_body False
             else if word = ''BEGIN'' then
               plsql_block_loop s after_word 1 local_declare_depth False
                 declare_local_subprogram_pending
             else
               plsql_block_loop s after_word top_depth local_declare_depth
                 declare_waiting_for_body declare_local_subprogram_pending)
          else if word = ''BEGIN'' \<or> word \<in> {''CASE'', ''IF'', ''LOOP''} \<and> 0 < top_depth then
            plsql_block_loop s after_word (top_depth + 1) local_declare_depth
              declare_waiting_for_body declare_local_subprogram_pending
          else if word = ''END'' \<and> 0 < top_depth then
            (let after_end = oracle_skip_end_qualifier s after_word
             in if top_depth - 1 = 0 then Some (oracle_skip_plsql_block_terminator s after_end)
                else
                  plsql_block_loop s after_end (top_depth - 1) local_declare_depth
                    declare_waiting_for_body declare_local_subprogram_pending)
          else
            plsql_block_loop s after_word top_depth local_declare_depth
              declare_waiting_for_body declare_local_subprogram_pending)"
  by pat_completeness auto
termination
  by (relation "measure (\<lambda>(s, idx, _). length s - idx)", rule wf_measure;
      simp only: in_measure split_conv; erule (2) scan_step end_scan_step)

declare plsql_block_loop.simps [simp del]

definition oracle_plsql_block_end_boundary :: "string \<Rightarrow> nat option" where
  "oracle_plsql_block_end_boundary s =
     (case next_top_level_word s 0 False of
        None \<Rightarrow> None
      | Some (first_word, _) \<Rightarrow> plsql_block_loop s 0 0 0 (first_word = ''DECLARE'') False)"

definition oracle_plsql_block_has_trailing_statement :: "string \<Rightarrow> bool" where
  "oracle_plsql_block_has_trailing_statement s =
     (case oracle_plsql_block_end_boundary s of
        None \<Rightarrow> False
      | Some idx \<Rightarrow> has_significant_sql_after s idx False)"

end
