(* ===== verification/Utf8_Text.thy ===== *)
theory Utf8_Text
  imports Rust_Text
begin

text \<open>
  Characters and character boundaries of Rust's \<^verbatim>\<open>str\<close>, on the bytes of its UTF-8 encoding. Two questions of
  \<^verbatim>\<open>char\<close> about characters beyond ASCII (the Unicode tables of alphanumeric characters and of upper case)
  are the fields of \<open>char_tables\<close>, on the encoding of one character.
\<close>

record char_tables =
  non_ascii_alphanumeric :: "string \<Rightarrow> bool"
  non_ascii_uppercase :: "string \<Rightarrow> string"

text \<open>The tables of a text that is all ASCII never answer a question; these are the simplest ones.\<close>

definition ascii_tables :: char_tables where
  "ascii_tables = \<lparr>non_ascii_alphanumeric = (\<lambda>_. False), non_ascii_uppercase = (\<lambda>ch. ch)\<rparr>"

text \<open>The first character of a text, as its UTF-8 encoding.\<close>

definition utf8_len :: "char \<Rightarrow> nat" where
  "utf8_len c =
     (if (of_char c :: nat) < 0x80 then 1
      else if (of_char c :: nat) < 0xE0 then 2
      else if (of_char c :: nat) < 0xF0 then 3
      else 4)"

function text_chars :: "string \<Rightarrow> string list" where
  "text_chars [] = []"
| "text_chars (c # cs) = take (utf8_len c) (c # cs) # text_chars (drop (utf8_len c) (c # cs))"
  by pat_completeness auto
termination by (relation "measure length") (auto simp: utf8_len_def)

definition char_is_alphanumeric :: "char_tables \<Rightarrow> string \<Rightarrow> bool" where
  "char_is_alphanumeric tables ch =
     (case ch of
        [c] \<Rightarrow> is_ascii_alphabetic c \<or> is_ascii_digit c
      | _ \<Rightarrow> non_ascii_alphanumeric tables ch)"

definition char_is_whitespace :: "string \<Rightarrow> bool" where
  "char_is_whitespace ch \<longleftrightarrow> ch \<in> set white_space"

section \<open>Boundaries\<close>

definition is_continuation :: "char \<Rightarrow> bool" where
  "is_continuation c = byte_between CHR 0x80 CHR 0xBF c"

definition is_ascii :: "char \<Rightarrow> bool" where
  "is_ascii c \<longleftrightarrow> (of_char c :: nat) < 0x80"

text \<open>\<^verbatim>\<open>str::is_char_boundary\<close> and the checked slice \<^verbatim>\<open>str::get\<close>.\<close>

definition is_char_boundary :: "string \<Rightarrow> nat \<Rightarrow> bool" where
  "is_char_boundary s i \<longleftrightarrow> i = 0 \<or> i = length s \<or> i < length s \<and> \<not> is_continuation (s ! i)"

definition str_get :: "string \<Rightarrow> nat \<Rightarrow> nat \<Rightarrow> string option" where
  "str_get s a b =
     (if a \<le> b \<and> is_char_boundary s a \<and> is_char_boundary s b then Some (slice s a b) else None)"

text \<open>
  What the proofs use of the validity that every \<^verbatim>\<open>str\<close> has: a continuation byte follows another byte that is
  not ASCII.
\<close>

definition utf8_like :: "string \<Rightarrow> bool" where
  "utf8_like s \<longleftrightarrow> (\<forall>i < length s. is_continuation (s ! i) \<longrightarrow> 0 < i \<and> \<not> is_ascii (s ! (i - 1)))"

lemma is_continuation_not_ascii: "is_continuation c \<Longrightarrow> \<not> is_ascii c"
  by (simp add: is_continuation_def is_ascii_def byte_between_def)

lemma is_char_boundary_le: "is_char_boundary s i \<Longrightarrow> i \<le> length s"
  by (auto simp: is_char_boundary_def)

lemma is_char_boundary_ends [simp]: "is_char_boundary s 0" "is_char_boundary s (length s)"
  by (simp_all add: is_char_boundary_def)

lemma utf8_like_Nil [simp]: "utf8_like []"
  by (simp add: utf8_like_def)

lemma utf8_like_hd: "utf8_like s \<Longrightarrow> s \<noteq> [] \<Longrightarrow> \<not> is_continuation (hd s)"
  by (cases s) (auto simp: utf8_like_def)

lemma utf8_like_append:
  assumes "utf8_like s" "utf8_like t"
  shows "utf8_like (s @ t)"
  unfolding utf8_like_def
proof (intro allI impI)
  fix i assume i: "i < length (s @ t)" "is_continuation ((s @ t) ! i)"
  show "0 < i \<and> \<not> is_ascii ((s @ t) ! (i - 1))"
  proof (cases "i < length s")
    case True
    then show ?thesis using assms(1) i by (auto simp: utf8_like_def nth_append)
  next
    case False
    then have "i - length s < length t" "is_continuation (t ! (i - length s))" using i by (auto simp: nth_append)
    then have "0 < i - length s" "\<not> is_ascii (t ! (i - length s - 1))"
      using assms(2) unfolding utf8_like_def by blast+
    then show ?thesis by (auto simp: nth_append)
  qed
qed

lemma utf8_like_take: "utf8_like s \<Longrightarrow> utf8_like (take n s)"
  unfolding utf8_like_def by (auto simp: less_imp_diff_less)

lemma utf8_like_drop:
  assumes "utf8_like s" "is_char_boundary s n"
  shows "utf8_like (drop n s)"
  unfolding utf8_like_def
proof (intro allI impI)
  fix i assume i: "i < length (drop n s)" "is_continuation (drop n s ! i)"
  have "n + i < length s" "is_continuation (s ! (n + i))" using i by simp_all
  then have "0 < n + i" "\<not> is_ascii (s ! (n + i - 1))" using assms(1) unfolding utf8_like_def by blast+
  moreover have "i \<noteq> 0"
    using assms(2) i \<open>0 < n + i\<close> by (cases "i = 0") (auto simp: is_char_boundary_def)
  ultimately show "0 < i \<and> \<not> is_ascii (drop n s ! (i - 1))" using i by simp
qed

lemma utf8_like_slice: "utf8_like s \<Longrightarrow> is_char_boundary s a \<Longrightarrow> utf8_like (slice s a b)"
  by (simp add: slice_def utf8_like_take utf8_like_drop)

lemma boundary_after_ascii:
  assumes "utf8_like s" "0 < i" "i \<le> length s" "is_ascii (s ! (i - 1))"
  shows "is_char_boundary s i"
  using assms by (auto simp: utf8_like_def is_char_boundary_def)

text \<open>Moving an index back to a boundary: the greatest boundary that is not beyond it.\<close>

fun back_to_boundary :: "string \<Rightarrow> nat \<Rightarrow> nat" where
  "back_to_boundary s i = (if i > 0 \<and> \<not> is_char_boundary s i then back_to_boundary s (i - 1) else i)"

declare back_to_boundary.simps [simp del]

lemma back_to_boundary_at [simp]: "is_char_boundary s i \<Longrightarrow> back_to_boundary s i = i"
  by (simp add: back_to_boundary.simps)

lemma back_to_boundary_spec:
  "back_to_boundary s i \<le> i \<and> is_char_boundary s (back_to_boundary s i) \<and>
   (\<forall>j \<le> i. is_char_boundary s j \<longrightarrow> j \<le> back_to_boundary s i)"
proof (induction s i rule: back_to_boundary.induct)
  case (1 s i)
  show ?case
  proof (cases "i > 0 \<and> \<not> is_char_boundary s i")
    case True
    then have "back_to_boundary s i = back_to_boundary s (i - 1)"
      by (subst back_to_boundary.simps) simp
    then show ?thesis using 1 [OF True] True by (metis One_nat_def Suc_pred le_Suc_eq le_trans diff_le_self)
  next
    case False
    then have "is_char_boundary s i" by auto
    then show ?thesis by simp
  qed
qed

lemmas back_to_boundary_le = back_to_boundary_spec [THEN conjunct1]
lemmas back_to_boundary_boundary [simp] = back_to_boundary_spec [THEN conjunct2, THEN conjunct1]

lemma back_to_boundary_greatest: "is_char_boundary s j \<Longrightarrow> j \<le> i \<Longrightarrow> j \<le> back_to_boundary s i"
  using back_to_boundary_spec by blast

lemma back_to_boundary_mono: "i \<le> j \<Longrightarrow> back_to_boundary s i \<le> back_to_boundary s j"
  using back_to_boundary_greatest back_to_boundary_le back_to_boundary_boundary le_trans by metis

definition clamp_to_char_boundary :: "string \<Rightarrow> nat \<Rightarrow> nat" where
  "clamp_to_char_boundary s idx = back_to_boundary s (min idx (length s))"

lemma clamp_to_char_boundary_boundary [simp]: "is_char_boundary s (clamp_to_char_boundary s i)"
  by (simp add: clamp_to_char_boundary_def)

lemma clamp_to_char_boundary_at [simp]: "is_char_boundary s i \<Longrightarrow> clamp_to_char_boundary s i = i"
  using is_char_boundary_le [of s i] by (simp add: clamp_to_char_boundary_def min_absorb1)

lemma clamp_to_char_boundary_le: "clamp_to_char_boundary s i \<le> i" "clamp_to_char_boundary s i \<le> length s"
  using back_to_boundary_le [of s "min i (length s)"] by (simp_all add: clamp_to_char_boundary_def)

lemma clamp_to_char_boundary_min [simp]:
  "clamp_to_char_boundary s (min i (length s)) = clamp_to_char_boundary s i"
  by (simp add: clamp_to_char_boundary_def)

lemma clamp_to_char_boundary_mono: "i \<le> j \<Longrightarrow> clamp_to_char_boundary s i \<le> clamp_to_char_boundary s j"
  unfolding clamp_to_char_boundary_def by (rule back_to_boundary_mono) (simp add: min_le_iff_disj)

lemma clamp_to_char_boundary_greatest: "is_char_boundary s j \<Longrightarrow> j \<le> i \<Longrightarrow> j \<le> clamp_to_char_boundary s i"
  using clamp_to_char_boundary_mono [of j i s] by simp

section \<open>Valid texts\<close>

text \<open>
  The structure of valid UTF-8: every character has the length that its first byte announces, and its other
  bytes, and no first byte, are continuation bytes.
\<close>

definition char_ok :: "string \<Rightarrow> bool" where
  "char_ok ch \<longleftrightarrow> ch \<noteq> [] \<and> \<not> is_continuation (hd ch) \<and> length ch = utf8_len (hd ch) \<and> list_all is_continuation (tl ch)"

definition utf8_valid :: "string \<Rightarrow> bool" where
  "utf8_valid s = list_all char_ok (text_chars s)"

lemma utf8_len_pos [simp]: "0 < utf8_len c"
  by (simp add: utf8_len_def)

lemma concat_text_chars: "concat (text_chars s) = s"
  by (induction s rule: text_chars.induct) auto

lemma text_chars_append_char:
  assumes "char_ok ch"
  shows "text_chars (ch @ s) = ch # text_chars s"
proof -
  obtain c cs where ch: "ch = c # cs" "length (c # cs) = utf8_len c"
    using assms by (cases ch) (auto simp: char_ok_def)
  then have "take (utf8_len c) (c # cs @ s) = c # cs" "drop (utf8_len c) (c # cs @ s) = s"
    by (metis append_Cons append_eq_conv_conj)+
  then show ?thesis by (simp add: ch)
qed

lemma text_chars_concat: "list_all char_ok chs \<Longrightarrow> text_chars (concat chs) = chs"
  by (induction chs) (auto simp: text_chars_append_char)

lemma utf8_valid_concat: "list_all char_ok chs \<Longrightarrow> utf8_valid (concat chs)"
  by (simp add: utf8_valid_def text_chars_concat)

lemma utf8_valid_iff: "utf8_valid s \<longleftrightarrow> (\<exists>chs. list_all char_ok chs \<and> s = concat chs)"
  by (metis concat_text_chars utf8_valid_concat utf8_valid_def)

lemma utf8_valid_Nil [simp]: "utf8_valid []"
  by (simp add: utf8_valid_def)

lemma utf8_valid_append: "utf8_valid s \<Longrightarrow> utf8_valid t \<Longrightarrow> utf8_valid (s @ t)"
  unfolding utf8_valid_iff by (metis concat_append list_all_append)

text \<open>The boundaries of a valid text are the ends of its characters.\<close>

lemma boundary_splits_chars:
  assumes "list_all char_ok chs" "is_char_boundary (concat chs) n"
  shows "\<exists>k. take n (concat chs) = concat (take k chs) \<and> drop n (concat chs) = concat (drop k chs)"
  using assms
proof (induction chs arbitrary: n)
  case Nil
  then show ?case by auto
next
  case (Cons ch chs)
  have ch: "char_ok ch" "list_all char_ok chs" using Cons.prems(1) by simp_all
  show ?case
  proof (cases "n < length ch")
    case True
    have "n = 0"
    proof (rule ccontr)
      assume "n \<noteq> 0"
      then have "is_continuation (concat (ch # chs) ! n)"
        using True ch(1) by (cases ch) (auto simp: char_ok_def nth_append list_all_iff)
      then show False using Cons.prems(2) \<open>n \<noteq> 0\<close> True by (auto simp: is_char_boundary_def)
    qed
    then show ?thesis by (intro exI [of _ 0]) simp
  next
    case False
    have "is_char_boundary (concat chs) (n - length ch)"
      using Cons.prems(2) False by (auto simp: is_char_boundary_def nth_append)
    then obtain k where "take (n - length ch) (concat chs) = concat (take k chs)"
        "drop (n - length ch) (concat chs) = concat (drop k chs)"
      using Cons.IH [OF ch(2)] by blast
    then show ?thesis using False by (intro exI [of _ "Suc k"]) simp
  qed
qed

lemma char_end_is_boundary:
  assumes "list_all char_ok chs"
  shows "is_char_boundary (concat chs) (length (concat (take k chs)))"
proof (cases "concat (drop k chs)")
  case Nil
  then have "concat chs = concat (take k chs)" by (metis append_Nil2 append_take_drop_id concat_append)
  then show ?thesis by simp
next
  case (Cons c cs)
  have whole: "concat chs = concat (take k chs) @ c # cs" by (metis Cons append_take_drop_id concat_append)
  have "\<not> is_continuation c"
  proof (cases "drop k chs")
    case (Cons ch rest)
    then have "char_ok ch" using assms by (metis append_take_drop_id list_all_append list.pred_inject(2))
    then show ?thesis using \<open>concat (drop k chs) = c # cs\<close> Cons by (cases ch) (auto simp: char_ok_def)
  qed (use \<open>concat (drop k chs) = c # cs\<close> in simp)
  then show ?thesis by (simp add: whole is_char_boundary_def)
qed

lemma list_all_pieces: "list_all P xs \<Longrightarrow> list_all P (take k xs)" "list_all P xs \<Longrightarrow> list_all P (drop k xs)"
  by (auto simp: list_all_iff dest: in_set_takeD in_set_dropD)

lemma utf8_valid_pieces:
  assumes "utf8_valid s" "is_char_boundary s n"
  shows utf8_valid_take: "utf8_valid (take n s)"
    and utf8_valid_drop: "utf8_valid (drop n s)"
proof -
  have "list_all char_ok (text_chars s)" using assms(1) by (simp add: utf8_valid_def)
  then obtain k where "take n s = concat (take k (text_chars s))" "drop n s = concat (drop k (text_chars s))"
    using boundary_splits_chars [of "text_chars s" n] assms(2) by (auto simp: concat_text_chars)
  then show "utf8_valid (take n s)" "utf8_valid (drop n s)"
    using \<open>list_all char_ok (text_chars s)\<close> by (simp_all add: utf8_valid_concat list_all_pieces)
qed

lemma char_ok_utf8_like: "char_ok ch \<Longrightarrow> utf8_like ch"
  unfolding utf8_like_def
proof (intro allI impI)
  fix i assume ch: "char_ok ch" and i: "i < length ch" "is_continuation (ch ! i)"
  obtain c cs where cs: "ch = c # cs" using ch by (cases ch) (auto simp: char_ok_def)
  have "0 < i" using ch i(2) cs by (cases i) (auto simp: char_ok_def)
  moreover have "\<not> is_ascii (ch ! (i - 1))"
  proof (cases "i = 1")
    case True
    then have "utf8_len c \<noteq> 1" using ch i(1) cs by (simp add: char_ok_def)
    then show ?thesis using True cs by (simp add: utf8_len_def is_ascii_def split: if_splits)
  next
    case False
    then have "is_continuation (ch ! (i - 1))"
      using ch i(1) \<open>0 < i\<close> cs by (auto simp: char_ok_def list_all_length nth_Cons')
    then show ?thesis by (rule is_continuation_not_ascii)
  qed
  ultimately show "0 < i \<and> \<not> is_ascii (ch ! (i - 1))" by simp
qed

lemma utf8_valid_like: "utf8_valid s \<Longrightarrow> utf8_like s"
proof -
  have "list_all char_ok chs \<Longrightarrow> utf8_like (concat chs)" for chs
    by (induction chs) (simp_all add: utf8_like_append char_ok_utf8_like)
  then show "utf8_valid s \<Longrightarrow> utf8_like s" by (auto simp: utf8_valid_iff)
qed

end
