(* ===== verification/Sql_View.thy ===== *)
theory Sql_View
  imports Sql_Scan Session_State Utf8_Text
begin

text \<open>
  The view of a statement that every deciding reader takes (\<^verbatim>\<open>statement_reader_view\<close> and
  \<^verbatim>\<open>SqlStatementAnalysis\<close> of \<^verbatim>\<open>src/db/sql_classification.rs\<close>): leading comments are stripped, the
  executable comments of the MySQL family are expanded, MariaDB's \<^verbatim>\<open>SET STATEMENT ... FOR\<close> wrapper,
  block labels and opening parentheses are taken off, and the words of what is left are read.
\<close>

section \<open>Leading comments\<close>

datatype SqlClassificationProfile = OracleProfile | MySqlCompatible

fun classification_profile_for_db_type :: "DatabaseType \<Rightarrow> SqlClassificationProfile" where
  "classification_profile_for_db_type Oracle = OracleProfile"
| "classification_profile_for_db_type MySQL = MySqlCompatible"
| "classification_profile_for_db_type MariaDB = MySqlCompatible"

definition mysql_compatible_comments :: "SqlClassificationProfile \<Rightarrow> bool" where
  "mysql_compatible_comments profile \<longleftrightarrow> profile = MySqlCompatible"

text \<open>\<^verbatim>\<open>split_whitespace().next()\<close> of a text without leading white space.\<close>

fun until_white_space :: "string \<Rightarrow> string" where
  "until_white_space [] = []"
| "until_white_space (c # cs) =
     (if list_ex (starts_with (c # cs)) white_space then [] else c # until_white_space cs)"

definition is_sqlplus_remark_comment_line :: "string \<Rightarrow> bool" where
  "is_sqlplus_remark_comment_line line =
     (let first = to_ascii_uppercase (until_white_space (trim_start line))
      in first = ''REM'' \<or> first = ''REMARK'')"

definition is_sqlplus_comment_line :: "string \<Rightarrow> bool" where
  "is_sqlplus_comment_line line =
     (let trimmed = trim_start line
      in starts_with trimmed ''--'' \<or> starts_with trimmed ''#'' \<or>
         is_sqlplus_remark_comment_line trimmed)"

definition is_mysql_hash_comment_line :: "string \<Rightarrow> bool" where
  "is_mysql_hash_comment_line line = is_mysql_hash_comment_start (trim_start line) 0"

definition line_comment_starts :: "string \<Rightarrow> bool \<Rightarrow> bool" where
  "line_comment_starts line mysql =
     (if mysql then is_mysql_dash_comment_start line 0 \<or> is_mysql_hash_comment_start line 0
      else is_sqlplus_comment_line line \<or> is_mysql_hash_comment_line line)"

lemma length_strip_front: "length (strip_front ws s) \<le> length s"
proof (induction ws s rule: strip_front.induct)
  case (1 ws s)
  then show ?case
    by (subst strip_front.simps) (auto split: option.split intro: order_trans)
qed

lemma length_trim_start: "length (trim_start s) \<le> length s"
  by (simp add: trim_start_def length_strip_front)

lemma length_trim: "length (trim s) \<le> length s"
  using length_strip_front [of "map rev white_space" "rev (trim_start s)"] length_trim_start [of s]
  by (simp add: trim_def trim_end_def)

function strip_leading_comments_and_whitespace_with_mode :: "string \<Rightarrow> bool \<Rightarrow> string" where
  "strip_leading_comments_and_whitespace_with_mode s mysql =
     (let trimmed = trim_start s
      in if line_comment_starts trimmed mysql then
           (case find_text trimmed [CHR 0x0A] of
              Some line_end \<Rightarrow>
                strip_leading_comments_and_whitespace_with_mode (drop (line_end + 1) trimmed) mysql
            | None \<Rightarrow> [])
         else if starts_with trimmed ''/*'' \<and> \<not> is_mysql_executable_comment_start trimmed 0 then
           (case find_text trimmed ''*/'' of
              Some block_end \<Rightarrow>
                strip_leading_comments_and_whitespace_with_mode (drop (block_end + 2) trimmed) mysql
            | None \<Rightarrow> [])
         else trimmed)"
  by pat_completeness auto
termination
proof (relation "measure (\<lambda>(s, mysql). length s)", goal_cases)
  case (2 s mysql trimmed line_end)
  then show ?case using find_text_Some(2) [OF 2(3)] length_trim_start [of s] by simp
next
  case (3 s mysql trimmed block_end)
  then show ?case using find_text_Some(2) [OF 3(4)] length_trim_start [of s] by simp
qed simp

declare strip_leading_comments_and_whitespace_with_mode.simps [simp del]

definition strip_leading_comments_and_whitespace :: "string \<Rightarrow> string" where
  "strip_leading_comments_and_whitespace s = strip_leading_comments_and_whitespace_with_mode s False"

section \<open>Labels and parentheses\<close>

definition label_is_identifier :: "char_tables \<Rightarrow> string \<Rightarrow> bool" where
  "label_is_identifier tables name =
     (case strip_prefix [CHR 0x22] name of
        Some quoted \<Rightarrow>
          quoted \<noteq> [] \<and> last quoted = CHR 0x22 \<and>
          (let inner = butlast quoted
           in inner \<noteq> [] \<and> CHR 0x22 \<notin> set inner \<and> \<not> list_ex char_is_whitespace (text_chars inner))
      | None \<Rightarrow>
          list_all (\<lambda>ch. char_is_alphanumeric tables ch \<or> ch \<in> {''_'', ''$'', ''#''}) (text_chars name))"

definition strip_leading_plsql_block_label :: "char_tables \<Rightarrow> string \<Rightarrow> string option" where
  "strip_leading_plsql_block_label tables s =
     (case strip_prefix ''<<'' s of
        None \<Rightarrow> None
      | Some rest \<Rightarrow>
          (case find_text rest ''>>'' of
             None \<Rightarrow> None
           | Some label_end \<Rightarrow>
               (let name = trim (take label_end rest)
                in if name \<noteq> [] \<and> label_is_identifier tables name
                   then Some (drop (label_end + 2) rest) else None)))"

lemma strip_prefix_Some:
  "strip_prefix p s = Some t \<longleftrightarrow> s = p @ t"
proof
  assume "strip_prefix p s = Some t"
  then have "take (length p) s = p" "t = drop (length p) s"
    by (auto simp: strip_prefix_def starts_with_def split: if_splits)
  then show "s = p @ t" by (metis append_take_drop_id)
qed (simp add: strip_prefix_def starts_with_def)

lemma length_strip_leading_comments:
  "length (strip_leading_comments_and_whitespace_with_mode s mysql) \<le> length s"
proof (induction s mysql rule: strip_leading_comments_and_whitespace_with_mode.induct)
  case (1 s mysql)
  then show ?case
    using length_trim_start [of s]
    by (subst strip_leading_comments_and_whitespace_with_mode.simps)
      (fastforce simp: Let_def split: option.splits)
qed

lemma strip_label_shorter:
  assumes "strip_leading_plsql_block_label tables s = Some t"
  shows "length t < length s"
proof -
  from assms obtain rest e where "s = ''<<'' @ rest" "t = drop (e + 2) rest"
    by (auto simp: strip_leading_plsql_block_label_def Let_def strip_prefix_Some
        split: option.splits if_splits)
  then show ?thesis by simp
qed

function strip_leading_plsql_block_labels :: "char_tables \<Rightarrow> string \<Rightarrow> bool \<Rightarrow> string" where
  "strip_leading_plsql_block_labels tables s mysql =
     (case strip_leading_plsql_block_label tables s of
        Some after_label \<Rightarrow>
          strip_leading_plsql_block_labels tables
            (strip_leading_comments_and_whitespace_with_mode after_label mysql) mysql
      | None \<Rightarrow> s)"
  by pat_completeness auto
termination
  by (relation "measure (\<lambda>(tables, s, mysql). length s)")
    (auto dest!: strip_label_shorter intro: le_less_trans [OF length_strip_leading_comments])

declare strip_leading_plsql_block_labels.simps [simp del]

function open_parens_loop :: "string \<Rightarrow> bool \<Rightarrow> string" where
  "open_parens_loop remaining mysql =
     (case strip_prefix ''('' remaining of
        Some after_open \<Rightarrow>
          open_parens_loop (strip_leading_comments_and_whitespace_with_mode after_open mysql) mysql
      | None \<Rightarrow> remaining)"
  by pat_completeness auto
termination
  by (relation "measure (\<lambda>(s, mysql). length s)")
    (auto simp: strip_prefix_Some less_Suc_eq_le intro: length_strip_leading_comments)

declare open_parens_loop.simps [simp del]

definition strip_leading_open_parens :: "string \<Rightarrow> bool \<Rightarrow> string" where
  "strip_leading_open_parens s mysql =
     open_parens_loop (strip_leading_comments_and_whitespace_with_mode s mysql) mysql"

section \<open>Executable comments\<close>

definition mysql_executable_comment_span :: "string \<Rightarrow> nat \<Rightarrow> (nat \<times> nat \<times> nat) option" where
  "mysql_executable_comment_span s idx =
     (if \<not> is_mysql_executable_comment_start s idx then None
      else
        (let mark = (if byte_at s (idx + 2) = Some CHR ''!'' then idx + 3 else idx + 4);
             body_start = mark + length (takeWhile is_ascii_digit (drop mark s))
         in case find_text (drop body_start s) ''*/'' of
              None \<Rightarrow> None
            | Some offset \<Rightarrow> Some (body_start, body_start + offset, body_start + offset + 2)))"

lemma executable_comment_span_bounds:
  assumes "mysql_executable_comment_span s idx = Some (body_start, body_end, after)"
  shows "idx + 3 \<le> body_start" "body_start \<le> body_end" "after = body_end + 2" "after \<le> length s"
proof -
  from assms obtain offset where find: "find_text (drop body_start s) ''*/'' = Some offset"
    and e: "body_end = body_start + offset" "after = body_end + 2" "idx + 3 \<le> body_start"
    by (auto simp: mysql_executable_comment_span_def Let_def split: if_splits option.splits)
  from find_text_Some(2) [OF find] e
  show "idx + 3 \<le> body_start" "body_start \<le> body_end" "after = body_end + 2" "after \<le> length s"
    by simp_all
qed

lemma executable_comment_span_step:
  assumes "mysql_executable_comment_span s idx = Some (body_start, body_end, after)"
  shows "length s - after < length s - idx"
  using executable_comment_span_bounds [OF assms] by simp

function expand_loop :: "string \<Rightarrow> nat \<Rightarrow> nat \<Rightarrow> string \<Rightarrow> string" where
  "expand_loop s idx last_copied out =
     (if idx < length s then
        (case (case skip_q_quote s idx of Some n \<Rightarrow> Some n | None \<Rightarrow> skip_quoted s idx) of
           Some next \<Rightarrow> expand_loop s next last_copied out
         | None \<Rightarrow>
             (case mysql_executable_comment_span s idx of
                Some (body_start, body_end, after_comment) \<Rightarrow>
                  expand_loop s after_comment after_comment
                    (out @ slice s last_copied idx @ '' '' @ slice s body_start body_end @ '' '')
              | None \<Rightarrow> expand_loop s (idx + 1) last_copied out))
      else out @ drop last_copied s)"
  by pat_completeness auto
termination
  by (relation "measure (\<lambda>(s, idx, _). length s - idx)")
    (auto split: option.splits dest!: skip_q_quote_bounds skip_quoted_bounds
      dest: executable_comment_span_step)

declare expand_loop.simps [simp del]

definition mysql_sql_with_executable_comments_expanded :: "string \<Rightarrow> string" where
  "mysql_sql_with_executable_comments_expanded s = expand_loop s 0 0 []"

lemma length_slice: "b \<le> length s \<Longrightarrow> length (slice s a b) = b - a"
  by (auto simp: slice_def)

lemma length_expand_loop:
  assumes "last_copied \<le> idx"
  shows "length (expand_loop s idx last_copied out) \<le> length out + (length s - last_copied)"
  using assms
proof (induction s idx last_copied out rule: expand_loop.induct)
  case (1 s idx last_copied out)
  let ?skip = "case skip_q_quote s idx of Some n \<Rightarrow> Some n | None \<Rightarrow> skip_quoted s idx"
  show ?case
  proof (cases "idx < length s")
    case True
    show ?thesis
    proof (cases ?skip)
      case (Some n)
      then have "idx < n" by (auto split: option.splits dest: skip_q_quote_bounds skip_quoted_bounds)
      with Some True "1.IH" "1.prems"
      have "length (expand_loop s n last_copied out) \<le> length out + (length s - last_copied)" by simp
      with Some True show ?thesis by (simp add: expand_loop.simps [of s idx])
    next
      case None
      show ?thesis
      proof (cases "mysql_executable_comment_span s idx")
        case None': None
        with None True "1.IH" "1.prems" show ?thesis by (simp add: expand_loop.simps [of s idx])
      next
        case (Some r)
        obtain a b c where r: "r = (a, b, c)" by (cases r)
        note bounds = executable_comment_span_bounds [OF Some [unfolded r]]
        have "length (expand_loop s c c (out @ slice s last_copied idx @ '' '' @ slice s a b @ '' ''))
            \<le> length (out @ slice s last_copied idx @ '' '' @ slice s a b @ '' '') + (length s - c)"
          using "1.IH" True None Some r by auto
        also have "\<dots> \<le> length out + (length s - last_copied)"
          using bounds "1.prems" True by (simp add: length_slice)
        finally show ?thesis using True None Some r by (simp add: expand_loop.simps [of s idx])
      qed
    qed
  qed (simp add: expand_loop.simps [of s idx])
qed

lemma length_expanded: "length (mysql_sql_with_executable_comments_expanded s) \<le> length s"
  using length_expand_loop [of 0 0 s "[]"] by (simp add: mysql_sql_with_executable_comments_expanded_def)

section \<open>The reader's view\<close>

definition mysql_family_reader_view :: "string \<Rightarrow> string" where
  "mysql_family_reader_view s =
     mysql_sql_with_executable_comments_expanded (strip_leading_comments_and_whitespace_with_mode s True)"

definition statement_reader_view :: "DatabaseType \<Rightarrow> string \<Rightarrow> string" where
  "statement_reader_view db_type s =
     (case classification_profile_for_db_type db_type of
        MySqlCompatible \<Rightarrow> mysql_family_reader_view s
      | OracleProfile \<Rightarrow> strip_leading_comments_and_whitespace_with_mode s False)"

fun family_spells_a_set_statement_wrapper :: "DatabaseType \<Rightarrow> bool" where
  "family_spells_a_set_statement_wrapper MariaDB = True"
| "family_spells_a_set_statement_wrapper MySQL = False"
| "family_spells_a_set_statement_wrapper Oracle = False"

definition mariadb_set_statement_parts_from_prepared :: "string \<Rightarrow> (string \<times> string) option" where
  "mariadb_set_statement_parts_from_prepared s =
     (case next_top_level_word s 0 True of
        Some (set_token, _, after_set) \<Rightarrow>
          if set_token \<noteq> ''SET'' then None
          else
            (case next_top_level_word s after_set True of
               Some (statement_token, _, after_statement) \<Rightarrow>
                 if statement_token \<noteq> ''STATEMENT'' then None
                 else
                   (case find_top_level_word s after_statement ''FOR'' True of
                      Some for_start \<Rightarrow>
                        (let assignments = trim (slice s after_statement for_start);
                             inner_sql = trim (drop (for_start + 3) s)
                         in if inner_sql \<noteq> [] then Some (assignments, inner_sql) else None)
                    | None \<Rightarrow> None)
             | None \<Rightarrow> None)
      | None \<Rightarrow> None)"

definition mariadb_set_statement_inner_sql_from_prepared :: "string \<Rightarrow> string option" where
  "mariadb_set_statement_inner_sql_from_prepared s =
     map_option snd (mariadb_set_statement_parts_from_prepared s)"

definition mariadb_set_statement_inner_sql :: "string \<Rightarrow> string option" where
  "mariadb_set_statement_inner_sql s =
     mariadb_set_statement_inner_sql_from_prepared (mysql_family_reader_view s)"

definition mariadb_set_statement_assignments_sql :: "string \<Rightarrow> string option" where
  "mariadb_set_statement_assignments_sql s =
     (case mariadb_set_statement_parts_from_prepared (mysql_family_reader_view s) of
        Some (assignments, _) \<Rightarrow> if assignments \<noteq> [] then Some assignments else None
      | None \<Rightarrow> None)"

record MariadbSetStatementWrapper =
  wrapper_assignments :: string
  wrapper_inner :: string

definition mariadb_set_statement_wrapper ::
    "DatabaseType \<Rightarrow> string \<Rightarrow> MariadbSetStatementWrapper option" where
  "mariadb_set_statement_wrapper db_type s =
     (if \<not> family_spells_a_set_statement_wrapper db_type then None
      else
        map_option (\<lambda>(assignments, inner). \<lparr>wrapper_assignments = assignments, wrapper_inner = inner\<rparr>)
          (mariadb_set_statement_parts_from_prepared (statement_reader_view db_type s)))"

section \<open>The analysis of a statement\<close>

record SqlStatementAnalysis =
  stripped_sql :: string
  analysis_words :: "string list"
  has_multiple_statements :: bool

definition from_prepared_sql :: "char_tables \<Rightarrow> string \<Rightarrow> bool \<Rightarrow> SqlStatementAnalysis" where
  "from_prepared_sql tables s mysql =
     (let s = strip_leading_plsql_block_labels tables s mysql;
          s = strip_leading_open_parens s mysql
      in \<lparr>stripped_sql = s, analysis_words = statement_words s mysql,
          has_multiple_statements = contains_multiple_statements s mysql\<rparr>)"

definition new_with_options :: "char_tables \<Rightarrow> string \<Rightarrow> bool \<Rightarrow> bool \<Rightarrow> SqlStatementAnalysis" where
  "new_with_options tables s mysql expand_mysql_executable_comments =
     (let s = strip_leading_comments_and_whitespace_with_mode s mysql;
          s = (if expand_mysql_executable_comments
               then mysql_sql_with_executable_comments_expanded s else s)
      in from_prepared_sql tables s mysql)"

definition analysis_new :: "char_tables \<Rightarrow> string \<Rightarrow> SqlStatementAnalysis" where
  "analysis_new tables s = new_with_options tables s False False"

definition new_for_db_type :: "char_tables \<Rightarrow> DatabaseType \<Rightarrow> string \<Rightarrow> SqlStatementAnalysis" where
  "new_for_db_type tables db_type s =
     (let mysql = mysql_compatible_comments (classification_profile_for_db_type db_type);
          s = statement_reader_view db_type s;
          s = (if family_spells_a_set_statement_wrapper db_type
               then (case mariadb_set_statement_inner_sql_from_prepared s of
                       Some inner \<Rightarrow> inner | None \<Rightarrow> s)
               else s)
      in from_prepared_sql tables s mysql)"

section \<open>Nothing the view does makes a text longer\<close>

lemma length_statement_reader_view: "length (statement_reader_view db_type s) \<le> length s"
  by (cases db_type)
    (auto simp: statement_reader_view_def mysql_family_reader_view_def
      intro: length_strip_leading_comments order_trans [OF length_expanded])

lemma find_top_level_word_bounds:
  "find_top_level_word s idx expected m = Some n \<Longrightarrow> idx \<le> n \<and> n < length s"
proof (induction s idx expected m rule: find_top_level_word.induct)
  case (1 s idx expected m)
  from "1.prems" obtain w a b where w: "next_top_level_word s idx m = Some (w, a, b)"
    by (subst (asm) find_top_level_word.simps) (auto split: option.splits)
  note bounds = next_top_level_word_bounds [OF w]
  show ?case
  proof (cases "w = expected")
    case True
    with w bounds "1.prems" show ?thesis by (simp add: find_top_level_word.simps [of s idx])
  next
    case False
    with w "1.prems" have "find_top_level_word s b expected m = Some n"
      by (simp add: find_top_level_word.simps [of s idx])
    with "1.IH" w False have "b \<le> n \<and> n < length s" by auto
    with bounds show ?thesis by simp
  qed
qed

lemma set_statement_inner_shorter:
  assumes "mariadb_set_statement_parts_from_prepared s = Some (assignments, inner)"
  shows "length inner < length s"
proof -
  from assms obtain a n where n: "find_top_level_word s a ''FOR'' True = Some n"
    "inner = trim (drop (n + 3) s)"
    by (auto simp: mariadb_set_statement_parts_from_prepared_def Let_def
        split: option.splits if_splits)
  from find_top_level_word_bounds [OF n(1)] length_trim [of "drop (n + 3) s"] n(2)
  show ?thesis by (cases "length s") auto
qed

lemma length_strip_labels: "length (strip_leading_plsql_block_labels tables s mysql) \<le> length s"
proof (induction tables s mysql rule: strip_leading_plsql_block_labels.induct)
  case (1 tables s mysql)
  show ?case
  proof (cases "strip_leading_plsql_block_label tables s")
    case (Some t)
    with 1 strip_label_shorter [OF Some] length_strip_leading_comments [of t mysql] show ?thesis
      by (simp add: strip_leading_plsql_block_labels.simps [of tables s])
  qed (simp add: strip_leading_plsql_block_labels.simps [of tables s])
qed

lemma length_open_parens_loop: "length (open_parens_loop s mysql) \<le> length s"
proof (induction s mysql rule: open_parens_loop.induct)
  case (1 s mysql)
  show ?case
  proof (cases "strip_prefix ''('' s")
    case (Some t)
    with 1 length_strip_leading_comments [of t mysql]
    have "length (open_parens_loop (strip_leading_comments_and_whitespace_with_mode t mysql) mysql) \<le> length t"
      by (auto intro: order_trans)
    moreover have "length t \<le> length s" using Some by (simp add: strip_prefix_Some)
    ultimately show ?thesis using Some by (simp add: open_parens_loop.simps [of s])
  qed (simp add: open_parens_loop.simps [of s])
qed

lemma length_from_prepared: "length (stripped_sql (from_prepared_sql tables s mysql)) \<le> length s"
  using length_open_parens_loop length_strip_leading_comments length_strip_labels
  by (fastforce simp: from_prepared_sql_def Let_def strip_leading_open_parens_def intro: order_trans)

lemma length_new_for_db_type: "length (stripped_sql (new_for_db_type tables db_type s)) \<le> length s"
proof -
  have "length (case mariadb_set_statement_inner_sql_from_prepared v of Some inner \<Rightarrow> inner | None \<Rightarrow> v)
      \<le> length v" for v
    by (auto simp: mariadb_set_statement_inner_sql_from_prepared_def split: option.split
        dest!: set_statement_inner_shorter)
  then show ?thesis
    unfolding new_for_db_type_def Let_def
    by (intro order_trans [OF length_from_prepared])
      (auto intro: order_trans length_statement_reader_view)
qed

text \<open>
  The words that every question about a statement is asked of are words, whatever the text holds:
  upper-case, not empty, and made of word characters from a letter or an underscore on. A comparison with
  an upper-case keyword is therefore a comparison without case.
\<close>
lemma statement_words_are_words:
  "list_all is_word (analysis_words (new_for_db_type tables db_type s))"
  by (simp add: new_for_db_type_def from_prepared_sql_def Let_def statement_words_words)

end
