(* ===== verification/Sql_With.thy ===== *)
theory Sql_With
  imports Sql_View
begin

text \<open>
  Whether the main query of a \<^verbatim>\<open>WITH\<close> statement is a query (\<^verbatim>\<open>QueryExecutor::with_clause_starts_with_select\<close>
  of \<^verbatim>\<open>src/db/query/script.rs\<close>). It has a scanner of its own, with other rules for comments and quotes
  than the scanners of \<open>Sql_Scan\<close>, and a small state machine for the PL/SQL declarations that an Oracle
  \<^verbatim>\<open>WITH\<close> may hold.
\<close>

section \<open>Keywords\<close>

definition WITH_MAIN_QUERY_KEYWORDS :: "string list" where
  "WITH_MAIN_QUERY_KEYWORDS =
     [''WITH'', ''SELECT'', ''INSERT'', ''UPDATE'', ''DELETE'', ''MERGE'', ''CALL'', ''VALUES'', ''TABLE'',
      ''SEARCH'', ''CYCLE'']"

definition STATEMENT_HEAD_KEYWORDS :: "string list" where
  "STATEMENT_HEAD_KEYWORDS =
     [''DECLARE'', ''BEGIN'', ''WITH'', ''SELECT'', ''INSERT'', ''UPDATE'', ''DELETE'', ''MERGE'', ''CALL'',
      ''CREATE'', ''ALTER'', ''DROP'', ''TRUNCATE'', ''RENAME'', ''PURGE'', ''FLASHBACK'', ''RECOVER'',
      ''SAVEPOINT'', ''LOCK'', ''COMMIT'', ''ROLLBACK'', ''GRANT'', ''REVOKE'', ''VALUES'', ''TABLE'',
      ''EXPLAIN'', ''ANALYZE'', ''ADMINISTER'', ''ARCHIVE'', ''COMMENT'', ''SET'', ''SHOW'', ''USE'',
      ''DESCRIBE'', ''DESC'', ''EXEC'', ''EXECUTE'', ''VARIABLE'', ''VAR'', ''PRINT'', ''START'', ''STARTUP'',
      ''SPOOL'', ''DEFINE'', ''UNDEFINE'', ''CONNECT'', ''CONN'', ''DISCONNECT'', ''DISC'', ''WHENEVER'',
      ''STORE'', ''GET'', ''SAVE'', ''PROMPT'', ''RUN'', ''R'', ''REM'', ''REMARK'', ''ACCEPT'', ''PAUSE'',
      ''COLUMN'', ''BREAK'', ''CLEAR'', ''COMPUTE'', ''EXIT'', ''QUIT'', ''SHUTDOWN'', ''HOST'', ''TIMING'',
      ''TTITLE'', ''BTITLE'', ''REPHEADER'', ''REPFOOTER'', ''PASSWORD'', ''PASSW'', ''PASSWO'', ''PASSWOR'',
      ''AUDIT'', ''NOAUDIT'', ''ASSOCIATE'', ''DISASSOCIATE'']"

definition is_with_main_query_keyword :: "string \<Rightarrow> bool" where
  "is_with_main_query_keyword upper \<longleftrightarrow> upper \<in> set WITH_MAIN_QUERY_KEYWORDS"

definition is_statement_head_keyword :: "string \<Rightarrow> bool" where
  "is_statement_head_keyword upper \<longleftrightarrow>
     upper \<in> set STATEMENT_HEAD_KEYWORDS \<or>
     upper \<in> {''PASSW'', ''PASSWO'', ''PASSWOR'', ''PASSWORD''}"

definition is_identifier_start_byte :: "char \<Rightarrow> bool" where
  "is_identifier_start_byte c \<longleftrightarrow>
     is_ascii_alphabetic c \<or> c = CHR ''_'' \<or> c = CHR ''$'' \<or> c = CHR ''#''"

section \<open>The state of the scan\<close>

record with_state =
  depth :: nat
  in_with_plsql_declaration :: bool
  with_plsql_waiting_main_query :: bool
  with_plsql_block_depth :: nat
  with_plsql_pending_end :: bool
  with_plsql_starts_routine_body :: bool
  with_plsql_pending_routine_begin :: bool
  top_level_closed_paren_recently :: bool
  parenthesized_main_query_depth :: "nat option"
  q_quote_end_byte :: "char option"

definition with_start :: with_state where
  "with_start =
     \<lparr>depth = 0, in_with_plsql_declaration = False, with_plsql_waiting_main_query = False,
      with_plsql_block_depth = 0, with_plsql_pending_end = False,
      with_plsql_starts_routine_body = False, with_plsql_pending_routine_begin = False,
      top_level_closed_paren_recently = False, parenthesized_main_query_depth = None,
      q_quote_end_byte = None\<rparr>"

definition resolve_pending :: "with_state \<Rightarrow> with_state" where
  "resolve_pending st =
     (if with_plsql_pending_end st
      then st\<lparr>with_plsql_block_depth := with_plsql_block_depth st - 1, with_plsql_pending_end := False\<rparr>
      else st)"

section \<open>What a word does\<close>

definition declaration_token :: "string \<Rightarrow> with_state \<Rightarrow> with_state" where
  "declaration_token token st =
     (if token \<in> {''AS'', ''IS''} \<and> with_plsql_starts_routine_body st \<and> with_plsql_block_depth st = 0
      then st\<lparr>with_plsql_block_depth := 1, with_plsql_pending_routine_begin := True\<rparr>
      else if token \<in> {''BEGIN'', ''DECLARE'', ''CASE'', ''IF'', ''LOOP''} then
        (if token = ''BEGIN'' \<and> with_plsql_pending_routine_begin st \<and> with_plsql_block_depth st = 1
         then st\<lparr>with_plsql_pending_routine_begin := False\<rparr>
         else (resolve_pending st)
           \<lparr>with_plsql_block_depth := with_plsql_block_depth (resolve_pending st) + 1\<rparr>)
      else if token = ''END'' then st\<lparr>with_plsql_pending_end := True\<rparr>
      else if with_plsql_pending_end st \<and> token \<notin> {''CASE'', ''IF'', ''LOOP''} then resolve_pending st
      else st)"

definition open_declaration :: "bool \<Rightarrow> with_state \<Rightarrow> with_state" where
  "open_declaration starts_routine_body st =
     st\<lparr>in_with_plsql_declaration := True, with_plsql_waiting_main_query := False,
        with_plsql_block_depth := 0, with_plsql_pending_end := False,
        with_plsql_starts_routine_body := starts_routine_body,
        with_plsql_pending_routine_begin := False\<rparr>"

text \<open>A word either answers the question (\<open>Inl\<close>) or leaves a state to go on with.\<close>

definition with_token :: "string \<Rightarrow> with_state \<Rightarrow> bool + with_state" where
  "with_token token st =
     (if in_with_plsql_declaration st then Inr (declaration_token token st)
      else if token \<in> {''FUNCTION'', ''PROCEDURE''} then Inr (open_declaration True st)
      else if token \<in> {''PACKAGE'', ''TYPE''} then Inr (open_declaration False st)
      else if with_plsql_waiting_main_query st \<and> token \<in> {''SELECT'', ''VALUES'', ''TABLE''} then Inl True
      else if with_plsql_waiting_main_query st \<and> token \<in> {''INSERT'', ''UPDATE'', ''DELETE'', ''MERGE''}
      then Inl False
      else if with_plsql_waiting_main_query st \<and>
        is_statement_head_keyword token \<and> \<not> is_with_main_query_keyword token then Inl False
      else if token \<in> {''SELECT'', ''VALUES'', ''TABLE''} then Inl True
      else if token \<in> {''INSERT'', ''UPDATE'', ''DELETE'', ''MERGE''} then Inl False
      else Inr st)"

definition open_paren :: "with_state \<Rightarrow> with_state" where
  "open_paren st =
     (let st = (if depth st = 0 \<and>
                  (with_plsql_waiting_main_query st \<or> top_level_closed_paren_recently st) \<and>
                  parenthesized_main_query_depth st = None
                then st\<lparr>parenthesized_main_query_depth := Some 1\<rparr> else st)
      in st\<lparr>depth := depth st + 1\<rparr>)"

definition close_paren :: "with_state \<Rightarrow> with_state" where
  "close_paren st =
     (let st = (if depth st = 1 then st\<lparr>top_level_closed_paren_recently := True\<rparr> else st);
          st = st\<lparr>depth := depth st - 1\<rparr>
      in case parenthesized_main_query_depth st of
           Some wd \<Rightarrow> if depth st < wd then st\<lparr>parenthesized_main_query_depth := None\<rparr> else st
         | None \<Rightarrow> st)"

definition semicolon :: "with_state \<Rightarrow> with_state" where
  "semicolon st =
     (let st = resolve_pending st
      in if in_with_plsql_declaration st \<and> with_plsql_block_depth st = 0
         then st\<lparr>in_with_plsql_declaration := False, with_plsql_waiting_main_query := True,
                 with_plsql_starts_routine_body := False, with_plsql_pending_routine_begin := False\<rparr>
         else st)"

section \<open>Comments and quotes\<close>

definition line_comment_end :: "string \<Rightarrow> nat \<Rightarrow> nat" where
  "line_comment_end s pos = pos + length (takeWhile (\<lambda>c. c \<noteq> CHR 0x0A) (drop pos s))"

function block_comment_end :: "string \<Rightarrow> nat \<Rightarrow> nat" where
  "block_comment_end s pos =
     (if pos + 1 < length s then
        (if s ! pos = CHR ''*'' \<and> s ! (pos + 1) = CHR ''/'' then pos + 2
         else block_comment_end s (pos + 1))
      else pos)"
  by pat_completeness auto
termination by (relation "measure (\<lambda>(s, pos). length s - pos)") auto

declare block_comment_end.simps [simp del]

function doubled_quote_end :: "string \<Rightarrow> char \<Rightarrow> nat \<Rightarrow> nat" where
  "doubled_quote_end s quote pos =
     (if pos < length s then
        (if s ! pos = quote then
           (if byte_at s (pos + 1) = Some quote then doubled_quote_end s quote (pos + 2) else pos + 1)
         else doubled_quote_end s quote (pos + 1))
      else pos)"
  by pat_completeness auto
termination by (relation "measure (\<lambda>(s, quote, pos). length s - pos)") auto

declare doubled_quote_end.simps [simp del]

text \<open>The q-quote that starts at a position: the length of its opening and its closing byte.\<close>

definition with_q_quote :: "string \<Rightarrow> nat \<Rightarrow> (nat \<times> char) option" where
  "with_q_quote s pos =
     (case (if byte_at s pos \<in> {Some CHR ''n'', Some CHR ''N''} \<and>
               byte_at s (pos + 1) \<in> {Some CHR ''q'', Some CHR ''Q''} \<and> byte_at s (pos + 2) = Some CHR 0x27
            then (case byte_at s (pos + 3) of
                    Some delim \<Rightarrow>
                      if is_valid_q_quote_delimiter_byte delim
                      then Some (4, q_quote_closing_byte delim) else None
                  | None \<Rightarrow> None)
            else None) of
        Some r \<Rightarrow> Some r
      | None \<Rightarrow>
          if byte_at s pos \<in> {Some CHR ''q'', Some CHR ''Q''} \<and> byte_at s (pos + 1) = Some CHR 0x27
          then (case byte_at s (pos + 2) of
                  Some delim \<Rightarrow>
                    if is_valid_q_quote_delimiter_byte delim
                    then Some (3, q_quote_closing_byte delim) else None
                | None \<Rightarrow> None)
          else None)"

definition identifier_end :: "string \<Rightarrow> nat \<Rightarrow> nat" where
  "identifier_end s pos = pos + length (takeWhile is_identifier_byte (drop pos s))"

lemma with_q_quote_pos: "with_q_quote s pos = Some (k, b) \<Longrightarrow> 0 < k"
  by (auto simp: with_q_quote_def split: option.splits if_splits)

lemma with_ends_forward:
  "pos \<le> line_comment_end s pos" "pos \<le> block_comment_end s pos" "pos \<le> doubled_quote_end s quote pos"
  "pos \<le> identifier_end s pos"
proof -
  show "pos \<le> line_comment_end s pos" "pos \<le> identifier_end s pos"
    by (simp_all add: line_comment_end_def identifier_end_def)
  show "pos \<le> block_comment_end s pos"
    by (induction s pos rule: block_comment_end.induct) (subst block_comment_end.simps, auto)
  show "pos \<le> doubled_quote_end s quote pos"
    by (induction s quote pos rule: doubled_quote_end.induct) (subst doubled_quote_end.simps, auto)
qed

section \<open>The loop\<close>

definition at_query_depth :: "with_state \<Rightarrow> bool" where
  "at_query_depth st \<longleftrightarrow> depth st = 0 \<or> parenthesized_main_query_depth st = Some (depth st)"

text \<open>
  What stands at a position: the answer, or the position and the state to go on with. The order of the
  cases is the order of the tests in the source.
\<close>

definition with_step :: "string \<Rightarrow> with_state \<Rightarrow> nat \<Rightarrow> bool + with_state \<times> nat" where
  "with_step s st pos =
     (let b = s ! pos in
      case q_quote_end_byte st of
        Some end_b \<Rightarrow>
          if b = end_b \<and> byte_at s (pos + 1) = Some CHR 0x27
          then Inr (st\<lparr>q_quote_end_byte := None\<rparr>, pos + 2)
          else Inr (st, pos + 1)
      | None \<Rightarrow>
          if b = CHR ''-'' \<and> byte_at s (pos + 1) = Some CHR ''-'' then
            Inr (st, line_comment_end s (pos + 2))
          else if b = CHR ''/'' \<and> byte_at s (pos + 1) = Some CHR ''*'' then
            Inr (st, block_comment_end s (pos + 2))
          else
            (case with_q_quote s pos of
               Some (len, closing) \<Rightarrow> Inr (st\<lparr>q_quote_end_byte := Some closing\<rparr>, pos + len)
             | None \<Rightarrow>
                 if b = CHR 0x27 \<or> b = CHR 0x22 then Inr (st, doubled_quote_end s b (pos + 1))
                 else if b = CHR ''('' then Inr (open_paren st, pos + 1)
                 else if b = CHR '')'' then Inr (close_paren st, pos + 1)
                 else if b = CHR '';'' then Inr (semicolon st, pos + 1)
                 else if is_ascii_whitespace b then Inr (st, pos + 1)
                 else
                   (let st = st\<lparr>top_level_closed_paren_recently := False\<rparr>
                    in if at_query_depth st \<and> is_identifier_start_byte b then
                         (let after = identifier_end s (pos + 1)
                          in case with_token (to_ascii_uppercase (slice s pos after)) st of
                               Inl answer \<Rightarrow> Inl answer
                             | Inr st \<Rightarrow> Inr (st, after))
                       else Inr (st, pos + 1))))"

lemma with_step_forward:
  assumes "with_step s st pos = Inr (st', pos')"
  shows "pos < pos'"
proof -
  note fwd = with_ends_forward(1) [of "pos + 2" s] with_ends_forward(2) [of "pos + 2" s]
    with_ends_forward(3) [of "pos + 1" s] with_ends_forward(4) [of "pos + 1" s]
  have "\<And>k b. with_q_quote s pos = Some (k, b) \<Longrightarrow> pos < pos + k" using with_q_quote_pos by fastforce
  with assms fwd show ?thesis
    by (auto simp: with_step_def Let_def Suc_le_eq split: option.splits if_splits sum.splits)
qed

function with_loop :: "string \<Rightarrow> with_state \<Rightarrow> nat \<Rightarrow> bool" where
  "with_loop s st pos =
     (if pos < length s then
        (case with_step s st pos of
           Inl answer \<Rightarrow> answer
         | Inr (st, pos) \<Rightarrow> with_loop s st pos)
      else False)"
  by pat_completeness auto
termination
  by (relation "measure (\<lambda>(s, st, pos). length s - pos)") (auto dest!: with_step_forward)

declare with_loop.simps [simp del]

definition with_clause_starts_with_select :: "string \<Rightarrow> bool" where
  "with_clause_starts_with_select s = with_loop (strip_leading_comments_and_whitespace s) with_start 0"

end
