(* ===== verification/Sql_Set.thy ===== *)
theory Sql_Set
  imports Sql_View
begin

text \<open>
  Two kinds of statement whose body the classifier reads (\<^verbatim>\<open>src/db/sql_classification.rs\<close>): the
  assignment list of a \<^verbatim>\<open>SET\<close> statement, with the scope and the variable each assignment targets, and
  the single lock-function call of a MySQL \<^verbatim>\<open>DO\<close> statement.
\<close>

section \<open>The assignments of a SET statement\<close>

function assignments_loop :: "string \<Rightarrow> bool \<Rightarrow> nat \<Rightarrow> nat \<Rightarrow> nat \<Rightarrow> string list" where
  "assignments_loop s mysql depth assignment_start idx =
     (if idx < length s then
        (case skip_ignored_span s idx mysql of
           Some next \<Rightarrow> assignments_loop s mysql depth assignment_start next
         | None \<Rightarrow>
             if s ! idx = CHR ''('' then assignments_loop s mysql (depth + 1) assignment_start (idx + 1)
             else if s ! idx = CHR '')'' then
               assignments_loop s mysql (depth - 1) assignment_start (idx + 1)
             else if s ! idx = CHR '','' \<and> depth = 0 then
               slice s assignment_start idx # assignments_loop s mysql depth (idx + 1) (idx + 1)
             else assignments_loop s mysql depth assignment_start (idx + 1))
      else [drop assignment_start s])"
  by pat_completeness auto
termination
  by (relation "measure (\<lambda>(s, mysql, depth, start, idx). length s - idx)")
    (auto dest!: skip_ignored_span_bounds)

declare assignments_loop.simps [simp del]

definition set_statement_assignments :: "string \<Rightarrow> bool \<Rightarrow> string list option" where
  "set_statement_assignments s mysql =
     (case next_top_level_word s 0 mysql of
        None \<Rightarrow> None
      | Some (set_token, _, after_set) \<Rightarrow>
          if set_token \<noteq> ''SET'' then None else Some (assignments_loop s mysql 0 after_set after_set))"

section \<open>What an assignment targets\<close>

definition char_to_uppercase :: "char_tables \<Rightarrow> string \<Rightarrow> string" where
  "char_to_uppercase tables ch =
     (case ch of [c] \<Rightarrow> [to_ascii_upper c] | _ \<Rightarrow> non_ascii_uppercase tables ch)"

function normalize_loop :: "char_tables \<Rightarrow> string \<Rightarrow> bool \<Rightarrow> string \<Rightarrow> bool \<Rightarrow> nat \<Rightarrow> string" where
  "normalize_loop tables s mysql normalized pending_space idx =
     (if idx < length s then
        (case skip_ignored_span s idx mysql of
           Some next \<Rightarrow> normalize_loop tables s mysql normalized (normalized \<noteq> []) next
         | None \<Rightarrow>
             (let ch = take (utf8_len (s ! idx)) (drop idx s)
              in if char_is_whitespace ch then
                   normalize_loop tables s mysql normalized (normalized \<noteq> []) (idx + utf8_len (s ! idx))
                 else
                   normalize_loop tables s mysql
                     (normalized @ (if pending_space then '' '' else []) @ char_to_uppercase tables ch)
                     False (idx + utf8_len (s ! idx))))
      else normalized)"
  by pat_completeness auto
termination
  by (relation "measure (\<lambda>(tables, s, mysql, normalized, pending, idx). length s - idx)")
    (auto simp: utf8_len_def dest!: skip_ignored_span_bounds)

declare normalize_loop.simps [simp del]

definition normalize_set_assignment_target :: "char_tables \<Rightarrow> string \<Rightarrow> bool \<Rightarrow> string" where
  "normalize_set_assignment_target tables target mysql = normalize_loop tables target mysql [] False 0"

function target_loop :: "string \<Rightarrow> bool \<Rightarrow> nat \<Rightarrow> nat \<Rightarrow> nat option" where
  "target_loop s mysql depth idx =
     (if idx < length s then
        (case skip_ignored_span s idx mysql of
           Some next \<Rightarrow> target_loop s mysql depth next
         | None \<Rightarrow>
             if s ! idx = CHR ''('' then target_loop s mysql (depth + 1) (idx + 1)
             else if s ! idx = CHR '')'' then target_loop s mysql (depth - 1) (idx + 1)
             else if s ! idx = CHR ''='' \<and> depth = 0 then Some idx
             else if s ! idx = CHR '':'' \<and> depth = 0 \<and> byte_at s (idx + 1) = Some CHR ''='' then Some idx
             else target_loop s mysql depth (idx + 1))
      else None)"
  by pat_completeness auto
termination
  by (relation "measure (\<lambda>(s, mysql, depth, idx). length s - idx)")
    (auto dest!: skip_ignored_span_bounds)

declare target_loop.simps [simp del]

definition set_assignment_target :: "char_tables \<Rightarrow> string \<Rightarrow> bool \<Rightarrow> string option" where
  "set_assignment_target tables assignment mysql =
     map_option (\<lambda>idx. normalize_set_assignment_target tables (take idx assignment) mysql)
       (target_loop assignment mysql 0 0)"

definition normalized_set_target_is_global_or_persist_scope :: "string \<Rightarrow> bool" where
  "normalized_set_target_is_global_or_persist_scope target \<longleftrightarrow>
     list_ex (starts_with target)
       [''GLOBAL '', ''PERSIST '', ''PERSIST_ONLY '', ''@@GLOBAL.'', ''@@PERSIST.'', ''@@PERSIST_ONLY.'']"

text \<open>The variable that a session-scoped target names.\<close>

definition without_session_scope :: "string \<Rightarrow> string" where
  "without_session_scope target =
     (if starts_with target ''SESSION '' then drop 8 target
      else if starts_with target ''LOCAL '' then drop 6 target
      else if starts_with target ''@@SESSION.'' then drop 10 target
      else if starts_with target ''@@LOCAL.'' then drop 8 target
      else if starts_with target ''@@'' then drop 2 target
      else target)"

definition is_user_variable_target :: "string \<Rightarrow> bool" where
  "is_user_variable_target target \<longleftrightarrow> starts_with target ''@'' \<and> \<not> starts_with target ''@@''"

definition normalized_set_target_is_transaction_control :: "string \<Rightarrow> bool" where
  "normalized_set_target_is_transaction_control target \<longleftrightarrow>
     \<not> is_user_variable_target target \<and> \<not> normalized_set_target_is_global_or_persist_scope target \<and>
     without_session_scope target \<in>
       {''AUTOCOMMIT'', ''TRANSACTION_ISOLATION'', ''TX_ISOLATION'', ''TRANSACTION_READ_ONLY'',
        ''TX_READ_ONLY''}"

definition normalized_set_target_is_named_session_variable :: "string \<Rightarrow> string list \<Rightarrow> bool" where
  "normalized_set_target_is_named_session_variable target variable_names =
     (let target = (if starts_with target ''STATEMENT '' then drop 10 target else target)
      in \<not> is_user_variable_target target \<and> \<not> normalized_set_target_is_global_or_persist_scope target \<and>
         without_session_scope target \<in> set variable_names)"

definition set_assignment_targets_transaction_control :: "char_tables \<Rightarrow> string \<Rightarrow> bool \<Rightarrow> bool" where
  "set_assignment_targets_transaction_control tables assignment mysql =
     (case set_assignment_target tables assignment mysql of
        None \<Rightarrow> False | Some target \<Rightarrow> normalized_set_target_is_transaction_control target)"

definition set_assignment_targets_global_or_persist_scope :: "char_tables \<Rightarrow> string \<Rightarrow> bool \<Rightarrow> bool" where
  "set_assignment_targets_global_or_persist_scope tables assignment mysql =
     (case set_assignment_target tables assignment mysql of
        None \<Rightarrow> False | Some target \<Rightarrow> normalized_set_target_is_global_or_persist_scope target)"

definition set_assignment_targets_session_variable ::
    "char_tables \<Rightarrow> string \<Rightarrow> bool \<Rightarrow> string list \<Rightarrow> bool" where
  "set_assignment_targets_session_variable tables assignment mysql variable_names =
     (case set_assignment_target tables assignment mysql of
        None \<Rightarrow> False
      | Some target \<Rightarrow> normalized_set_target_is_named_session_variable target variable_names)"

section \<open>Questions about the whole statement\<close>

text \<open>
  The walk of \<^verbatim>\<open>mysql_set_statement_assigns_session_variable\<close> is the one of
  \<^verbatim>\<open>set_statement_assignments\<close>, with the test on each piece.
\<close>

definition mysql_set_statement_assigns_session_variable ::
    "char_tables \<Rightarrow> string \<Rightarrow> string list \<Rightarrow> bool" where
  "mysql_set_statement_assigns_session_variable tables s variable_names =
     (case set_statement_assignments s True of
        None \<Rightarrow> False
      | Some assignments \<Rightarrow>
          list_ex (\<lambda>a. set_assignment_targets_session_variable tables a True variable_names) assignments)"

definition set_sql_contains_transaction_control_assignment :: "char_tables \<Rightarrow> string \<Rightarrow> bool \<Rightarrow> bool" where
  "set_sql_contains_transaction_control_assignment tables s mysql =
     (case set_statement_assignments s mysql of
        None \<Rightarrow> False
      | Some assignments \<Rightarrow>
          list_ex (\<lambda>a. set_assignment_targets_transaction_control tables a mysql) assignments)"

definition set_sql_is_global_transaction_statement :: "string \<Rightarrow> bool \<Rightarrow> bool" where
  "set_sql_is_global_transaction_statement s mysql \<longleftrightarrow>
     take 3 (statement_words s mysql) = [''SET'', ''GLOBAL'', ''TRANSACTION'']"

definition set_sql_affects_only_global_or_persist_scope :: "char_tables \<Rightarrow> string \<Rightarrow> bool \<Rightarrow> bool" where
  "set_sql_affects_only_global_or_persist_scope tables s mysql =
     (set_sql_is_global_transaction_statement s mysql \<or>
      (case set_statement_assignments s mysql of
         None \<Rightarrow> False
       | Some assignments \<Rightarrow>
           list_all (\<lambda>a. set_assignment_targets_global_or_persist_scope tables a mysql) assignments))"

definition set_sql_assigns_any_global_or_persist_scope :: "char_tables \<Rightarrow> string \<Rightarrow> bool \<Rightarrow> bool" where
  "set_sql_assigns_any_global_or_persist_scope tables s mysql =
     (set_sql_is_global_transaction_statement s mysql \<or>
      (case set_statement_assignments s mysql of
         None \<Rightarrow> False
       | Some assignments \<Rightarrow>
           list_ex (\<lambda>a. set_assignment_targets_global_or_persist_scope tables a mysql) assignments))"

definition set_body_starts_with_user_variable :: "string \<Rightarrow> bool \<Rightarrow> bool" where
  "set_body_starts_with_user_variable s mysql =
     (case next_top_level_word s 0 mysql of
        None \<Rightarrow> False
      | Some (set_token, _, after_set) \<Rightarrow>
          set_token = ''SET'' \<and>
          (let pos = skip_ws_and_comments s after_set mysql
           in byte_at s pos = Some CHR ''@'' \<and> byte_at s (pos + 1) \<noteq> Some CHR ''@''))"

section \<open>Lock functions of a DO statement\<close>

definition consume_keyword_at :: "string \<Rightarrow> nat \<Rightarrow> string \<Rightarrow> nat option" where
  "consume_keyword_at s start keyword =
     (let keyword_end = start + length keyword
      in if length s < keyword_end then None
         else if to_ascii_uppercase (slice s start keyword_end) \<noteq> to_ascii_uppercase keyword then None
         else
           (case byte_at s keyword_end of
              Some b \<Rightarrow> if is_word_part b \<or> b \<in> {CHR ''$'', CHR ''#''} then None else Some keyword_end
            | None \<Rightarrow> Some keyword_end))"

function only_statement_terminators_remain :: "string \<Rightarrow> nat \<Rightarrow> bool \<Rightarrow> bool" where
  "only_statement_terminators_remain s idx mysql =
     (let idx = skip_ws_and_comments s idx mysql
      in if length s \<le> idx then True
         else if s ! idx = CHR '';'' then only_statement_terminators_remain s (idx + 1) mysql
         else False)"
  by pat_completeness auto
termination
proof (relation "measure (\<lambda>(s, idx, mysql). length s - idx)", goal_cases)
  case (2 s idx mysql pos)
  then show ?case using skip_ws_forward [of idx s mysql] by simp
qed simp

declare only_statement_terminators_remain.simps [simp del]

definition variable_end :: "string \<Rightarrow> nat \<Rightarrow> nat" where
  "variable_end s idx =
     idx + length (takeWhile (\<lambda>b. is_word_part b \<or> b = CHR ''.'' \<or> b = CHR ''$'') (drop idx s))"

function nested_execution_loop :: "string \<Rightarrow> bool \<Rightarrow> nat \<Rightarrow> bool" where
  "nested_execution_loop args mysql idx =
     (if idx < length args then
        (if args ! idx = CHR ''@'' then
           nested_execution_loop args mysql
             (variable_end args
               (if byte_at args (idx + 1) = Some CHR ''@'' then idx + 2 else idx + 1))
         else
           (case skip_ignored_span args idx mysql of
              Some next \<Rightarrow> nested_execution_loop args mysql next
            | None \<Rightarrow>
                if is_word_start (args ! idx) then
                  (let after = word_end args (idx + 1);
                       word = to_ascii_uppercase (slice args idx after)
                   in if word \<in> {''SELECT'', ''WITH'', ''INSERT'', ''UPDATE'', ''DELETE'', ''REPLACE'',
                                 ''CALL'', ''DO'', ''BEGIN''} then True
                      else if byte_at args (skip_ws_and_comments args after mysql) = Some CHR ''('' then True
                      else nested_execution_loop args mysql after)
                else nested_execution_loop args mysql (idx + 1)))
      else False)"
  by pat_completeness auto
termination
  by (relation "measure (\<lambda>(s, mysql, idx). length s - idx)")
    (auto simp: variable_end_def word_end_def dest!: skip_ignored_span_bounds)

declare nested_execution_loop.simps [simp del]

definition mysql_lock_function_args_contain_nested_execution :: "string \<Rightarrow> bool \<Rightarrow> bool" where
  "mysql_lock_function_args_contain_nested_execution args mysql = nested_execution_loop args mysql 0"

definition mysql_statement_has_single_safe_lock_function_call ::
    "string \<Rightarrow> nat \<Rightarrow> string \<Rightarrow> bool \<Rightarrow> bool" where
  "mysql_statement_has_single_safe_lock_function_call s function_start function_name mysql =
     (case consume_keyword_at s function_start function_name of
        None \<Rightarrow> False
      | Some after_name \<Rightarrow>
          (case skip_balanced_parens s (skip_ws_and_comments s after_name mysql) mysql of
             None \<Rightarrow> False
           | Some after_call \<Rightarrow>
               (let args = slice s (skip_ws_and_comments s after_name mysql + 1) (after_call - 1)
                in \<not> (function_name = ''RELEASE_ALL_LOCKS'' \<and> trim args \<noteq> []) \<and>
                   \<not> mysql_lock_function_args_contain_nested_execution args mysql \<and>
                   only_statement_terminators_remain s after_call mysql)))"

definition do_statement_is_known_lock_function_only :: "string \<Rightarrow> bool \<Rightarrow> bool" where
  "do_statement_is_known_lock_function_only s mysql =
     (case next_top_level_word s 0 mysql of
        None \<Rightarrow> False
      | Some (do_token, _, after_do) \<Rightarrow>
          do_token = ''DO'' \<and>
          list_ex
            (\<lambda>function_name. mysql_statement_has_single_safe_lock_function_call s
               (skip_ws_and_comments s after_do mysql) function_name mysql)
            [''GET_LOCK'', ''RELEASE_LOCK'', ''RELEASE_ALL_LOCKS''])"

end
