(* ===== verification/Sql_Classify.thy ===== *)
theory Sql_Classify
  imports Statement_Reader Sql_With Sql_Set
begin

text \<open>
  The classifier (\<^verbatim>\<open>SqlStatementAnalysis::classify_for_db_type\<close> and the \<^verbatim>\<open>classify_*\<close> functions of
  \<^verbatim>\<open>src/db/sql_classification.rs\<close>): the \<open>SqlKind\<close> of a statement from its words and text. Two kinds of
  statement are classified by a statement inside them: a \<^verbatim>\<open>WITH\<close> by its main statement, and an explain
  that runs what it explains by the statement it runs.
\<close>

section \<open>Words\<close>

definition words_contain_sequence :: "string list \<Rightarrow> string list \<Rightarrow> bool" where
  "words_contain_sequence ws expected \<longleftrightarrow>
     expected \<noteq> [] \<and>
     list_ex (\<lambda>i. i + length expected \<le> length ws \<and> take (length expected) (drop i ws) = expected)
       [0..<length ws]"

definition statement_contains_word_sequence_any_depth :: "string \<Rightarrow> bool \<Rightarrow> string list \<Rightarrow> bool" where
  "statement_contains_word_sequence_any_depth s mysql expected =
     words_contain_sequence (statement_words_any_depth s mysql) expected"

definition sql_contains_word_sequence_any_depth_for_db_type ::
    "DatabaseType \<Rightarrow> string \<Rightarrow> string list \<Rightarrow> bool" where
  "sql_contains_word_sequence_any_depth_for_db_type db_type s expected =
     (let mysql = mysql_compatible_comments (classification_profile_for_db_type db_type);
          stripped = strip_leading_comments_and_whitespace_with_mode s mysql;
          expanded = (if mysql then mysql_sql_with_executable_comments_expanded stripped else stripped)
      in statement_contains_word_sequence_any_depth expanded mysql expected)"

section \<open>Explains that run what they explain\<close>

definition MYSQL_ANALYZE_TABLE_MODIFIERS :: "string list" where
  "MYSQL_ANALYZE_TABLE_MODIFIERS = [''NO_WRITE_TO_BINLOG'', ''LOCAL'']"

fun family_spells_its_executing_explain_as_bare_analyze :: "DatabaseType \<Rightarrow> bool" where
  "family_spells_its_executing_explain_as_bare_analyze MariaDB = True"
| "family_spells_its_executing_explain_as_bare_analyze MySQL = False"
| "family_spells_its_executing_explain_as_bare_analyze Oracle = False"

text \<open>Where the text after \<^verbatim>\<open>EXPLAIN ANALYZE\<close>, or after MariaDB's \<^verbatim>\<open>ANALYZE\<close>, begins.\<close>

definition after_executing_keyword :: "DatabaseType \<Rightarrow> string \<Rightarrow> nat option" where
  "after_executing_keyword db_type s =
     (case next_top_level_word s 0 True of
        None \<Rightarrow> None
      | Some (first, _, after_first) \<Rightarrow>
          if first \<in> {''EXPLAIN'', ''DESCRIBE'', ''DESC''} then
            (case next_top_level_word s after_first True of
               None \<Rightarrow> None
             | Some (second, _, after_second) \<Rightarrow>
                 if second \<noteq> ''ANALYZE'' then None else Some after_second)
          else if first = ''ANALYZE'' \<and> family_spells_its_executing_explain_as_bare_analyze db_type then
            (case next_top_level_word s after_first True of
               None \<Rightarrow> None
             | Some (word, _) \<Rightarrow>
                 if word = ''TABLE'' \<or> word \<in> set MYSQL_ANALYZE_TABLE_MODIFIERS then None
                 else Some after_first)
          else None)"

definition skip_format_option :: "string \<Rightarrow> nat \<Rightarrow> nat" where
  "skip_format_option s idx =
     (case next_top_level_word s idx True of
        Some (word, _, after_format) \<Rightarrow>
          if word = ''FORMAT'' then
            (case next_top_level_word s after_format True of
               Some (_, _, after_value) \<Rightarrow> after_value | None \<Rightarrow> idx)
          else idx
      | None \<Rightarrow> idx)"

definition skip_schema_option :: "string \<Rightarrow> nat \<Rightarrow> nat" where
  "skip_schema_option s idx =
     (case next_top_level_word s idx True of
        Some (word, _, after_for) \<Rightarrow>
          if word = ''FOR'' then
            (case next_top_level_word s after_for True of
               Some (scope, _, after_scope) \<Rightarrow>
                 if scope \<in> {''SCHEMA'', ''DATABASE''} then
                   (case next_top_level_word s after_scope True of
                      Some (_, _, after_name) \<Rightarrow> after_name | None \<Rightarrow> idx)
                 else idx
             | None \<Rightarrow> idx)
          else idx
      | None \<Rightarrow> idx)"

definition mysql_explain_executed_statement_in_view :: "DatabaseType \<Rightarrow> string \<Rightarrow> string option" where
  "mysql_explain_executed_statement_in_view db_type view =
     (let s = (if family_spells_a_set_statement_wrapper db_type
               then (case mariadb_set_statement_parts_from_prepared view of
                       Some (_, inner) \<Rightarrow> inner | None \<Rightarrow> view)
               else view)
      in case after_executing_keyword db_type s of
           None \<Rightarrow> None
         | Some idx \<Rightarrow>
             (let target = trim (drop (skip_schema_option s (skip_format_option s idx)) s)
              in if target \<noteq> [] then Some target else None))"

definition mysql_explain_executed_statement :: "DatabaseType \<Rightarrow> string \<Rightarrow> string option" where
  "mysql_explain_executed_statement db_type s =
     mysql_explain_executed_statement_in_view db_type (statement_reader_view db_type s)"

function unwrap_explains :: "DatabaseType \<Rightarrow> string \<Rightarrow> string" where
  "unwrap_explains db_type target =
     (case mysql_explain_executed_statement_in_view db_type target of
        None \<Rightarrow> target
      | Some inner \<Rightarrow> if length target \<le> length inner then target else unwrap_explains db_type inner)"
  by pat_completeness auto
termination by (relation "measure (\<lambda>(db_type, target). length target)") auto

declare unwrap_explains.simps [simp del]

definition mysql_fully_executed_explain_target :: "DatabaseType \<Rightarrow> string \<Rightarrow> string option" where
  "mysql_fully_executed_explain_target db_type s =
     map_option (unwrap_explains db_type)
       (mysql_explain_executed_statement_in_view db_type (statement_reader_view db_type s))"

definition oracle_explain_plan_target :: "string \<Rightarrow> string option" where
  "oracle_explain_plan_target s =
     (case next_top_level_word s 0 False of
        None \<Rightarrow> None
      | Some (first, _, after_first) \<Rightarrow>
          if first \<noteq> ''EXPLAIN'' then None
          else
            (case next_top_level_word s after_first False of
               None \<Rightarrow> None
             | Some (second, _, after_second) \<Rightarrow>
                 if second \<noteq> ''PLAN'' then None
                 else
                   (case find_top_level_word s after_second ''FOR'' False of
                      None \<Rightarrow> None
                    | Some start \<Rightarrow>
                        (let target = trim (drop (start + 3) s)
                         in if target \<noteq> [] then Some target else None))))"

section \<open>Progress\<close>

lemma after_executing_keyword_pos: "after_executing_keyword db_type s = Some n \<Longrightarrow> 0 < n \<and> n \<le> length s"
  by (auto simp: after_executing_keyword_def split: option.splits if_splits
      dest!: next_top_level_word_bounds)

lemma skip_format_option_forward: "idx \<le> skip_format_option s idx"
  by (auto simp: skip_format_option_def split: option.split dest!: next_top_level_word_bounds)

lemma skip_schema_option_forward: "idx \<le> skip_schema_option s idx"
  by (auto simp: skip_schema_option_def split: option.split dest!: next_top_level_word_bounds)

lemma executed_statement_shorter:
  assumes "mysql_explain_executed_statement_in_view db_type view = Some target"
  shows "length target < length view"
proof -
  let ?s = "if family_spells_a_set_statement_wrapper db_type
      then (case mariadb_set_statement_parts_from_prepared view of Some (_, inner) \<Rightarrow> inner | None \<Rightarrow> view)
      else view"
  have le: "length ?s \<le> length view"
    by (auto split: option.split dest!: set_statement_inner_shorter)
  from assms obtain n where n: "after_executing_keyword db_type ?s = Some n"
    and t: "target = trim (drop (skip_schema_option ?s (skip_format_option ?s n)) ?s)"
    unfolding mysql_explain_executed_statement_in_view_def Let_def
    by (auto split: option.splits if_splits)
  have "0 < skip_schema_option ?s (skip_format_option ?s n)" "0 < length ?s"
    using after_executing_keyword_pos [OF n] skip_format_option_forward [of n ?s]
      skip_schema_option_forward [of "skip_format_option ?s n" ?s] by linarith+
  then have "length (drop (skip_schema_option ?s (skip_format_option ?s n)) ?s) < length ?s" by simp
  then show ?thesis unfolding t using length_trim le by (meson le_less_trans less_le_trans)
qed

lemma unwrap_explains_le: "length (unwrap_explains db_type target) \<le> length target"
proof (induction db_type target rule: unwrap_explains.induct)
  case (1 db_type target)
  then show ?case
    by (auto simp: unwrap_explains.simps [of db_type target] split: option.split)
qed

lemma executed_explain_target_shorter:
  assumes "mysql_fully_executed_explain_target db_type s = Some target"
  shows "length target < length s"
proof -
  from assms obtain t where t: "mysql_explain_executed_statement_in_view db_type (statement_reader_view db_type s) = Some t"
    "target = unwrap_explains db_type t"
    by (auto simp: mysql_fully_executed_explain_target_def)
  from executed_statement_shorter [OF t(1)] length_statement_reader_view [of db_type s]
    unwrap_explains_le [of db_type t] show ?thesis by (simp add: t(2))
qed

text \<open>What the loop stops at is not an executing explain any more.\<close>

lemma unwrap_explains_done:
  "mysql_explain_executed_statement_in_view db_type (unwrap_explains db_type target) = None"
proof (induction db_type target rule: unwrap_explains.induct)
  case (1 db_type target)
  show ?case
  proof (cases "mysql_explain_executed_statement_in_view db_type target")
    case (Some inner)
    with 1 executed_statement_shorter [OF Some] show ?thesis
      by (simp add: unwrap_explains.simps [of db_type target])
  qed (simp add: unwrap_explains.simps [of db_type target])
qed

text \<open>\<^verbatim>\<open>words.get(i)\<close>\<close>

definition nth_word :: "string list \<Rightarrow> nat \<Rightarrow> string option" where
  "nth_word ws i = (if i < length ws then Some (ws ! i) else None)"

section \<open>Statements read by their words\<close>

definition classify_mysql_load_sql :: "string \<Rightarrow> bool \<Rightarrow> SqlKind" where
  "classify_mysql_load_sql s mysql =
     (let ws = statement_words s mysql
      in if nth_word ws 0 = Some ''LOAD'' \<and> nth_word ws 1 = Some ''INDEX'' then Ddl else Dml)"

definition classify_mysql_lock_sql :: "string \<Rightarrow> bool \<Rightarrow> SqlKind" where
  "classify_mysql_lock_sql s mysql =
     (let ws = statement_words s mysql
      in if nth_word ws 0 = Some ''LOCK'' \<and> nth_word ws 1 \<in> {Some ''TABLE'', Some ''TABLES'', Some ''INSTANCE''}
         then SessionControl else UnknownKind)"

definition classify_mysql_unlock_sql :: "string \<Rightarrow> bool \<Rightarrow> SqlKind" where
  "classify_mysql_unlock_sql s mysql =
     (let ws = statement_words s mysql
      in if nth_word ws 0 = Some ''UNLOCK'' \<and>
            nth_word ws 1 \<in> {Some ''TABLE'', Some ''TABLES'', Some ''INSTANCE''}
         then SessionControl else UnknownKind)"

definition classify_mysql_reset_sql :: "string \<Rightarrow> bool \<Rightarrow> SqlKind" where
  "classify_mysql_reset_sql s mysql =
     (let ws = statement_words s mysql
      in if nth_word ws 0 \<noteq> Some ''RESET'' then UnknownKind
         else if nth_word ws 1 = Some ''CONNECTION'' then SessionControl
         else if nth_word ws 1 \<in> {Some ''PERSIST'', Some ''REPLICA'', Some ''SLAVE'', Some ''MASTER''} then Ddl
         else UnknownKind)"

definition classify_mysql_do_sql :: "string \<Rightarrow> bool \<Rightarrow> SqlKind" where
  "classify_mysql_do_sql s mysql =
     (if do_statement_is_known_lock_function_only s mysql then SessionControl else PlsqlOrProcedure)"

definition classify_alter_sql_for_db_type :: "DatabaseType \<Rightarrow> string \<Rightarrow> bool \<Rightarrow> SqlKind" where
  "classify_alter_sql_for_db_type db_type s mysql =
     (if classification_profile_for_db_type db_type = OracleProfile \<and>
         nth_word (statement_words s mysql) 1 \<in> {Some ''SESSION'', Some ''SYSTEM''}
      then SessionControl else Ddl)"

definition classify_oracle_lock_sql :: "string \<Rightarrow> SqlKind" where
  "classify_oracle_lock_sql s =
     (let ws = statement_words s False
      in if nth_word ws 0 = Some ''LOCK'' \<and> nth_word ws 1 = Some ''TABLE'' then Dml else UnknownKind)"

definition classify_select_sql_for_db_type :: "DatabaseType \<Rightarrow> string \<Rightarrow> bool \<Rightarrow> SqlKind" where
  "classify_select_sql_for_db_type db_type s mysql =
     (let locking_select =
        (case classification_profile_for_db_type db_type of
           OracleProfile \<Rightarrow> statement_contains_word_sequence_any_depth s mysql [''FOR'', ''UPDATE'']
         | MySqlCompatible \<Rightarrow>
             statement_contains_word_sequence_any_depth s mysql [''FOR'', ''UPDATE''] \<or>
             statement_contains_word_sequence_any_depth s mysql [''FOR'', ''SHARE''] \<or>
             statement_contains_word_sequence_any_depth s mysql [''LOCK'', ''IN'', ''SHARE'', ''MODE''])
      in if locking_select then Dml else SelectLike)"

definition classify_begin_sql_for_db_type :: "DatabaseType \<Rightarrow> string \<Rightarrow> bool \<Rightarrow> SqlKind" where
  "classify_begin_sql_for_db_type db_type s mysql =
     (let ws = statement_words s mysql
      in if nth_word ws 0 = Some ''BEGIN'' \<and> nth_word ws 1 = Some ''NOT'' \<and> nth_word ws 2 = Some ''ATOMIC''
         then (case db_type of MariaDB \<Rightarrow> PlsqlOrProcedure | _ \<Rightarrow> UnknownKind)
         else TransactionControl)"

definition mysql_replication_words :: "string list \<Rightarrow> bool" where
  "mysql_replication_words ws =
     (if nth_word ws 0 \<in> {Some ''START'', Some ''STOP'', Some ''RESET''} then
        (let noun = (if nth_word ws 1 = Some ''ALL'' then nth_word ws 2 else nth_word ws 1)
         in noun \<in> {Some ''REPLICA'', Some ''REPLICAS'', Some ''SLAVE'', Some ''SLAVES'',
                    Some ''GROUP_REPLICATION''})
      else
        nth_word ws 0 = Some ''CHANGE'' \<and> nth_word ws 1 \<in> {Some ''REPLICATION'', Some ''MASTER''})"

definition classify_set_sql_for_db_type :: "char_tables \<Rightarrow> DatabaseType \<Rightarrow> string \<Rightarrow> bool \<Rightarrow> SqlKind" where
  "classify_set_sql_for_db_type tables db_type s mysql =
     (let mysql_family = mysql_compatible_comments (classification_profile_for_db_type db_type);
          ws = statement_words s mysql
      in if nth_word ws 0 \<noteq> Some ''SET'' then UnknownKind
         else if nth_word ws 1 = Some ''ROLE'' then SessionControl
         else if mysql_family \<and>
           (nth_word ws 1 = Some ''PASSWORD'' \<or>
            nth_word ws 1 = Some ''DEFAULT'' \<and> nth_word ws 2 = Some ''ROLE'') then Ddl
         else if set_sql_contains_transaction_control_assignment tables s mysql then TransactionControl
         else if mysql_family \<and> set_sql_affects_only_global_or_persist_scope tables s mysql then Ddl
         else if set_body_starts_with_user_variable s mysql then UnknownKind
         else if nth_word ws 1 \<in>
           {Some ''AUTOCOMMIT'', Some ''TRANSACTION'', Some ''CONSTRAINT'', Some ''CONSTRAINTS'',
            Some ''TRANSACTION_ISOLATION'', Some ''TX_ISOLATION'', Some ''TRANSACTION_READ_ONLY'',
            Some ''TX_READ_ONLY''} then TransactionControl
         else if nth_word ws 1 \<in> {Some ''SESSION'', Some ''LOCAL''} \<and>
           nth_word ws 2 \<in>
             {Some ''AUTOCOMMIT'', Some ''TRANSACTION'', Some ''TRANSACTION_ISOLATION'',
              Some ''TX_ISOLATION'', Some ''TRANSACTION_READ_ONLY'', Some ''TX_READ_ONLY''}
         then TransactionControl
         else UnknownKind)"

definition classify_start_sql_for_db_type :: "DatabaseType \<Rightarrow> string \<Rightarrow> bool \<Rightarrow> SqlKind" where
  "classify_start_sql_for_db_type db_type s mysql =
     (let mysql_family = mysql_compatible_comments (classification_profile_for_db_type db_type);
          ws = statement_words s mysql
      in if nth_word ws 0 = Some ''START'' \<and> nth_word ws 1 = Some ''TRANSACTION'' then TransactionControl
         else if mysql_family \<and> mysql_replication_words ws then Ddl
         else UnknownKind)"

definition classify_mysql_replication_sql :: "string \<Rightarrow> bool \<Rightarrow> SqlKind" where
  "classify_mysql_replication_sql s mysql =
     (if mysql_replication_words (statement_words s mysql) then Ddl else UnknownKind)"

definition classify_release_sql :: "string \<Rightarrow> bool \<Rightarrow> SqlKind" where
  "classify_release_sql s mysql =
     (let ws = statement_words s mysql
      in if nth_word ws 0 = Some ''RELEASE'' \<and> nth_word ws 1 = Some ''SAVEPOINT''
         then TransactionControl else UnknownKind)"

definition classify_xa_sql :: "string \<Rightarrow> bool \<Rightarrow> SqlKind" where
  "classify_xa_sql s mysql =
     (let ws = statement_words s mysql
      in if nth_word ws 0 \<noteq> Some ''XA'' then UnknownKind
         else if nth_word ws 1 = Some ''RECOVER'' then SelectLike
         else if nth_word ws 1 \<in>
           {Some ''START'', Some ''BEGIN'', Some ''END'', Some ''PREPARE'', Some ''COMMIT'', Some ''ROLLBACK''}
         then TransactionControl
         else UnknownKind)"

section \<open>Statements classified by a statement inside them\<close>

text \<open>
  An explain: its own kind (\<open>Inl\<close>), or the statement it runs (\<open>Inr\<close>), which is analysed and classified
  in its place.
\<close>

definition classify_explain_sql_for_db_type :: "DatabaseType \<Rightarrow> string \<Rightarrow> string \<Rightarrow> SqlKind + string" where
  "classify_explain_sql_for_db_type db_type first_word s =
     (case classification_profile_for_db_type db_type of
        MySqlCompatible \<Rightarrow>
          (case mysql_fully_executed_explain_target db_type s of
             Some target \<Rightarrow> Inr target
           | None \<Rightarrow> Inl (if first_word = ''ANALYZE'' then Ddl else SelectLike))
      | OracleProfile \<Rightarrow>
          (let ws = statement_words s False
           in Inl (if nth_word ws 0 = Some ''EXPLAIN'' \<and> nth_word ws 1 = Some ''PLAN''
                   then Dml else UnknownKind)))"

text \<open>
  The list of common table expressions, from the index of a name: the word and the index of the main
  statement, or \<open>None\<close> where the walk gives up.
\<close>

function cte_loop :: "string \<Rightarrow> bool \<Rightarrow> nat \<Rightarrow> (string \<times> nat) option" where
  "cte_loop s mysql pos =
     (case next_top_level_word s pos mysql of
        None \<Rightarrow> None
      | Some (_, _, after_name) \<Rightarrow>
          (let pos = skip_ws_and_comments s after_name mysql
           in case (if byte_at s pos = Some CHR ''(''
                    then map_option (\<lambda>after_columns. skip_ws_and_comments s after_columns mysql)
                           (skip_balanced_parens s pos mysql)
                    else Some pos) of
                None \<Rightarrow> None
              | Some pos \<Rightarrow>
                  (case next_top_level_word s pos mysql of
                     None \<Rightarrow> None
                   | Some (as_token, _, after_as) \<Rightarrow>
                       if as_token \<noteq> ''AS'' then None
                       else
                         (case skip_balanced_parens s (skip_ws_and_comments s after_as mysql) mysql of
                            None \<Rightarrow> None
                          | Some after_cte_body \<Rightarrow>
                              (let pos = skip_ws_and_comments s after_cte_body mysql
                               in if byte_at s pos = Some CHR '',''
                                  then cte_loop s mysql (pos + 1)
                                  else map_option (\<lambda>(w, start, _). (w, start))
                                         (next_top_level_word s pos mysql)))))) "
  by pat_completeness auto
termination
proof (relation "measure (\<lambda>(s, mysql, pos). length s - pos)", goal_cases)
  case (2 s mysql pos r w q start after_name pos1 pos2 r2 as q2 start2 after_as after_body pos3)
  let ?skip = "\<lambda>n. skip_ws_and_comments s n mysql"
  have "pos < after_name" "after_name \<le> pos1"
    using next_top_level_word_bounds [of s pos mysql w start after_name] skip_ws_forward [of after_name s mysql]
      2(1-4) by auto
  moreover have "pos1 \<le> pos2"
  proof (cases "byte_at s pos1 = Some CHR ''(''")
    case True
    with 2(5) obtain n where "skip_balanced_parens s pos1 mysql = Some n" "pos2 = ?skip n" by auto
    with skip_balanced_parens_bounds skip_ws_forward [of n s mysql] show ?thesis by fastforce
  qed (use 2(5) in simp)
  moreover have "pos2 < after_as"
    using next_top_level_word_bounds [of s pos2 mysql as start2 after_as] 2(6-8) by auto
  moreover have "after_as < pos3"
    using skip_ws_forward [of after_as s mysql] skip_balanced_parens_bounds [OF 2(10)]
      skip_ws_forward [of after_body s mysql] 2(11) by simp
  moreover have "pos3 < length s" using 2(12) by (simp add: byte_at_Some)
  ultimately show ?case by simp
qed simp

declare cte_loop.simps [simp del]

lemma cte_loop_bounds: "cte_loop s mysql pos = Some (w, start) \<Longrightarrow> pos < start \<and> start < length s"
proof (induction s mysql pos rule: cte_loop.induct)
  case (1 s mysql pos)
  let ?skip = "\<lambda>n. skip_ws_and_comments s n mysql"
  note step = "1.prems" [unfolded cte_loop.simps [of s mysql pos] Let_def]
  from step obtain n1 a1 after_name where name: "next_top_level_word s pos mysql = Some (n1, a1, after_name)"
    by (auto split: option.splits)
  obtain pos2 where pos2: "(if byte_at s (?skip after_name) = Some CHR ''(''
      then map_option ?skip (skip_balanced_parens s (?skip after_name) mysql)
      else Some (?skip after_name)) = Some pos2"
    using step name by (auto split: option.splits if_splits)
  obtain n2 a2 after_as where as: "next_top_level_word s pos2 mysql = Some (n2, a2, after_as)" "n2 = ''AS''"
    using step name pos2 by (auto split: option.splits if_splits)
  obtain body where body: "skip_balanced_parens s (?skip after_as) mysql = Some body"
    using step name pos2 as by (auto split: option.splits if_splits)
  have "?skip after_name \<le> pos2"
    using pos2 skip_ws_forward
    by (auto split: if_splits dest!: skip_balanced_parens_bounds intro: order_trans less_imp_le)
  moreover have "pos < after_name" "pos2 < after_as" "after_as < body"
    using next_top_level_word_bounds [OF name] next_top_level_word_bounds [OF as(1)]
      skip_balanced_parens_bounds [OF body] skip_ws_forward [of after_as s mysql] by auto
  moreover have "after_name \<le> ?skip after_name" "body \<le> ?skip body" by (rule skip_ws_forward)+
  ultimately have fwd: "pos < ?skip body" by linarith
  show ?case
  proof (cases "byte_at s (?skip body) = Some CHR '',''")
    case True
    with step name pos2 as body have "cte_loop s mysql (?skip body + 1) = Some (w, start)" by simp
    with "1.IH" name pos2 as body True have "?skip body + 1 < start \<and> start < length s" by auto
    with fwd show ?thesis by simp
  next
    case False
    with step name pos2 as body obtain e where "next_top_level_word s (?skip body) mysql = Some (w, start, e)"
      by (auto split: option.splits)
    from next_top_level_word_bounds [OF this] fwd show ?thesis by simp
  qed
qed

text \<open>A \<^verbatim>\<open>WITH\<close> statement: its kind, or the word and the text of the main statement.\<close>

definition classify_with_sql_for_db_type :: "DatabaseType \<Rightarrow> string \<Rightarrow> SqlKind + string \<times> string" where
  "classify_with_sql_for_db_type db_type s =
     (let mysql = mysql_compatible_comments (classification_profile_for_db_type db_type)
      in if with_clause_starts_with_select s then Inl (classify_select_sql_for_db_type db_type s mysql)
         else
           (case next_top_level_word s 0 mysql of
              None \<Rightarrow> Inl UnknownKind
            | Some (first, _, pos) \<Rightarrow>
                if first \<noteq> ''WITH'' then Inl UnknownKind
                else
                  (let pos = (case next_top_level_word s pos mysql of
                                Some (token, _, after_token) \<Rightarrow>
                                  if token = ''RECURSIVE'' then after_token else pos
                              | None \<Rightarrow> pos)
                   in case cte_loop s mysql pos of
                        None \<Rightarrow> Inl UnknownKind
                      | Some (main_token, main_start) \<Rightarrow>
                          if main_token = ''SELECT''
                          then Inl (classify_select_sql_for_db_type db_type s mysql)
                          else Inr (main_token, drop main_start s))))"

lemma with_main_shorter:
  "classify_with_sql_for_db_type db_type s = Inr (w, t) \<Longrightarrow> length t < length s"
  by (auto simp: classify_with_sql_for_db_type_def Let_def split: option.splits if_splits
      dest!: cte_loop_bounds intro!: diff_less)

section \<open>The classifier\<close>

text \<open>The words that neither a \<^verbatim>\<open>WITH\<close> nor an explain begins with, in the order of the source.\<close>

definition classify_plain_word :: "char_tables \<Rightarrow> DatabaseType \<Rightarrow> string \<Rightarrow> string \<Rightarrow> SqlKind" where
  "classify_plain_word tables db_type first_word s =
     (let mysql_family = (classification_profile_for_db_type db_type = MySqlCompatible);
          oracle_family = \<not> mysql_family;
          mysql = mysql_family
      in if first_word = ''SELECT'' then classify_select_sql_for_db_type db_type s mysql
         else if first_word \<in> {''DESCRIBE'', ''DESC'', ''SHOW''} then SelectLike
         else if first_word \<in> {''VALUES'', ''TABLE''} \<and> mysql_family then SelectLike
         else if first_word \<in> {''CHECK'', ''CHECKSUM'', ''OPTIMIZE'', ''REPAIR''} \<and> mysql_family then Ddl
         else if first_word \<in> {''INSERT'', ''UPDATE'', ''DELETE'', ''MERGE'', ''REPLACE''} then Dml
         else if first_word = ''LOAD'' then (if mysql_family then classify_mysql_load_sql s mysql else Dml)
         else if first_word \<in> {''CREATE'', ''DROP'', ''TRUNCATE'', ''RENAME'', ''COMMENT'', ''GRANT'', ''REVOKE''}
         then Ddl
         else if first_word = ''ALTER'' then classify_alter_sql_for_db_type db_type s mysql
         else if first_word \<in> {''ANALYZE'', ''AUDIT'', ''NOAUDIT'', ''PURGE'', ''FLASHBACK''} \<and> oracle_family
         then Ddl
         else if first_word \<in> {''ASSOCIATE'', ''DISASSOCIATE'', ''ADMINISTER''} \<and> oracle_family then Ddl
         else if first_word = ''FLUSH'' \<and> mysql_family then Ddl
         else if first_word \<in> {''CACHE'', ''INSTALL'', ''UNINSTALL''} \<and> mysql_family then Ddl
         else if first_word = ''LOCK'' then
           (if oracle_family then classify_oracle_lock_sql s else classify_mysql_lock_sql s mysql)
         else if first_word = ''UNLOCK'' \<and> mysql_family then classify_mysql_unlock_sql s mysql
         else if first_word = ''USE'' \<and> mysql_family then SessionControl
         else if first_word \<in> {''CALL'', ''EXEC'', ''EXECUTE''} then PlsqlOrProcedure
         else if first_word = ''DO'' \<and> mysql_family then classify_mysql_do_sql s mysql
         else if first_word = ''BEGIN'' then classify_begin_sql_for_db_type db_type s mysql
         else if first_word \<in> {''COMMIT'', ''ROLLBACK'', ''SAVEPOINT''} then TransactionControl
         else if first_word = ''RELEASE'' then
           (if mysql_family then classify_release_sql s mysql else UnknownKind)
         else if first_word = ''XA'' \<and> mysql_family then classify_xa_sql s mysql
         else if first_word = ''RESET'' \<and> mysql_family then classify_mysql_reset_sql s mysql
         else if first_word = ''SET'' then classify_set_sql_for_db_type tables db_type s mysql
         else if first_word = ''START'' then classify_start_sql_for_db_type db_type s mysql
         else if first_word \<in> {''STOP'', ''CHANGE''} \<and> mysql_family then classify_mysql_replication_sql s mysql
         else UnknownKind)"

text \<open>The words that begin an explain on a backend.\<close>

definition reads_as_explain :: "DatabaseType \<Rightarrow> string \<Rightarrow> bool" where
  "reads_as_explain db_type first_word \<longleftrightarrow>
     first_word = ''EXPLAIN'' \<or>
     first_word \<in> {''DESCRIBE'', ''DESC'', ''ANALYZE''} \<and>
     classification_profile_for_db_type db_type = MySqlCompatible"

function classify_first_word_for_db_type :: "char_tables \<Rightarrow> DatabaseType \<Rightarrow> string \<Rightarrow> string \<Rightarrow> SqlKind"
  and classify_for_db_type :: "char_tables \<Rightarrow> DatabaseType \<Rightarrow> SqlStatementAnalysis \<Rightarrow> SqlKind"
  where
  "classify_first_word_for_db_type tables db_type first_word s =
     (if first_word = ''WITH'' then
        (case classify_with_sql_for_db_type db_type s of
           Inl kind \<Rightarrow> kind
         | Inr (main_token, main) \<Rightarrow> classify_first_word_for_db_type tables db_type main_token main)
      else if reads_as_explain db_type first_word then
        (case classify_explain_sql_for_db_type db_type first_word s of
           Inl kind \<Rightarrow> kind
         | Inr target \<Rightarrow> classify_for_db_type tables db_type (new_for_db_type tables db_type target))
      else classify_plain_word tables db_type first_word s)"
| "classify_for_db_type tables db_type analysis =
     (if stripped_sql analysis = [] then UnknownKind
      else
        (let first_word = (case leading_keyword (analysis_words analysis) of Some w \<Rightarrow> w | None \<Rightarrow> [])
         in if classification_profile_for_db_type db_type = OracleProfile \<and>
               first_word \<in> {''BEGIN'', ''DECLARE''}
            then (if oracle_plsql_block_has_trailing_statement (stripped_sql analysis)
                  then Script else PlsqlOrProcedure)
            else if has_multiple_statements analysis then Script
            else classify_first_word_for_db_type tables db_type first_word (stripped_sql analysis)))"
  by pat_completeness auto
termination
proof (relation "measure (\<lambda>x. case x of Inl (tables, db, w, s) \<Rightarrow> 2 * length s
    | Inr (tables, db, a) \<Rightarrow> 2 * length (stripped_sql a) + 1)", goal_cases)
  case (2 tables db_type first_word s)
  then show ?case by (auto dest!: with_main_shorter)
next
  case (3 tables db_type first_word s target)
  then have "mysql_fully_executed_explain_target db_type s = Some target"
    by (auto simp: classify_explain_sql_for_db_type_def Let_def
        split: SqlClassificationProfile.splits option.splits)
  from executed_explain_target_shorter [OF this] length_new_for_db_type [of tables db_type target]
  show ?case by simp
qed simp_all

declare classify_first_word_for_db_type.simps [simp del] classify_for_db_type.simps [simp del]

definition classify_sql_for_db_type :: "char_tables \<Rightarrow> DatabaseType \<Rightarrow> string \<Rightarrow> SqlKind" where
  "classify_sql_for_db_type tables db_type s = classify_for_db_type tables db_type (new_for_db_type tables db_type s)"

section \<open>Explains that run their statement\<close>

text \<open>
  C38. Unwrapping an explain that runs what it explains ends, however deep explains are nested: what it stops
  at is shorter than the text and no longer such an explain.
\<close>
theorem explain_unwrapping_ends:
  assumes "mysql_fully_executed_explain_target db_type s = Some target"
  shows "length target < length s \<and> mysql_explain_executed_statement_in_view db_type target = None"
proof
  show "length target < length s" by (rule executed_explain_target_shorter [OF assms])
  show "mysql_explain_executed_statement_in_view db_type target = None"
    using assms unwrap_explains_done by (auto simp: mysql_fully_executed_explain_target_def)
qed

theorem explain_unwrapping_ends_witness:
  "length ''DELETE FROM t'' < length ''EXPLAIN ANALYZE EXPLAIN ANALYZE DELETE FROM t'' \<and>
    mysql_explain_executed_statement_in_view MySQL ''DELETE FROM t'' = None"
  by (rule explain_unwrapping_ends) code_simp

text \<open>The branch of the classifier that an executing explain takes.\<close>

lemma classified_as_executed:
  assumes "db_type \<noteq> Oracle"
    and "\<not> has_multiple_statements (new_for_db_type tables db_type s)"
    and "leading_keyword (analysis_words (new_for_db_type tables db_type s)) = Some first_word"
    and "reads_as_explain db_type first_word"
    and "mysql_fully_executed_explain_target db_type (stripped_sql (new_for_db_type tables db_type s)) = Some target"
  shows "classify_sql_for_db_type tables db_type s = classify_sql_for_db_type tables db_type target"
proof -
  have profile: "classification_profile_for_db_type db_type = MySqlCompatible"
    using assms(1) by (cases db_type) simp_all
  have "stripped_sql (new_for_db_type tables db_type s) \<noteq> []"
    using executed_explain_target_shorter [OF assms(5)] by auto
  then have "classify_sql_for_db_type tables db_type s =
      classify_first_word_for_db_type tables db_type first_word (stripped_sql (new_for_db_type tables db_type s))"
    using assms(2,3) profile
    by (simp add: classify_sql_for_db_type_def classify_for_db_type.simps [of _ _ "new_for_db_type tables db_type s"])
  also have "\<dots> = classify_sql_for_db_type tables db_type target"
    using assms(4,5) profile
    by (subst classify_first_word_for_db_type.simps)
      (auto simp: classify_explain_sql_for_db_type_def classify_sql_for_db_type_def reads_as_explain_def)
  finally show ?thesis .
qed

end
