(* ===== verification/Execution_Backend.thy ===== *)
theory Execution_Backend
  imports Sql_Classify
begin

text \<open>
  How a statement is executed (\<^verbatim>\<open>src/db/query/execution_backend.rs\<close>): the result it is expected to produce
  and the time limit it runs under. The text is first made ready to send
  (\<^verbatim>\<open>normalize_sql_for_execute\<close>, \<^verbatim>\<open>src/db/query/executor.rs\<close>), and whether it is a query is asked of the
  script reader (\<^verbatim>\<open>src/db/query/script.rs\<close>). At the end stand the questions that the MySQL executor answers
  from the profile (\<^verbatim>\<open>src/db/query/mysql_executor.rs\<close>).
\<close>

section \<open>Characters and tokens\<close>

definition char_at :: "string \<Rightarrow> nat \<Rightarrow> string" where
  "char_at s idx = take (utf8_len (s ! idx)) (drop idx s)"

lemma char_at_nonempty: "idx < length s \<Longrightarrow> char_at s idx \<noteq> []"
  by (simp add: char_at_def utf8_len_def)

lemma char_at_step: "idx < length s \<Longrightarrow> length s - (idx + length (char_at s idx)) < length s - idx"
  using char_at_nonempty [of idx s] by (cases "char_at s idx") auto

definition is_identifier_char :: "char_tables \<Rightarrow> string \<Rightarrow> bool" where
  "is_identifier_char tables ch \<longleftrightarrow>
     char_is_alphanumeric tables ch \<or> ch \<in> {''_'', ''$'', ''#''}"

fun split_chars :: "(string \<Rightarrow> bool) \<Rightarrow> string list \<Rightarrow> string list list" where
  "split_chars separator [] = [[]]"
| "split_chars separator (ch # chs) =
     (if separator ch then [] # split_chars separator chs
      else
        (case split_chars separator chs of
           [] \<Rightarrow> [[ch]]
         | piece # pieces \<Rightarrow> (ch # piece) # pieces))"

definition nonempty_pieces :: "(string \<Rightarrow> bool) \<Rightarrow> string \<Rightarrow> string list list" where
  "nonempty_pieces separator s = filter (\<lambda>piece. piece \<noteq> []) (split_chars separator (text_chars s))"

definition trim_matches :: "(string \<Rightarrow> bool) \<Rightarrow> string list \<Rightarrow> string list" where
  "trim_matches p chs = rev (dropWhile p (rev (dropWhile p chs)))"

fun after_create_is_stored_unit :: "string list \<Rightarrow> bool" where
  "after_create_is_stored_unit [] = False"
| "after_create_is_stored_unit (word # ws) =
     (if word \<in> {''OR'', ''REPLACE'', ''EDITIONABLE'', ''NONEDITIONABLE'', ''FORCE'', ''NOFORCE''}
      then after_create_is_stored_unit ws
      else word \<in> {''FUNCTION'', ''PROCEDURE'', ''PACKAGE'', ''TYPE'', ''TRIGGER'', ''LIBRARY'', ''JAVA'',
                   ''MLE''})"

definition starts_create_stored_unit :: "char_tables \<Rightarrow> string \<Rightarrow> bool" where
  "starts_create_stored_unit tables text =
     (case map (\<lambda>piece. to_ascii_uppercase (concat piece))
         (nonempty_pieces (\<lambda>ch. \<not> is_identifier_char tables ch) text) of
        [] \<Rightarrow> False
      | word # ws \<Rightarrow> word = ''CREATE'' \<and> after_create_is_stored_unit ws)"

definition sql_line_comment_prefix_len :: "string \<Rightarrow> nat \<Rightarrow> nat option" where
  "sql_line_comment_prefix_len s idx =
     (if byte_at s idx = Some CHR ''-'' \<and> byte_at s (idx + 1) = Some CHR ''-'' then Some 2
      else if is_mysql_hash_comment_start s idx then Some 1
      else None)"

function meaningful_word_end :: "string \<Rightarrow> nat \<Rightarrow> nat" where
  "meaningful_word_end line idx =
     (if idx < length line then
        (if char_is_whitespace (char_at line idx) \<or> starts_with (drop idx line) ''/*'' then idx
         else if sql_line_comment_prefix_len line idx \<noteq> None then idx
         else meaningful_word_end line (idx + length (char_at line idx)))
      else idx)"
  by pat_completeness auto
termination
  by (relation "measure (\<lambda>(line, idx). length line - idx)") (simp_all add: char_at_step)

declare meaningful_word_end.simps [simp del]

lemma meaningful_word_end_ge: "idx \<le> meaningful_word_end line idx"
proof (induction line idx rule: meaningful_word_end.induct)
  case (1 line idx)
  then show ?case by (subst meaningful_word_end.simps) (auto dest: order_trans [OF le_add1])
qed

lemma meaningful_word_end_gr:
  assumes "idx < length line" "\<not> char_is_whitespace (char_at line idx)"
    "\<not> starts_with (drop idx line) ''/*''" "sql_line_comment_prefix_len line idx = None"
  shows "idx < meaningful_word_end line idx"
proof -
  have "0 < length (char_at line idx)" using char_at_nonempty [OF assms(1)] by simp
  then have "idx < meaningful_word_end line (idx + length (char_at line idx))"
    using meaningful_word_end_ge [of "idx + length (char_at line idx)" line] by linarith
  then show ?thesis using assms by (subst meaningful_word_end.simps) simp
qed

function meaningful_word_loop :: "string \<Rightarrow> nat \<Rightarrow> nat \<Rightarrow> nat \<Rightarrow> (string \<times> nat) option" where
  "meaningful_word_loop line skip_words seen_words idx =
     (if idx < length line then
        (if sql_line_comment_prefix_len line idx \<noteq> None then None
         else if starts_with (drop idx line) ''/*'' then
           (case find_text (drop (idx + 2) line) ''*/'' of
              None \<Rightarrow> None
            | Some block_end \<Rightarrow>
                meaningful_word_loop line skip_words seen_words (idx + 2 + block_end + 2))
         else if char_is_whitespace (char_at line idx) then
           meaningful_word_loop line skip_words seen_words (idx + length (char_at line idx))
         else if seen_words = skip_words then
           Some (slice line idx (meaningful_word_end line idx), idx)
         else
           meaningful_word_loop line skip_words (seen_words + 1) (meaningful_word_end line idx))
      else None)"
  by pat_completeness auto
termination
  by (relation "measure (\<lambda>(line, skip_words, seen_words, idx). length line - idx)")
    (simp_all add: char_at_step meaningful_word_end_gr diff_less_mono2)

declare meaningful_word_loop.simps [simp del]

definition next_meaningful_word :: "string \<Rightarrow> nat \<Rightarrow> (string \<times> nat) option" where
  "next_meaningful_word line skip_words = meaningful_word_loop line skip_words 0 0"

definition first_meaningful_word :: "string \<Rightarrow> string option" where
  "first_meaningful_word line = map_option fst (next_meaningful_word line 0)"

section \<open>Whether a statement is a query\<close>

function after_labels :: "string \<Rightarrow> string option" where
  "after_labels remaining =
     (case strip_prefix ''<<'' remaining of
        None \<Rightarrow> Some remaining
      | Some label_body \<Rightarrow>
          (case find_text label_body ''>>'' of
             None \<Rightarrow> None
           | Some close \<Rightarrow> after_labels (strip_leading_comments_and_whitespace (drop (close + 2) label_body))))"
  by pat_completeness auto
termination
proof (relation "measure length", goal_cases)
  case (2 remaining label_body close)
  then show ?case
    using length_strip_leading_comments [of "drop (close + 2) label_body" False]
    by (simp add: strip_prefix_Some strip_leading_comments_and_whitespace_def)
qed simp

declare after_labels.simps [simp del]

definition query_leading_keyword :: "char_tables \<Rightarrow> string \<Rightarrow> string option" where
  "query_leading_keyword tables s =
     (case after_labels (strip_leading_comments_and_whitespace s) of
        None \<Rightarrow> None
      | Some remaining \<Rightarrow> nth_word (analysis_words (analysis_new tables remaining)) 0)"

function after_open_parens :: "string \<Rightarrow> string" where
  "after_open_parens remaining =
     (case strip_prefix ''('' remaining of
        None \<Rightarrow> remaining
      | Some after_open \<Rightarrow> after_open_parens (strip_leading_comments_and_whitespace after_open))"
  by pat_completeness auto
termination
proof (relation "measure length", goal_cases)
  case (2 remaining after_open)
  then show ?case
    using length_strip_leading_comments [of after_open False]
    by (simp add: strip_prefix_Some strip_leading_comments_and_whitespace_def)
qed simp

declare after_open_parens.simps [simp del]

definition parenthesized_statement_starts_with_query :: "string \<Rightarrow> bool" where
  "parenthesized_statement_starts_with_query s =
     (let start = strip_leading_comments_and_whitespace s;
          remaining = after_open_parens start
      in starts_with start ''('' \<and>
         (case map_option to_ascii_uppercase (first_meaningful_word remaining) of
            None \<Rightarrow> False
          | Some word \<Rightarrow>
              word \<in> {''SELECT'', ''VALUES'', ''TABLE''} \<or>
              word = ''WITH'' \<and> with_clause_starts_with_select remaining))"

definition is_select_statement :: "char_tables \<Rightarrow> string \<Rightarrow> bool" where
  "is_select_statement tables s =
     (let keyword = query_leading_keyword tables s
      in if keyword \<in> {Some ''SELECT'', Some ''VALUES'', Some ''TABLE''} then True
         else if keyword = Some ''WITH'' then with_clause_starts_with_select s
         else parenthesized_statement_starts_with_query s)"

section \<open>The text that is sent\<close>

definition strip_trailing_sqlplus_slash :: "string \<Rightarrow> string" where
  "strip_trailing_sqlplus_slash s =
     (let trimmed = trim_end s
      in if trimmed = [] \<or> last trimmed \<noteq> CHR ''/'' then trimmed
         else
           (let before_slash = butlast trimmed;
                line = rev (takeWhile (\<lambda>c. c \<noteq> CHR 0x0A) (rev before_slash))
            in if trim line \<noteq> [] then trimmed else trim_end before_slash))"

definition trailing_tokens :: "char_tables \<Rightarrow> string \<Rightarrow> string list" where
  "trailing_tokens tables s =
     map (\<lambda>token. to_ascii_uppercase (concat token))
       (filter (\<lambda>token. token \<noteq> [])
         (map (trim_matches (\<lambda>ch. \<not> is_identifier_char tables ch))
           (rev (nonempty_pieces char_is_whitespace s))))"

definition should_preserve_trailing_semicolon_for_execute :: "char_tables \<Rightarrow> string \<Rightarrow> bool" where
  "should_preserve_trailing_semicolon_for_execute tables s \<longleftrightarrow>
     query_leading_keyword tables s \<in> {Some ''BEGIN'', Some ''DECLARE''} \<or>
     starts_create_stored_unit tables s \<or>
     ''END'' \<in> set (take 2 (trailing_tokens tables s))"

definition normalize_sql_for_execute :: "char_tables \<Rightarrow> string \<Rightarrow> string" where
  "normalize_sql_for_execute tables s =
     (let sql_trimmed = strip_trailing_sqlplus_slash (trim s);
          without_trailing_semicolons =
            trim_end (rev (dropWhile (\<lambda>c. c = CHR '';'') (rev sql_trimmed)))
      in if trim s = [] \<or> sql_trimmed = [] \<or> without_trailing_semicolons = [] then []
         else if should_preserve_trailing_semicolon_for_execute tables sql_trimmed
         then without_trailing_semicolons @ '';''
         else without_trailing_semicolons)"

section \<open>A commit or a rollback and nothing else\<close>

definition consume_plain_keyword_word :: "char_tables \<Rightarrow> string \<Rightarrow> nat \<Rightarrow> string \<Rightarrow> nat option" where
  "consume_plain_keyword_word tables s pos keyword =
     (let after = pos + length keyword
      in if length s < after then None
         else if to_ascii_uppercase (slice s pos after) \<noteq> to_ascii_uppercase keyword then None
         else if after < length s \<and> is_identifier_char tables (char_at s after) then None
         else Some after)"

function skip_plain_keyword_padding :: "string \<Rightarrow> nat \<Rightarrow> nat option" where
  "skip_plain_keyword_padding s pos =
     (if pos < length s then
        (if char_is_whitespace (char_at s pos)
         then skip_plain_keyword_padding s (pos + length (char_at s pos))
         else if starts_with (drop pos s) ''--'' then skip_plain_keyword_padding s (after_line s pos)
         else if starts_with (drop pos s) ''/*'' then
           (case find_text (drop (pos + 2) s) ''*/'' of
              None \<Rightarrow> None
            | Some block_end \<Rightarrow> skip_plain_keyword_padding s (pos + 2 + block_end + 2))
         else Some pos)
      else Some pos)"
  by pat_completeness auto
termination
  by (relation "measure (\<lambda>(s, pos). length s - pos)")
    (simp_all add: char_at_step after_line_bounds diff_less_mono2)

declare skip_plain_keyword_padding.simps [simp del]

lemma skip_plain_keyword_padding_bounds:
  "skip_plain_keyword_padding s pos = Some n \<Longrightarrow> pos \<le> n"
proof (induction s pos rule: skip_plain_keyword_padding.induct)
  case (1 s pos)
  have line: "pos < length s \<Longrightarrow> pos \<le> after_line s pos" using after_line_bounds [of pos s] by simp
  note eq = 1(4) [unfolded skip_plain_keyword_padding.simps [of s pos]]
  show ?case
    using eq 1(1-3) line by (auto split: if_splits option.splits)
qed

function only_plain_keyword_trivia_remains :: "string \<Rightarrow> nat \<Rightarrow> bool" where
  "only_plain_keyword_trivia_remains s pos =
     (case skip_plain_keyword_padding s pos of
        None \<Rightarrow> False
      | Some pos \<Rightarrow>
          if length s \<le> pos then True
          else if s ! pos = CHR '';'' then only_plain_keyword_trivia_remains s (pos + 1)
          else False)"
  by pat_completeness auto
termination
proof (relation "measure (\<lambda>(s, pos). length s - pos)", goal_cases)
  case (2 s pos n)
  then show ?case using skip_plain_keyword_padding_bounds [of s pos n] by simp
qed simp

declare only_plain_keyword_trivia_remains.simps [simp del]

definition is_plain_keyword :: "char_tables \<Rightarrow> string \<Rightarrow> string \<Rightarrow> bool" where
  "is_plain_keyword tables s keyword =
     (let s = strip_leading_comments_and_whitespace s
      in case skip_plain_keyword_padding s 0 of
           None \<Rightarrow> False
         | Some pos \<Rightarrow>
             (case consume_plain_keyword_word tables s pos keyword of
                None \<Rightarrow> False
              | Some after_keyword \<Rightarrow>
                  (case skip_plain_keyword_padding s after_keyword of
                     None \<Rightarrow> False
                   | Some pos \<Rightarrow>
                       only_plain_keyword_trivia_remains s
                         (case consume_plain_keyword_word tables s pos ''WORK'' of
                            Some after_work \<Rightarrow> after_work | None \<Rightarrow> pos))))"

definition is_plain_commit :: "char_tables \<Rightarrow> string \<Rightarrow> bool" where
  "is_plain_commit tables s = is_plain_keyword tables s ''COMMIT''"

definition is_plain_rollback :: "char_tables \<Rightarrow> string \<Rightarrow> bool" where
  "is_plain_rollback tables s = is_plain_keyword tables s ''ROLLBACK''"

section \<open>The result that is expected\<close>

datatype StatementResultKind =
    EmptyResult | SelectResult | DmlResult | CommitResult | RollbackResult | UseResult | CallResult
  | ExecResult | DdlResult

record StatementExecutionProfile =
  result_kind :: StatementResultKind
  session_kind :: SqlKind

definition classify_oracle_result_kind :: "char_tables \<Rightarrow> string \<Rightarrow> StatementResultKind" where
  "classify_oracle_result_kind tables s =
     (let normalized = normalize_sql_for_execute tables s;
          keyword = query_leading_keyword tables normalized
      in if normalized = [] then EmptyResult
         else if is_select_statement tables normalized then SelectResult
         else if keyword \<in> {Some ''INSERT'', Some ''UPDATE'', Some ''DELETE'', Some ''MERGE''} then DmlResult
         else if keyword \<in> {Some ''BEGIN'', Some ''DECLARE'', Some ''CALL''} then CallResult
         else if keyword \<in> {Some ''EXEC'', Some ''EXECUTE''} then ExecResult
         else if keyword = Some ''COMMIT'' \<and> is_plain_commit tables normalized then CommitResult
         else if keyword = Some ''ROLLBACK'' \<and> is_plain_rollback tables normalized then RollbackResult
         else DdlResult)"

definition mysql_keyword_result_kind ::
    "char_tables \<Rightarrow> DatabaseType \<Rightarrow> string \<Rightarrow> string list \<Rightarrow> StatementResultKind" where
  "mysql_keyword_result_kind tables db_type display_sql ws =
     (let keyword = query_leading_keyword tables display_sql
      in if keyword \<in> {Some ''INSERT'', Some ''UPDATE'', Some ''DELETE'', Some ''REPLACE'', Some ''WITH''}
         then DmlResult
         else if keyword \<in> {Some ''EXECUTE'', Some ''HANDLER'', Some ''HELP'', Some ''CACHE''} then DmlResult
         else if keyword = Some ''LOAD'' \<and> starts_with_words ws [''LOAD'', ''INDEX'', ''INTO'', ''CACHE'']
         then DmlResult
         else if keyword = Some ''COMMIT'' then CommitResult
         else if keyword = Some ''ROLLBACK'' then RollbackResult
         else if keyword = Some ''USE'' then UseResult
         else if keyword = Some ''CALL'' then CallResult
         else if keyword \<in> {Some ''SHOW'', Some ''DESCRIBE'', Some ''DESC'', Some ''EXPLAIN'',
                             Some ''ANALYZE'', Some ''CHECK'', Some ''CHECKSUM'', Some ''OPTIMIZE'',
                             Some ''REPAIR''} then SelectResult
         else if keyword = Some ''XA'' \<and> starts_with_words ws [''XA'', ''RECOVER''] then SelectResult
         else DdlResult)"

definition classify_mysql_result_kind ::
    "char_tables \<Rightarrow> DatabaseType \<Rightarrow> string \<Rightarrow> StatementResultKind" where
  "classify_mysql_result_kind tables db_type s =
     (let normalized = normalize_sql_for_execute tables s;
          display_sql =
            (case db_type of
               MariaDB \<Rightarrow>
                 (case mariadb_set_statement_inner_sql normalized of
                    Some inner \<Rightarrow> inner | None \<Rightarrow> normalized)
             | _ \<Rightarrow> normalized);
          ws = analysis_words (new_for_db_type tables db_type display_sql)
      in if normalized = [] then EmptyResult
         else if db_type = Oracle then classify_oracle_result_kind tables normalized
         else if is_select_statement tables display_sql then SelectResult
         else if classify_sql_for_db_type tables db_type display_sql = SelectLike then SelectResult
         else if db_type = MariaDB \<and> starts_with_words ws [''BEGIN'', ''NOT'', ''ATOMIC''] then CallResult
         else if starts_with_words ws [''ALTER'', ''TABLE''] \<and>
           words_contain_sequence ws [''ANALYZE'', ''PARTITION''] then DmlResult
         else mysql_keyword_result_kind tables db_type display_sql ws)"

definition statement_execution_profile_for_db_type ::
    "char_tables \<Rightarrow> DatabaseType \<Rightarrow> string \<Rightarrow> StatementExecutionProfile" where
  "statement_execution_profile_for_db_type tables db_type s =
     \<lparr>result_kind =
        (case db_type of
           Oracle \<Rightarrow> classify_oracle_result_kind tables s
         | MySQL \<Rightarrow> classify_mysql_result_kind tables db_type s
         | MariaDB \<Rightarrow> classify_mysql_result_kind tables db_type s),
      session_kind = classify_sql_for_db_type tables db_type s\<rparr>"

section \<open>The time limit\<close>

definition mysql_statement_sets_session_timeout_variable :: "char_tables \<Rightarrow> string \<Rightarrow> bool" where
  "mysql_statement_sets_session_timeout_variable tables s =
     mysql_set_statement_assigns_session_variable tables s
       [''LOCK_WAIT_TIMEOUT'', ''INNODB_LOCK_WAIT_TIMEOUT'', ''MAX_EXECUTION_TIME'', ''MAX_STATEMENT_TIME'']"

definition mysql_statement_uses_timeout_sensitive_diagnostics ::
    "char_tables \<Rightarrow> DatabaseType \<Rightarrow> string \<Rightarrow> bool" where
  "mysql_statement_uses_timeout_sensitive_diagnostics tables db_type s \<longleftrightarrow>
     classify_sql_for_db_type tables db_type s = Dml \<or>
     list_ex (\<lambda>word. word \<in> {''SQL_CALC_FOUND_ROWS'', ''FOUND_ROWS'', ''ROW_COUNT''})
       (analysis_words (new_for_db_type tables db_type s))"

definition query_timeout_for_statement_for_db_type ::
    "char_tables \<Rightarrow> DatabaseType \<Rightarrow> string \<Rightarrow> 'duration option \<Rightarrow> 'duration option" where
  "query_timeout_for_statement_for_db_type tables db_type s query_timeout =
     (let skips_session_timeout_wrapper =
        (case db_type of
           Oracle \<Rightarrow> False
         | _ \<Rightarrow> mysql_statement_sets_session_timeout_variable tables s \<or>
                mysql_statement_uses_timeout_sensitive_diagnostics tables db_type s)
      in if query_timeout \<noteq> None \<and> skips_session_timeout_wrapper then None else query_timeout)"

section \<open>The questions of the MySQL executor\<close>

datatype MysqlStatementKind =
  MysqlSelect | MysqlDml | MysqlCommit | MysqlRollback | MysqlUse | MysqlCall | MysqlDdl

definition classify_statement_for_db_type ::
    "char_tables \<Rightarrow> DatabaseType \<Rightarrow> string \<Rightarrow> MysqlStatementKind" where
  "classify_statement_for_db_type tables db_type s =
     (case result_kind (statement_execution_profile_for_db_type tables db_type s) of
        SelectResult \<Rightarrow> MysqlSelect
      | DmlResult \<Rightarrow> MysqlDml
      | CommitResult \<Rightarrow> MysqlCommit
      | RollbackResult \<Rightarrow> MysqlRollback
      | UseResult \<Rightarrow> MysqlUse
      | CallResult \<Rightarrow> MysqlCall
      | EmptyResult \<Rightarrow> MysqlDdl
      | ExecResult \<Rightarrow> MysqlDdl
      | DdlResult \<Rightarrow> MysqlDdl)"

definition is_select_statement_for_db_type :: "char_tables \<Rightarrow> DatabaseType \<Rightarrow> string \<Rightarrow> bool" where
  "is_select_statement_for_db_type tables db_type s \<longleftrightarrow>
     classify_statement_for_db_type tables db_type s = MysqlSelect"

definition is_use_statement_for_db_type :: "char_tables \<Rightarrow> DatabaseType \<Rightarrow> string \<Rightarrow> bool" where
  "is_use_statement_for_db_type tables db_type s \<longleftrightarrow>
     classify_statement_for_db_type tables db_type s = MysqlUse"

fun position_of :: "'a \<Rightarrow> 'a list \<Rightarrow> nat option" where
  "position_of x [] = None"
| "position_of x (y # ys) = (if y = x then Some 0 else map_option Suc (position_of x ys))"

definition result_producing_select_word_index :: "string list \<Rightarrow> nat option" where
  "result_producing_select_word_index ws =
     (case nth_word ws 0 of
        None \<Rightarrow> None
      | Some first \<Rightarrow>
          if first = ''SELECT'' then Some 0
          else if first = ''WITH'' then position_of ''SELECT'' ws
          else if first = ''TABLE'' \<or> first = ''VALUES'' then Some 0
          else None)"

definition select_statement_targets_non_result_destination_for_db_type ::
    "char_tables \<Rightarrow> DatabaseType \<Rightarrow> string \<Rightarrow> bool" where
  "select_statement_targets_non_result_destination_for_db_type tables db_type s =
     (let ws = analysis_words (new_for_db_type tables db_type s)
      in case (case result_producing_select_word_index ws of
                 Some index \<Rightarrow> Some index
               | None \<Rightarrow> if starts_with (trim_start s) ''('' then Some 0 else None) of
           None \<Rightarrow> False
         | Some select_index \<Rightarrow> ''INTO'' \<in> set (drop (select_index + 1) ws))"

definition is_displayable_select_statement_for_db_type ::
    "char_tables \<Rightarrow> DatabaseType \<Rightarrow> string \<Rightarrow> bool" where
  "is_displayable_select_statement_for_db_type tables db_type s \<longleftrightarrow>
     is_select_statement_for_db_type tables db_type s \<and>
     \<not> select_statement_targets_non_result_destination_for_db_type tables db_type s"

definition transaction_control_sql_to_execute :: "char_tables \<Rightarrow> string \<Rightarrow> string \<Rightarrow> string" where
  "transaction_control_sql_to_execute tables s keyword =
     (if keyword = ''COMMIT'' \<and> is_plain_commit tables s then keyword
      else if keyword = ''ROLLBACK'' \<and> is_plain_rollback tables s then keyword
      else s)"

end
