(* ===== verification/Set_Reader.thy ===== *)
theory Set_Reader
  imports Execution_Backend
begin

text \<open>
  The text readers that the ledger keeps for itself (\<^verbatim>\<open>src/db/transaction.rs\<close>): comments removed, the
  assignments of a \<^verbatim>\<open>SET\<close> statement with their scopes and values, lock-function calls. With the
  classifier they answer every question of \<open>text_reader\<close>, and \<open>sql_reader\<close> is that instance.

  The source walks some of these texts by character. On UTF-8 every test is against an ASCII character
  and every other byte is copied or skipped, so the walks are by byte here.
\<close>

section \<open>Comments and quotes\<close>

definition mysql_skip_quoted_bytes :: "string \<Rightarrow> nat \<Rightarrow> nat" where
  "mysql_skip_quoted_bytes s idx =
     (if idx < length s then quoted_end s (s ! idx) (idx + 1) else idx)"

lemma mysql_skip_quoted_bytes_forward:
  "idx < length s \<Longrightarrow> idx < mysql_skip_quoted_bytes s idx \<and> mysql_skip_quoted_bytes s idx \<le> length s"
  using quoted_end_bounds [of "idx + 1" s "s ! idx"] by (auto simp: mysql_skip_quoted_bytes_def)

definition is_quote :: "char \<Rightarrow> bool" where
  "is_quote c \<longleftrightarrow> c \<in> {CHR 0x27, CHR 0x22, CHR 0x60}"

function without_comments_loop :: "string \<Rightarrow> nat \<Rightarrow> char option \<Rightarrow> string \<Rightarrow> string" where
  "without_comments_loop s idx quote result =
     (if idx < length s then
        (case quote of
           Some q \<Rightarrow>
             if s ! idx = CHR 0x5C then
               without_comments_loop s (idx + 2) quote (result @ take 2 (drop idx s))
             else if s ! idx = q then
               (if byte_at s (idx + 1) = Some q
                then without_comments_loop s (idx + 2) quote (result @ [q, q])
                else without_comments_loop s (idx + 1) None (result @ [q]))
             else without_comments_loop s (idx + 1) quote (result @ [s ! idx])
         | None \<Rightarrow>
             if s ! idx = CHR ''/'' \<and> byte_at s (idx + 1) = Some CHR ''*'' then
               (case find_text (drop (idx + 2) s) ''*/'' of
                  None \<Rightarrow> result
                | Some end_offset \<Rightarrow>
                    without_comments_loop s (idx + 2 + end_offset + 2) None (result @ '' ''))
             else if s ! idx = CHR ''#'' \<or>
               s ! idx = CHR ''-'' \<and> byte_at s (idx + 1) = Some CHR ''-'' \<and>
               (case byte_at s (idx + 2) of None \<Rightarrow> True | Some b \<Rightarrow> is_ascii_whitespace b) then
               (case find_text (drop idx s) [CHR 0x0A] of
                  None \<Rightarrow> result
                | Some end_offset \<Rightarrow> without_comments_loop s (idx + end_offset + 1) None (result @ '' ''))
             else
               without_comments_loop s (idx + 1) (if is_quote (s ! idx) then Some (s ! idx) else None)
                 (result @ [s ! idx]))
      else result)"
  by pat_completeness auto
termination by (relation "measure (\<lambda>(s, idx, _). length s - idx)") auto

declare without_comments_loop.simps [simp del]

definition mysql_statement_without_comments :: "string \<Rightarrow> string" where
  "mysql_statement_without_comments s =
     without_comments_loop
       (mysql_sql_with_executable_comments_expanded (strip_leading_comments_and_whitespace s)) 0 None []"

function compact_upper_loop :: "string \<Rightarrow> nat \<Rightarrow> string" where
  "compact_upper_loop s idx =
     (if idx < length s then
        (if is_quote (s ! idx) then compact_upper_loop s (mysql_skip_quoted_bytes s idx)
         else if is_ascii_whitespace (s ! idx) then compact_upper_loop s (idx + 1)
         else if (of_char (s ! idx) :: nat) < 128 then
           to_ascii_upper (s ! idx) # compact_upper_loop s (idx + 1)
         else compact_upper_loop s (idx + 1))
      else [])"
  by pat_completeness auto
termination
  by (relation "measure (\<lambda>(s, idx). length s - idx)")
    (auto dest: mysql_skip_quoted_bytes_forward intro: diff_less_mono2)

declare compact_upper_loop.simps [simp del]

definition mysql_unquoted_compact_upper :: "string \<Rightarrow> string" where
  "mysql_unquoted_compact_upper s = compact_upper_loop (mysql_statement_without_comments s) 0"

section \<open>The pieces of a SET statement\<close>

definition mysql_consume_set_keyword :: "string \<Rightarrow> string \<Rightarrow> nat option" where
  "mysql_consume_set_keyword input keyword =
     (if length input < length keyword then None
      else if to_ascii_uppercase (take (length keyword) input) \<noteq> to_ascii_uppercase keyword then None
      else
        (case byte_at input (length keyword) of
           Some b \<Rightarrow> if mysql_user_variable_name_byte b then None else Some (length keyword)
         | None \<Rightarrow> Some (length keyword)))"

definition mysql_set_assignments_body :: "string \<Rightarrow> string option" where
  "mysql_set_assignments_body cleaned_sql =
     (let trimmed = trim_start cleaned_sql
      in map_option (\<lambda>after_set. trim_start (drop after_set trimmed))
           (mysql_consume_set_keyword trimmed ''SET''))"

function split_loop :: "string \<Rightarrow> nat \<Rightarrow> nat \<Rightarrow> char option \<Rightarrow> nat \<Rightarrow> string list" where
  "split_loop input start idx quote nesting =
     (if idx < length input then
        (case quote of
           Some q \<Rightarrow>
             if input ! idx = CHR 0x5C then split_loop input start (idx + 2) quote nesting
             else if input ! idx = q then
               (if byte_at input (idx + 1) = Some q then split_loop input start (idx + 2) quote nesting
                else split_loop input start (idx + 1) None nesting)
             else split_loop input start (idx + 1) quote nesting
         | None \<Rightarrow>
             if is_quote (input ! idx) then split_loop input start (idx + 1) (Some (input ! idx)) nesting
             else if input ! idx = CHR ''('' then split_loop input start (idx + 1) None (nesting + 1)
             else if input ! idx = CHR '')'' then split_loop input start (idx + 1) None (nesting - 1)
             else if input ! idx = CHR '','' \<and> nesting = 0 then
               slice input start idx # split_loop input (idx + 1) (idx + 1) None nesting
             else split_loop input start (idx + 1) None nesting)
      else [drop start input])"
  by pat_completeness auto
termination by (relation "measure (\<lambda>(s, start, idx, _). length s - idx)") auto

declare split_loop.simps [simp del]

definition mysql_split_unquoted_assignments :: "string \<Rightarrow> string list" where
  "mysql_split_unquoted_assignments input = split_loop input 0 0 None 0"

function target_and_value_loop :: "string \<Rightarrow> nat \<Rightarrow> nat \<Rightarrow> (string \<times> string) option" where
  "target_and_value_loop s nesting idx =
     (if idx < length s then
        (if is_quote (s ! idx) then target_and_value_loop s nesting (mysql_skip_quoted_bytes s idx)
         else if s ! idx = CHR ''('' then target_and_value_loop s (nesting + 1) (idx + 1)
         else if s ! idx = CHR '')'' then target_and_value_loop s (nesting - 1) (idx + 1)
         else if s ! idx = CHR ''='' \<and> nesting = 0 then Some (take idx s, drop (idx + 1) s)
         else if s ! idx = CHR '':'' \<and> nesting = 0 \<and> byte_at s (idx + 1) = Some CHR ''='' then
           Some (take idx s, drop (idx + 2) s)
         else target_and_value_loop s nesting (idx + 1))
      else None)"
  by pat_completeness auto
termination
  by (relation "measure (\<lambda>(s, nesting, idx). length s - idx)")
    (auto dest: mysql_skip_quoted_bytes_forward intro: diff_less_mono2)

declare target_and_value_loop.simps [simp del]

definition mysql_set_assignment_target_and_value :: "string \<Rightarrow> (string \<times> string) option" where
  "mysql_set_assignment_target_and_value assignment = target_and_value_loop assignment 0 0"

fun normalize_chars :: "char_tables \<Rightarrow> string \<Rightarrow> bool \<Rightarrow> string list \<Rightarrow> string" where
  "normalize_chars tables normalized pending_space [] = normalized"
| "normalize_chars tables normalized pending_space (ch # chs) =
     (if char_is_whitespace ch then normalize_chars tables normalized (normalized \<noteq> []) chs
      else
        (let binds_to_neighbour =
           (ch = ''.'' \<or> normalized \<noteq> [] \<and> last normalized \<in> {CHR ''.'', CHR ''@''})
         in normalize_chars tables
              (normalized @ (if pending_space \<and> \<not> binds_to_neighbour then '' '' else [])
                 @ char_to_uppercase tables ch) False chs))"

definition mysql_normalized_set_assignment_target :: "char_tables \<Rightarrow> string \<Rightarrow> string" where
  "mysql_normalized_set_assignment_target tables target =
     normalize_chars tables [] False (text_chars target)"

definition mysql_session_scoped_target :: "string \<Rightarrow> string option" where
  "mysql_session_scoped_target target =
     (if is_user_variable_target target then None
      else if normalized_set_target_is_global_or_persist_scope target then None
      else Some (without_session_scope target))"

definition mysql_session_scoped_assignment_parts :: "char_tables \<Rightarrow> string \<Rightarrow> (string \<times> string) option" where
  "mysql_session_scoped_assignment_parts tables assignment =
     (case mysql_set_assignment_target_and_value assignment of
        None \<Rightarrow> None
      | Some (target, v) \<Rightarrow>
          map_option (\<lambda>target. (target, v))
            (mysql_session_scoped_target (mysql_normalized_set_assignment_target tables target)))"

section \<open>Values\<close>

function trim_statement_terminators :: "string \<Rightarrow> string" where
  "trim_statement_terminators body =
     (if body \<noteq> [] \<and> last body = CHR '';'' then trim_statement_terminators (trim_end (butlast body))
      else body)"
  by pat_completeness auto
termination
proof (relation "measure length", goal_cases)
  case (2 body)
  then show ?case
    using length_strip_front [of "map rev white_space" "rev (butlast body)"]
    by (cases body) (auto simp: trim_end_def)
qed simp

declare trim_statement_terminators.simps [simp del]

definition mysql_trim_statement_terminators :: "string \<Rightarrow> string" where
  "mysql_trim_statement_terminators body = trim_statement_terminators body"

text \<open>
  Whether the parenthesis that opens a text closes at its last byte. The compact form has no quotes left
  to skip.
\<close>

function wraps_entire_value :: "bool \<Rightarrow> string \<Rightarrow> nat \<Rightarrow> nat \<Rightarrow> bool" where
  "wraps_entire_value quotes s nesting idx =
     (if idx < length s then
        (if quotes \<and> is_quote (s ! idx) then
           wraps_entire_value quotes s nesting (mysql_skip_quoted_bytes s idx)
         else if s ! idx = CHR ''('' then wraps_entire_value quotes s (nesting + 1) (idx + 1)
         else if s ! idx = CHR '')'' then
           (if nesting - 1 = 0 \<and> idx \<noteq> length s - 1 then False
            else wraps_entire_value quotes s (nesting - 1) (idx + 1))
         else wraps_entire_value quotes s nesting (idx + 1))
      else nesting = 0)"
  by pat_completeness auto
termination
  by (relation "measure (\<lambda>(quotes, s, nesting, idx). length s - idx)")
    (auto dest: mysql_skip_quoted_bytes_forward intro: diff_less_mono2)

declare wraps_entire_value.simps [simp del]

definition is_wrapped :: "bool \<Rightarrow> string \<Rightarrow> bool" where
  "is_wrapped quotes s \<longleftrightarrow>
     2 \<le> length s \<and> hd s = CHR ''('' \<and> last s = CHR '')'' \<and> wraps_entire_value quotes s 0 0"

definition inside :: "string \<Rightarrow> string" where
  "inside s = slice s 1 (length s - 1)"

lemma length_inside: "2 \<le> length s \<Longrightarrow> length (inside s) + 2 = length s"
  by (simp add: inside_def slice_def)

function unwrap_value :: "string \<Rightarrow> string" where
  "unwrap_value current =
     (if is_wrapped True current then unwrap_value (trim (inside current)) else current)"
  by pat_completeness auto
termination
proof (relation "measure length", goal_cases)
  case (2 current)
  then show ?case
    using length_inside [of current] length_trim [of "inside current"] by (simp add: is_wrapped_def)
qed simp

declare unwrap_value.simps [simp del]

definition mysql_strip_wrapping_parentheses_from_value :: "string \<Rightarrow> string" where
  "mysql_strip_wrapping_parentheses_from_value v = unwrap_value (trim v)"

function mysql_strip_wrapping_parentheses_from_compact_value :: "string \<Rightarrow> string" where
  "mysql_strip_wrapping_parentheses_from_compact_value current =
     (if is_wrapped False current
      then mysql_strip_wrapping_parentheses_from_compact_value (inside current) else current)"
  by pat_completeness auto
termination
proof (relation "measure length", goal_cases)
  case (2 current)
  then show ?case using length_inside [of current] by (simp add: is_wrapped_def)
qed simp

declare mysql_strip_wrapping_parentheses_from_compact_value.simps [simp del]

fun unquote_loop :: "char \<Rightarrow> string \<Rightarrow> string option" where
  "unquote_loop quote [] = Some []"
| "unquote_loop quote [ch] = (if ch = CHR 0x5C \<or> ch = quote then None else Some [ch])"
| "unquote_loop quote (ch # next # chs) =
     (if ch = CHR 0x5C then map_option (Cons next) (unquote_loop quote chs)
      else if ch = quote then
        (if next = quote then map_option (Cons quote) (unquote_loop quote chs) else None)
      else map_option (Cons ch) (unquote_loop quote (next # chs)))"

text \<open>
  A text that is one quote character opens and closes at that character, and the slice between the two
  starts after its end: the outer \<open>None\<close> is that panic.
\<close>

definition mysql_unquote_simple_string_literal :: "string \<Rightarrow> string option option" where
  "mysql_unquote_simple_string_literal v =
     (case v of
        [] \<Rightarrow> Some None
      | quote # _ \<Rightarrow>
          if quote \<notin> {CHR 0x27, CHR 0x22} \<or> last v \<noteq> quote then Some None
          else if length v < 2 then None
          else Some (unquote_loop quote (inside v)))"

definition mysql_normalized_set_assignment_value :: "string \<Rightarrow> string option" where
  "mysql_normalized_set_assignment_value v =
     (let trimmed =
        trim (mysql_strip_wrapping_parentheses_from_value (mysql_trim_statement_terminators (trim v)))
      in case mysql_unquote_simple_string_literal trimmed of
           None \<Rightarrow> None
         | Some (Some unquoted) \<Rightarrow> Some (to_ascii_uppercase (trim unquoted))
         | Some None \<Rightarrow>
             Some (mysql_strip_wrapping_parentheses_from_compact_value
               (concat (filter (\<lambda>ch. \<not> char_is_whitespace ch) (text_chars (to_ascii_uppercase trimmed))))))"

fun all_or_panic :: "'a option list \<Rightarrow> 'a list option" where
  "all_or_panic [] = Some []"
| "all_or_panic (x # xs) =
     (case x of None \<Rightarrow> None | Some v \<Rightarrow> map_option (Cons v) (all_or_panic xs))"

definition set_assignments :: "string \<Rightarrow> string list option" where
  "set_assignments s =
     map_option mysql_split_unquoted_assignments
       (mysql_set_assignments_body (mysql_statement_without_comments s))"

definition mysql_autocommit_assignment_values :: "char_tables \<Rightarrow> string \<Rightarrow> string list option" where
  "mysql_autocommit_assignment_values tables s =
     (case set_assignments s of
        None \<Rightarrow> Some []
      | Some assignments \<Rightarrow>
          all_or_panic
            (map (\<lambda>(target, v). mysql_normalized_set_assignment_value v)
              (filter (\<lambda>(target, v). target = ''AUTOCOMMIT'')
                (List.map_filter (mysql_session_scoped_assignment_parts tables) assignments))))"

section \<open>Scopes\<close>

definition mysql_set_body_starts_with_user_variable :: "string \<Rightarrow> bool" where
  "mysql_set_body_starts_with_user_variable s =
     (case mysql_set_assignments_body (mysql_statement_without_comments s) of
        None \<Rightarrow> False
      | Some body \<Rightarrow> byte_at body 0 = Some CHR ''@'' \<and> byte_at body 1 \<noteq> Some CHR ''@'')"

definition assignment_target :: "char_tables \<Rightarrow> string \<Rightarrow> string option" where
  "assignment_target tables assignment =
     map_option (\<lambda>(target, v). mysql_normalized_set_assignment_target tables target)
       (mysql_set_assignment_target_and_value assignment)"

definition mysql_set_assignment_target_is_global_or_persist_scope :: "string \<Rightarrow> bool" where
  "mysql_set_assignment_target_is_global_or_persist_scope target \<longleftrightarrow>
     list_ex (starts_with target)
       [''GLOBAL '', ''PERSIST '', ''PERSIST_ONLY '', ''@@GLOBAL.'', ''@@PERSIST.'', ''@@PERSIST_ONLY.'']"

definition mysql_set_statement_affects_only_global_or_persist_scope ::
    "char_tables \<Rightarrow> string \<Rightarrow> string list \<Rightarrow> bool" where
  "mysql_set_statement_affects_only_global_or_persist_scope tables s words =
     (starts_with_words words [''SET'', ''GLOBAL'', ''TRANSACTION''] \<or>
      (case set_assignments s of
         None \<Rightarrow> False
       | Some assignments \<Rightarrow>
           assignments \<noteq> [] \<and>
           list_all (\<lambda>a. case assignment_target tables a of
               None \<Rightarrow> False
             | Some target \<Rightarrow> mysql_set_assignment_target_is_global_or_persist_scope target) assignments))"

definition mysql_is_transaction_mode_assignment_target :: "string \<Rightarrow> bool" where
  "mysql_is_transaction_mode_assignment_target target \<longleftrightarrow>
     target \<in> {''TRANSACTION_ISOLATION'', ''TX_ISOLATION'', ''TRANSACTION_READ_ONLY'', ''TX_READ_ONLY''}"

definition scope_of_target :: "string \<Rightarrow> MySqlTransactionModeAssignmentScope option" where
  "scope_of_target target =
     (if is_user_variable_target target then None
      else if mysql_set_assignment_target_is_global_or_persist_scope target then None
      else if mysql_is_transaction_mode_assignment_target (without_session_scope target) then
        Some (if starts_with target ''@@'' \<and> \<not> starts_with target ''@@SESSION.'' \<and>
                 \<not> starts_with target ''@@LOCAL.''
              then NextTransactionScope else SessionScope)
      else None)"

definition mysql_transaction_mode_assignment_scope ::
    "char_tables \<Rightarrow> string \<Rightarrow> MySqlTransactionModeAssignmentScope option" where
  "mysql_transaction_mode_assignment_scope tables assignment =
     Option.bind (assignment_target tables assignment) scope_of_target"

definition mysql_transaction_mode_assignment_scopes ::
    "char_tables \<Rightarrow> string \<Rightarrow> MySqlTransactionModeAssignmentScope list" where
  "mysql_transaction_mode_assignment_scopes tables s =
     (case set_assignments s of
        None \<Rightarrow> []
      | Some assignments \<Rightarrow>
          List.map_filter (mysql_transaction_mode_assignment_scope tables) assignments)"

definition mysql_set_assignment_targets_user_variable :: "char_tables \<Rightarrow> string \<Rightarrow> bool" where
  "mysql_set_assignment_targets_user_variable tables assignment =
     (case assignment_target tables assignment of
        None \<Rightarrow> False | Some target \<Rightarrow> is_user_variable_target target)"

definition mysql_set_assigns_user_variable :: "char_tables \<Rightarrow> string \<Rightarrow> bool" where
  "mysql_set_assigns_user_variable tables s =
     (case set_assignments s of
        None \<Rightarrow> False
      | Some assignments \<Rightarrow> list_ex (mysql_set_assignment_targets_user_variable tables) assignments)"

definition mysql_set_has_untracked_session_assignment :: "char_tables \<Rightarrow> string \<Rightarrow> bool" where
  "mysql_set_has_untracked_session_assignment tables s =
     (case set_assignments s of
        None \<Rightarrow> False
      | Some assignments \<Rightarrow>
          list_ex (\<lambda>(target, v). target \<noteq> ''AUTOCOMMIT'' \<and>
              \<not> mysql_is_transaction_mode_assignment_target target)
            (List.map_filter (mysql_session_scoped_assignment_parts tables) assignments))"

section \<open>Lock-function calls\<close>

definition after_white_space :: "string \<Rightarrow> nat \<Rightarrow> nat" where
  "after_white_space s idx = idx + length (takeWhile is_ascii_whitespace (drop idx s))"

definition mysql_statement_body_after_keyword :: "string \<Rightarrow> string \<Rightarrow> string option" where
  "mysql_statement_body_after_keyword trimmed_sql keyword =
     map_option (\<lambda>after_keyword. mysql_trim_statement_terminators (trim (drop after_keyword trimmed_sql)))
       (mysql_consume_set_keyword trimmed_sql keyword)"

text \<open>The byte position of the parenthesis that closes the one at the start of the walk.\<close>

function call_close :: "string \<Rightarrow> nat \<Rightarrow> nat \<Rightarrow> nat option" where
  "call_close body nesting idx =
     (if idx < length body then
        (if is_quote (body ! idx) then call_close body nesting (mysql_skip_quoted_bytes body idx)
         else if body ! idx = CHR ''('' then call_close body (nesting + 1) (idx + 1)
         else if body ! idx = CHR '')'' then
           (if nesting - 1 = 0 then Some idx else call_close body (nesting - 1) (idx + 1))
         else call_close body nesting (idx + 1))
      else None)"
  by pat_completeness auto
termination
  by (relation "measure (\<lambda>(body, nesting, idx). length body - idx)")
    (auto dest: mysql_skip_quoted_bytes_forward intro: diff_less_mono2)

declare call_close.simps [simp del]

definition mysql_single_function_call_args_from_body :: "string \<Rightarrow> string \<Rightarrow> string option" where
  "mysql_single_function_call_args_from_body body function_name =
     (let body = mysql_trim_statement_terminators (trim body)
      in case mysql_consume_set_keyword body function_name of
           None \<Rightarrow> None
         | Some after_name \<Rightarrow>
             (let idx = after_white_space body after_name
              in if byte_at body idx \<noteq> Some CHR ''('' then None
                 else
                   (case call_close body 0 idx of
                      None \<Rightarrow> None
                    | Some close \<Rightarrow>
                        if trim (drop (close + 1) body) = [] then Some (slice body (idx + 1) close)
                        else None)))"

definition argument_word_end :: "string \<Rightarrow> nat \<Rightarrow> nat" where
  "argument_word_end s idx =
     idx + length (takeWhile (\<lambda>b. is_ascii_alphabetic b \<or> is_ascii_digit b \<or>
       b \<in> {CHR ''_'', CHR ''$'', CHR ''#''}) (drop idx s))"

function nested_call_loop :: "string \<Rightarrow> nat \<Rightarrow> bool" where
  "nested_call_loop args idx =
     (if idx < length args then
        (if args ! idx = CHR 0x27 \<or> args ! idx = CHR 0x22 then
           nested_call_loop args (mysql_skip_quoted_bytes args idx)
         else if args ! idx = CHR 0x60 then
           (if byte_at args (after_white_space args (mysql_skip_quoted_bytes args idx)) = Some CHR ''(''
            then True
            else nested_call_loop args (mysql_skip_quoted_bytes args idx))
         else if args ! idx = CHR ''@'' then
           nested_call_loop args
             (name_end args (if byte_at args (idx + 1) = Some CHR ''@'' then idx + 2 else idx + 1))
         else if is_ascii_alphabetic (args ! idx) \<or> args ! idx = CHR ''_'' then
           (let after = argument_word_end args (idx + 1);
                word = to_ascii_uppercase (slice args idx after)
            in if word \<in> {''SELECT'', ''WITH'', ''INSERT'', ''UPDATE'', ''DELETE'', ''REPLACE'', ''CALL'',
                          ''DO'', ''BEGIN''} then True
               else if byte_at args (after_white_space args after) = Some CHR ''('' then True
               else nested_call_loop args after)
         else nested_call_loop args (idx + 1))
      else False)"
  by pat_completeness auto
termination
  by (relation "measure (\<lambda>(args, idx). length args - idx)")
    (auto simp: name_end_def argument_word_end_def dest: mysql_skip_quoted_bytes_forward
      intro: diff_less_mono2)

declare nested_call_loop.simps [simp del]

definition mysql_args_contain_nested_function_call_or_query :: "string \<Rightarrow> bool" where
  "mysql_args_contain_nested_function_call_or_query args = nested_call_loop args 0"

definition mysql_lock_function_args_are_side_effect_free :: "string \<Rightarrow> string \<Rightarrow> bool" where
  "mysql_lock_function_args_are_side_effect_free function_name args =
     (if function_name = ''RELEASE_ALL_LOCKS'' then trim args = []
      else \<not> mysql_args_contain_nested_function_call_or_query args)"

definition mysql_body_is_single_safe_lock_function_call :: "string \<Rightarrow> string \<Rightarrow> bool" where
  "mysql_body_is_single_safe_lock_function_call body function_name =
     (case mysql_single_function_call_args_from_body body function_name of
        None \<Rightarrow> False
      | Some args \<Rightarrow> mysql_lock_function_args_are_side_effect_free function_name args)"

definition mysql_body_is_single_named_lock_release_call :: "string \<Rightarrow> bool" where
  "mysql_body_is_single_named_lock_release_call body =
     list_ex (mysql_body_is_single_safe_lock_function_call body) [''RELEASE_LOCK'', ''RELEASE_ALL_LOCKS'']"

definition mysql_select_statement_is_named_lock_release_only :: "string \<Rightarrow> bool" where
  "mysql_select_statement_is_named_lock_release_only s =
     (case mysql_statement_body_after_keyword (trim_start (mysql_statement_without_comments s)) ''SELECT'' of
        None \<Rightarrow> False
      | Some body \<Rightarrow> mysql_body_is_single_named_lock_release_call body)"

definition mysql_do_body_is_known_lock_function_only :: "string \<Rightarrow> bool" where
  "mysql_do_body_is_known_lock_function_only s =
     (case mysql_statement_body_after_keyword (trim_start (mysql_statement_without_comments s)) ''DO'' of
        None \<Rightarrow> False
      | Some body \<Rightarrow>
          list_ex (mysql_body_is_single_safe_lock_function_call body)
            [''GET_LOCK'', ''RELEASE_LOCK'', ''RELEASE_ALL_LOCKS''])"

function invokes_loop :: "string \<Rightarrow> string \<Rightarrow> nat \<Rightarrow> bool" where
  "invokes_loop function_name cleaned idx =
     (if idx < length cleaned then
        (if is_quote (cleaned ! idx) then
           invokes_loop function_name cleaned (mysql_skip_quoted_bytes cleaned idx)
         else if mysql_user_variable_name_byte (cleaned ! idx) then
           (let after = name_end cleaned (idx + 1)
            in if to_ascii_uppercase (slice cleaned idx after) = to_ascii_uppercase function_name \<and>
                  byte_at cleaned (after_white_space cleaned after) = Some CHR ''('' then True
               else invokes_loop function_name cleaned after)
         else invokes_loop function_name cleaned (idx + 1))
      else False)"
  by pat_completeness auto
termination
  by (relation "measure (\<lambda>(function_name, cleaned, idx). length cleaned - idx)")
    (auto simp: name_end_def dest: mysql_skip_quoted_bytes_forward intro: diff_less_mono2)

declare invokes_loop.simps [simp del]

definition mysql_unquoted_invokes_function :: "string \<Rightarrow> string \<Rightarrow> bool" where
  "mysql_unquoted_invokes_function s function_call_prefix =
     invokes_loop (rev (dropWhile (\<lambda>c. c = CHR ''('') (rev function_call_prefix)))
       (mysql_statement_without_comments s) 0"

section \<open>The reader of the program\<close>

text \<open>
  Every question that the ledger asks of a statement's text, answered by the functions above and by the
  classifier and the executor. A statement whose reading panics has no effects to speak of; its auto-commit values are given as none.
\<close>

definition sql_reader :: "char_tables \<Rightarrow> text_reader" where
  "sql_reader tables =
     \<lparr>rd_words = (\<lambda>db_type s. analysis_words (new_for_db_type tables db_type s)),
      rd_kind = classify_sql_for_db_type tables,
      rd_set_statement_inner = mariadb_set_statement_inner_sql,
      rd_autocommit_values =
        (\<lambda>s. case mysql_autocommit_assignment_values tables s of None \<Rightarrow> [] | Some values \<Rightarrow> values),
      rd_mode_scopes = mysql_transaction_mode_assignment_scopes tables,
      rd_body_is_user_variable = mysql_set_body_starts_with_user_variable,
      rd_is_select = is_select_statement_for_db_type tables,
      rd_word_sequence = sql_contains_word_sequence_any_depth_for_db_type,
      rd_explain_executed = mysql_explain_executed_statement,
      rd_explain_target = mysql_fully_executed_explain_target,
      rd_do_body_is_lock_call = mysql_do_body_is_known_lock_function_only,
      rd_invokes = mysql_unquoted_invokes_function,
      rd_compact_upper = mysql_unquoted_compact_upper,
      rd_set_user_variable = mysql_set_assigns_user_variable tables,
      rd_set_untracked_session = mysql_set_has_untracked_session_assignment tables,
      rd_set_global_only = mysql_set_statement_affects_only_global_or_persist_scope tables,
      rd_assignment_count = statement_assignment_count,
      rd_select_is_release = mysql_select_statement_is_named_lock_release_only\<rparr>"

end
