(* ===== verification/Read_Only_Statements.thy ===== *)
theory Read_Only_Statements
  imports Set_Reader
begin

text \<open>
  What a read-only connection is meant to run, told without the classifier of \<^verbatim>\<open>src/db/sql_classification.rs\<close>: the
  statements that read data or only move the session, by their first word and text. The lemma
  \<open>admitted_kinds_run\<close> shows that the kinds the guard lets through belong to these statements alone.
\<close>

section \<open>The statements\<close>

text \<open>
  The statements that read data or only move the session, by their first word and text. Nothing here asks the
  classifier for a kind: a query holds no locking clause; a \<^verbatim>\<open>WITH\<close> is what the statement behind
  it is, and an explain that runs what it explains is what that statement is; every other statement is one of the listed reports,
  transaction statements and settings of the session.
\<close>

definition locking_clauses :: "DatabaseType \<Rightarrow> string list list" where
  "locking_clauses db_type =
     (if db_type = Oracle then [[''FOR'', ''UPDATE'']]
      else [[''FOR'', ''UPDATE''], [''FOR'', ''SHARE''], [''LOCK'', ''IN'', ''SHARE'', ''MODE'']])"

definition control_phrases :: "DatabaseType \<Rightarrow> (string \<times> string) list" where
  "control_phrases db_type =
     (''START'', ''TRANSACTION'') #
     (if db_type = Oracle then [(''ALTER'', ''SESSION''), (''ALTER'', ''SYSTEM'')]
      else [(''LOCK'', ''TABLE''), (''LOCK'', ''TABLES''), (''LOCK'', ''INSTANCE''),
            (''UNLOCK'', ''TABLE''), (''UNLOCK'', ''TABLES''), (''UNLOCK'', ''INSTANCE''),
            (''RESET'', ''CONNECTION''), (''RELEASE'', ''SAVEPOINT''), (''XA'', ''RECOVER''), (''XA'', ''START''),
            (''XA'', ''BEGIN''), (''XA'', ''END''), (''XA'', ''PREPARE''), (''XA'', ''COMMIT''), (''XA'', ''ROLLBACK'')])"

definition session_setting :: "char_tables \<Rightarrow> DatabaseType \<Rightarrow> string \<Rightarrow> bool" where
  "session_setting tables db_type s \<longleftrightarrow>
     (let mysql = (db_type \<noteq> Oracle); ws = statement_words s mysql; mode_variables =
        [''TRANSACTION_ISOLATION'', ''TX_ISOLATION'', ''TRANSACTION_READ_ONLY'', ''TX_READ_ONLY'']
      in \<not> (mysql \<and> (nth_word ws 1 = Some ''PASSWORD'' \<or> nth_word ws 1 = Some ''DEFAULT'' \<and> nth_word ws 2 = Some ''ROLE'')) \<and>
         (nth_word ws 1 = Some ''ROLE'' \<or>
          set_sql_contains_transaction_control_assignment tables s mysql \<or>
          \<not> (mysql \<and> set_sql_affects_only_global_or_persist_scope tables s mysql) \<and>
          \<not> set_body_starts_with_user_variable s mysql \<and>
          ((\<exists>w \<in> set ([''AUTOCOMMIT'', ''TRANSACTION'', ''CONSTRAINT'', ''CONSTRAINTS''] @ mode_variables). nth_word ws 1 = Some w) \<or>
           nth_word ws 1 \<in> {Some ''SESSION'', Some ''LOCAL''} \<and>
           (\<exists>w \<in> set ([''AUTOCOMMIT'', ''TRANSACTION''] @ mode_variables). nth_word ws 2 = Some w))))"

text \<open>
  The statement behind the common table expressions of a \<^verbatim>\<open>WITH\<close>: its first word and its text. A query is read
  with the expressions, which may hold a locking clause as well.
\<close>

definition with_main_statement :: "DatabaseType \<Rightarrow> string \<Rightarrow> (string \<times> string) option" where
  "with_main_statement db_type s =
     (let mysql = (db_type \<noteq> Oracle)
      in if with_clause_starts_with_select s then Some (''SELECT'', s)
         else
           (case next_top_level_word s 0 mysql of
              Some (first, _, after_with) \<Rightarrow>
                if first = ''WITH'' then
                  map_option (\<lambda>(word, start). (word, if word = ''SELECT'' then s else drop start s))
                    (cte_loop s mysql
                      (case next_top_level_word s after_with mysql of
                         Some (token, _, after_token) \<Rightarrow> if token = ''RECURSIVE'' then after_token else after_with
                       | None \<Rightarrow> after_with))
                else None
            | None \<Rightarrow> None))"

inductive runs_on_read_only :: "char_tables \<Rightarrow> DatabaseType \<Rightarrow> string \<Rightarrow> string \<Rightarrow> bool" for tables db_type where
  query: "\<forall>clause \<in> set (locking_clauses db_type). \<not> statement_contains_word_sequence_any_depth s (db_type \<noteq> Oracle) clause \<Longrightarrow>
    runs_on_read_only tables db_type ''SELECT'' s"
| with_main: "with_main_statement db_type s = Some (main_word, main) \<Longrightarrow>
    runs_on_read_only tables db_type main_word main \<Longrightarrow> runs_on_read_only tables db_type ''WITH'' s"
| report: "first = ''SHOW'' \<or> db_type \<noteq> Oracle \<and> first \<in> {''VALUES'', ''TABLE''} \<or>
      db_type = Oracle \<and> first \<in> {''DESCRIBE'', ''DESC''} \<Longrightarrow> runs_on_read_only tables db_type first s"
| explain: "db_type \<noteq> Oracle \<Longrightarrow> first \<in> {''EXPLAIN'', ''DESCRIBE'', ''DESC''} \<Longrightarrow>
    mysql_fully_executed_explain_target db_type s = None \<Longrightarrow> runs_on_read_only tables db_type first s"
| executing_explain: "db_type \<noteq> Oracle \<Longrightarrow> first \<in> {''EXPLAIN'', ''DESCRIBE'', ''DESC'', ''ANALYZE''} \<Longrightarrow>
    mysql_fully_executed_explain_target db_type s = Some target \<Longrightarrow>
    \<not> has_multiple_statements (new_for_db_type tables db_type target) \<Longrightarrow>
    leading_keyword (analysis_words (new_for_db_type tables db_type target)) = Some inner \<Longrightarrow>
    runs_on_read_only tables db_type inner (stripped_sql (new_for_db_type tables db_type target)) \<Longrightarrow>
    runs_on_read_only tables db_type first s"
| transaction: "first \<in> {''COMMIT'', ''ROLLBACK'', ''SAVEPOINT''} \<Longrightarrow> runs_on_read_only tables db_type first s"
| transaction_begins: "take 3 (statement_words s (db_type \<noteq> Oracle)) \<noteq> [''BEGIN'', ''NOT'', ''ATOMIC''] \<Longrightarrow>
    runs_on_read_only tables db_type ''BEGIN'' s"
| control_phrase: "(first, second) \<in> set (control_phrases db_type) \<Longrightarrow>
    nth_word (statement_words s (db_type \<noteq> Oracle)) 1 = Some second \<Longrightarrow> runs_on_read_only tables db_type first s"
| use_database: "db_type \<noteq> Oracle \<Longrightarrow> runs_on_read_only tables db_type ''USE'' s"
| lock_functions: "db_type \<noteq> Oracle \<Longrightarrow> do_statement_is_known_lock_function_only s True \<Longrightarrow>
    runs_on_read_only tables db_type ''DO'' s"
| setting: "session_setting tables db_type s \<Longrightarrow> runs_on_read_only tables db_type ''SET'' s"

abbreviation allowed_kinds :: "SqlKind set" where
  "allowed_kinds \<equiv> {SelectLike, TransactionControl, SessionControl}"

lemma profile_iff [simp]: "classification_profile_for_db_type db_type = MySqlCompatible \<longleftrightarrow> db_type \<noteq> Oracle"
    "classification_profile_for_db_type db_type = OracleProfile \<longleftrightarrow> db_type = Oracle"
  by (cases db_type; simp)+

lemma profile_case [simp]:
  "(case classification_profile_for_db_type db_type of OracleProfile \<Rightarrow> a | MySqlCompatible \<Rightarrow> b) = (if db_type = Oracle then a else b)"
  by (cases db_type) simp_all

lemma profile_comments [simp]: "mysql_compatible_comments (classification_profile_for_db_type db_type) \<longleftrightarrow> db_type \<noteq> Oracle"
  by (cases db_type) (simp_all add: mysql_compatible_comments_def)

lemma unlocked_query:
  "classify_select_sql_for_db_type db_type s (db_type \<noteq> Oracle) \<in> allowed_kinds \<Longrightarrow>
    \<forall>clause \<in> set (locking_clauses db_type). \<not> statement_contains_word_sequence_any_depth s (db_type \<noteq> Oracle) clause"
  by (auto simp: classify_select_sql_for_db_type_def locking_clauses_def Let_def split: if_splits)

section \<open>Their kinds\<close>

definition admitted_words :: "string list" where
  "admitted_words = [''SELECT'', ''DESCRIBE'', ''DESC'', ''SHOW'', ''VALUES'', ''TABLE'', ''ALTER'', ''LOCK'', ''UNLOCK'', ''USE'',
     ''DO'', ''BEGIN'', ''COMMIT'', ''ROLLBACK'', ''SAVEPOINT'', ''RELEASE'', ''XA'', ''RESET'', ''SET'', ''START'']"

lemma other_words_refused:
  "first \<notin> set admitted_words \<Longrightarrow> classify_plain_word tables db_type first s \<notin> allowed_kinds"
  by (simp add: classify_plain_word_def admitted_words_def classify_mysql_load_sql_def classify_mysql_replication_sql_def Let_def)

text \<open>The words whose second word decides.\<close>

lemmas phrase_classifiers =
  classify_alter_sql_for_db_type_def classify_mysql_lock_sql_def classify_oracle_lock_sql_def classify_mysql_unlock_sql_def
  classify_release_sql_def classify_xa_sql_def classify_mysql_reset_sql_def classify_start_sql_for_db_type_def

lemma phrase_word_runs:
  assumes "classify_plain_word tables db_type first s \<in> allowed_kinds"
    and "first \<in> {''ALTER'', ''LOCK'', ''UNLOCK'', ''RELEASE'', ''XA'', ''RESET'', ''START''}"
  shows "runs_on_read_only tables db_type first s"
proof -
  note defs = classify_plain_word_def phrase_classifiers control_phrases_def Let_def
  have "\<exists>second. nth_word (statement_words s (db_type \<noteq> Oracle)) 1 = Some second \<and> (first, second) \<in> set (control_phrases db_type)"
    using assms(2)
  proof (elim insertE emptyE)
    assume "first = ''ALTER''" with assms(1) show ?thesis by (auto simp: defs split: if_split_asm)
  next
    assume "first = ''LOCK''" with assms(1) show ?thesis by (auto simp: defs split: if_split_asm)
  next
    assume "first = ''UNLOCK''" with assms(1) show ?thesis by (auto simp: defs split: if_split_asm)
  next
    assume "first = ''RELEASE''" with assms(1) show ?thesis by (auto simp: defs split: if_split_asm)
  next
    assume "first = ''XA''" with assms(1) show ?thesis
      by (simp add: defs split: if_split_asm) (elim disjE; simp)+
  next
    assume "first = ''RESET''" with assms(1) show ?thesis by (auto simp: defs split: if_split_asm)
  next
    assume "first = ''START''" with assms(1) show ?thesis by (auto simp: defs split: if_split_asm)
  qed
  then show ?thesis by (blast intro: control_phrase)
qed

lemma setting_runs:
  assumes "classify_plain_word tables db_type ''SET'' s \<in> allowed_kinds"
  shows "runs_on_read_only tables db_type ''SET'' s"
  using assms
  by (intro setting; cases "db_type = Oracle")
    (simp_all add: classify_plain_word_def classify_set_sql_for_db_type_def session_setting_def Let_def split: if_split_asm, (elim disjE; simp)+)

lemma begin_runs:
  assumes "classify_plain_word tables db_type ''BEGIN'' s \<in> allowed_kinds"
  shows "runs_on_read_only tables db_type ''BEGIN'' s"
proof (rule transaction_begins)
  show "take 3 (statement_words s (db_type \<noteq> Oracle)) \<noteq> [''BEGIN'', ''NOT'', ''ATOMIC'']"
  proof
    assume "take 3 (statement_words s (db_type \<noteq> Oracle)) = [''BEGIN'', ''NOT'', ''ATOMIC'']"
    then obtain rest where "statement_words s (db_type \<noteq> Oracle) = ''BEGIN'' # ''NOT'' # ''ATOMIC'' # rest"
      by (metis append_Cons append_Nil append_take_drop_id)
    with assms show False
      by (simp add: classify_plain_word_def classify_begin_sql_for_db_type_def nth_word_def Let_def split: DatabaseType.splits)
  qed
qed

lemma plain_word_runs:
  assumes "classify_plain_word tables db_type first s \<in> allowed_kinds" "\<not> reads_as_explain db_type first"
  shows "runs_on_read_only tables db_type first s"
proof -
  have "first \<in> set admitted_words" using assms(1) other_words_refused by blast
  then consider "first = ''SELECT''" | "first \<in> {''DESCRIBE'', ''DESC''}" | "first = ''SHOW''"
    | "first \<in> {''VALUES'', ''TABLE''}" | "first = ''USE''" | "first = ''DO''" | "first = ''SET''" | "first = ''BEGIN''"
    | "first \<in> {''COMMIT'', ''ROLLBACK'', ''SAVEPOINT''}"
    | "first \<in> {''ALTER'', ''LOCK'', ''UNLOCK'', ''RELEASE'', ''XA'', ''RESET'', ''START''}"
    unfolding admitted_words_def list.set by (elim insertE emptyE) simp_all
  then show ?thesis
  proof cases
    case 1
    with assms(1) have "classify_select_sql_for_db_type db_type s (db_type \<noteq> Oracle) \<in> allowed_kinds"
      by (simp add: classify_plain_word_def)
    with 1 show ?thesis by (simp add: query unlocked_query)
  next
    case 2
    with assms(2) show ?thesis by (intro report) (auto simp: reads_as_explain_def)
  next
    case 3
    then show ?thesis by (intro report) simp
  next
    case 4
    then have "db_type \<noteq> Oracle" using assms(1) by (auto simp: classify_plain_word_def)
    with 4 show ?thesis by (intro report) simp
  next
    case 5
    then have "db_type \<noteq> Oracle" using assms(1) by (auto simp: classify_plain_word_def)
    with 5 show ?thesis by (simp add: use_database)
  next
    case 6
    then have "db_type \<noteq> Oracle \<and> do_statement_is_known_lock_function_only s True"
      using assms(1) by (auto simp: classify_plain_word_def classify_mysql_do_sql_def Let_def split: if_split_asm)
    with 6 show ?thesis by (simp add: lock_functions)
  next
    case 7
    with assms(1) show ?thesis by (simp add: setting_runs)
  next
    case 8
    with assms(1) show ?thesis by (simp add: begin_runs)
  next
    case 9
    then show ?thesis by (rule transaction)
  next
    case 10
    with assms(1) show ?thesis by (rule phrase_word_runs)
  qed
qed

lemma with_reads_main:
  "classify_with_sql_for_db_type db_type s =
     (case with_main_statement db_type s of
        None \<Rightarrow> Inl UnknownKind
      | Some (word, main) \<Rightarrow>
          if word = ''SELECT'' then Inl (classify_select_sql_for_db_type db_type s (db_type \<noteq> Oracle)) else Inr (word, main))"
  by (simp add: classify_with_sql_for_db_type_def with_main_statement_def Let_def split: option.split)

lemma with_main_query: "with_main_statement db_type s = Some (''SELECT'', main) \<Longrightarrow> main = s"
  by (simp add: with_main_statement_def Let_def split: if_split_asm option.split_asm prod.split_asm)

lemma with_query_runs:
  assumes "classify_with_sql_for_db_type db_type s = Inl kind" "kind \<in> allowed_kinds"
  shows "runs_on_read_only tables db_type ''WITH'' s"
proof -
  from assms obtain main where main: "with_main_statement db_type s = Some (''SELECT'', main)"
    and "classify_select_sql_for_db_type db_type s (db_type \<noteq> Oracle) \<in> allowed_kinds"
    by (auto simp: with_reads_main split: option.split_asm if_split_asm)
  then have "runs_on_read_only tables db_type ''SELECT'' main"
    using with_main_query [OF main] by (simp add: query unlocked_query)
  with main show ?thesis by (rule with_main)
qed

lemma with_main_read:
  "classify_with_sql_for_db_type db_type s = Inr (word, main) \<Longrightarrow> with_main_statement db_type s = Some (word, main)"
  by (auto simp: with_reads_main split: option.split_asm if_split_asm)

lemma plain_explain_runs:
  assumes "classify_explain_sql_for_db_type db_type first s = Inl kind" "kind \<in> allowed_kinds" "reads_as_explain db_type first"
  shows "runs_on_read_only tables db_type first s"
  using assms
  by (intro explain)
    (auto simp: classify_explain_sql_for_db_type_def reads_as_explain_def Let_def split: option.splits if_splits)

text \<open>Only these statements get a kind that the connection's guard lets through.\<close>

lemma admitted_kinds_run:
  "classify_first_word_for_db_type tables db_type first s \<in> allowed_kinds \<Longrightarrow> runs_on_read_only tables db_type first s"
  "classify_for_db_type tables db_type analysis \<in> allowed_kinds \<Longrightarrow> \<not> has_multiple_statements analysis \<and>
     (\<exists>word. leading_keyword (analysis_words analysis) = Some word \<and> \<not> (db_type = Oracle \<and> word \<in> {''BEGIN'', ''DECLARE''}) \<and>
       runs_on_read_only tables db_type word (stripped_sql analysis))"
proof (induction tables db_type first s and tables db_type analysis rule: classify_first_word_for_db_type_classify_for_db_type.induct)
  case (1 tables db_type first s)
  note kind = "1.prems" [unfolded classify_first_word_for_db_type.simps [of tables db_type first s]]
  consider "first = ''WITH''" | "first \<noteq> ''WITH''" "reads_as_explain db_type first" | "first \<noteq> ''WITH''" "\<not> reads_as_explain db_type first"
    by blast
  then show ?case
  proof cases
    case 1
    show ?thesis
    proof (cases "classify_with_sql_for_db_type db_type s")
      case (Inl k)
      with 1 kind show ?thesis by (auto intro: with_query_runs)
    next
      case (Inr main)
      obtain w t where main: "main = (w, t)" by (cases main)
      from "1.IH"(1) [OF 1 Inr main [symmetric]] kind 1 Inr main have "runs_on_read_only tables db_type w t" by auto
      with 1 Inr main with_main_read with_main show ?thesis by blast
    qed
  next
    case 2
    show ?thesis
    proof (cases "classify_explain_sql_for_db_type db_type first s")
      case (Inl k)
      with 2 kind show ?thesis by (auto intro: plain_explain_runs)
    next
      case (Inr target)
      then have target: "db_type \<noteq> Oracle" "mysql_fully_executed_explain_target db_type s = Some target"
        by (auto simp: classify_explain_sql_for_db_type_def Let_def split: option.splits if_splits)
      have "first \<in> {''EXPLAIN'', ''DESCRIBE'', ''DESC'', ''ANALYZE''}" using 2 by (auto simp: reads_as_explain_def)
      with target executing_explain "1.IH"(2) [OF 2 Inr] kind 2 Inr show ?thesis by auto
    qed
  next
    case 3
    with kind show ?thesis by (auto intro: plain_word_runs)
  qed
next
  case (2 tables db_type analysis)
  let ?first = "case leading_keyword (analysis_words analysis) of Some w \<Rightarrow> w | None \<Rightarrow> []"
  note kind = "2.prems" [unfolded classify_for_db_type.simps [of tables db_type analysis] Let_def]
  have runs: "runs_on_read_only tables db_type ?first (stripped_sql analysis)" "\<not> has_multiple_statements analysis"
    "\<not> (db_type = Oracle \<and> ?first \<in> {''BEGIN'', ''DECLARE''})"
    using "2.IH" [OF _ refl] kind by (auto simp del: profile_iff split: if_split_asm)
  moreover have "?first \<noteq> []" using runs(1) by (cases rule: runs_on_read_only.cases) (auto simp: control_phrases_def split: if_splits)
  ultimately show ?case by (auto split: option.splits)
qed

text \<open>The words that write data, change the schema or its privileges or call a routine begin none of them.\<close>

definition writing_words :: "string list" where
  "writing_words =
     [''INSERT'', ''UPDATE'', ''DELETE'', ''MERGE'', ''REPLACE'', ''LOAD'', ''CREATE'', ''DROP'', ''TRUNCATE'', ''RENAME'',
      ''COMMENT'', ''GRANT'', ''REVOKE'', ''CALL'', ''EXEC'', ''EXECUTE'']"

inductive_cases runs_alter: "runs_on_read_only tables db_type ''ALTER'' s"

lemma runs_no_writing_word:
  assumes "runs_on_read_only tables db_type first s"
  shows "first \<notin> set writing_words"
  using assms by (cases rule: runs_on_read_only.cases) (auto simp: writing_words_def control_phrases_def split: if_splits)

lemma runs_alter_session:
  assumes "runs_on_read_only tables db_type ''ALTER'' s"
  shows "db_type = Oracle \<and> nth_word (statement_words s False) 1 \<in> {Some ''SESSION'', Some ''SYSTEM''}"
  using assms by (auto elim!: runs_alter simp: control_phrases_def split: if_splits)

declare profile_iff [simp del] profile_case [simp del] profile_comments [simp del]

end
