(* ===== verification/Plain_Text.thy ===== *)
theory Plain_Text
  imports Set_Reader
begin


text \<open>
  What the scanners answer on a text that holds no quote and no comment mark: every view of the text is the text
  itself. If it has no parenthesis either, its words are stretches of word characters, each beginning at a letter
  or an underscore; a number, and the digits in front of a word, belong to none. This is the
  reference that the tokenizer's index walk is compared with, and it makes the reading of statements the
  program writes itself a matter of the words they are made of. The last section puts an executing explain in front
  of such a text.
\<close>

definition unquoted :: "string \<Rightarrow> bool" where
  "unquoted s \<longleftrightarrow> list_all (\<lambda>c. c \<notin> {CHR 0x27, CHR 0x22, CHR 0x60, CHR ''-'', CHR ''#'', CHR ''/''}) s"

definition unmarked :: "string \<Rightarrow> bool" where
  "unmarked s \<longleftrightarrow> unquoted s \<and> list_all (\<lambda>c. c \<notin> {CHR ''('', CHR '')''}) s"

function word_runs :: "string \<Rightarrow> string list" where
  "word_runs [] = []"
| "word_runs (c # cs) =
     (if is_word_start c then (c # takeWhile is_word_part cs) # word_runs (dropWhile is_word_part cs)
      else word_runs cs)"
  by pat_completeness auto
termination
  by (relation "measure length") (auto simp: less_Suc_eq_le intro: length_dropWhile_le)

section \<open>Spans and words\<close>

lemma unmarked_nth:
  "unmarked s \<Longrightarrow> i < length s \<Longrightarrow>
     s ! i \<notin> {CHR 0x27, CHR 0x22, CHR 0x60, CHR ''-'', CHR ''#'', CHR ''/'', CHR ''('', CHR '')''}"
  by (auto simp: unmarked_def unquoted_def list_all_length)

lemma unmarked_unquoted [simp]: "unmarked s \<Longrightarrow> unquoted s"
  by (simp add: unmarked_def)

lemma unquoted_byte_at:
  assumes "unquoted s"
  shows "byte_at s i \<noteq> Some CHR 0x27" "byte_at s i \<noteq> Some CHR 0x22" "byte_at s i \<noteq> Some CHR 0x60"
    "byte_at s i \<noteq> Some CHR ''-''" "byte_at s i \<noteq> Some CHR ''#''" "byte_at s i \<noteq> Some CHR ''/''"
  using assms by (auto simp: byte_at_Some unquoted_def list_all_length)

lemma unquoted_no_quote:
  assumes "unquoted s"
  shows "skip_q_quote s idx = None" "skip_quoted s idx = None"
proof -
  show "skip_q_quote s idx = None"
    using unquoted_byte_at [OF assms]
    by (auto simp: skip_q_quote_def q_quote_prefix_def split: option.splits)
  show "skip_quoted s idx = None"
    using unquoted_byte_at [OF assms] by (auto simp: skip_quoted_def split: option.splits)
qed

lemma unquoted_skip_comment: "unquoted s \<Longrightarrow> skip_comment s idx m = None"
  using unquoted_byte_at [of s]
  by (simp add: skip_comment_def is_mysql_dash_comment_start_def)

lemma unquoted_skip_ignored_span: "unquoted s \<Longrightarrow> skip_ignored_span s idx m = None"
  by (simp add: skip_ignored_span_def unquoted_skip_comment unquoted_no_quote)

definition next_start :: "string \<Rightarrow> nat \<Rightarrow> nat" where
  "next_start s idx = idx + length (takeWhile (\<lambda>c. \<not> is_word_start c) (drop idx s))"

lemma next_start_step:
  "idx < length s \<Longrightarrow> next_start s idx = (if is_word_start (s ! idx) then idx else next_start s (idx + 1))"
  by (simp add: next_start_def flip: Cons_nth_drop_Suc)

lemma unmarked_next_word:
  assumes "unmarked s"
  shows "top_level_word_loop s m 0 idx =
     (let start = next_start s idx; after = word_end s (start + 1)
      in if start < length s then Some (to_ascii_uppercase (slice s start after), start, after) else None)"
proof (induction "length s - idx" arbitrary: idx)
  case 0
  then show ?case by (simp add: top_level_word_loop.simps next_start_def)
next
  case (Suc n)
  then have idx: "idx < length s" by simp
  have step: "top_level_word_loop s m 0 (idx + 1) =
     (let start = next_start s (idx + 1); after = word_end s (start + 1)
      in if start < length s then Some (to_ascii_uppercase (slice s start after), start, after) else None)"
    using Suc.hyps(2) by (intro Suc.hyps(1)) simp
  show ?case
    using idx step unmarked_nth [OF assms idx]
    by (subst top_level_word_loop.simps)
      (auto simp: unquoted_skip_ignored_span [OF unmarked_unquoted [OF assms]] next_start_step Let_def)
qed

lemma word_runs_skip: "word_runs (dropWhile (\<lambda>c. \<not> is_word_start c) s) = word_runs s"
  by (induction s) auto

lemma word_runs_from:
  "word_runs (drop idx s) =
     (let start = next_start s idx; after = word_end s (start + 1)
      in if start < length s then slice s start after # word_runs (drop after s) else [])"
proof -
  have start: "drop (next_start s idx) s = dropWhile (\<lambda>c. \<not> is_word_start c) (drop idx s)"
    by (simp add: next_start_def dropWhile_eq_drop add.commute)
  show ?thesis
  proof (cases "next_start s idx < length s")
    case True
    then have cons: "dropWhile (\<lambda>c. \<not> is_word_start c) (drop idx s) =
        s ! next_start s idx # drop (Suc (next_start s idx)) s"
      by (metis start Cons_nth_drop_Suc)
    then have "is_word_start (s ! next_start s idx)"
      by (metis hd_dropWhile list.distinct(1) list.sel(1))
    moreover have "word_runs (drop idx s) = word_runs (s ! next_start s idx # drop (Suc (next_start s idx)) s)"
      by (metis word_runs_skip cons)
    moreover have "slice s (next_start s idx) (word_end s (next_start s idx + 1)) =
        s ! next_start s idx # takeWhile is_word_part (drop (Suc (next_start s idx)) s)"
      by (simp add: word_end_def slice_def Cons_nth_drop_Suc [OF True, symmetric] flip: takeWhile_eq_take)
    moreover have "drop (word_end s (next_start s idx + 1)) s =
        dropWhile is_word_part (drop (Suc (next_start s idx)) s)"
      by (simp add: word_end_def dropWhile_eq_drop drop_drop add.commute)
    ultimately show ?thesis using True by (simp add: Let_def)
  next
    case False
    then have "dropWhile (\<lambda>c. \<not> is_word_start c) (drop idx s) = []" using start by simp
    then show ?thesis using False by (metis word_runs_skip word_runs.simps(1))
  qed
qed

lemma unmarked_statement_words_from:
  assumes "unmarked s"
  shows "statement_words_from s m idx = map to_ascii_uppercase (word_runs (drop idx s))"
  using assms
proof (induction s m idx rule: statement_words_from.induct)
  case (1 s m idx)
  note found = unmarked_next_word [OF "1.prems", of m idx]
  show ?case
  proof (cases "next_start s idx < length s")
    case True
    then have "statement_words_from s m (word_end s (next_start s idx + 1)) =
        map to_ascii_uppercase (word_runs (drop (word_end s (next_start s idx + 1)) s))"
      using "1.IH" [OF _ refl refl "1.prems"] found by (simp add: next_top_level_word_def Let_def)
    with True found show ?thesis
      by (subst statement_words_from.simps) (simp add: next_top_level_word_def Let_def word_runs_from [of idx])
  next
    case False
    with found show ?thesis
      by (subst statement_words_from.simps) (simp add: next_top_level_word_def Let_def word_runs_from [of idx])
  qed
qed

lemma unmarked_statement_words: "unmarked s \<Longrightarrow> statement_words s m = map to_ascii_uppercase (word_runs s)"
  using unmarked_statement_words_from [of s m 0] by (simp add: statement_words_def)

section \<open>Views\<close>

lemma unquoted_not_executable:
  "unquoted s \<Longrightarrow> mysql_executable_comment_span s idx = None"
  using unquoted_byte_at [of s]
  by (simp add: mysql_executable_comment_span_def is_mysql_executable_comment_start_def)

lemma unquoted_expand_loop: "unquoted s \<Longrightarrow> expand_loop s idx last_copied out = out @ drop last_copied s"
proof (induction s idx last_copied out rule: expand_loop.induct)
  case (1 s idx last_copied out)
  then show ?case
    by (subst expand_loop.simps) (simp add: unquoted_no_quote unquoted_not_executable)
qed

lemma unquoted_expanded: "unquoted s \<Longrightarrow> mysql_sql_with_executable_comments_expanded s = s"
  by (simp add: mysql_sql_with_executable_comments_expanded_def unquoted_expand_loop)

lemma unmarked_without_comments_loop:
  "unmarked s \<Longrightarrow> without_comments_loop s idx None result = result @ drop idx s"
proof (induction "length s - idx" arbitrary: idx result)
  case 0
  then show ?case by (simp add: without_comments_loop.simps)
next
  case (Suc n)
  then have idx: "idx < length s" by simp
  have "without_comments_loop s (idx + 1) None (result @ [s ! idx]) = (result @ [s ! idx]) @ drop (idx + 1) s"
    using Suc by (intro Suc.hyps(1)) simp_all
  then show ?case
    using idx unmarked_nth [OF Suc.prems idx]
    by (subst without_comments_loop.simps) (simp add: is_quote_def Cons_nth_drop_Suc)
qed

text \<open>A text that starts with a letter has nothing in front of it to strip.\<close>

lemma white_space_heads: "w \<in> set white_space \<Longrightarrow> w \<noteq> [] \<and> \<not> is_ascii_alphabetic (hd w)"
  by (auto simp: white_space_def is_ascii_alphabetic_def byte_between_def)

lemma letter_trim_start: "is_ascii_alphabetic c \<Longrightarrow> trim_start (c # cs) = c # cs"
proof -
  assume c: "is_ascii_alphabetic c"
  have "\<not> (w \<noteq> [] \<and> take (length w) (c # cs) = w)" if "w \<in> set white_space" for w
    using white_space_heads [OF that] c by (cases w) auto
  then have "find (\<lambda>w. w \<noteq> [] \<and> take (length w) (c # cs) = w) white_space = None"
    by (simp add: find_None_iff)
  then show ?thesis by (simp add: trim_start_def strip_front.simps [of white_space "c # cs"])
qed

lemma other_prefix: "c \<noteq> a \<Longrightarrow> strip_prefix (a # p) (c # cs) = None"
  by (auto simp: strip_prefix_def starts_with_def)

lemma alphabetic_not_special:
  "is_ascii_alphabetic c \<Longrightarrow> c \<notin> {CHR ''<'', CHR ''('', CHR ''/'', CHR ''-'', CHR ''#''}"
  by (auto simp: is_ascii_alphabetic_def byte_between_def)

lemma letter_strip_leading_comments:
  assumes "is_ascii_alphabetic c"
  shows "strip_leading_comments_and_whitespace_with_mode (c # cs) True = c # cs"
  using assms alphabetic_not_special [OF assms]
  by (subst strip_leading_comments_and_whitespace_with_mode.simps)
    (auto simp: letter_trim_start line_comment_starts_def is_mysql_dash_comment_start_def
      is_mysql_hash_comment_start_def byte_at_def starts_with_def)

lemma no_set_statement:
  assumes "take 2 (statement_words s True) \<noteq> [''SET'', ''STATEMENT'']"
  shows "mariadb_set_statement_parts_from_prepared s = None"
proof -
  have words: "statement_words_from s True idx =
      (case next_top_level_word s idx True of None \<Rightarrow> []
       | Some (word, start, after) \<Rightarrow> word # statement_words_from s True after)" for idx
    by (subst statement_words_from.simps) (rule refl)
  show ?thesis
    using assms
    by (auto simp: mariadb_set_statement_parts_from_prepared_def statement_words_def numeral_2_eq_2
        words [of 0] split: option.splits prod.splits)
      (auto simp: words split: option.splits prod.splits if_splits)
qed

lemma letter_from_prepared:
  assumes "is_ascii_alphabetic c"
  shows "analysis_words (from_prepared_sql tables (c # cs) True) = statement_words (c # cs) True"
  using assms alphabetic_not_special [OF assms]
  by (simp add: from_prepared_sql_def strip_leading_plsql_block_labels.simps [of tables "c # cs"]
      strip_leading_plsql_block_label_def other_prefix strip_leading_open_parens_def Let_def
      letter_strip_leading_comments open_parens_loop.simps [of "c # cs"])

lemma unquoted_reader_view:
  assumes "unquoted (c # cs)" "is_ascii_alphabetic c"
  shows "mysql_family_reader_view (c # cs) = c # cs"
  using assms by (simp add: mysql_family_reader_view_def letter_strip_leading_comments unquoted_expanded)

lemma mysql_profile: "db_type \<noteq> Oracle \<Longrightarrow> classification_profile_for_db_type db_type = MySqlCompatible"
  by (cases db_type) simp_all

lemma plain_analysis:
  assumes "unmarked (c # cs)" "is_ascii_alphabetic c" "db_type \<noteq> Oracle"
    and "take 2 (map to_ascii_uppercase (word_runs (c # cs))) \<noteq> [''SET'', ''STATEMENT'']"
  shows "analysis_words (new_for_db_type tables db_type (c # cs)) = map to_ascii_uppercase (word_runs (c # cs))"
proof -
  have "mariadb_set_statement_parts_from_prepared (c # cs) = None"
    using assms by (intro no_set_statement) (simp add: unmarked_statement_words del: word_runs.simps)
  then show ?thesis
    using assms
    by (simp add: new_for_db_type_def statement_reader_view_def mysql_profile unquoted_reader_view
        mysql_compatible_comments_def mariadb_set_statement_inner_sql_from_prepared_def
        letter_from_prepared unmarked_statement_words Let_def del: word_runs.simps)
qed

text \<open>
  C39. The tokenizer against a reference. On a text of the MySQL family that begins with a letter, holds no
  quote, comment mark or parenthesis, and whose first two words are not \<open>SET STATEMENT\<close>, the words of the analysis
  are those of one pass over the characters, in upper case and in order: a word begins at a letter or an
  underscore that belongs to no earlier word and goes on over letters, digits, underscores and dollar signs; what stands
  between words is skipped, numbers and the digits in front of a word included. The index walk, the stripping
  and the expansion neither lose nor invent a word of this pass.
\<close>
theorem plain_words:
  assumes "unmarked (c # cs)" "is_ascii_alphabetic c" "db_type \<noteq> Oracle"
    and "take 2 (map to_ascii_uppercase (word_runs (c # cs))) \<noteq> [''SET'', ''STATEMENT'']"
  shows "analysis_words (new_for_db_type tables db_type (c # cs)) = map to_ascii_uppercase (word_runs (c # cs))"
  using assms by (rule plain_analysis)

theorem plain_words_witness:
  "analysis_words (new_for_db_type ascii_tables MySQL ''Select a1, 10, 2x FROM t; Commit'') =
     [''SELECT'', ''A1'', ''X'', ''FROM'', ''T'', ''COMMIT'']"
proof -
  have runs: "map to_ascii_uppercase (word_runs ''Select a1, 10, 2x FROM t; Commit'') =
      [''SELECT'', ''A1'', ''X'', ''FROM'', ''T'', ''COMMIT'']"
    by code_simp
  have "unmarked ''Select a1, 10, 2x FROM t; Commit''" "is_ascii_alphabetic CHR ''S''" by code_simp+
  then show ?thesis unfolding runs [symmetric] by (rule plain_words) (simp, simp add: runs del: word_runs.simps)
qed

section \<open>Where no user variable is set\<close>

lemma strip_front_drop: "\<exists>k. strip_front ws s = drop k s"
proof (induction ws s rule: strip_front.induct)
  case (1 ws s)
  show ?case
  proof (cases "find (\<lambda>w. w \<noteq> [] \<and> take (length w) s = w) ws")
    case None
    then show ?thesis by (intro exI [of _ 0]) (simp add: strip_front.simps [of ws s])
  next
    case (Some w)
    with 1 show ?thesis by (subst strip_front.simps) (auto simp: drop_drop)
  qed
qed

lemma set_trim_start: "set (trim_start s) \<subseteq> set s"
  using strip_front_drop [of white_space s] by (auto simp: trim_start_def dest: in_set_dropD)

lemma strip_leading_comments_drop: "\<exists>k. strip_leading_comments_and_whitespace_with_mode s mysql = drop k s"
proof (induction s mysql rule: strip_leading_comments_and_whitespace_with_mode.induct)
  case (1 s mysql)
  obtain j where j: "trim_start s = drop j s"
    using strip_front_drop [of white_space s] by (auto simp: trim_start_def)
  have rest: "\<exists>k. t = drop k (drop n (trim_start s)) \<Longrightarrow> \<exists>k. t = drop k s" for t n
    using j by (auto simp: drop_drop)
  have none: "\<exists>k. [] = drop k s" by (intro exI [of _ "length s"]) simp
  show ?case
    using rest [OF "1.IH"(1) [OF refl]] rest [OF "1.IH"(2) [OF refl]] none j
    by (subst strip_leading_comments_and_whitespace_with_mode.simps)
      (auto simp: Let_def split: option.split)
qed

lemma unmarked_subset: "unmarked s \<Longrightarrow> set t \<subseteq> set s \<Longrightarrow> unmarked t"
  unfolding unmarked_def unquoted_def list_all_iff by (meson subsetD)

lemma no_user_variable:
  assumes "unmarked s" "CHR ''@'' \<notin> set s"
  shows "\<not> mysql_set_body_starts_with_user_variable s"
proof -
  let ?t = "strip_leading_comments_and_whitespace s"
  have sub: "set ?t \<subseteq> set s"
    using strip_leading_comments_drop [of s False]
    by (auto simp: strip_leading_comments_and_whitespace_def dest: in_set_dropD)
  then have "unmarked ?t" using assms(1) by (rule unmarked_subset [rotated])
  then have cleaned: "mysql_statement_without_comments s = ?t"
    by (simp add: mysql_statement_without_comments_def unquoted_expanded unmarked_without_comments_loop)
  have "set body \<subseteq> set ?t" if "mysql_set_assignments_body ?t = Some body" for body
  proof -
    from that obtain n where "body = trim_start (drop n (trim_start ?t))"
      by (auto simp: mysql_set_assignments_body_def Let_def)
    then show ?thesis
      using set_trim_start [of "drop n (trim_start ?t)"] set_trim_start [of ?t]
        set_drop_subset [of n "trim_start ?t"]
      by auto
  qed
  then have "CHR ''@'' \<notin> set body" if "mysql_set_assignments_body ?t = Some body" for body
    using that sub assms(2) by blast
  then have "byte_at body 0 \<noteq> Some CHR ''@''" if "mysql_set_assignments_body ?t = Some body" for body
    using that by (metis byte_at_Some nth_mem)
  then show ?thesis
    by (auto simp: mysql_set_body_starts_with_user_variable_def cleaned split: option.splits)
qed

lemma mysql_inner_none:
  assumes "unmarked (c # cs)" "is_ascii_alphabetic c"
    and "take 2 (map to_ascii_uppercase (word_runs (c # cs))) \<noteq> [''SET'', ''STATEMENT'']"
  shows "mariadb_set_statement_inner_sql (c # cs) = None"
  using assms
  by (simp add: mariadb_set_statement_inner_sql_def mariadb_set_statement_inner_sql_from_prepared_def
      unquoted_reader_view no_set_statement unmarked_statement_words del: word_runs.simps)

section \<open>An executing explain in front of a statement\<close>

text \<open>The word at an index of a text, when the text goes on there with separators, a word and what is no part of it.\<close>

lemma word_ahead:
  assumes "unquoted t" "drop i t = gap @ (c # cs) @ rest" "is_word_start c" "list_all is_word_part cs"
    and "rest = [] \<or> \<not> is_word_part (hd rest)" "list_all (\<lambda>d. \<not> is_word_start d \<and> d \<notin> {CHR ''('', CHR '')''}) gap"
  shows "next_top_level_word t i m =
    Some (to_ascii_uppercase (c # cs), i + length gap, i + length gap + length (c # cs))"
  using assms(2,6)
proof (induction gap arbitrary: i)
  case Nil
  have i: "i < length t" "t ! i = c" "drop (Suc i) t = cs @ rest"
  proof -
    show "i < length t" using Nil.prems by (cases "i < length t") simp_all
    then show "t ! i = c" "drop (Suc i) t = cs @ rest" using Nil.prems by (simp_all flip: Cons_nth_drop_Suc)
  qed
  have "takeWhile is_word_part (cs @ rest) = cs"
    using assms(4,5) by (cases rest) (simp_all add: list_all_iff takeWhile_append2)
  then have after: "word_end t (Suc i) = Suc i + length cs" by (simp add: word_end_def i(3))
  have "slice t i (Suc i + length cs) = c # cs" using Nil.prems by (simp add: slice_def)
  moreover have "c \<notin> {CHR ''('', CHR '')''}" using assms(3) by (auto simp: is_word_start_def is_ascii_alphabetic_def byte_between_def)
  ultimately show ?case
    using i(1,2) assms(3) after
    by (simp add: next_top_level_word_def top_level_word_loop.simps [of t m 0 i] unquoted_skip_ignored_span [OF assms(1)])
next
  case (Cons d gap)
  have i: "i < length t" "t ! i = d" "drop (Suc i) t = gap @ (c # cs) @ rest"
  proof -
    show "i < length t" using Cons.prems(1) by (cases "i < length t") simp_all
    then show "t ! i = d" "drop (Suc i) t = gap @ (c # cs) @ rest"
      using Cons.prems(1) by (simp_all flip: Cons_nth_drop_Suc)
  qed
  have "next_top_level_word t i m = next_top_level_word t (Suc i) m"
    using i(1,2) Cons.prems(2)
    by (simp add: next_top_level_word_def top_level_word_loop.simps [of t m 0 i] unquoted_skip_ignored_span [OF assms(1)])
  then show ?case using Cons.IH [OF i(3)] Cons.prems(2) by simp
qed

lemma unquoted_append [simp]: "unquoted (s @ t) \<longleftrightarrow> unquoted s \<and> unquoted t"
  by (simp add: unquoted_def)

lemma one_statement: "unquoted s \<Longrightarrow> CHR '';'' \<notin> set s \<Longrightarrow> \<not> contains_multiple_statements s m"
proof -
  assume s: "unquoted s" "CHR '';'' \<notin> set s"
  have "\<not> multiple_statements_from s m idx" for idx
  proof (induction "length s - idx" arbitrary: idx)
    case 0
    then show ?case by (subst multiple_statements_from.simps) simp
  next
    case (Suc n)
    from Suc.hyps(2) have "idx < length s" by simp
    then have "s ! idx \<noteq> CHR '';''" using s(2) by (metis nth_mem)
    moreover have "\<not> multiple_statements_from s m (idx + 1)" using Suc.hyps(2) by (intro Suc.hyps(1)) simp
    ultimately show ?case
      by (subst multiple_statements_from.simps) (simp add: unquoted_skip_ignored_span [OF s(1)])
  qed
  then show ?thesis by (simp add: contains_multiple_statements_def)
qed

text \<open>
  The statements that an explain is put in front of: one statement without quotes and comments, with nothing around
  it, that begins with a word of its own and is neither a \<^verbatim>\<open>SET\<close> (which may be a wrapper) nor begins with a
  word that would be read as an option of the explain.
\<close>

definition explainable :: "string \<Rightarrow> string \<Rightarrow> bool" where
  "explainable first s \<longleftrightarrow>
     (\<exists>rest. s = first @ rest \<and> (rest = [] \<or> \<not> is_word_part (hd rest))) \<and>
     first \<noteq> [] \<and> is_ascii_alphabetic (hd first) \<and> list_all is_word_part first \<and>
     to_ascii_uppercase first \<notin> {''SET'', ''FORMAT'', ''FOR'', ''TABLE'', ''LOCAL'', ''NO_WRITE_TO_BINLOG''} \<and>
     unquoted s \<and> CHR '';'' \<notin> set s \<and> trim s = s"

definition executing_explains :: "DatabaseType \<Rightarrow> string list" where
  "executing_explains db_type =
     (let spellings = [''EXPLAIN ANALYZE '', ''DESCRIBE ANALYZE '', ''DESC ANALYZE ''] @
            (if db_type = MariaDB then [''ANALYZE ''] else [])
      in spellings @ map (\<lambda>spelling. spelling @ ''FORMAT=JSON '') spellings)"

lemma first_word_of:
  assumes "explainable first s"
  shows "next_top_level_word s 0 m = Some (to_ascii_uppercase first, 0, length first)"
proof -
  obtain c cs rest where s: "first = c # cs" "s = (c # cs) @ rest" "rest = [] \<or> \<not> is_word_part (hd rest)"
    using assms by (cases first) (auto simp: explainable_def)
  then show ?thesis
    using word_ahead [of s 0 "[]" c cs rest m] assms by (simp add: explainable_def is_word_start_def)
qed

lemma plain_view:
  assumes "unquoted (c # cs)" "is_ascii_alphabetic c" "db_type \<noteq> Oracle"
  shows "statement_reader_view db_type (c # cs) = c # cs"
  using assms by (simp add: statement_reader_view_def mysql_profile unquoted_reader_view)

lemma no_wrapper:
  "next_top_level_word s 0 True = Some (w, a, b) \<Longrightarrow> w \<noteq> ''SET'' \<Longrightarrow> mariadb_set_statement_parts_from_prepared s = None"
  by (simp add: mariadb_set_statement_parts_from_prepared_def)

text \<open>The analysis of an unwrapped text without quotes and comments.\<close>

lemma plain_new:
  assumes "unquoted s" "s \<noteq> []" "is_ascii_alphabetic (hd s)" "db_type \<noteq> Oracle" "CHR '';'' \<notin> set s"
    and "next_top_level_word s 0 True = Some (w, a, b)" "w \<noteq> ''SET''"
  shows "stripped_sql (new_for_db_type tables db_type s) = s"
    and "\<not> has_multiple_statements (new_for_db_type tables db_type s)"
    and "leading_keyword (analysis_words (new_for_db_type tables db_type s)) = Some w"
proof -
  obtain c cs where s: "s = c # cs" "is_ascii_alphabetic c" using assms(2,3) by (cases s) auto
  have "new_for_db_type tables db_type s = from_prepared_sql tables s True"
    using plain_view [of c cs db_type] no_wrapper [OF assms(6,7)] assms(1,4) s mysql_profile [OF assms(4)]
    by (simp add: new_for_db_type_def mariadb_set_statement_inner_sql_from_prepared_def mysql_compatible_comments_def Let_def)
  also have "\<dots> = \<lparr>stripped_sql = s, analysis_words = statement_words s True,
      has_multiple_statements = contains_multiple_statements s True\<rparr>"
    using s alphabetic_not_special [OF s(2)]
    by (simp add: from_prepared_sql_def strip_leading_plsql_block_labels.simps [of tables "c # cs"]
        strip_leading_plsql_block_label_def other_prefix strip_leading_open_parens_def Let_def
        letter_strip_leading_comments open_parens_loop.simps [of "c # cs"])
  finally have new: "new_for_db_type tables db_type s = \<lparr>stripped_sql = s, analysis_words = statement_words s True,
      has_multiple_statements = contains_multiple_statements s True\<rparr>" .
  show "stripped_sql (new_for_db_type tables db_type s) = s" "\<not> has_multiple_statements (new_for_db_type tables db_type s)"
    "leading_keyword (analysis_words (new_for_db_type tables db_type s)) = Some w"
    using one_statement [OF assms(1,5)] assms(6)
    by (simp_all add: new statement_words_def statement_words_from.simps [of s True 0] leading_keyword_def)
qed

lemma drop_further: "drop n t = p @ q \<Longrightarrow> drop (n + length p) t = q"
  by (metis add.commute append_eq_conv_conj drop_drop)

lemma trim_after_space: "trim (CHR 0x20 # s) = trim s"
proof -
  have "strip_front white_space (CHR 0x20 # s) = strip_front white_space s"
    by (subst strip_front.simps) (simp add: white_space_def)
  then show ?thesis by (simp add: trim_def trim_start_def)
qed

lemma letter_codes [simp]:
  "is_word_part CHR 0x20 \<longleftrightarrow> False" "is_word_start CHR 0x20 \<longleftrightarrow> False" "is_word_part CHR ''='' \<longleftrightarrow> False"
  "is_word_start CHR ''='' \<longleftrightarrow> False"
  by code_simp+

lemma spelled:
  "is_word_start CHR ''F''" "list_all is_word_part ''ORMAT''" "is_word_start CHR ''J''" "list_all is_word_part ''SON''"
  "is_word_start CHR ''A''" "list_all is_word_part ''NALYZE''" "is_word_start CHR ''E''" "list_all is_word_part ''XPLAIN''"
  "is_word_start CHR ''D''" "list_all is_word_part ''ESCRIBE''" "list_all is_word_part ''ESC''"
  "to_ascii_uppercase ''FORMAT'' = ''FORMAT''" "to_ascii_uppercase ''JSON'' = ''JSON''"
  "to_ascii_uppercase ''ANALYZE'' = ''ANALYZE''" "to_ascii_uppercase ''EXPLAIN'' = ''EXPLAIN''"
  "to_ascii_uppercase ''DESCRIBE'' = ''DESCRIBE''" "to_ascii_uppercase ''DESC'' = ''DESC''"
  by code_simp+

text \<open>Behind the words of the explain: an option that is skipped, or nothing, and the statement.\<close>

lemma options_are_skipped:
  assumes "explainable first s" "unquoted t" "drop n t = opt @ s" "opt \<in> {'' '', '' FORMAT=JSON ''}"
  shows "trim (drop (skip_schema_option t (skip_format_option t n)) t) = s"
    and "\<exists>w r. next_top_level_word t n True = Some (w, r) \<and> w \<notin> {''TABLE'', ''NO_WRITE_TO_BINLOG'', ''LOCAL''}"
proof -
  obtain c cs rest where s: "first = c # cs" "s = (c # cs) @ rest" "rest = [] \<or> \<not> is_word_part (hd rest)"
      "is_word_start c" "list_all is_word_part cs" "trim s = s"
      "to_ascii_uppercase (c # cs) \<notin> {''SET'', ''FORMAT'', ''FOR'', ''TABLE'', ''LOCAL'', ''NO_WRITE_TO_BINLOG''}"
    using assms(1) by (cases first) (auto simp: explainable_def is_word_start_def)
  have ahead: "next_top_level_word t k True = Some (to_ascii_uppercase (c # cs), k + 1, k + 1 + length (c # cs))"
    if "drop k t = '' '' @ s" for k
    using word_ahead [OF assms(2), of k "'' ''" c cs rest True] that s by simp
  have plain: "skip_format_option t k = k" "skip_schema_option t k = k" if "drop k t = '' '' @ s" for k
    using ahead [OF that] s(7) by (simp_all add: skip_format_option_def skip_schema_option_def)
  have end_at: "trim (drop k t) = s" if "drop k t = '' '' @ s" for k
    using that s(6) by (simp add: trim_after_space)
  show "trim (drop (skip_schema_option t (skip_format_option t n)) t) = s"
  proof (cases "opt = '' ''")
    case True
    then show ?thesis using assms(3) plain end_at by simp
  next
    case False
    then have opt: "drop n t = '' '' @ ''FORMAT'' @ ''=JSON '' @ s" using assms(3,4) by simp
    have value_at: "drop (n + 7) t = ''='' @ ''JSON'' @ '' '' @ s"
      using drop_further [of n t "'' FORMAT''"] opt by (simp add: eval_nat_numeral)
    have last_at: "drop (n + 12) t = '' '' @ s"
      using drop_further [of n t "'' FORMAT=JSON''"] opt by (simp add: eval_nat_numeral)
    have "next_top_level_word t n True = Some (''FORMAT'', n + 1, n + 7)"
      using word_ahead [OF assms(2) _ spelled(1,2), of n "'' ''" "''=JSON '' @ s" True] opt
      by (simp add: spelled eval_nat_numeral)
    moreover have "next_top_level_word t (n + 7) True = Some (''JSON'', n + 8, n + 12)"
      using word_ahead [OF assms(2) _ spelled(3,4), of "n + 7" "''=''" "'' '' @ s" True] value_at
      by (simp add: spelled eval_nat_numeral)
    ultimately have "skip_format_option t n = n + 12" by (simp add: skip_format_option_def)
    then show ?thesis using plain(2) [OF last_at] end_at [OF last_at] by simp
  qed
  show "\<exists>w r. next_top_level_word t n True = Some (w, r) \<and> w \<notin> {''TABLE'', ''NO_WRITE_TO_BINLOG'', ''LOCAL''}"
  proof (cases "opt = '' ''")
    case True
    then show ?thesis using ahead [of n] assms(3) s(7) by simp
  next
    case False
    then have "drop n t = '' '' @ ''FORMAT'' @ ''=JSON '' @ s" using assms(3,4) by simp
    then show ?thesis
      using word_ahead [OF assms(2) _ spelled(1,2), of n "'' ''" "''=JSON '' @ s" True] by (simp add: spelled)
  qed
qed

lemma executing_words:
  assumes "explainable first s" "unquoted t" "t = (c # cs) @ '' ANALYZE'' @ opt @ s" "opt \<in> {'' '', '' FORMAT=JSON ''}"
    and "is_word_start c" "list_all is_word_part cs" "to_ascii_uppercase (c # cs) \<in> {''EXPLAIN'', ''DESCRIBE'', ''DESC''}"
  shows "mysql_explain_executed_statement_in_view db_type t = Some s"
    and "next_top_level_word t 0 True = Some (to_ascii_uppercase (c # cs), 0, length (c # cs))"
proof -
  have opt: "hd (opt @ s) = CHR 0x20" "opt @ s \<noteq> []" using assms(4) by auto
  show w: "next_top_level_word t 0 True = Some (to_ascii_uppercase (c # cs), 0, length (c # cs))"
    using word_ahead [OF assms(2) _ assms(5,6), of 0 "[]" "'' ANALYZE'' @ opt @ s" True] assms(3) by simp
  have "drop (length (c # cs)) t = '' '' @ ''ANALYZE'' @ opt @ s" using assms(3) by simp
  then have second: "next_top_level_word t (length (c # cs)) True = Some (''ANALYZE'', length (c # cs) + 1, length (c # cs) + 8)"
    using word_ahead [OF assms(2) _ spelled(5,6), of "length (c # cs)" "'' ''" "opt @ s" True] opt
    by (simp add: spelled eval_nat_numeral)
  have "t = ((c # cs) @ '' ANALYZE'') @ opt @ s" "length ((c # cs) @ '' ANALYZE'') = length (c # cs) + 8"
    using assms(3) by simp_all
  then have "drop (length (c # cs) + 8) t = opt @ s" by (metis append_eq_conv_conj)
  note target = options_are_skipped(1) [OF assms(1,2) this assms(4)]
  have "mariadb_set_statement_parts_from_prepared t = None" using no_wrapper [OF w] assms(7) by auto
  moreover have "after_executing_keyword db_type t = Some (length (c # cs) + 8)"
    using w second assms(7) by (simp add: after_executing_keyword_def)
  moreover have "s \<noteq> []" using assms(1) by (auto simp: explainable_def)
  ultimately show "mysql_explain_executed_statement_in_view db_type t = Some s"
    using target by (simp add: mysql_explain_executed_statement_in_view_def Let_def)
qed

lemma bare_analyze_words:
  assumes "explainable first s" "unquoted t" "t = ''ANALYZE'' @ opt @ s" "opt \<in> {'' '', '' FORMAT=JSON ''}"
  shows "mysql_explain_executed_statement_in_view MariaDB t = Some s"
    and "next_top_level_word t 0 True = Some (''ANALYZE'', 0, 7)"
proof -
  have opt: "hd (opt @ s) = CHR 0x20" "opt @ s \<noteq> []" using assms(4) by auto
  show w: "next_top_level_word t 0 True = Some (''ANALYZE'', 0, 7)"
    using word_ahead [OF assms(2) _ spelled(5,6), of 0 "[]" "opt @ s" True] assms(3) opt by (simp add: spelled)
  have at: "drop 7 t = opt @ s" using assms(3) by simp
  note target = options_are_skipped [OF assms(1,2) at assms(4)]
  have "mariadb_set_statement_parts_from_prepared t = None" using no_wrapper [OF w] by simp
  moreover have "after_executing_keyword MariaDB t = Some 7"
    using w target(2) by (auto simp: after_executing_keyword_def MYSQL_ANALYZE_TABLE_MODIFIERS_def)
  moreover have "s \<noteq> []" using assms(1) by (auto simp: explainable_def)
  ultimately show "mysql_explain_executed_statement_in_view MariaDB t = Some s"
    using target(1) by (simp add: mysql_explain_executed_statement_in_view_def Let_def)
qed

lemma explain_runs:
  assumes "explainable first s" "explain \<in> set (executing_explains db_type)" "unquoted (explain @ s)"
  shows "\<exists>w a b. mysql_explain_executed_statement_in_view db_type (explain @ s) = Some s \<and>
    next_top_level_word (explain @ s) 0 True = Some (w, a, b) \<and> w \<noteq> ''SET''"
proof -
  have bare: ?thesis if "db_type = MariaDB" "explain = ''ANALYZE'' @ opt" "opt \<in> {'' '', '' FORMAT=JSON ''}" for opt
    using bare_analyze_words [OF assms(1,3) _ that(3)] that(1,2) by simp
  have two: ?thesis if "explain = (c # cs) @ '' ANALYZE'' @ opt" "opt \<in> {'' '', '' FORMAT=JSON ''}"
      "is_word_start c" "list_all is_word_part cs" "to_ascii_uppercase (c # cs) \<in> {''EXPLAIN'', ''DESCRIBE'', ''DESC''}" for c cs opt
    using executing_words [OF assms(1,3) _ that(2-5)] that(1,5) by auto
  note explains = two [of "CHR ''E''" "''XPLAIN''"] two [of "CHR ''D''" "''ESCRIBE''"] two [of "CHR ''D''" "''ESC''"]
  from assms(2) consider opt where "opt \<in> {'' '', '' FORMAT=JSON ''}" "explain = ''EXPLAIN'' @ '' ANALYZE'' @ opt"
    | opt where "opt \<in> {'' '', '' FORMAT=JSON ''}" "explain = ''DESCRIBE'' @ '' ANALYZE'' @ opt"
    | opt where "opt \<in> {'' '', '' FORMAT=JSON ''}" "explain = ''DESC'' @ '' ANALYZE'' @ opt"
    | opt where "opt \<in> {'' '', '' FORMAT=JSON ''}" "db_type = MariaDB" "explain = ''ANALYZE'' @ opt"
    by (fastforce simp: executing_explains_def split: if_splits)
  then show ?thesis
    by cases (use explains bare spelled in \<open>blast+\<close>)
qed

text \<open>An executing explain is classified as what its unwrapping ends at.\<close>

lemma classified_as_unwrapped:
  assumes "unquoted t" "t \<noteq> []" "is_ascii_alphabetic (hd t)" "db_type \<noteq> Oracle" "CHR '';'' \<notin> set t"
    and "next_top_level_word t 0 True = Some (w, a, b)" "w \<noteq> ''SET''"
    and "mysql_explain_executed_statement_in_view db_type t = Some s"
  shows "classify_sql_for_db_type tables db_type t = classify_sql_for_db_type tables db_type (unwrap_explains db_type s)"
proof -
  have "mariadb_set_statement_parts_from_prepared t = None" using no_wrapper [OF assms(6,7)] .
  then have "after_executing_keyword db_type t \<noteq> None"
    using assms(8) by (auto simp: mysql_explain_executed_statement_in_view_def Let_def split: option.splits if_splits)
  then have reads: "reads_as_explain db_type w"
    using assms(6) mysql_profile [OF assms(4)]
    by (auto simp: after_executing_keyword_def reads_as_explain_def split: if_splits)
  have "statement_reader_view db_type t = t" using plain_view [of "hd t" "tl t" db_type] assms(1-4) by simp
  then have "mysql_fully_executed_explain_target db_type t = Some (unwrap_explains db_type s)"
    using assms(8) by (simp add: mysql_fully_executed_explain_target_def)
  then show ?thesis
    using plain_new [OF assms(1-7), of tables] reads assms(4)
    by (intro classified_as_executed [of _ _ _ w]) simp_all
qed



end
