(* ===== verification/Transaction_Mode.thy ===== *)
theory Transaction_Mode
  imports Plain_Text
begin

text \<open>
  The transaction mode of a query tab. The backend writes a mode as statements
  (\<^verbatim>\<open>src/db/connection.rs\<close>); a successful statement of the user's is read back into a change of the mode
  (\<^verbatim>\<open>src/db/transaction.rs\<close>), which the batch adopts when the backend can express the result
  (\<^verbatim>\<open>src/ui/sql_editor/execution.rs\<close>). The lemmas show that what the MySQL family is sent reads back as the
  mode that was asked for, and that a tab never adopts a mode it could not state again.
\<close>

section \<open>The mode as SQL\<close>

fun label :: "TransactionIsolation \<Rightarrow> string" where
  "label DefaultIsolation = ''Default''"
| "label ReadUncommitted = ''Read uncommitted''"
| "label ReadCommitted = ''Read committed''"
| "label RepeatableRead = ''Repeatable read''"
| "label Serializable = ''Serializable''"

fun sql_level :: "TransactionIsolation \<Rightarrow> string option" where
  "sql_level DefaultIsolation = None"
| "sql_level ReadUncommitted = Some ''READ UNCOMMITTED''"
| "sql_level ReadCommitted = Some ''READ COMMITTED''"
| "sql_level RepeatableRead = Some ''REPEATABLE READ''"
| "sql_level Serializable = Some ''SERIALIZABLE''"

fun join :: "string \<Rightarrow> string list \<Rightarrow> string" where
  "join separator [] = []"
| "join separator [piece] = piece"
| "join separator (piece # pieces) = piece @ separator @ join separator pieces"

definition from_sql_level :: "string \<Rightarrow> TransactionIsolation option" where
  "from_sql_level v =
     (let spaced = map (\<lambda>c. if c = CHR ''-'' \<or> c = CHR ''_'' then CHR '' '' else c) (trim v);
          normalized =
            to_ascii_uppercase (join '' '' (map concat (nonempty_pieces char_is_whitespace spaced)))
      in if normalized = ''READ UNCOMMITTED'' then Some ReadUncommitted
         else if normalized = ''READ COMMITED'' \<or> normalized = ''READ COMMITTED'' then Some ReadCommitted
         else if normalized = ''REPEATABLE READ'' then Some RepeatableRead
         else if normalized = ''SERIALIZABLE'' then Some Serializable
         else None)"

fun access_label :: "TransactionAccessMode \<Rightarrow> string" where
  "access_label ReadWrite = ''Read write''"
| "access_label ReadOnly = ''Read only''"

fun sql_clause :: "TransactionAccessMode \<Rightarrow> string" where
  "sql_clause ReadWrite = ''READ WRITE''"
| "sql_clause ReadOnly = ''READ ONLY''"

definition is_default :: "TransactionMode \<Rightarrow> bool" where
  "is_default mode \<longleftrightarrow> mode = default_transaction_mode"

definition mode_label :: "TransactionMode \<Rightarrow> string" where
  "mode_label mode = label (isolation mode) @ '', '' @ access_label (access_mode mode)"

section \<open>What a backend can state\<close>

definition ORACLE_TRANSACTION_ISOLATIONS :: "TransactionIsolation list" where
  "ORACLE_TRANSACTION_ISOLATIONS = [DefaultIsolation, ReadCommitted, Serializable]"

definition MYSQL_TRANSACTION_ISOLATIONS :: "TransactionIsolation list" where
  "MYSQL_TRANSACTION_ISOLATIONS =
     [DefaultIsolation, ReadUncommitted, ReadCommitted, RepeatableRead, Serializable]"

fun supported_transaction_isolations :: "DatabaseType \<Rightarrow> TransactionIsolation list" where
  "supported_transaction_isolations Oracle = ORACLE_TRANSACTION_ISOLATIONS"
| "supported_transaction_isolations MySQL = MYSQL_TRANSACTION_ISOLATIONS"
| "supported_transaction_isolations MariaDB = MYSQL_TRANSACTION_ISOLATIONS"

definition transaction_isolation_choice_labels ::
    "DatabaseType \<Rightarrow> TransactionIsolation option \<Rightarrow> string" where
  "transaction_isolation_choice_labels db_type default_isolation =
     join ''|''
       (map (\<lambda>i. case default_isolation of
            Some d \<Rightarrow>
              if i = DefaultIsolation \<and> d \<noteq> DefaultIsolation then ''Default ('' @ label d @ '')''
              else label i
          | None \<Rightarrow> label i)
         (supported_transaction_isolations db_type))"

definition transaction_isolation_from_choice_index ::
    "DatabaseType \<Rightarrow> int \<Rightarrow> TransactionIsolation \<Rightarrow> TransactionIsolation" where
  "transaction_isolation_from_choice_index db_type index fallback =
     (let i = nat (max index 0); choices = supported_transaction_isolations db_type
      in if i < length choices then choices ! i else fallback)"

definition choice_index_from_transaction_isolation ::
    "DatabaseType \<Rightarrow> TransactionIsolation \<Rightarrow> TransactionIsolation \<Rightarrow> int" where
  "choice_index_from_transaction_isolation db_type i fallback =
     (let choices = supported_transaction_isolations db_type
      in case position_of i choices of
           Some n \<Rightarrow> int n
         | None \<Rightarrow> (case position_of fallback choices of Some n \<Rightarrow> int n | None \<Rightarrow> 0))"

fun transaction_mode_requires_first_statement :: "DatabaseType \<Rightarrow> TransactionMode \<Rightarrow> bool" where
  "transaction_mode_requires_first_statement Oracle mode = (\<not> is_default mode)"
| "transaction_mode_requires_first_statement MySQL mode = False"
| "transaction_mode_requires_first_statement MariaDB mode = False"

definition oracle_transaction_mode_statements :: "TransactionMode \<Rightarrow> string + string list" where
  "oracle_transaction_mode_statements mode =
     (if isolation mode \<notin> set ORACLE_TRANSACTION_ISOLATIONS then
        Inl (''Oracle does not support '' @ label (isolation mode) @ '' transaction isolation'')
      else if access_mode mode = ReadOnly then
        (if isolation mode \<noteq> DefaultIsolation \<and> isolation mode \<noteq> Serializable then
           Inl (''Oracle cannot combine '' @ label (isolation mode) @
             '' isolation with READ ONLY: a read-only transaction always reads a single consistent snapshot (Serializable)'')
         else Inr [''SET TRANSACTION '' @ sql_clause (access_mode mode)])
      else
        (case sql_level (isolation mode) of
           Some level \<Rightarrow> Inr [''SET TRANSACTION ISOLATION LEVEL '' @ level]
         | None \<Rightarrow> Inr []))"

definition mysql_transaction_mode_statements :: "TransactionMode \<Rightarrow> string + string list" where
  "mysql_transaction_mode_statements mode =
     (if isolation mode \<notin> set MYSQL_TRANSACTION_ISOLATIONS then
        Inl (''MySQL/MariaDB does not support '' @ label (isolation mode) @ '' transaction isolation'')
      else
        (let characteristics =
           (case sql_level (isolation mode) of
              Some level \<Rightarrow> [''ISOLATION LEVEL '' @ level]
            | None \<Rightarrow> []) @ [sql_clause (access_mode mode)]
         in Inr [''SET SESSION TRANSACTION '' @ join '', '' characteristics]))"

fun transaction_mode_statements_for ::
    "DatabaseType \<Rightarrow> TransactionMode \<Rightarrow> string + string list" where
  "transaction_mode_statements_for Oracle mode = oracle_transaction_mode_statements mode"
| "transaction_mode_statements_for MySQL mode = mysql_transaction_mode_statements mode"
| "transaction_mode_statements_for MariaDB mode = mysql_transaction_mode_statements mode"

definition transaction_mode_selection_error :: "DatabaseType \<Rightarrow> TransactionMode \<Rightarrow> string option" where
  "transaction_mode_selection_error db_type mode =
     (case transaction_mode_statements_for db_type mode of Inl message \<Rightarrow> Some message | Inr _ \<Rightarrow> None)"

definition transaction_mode_with_default_substituted ::
    "DatabaseType \<Rightarrow> TransactionMode \<Rightarrow> TransactionIsolation \<Rightarrow> TransactionMode" where
  "transaction_mode_with_default_substituted db_type mode default_isolation =
     (if db_type \<noteq> Oracle \<and> isolation mode = DefaultIsolation \<and> default_isolation \<noteq> DefaultIsolation
      then \<lparr>isolation = default_isolation, access_mode = access_mode mode\<rparr>
      else mode)"

definition transaction_mode_statements_for_with_default ::
    "DatabaseType \<Rightarrow> TransactionMode \<Rightarrow> TransactionIsolation \<Rightarrow> string + string list" where
  "transaction_mode_statements_for_with_default db_type mode default_isolation =
     transaction_mode_statements_for db_type
       (transaction_mode_with_default_substituted db_type mode default_isolation)"

section \<open>The change a statement makes\<close>

record SessionTransactionModeChange =
  change_isolation :: "TransactionIsolation option"
  change_access_mode :: "TransactionAccessMode option"

definition no_change :: SessionTransactionModeChange where
  "no_change = \<lparr>change_isolation = None, change_access_mode = None\<rparr>"

definition change_is_empty :: "SessionTransactionModeChange \<Rightarrow> bool" where
  "change_is_empty change \<longleftrightarrow> change_isolation change = None \<and> change_access_mode change = None"

definition or_else :: "'a option \<Rightarrow> 'a option \<Rightarrow> 'a option" where
  "or_else x y = (case x of Some v \<Rightarrow> Some v | None \<Rightarrow> y)"

definition change_then ::
    "SessionTransactionModeChange \<Rightarrow> SessionTransactionModeChange \<Rightarrow> SessionTransactionModeChange" where
  "change_then change next =
     \<lparr>change_isolation = or_else (change_isolation next) (change_isolation change),
      change_access_mode = or_else (change_access_mode next) (change_access_mode change)\<rparr>"

definition applied_to :: "SessionTransactionModeChange \<Rightarrow> TransactionMode \<Rightarrow> TransactionMode" where
  "applied_to change mode =
     \<lparr>isolation = (case change_isolation change of Some i \<Rightarrow> i | None \<Rightarrow> isolation mode),
      access_mode = (case change_access_mode change of Some a \<Rightarrow> a | None \<Rightarrow> access_mode mode)\<rparr>"

definition isolation_level_words :: "string list \<Rightarrow> (TransactionIsolation \<times> nat) option" where
  "isolation_level_words ws =
     (if nth_word ws 0 = Some ''SERIALIZABLE'' then Some (Serializable, 1)
      else if nth_word ws 0 = Some ''READ'' \<and> nth_word ws 1 = Some ''COMMITTED'' then Some (ReadCommitted, 2)
      else if nth_word ws 0 = Some ''READ'' \<and> nth_word ws 1 = Some ''UNCOMMITTED''
      then Some (ReadUncommitted, 2)
      else if nth_word ws 0 = Some ''REPEATABLE'' \<and> nth_word ws 1 = Some ''READ''
      then Some (RepeatableRead, 2)
      else None)"

function characteristics_loop ::
    "SessionTransactionModeChange \<Rightarrow> string list \<Rightarrow> SessionTransactionModeChange option" where
  "characteristics_loop change [] = Some change"
| "characteristics_loop change (word # ws) =
     (if word = ''ISOLATION'' \<and> nth_word ws 0 = Some ''LEVEL'' then
        (case isolation_level_words (drop 1 ws) of
           None \<Rightarrow> None
         | Some (i, consumed) \<Rightarrow>
             characteristics_loop (change\<lparr>change_isolation := Some i\<rparr>) (drop (1 + consumed) ws))
      else if word = ''READ'' \<and> nth_word ws 0 = Some ''ONLY'' then
        characteristics_loop (change\<lparr>change_access_mode := Some ReadOnly\<rparr>) (drop 1 ws)
      else if word = ''READ'' \<and> nth_word ws 0 = Some ''WRITE'' then
        characteristics_loop (change\<lparr>change_access_mode := Some ReadWrite\<rparr>) (drop 1 ws)
      else None)"
  by pat_completeness auto
termination by (relation "measure (\<lambda>(change, ws). length ws)") auto

definition nonempty_change :: "SessionTransactionModeChange \<Rightarrow> SessionTransactionModeChange option" where
  "nonempty_change change = (if change_is_empty change then None else Some change)"

definition mysql_session_transaction_characteristics_change ::
    "string list \<Rightarrow> SessionTransactionModeChange option" where
  "mysql_session_transaction_characteristics_change ws =
     Option.bind (characteristics_loop no_change (drop 3 ws)) nonempty_change"

definition mysql_set_assignment_literal_value :: "string \<Rightarrow> string option" where
  "mysql_set_assignment_literal_value v =
     (let trimmed = trim v
      in if trimmed = [] then None
         else if is_quote (hd trimmed) then
           (if length trimmed < 2 \<or> last trimmed \<noteq> hd trimmed then None
            else if hd trimmed \<in> set (inside trimmed) \<or> CHR 0x5C \<in> set (inside trimmed) then None
            else Some (inside trimmed))
         else Some trimmed)"

definition mysql_set_assignment_boolean_value :: "string \<Rightarrow> bool option" where
  "mysql_set_assignment_boolean_value v =
     mysql_normalized_autocommit_bool (to_ascii_uppercase (trim v))"

definition without_named_session_scope :: "string \<Rightarrow> string" where
  "without_named_session_scope target =
     (if starts_with target ''SESSION '' then drop 8 target
      else if starts_with target ''LOCAL '' then drop 6 target
      else if starts_with target ''@@SESSION.'' then drop 10 target
      else if starts_with target ''@@LOCAL.'' then drop 8 target
      else target)"

fun mode_assignments :: "char_tables \<Rightarrow> SessionTransactionModeChange \<Rightarrow> string list
    \<Rightarrow> SessionTransactionModeChange option" where
  "mode_assignments tables change [] = Some change"
| "mode_assignments tables change (assignment # rest) =
     (if mysql_transaction_mode_assignment_scope tables assignment \<noteq> Some SessionScope
      then mode_assignments tables change rest
      else
        (case mysql_set_assignment_target_and_value assignment of
           None \<Rightarrow> None
         | Some (target, v) \<Rightarrow>
             (let target = without_named_session_scope (mysql_normalized_set_assignment_target tables target)
              in if target = ''TRANSACTION_ISOLATION'' \<or> target = ''TX_ISOLATION'' then
                   (case Option.bind (mysql_set_assignment_literal_value v) from_sql_level of
                      None \<Rightarrow> None
                    | Some i \<Rightarrow> mode_assignments tables (change\<lparr>change_isolation := Some i\<rparr>) rest)
                 else if target = ''TRANSACTION_READ_ONLY'' \<or> target = ''TX_READ_ONLY'' then
                   (case Option.bind (mysql_set_assignment_literal_value v)
                       mysql_set_assignment_boolean_value of
                      None \<Rightarrow> None
                    | Some read_only \<Rightarrow>
                        mode_assignments tables
                          (change\<lparr>change_access_mode := Some (if read_only then ReadOnly else ReadWrite)\<rparr>)
                          rest)
                 else None)))"

definition mysql_session_transaction_mode_change_from_assignments ::
    "char_tables \<Rightarrow> string \<Rightarrow> SessionTransactionModeChange option" where
  "mysql_session_transaction_mode_change_from_assignments tables s =
     (case set_assignments s of
        None \<Rightarrow> None
      | Some assignments \<Rightarrow> Option.bind (mode_assignments tables no_change assignments) nonempty_change)"

definition words_of :: "char_tables \<Rightarrow> DatabaseType \<Rightarrow> string \<Rightarrow> string list" where
  "words_of tables db_type s = analysis_words (new_for_db_type tables db_type s)"

definition effective_statement :: "DatabaseType \<Rightarrow> string \<Rightarrow> string" where
  "effective_statement db_type s =
     (case db_type of
        MariaDB \<Rightarrow> (case mariadb_set_statement_inner_sql s of Some inner \<Rightarrow> inner | None \<Rightarrow> s)
      | _ \<Rightarrow> s)"

definition mysql_session_transaction_mode_change_for_statement ::
    "char_tables \<Rightarrow> DatabaseType \<Rightarrow> string \<Rightarrow> SessionTransactionModeChange option" where
  "mysql_session_transaction_mode_change_for_statement tables db_type s =
     (let s = effective_statement db_type s; ws = words_of tables db_type s
      in if nth_word ws 0 \<noteq> Some ''SET'' \<or> mysql_set_account_ddl_statement ws then None
         else if \<not> mysql_set_body_starts_with_user_variable s \<and> mysql_set_session_transaction_statement ws
         then mysql_session_transaction_characteristics_change ws
         else mysql_session_transaction_mode_change_from_assignments tables s)"

definition oracle_session_transaction_mode_change_for_statement ::
    "char_tables \<Rightarrow> string \<Rightarrow> SessionTransactionModeChange option" where
  "oracle_session_transaction_mode_change_for_statement tables s =
     (let ws = words_of tables Oracle s
      in if oracle_alter_session_set_target (statement_assignment_count s) ws \<noteq> IsolationLevel then None
         else
           map_option (\<lambda>i. \<lparr>change_isolation = Some i, change_access_mode = None\<rparr>)
             (oracle_alter_session_isolation_level_value (drop 4 ws)))"

fun session_transaction_mode_change_for_single_statement ::
    "char_tables \<Rightarrow> DatabaseType \<Rightarrow> string \<Rightarrow> SessionTransactionModeChange option" where
  "session_transaction_mode_change_for_single_statement tables Oracle s =
     oracle_session_transaction_mode_change_for_statement tables s"
| "session_transaction_mode_change_for_single_statement tables MySQL s =
     mysql_session_transaction_mode_change_for_statement tables MySQL s"
| "session_transaction_mode_change_for_single_statement tables MariaDB s =
     mysql_session_transaction_mode_change_for_statement tables MariaDB s"

definition merge_mode_changes ::
    "SessionTransactionModeChange option \<Rightarrow> SessionTransactionModeChange option
       \<Rightarrow> SessionTransactionModeChange option" where
  "merge_mode_changes earlier later =
     (case (earlier, later) of
        (Some e, Some l) \<Rightarrow> Some (change_then e l)
      | _ \<Rightarrow> later_unit_answer_wins earlier later)"

definition session_transaction_mode_change_for_statement ::
    "char_tables \<Rightarrow> 'tool splitter \<Rightarrow> DatabaseType \<Rightarrow> string \<Rightarrow> SessionTransactionModeChange option" where
  "session_transaction_mode_change_for_statement tables split db_type s =
     answer (fold_over_unit_statements split db_type s
       (session_transaction_mode_change_for_single_statement tables db_type) merge_mode_changes)"

text \<open>
  The batch adopts the change: its own mode, the pin of the tab and the notice to the window all take
  the merged mode. Nothing is adopted that the backend has no statements for.
\<close>

definition adopt_session_transaction_mode_change_after_statement ::
    "char_tables \<Rightarrow> 'tool splitter \<Rightarrow> DatabaseType \<Rightarrow> string \<Rightarrow> TransactionMode
       \<Rightarrow> TransactionMode \<times> TransactionMode option" where
  "adopt_session_transaction_mode_change_after_statement tables split db_type s active =
     (case session_transaction_mode_change_for_statement tables split db_type s of
        None \<Rightarrow> (active, None)
      | Some change \<Rightarrow>
          (let mode = applied_to change active
           in if transaction_mode_selection_error db_type mode \<noteq> None then (active, None)
              else (mode, Some mode)))"

section \<open>Statements that turn a read-only pin off\<close>

definition adjacent_words :: "string \<Rightarrow> string \<Rightarrow> string list \<Rightarrow> bool" where
  "adjacent_words first second ws = words_contain_sequence ws [first, second]"

definition value_is_not_true :: "string \<Rightarrow> bool" where
  "value_is_not_true v \<longleftrightarrow>
     Option.bind (mysql_set_assignment_literal_value v) mysql_set_assignment_boolean_value \<noteq> Some True"

definition assignment_forces_next_read_write :: "char_tables \<Rightarrow> string \<Rightarrow> bool" where
  "assignment_forces_next_read_write tables assignment =
     (mysql_transaction_mode_assignment_scope tables assignment = Some NextTransactionScope \<and>
      (case mysql_set_assignment_target_and_value assignment of
         None \<Rightarrow> False
       | Some (target, v) \<Rightarrow>
           (case strip_prefix ''@@'' (mysql_normalized_set_assignment_target tables target) of
              None \<Rightarrow> False
            | Some target \<Rightarrow>
                (target = ''TRANSACTION_READ_ONLY'' \<or> target = ''TX_READ_ONLY'') \<and> value_is_not_true v)))"

definition mysql_set_assignment_forces_next_transaction_read_write ::
    "char_tables \<Rightarrow> string \<Rightarrow> bool" where
  "mysql_set_assignment_forces_next_transaction_read_write tables s =
     (case set_assignments s of
        None \<Rightarrow> False
      | Some assignments \<Rightarrow> list_ex (assignment_forces_next_read_write tables) assignments)"

definition mariadb_set_statement_wrapper_forces_read_write :: "char_tables \<Rightarrow> string \<Rightarrow> bool" where
  "mariadb_set_statement_wrapper_forces_read_write tables s =
     (case mariadb_set_statement_assignments_sql s of
        None \<Rightarrow> False
      | Some assignments \<Rightarrow>
          list_ex (\<lambda>assignment.
              case mysql_set_assignment_target_and_value assignment of
                None \<Rightarrow> False
              | Some (target, v) \<Rightarrow>
                  mysql_normalized_set_assignment_target tables target
                    \<in> {''TRANSACTION_READ_ONLY'', ''TX_READ_ONLY''} \<and> value_is_not_true v)
            (mysql_split_unquoted_assignments assignments))"

definition mysql_statement_escapes_read_only_transaction_for_db_type ::
    "char_tables \<Rightarrow> DatabaseType \<Rightarrow> string \<Rightarrow> bool" where
  "mysql_statement_escapes_read_only_transaction_for_db_type tables db_type s =
     (if db_type = MariaDB \<and> mariadb_set_statement_wrapper_forces_read_write tables s then True
      else
        (let effective = effective_statement db_type s; ws = words_of tables db_type effective
         in if starts_with_words ws [''START'', ''TRANSACTION''] \<or>
               \<not> mysql_set_body_starts_with_user_variable effective \<and>
               mysql_set_next_transaction_statement ws
            then adjacent_words ''READ'' ''WRITE'' (drop 2 ws)
            else mysql_set_assignment_forces_next_transaction_read_write tables effective))"

definition statement_forces_read_write_transaction :: "char_tables \<Rightarrow> DatabaseType \<Rightarrow> string \<Rightarrow> bool" where
  "statement_forces_read_write_transaction tables db_type s =
     (case db_type of
        Oracle \<Rightarrow>
          oracle_set_transaction_statement_for_words (words_of tables db_type s) \<and>
          adjacent_words ''READ'' ''WRITE'' (words_of tables db_type s)
      | _ \<Rightarrow> mysql_statement_escapes_read_only_transaction_for_db_type tables db_type s)"

definition mysql_statement_sets_next_transaction_mode_override :: "char_tables \<Rightarrow> string \<Rightarrow> bool" where
  "mysql_statement_sets_next_transaction_mode_override tables s \<longleftrightarrow>
     NextTransactionScope \<in>
       set (mysql_transaction_mode_assignment_scopes tables (effective_statement MariaDB s))"

definition mysql_statement_starts_xa_transaction :: "char_tables \<Rightarrow> string \<Rightarrow> bool" where
  "mysql_statement_starts_xa_transaction tables s =
     (let ws = words_of tables MySQL (effective_statement MariaDB s)
      in starts_with_words ws [''XA'', ''START''] \<or> starts_with_words ws [''XA'', ''BEGIN''])"

section \<open>How the session reads a backslash\<close>

datatype SessionBackslashRule = Escapes | Literal | UnknownRule

fun doubles_a_backslash :: "SessionBackslashRule \<Rightarrow> bool option" where
  "doubles_a_backslash Escapes = Some True"
| "doubles_a_backslash Literal = Some False"
| "doubles_a_backslash UnknownRule = None"

fun split_at_commas :: "string \<Rightarrow> string list" where
  "split_at_commas [] = [[]]"
| "split_at_commas (c # cs) =
     (if c = CHR '','' then [] # split_at_commas cs
      else (case split_at_commas cs of [] \<Rightarrow> [[c]] | piece # pieces \<Rightarrow> (c # piece) # pieces))"

definition session_backslash_rule_for_sql_mode :: "string \<Rightarrow> SessionBackslashRule" where
  "session_backslash_rule_for_sql_mode sql_mode =
     (if list_ex (\<lambda>mode. to_ascii_uppercase (trim mode) = ''NO_BACKSLASH_ESCAPES'')
         (split_at_commas sql_mode)
      then Literal else Escapes)"

definition assignment_moves_backslash_rule :: "char_tables \<Rightarrow> string \<Rightarrow> bool" where
  "assignment_moves_backslash_rule tables assignment =
     (case assignment_target tables assignment of
        None \<Rightarrow> False
      | Some target \<Rightarrow>
          \<not> is_user_variable_target target \<and>
          \<not> mysql_set_assignment_target_is_global_or_persist_scope target \<and>
          without_session_scope target = ''SQL_MODE'')"

definition mysql_statement_moves_session_backslash_rule ::
    "char_tables \<Rightarrow> DatabaseType \<Rightarrow> string \<Rightarrow> bool" where
  "mysql_statement_moves_session_backslash_rule tables db_type s =
     (let s = effective_statement db_type s; ws = words_of tables db_type s
      in if nth_word ws 0 \<noteq> Some ''SET'' \<or> mysql_set_account_ddl_statement ws \<or>
            mysql_set_body_starts_with_user_variable s then False
         else
           (case set_assignments s of
              None \<Rightarrow> False
            | Some assignments \<Rightarrow> list_ex (assignment_moves_backslash_rule tables) assignments))"

definition statement_moves_session_backslash_rule ::
    "char_tables \<Rightarrow> 'tool splitter \<Rightarrow> DatabaseType \<Rightarrow> string \<Rightarrow> bool" where
  "statement_moves_session_backslash_rule tables split db_type s \<longleftrightarrow>
     db_type \<noteq> Oracle \<and>
     answer (fold_over_unit_statements split db_type s
       (mysql_statement_moves_session_backslash_rule tables db_type) (\<or>))"

section \<open>A stated mode reads back\<close>

definition mode_statement :: "TransactionMode \<Rightarrow> string" where
  "mode_statement mode =
     ''SET SESSION TRANSACTION '' @
       join '', '' ((case sql_level (isolation mode) of Some level \<Rightarrow> [''ISOLATION LEVEL '' @ level] | None \<Rightarrow> [])
         @ [sql_clause (access_mode mode)])"

lemma mysql_states_mode:
  "db_type \<noteq> Oracle \<Longrightarrow> transaction_mode_statements_for db_type mode = Inr [mode_statement mode]"
  by (cases db_type; cases "isolation mode")
    (simp_all add: mysql_transaction_mode_statements_def mode_statement_def MYSQL_TRANSACTION_ISOLATIONS_def)

fun level_words :: "TransactionIsolation \<Rightarrow> string list" where
  "level_words DefaultIsolation = []"
| "level_words ReadUncommitted = [''ISOLATION'', ''LEVEL'', ''READ'', ''UNCOMMITTED'']"
| "level_words ReadCommitted = [''ISOLATION'', ''LEVEL'', ''READ'', ''COMMITTED'']"
| "level_words RepeatableRead = [''ISOLATION'', ''LEVEL'', ''REPEATABLE'', ''READ'']"
| "level_words Serializable = [''ISOLATION'', ''LEVEL'', ''SERIALIZABLE'']"

fun access_words :: "TransactionAccessMode \<Rightarrow> string list" where
  "access_words ReadWrite = [''READ'', ''WRITE'']"
| "access_words ReadOnly = [''READ'', ''ONLY'']"

lemma mode_statement_runs:
  "map to_ascii_uppercase (word_runs (mode_statement \<lparr>isolation = i, access_mode = a\<rparr>)) =
     [''SET'', ''SESSION'', ''TRANSACTION''] @ level_words i @ access_words a"
  by (cases i; cases a)
    (simp_all add: mode_statement_def is_word_start_def is_word_part_def is_ascii_alphabetic_def
      is_ascii_digit_def byte_between_def to_ascii_uppercase_def to_ascii_upper_def)

lemma mode_statement_unmarked:
  "unmarked (mode_statement \<lparr>isolation = i, access_mode = a\<rparr>)"
  "CHR ''@'' \<notin> set (mode_statement \<lparr>isolation = i, access_mode = a\<rparr>)"
  by (cases i; cases a; simp add: unmarked_def unquoted_def mode_statement_def)+

lemma mode_statement_words:
  assumes "db_type \<noteq> Oracle"
  shows "words_of tables db_type (mode_statement \<lparr>isolation = i, access_mode = a\<rparr>) =
     [''SET'', ''SESSION'', ''TRANSACTION''] @ level_words i @ access_words a"
proof -
  obtain cs where shape: "mode_statement \<lparr>isolation = i, access_mode = a\<rparr> = CHR ''S'' # cs"
    by (simp add: mode_statement_def)
  have "is_ascii_alphabetic CHR ''S''" by code_simp
  then show ?thesis
    using assms mode_statement_unmarked(1) [of i a] mode_statement_runs [of i a]
    by (simp add: words_of_def shape plain_analysis del: word_runs.simps)
qed

lemma characteristics_read_back:
  "mysql_session_transaction_characteristics_change
     ([''SET'', ''SESSION'', ''TRANSACTION''] @ level_words i @ access_words a) =
     Some \<lparr>change_isolation = (if i = DefaultIsolation then None else Some i), change_access_mode = Some a\<rparr>"
  by (induct i; induct a; code_simp)

lemma mode_change_read_back:
  assumes "db_type \<noteq> Oracle"
  shows "session_transaction_mode_change_for_single_statement tables db_type
      (mode_statement \<lparr>isolation = i, access_mode = a\<rparr>) =
     Some \<lparr>change_isolation = (if i = DefaultIsolation then None else Some i), change_access_mode = Some a\<rparr>"
proof -
  let ?s = "mode_statement \<lparr>isolation = i, access_mode = a\<rparr>"
  let ?ws = "[''SET'', ''SESSION'', ''TRANSACTION''] @ level_words i @ access_words a"
  obtain cs where shape: "?s = CHR ''S'' # cs" by (simp add: mode_statement_def)
  have alpha: "is_ascii_alphabetic CHR ''S''" by code_simp
  have "take 2 (map to_ascii_uppercase (word_runs ?s)) \<noteq> [''SET'', ''STATEMENT'']"
    unfolding mode_statement_runs by simp
  then have "mariadb_set_statement_inner_sql ?s = None"
    using mysql_inner_none [OF _ alpha] mode_statement_unmarked(1) [of i a] unfolding shape by blast
  then have effective: "effective_statement db_type ?s = ?s"
    by (simp add: effective_statement_def split: DatabaseType.split)
  have "mysql_session_transaction_mode_change_for_statement tables db_type ?s =
      mysql_session_transaction_characteristics_change ?ws"
    using mode_statement_words [OF assms, of tables i a] no_user_variable [OF mode_statement_unmarked]
    by (simp add: mysql_session_transaction_mode_change_for_statement_def effective nth_word_def
        mysql_set_account_ddl_statement_def mysql_set_password_statement_def
        mysql_set_default_role_statement_def mysql_set_session_transaction_statement_def
        starts_with_words_def Let_def)
  then show ?thesis
    using assms characteristics_read_back [of i a] by (cases db_type) simp_all
qed

text \<open>
  C15. What the MySQL family is told for a mode is one statement, and when that statement succeeds the
  reader takes the same mode from its text: whatever the session carried before, the change leaves the
  isolation level and the access mode that were stated. A default level says nothing about the level,
  and the level the session had stays.
\<close>
theorem stated_mode_reads_back:
  assumes "db_type \<noteq> Oracle"
  shows "\<exists>s change.
     transaction_mode_statements_for db_type mode = Inr [s] \<and>
     session_transaction_mode_change_for_single_statement tables db_type s = Some change \<and>
     applied_to change prior =
       (if isolation mode = DefaultIsolation then mode\<lparr>isolation := isolation prior\<rparr> else mode)"
proof -
  obtain i a where mode: "mode = \<lparr>isolation = i, access_mode = a\<rparr>" by (cases mode)
  show ?thesis
    using mysql_states_mode [OF assms, of mode] mode_change_read_back [OF assms, of tables i a]
    by (auto simp: mode applied_to_def)
qed

theorem stated_mode_reads_back_witness:
  "\<exists>s change.
     transaction_mode_statements_for MariaDB \<lparr>isolation = Serializable, access_mode = ReadOnly\<rparr> = Inr [s] \<and>
     session_transaction_mode_change_for_single_statement ascii_tables MariaDB s = Some change \<and>
     applied_to change default_transaction_mode = \<lparr>isolation = Serializable, access_mode = ReadOnly\<rparr>"
  using stated_mode_reads_back [of MariaDB "\<lparr>isolation = Serializable, access_mode = ReadOnly\<rparr>" ascii_tables
      default_transaction_mode]
  by simp

section \<open>What a batch adopts\<close>

definition adopted_mode ::
    "char_tables \<Rightarrow> 'tool splitter \<Rightarrow> DatabaseType \<Rightarrow> TransactionMode \<Rightarrow> string list \<Rightarrow> TransactionMode" where
  "adopted_mode tables split db_type active statements =
     foldl (\<lambda>mode s. fst (adopt_session_transaction_mode_change_after_statement tables split db_type s mode))
       active statements"

text \<open>
  The modes a backend has statements for, by the backend's own rules: Oracle knows the levels read committed and
  serializable only, and its read-only transaction is a serializable snapshot, which excludes read committed;
  the MySQL family has every combination.
\<close>

definition selectable_mode :: "DatabaseType \<Rightarrow> TransactionMode \<Rightarrow> bool" where
  "selectable_mode db_type mode \<longleftrightarrow>
     (db_type = Oracle \<longrightarrow>
        isolation mode \<noteq> ReadUncommitted \<and> isolation mode \<noteq> RepeatableRead \<and>
        \<not> (access_mode mode = ReadOnly \<and> isolation mode = ReadCommitted))"

lemma selection_error_iff: "transaction_mode_selection_error db_type mode = None \<longleftrightarrow> selectable_mode db_type mode"
  by (cases db_type; cases "isolation mode"; cases "access_mode mode")
    (simp_all add: transaction_mode_selection_error_def selectable_mode_def oracle_transaction_mode_statements_def
      mysql_transaction_mode_statements_def ORACLE_TRANSACTION_ISOLATIONS_def MYSQL_TRANSACTION_ISOLATIONS_def Let_def)

definition adopt_change :: "DatabaseType \<Rightarrow> TransactionMode \<Rightarrow> SessionTransactionModeChange \<Rightarrow> TransactionMode" where
  "adopt_change db_type mode change =
     (if selectable_mode db_type (applied_to change mode) then applied_to change mode else mode)"

lemma adopt_statement:
  "fst (adopt_session_transaction_mode_change_after_statement tables split db_type s mode) =
     (case session_transaction_mode_change_for_statement tables split db_type s of
        None \<Rightarrow> mode | Some change \<Rightarrow> adopt_change db_type mode change)"
  by (simp add: adopt_session_transaction_mode_change_after_statement_def adopt_change_def selection_error_iff Let_def
      split: option.split)

lemma adopt_changes_selectable:
  "selectable_mode db_type mode \<Longrightarrow> selectable_mode db_type (foldl (adopt_change db_type) mode changes)"
  by (induction changes arbitrary: mode) (simp_all add: adopt_change_def)




lemma position_of_nth: "x \<in> set xs \<Longrightarrow> \<exists>n. position_of x xs = Some n \<and> n < length xs \<and> xs ! n = x"
  by (induction xs) auto

text \<open>The toolbar's list: the position shown for a supported isolation level selects that level again.\<close>
lemma isolation_choice_round_trip:
  assumes "i \<in> set (supported_transaction_isolations db_type)"
  shows "transaction_isolation_from_choice_index db_type
     (choice_index_from_transaction_isolation db_type i fallback) other = i"
  using position_of_nth [OF assms]
  by (auto simp: transaction_isolation_from_choice_index_def choice_index_from_transaction_isolation_def
      Let_def)

lemma isolation_choice_round_trip_witness:
  "transaction_isolation_from_choice_index Oracle
     (choice_index_from_transaction_isolation Oracle Serializable DefaultIsolation) ReadCommitted = Serializable"
  by (rule isolation_choice_round_trip) (simp add: ORACLE_TRANSACTION_ISOLATIONS_def)

section \<open>A user variable hides the SQL mode\<close>

text \<open>
  The reader that tells whether a statement moved the session's backslash rule leaves as soon as the first
  assignment is to a user variable, and misses an SQL mode set further on.
\<close>

lemma leading_user_variable_hides_sql_mode:
  "\<not> mysql_statement_moves_session_backslash_rule tables MySQL ''SET @a = 1, sql_mode = 2''"
  "mysql_statement_moves_session_backslash_rule tables MySQL ''SET sql_mode = 2, @a = 1''"
  by code_simp+

end
