(* ===== verification/Read_Only_Guard.thy ===== *)
theory Read_Only_Guard
  imports Read_Only_Statements Transaction_Mode Session_Policy Spool_Session
begin

text \<open>
  The two read-only guards. A connection marked read-only refuses every text that is not provably a read
  (\<^verbatim>\<open>read_only_block_reason\<close>, \<^verbatim>\<open>src/db/sql_classification.rs\<close>); a query tab pinned to read-only leaves
  the data to the server and refuses what the server would let through
  (\<^verbatim>\<open>transaction_mode_refusal_for_statement\<close>, \<^verbatim>\<open>src/ui/sql_editor/execution.rs\<close>). Both split the text once, with
  the executor's own splitter, and ask every statement they find; the questions they share are in
  \<^verbatim>\<open>read_only_shared_refusal\<close>. The splitter stays a parameter. The locale \<open>read_only_guard\<close> is what the two
  promise, and both are instances.
\<close>

section \<open>Tool commands\<close>

datatype (plugins only: code) ToolCommand =
    Var string BindDataType
  | Print "string option"
  | SetServerOutput bool "32 word option" bool
  | ShowErrors "string option" "string option"
  | ShowUser
  | ShowAll
  | Describe string
  | Prompt string
  | Pause "string option"
  | Accept string "string option"
  | Define string string
  | Undefine string
  | ColumnNewValue string string
  | BreakOn string
  | BreakOff
  | ClearBreaks
  | ClearComputes
  | ClearBreaksComputes
  | Compute ComputeMode "string option" "string option" "string option"
  | ComputeOff
  | SetErrorContinue bool
  | SetAutoCommit bool
  | SetDefine bool "string option"
  | SetConcat bool "string option"
  | SetEscape bool "string option"
  | SqlPlusReportLayout string
  | SetScan bool
  | SetVerify bool
  | SetEcho bool
  | SetTiming bool
  | SetFeedback bool
  | SetHeading bool
  | SetPageSize "32 word"
  | SetLineSize "32 word"
  | SetTrimSpool bool
  | SetTrimOut bool
  | SetSqlBlankLines bool
  | SetTab bool
  | SetColSep string
  | SetNull string
  | Spool "string option" bool
  | WheneverSqlError bool "string option"
  | WheneverOsError bool
  | Exit
  | Quit
  | RunScript string bool
  | Connect string string string "16 word" string
  | Disconnect
  | Use string
  | ShowDatabases
  | ShowTables
  | ShowColumns string "string option"
  | ShowCreateTable string
  | ShowProcessList
  | ShowVariables "string option"
  | ShowStatus "string option"
  | MysqlDelimiter string
  | ShowWarnings
  | MysqlShowErrors
  | MysqlSource string
  | Unsupported string string bool

type_synonym script_splitter =
  "DatabaseType \<Rightarrow> string \<Rightarrow> string option \<Rightarrow> ToolCommand ScriptItem list"

definition unit_split :: "script_splitter \<Rightarrow> ToolCommand splitter" where
  "unit_split split db_type s = split db_type s None"

fun find_map :: "('a \<Rightarrow> 'b option) \<Rightarrow> 'a list \<Rightarrow> 'b option" where
  "find_map f [] = None"
| "find_map f (x # xs) = (case f x of Some y \<Rightarrow> Some y | None \<Rightarrow> find_map f xs)"

lemma find_map_None: "find_map f xs = None \<longleftrightarrow> list_all (\<lambda>x. f x = None) xs"
  by (induction xs) (auto split: option.split)

section \<open>What both guards refuse\<close>

definition READ_ONLY_SERVER_FILE_REFUSAL :: string where
  "READ_ONLY_SERVER_FILE_REFUSAL = ''a statement that writes a file on the server''"

definition READ_ONLY_LOCK_REFUSAL :: string where
  "READ_ONLY_LOCK_REFUSAL = ''a statement that takes a lock other sessions wait for''"

definition READ_ONLY_SERVER_CHANGE_REFUSAL :: string where
  "READ_ONLY_SERVER_CHANGE_REFUSAL = ''a statement that reconfigures the server rather than this session''"

definition statement_writes_a_file_on_the_server :: "DatabaseType \<Rightarrow> string \<Rightarrow> bool" where
  "statement_writes_a_file_on_the_server db_type s =
     (case classification_profile_for_db_type db_type of
        OracleProfile \<Rightarrow> False
      | MySqlCompatible \<Rightarrow>
          sql_contains_word_sequence_any_depth_for_db_type db_type s [''INTO'', ''OUTFILE''] \<or>
          sql_contains_word_sequence_any_depth_for_db_type db_type s [''INTO'', ''DUMPFILE''])"

definition statement_reconfigures_the_server_for_analysis ::
    "char_tables \<Rightarrow> DatabaseType \<Rightarrow> SqlStatementAnalysis \<Rightarrow> bool" where
  "statement_reconfigures_the_server_for_analysis tables db_type analysis =
     (let ws = analysis_words analysis; word = nth_word ws
      in case classification_profile_for_db_type db_type of
           OracleProfile \<Rightarrow> word 0 = Some ''ALTER'' \<and> word 1 = Some ''SYSTEM''
         | MySqlCompatible \<Rightarrow>
             set_sql_assigns_any_global_or_persist_scope tables (stripped_sql analysis) True \<or>
             word 0 = Some ''FLUSH'' \<or>
             word 0 = Some ''KILL'' \<or>
             word 0 = Some ''SHUTDOWN'' \<or>
             word 0 = Some ''RESET'' \<and> word 1 \<in> {Some ''MASTER'', Some ''PERSIST'', Some ''QUERY''} \<or>
             word 0 = Some ''PURGE'' \<and> word 1 \<in> {Some ''BINARY'', Some ''MASTER''} \<or>
             word 0 = Some ''ALTER'' \<and> word 1 = Some ''INSTANCE'' \<or>
             word 0 = Some ''CLONE'' \<or>
             word 0 = Some ''CACHE'' \<and> word 1 = Some ''INDEX'' \<or>
             word 0 = Some ''LOAD'' \<and> word 1 = Some ''INDEX'' \<or>
             word 0 \<in> {Some ''INSTALL'', Some ''UNINSTALL''} \<or>
             mysql_replication_words ws)"

definition statement_acquires_a_lock_other_sessions_wait_for ::
    "char_tables \<Rightarrow> script_splitter \<Rightarrow> DatabaseType \<Rightarrow> string \<Rightarrow> bool" where
  "statement_acquires_a_lock_other_sessions_wait_for tables split db_type s =
     acquires_a_lock_other_sessions_wait_for
       (unit_effects (sql_reader tables) (unit_split split) db_type s)"

definition statement_takes_a_lock_other_sessions_wait_for ::
    "char_tables \<Rightarrow> script_splitter \<Rightarrow> DatabaseType \<Rightarrow> string \<Rightarrow> SqlStatementAnalysis \<Rightarrow> bool" where
  "statement_takes_a_lock_other_sessions_wait_for tables split db_type s analysis =
     (let explicit_lock_statement =
        (case classification_profile_for_db_type db_type of
           OracleProfile \<Rightarrow>
             starts_with_words (analysis_words analysis) [''LOCK'', ''TABLE''] \<or>
             starts_with_words (analysis_words analysis) [''LOCK'', ''TABLES'']
         | MySqlCompatible \<Rightarrow> False)
      in explicit_lock_statement \<or>
         statement_acquires_a_lock_other_sessions_wait_for tables split db_type s)"

definition read_only_shared_refusal_for_analysis ::
    "char_tables \<Rightarrow> script_splitter \<Rightarrow> DatabaseType \<Rightarrow> string \<Rightarrow> SqlStatementAnalysis \<Rightarrow> string option" where
  "read_only_shared_refusal_for_analysis tables split db_type s analysis =
     (if statement_reconfigures_the_server_for_analysis tables db_type analysis
      then Some READ_ONLY_SERVER_CHANGE_REFUSAL
      else if statement_takes_a_lock_other_sessions_wait_for tables split db_type s analysis
      then Some READ_ONLY_LOCK_REFUSAL
      else if statement_writes_a_file_on_the_server db_type s then Some READ_ONLY_SERVER_FILE_REFUSAL
      else None)"

definition read_only_shared_refusal ::
    "char_tables \<Rightarrow> script_splitter \<Rightarrow> DatabaseType \<Rightarrow> string \<Rightarrow> string option" where
  "read_only_shared_refusal tables split db_type s =
     read_only_shared_refusal_for_analysis tables split db_type s (new_for_db_type tables db_type s)"

section \<open>The guard of the connection\<close>

definition describe_blocked_statement :: "SqlKind \<Rightarrow> string option \<Rightarrow> string" where
  "describe_blocked_statement kind leading =
     (let keyword = (case leading of Some k \<Rightarrow> k | None \<Rightarrow> [])
      in if kind = PlsqlOrProcedure \<and> (keyword = ''BEGIN'' \<or> keyword = ''DECLARE'') then ''a PL/SQL block''
         else if kind = UnknownKind \<and> keyword = [] then ''a statement it could not classify as read-only''
         else if kind = UnknownKind
         then ''a '' @ keyword @ '' statement it could not classify as read-only''
         else if keyword = [] then ''a statement that writes''
         else ''a '' @ keyword @ '' statement'')"

definition read_only_refusal_reason ::
    "char_tables \<Rightarrow> script_splitter \<Rightarrow> DatabaseType \<Rightarrow> string \<Rightarrow> SqlKind \<Rightarrow> SqlStatementAnalysis
       \<Rightarrow> string option" where
  "read_only_refusal_reason tables split db_type s kind analysis =
     (case read_only_shared_refusal_for_analysis tables split db_type s analysis of
        Some reason \<Rightarrow> Some reason
      | None \<Rightarrow>
          (case kind of
             SelectLike \<Rightarrow> None
           | TransactionControl \<Rightarrow> None
           | SessionControl \<Rightarrow> None
           | _ \<Rightarrow> Some (describe_blocked_statement kind (nth_word (analysis_words analysis) 0))))"

definition read_only_tool_refusal :: "ToolCommand \<Rightarrow> string option" where
  "read_only_tool_refusal command =
     (case command of
        RunScript path relative_to_caller \<Rightarrow> Some ''a script include, whose contents it cannot check''
      | Connect username password host port service_name \<Rightarrow>
          Some ''a CONNECT command, which would leave this connection behind''
      | _ \<Rightarrow> None)"

fun read_only_item_refusal ::
    "char_tables \<Rightarrow> script_splitter \<Rightarrow> DatabaseType \<Rightarrow> ToolCommand ScriptItem \<Rightarrow> string option" where
  "read_only_item_refusal tables split db_type (StatementItem statement) =
     read_only_refusal_reason tables split db_type statement (classify_sql_for_db_type tables db_type statement)
       (new_for_db_type tables db_type statement)"
| "read_only_item_refusal tables split db_type (ToolCommandItem command) = read_only_tool_refusal command"

definition read_only_block_reason ::
    "char_tables \<Rightarrow> script_splitter \<Rightarrow> DatabaseType \<Rightarrow> string \<Rightarrow> string option \<Rightarrow> string option" where
  "read_only_block_reason tables split db_type s initial_mysql_delimiter =
     find_map (read_only_item_refusal tables split db_type) (split db_type s initial_mysql_delimiter)"

definition connection_refusal ::
    "char_tables \<Rightarrow> script_splitter \<Rightarrow> string \<Rightarrow> DatabaseType \<Rightarrow> string \<Rightarrow> string option \<Rightarrow> string option" where
  "connection_refusal tables split name db_type s initial_mysql_delimiter =
     map_option (\<lambda>reason. ''Connection '' @ [CHR 0x22] @ name @ [CHR 0x22] @ '' is read-only, so '' @ reason @
         '' was not sent to the database.'')
       (read_only_block_reason tables split db_type s initial_mysql_delimiter)"

section \<open>The guard of the tab\<close>

definition starts_with_keyword_token :: "string \<Rightarrow> string \<Rightarrow> bool" where
  "starts_with_keyword_token text_upper keyword =
     (case strip_prefix keyword text_upper of
        None \<Rightarrow> False
      | Some rest \<Rightarrow>
          if starts_with rest ''/*'' \<or> starts_with rest ''--'' \<or> starts_with rest ''#'' then True
          else
            (case rest of
               [] \<Rightarrow> True
             | b # _ \<Rightarrow>
                 if (of_char b :: nat) < 0x80
                 then is_ascii_whitespace b \<or> b \<in> {CHR '';'', CHR '','', CHR ''('', CHR '')''}
                 else char_is_whitespace (char_at rest 0)))"

definition statement_core :: "string \<Rightarrow> string" where
  "statement_core statement =
     trim (rev (dropWhile (\<lambda>c. c = CHR '';'') (rev (trim (strip_leading_comments_and_whitespace statement)))))"

definition is_transaction_first_statement :: "string \<Rightarrow> bool" where
  "is_transaction_first_statement statement =
     (let trimmed = statement_core statement; upper = to_ascii_uppercase trimmed
      in trimmed \<noteq> [] \<and>
         (starts_with_keyword_token upper ''SET TRANSACTION'' \<or>
          starts_with_keyword_token upper ''ALTER SESSION SET ISOLATION_LEVEL''))"

definition first_statement_is_transaction_first :: "ToolCommand ScriptItem list \<Rightarrow> bool" where
  "first_statement_is_transaction_first items =
     (case find_map item_statement items of
        Some statement \<Rightarrow> is_transaction_first_statement statement | None \<Rightarrow> False)"

definition requires_transaction_first_statement :: "ToolCommand ScriptItem list \<Rightarrow> bool" where
  "requires_transaction_first_statement items = first_statement_is_transaction_first items"

text \<open>A frame of a running script: its items and the index of the next one.\<close>

definition next_batch_statement_requires_transaction_first ::
    "(ToolCommand ScriptItem list \<times> nat) list \<Rightarrow> bool" where
  "next_batch_statement_requires_transaction_first frames =
     (case find_map (\<lambda>(items, index). find_map item_statement (drop index items)) (rev frames) of
        Some statement \<Rightarrow> is_transaction_first_statement statement | None \<Rightarrow> False)"

definition oracle_read_only_allows_statement :: "char_tables \<Rightarrow> string \<Rightarrow> bool" where
  "oracle_read_only_allows_statement tables statement =
     (let trimmed = statement_core statement; upper = to_ascii_uppercase trimmed
      in trimmed = [] \<or>
         is_select_statement tables trimmed \<or>
         is_plain_commit tables trimmed \<or>
         is_plain_rollback tables trimmed \<or>
         is_transaction_first_statement trimmed \<or>
         starts_with_keyword_token upper ''SET ROLE'' \<or>
         starts_with_keyword_token upper ''ALTER SESSION'' \<or>
         classify_sql_for_db_type tables Oracle trimmed = TransactionControl)"

definition oracle_read_only_block_message :: string where
  "oracle_read_only_block_message =
     ''Error: Oracle read-only mode blocks non-query statements. Switch to Read write to run this statement.''"

definition read_only_shared_block_message :: "string \<Rightarrow> string" where
  "read_only_shared_block_message reason =
     ''Error: Read only mode blocks '' @ reason @ ''. Switch to Read write to run this statement.''"

definition read_only_escape_block_message :: string where
  "read_only_escape_block_message =
     ''Error: Read only mode blocks an explicit READ WRITE transaction. Switch to Read write to run this statement.''"

definition transaction_mode_refusal_for_single_statement ::
    "char_tables \<Rightarrow> script_splitter \<Rightarrow> DatabaseType \<Rightarrow> TransactionMode \<Rightarrow> string \<Rightarrow> string option" where
  "transaction_mode_refusal_for_single_statement tables split db_type mode s =
     (case read_only_shared_refusal tables split db_type s of
        Some reason \<Rightarrow> Some (read_only_shared_block_message reason)
      | None \<Rightarrow>
          if statement_forces_read_write_transaction tables db_type s
          then Some read_only_escape_block_message
          else if \<not> transaction_mode_requires_first_statement db_type mode then None
          else if oracle_read_only_allows_statement tables s then None
          else Some oracle_read_only_block_message)"

definition transaction_mode_refusal_for_statement ::
    "char_tables \<Rightarrow> script_splitter \<Rightarrow> DatabaseType \<Rightarrow> TransactionMode \<Rightarrow> string \<Rightarrow> string option" where
  "transaction_mode_refusal_for_statement tables split db_type mode s =
     (if access_mode mode \<noteq> ReadOnly then None
      else
        find_map (\<lambda>item. case item of
            StatementItem statement \<Rightarrow>
              transaction_mode_refusal_for_single_statement tables split db_type mode statement
          | ToolCommandItem _ \<Rightarrow> None)
          (split db_type s None))"

text \<open>Both guards together, the connection's first; \<open>connection\<close> is the name of a read-only connection.\<close>

definition write_refusal_for_statement ::
    "char_tables \<Rightarrow> script_splitter \<Rightarrow> DatabaseType \<Rightarrow> TransactionMode \<Rightarrow> string option \<Rightarrow> string
       \<Rightarrow> string option \<Rightarrow> string option" where
  "write_refusal_for_statement tables split db_type mode connection s initial_mysql_delimiter =
     or_else
       (Option.bind connection (\<lambda>name. connection_refusal tables split name db_type s initial_mysql_delimiter))
       (transaction_mode_refusal_for_statement tables split db_type mode s)"

section \<open>Explain plan\<close>

record ExecutingExplainWrite =
  explain_spelling :: string
  explain_reason :: string

fun executing_explain_spelling :: "DatabaseType \<Rightarrow> string option" where
  "executing_explain_spelling MariaDB = Some ''ANALYZE''"
| "executing_explain_spelling MySQL = Some ''EXPLAIN ANALYZE''"
| "executing_explain_spelling Oracle = None"

definition mysql_explain_executes_a_write ::
    "char_tables \<Rightarrow> script_splitter \<Rightarrow> DatabaseType \<Rightarrow> string \<Rightarrow> ExecutingExplainWrite option" where
  "mysql_explain_executes_a_write tables split db_type s =
     (case executing_explain_spelling db_type of
        None \<Rightarrow> None
      | Some spelling \<Rightarrow>
          (case mysql_explain_executed_statement db_type s of
             None \<Rightarrow> None
           | Some target \<Rightarrow>
               map_option (\<lambda>reason. \<lparr>explain_spelling = spelling, explain_reason = reason\<rparr>)
                 (read_only_block_reason tables split db_type target None)))"

definition statement_is_table_maintenance :: "DatabaseType \<Rightarrow> string list \<Rightarrow> bool" where
  "statement_is_table_maintenance db_type ws =
     (case ws of
        [] \<Rightarrow> False
      | first # _ \<Rightarrow>
          (case classification_profile_for_db_type db_type of
             MySqlCompatible \<Rightarrow>
               (let allows_modifier = (first \<in> {''ANALYZE'', ''OPTIMIZE'', ''REPAIR''});
                    has_modifier = (\<exists>w \<in> set MYSQL_ANALYZE_TABLE_MODIFIERS. nth_word ws 1 = Some w)
                in (allows_modifier \<or> first \<in> {''CHECK'', ''CHECKSUM''}) \<and>
                   nth_word ws (if allows_modifier \<and> has_modifier then 2 else 1) = Some ''TABLE'')
           | OracleProfile \<Rightarrow>
               first = ''ANALYZE'' \<and> nth_word ws 1 \<in> {Some ''TABLE'', Some ''INDEX'', Some ''CLUSTER''}))"

fun family_spells_show_explain_for :: "DatabaseType \<Rightarrow> bool" where
  "family_spells_show_explain_for MariaDB = True"
| "family_spells_show_explain_for MySQL = False"
| "family_spells_show_explain_for Oracle = False"

definition statement_is_show_spelled_explain :: "DatabaseType \<Rightarrow> string list \<Rightarrow> bool" where
  "statement_is_show_spelled_explain db_type ws \<longleftrightarrow>
     family_spells_show_explain_for db_type \<and> nth_word ws 0 = Some ''SHOW'' \<and>
     nth_word ws 1 \<in> {Some ''EXPLAIN'', Some ''ANALYZE''}"

definition mariadb_show_spelled_explain :: "char_tables \<Rightarrow> DatabaseType \<Rightarrow> string \<Rightarrow> bool" where
  "mariadb_show_spelled_explain tables db_type s =
     statement_is_show_spelled_explain db_type (words_of tables db_type s)"

definition statement_is_client_report_or_lock :: "DatabaseType \<Rightarrow> string list \<Rightarrow> string option" where
  "statement_is_client_report_or_lock db_type ws =
     (case ws of
        [] \<Rightarrow> None
      | first # _ \<Rightarrow>
          (case classification_profile_for_db_type db_type of
             MySqlCompatible \<Rightarrow>
               if first = ''SHOW'' \<and> statement_is_show_spelled_explain db_type ws then None
               else if first = ''SHOW'' then Some ''a SHOW statement''
               else if first = ''HELP'' then Some ''a HELP statement''
               else None
           | OracleProfile \<Rightarrow>
               if first = ''SHOW'' then Some ''a SHOW statement''
               else if first = ''LOCK'' \<and> nth_word ws 1 = Some ''TABLE'' then Some ''a lock statement''
               else None))"

definition statement_without_an_execution_plan_reason ::
    "char_tables \<Rightarrow> DatabaseType \<Rightarrow> string \<Rightarrow> string option" where
  "statement_without_an_execution_plan_reason tables db_type s =
     (let ws = words_of tables db_type s; leading = nth_word ws 0
      in if statement_is_table_maintenance db_type ws then Some ''a table maintenance statement''
         else
           (case statement_is_client_report_or_lock db_type ws of
              Some subject \<Rightarrow> Some subject
            | None \<Rightarrow>
                (case classify_sql_for_db_type tables db_type s of
                   PlsqlOrProcedure \<Rightarrow>
                     Some (if leading \<in> {Some ''BEGIN'', Some ''DECLARE''} then ''a PL/SQL block''
                           else if leading \<in> {Some ''CALL'', Some ''EXEC''} then ''a routine call''
                           else ''a procedural statement'')
                 | TransactionControl \<Rightarrow> Some ''a transaction control statement''
                 | SessionControl \<Rightarrow> Some ''a session control statement''
                 | _ \<Rightarrow> None)))"

section \<open>What a guard promises\<close>

text \<open>
  A guard splits a text into items and refuses the text as soon as one statement is refused on its own; on
  its own, a statement is refused whenever the shared questions refuse it.
\<close>

locale read_only_guard =
  fixes items :: "DatabaseType \<Rightarrow> string \<Rightarrow> ToolCommand ScriptItem list"
    and single :: "DatabaseType \<Rightarrow> string \<Rightarrow> string option"
    and shared :: "DatabaseType \<Rightarrow> string \<Rightarrow> string option"
    and refusal :: "DatabaseType \<Rightarrow> string \<Rightarrow> string option"
  assumes asks_every_statement:
      "refusal db_type s = None \<Longrightarrow> StatementItem statement \<in> set (items db_type s)
        \<Longrightarrow> single db_type statement = None"
    and asks_shared: "single db_type statement = None \<Longrightarrow> shared db_type statement = None"
begin

lemma admitted_not_shared:
  "refusal db_type s = None \<Longrightarrow> StatementItem statement \<in> set (items db_type s)
    \<Longrightarrow> shared db_type statement = None"
  using asks_every_statement asks_shared by blast

lemma refuses_hidden_statement:
  "StatementItem statement \<in> set (items db_type s) \<Longrightarrow> shared db_type statement \<noteq> None
    \<Longrightarrow> refusal db_type s \<noteq> None"
  by (metis admitted_not_shared)

end

definition connection_single ::
    "char_tables \<Rightarrow> script_splitter \<Rightarrow> DatabaseType \<Rightarrow> string \<Rightarrow> string option" where
  "connection_single tables split db_type statement =
     read_only_item_refusal tables split db_type (StatementItem statement)"

interpretation connection_guard: read_only_guard
  "\<lambda>db_type s. split db_type s delimiter" "connection_single tables split"
  "read_only_shared_refusal tables split" "\<lambda>db_type s. read_only_block_reason tables split db_type s delimiter"
  for tables split delimiter
proof
  fix db_type s statement
  assume admitted: "read_only_block_reason tables split db_type s delimiter = None"
    and found: "StatementItem statement \<in> set (split db_type s delimiter)"
  from admitted have "\<forall>item \<in> set (split db_type s delimiter). read_only_item_refusal tables split db_type item = None"
    unfolding read_only_block_reason_def find_map_None list_all_iff .
  with found show "connection_single tables split db_type statement = None"
    unfolding connection_single_def by blast
next
  fix db_type statement
  assume "connection_single tables split db_type statement = None"
  then show "read_only_shared_refusal tables split db_type statement = None"
    by (auto simp: connection_single_def read_only_refusal_reason_def read_only_shared_refusal_def
        split: option.splits)
qed

text \<open>The tab's guard, while the mode is read-only; in any other mode it has nothing to say.\<close>

definition pinned :: "TransactionMode \<Rightarrow> TransactionMode" where
  "pinned mode = mode\<lparr>access_mode := ReadOnly\<rparr>"

interpretation tab_guard: read_only_guard
  "\<lambda>db_type s. split db_type s None"
  "\<lambda>db_type. transaction_mode_refusal_for_single_statement tables split db_type (pinned mode)"
  "read_only_shared_refusal tables split"
  "\<lambda>db_type. transaction_mode_refusal_for_statement tables split db_type (pinned mode)"
  for tables split mode
proof
  fix db_type s statement
  assume "transaction_mode_refusal_for_statement tables split db_type (pinned mode) s = None"
    and "StatementItem statement \<in> set (split db_type s None)"
  then show "transaction_mode_refusal_for_single_statement tables split db_type (pinned mode) statement = None"
    by (fastforce simp: transaction_mode_refusal_for_statement_def find_map_None list_all_iff pinned_def)
next
  fix db_type statement
  assume "transaction_mode_refusal_for_single_statement tables split db_type (pinned mode) statement = None"
  then show "read_only_shared_refusal tables split db_type statement = None"
    by (simp add: transaction_mode_refusal_for_single_statement_def split: option.splits)
qed



section \<open>What a read-only connection runs\<close>

text \<open>The server is reconfigured by the other \<^verbatim>\<open>ALTER\<close> that the classifier takes for one of the session.\<close>

lemma admitted_alter:
  assumes "leading_keyword (analysis_words (new_for_db_type tables db_type statement)) = Some ''ALTER''"
    and "runs_on_read_only tables db_type ''ALTER'' (stripped_sql (new_for_db_type tables db_type statement))"
    and "read_only_shared_refusal tables split db_type statement = None"
  shows "db_type = Oracle \<and> nth_word (analysis_words (new_for_db_type tables db_type statement)) 1 = Some ''SESSION''"
proof -
  let ?words = "analysis_words (new_for_db_type tables db_type statement)"
  have db: "db_type = Oracle" and second: "nth_word ?words 1 \<in> {Some ''SESSION'', Some ''SYSTEM''}"
    using runs_alter_session [OF assms(2)]
    by (auto simp: new_for_db_type_def from_prepared_sql_def mysql_compatible_comments_def Let_def)
  have "nth_word ?words 0 = Some ''ALTER''"
    using assms(1) by (auto simp: leading_keyword_def nth_word_def split: list.split_asm)
  moreover have "\<not> statement_reconfigures_the_server_for_analysis tables db_type (new_for_db_type tables db_type statement)"
    using assms(3) by (auto simp: read_only_shared_refusal_def read_only_shared_refusal_for_analysis_def split: if_split_asm)
  ultimately have "nth_word ?words 1 \<noteq> Some ''SYSTEM''"
    using db by (simp add: statement_reconfigures_the_server_for_analysis_def)
  with second db show ?thesis by blast
qed

text \<open>
  C3. What a read-only connection runs. When the guard admits a text, every statement the splitter finds in it
  is, as the scanners of the classifier read it, a single statement that reads data or only moves the session
  (\<open>runs_on_read_only\<close>): a query, bare or behind a \<open>WITH\<close>, holds no locking clause of its backend at any
  depth; an explain that runs what it explains explains such a statement; any other statement is one of the listed
  reports, transaction statements and settings of the session. So it begins with no word that writes data, changes
  the schema or its privileges or calls a routine, an \<open>ALTER\<close> is Oracle's \<open>ALTER SESSION\<close>, and no PL/SQL block is
  admitted; nor does any of the questions that the two guards share refuse it. What the scanners misread (a quote
  behind a backslash or a hash on Oracle, backticks in a \<open>WITH\<close>) is what the next section shows.
\<close>
theorem read_only_connection_admits:
  assumes "read_only_block_reason tables split db_type s delimiter = None"
    and "StatementItem statement \<in> set (split db_type s delimiter)"
  defines "analysis \<equiv> new_for_db_type tables db_type statement"
  shows "read_only_shared_refusal tables split db_type statement = None \<and>
    \<not> has_multiple_statements analysis \<and>
    (\<exists>first. leading_keyword (analysis_words analysis) = Some first \<and>
       runs_on_read_only tables db_type first (stripped_sql analysis) \<and>
       first \<notin> set writing_words \<and>
       \<not> (db_type = Oracle \<and> first \<in> {''BEGIN'', ''DECLARE''}) \<and>
       (first = ''ALTER'' \<longrightarrow> db_type = Oracle \<and> nth_word (analysis_words analysis) 1 = Some ''SESSION''))"
proof -
  have "connection_single tables split db_type statement = None"
    using connection_guard.asks_every_statement [OF assms(1,2)] .
  then have kind: "classify_for_db_type tables db_type analysis \<in> allowed_kinds"
    by (auto simp: connection_single_def read_only_refusal_reason_def classify_sql_for_db_type_def analysis_def
        split: option.splits SqlKind.splits)
  have shared: "read_only_shared_refusal tables split db_type statement = None"
    using connection_guard.admitted_not_shared [OF assms(1,2)] .
  from admitted_kinds_run(2) [OF kind] obtain first where first: "leading_keyword (analysis_words analysis) = Some first"
    "runs_on_read_only tables db_type first (stripped_sql analysis)" "\<not> (db_type = Oracle \<and> first \<in> {''BEGIN'', ''DECLARE''})"
    and "\<not> has_multiple_statements analysis" by blast
  moreover have "db_type = Oracle \<and> nth_word (analysis_words analysis) 1 = Some ''SESSION''" if "first = ''ALTER''"
    using first(1,2) shared unfolding that analysis_def by (rule admitted_alter)
  ultimately show ?thesis using shared runs_no_writing_word [OF first(2)] by blast
qed

lemma oracle_keeps_no_lock:
  assumes "length (unit_statements (unit_split split) Oracle s) < 2"
  shows "\<not> statement_acquires_a_lock_other_sessions_wait_for tables split Oracle s"
  using assms
  by (simp add: statement_acquires_a_lock_other_sessions_wait_for_def unit_effects_def effects_for_sql_def
      for_unit_single effects_for_single_statement_def oracle_effects_for_single_statement_def
      acquires_a_lock_other_sessions_wait_for_def effect_defs effects_default_def Let_def)

lemma oracle_select_one:
  "new_for_db_type tables Oracle ''SELECT 1'' =
     \<lparr>stripped_sql = ''SELECT 1'', analysis_words = [''SELECT''], has_multiple_statements = False\<rparr>"
  "classify_sql_for_db_type tables Oracle ''SELECT 1'' = SelectLike"
  by code_simp+

lemma oracle_select_one_admitted:
  "read_only_block_reason tables (\<lambda>_ s _. [StatementItem s]) Oracle ''SELECT 1'' None = None"
proof -
  have "\<not> statement_acquires_a_lock_other_sessions_wait_for tables (\<lambda>_ s _. [StatementItem s]) Oracle ''SELECT 1''"
    by (rule oracle_keeps_no_lock) (simp add: unit_statements_def unit_split_def List.map_filter_def)
  then show ?thesis
    by (simp add: read_only_block_reason_def read_only_refusal_reason_def oracle_select_one
        read_only_shared_refusal_for_analysis_def statement_reconfigures_the_server_for_analysis_def
        statement_takes_a_lock_other_sessions_wait_for_def statement_writes_a_file_on_the_server_def
        nth_word_def starts_with_words_def)
qed

theorem read_only_connection_admits_witness:
  "read_only_shared_refusal ascii_tables (\<lambda>_ s _. [StatementItem s]) Oracle ''SELECT 1'' = None \<and>
    \<not> has_multiple_statements (new_for_db_type ascii_tables Oracle ''SELECT 1'') \<and>
    runs_on_read_only ascii_tables Oracle ''SELECT'' ''SELECT 1''"
  using read_only_connection_admits [OF oracle_select_one_admitted [of ascii_tables], of "''SELECT 1''"]
  by (simp add: oracle_select_one leading_keyword_def)

section \<open>Texts that a read-only connection should refuse\<close>

text \<open>
  A script include is refused because its contents are not read, but \<^verbatim>\<open>SOURCE\<close>, the same command on the MySQL
  family, is admitted: the executor turns it into an include and runs the file.
\<close>

lemma mysql_source_is_admitted:
  "read_only_block_reason tables (\<lambda>_ _ _. [ToolCommandItem (MysqlSource path)]) db_type s delimiter = None"
  "read_only_block_reason tables (\<lambda>_ _ _. [ToolCommandItem (RunScript path relative)]) db_type s delimiter \<noteq> None"
  by (simp_all add: read_only_block_reason_def read_only_tool_refusal_def)

text \<open>
  The walk over a \<^verbatim>\<open>WITH\<close> clause knows neither backticks nor the comments that begin with a hash: a name
  \<^verbatim>\<open>select\<close> in backticks, or the word in such a comment, is read as the main query, and the deletion
  behind it as a read.
\<close>

lemma with_clause_hides_a_write:
  "classify_sql_for_db_type tables MySQL
     (''WITH '' @ [CHR 0x60] @ ''select'' @ [CHR 0x60] @ '' AS (SELECT 1) DELETE FROM x'') = SelectLike"
  "classify_sql_for_db_type tables MySQL
     (''WITH t AS (SELECT 1) # select'' @ [CHR 0x0A] @ ''DELETE FROM x'') = SelectLike"
  by code_simp+

text \<open>A backslash escapes no quote on Oracle, yet the scanners read past it there as well.\<close>

lemma oracle_backslash_hides_a_lock:
  "classify_sql_for_db_type tables Oracle
     (''SELECT '' @ [CHR 0x27, CHR 0x5C, CHR 0x27] @ '' FROM t FOR UPDATE'') = SelectLike"
  by code_simp

text \<open>A hash is part of an Oracle name; the scanners take the rest of its line for a comment.\<close>

lemma oracle_hash_hides_a_statement:
  "classify_sql_for_db_type tables Oracle ''SELECT a# FROM t; DELETE FROM t'' = SelectLike"
  by code_simp

text \<open>
  White space around the dot of a scope: the ledger's reader drops it, the classifier's keeps it, and the
  global assignment is not one for the guard.
\<close>

lemma spaced_global_scope_is_missed:
  "\<not> statement_reconfigures_the_server_for_analysis tables MySQL
     (new_for_db_type tables MySQL ''SET @@global . x = 1'')"
  "mysql_set_assignment_target_is_global_or_persist_scope
     (mysql_normalized_set_assignment_target tables ''@@global . x'')"
  by code_simp+

text \<open>A value that is one quote character cannot be sliced between its quotes.\<close>

lemma lone_quote_value_panics: "mysql_normalized_set_assignment_value [CHR 0x20, CHR 0x27] = None"
  by code_simp

end
