(* ===== verification/Thin_Bytes.thy ===== *)
theory Thin_Bytes
  imports Rust_Text "HOL-Library.Word"
begin

unbundle bit_operations_syntax

text \<open>
  Vocabulary of the Oracle thin driver (\<^verbatim>\<open>crates/tns-thin\<close>): bytes, big-endian integers, decimal and
  hexadecimal text, the driver's error value (\<^verbatim>\<open>src/lib.rs\<close>) and the sequencing of fallible reads.
  A Rust integer is the word of its width where the source computes with it and a natural number
  where it only indexes or counts.
\<close>

type_synonym byte = "8 word"

section \<open>Numbers as text\<close>

definition digit_char :: "nat \<Rightarrow> char" where
  "digit_char n = char_of (48 + n)"

fun show_nat :: "nat \<Rightarrow> string" where
  "show_nat n = (if n < 10 then [digit_char n] else show_nat (n div 10) @ [digit_char (n mod 10)])"

declare show_nat.simps [simp del]

text \<open>\<open>pad_left w s\<close> is the zero padding of the format \<^verbatim>\<open>{:0w$}\<close>.\<close>

definition pad_left :: "nat \<Rightarrow> string \<Rightarrow> string" where
  "pad_left w s = replicate (w - length s) CHR ''0'' @ s"

definition show_int :: "int \<Rightarrow> string" where
  "show_int i = (if i < 0 then ''-'' else '''') @ show_nat (nat \<bar>i\<bar>)"

definition hex_char :: "nat \<Rightarrow> char" where
  "hex_char n = (if n < 10 then digit_char n else char_of (87 + n))"

definition show_hex2 :: "byte \<Rightarrow> string" where
  "show_hex2 b = [hex_char (unat b div 16), hex_char (unat b mod 16)]"

fun join_texts :: "string \<Rightarrow> string list \<Rightarrow> string" where
  "join_texts sep [] = ''''"
| "join_texts sep [x] = x"
| "join_texts sep (x # y # ys) = x @ sep @ join_texts sep (y # ys)"

text \<open>The format \<^verbatim>\<open>{:02x?}\<close> of a byte slice.\<close>

definition debug_hex :: "byte list \<Rightarrow> string" where
  "debug_hex bs = ''['' @ join_texts '', '' (map show_hex2 bs) @ '']''"

section \<open>Big-endian integers\<close>

definition be_nat :: "byte list \<Rightarrow> nat" where
  "be_nat bs = foldl (\<lambda>v b. v * 256 + unat b) 0 bs"

primrec be_bytes :: "nat \<Rightarrow> nat \<Rightarrow> byte list" where
  "be_bytes 0 v = []"
| "be_bytes (Suc n) v = be_bytes n (v div 256) @ [word_of_nat v]"

lemma length_be_bytes [simp]: "length (be_bytes n v) = n"
  by (induction n arbitrary: v) simp_all

lemma be_bytes_numeral [simp]:
  "be_bytes (numeral k) v = be_bytes (pred_numeral k) (v div 256) @ [word_of_nat v]"
  unfolding numeral_eq_Suc [of k] by (rule be_bytes.simps)

lemma byte_bound [simp]: "unat (b :: byte) < 256"
  using unsigned_less [of b] by simp

lemma be_nat_Nil [simp]: "be_nat [] = 0"
  and be_nat_snoc [simp]: "be_nat (bs @ [b]) = be_nat bs * 256 + unat b"
  by (simp_all add: be_nat_def)

lemma unat_word_of_nat_byte [simp]: "unat (word_of_nat v :: byte) = v mod 256"
  by (simp add: unat_of_nat)

lemma byte_of_int: "0 \<le> k \<Longrightarrow> k < 256 \<Longrightarrow> uint (word_of_int k :: byte) = k"
  by (simp add: uint_word_of_int)

lemma byte_bit_7: "bit (b :: byte) 7 \<longleftrightarrow> 128 \<le> unat b"
proof -
  have "bit b 7 \<longleftrightarrow> bit (unat b) 7" by (simp add: bit_unsigned_iff)
  also have "\<dots> \<longleftrightarrow> odd (unat b div 128)" by (simp add: bit_iff_odd)
  also have "\<dots> \<longleftrightarrow> 128 \<le> unat b"
  proof -
    have "unat b div 128 < 2" using byte_bound [of b] by (simp add: less_mult_imp_div_less del: byte_bound)
    then have "unat b div 128 = 0 \<or> unat b div 128 = 1" by linarith
    then show ?thesis by (auto simp: div_eq_0_iff)
  qed
  finally show ?thesis .
qed

lemma bit_sign_byte: "bit (128 :: byte) n \<longleftrightarrow> n = 7" "bit (128 :: int) n \<longleftrightarrow> n = 7"
  using bit_exp_iff [of 7 n, where ?'a = byte] bit_exp_iff [of 7 n, where ?'a = int] by auto

lemma sign_bit_iff: "(b :: byte) AND 0x80 = 0 \<longleftrightarrow> unat b < 128"
proof -
  have "b AND 2 ^ 7 = 0 \<longleftrightarrow> \<not> bit b 7" by (rule and_exp_eq_0_iff_not_bit)
  then show ?thesis by (simp add: byte_bit_7 not_le)
qed

lemma low_bits: "unat ((b :: byte) AND 0x7f) = unat b mod 128"
proof -
  have "b AND 0x7f = take_bit 7 b" by (simp add: take_bit_eq_mask mask_eq_exp_minus_1)
  then show ?thesis by (simp add: take_bit_eq_mod unat_mod_distrib)
qed

lemma be_nat_be_bytes: "be_nat (be_bytes n v) = v mod 256 ^ n"
proof (induction n arbitrary: v)
  case 0
  show ?case by simp
next
  case (Suc n)
  have "v mod 256 ^ Suc n = 256 * (v div 256 mod 256 ^ n) + v mod 256"
    by (simp add: mod_mult2_eq)
  with Suc show ?case by (simp add: mult.commute)
qed

lemma be_nat_bound: "be_nat bs < 256 ^ length bs"
proof (induction bs rule: rev_induct)
  case (snoc b bs)
  with byte_bound [of b] show ?case by (simp del: byte_bound)
qed simp

lemma be_bytes_be_nat: "be_bytes (length bs) (be_nat bs) = bs"
proof (induction bs rule: rev_induct)
  case (snoc b bs)
  have "(be_nat bs * 256 + unat b) div 256 = be_nat bs"
    "word_of_nat (be_nat bs * 256 + unat b) = b"
    by (simp_all add: word_unat_eq_iff del: of_nat_add of_nat_mult)
  with snoc show ?case by simp
qed simp

section \<open>Slices\<close>

text \<open>\<^verbatim>\<open>buf[off..off + n].copy_from_slice(bs)\<close>\<close>

definition put_at :: "nat \<Rightarrow> byte list \<Rightarrow> byte list \<Rightarrow> byte list" where
  "put_at off bs buf = take off buf @ bs @ drop (off + length bs) buf"

text \<open>\<^verbatim>\<open>slice::chunks\<close>, for a positive size.\<close>

function chunks :: "nat \<Rightarrow> 'a list \<Rightarrow> 'a list list" where
  "chunks n xs = (if xs = [] \<or> n = 0 then [] else take n xs # chunks n (drop n xs))"
  by pat_completeness auto
termination
  by (relation "measure (\<lambda>(n, xs). length xs)") auto

declare chunks.simps [simp del]

lemma chunks_Nil [simp]: "chunks n [] = []"
  by (simp add: chunks.simps)

lemma concat_chunks: "0 < n \<Longrightarrow> concat (chunks n xs) = xs"
  by (induction n xs rule: chunks.induct) (subst chunks.simps, simp)

lemma chunk_length: "c \<in> set (chunks n xs) \<Longrightarrow> 0 < length c \<and> length c \<le> n"
proof (induction n xs rule: chunks.induct)
  case (1 n xs)
  then show ?case
    by (subst (asm) (2) chunks.simps) (auto split: if_splits)
qed

section \<open>The error value\<close>

record thin_error =
  message :: string
  cursor_id :: "32 word option"
  code :: "32 word option"
  full_code :: "string option"
  err_offset :: "32 word option"
  recoverable :: bool

definition digit_value :: "char \<Rightarrow> nat" where
  "digit_value c = of_char c - 48"

text \<open>\<^verbatim>\<open>str::parse::<u32>\<close> on a text of decimal digits.\<close>

definition nat_of_digits :: "string \<Rightarrow> nat" where
  "nat_of_digits ds = foldl (\<lambda>v c. v * 10 + digit_value c) 0 ds"

definition parse_u32 :: "string \<Rightarrow> 32 word option" where
  "parse_u32 ds =
     (if ds \<noteq> [] \<and> list_all is_ascii_digit ds \<and> nat_of_digits ds < 2 ^ 32
      then Some (word_of_nat (nat_of_digits ds)) else None)"

fun full_code_of_prefixes :: "string list \<Rightarrow> string \<Rightarrow> string option" where
  "full_code_of_prefixes [] msg = None"
| "full_code_of_prefixes (prefix # prefixes) msg =
     (case find_text msg prefix of
        None \<Rightarrow> full_code_of_prefixes prefixes msg
      | Some start \<Rightarrow>
          (let digits = takeWhile is_ascii_digit (drop (start + length prefix) msg)
           in if digits \<noteq> [] then Some (prefix @ digits)
              else full_code_of_prefixes prefixes msg))"

definition error_full_code :: "string \<Rightarrow> string option" where
  "error_full_code msg = full_code_of_prefixes [''ORA-'', ''DPY-'', ''DPI-''] msg"

definition numeric_error_code :: "string option \<Rightarrow> 32 word option" where
  "numeric_error_code full = Option.bind full (\<lambda>text. parse_u32 (drop 4 text))"

definition oracle_error_code :: "string \<Rightarrow> 32 word option" where
  "oracle_error_code msg =
     (case find_text msg ''ORA-'' of
        None \<Rightarrow> None
      | Some start \<Rightarrow> numeric_error_code (error_full_code (drop start msg)))"

definition oracle_code_is_recoverable :: "32 word \<Rightarrow> bool" where
  "oracle_code_is_recoverable c \<longleftrightarrow>
     c \<in> {28, 1012, 1033, 1034, 1089, 1090, 2396, 3113, 3114, 3135} \<or> 12500 \<le> c \<and> c \<le> 12599"

definition message_is_recoverable_oracle_error :: "string \<Rightarrow> bool" where
  "message_is_recoverable_oracle_error msg =
     (case oracle_error_code msg of None \<Rightarrow> False | Some c \<Rightarrow> oracle_code_is_recoverable c)"

definition thin_error_new :: "string \<Rightarrow> thin_error" where
  "thin_error_new msg =
     \<lparr>message = msg, cursor_id = None, code = numeric_error_code (error_full_code msg),
      full_code = error_full_code msg, err_offset = None,
      recoverable = message_is_recoverable_oracle_error msg\<rparr>"

definition with_oracle_details ::
    "string \<Rightarrow> 32 word option \<Rightarrow> 32 word \<Rightarrow> 32 word \<Rightarrow> thin_error" where
  "with_oracle_details msg cursor c off =
     \<lparr>message = msg, cursor_id = cursor, code = Some c,
      full_code = Some (''ORA-'' @ pad_left 5 (show_nat (unat c))), err_offset = Some off,
      recoverable = oracle_code_is_recoverable c\<rparr>"

definition from_io_error :: "string \<Rightarrow> thin_error" where
  "from_io_error msg =
     \<lparr>message = msg, cursor_id = None, code = None, full_code = None, err_offset = None,
      recoverable = True\<rparr>"

section \<open>Sequencing\<close>

text \<open>
  The operator \<^verbatim>\<open>?\<close> of the source: an error ends the whole read. A successful step returns its value
  and the state it left.
\<close>

type_synonym ('s, 'a) res = "thin_error + 'a \<times> 's"

definition fail :: "string \<Rightarrow> ('s, 'a) res" where
  "fail msg = Inl (thin_error_new msg)"

definition and_then :: "('s, 'a) res \<Rightarrow> ('a \<Rightarrow> 's \<Rightarrow> ('t, 'b) res) \<Rightarrow> ('t, 'b) res" where
  "and_then r f = (case r of Inl e \<Rightarrow> Inl e | Inr (x, s) \<Rightarrow> f x s)"

lemma and_then_simps [simp]:
  "and_then (Inl e) f = Inl e" "and_then (Inr (x, s)) f = f x s" "and_then (fail msg) f = fail msg"
  by (simp_all add: and_then_def fail_def)

lemma and_then_Inr_iff:
  "and_then r f = Inr y \<longleftrightarrow> (\<exists>x s. r = Inr (x, s) \<and> f x s = Inr y)"
  by (auto simp: and_then_def split: sum.split)

lemma case_sum_Inr_iff:
  "(case r of Inl e \<Rightarrow> Inl e | Inr x \<Rightarrow> f x) = Inr y \<longleftrightarrow> (\<exists>x. r = Inr x \<and> f x = Inr y)"
  by (cases r) auto

lemma fail_not_Inr [simp]: "fail msg \<noteq> Inr y" "(Inr y :: ('s, 'a) res) \<noteq> fail msg"
  by (simp_all add: fail_def)

lemma and_then_cong [fundef_cong]:
  "r = r' \<Longrightarrow> (\<And>x s. r' = Inr (x, s) \<Longrightarrow> f x s = f' x s) \<Longrightarrow> and_then r f = and_then r' f'"
  by (auto simp: and_then_def split: sum.split)

end
