(* ===== verification/Thin_Net.thy ===== *)
theory Thin_Net
  imports Thin_Bytes
begin

text \<open>
  TNS packets on a TCP stream (\<^verbatim>\<open>crates/tns-thin/src/session.rs\<close>): framing of data packets, markers and
  control packets, and the reset handshake that follows a marker. A stream is what it will still
  deliver, the error a read reports when that is not enough, what has been written, and the error a
  write reports, if any. How the bytes were cut into TCP segments does not matter to the source,
  whose reads fill their buffers, and is not part of the model.
\<close>

section \<open>Streams\<close>

datatype error_kind = TimedOut | WouldBlock | UnexpectedEof | OtherErrorKind

record io_error =
  io_kind :: error_kind
  io_text :: string

record tcp =
  rx :: "byte list"
  rx_error :: io_error
  tx :: "byte list"
  tx_error :: "io_error option"

definition write_all :: "byte list \<Rightarrow> tcp \<Rightarrow> (tcp, unit) res" where
  "write_all bs s =
     (case tx_error s of
        Some e \<Rightarrow> Inl (from_io_error (io_text e))
      | None \<Rightarrow> Inr ((), s\<lparr>tx := tx s @ bs\<rparr>))"

text \<open>The error carries how many bytes the failed read consumed.\<close>

definition read_exact_tracking_progress ::
    "nat \<Rightarrow> tcp \<Rightarrow> (io_error \<times> nat) + byte list \<times> tcp" where
  "read_exact_tracking_progress n s =
     (if n \<le> length (rx s) then Inr (take n (rx s), s\<lparr>rx := drop n (rx s)\<rparr>)
      else Inl (rx_error s, length (rx s)))"

definition is_timeout :: "error_kind \<Rightarrow> bool" where
  "is_timeout k \<longleftrightarrow> k = TimedOut \<or> k = WouldBlock"

section \<open>Reading one packet\<close>

definition TNS_PACKET_TYPE_DATA :: byte where "TNS_PACKET_TYPE_DATA = 6"
definition TNS_PACKET_TYPE_MARKER :: byte where "TNS_PACKET_TYPE_MARKER = 12"
definition TNS_PACKET_TYPE_CONTROL :: byte where "TNS_PACKET_TYPE_CONTROL = 14"
definition TNS_MARKER_TYPE_RESET :: byte where "TNS_MARKER_TYPE_RESET = 2"
definition TNS_MARKER_TYPE_INTERRUPT :: byte where "TNS_MARKER_TYPE_INTERRUPT = 3"
definition TNS_DATA_FLAGS_EOF :: nat where "TNS_DATA_FLAGS_EOF = 0x40"
definition TNS_DATA_FLAGS_END_OF_RESPONSE :: nat where "TNS_DATA_FLAGS_END_OF_RESPONSE = 0x2000"
definition TNS_VERSION_MIN_ACCEPTED :: nat where "TNS_VERSION_MIN_ACCEPTED = 315"

lemmas packet_types = TNS_PACKET_TYPE_DATA_def TNS_PACKET_TYPE_MARKER_def
  TNS_PACKET_TYPE_CONTROL_def TNS_MARKER_TYPE_RESET_def TNS_MARKER_TYPE_INTERRUPT_def

definition TNS_READ_TIMEOUT_AT_BOUNDARY :: string where
  "TNS_READ_TIMEOUT_AT_BOUNDARY = ''Read timeout at a TNS packet boundary''"

definition read_packet_error :: "string \<Rightarrow> io_error \<Rightarrow> thin_error" where
  "read_packet_error context e =
     (if is_timeout (io_kind e)
      then thin_error_new (''Read timeout while reading '' @ context @ '': '' @ io_text e)
      else from_io_error (''failed to read '' @ context @ '': '' @ io_text e))"

definition read_packet_header_error :: "string \<Rightarrow> io_error \<Rightarrow> nat \<Rightarrow> thin_error" where
  "read_packet_header_error context e consumed =
     (if consumed = 0 \<and> is_timeout (io_kind e)
      then thin_error_new (TNS_READ_TIMEOUT_AT_BOUNDARY @ '' while reading '' @ context @ '': ''
             @ io_text e)
      else read_packet_error context e)"

definition read_packet_body_error :: "io_error \<Rightarrow> byte \<Rightarrow> nat \<Rightarrow> byte list \<Rightarrow> thin_error" where
  "read_packet_body_error e packet_type sz header =
     (let detail = ''packet_type='' @ show_nat (unat packet_type) @ '' size='' @ show_nat sz
                     @ '' header='' @ debug_hex header
      in if is_timeout (io_kind e)
         then thin_error_new (''Read timeout while reading TNS packet body: '' @ io_text e @ ''; ''
                @ detail)
         else from_io_error (''failed to read TNS packet body: '' @ io_text e @ ''; '' @ detail))"

definition packet_size :: "nat \<Rightarrow> byte list \<Rightarrow> nat" where
  "packet_size protocol_version header =
     (if 315 \<le> protocol_version then be_nat (take 4 header) else be_nat (take 2 header))"

definition read_tns_packet :: "nat \<Rightarrow> string \<Rightarrow> tcp \<Rightarrow> (tcp, byte \<times> byte list) res" where
  "read_tns_packet protocol_version context s =
     (case read_exact_tracking_progress 8 s of
        Inl (e, consumed) \<Rightarrow> Inl (read_packet_header_error (context @ '' header'') e consumed)
      | Inr (header, s) \<Rightarrow>
          (let sz = packet_size protocol_version header
           in if sz < 8
              then fail (''invalid TNS packet length '' @ show_nat sz @ '' while reading ''
                     @ context)
              else
                (case read_exact_tracking_progress (sz - 8) s of
                   Inl (e, _) \<Rightarrow> Inl (read_packet_body_error e (header ! 4) sz header)
                 | Inr (data, s) \<Rightarrow> Inr ((header ! 4, data), s))))"

text \<open>A control packet answers whether the server acknowledged the out-of-band probe.\<close>

definition process_control_packet :: "byte list \<Rightarrow> thin_error + bool" where
  "process_control_packet data =
     (if length data < 2
      then Inl (thin_error_new (''invalid TNS control packet length ''
             @ show_nat (length data + 8)))
      else
        (let control_type = be_nat (take 2 data)
         in if control_type = 9 then Inr True
            else if control_type = 8 then
              (if length data < 10
               then Inl (thin_error_new (''invalid TNS in-band notification packet length ''
                      @ show_nat (length data + 8)))
               else
                 (let pending_error_num = be_nat (take 4 (drop 6 data))
                  in if pending_error_num \<in> {0, 12572, 12573} then Inr False
                     else if pending_error_num = 2396
                     then Inl (thin_error_new ''Oracle session exceeded the configured idle time'')
                     else Inl (thin_error_new (''unsupported TNS in-band notification error ''
                            @ show_nat pending_error_num))))
            else Inr False))"

section \<open>Writing packets\<close>

definition packet_header :: "nat \<Rightarrow> nat \<Rightarrow> byte list \<Rightarrow> byte list" where
  "packet_header protocol_version sz packet =
     (if 315 \<le> protocol_version then put_at 0 (be_bytes 4 sz) packet
      else put_at 0 (be_bytes 2 sz) packet)"

definition write_single_data_packet :: "nat \<Rightarrow> byte list \<Rightarrow> tcp \<Rightarrow> (tcp, unit) res" where
  "write_single_data_packet protocol_version payload s =
     (let sz = 10 + length payload;
          packet = replicate sz 0
      in if 315 \<le> protocol_version \<and> 2 ^ 32 \<le> sz \<or> protocol_version < 315 \<and> 2 ^ 16 \<le> sz
         then fail (''TNS data packet too large: '' @ show_nat sz @ '' bytes'')
         else
           (let packet = packet_header protocol_version sz packet;
                packet = packet[4 := TNS_PACKET_TYPE_DATA];
                packet = put_at 10 payload packet
            in write_all packet s))"

fun write_chunks :: "nat \<Rightarrow> byte list list \<Rightarrow> tcp \<Rightarrow> (tcp, unit) res" where
  "write_chunks protocol_version [] s = Inr ((), s)"
| "write_chunks protocol_version (chunk # rest) s =
     and_then (write_single_data_packet protocol_version chunk s)
       (\<lambda>_ s. write_chunks protocol_version rest s)"

definition write_data_packet :: "nat \<Rightarrow> nat \<Rightarrow> byte list \<Rightarrow> tcp \<Rightarrow> (tcp, unit) res" where
  "write_data_packet protocol_version chunk_size payload s =
     (if chunk_size < length payload
      then write_chunks protocol_version (chunks (max chunk_size 1) payload) s
      else write_single_data_packet protocol_version payload s)"

definition write_eof_data_packet :: "nat \<Rightarrow> tcp \<Rightarrow> (tcp, unit) res" where
  "write_eof_data_packet protocol_version s =
     (let packet = packet_header protocol_version 10 (replicate 10 0);
          packet = packet[4 := TNS_PACKET_TYPE_DATA];
          packet = put_at 8 (be_bytes 2 TNS_DATA_FLAGS_EOF) packet
      in write_all packet s)"

definition write_marker_packet :: "nat \<Rightarrow> byte \<Rightarrow> tcp \<Rightarrow> (tcp, unit) res" where
  "write_marker_packet protocol_version marker_type s =
     (let packet = packet_header protocol_version 11 (replicate 11 0);
          packet = packet[4 := TNS_PACKET_TYPE_MARKER];
          packet = packet[8 := 1];
          packet = packet[10 := marker_type]
      in write_all packet s)"

section \<open>Every packet read makes progress\<close>

lemma read_exact_Inr:
  "read_exact_tracking_progress n s = Inr (bs, s') \<longleftrightarrow>
     n \<le> length (rx s) \<and> bs = take n (rx s) \<and> s' = s\<lparr>rx := drop n (rx s)\<rparr>"
  by (auto simp: read_exact_tracking_progress_def)

lemma read_tns_packet_progress:
  "read_tns_packet pv context s = Inr (r, s') \<Longrightarrow> length (rx s') < length (rx s)"
  by (auto simp: read_tns_packet_def read_exact_Inr Let_def split: sum.splits if_splits)

lemma read_tns_packet_tx:
  "read_tns_packet pv context s = Inr (r, s') \<Longrightarrow>
     tx s' = tx s \<and> tx_error s' = tx_error s \<and> rx_error s' = rx_error s"
  by (auto simp: read_tns_packet_def read_exact_Inr Let_def split: sum.splits if_splits)

lemma write_all_rx: "write_all bs s = Inr (r, s') \<Longrightarrow> rx s' = rx s"
  by (auto simp: write_all_def split: option.splits)

lemma write_marker_packet_rx: "write_marker_packet pv m s = Inr (r, s') \<Longrightarrow> rx s' = rx s"
  by (auto simp: write_marker_packet_def Let_def dest: write_all_rx)

section \<open>The data packet behind control packets and markers\<close>

text \<open>
  \<open>cancel\<close> is the pair of shared flags of a cancellable call, if the read has one: whether a cancel is
  pending and which break was sent. A data packet after a reset settles the cancel.
\<close>

record cancel_state =
  cancel_flag :: bool
  cancel_signal :: byte

type_synonym data_read = "bool \<times> nat \<times> byte list \<times> cancel_state option"

definition settle_cancel :: "cancel_state option \<Rightarrow> cancel_state option" where
  "settle_cancel cancel =
     map_option (\<lambda>c. if cancel_flag c then c\<lparr>cancel_signal := 0, cancel_flag := False\<rparr> else c) cancel"

definition finish_marker_reset_data_packet ::
    "byte list \<Rightarrow> cancel_state option \<Rightarrow> thin_error + nat \<times> byte list \<times> cancel_state option" where
  "finish_marker_reset_data_packet data cancel =
     (if length data < 2
      then Inl (thin_error_new (''invalid TNS data packet length '' @ show_nat (length data + 8)))
      else Inr (be_nat (take 2 data), drop 2 data, settle_cancel cancel))"

text \<open>
  One packet of the reset exchange: the answer is the data that ends it, or that another packet has
  to be read.
\<close>

definition after_reset_packet ::
    "byte \<times> byte list \<Rightarrow> bool \<Rightarrow> cancel_state option \<Rightarrow> thin_error + bool \<times> data_read option" where
  "after_reset_packet packet oob cancel =
     (let (packet_type, data) = packet
      in if packet_type = TNS_PACKET_TYPE_MARKER then Inr (oob, None)
         else if packet_type = TNS_PACKET_TYPE_CONTROL then
           (case process_control_packet data of
              Inl e \<Rightarrow> Inl e | Inr reset \<Rightarrow> Inr (oob \<or> reset, None))
         else if packet_type = TNS_PACKET_TYPE_DATA then
           (case finish_marker_reset_data_packet data cancel of
              Inl e \<Rightarrow> Inl e | Inr (flags, payload, cancel) \<Rightarrow> Inr (oob, Some (oob, flags, payload, cancel)))
         else Inl (thin_error_new (''unexpected TNS packet type '' @ show_nat (unat packet_type)
                @ '' after marker reset'')))"

definition read_go_ora_packet_after_marker_reset ::
    "nat \<Rightarrow> bool \<Rightarrow> cancel_state option \<Rightarrow> tcp \<Rightarrow> (tcp, bool \<times> data_read option) res" where
  "read_go_ora_packet_after_marker_reset pv oob cancel s =
     and_then (read_tns_packet pv ''TNS post-marker data'' s) (\<lambda>packet s.
       case after_reset_packet packet oob cancel of
         Inl e \<Rightarrow> Inl e | Inr r \<Rightarrow> Inr (r, s))"

lemma read_go_ora_progress:
  "read_go_ora_packet_after_marker_reset pv oob cancel s = Inr (r, s') \<Longrightarrow>
     length (rx s') < length (rx s)"
  by (auto simp: read_go_ora_packet_after_marker_reset_def and_then_Inr_iff case_sum_Inr_iff
      dest: read_tns_packet_progress)

function go_ora_reset_loop ::
    "nat \<Rightarrow> bool \<Rightarrow> cancel_state option \<Rightarrow> tcp \<Rightarrow> (tcp, data_read) res" where
  "go_ora_reset_loop pv oob cancel s =
     and_then (read_tns_packet pv ''TNS post-marker data'' s) (\<lambda>packet s.
       if fst packet = TNS_PACKET_TYPE_MARKER then
         and_then (write_marker_packet pv TNS_MARKER_TYPE_RESET s) (\<lambda>_ s.
           and_then (read_go_ora_packet_after_marker_reset pv oob cancel s) (\<lambda>r s.
             case r of
               (oob, Some answer) \<Rightarrow> Inr (answer, s)
             | (oob, None) \<Rightarrow> go_ora_reset_loop pv oob cancel s))
       else
         (case after_reset_packet packet oob cancel of
            Inl e \<Rightarrow> Inl e
          | Inr (oob, Some answer) \<Rightarrow> Inr (answer, s)
          | Inr (oob, None) \<Rightarrow> go_ora_reset_loop pv oob cancel s))"
  by pat_completeness auto
termination
proof (relation "measure (\<lambda>(pv, oob, cancel, s). length (rx s))", goal_cases)
  case (2 pv oob cancel s packet s1 u s2 r s3 oob')
  then have "length (rx s1) < length (rx s)" "rx s2 = rx s1" "length (rx s3) < length (rx s2)"
    by (blast dest: read_tns_packet_progress write_marker_packet_rx read_go_ora_progress)+
  then show ?case by simp
next
  case (3 pv oob cancel s packet s1 r oob')
  then have "length (rx s1) < length (rx s)" by (blast dest: read_tns_packet_progress)
  then show ?case by simp
qed simp

declare go_ora_reset_loop.simps [simp del]

function wait_for_reset_marker :: "nat \<Rightarrow> bool \<Rightarrow> bool \<Rightarrow> tcp \<Rightarrow> (tcp, bool) res" where
  "wait_for_reset_marker pv saw_reset_marker oob s =
     (if saw_reset_marker then Inr (oob, s)
      else
        and_then (read_tns_packet pv ''TNS reset marker'' s) (\<lambda>packet s.
          let (packet_type, data) = packet
          in if packet_type = TNS_PACKET_TYPE_MARKER
             then wait_for_reset_marker pv (data \<noteq> [] \<and> last data = TNS_MARKER_TYPE_RESET) oob s
             else if packet_type = TNS_PACKET_TYPE_CONTROL then
               (case process_control_packet data of
                  Inl e \<Rightarrow> Inl e | Inr reset \<Rightarrow> wait_for_reset_marker pv False (oob \<or> reset) s)
             else if packet_type = TNS_PACKET_TYPE_DATA then wait_for_reset_marker pv False oob s
             else fail (''unexpected TNS packet type '' @ show_nat (unat packet_type)
                    @ '' during marker reset'')))"
  by pat_completeness auto
termination
  by (relation "measure (\<lambda>(pv, saw, oob, s). length (rx s))")
    (auto dest!: read_tns_packet_progress)

declare wait_for_reset_marker.simps [simp del]

function post_reset_loop ::
    "nat \<Rightarrow> bool \<Rightarrow> cancel_state option \<Rightarrow> tcp \<Rightarrow> (tcp, data_read) res" where
  "post_reset_loop pv oob cancel s =
     and_then (read_tns_packet pv ''TNS post-reset data'' s) (\<lambda>packet s.
       case after_reset_packet packet oob cancel of
         Inl e \<Rightarrow> Inl e
       | Inr (oob, Some answer) \<Rightarrow> Inr (answer, s)
       | Inr (oob, None) \<Rightarrow> post_reset_loop pv oob cancel s)"
  by pat_completeness auto
termination
  by (relation "measure (\<lambda>(pv, oob, cancel, s). length (rx s))")
    (auto dest!: read_tns_packet_progress)

declare post_reset_loop.simps [simp del]

definition read_data_after_marker_reset ::
    "nat \<Rightarrow> byte list \<Rightarrow> cancel_state option \<Rightarrow> tcp \<Rightarrow> (tcp, data_read) res" where
  "read_data_after_marker_reset pv first_marker cancel s =
     and_then (write_marker_packet pv TNS_MARKER_TYPE_RESET s) (\<lambda>_ s.
       if pv < TNS_VERSION_MIN_ACCEPTED then
         and_then (read_go_ora_packet_after_marker_reset pv False cancel s) (\<lambda>r s.
           case r of
             (oob, Some answer) \<Rightarrow> Inr (answer, s)
           | (oob, None) \<Rightarrow> go_ora_reset_loop pv oob cancel s)
       else
         and_then
           (wait_for_reset_marker pv
              (first_marker \<noteq> [] \<and> last first_marker = TNS_MARKER_TYPE_RESET) False s)
           (\<lambda>oob s. post_reset_loop pv oob cancel s))"

function read_data_packet_for_cancel ::
    "nat \<Rightarrow> bool \<Rightarrow> cancel_state option \<Rightarrow> tcp \<Rightarrow> (tcp, data_read) res" where
  "read_data_packet_for_cancel pv oob cancel s =
     and_then (read_tns_packet pv ''TNS data'' s) (\<lambda>packet s.
       let (packet_type, data) = packet
       in if packet_type = TNS_PACKET_TYPE_DATA then
            (if length data < 2
             then fail (''invalid TNS data packet length '' @ show_nat (length data + 8))
             else Inr ((oob, be_nat (take 2 data), drop 2 data, cancel), s))
          else if packet_type = TNS_PACKET_TYPE_MARKER then
            and_then (read_data_after_marker_reset pv data cancel s) (\<lambda>r s.
              case r of (marker_oob, flags, payload, cancel) \<Rightarrow>
                Inr ((oob \<or> marker_oob, flags, payload, cancel), s))
          else if packet_type = TNS_PACKET_TYPE_CONTROL then
            (case process_control_packet data of
               Inl e \<Rightarrow> Inl e | Inr reset \<Rightarrow> read_data_packet_for_cancel pv (oob \<or> reset) cancel s)
          else fail (''expected TNS data packet, got packet type '' @ show_nat (unat packet_type)))"
  by pat_completeness auto
termination
  by (relation "measure (\<lambda>(pv, oob, cancel, s). length (rx s))")
    (auto dest!: read_tns_packet_progress)

declare read_data_packet_for_cancel.simps [simp del]

definition read_data_packet_with_flags :: "nat \<Rightarrow> tcp \<Rightarrow> (tcp, nat \<times> byte list) res" where
  "read_data_packet_with_flags pv s =
     and_then (read_data_packet_for_cancel pv False None s) (\<lambda>r s.
       case r of (_, flags, payload, _) \<Rightarrow> Inr ((flags, payload), s))"

end
