(* ===== verification/Thin_Wire.thy ===== *)
theory Thin_Wire
  imports Thin_Net
begin

text \<open>
  Reading and writing TTC fields (\<^verbatim>\<open>PacketCursor\<close> and the \<^verbatim>\<open>write_*\<close> functions of
  \<^verbatim>\<open>crates/tns-thin/src/session.rs\<close>). A cursor reads from a slice, or from a stream whose next data
  packet it fetches when a field goes on past the packet it has; in between it drops the bytes it has
  read. The specification of a read is a parser of a flat list of bytes: \<open>unread\<close> is what a cursor
  has still to deliver over all its packets, and the locale \<open>cursor_reader\<close> says that a read answers
  what its parser answers on those bytes.
\<close>

section \<open>Writing\<close>

definition write_ub8 :: "byte list \<Rightarrow> 64 word \<Rightarrow> byte list" where
  "write_ub8 out v =
     (if v = 0 then out @ [0]
      else if v \<le> 0xFF then out @ [1] @ [ucast v]
      else if v \<le> 0xFFFF then out @ [2] @ be_bytes 2 (unat v)
      else if v \<le> 0xFFFFFFFF then out @ [4] @ be_bytes 4 (unat v)
      else out @ [8] @ be_bytes 8 (unat v))"

definition write_ub4 :: "byte list \<Rightarrow> 32 word \<Rightarrow> byte list" where
  "write_ub4 out v = write_ub8 out (ucast v)"

definition write_ub2 :: "byte list \<Rightarrow> 16 word \<Rightarrow> byte list" where
  "write_ub2 out v = write_ub8 out (ucast v)"

definition TNS_BIG_CLR_CHUNK_SIZE :: nat where "TNS_BIG_CLR_CHUNK_SIZE = 32767"
definition TNS_LEGACY_CLR_CHUNK_SIZE :: nat where "TNS_LEGACY_CLR_CHUNK_SIZE = 0x40"
definition TNS_LEGACY_NULL_LENGTH_INDICATOR :: byte where "TNS_LEGACY_NULL_LENGTH_INDICATOR = 0xfd"

definition write_bytes_with_length_with_big_chunks ::
    "byte list \<Rightarrow> byte list \<Rightarrow> bool \<Rightarrow> thin_error + byte list" where
  "write_bytes_with_length_with_big_chunks out v big =
     (if length v \<le> 252 then Inr (out @ [word_of_nat (length v)] @ v)
      else
        (let out = out @ [0xfe]
         in if big then
              Inr (write_ub4
                (foldl (\<lambda>out chunk. write_ub4 out (word_of_nat (length chunk)) @ chunk) out
                   (chunks TNS_BIG_CLR_CHUNK_SIZE v)) 0)
            else
              Inr (foldl (\<lambda>out chunk. out @ [word_of_nat (length chunk)] @ chunk) out
                     (chunks TNS_LEGACY_CLR_CHUNK_SIZE v) @ [0])))"

definition write_len_bytes :: "byte list \<Rightarrow> byte list \<Rightarrow> thin_error + byte list" where
  "write_len_bytes out v =
     (if 252 < length v
      then Inl (thin_error_new (''short TTC byte field too large: '' @ show_nat (length v)
             @ '' bytes''))
      else Inr (out @ [word_of_nat (length v)] @ v))"

section \<open>The cursor\<close>

record streaming_source =
  buf :: "byte list"
  stream :: tcp
  protocol_version :: nat
  end_flags_seen :: bool

datatype packet_source = Slice "byte list" | Stream streaming_source

record cursor =
  source :: packet_source
  pos :: nat
  big_clr_chunks :: bool
  legacy_null_clr :: bool

definition cursor_data :: "cursor \<Rightarrow> byte list" where
  "cursor_data c = (case source c of Slice data \<Rightarrow> data | Stream src \<Rightarrow> buf src)"

definition remaining :: "cursor \<Rightarrow> nat" where
  "remaining c = length (cursor_data c) - pos c"

definition PACKET_CURSOR_COMPACT_THRESHOLD :: nat where
  "PACKET_CURSOR_COMPACT_THRESHOLD = 16 * 1024"

definition ends_response :: "nat \<Rightarrow> bool" where
  "ends_response data_flags \<longleftrightarrow>
     data_flags AND (TNS_DATA_FLAGS_END_OF_RESPONSE OR TNS_DATA_FLAGS_EOF) \<noteq> 0"

definition streaming ::
    "byte list \<Rightarrow> nat \<Rightarrow> tcp \<Rightarrow> nat option \<Rightarrow> bool \<Rightarrow> cursor" where
  "streaming packet data_flags s caps_version caps_big_clr =
     \<lparr>source = Stream \<lparr>buf = packet, stream = s,
        protocol_version = (case caps_version of None \<Rightarrow> 319 | Some v \<Rightarrow> v),
        end_flags_seen = ends_response data_flags\<rparr>,
      pos = 0, big_clr_chunks = caps_big_clr,
      legacy_null_clr = (case caps_version of None \<Rightarrow> False | Some v \<Rightarrow> v < TNS_VERSION_MIN_ACCEPTED)\<rparr>"

definition with_capabilities :: "byte list \<Rightarrow> nat option \<Rightarrow> bool \<Rightarrow> cursor" where
  "with_capabilities data caps_version caps_big_clr =
     \<lparr>source = Slice data, pos = 0, big_clr_chunks = caps_big_clr,
      legacy_null_clr = (case caps_version of None \<Rightarrow> False | Some v \<Rightarrow> v < TNS_VERSION_MIN_ACCEPTED)\<rparr>"

definition fetch_next_packet :: "string \<Rightarrow> cursor \<Rightarrow> (cursor, unit) res" where
  "fetch_next_packet short_context c =
     (case source c of
        Slice _ \<Rightarrow> fail short_context
      | Stream src \<Rightarrow>
          (if end_flags_seen src then fail ''incomplete TTC message at end of response''
           else
             (let (b, p) =
                (if 0 < pos c \<and> length (buf src) - pos c \<le> PACKET_CURSOR_COMPACT_THRESHOLD
                 then (drop (pos c) (buf src), 0) else (buf src, pos c))
              in and_then (read_data_packet_with_flags (protocol_version src) (stream src))
                   (\<lambda>r s. case r of (data_flags, packet) \<Rightarrow>
                      Inr ((), c\<lparr>source := Stream (src\<lparr>buf := b @ packet, stream := s,
                                   end_flags_seen := ends_response data_flags\<rparr>),
                                 pos := p\<rparr>)))))"

section \<open>Progress\<close>

lemma after_reset_packet_payload:
  "after_reset_packet (t, d) oob cancel = Inr (oob', Some (ob, f, p, cn)) \<Longrightarrow> length p < Suc (length d)"
  by (auto simp: after_reset_packet_def finish_marker_reset_data_packet_def
      split: if_splits sum.splits)

lemma read_tns_packet_data:
  assumes "read_tns_packet pv context s = Inr ((t, d), s')"
  shows "length d + length (rx s') < length (rx s)"
proof -
  let ?n = "packet_size pv (take 8 (rx s)) - 8"
  have "8 \<le> length (rx s)" "?n \<le> length (drop 8 (rx s))" "d = take ?n (drop 8 (rx s))"
    "rx s' = drop ?n (drop 8 (rx s))"
    using assms by (auto simp: read_tns_packet_def read_exact_Inr Let_def split: sum.splits if_splits)
  then show ?thesis by simp
qed

lemma read_go_ora_payload:
  "read_go_ora_packet_after_marker_reset pv oob cancel s = Inr ((oob', Some (ob, f, p, cn)), s') \<Longrightarrow>
     length p + length (rx s') < length (rx s)"
  by (auto simp: read_go_ora_packet_after_marker_reset_def and_then_Inr_iff case_sum_Inr_iff
      dest!: read_tns_packet_data after_reset_packet_payload)

lemma go_ora_reset_loop_payload:
  "go_ora_reset_loop pv oob cancel s = Inr ((ob, f, p, cn), s') \<Longrightarrow>
     length p + length (rx s') < length (rx s)"
proof (induction pv oob cancel s rule: go_ora_reset_loop.induct)
  case (1 pv oob cancel s)
  show ?case
    using 1(3) 1(1,2)
    by (subst (asm) go_ora_reset_loop.simps)
      (fastforce simp: and_then_Inr_iff split: if_splits sum.split_asm option.split_asm prod.split_asm
        dest: read_tns_packet_data read_tns_packet_progress write_marker_packet_rx
          read_go_ora_payload read_go_ora_progress after_reset_packet_payload)
qed

lemma post_reset_loop_payload:
  "post_reset_loop pv oob cancel s = Inr ((ob, f, p, cn), s') \<Longrightarrow>
     length p + length (rx s') < length (rx s)"
proof (induction pv oob cancel s rule: post_reset_loop.induct)
  case (1 pv oob cancel s)
  from 1(2) obtain t d s1 where r: "read_tns_packet pv ''TNS post-reset data'' s = Inr ((t, d), s1)"
    and k: "(case after_reset_packet (t, d) oob cancel of Inl e \<Rightarrow> Inl e
       | Inr (oob, Some answer) \<Rightarrow> Inr (answer, s1)
       | Inr (oob, None) \<Rightarrow> post_reset_loop pv oob cancel s1) = Inr ((ob, f, p, cn), s')"
    by (subst (asm) post_reset_loop.simps) (auto simp: and_then_Inr_iff)
  then obtain oob' y where y: "after_reset_packet (t, d) oob cancel = Inr (oob', y)"
    by (cases "after_reset_packet (t, d) oob cancel") auto
  note dec = read_tns_packet_data [OF r]
  show ?case
  proof (cases y)
    case None
    with 1(1) [OF r y refl None] k y dec show ?thesis by simp
  next
    case (Some answer)
    with k y after_reset_packet_payload [of t d oob cancel oob' ob f p cn] dec show ?thesis by simp
  qed
qed

lemma wait_for_reset_marker_progress:
  "wait_for_reset_marker pv saw oob s = Inr (r, s') \<Longrightarrow> length (rx s') \<le> length (rx s)"
proof (induction pv saw oob s rule: wait_for_reset_marker.induct)
  case (1 pv saw oob s)
  show ?case
    using 1(4) 1(1-3)
    by (subst (asm) wait_for_reset_marker.simps)
      (fastforce simp: and_then_Inr_iff Let_def split: if_splits sum.split_asm prod.split_asm
        dest: read_tns_packet_progress)
qed

lemma read_data_after_marker_reset_payload:
  assumes "read_data_after_marker_reset pv m cancel s = Inr ((ob, f, p, cn), s')"
  shows "length p + length (rx s') < length (rx s)"
proof -
  obtain s1 where s1: "write_marker_packet pv TNS_MARKER_TYPE_RESET s = Inr ((), s1)" "rx s1 = rx s"
    using assms by (auto simp: read_data_after_marker_reset_def and_then_Inr_iff
        dest: write_marker_packet_rx)
  show ?thesis
  proof (cases "pv < TNS_VERSION_MIN_ACCEPTED")
    case True
    with assms s1 obtain r s2 where
      r: "read_go_ora_packet_after_marker_reset pv False cancel s1 = Inr (r, s2)" and
      k: "(case r of (oob, Some answer) \<Rightarrow> Inr (answer, s2)
           | (oob, None) \<Rightarrow> go_ora_reset_loop pv oob cancel s2) = Inr ((ob, f, p, cn), s')"
      by (auto simp: read_data_after_marker_reset_def and_then_Inr_iff)
    show ?thesis
      using r k s1 go_ora_reset_loop_payload [of pv "fst r" cancel s2 ob f p cn s']
        read_go_ora_progress [OF r]
      by (cases r; cases "snd r") (auto dest: read_go_ora_payload)
  next
    case False
    define saw where "saw = (m \<noteq> [] \<and> last m = TNS_MARKER_TYPE_RESET)"
    from False assms s1 obtain oob s2 where
      w: "wait_for_reset_marker pv saw False s1 = Inr (oob, s2)" and
      l: "post_reset_loop pv oob cancel s2 = Inr ((ob, f, p, cn), s')"
      by (auto simp: read_data_after_marker_reset_def and_then_Inr_iff saw_def)
    show ?thesis
      using wait_for_reset_marker_progress [OF w] post_reset_loop_payload [OF l] s1(2) by simp
  qed
qed

lemma read_data_packet_for_cancel_payload:
  "read_data_packet_for_cancel pv oob cancel s = Inr ((ob, f, p, cn), s') \<Longrightarrow>
     length p + length (rx s') < length (rx s)"
proof (induction pv oob cancel s rule: read_data_packet_for_cancel.induct)
  case (1 pv oob cancel s)
  obtain t d s1 where r: "read_tns_packet pv ''TNS data'' s = Inr ((t, d), s1)"
  proof (cases "read_tns_packet pv ''TNS data'' s")
    case (Inl e)
    with 1(2) show thesis by (simp add: read_data_packet_for_cancel.simps [of pv oob cancel s])
  next
    case (Inr q)
    with that show thesis by (metis surj_pair)
  qed
  note step = 1(2) [unfolded read_data_packet_for_cancel.simps [of pv oob cancel s] r and_then_simps
      Let_def prod.case]
  note dec = read_tns_packet_data [OF r]
  consider "t = TNS_PACKET_TYPE_DATA" | "t \<noteq> TNS_PACKET_TYPE_DATA" "t = TNS_PACKET_TYPE_MARKER"
    | "t \<noteq> TNS_PACKET_TYPE_DATA" "t \<noteq> TNS_PACKET_TYPE_MARKER" "t = TNS_PACKET_TYPE_CONTROL"
    using step by (auto split: if_splits)
  then show ?case
  proof cases
    case 1
    with step dec show ?thesis by (auto split: if_splits)
  next
    case 2
    with step dec show ?thesis
      by (auto simp: and_then_Inr_iff dest!: read_data_after_marker_reset_payload)
  next
    case 3
    with step obtain reset where c: "process_control_packet d = Inr reset"
      by (auto split: sum.split_asm)
    with 3 step have "read_data_packet_for_cancel pv (oob \<or> reset) cancel s1 = Inr ((ob, f, p, cn), s')"
      by simp
    with "1.IH" [OF r refl refl 3 c] dec show ?thesis by simp
  qed
qed

lemma read_data_packet_with_flags_payload:
  "read_data_packet_with_flags pv s = Inr ((f, p), s') \<Longrightarrow> length p + length (rx s') < length (rx s)"
  by (auto simp: read_data_packet_with_flags_def and_then_Inr_iff
      dest: read_data_packet_for_cancel_payload)

text \<open>What a cursor can still consume, counted without looking into the packets.\<close>

definition budget :: "cursor \<Rightarrow> nat" where
  "budget c = remaining c + (case source c of Slice _ \<Rightarrow> 0 | Stream src \<Rightarrow> length (rx (stream src)))"

definition backlog :: "cursor \<Rightarrow> nat" where
  "backlog c = (case source c of Slice _ \<Rightarrow> 0 | Stream src \<Rightarrow> length (rx (stream src)))"

lemma fetch_next_packet_cases:
  assumes "fetch_next_packet ctx c = Inr (u, c')"
  obtains src f p s where "source c = Stream src" "\<not> end_flags_seen src"
    "read_data_packet_with_flags (protocol_version src) (stream src) = Inr ((f, p), s)"
    "c' = c\<lparr>source := Stream (src\<lparr>buf := drop (pos c) (buf src) @ p, stream := s,
           end_flags_seen := ends_response f\<rparr>), pos := 0\<rparr>
     \<or> c' = c\<lparr>source := Stream (src\<lparr>buf := buf src @ p, stream := s,
           end_flags_seen := ends_response f\<rparr>)\<rparr>"
  using assms
  by (auto simp: fetch_next_packet_def and_then_Inr_iff split: packet_source.splits if_splits)

lemma fetch_next_packet_budget:
  "fetch_next_packet ctx c = Inr (u, c') \<Longrightarrow> budget c' \<le> budget c \<and> backlog c' < backlog c"
  by (elim fetch_next_packet_cases disjE)
    (auto simp: budget_def backlog_def remaining_def cursor_data_def
      dest!: read_data_packet_with_flags_payload)

section \<open>Reading\<close>

function ensure_available :: "nat \<Rightarrow> string \<Rightarrow> cursor \<Rightarrow> (cursor, unit) res" where
  "ensure_available len short_context c =
     (if len \<le> remaining c then Inr ((), c)
      else and_then (fetch_next_packet short_context c)
             (\<lambda>_ c. ensure_available len short_context c))"
  by pat_completeness auto
termination
  by (relation "measure (\<lambda>(len, ctx, c). backlog c)") (auto dest!: fetch_next_packet_budget)

declare ensure_available.simps [simp del]

definition read_u8 :: "cursor \<Rightarrow> (cursor, byte) res" where
  "read_u8 c =
     and_then (ensure_available 1 ''short TTC packet while reading u8'' c)
       (\<lambda>_ c. Inr (cursor_data c ! pos c, c\<lparr>pos := pos c + 1\<rparr>))"

definition read_raw :: "nat \<Rightarrow> cursor \<Rightarrow> (cursor, byte list) res" where
  "read_raw len c =
     and_then (ensure_available len ''short TTC packet while reading bytes'' c)
       (\<lambda>_ c. Inr (take len (drop (pos c) (cursor_data c)), c\<lparr>pos := pos c + len\<rparr>))"

definition skip :: "nat \<Rightarrow> cursor \<Rightarrow> (cursor, unit) res" where
  "skip len c = and_then (read_raw len c) (\<lambda>_ c. Inr ((), c))"

definition peek_u8 :: "cursor \<Rightarrow> (cursor, byte option) res" where
  "peek_u8 c =
     (let look = (\<lambda>c. if pos c < length (cursor_data c) then Some (cursor_data c ! pos c) else None)
      in if remaining c = 0 then
           (case source c of
              Slice _ \<Rightarrow> Inr (None, c)
            | Stream src \<Rightarrow>
                (if end_flags_seen src then Inr (None, c)
                 else and_then (fetch_next_packet ''short TTC packet while reading u8'' c)
                        (\<lambda>_ c. Inr (look c, c))))
         else Inr (look c, c))"

definition shift_in :: "'a::len word \<Rightarrow> byte \<Rightarrow> 'a word" where
  "shift_in v b = push_bit 8 v OR ucast b"

definition read_universal_uint :: "nat \<Rightarrow> cursor \<Rightarrow> (cursor, 64 word) res" where
  "read_universal_uint max_len c =
     (let start = pos c
      in and_then (read_u8 c) (\<lambda>len_byte c.
           let len = unat len_byte
           in if len = 0 then Inr (0, c)
              else if max_len < len \<or> 8 < len then
                (let context_start = pos c - 1;
                     context_end = min (length (cursor_data c)) (context_start + 16)
                 in fail (''invalid TTC universal integer length '' @ show_nat len @ '' at offset ''
                      @ show_nat start @ ''; context=''
                      @ debug_hex (drop context_start (take context_end (cursor_data c)))))
              else and_then (read_raw len c) (\<lambda>bytes c. Inr (foldl shift_in 0 bytes, c))))"

definition read_ub2 :: "cursor \<Rightarrow> (cursor, 16 word) res" where
  "read_ub2 c =
     and_then (read_universal_uint 2 c) (\<lambda>v c.
       if v < 2 ^ 16 then Inr (ucast v, c)
       else fail (''TTC ub2 out of range: '' @ show_nat (unat v)))"

definition read_ub4 :: "cursor \<Rightarrow> (cursor, 32 word) res" where
  "read_ub4 c =
     and_then (read_universal_uint 4 c) (\<lambda>v c.
       if v < 2 ^ 32 then Inr (ucast v, c)
       else fail (''TTC ub4 out of range: '' @ show_nat (unat v)))"

definition read_ub8 :: "cursor \<Rightarrow> (cursor, 64 word) res" where
  "read_ub8 c = read_universal_uint 8 c"

text \<open>
  The signed reads share one shape: a length byte whose top bit is the sign, then the magnitude. The
  source negates a machine integer, which wraps in a release build.
\<close>

definition read_signed :: "nat \<Rightarrow> string \<Rightarrow> cursor \<Rightarrow> (cursor, 'a::len word) res" where
  "read_signed width name c =
     and_then (read_u8 c) (\<lambda>len_byte c.
       let is_negative = (len_byte AND 0x80 \<noteq> 0);
           len = unat (len_byte AND 0x7f)
       in if len = 0 then Inr (0, c)
          else if width < len
          then fail (''invalid TTC signed '' @ name @ '' length '' @ show_nat len)
          else and_then (read_raw len c) (\<lambda>bytes c.
                 let v = foldl shift_in 0 bytes in Inr (if is_negative then - v else v, c)))"

definition read_sb2 :: "cursor \<Rightarrow> (cursor, 16 word) res" where
  "read_sb2 c = read_signed 2 ''ub2'' c"

definition read_sb4 :: "cursor \<Rightarrow> (cursor, 32 word) res" where
  "read_sb4 c = read_signed 4 ''ub4'' c"

definition read_sb8 :: "cursor \<Rightarrow> (cursor, 64 word) res" where
  "read_sb8 c = read_signed 8 ''ub8'' c"

lemma ensure_available_budget:
  "ensure_available len ctx c = Inr (u, c') \<Longrightarrow> budget c' \<le> budget c \<and> len \<le> remaining c'"
proof (induction len ctx c rule: ensure_available.induct)
  case (1 len ctx c)
  show ?case
  proof (cases "len \<le> remaining c")
    case True
    with 1(2) show ?thesis by (simp add: ensure_available.simps)
  next
    case False
    with 1(2) obtain v c1 where c1: "fetch_next_packet ctx c = Inr (v, c1)"
      "ensure_available len ctx c1 = Inr (u, c')"
      by (auto simp: ensure_available.simps [of len ctx c] and_then_Inr_iff)
    with 1(1) [OF False c1] fetch_next_packet_budget [OF c1(1)] show ?thesis by simp
  qed
qed

lemma budget_advance: "n \<le> remaining c \<Longrightarrow> budget (c\<lparr>pos := pos c + n\<rparr>) = budget c - n"
  by (simp add: budget_def remaining_def cursor_data_def)

lemma budget_remaining: "remaining c \<le> budget c"
  by (simp add: budget_def)

lemma advance_budget:
  assumes "ensure_available n ctx c = Inr (u, c1)"
  shows "budget (c1\<lparr>pos := pos c1 + n\<rparr>) + n \<le> budget c"
  using ensure_available_budget [OF assms] budget_advance [of n c1] budget_remaining [of c1]
  by linarith

lemma read_raw_budget: "read_raw n c = Inr (bs, c') \<Longrightarrow> budget c' + n \<le> budget c"
  using advance_budget by (auto simp: read_raw_def and_then_Inr_iff)

lemma read_u8_budget: "read_u8 c = Inr (b, c') \<Longrightarrow> budget c' + 1 \<le> budget c"
  using advance_budget [of 1] by (auto simp: read_u8_def and_then_Inr_iff)

section \<open>Byte fields\<close>

definition read_chunk_len :: "cursor \<Rightarrow> (cursor, nat) res" where
  "read_chunk_len c =
     (if big_clr_chunks c then and_then (read_ub4 c) (\<lambda>n c. Inr (unat n, c))
      else and_then (read_u8 c) (\<lambda>n c. Inr (unat n, c)))"

lemma read_universal_uint_budget:
  "read_universal_uint m c = Inr (v, c') \<Longrightarrow> budget c' < budget c"
  by (auto simp: read_universal_uint_def and_then_Inr_iff Let_def split: if_splits
      dest!: read_u8_budget read_raw_budget)

lemma read_chunk_len_budget: "read_chunk_len c = Inr (n, c') \<Longrightarrow> budget c' < budget c"
  by (auto simp: read_chunk_len_def read_ub4_def and_then_Inr_iff split: if_splits
      dest!: read_u8_budget read_universal_uint_budget)

function read_chunk_loop :: "byte list \<Rightarrow> cursor \<Rightarrow> (cursor, byte list) res" where
  "read_chunk_loop out c =
     and_then (read_chunk_len c) (\<lambda>chunk_len c.
       if chunk_len = 0 then Inr (out, c)
       else and_then (read_raw chunk_len c) (\<lambda>bytes c. read_chunk_loop (out @ bytes) c))"
  by pat_completeness auto
termination
  by (relation "measure (\<lambda>(out, c). budget c)")
    (auto dest!: read_chunk_len_budget read_raw_budget)

declare read_chunk_loop.simps [simp del]

definition read_bytes :: "cursor \<Rightarrow> (cursor, byte list option) res" where
  "read_bytes c =
     and_then (read_u8 c) (\<lambda>len c.
       if len = 0 \<or> len = 0xff then Inr (None, c)
       else if len = TNS_LEGACY_NULL_LENGTH_INDICATOR \<and> legacy_null_clr c then Inr (None, c)
       else if len = 0xfe then and_then (read_chunk_loop [] c) (\<lambda>out c. Inr (Some out, c))
       else and_then (read_raw (unat len) c) (\<lambda>out c. Inr (Some out, c)))"

definition read_bytes_with_ub4_length :: "cursor \<Rightarrow> (cursor, byte list option) res" where
  "read_bytes_with_ub4_length c =
     and_then (read_ub4 c) (\<lambda>expected c.
       if expected = 0 then Inr (None, c)
       else and_then (read_bytes c) (\<lambda>r c.
         case r of
           None \<Rightarrow> Inr (None, c)
         | Some bytes \<Rightarrow>
             (if length bytes < unat expected then fail ''short TTC bytes-with-length field''
              else Inr (Some (take (unat expected) bytes), c))))"

section \<open>What a cursor has still to deliver\<close>

function stream_rest :: "nat \<Rightarrow> tcp \<Rightarrow> byte list" where
  "stream_rest pv s =
     (case read_data_packet_with_flags pv s of
        Inl e \<Rightarrow> []
      | Inr ((flags, packet), s') \<Rightarrow>
          packet @ (if ends_response flags then [] else stream_rest pv s'))"
  by pat_completeness auto
termination
  by (relation "measure (\<lambda>(pv, s). length (rx s))")
    (auto dest!: read_data_packet_with_flags_payload)

declare stream_rest.simps [simp del]

definition unread :: "cursor \<Rightarrow> byte list" where
  "unread c =
     drop (pos c) (cursor_data c) @
     (case source c of
        Slice _ \<Rightarrow> []
      | Stream src \<Rightarrow>
          (if end_flags_seen src then [] else stream_rest (protocol_version src) (stream src)))"

definition wf_cursor :: "cursor \<Rightarrow> bool" where
  "wf_cursor c \<longleftrightarrow> pos c \<le> length (cursor_data c)"

text \<open>A read leaves the wire format of the session alone.\<close>

definition same_format :: "cursor \<Rightarrow> cursor \<Rightarrow> bool" where
  "same_format c c' \<longleftrightarrow>
     big_clr_chunks c' = big_clr_chunks c \<and> legacy_null_clr c' = legacy_null_clr c"

lemma fetch_next_packet_unread:
  assumes "fetch_next_packet ctx c = Inr (u, c')" "wf_cursor c"
  shows "unread c' = unread c \<and> wf_cursor c' \<and> same_format c c'"
  using assms(1)
proof (cases rule: fetch_next_packet_cases)
  case (1 src f p s)
  then have "stream_rest (protocol_version src) (stream src) =
      p @ (if ends_response f then [] else stream_rest (protocol_version src) s)"
    by (subst stream_rest.simps) simp
  with 1 assms(2) show ?thesis
    by (auto simp: unread_def cursor_data_def wf_cursor_def same_format_def)
qed

lemma fetch_next_packet_fails:
  assumes "fetch_next_packet ctx c = Inl e"
  shows "unread c = drop (pos c) (cursor_data c)"
proof (cases "source c")
  case (Slice data)
  then show ?thesis by (simp add: unread_def)
next
  case (Stream src)
  with assms have "end_flags_seen src \<or>
      (\<exists>e. read_data_packet_with_flags (protocol_version src) (stream src) = Inl e)"
    by (cases "read_data_packet_with_flags (protocol_version src) (stream src)")
      (auto simp: fetch_next_packet_def Let_def split: if_splits prod.splits)
  with Stream show ?thesis
    by (auto simp: unread_def stream_rest.simps [of "protocol_version src"])
qed

lemma ensure_available_unread:
  "wf_cursor c \<Longrightarrow>
   (case ensure_available n ctx c of
      Inl e \<Rightarrow> length (unread c) < n
    | Inr (u, c') \<Rightarrow> unread c' = unread c \<and> wf_cursor c' \<and> same_format c c' \<and> n \<le> remaining c')"
proof (induction n ctx c rule: ensure_available.induct)
  case (1 n ctx c)
  show ?case
  proof (cases "n \<le> remaining c")
    case True
    with 1(2) show ?thesis by (simp add: ensure_available.simps same_format_def)
  next
    case short: False
    show ?thesis
    proof (cases "fetch_next_packet ctx c")
      case (Inl e)
      with short fetch_next_packet_fails [OF Inl] show ?thesis
        by (simp add: ensure_available.simps [of n ctx c] remaining_def)
    next
      case (Inr q)
      then obtain u c1 where q: "fetch_next_packet ctx c = Inr (u, c1)" by (metis surj_pair)
      note c1 = fetch_next_packet_unread [OF q 1(2)]
      from 1(1) [OF short q] c1 short q show ?thesis
        by (cases "ensure_available n ctx c1")
          (auto simp: ensure_available.simps [of n ctx c] same_format_def)
    qed
  qed
qed

section \<open>Readers and their parsers\<close>

type_synonym 'a parser = "bool \<Rightarrow> bool \<Rightarrow> byte list \<Rightarrow> ('a \<times> byte list) option"

definition reads :: "(cursor \<Rightarrow> (cursor, 'a) res) \<Rightarrow> 'a parser \<Rightarrow> bool" where
  "reads r p \<longleftrightarrow>
     (\<forall>c. wf_cursor c \<longrightarrow>
        (case r c of
           Inl e \<Rightarrow> p (big_clr_chunks c) (legacy_null_clr c) (unread c) = None
         | Inr (x, c') \<Rightarrow>
             p (big_clr_chunks c) (legacy_null_clr c) (unread c) = Some (x, unread c') \<and>
             wf_cursor c' \<and> same_format c c'))"

locale cursor_reader =
  fixes read :: "cursor \<Rightarrow> (cursor, 'a) res" and parse :: "'a parser"
  assumes reads_parse: "reads read parse"
begin

lemma read_iff_parse:
  assumes "wf_cursor c"
  shows "(\<exists>c'. read c = Inr (x, c') \<and> unread c' = rest) \<longleftrightarrow>
    parse (big_clr_chunks c) (legacy_null_clr c) (unread c) = Some (x, rest)"
  using assms reads_parse unfolding reads_def by (cases "read c") (fastforce split: prod.splits)+

lemma packets_do_not_matter:
  assumes "wf_cursor c" "wf_cursor d" "same_format c d" "unread c = unread d"
  shows "(\<exists>c'. read c = Inr (x, c') \<and> unread c' = rest) \<longleftrightarrow>
    (\<exists>d'. read d = Inr (x, d') \<and> unread d' = rest)"
  using assms(3,4)
  by (simp add: read_iff_parse [OF assms(1)] read_iff_parse [OF assms(2)] same_format_def)

lemma keeps_cursor: "wf_cursor c \<Longrightarrow> read c = Inr (x, c') \<Longrightarrow> wf_cursor c' \<and> same_format c c'"
  using reads_parse unfolding reads_def by fastforce

end

definition parse_then :: "'a parser \<Rightarrow> ('a \<Rightarrow> 'b parser) \<Rightarrow> 'b parser" where
  "parse_then p q big legacy bs =
     (case p big legacy bs of None \<Rightarrow> None | Some (x, rest) \<Rightarrow> q x big legacy rest)"

definition parse_return :: "'a \<Rightarrow> 'a parser" where
  "parse_return x big legacy bs = Some (x, bs)"

definition parse_fail :: "'a parser" where
  "parse_fail big legacy bs = None"

definition parse_raw :: "nat \<Rightarrow> byte list parser" where
  "parse_raw n big legacy bs = (if n \<le> length bs then Some (take n bs, drop n bs) else None)"

definition parse_u8 :: "byte parser" where
  "parse_u8 big legacy bs = (case bs of [] \<Rightarrow> None | b # rest \<Rightarrow> Some (b, rest))"

lemma reads_return: "reads (\<lambda>c. Inr (x, c)) (parse_return x)"
  by (simp add: reads_def parse_return_def same_format_def)

lemma reads_fail: "reads (\<lambda>c. fail (m c)) parse_fail"
  by (simp add: reads_def parse_fail_def fail_def)

lemma reads_if:
  "(b \<Longrightarrow> reads r p) \<Longrightarrow> (\<not> b \<Longrightarrow> reads r' p') \<Longrightarrow>
   reads (\<lambda>c. if b then r c else r' c) (if b then p else p')"
  by (cases b) simp_all

lemma unread_split: "wf_cursor c \<Longrightarrow> n \<le> remaining c \<Longrightarrow>
    take n (drop (pos c) (cursor_data c)) = take n (unread c) \<and> n \<le> length (unread c) \<and>
    unread (c\<lparr>pos := pos c + n\<rparr>) = drop n (unread c) \<and> wf_cursor (c\<lparr>pos := pos c + n\<rparr>)"
  by (auto simp: unread_def remaining_def wf_cursor_def cursor_data_def add.commute)

lemma readsI:
  assumes "\<And>c e. wf_cursor c \<Longrightarrow> r c = Inl e \<Longrightarrow>
      p (big_clr_chunks c) (legacy_null_clr c) (unread c) = None"
    and "\<And>c x c'. wf_cursor c \<Longrightarrow> r c = Inr (x, c') \<Longrightarrow>
      p (big_clr_chunks c) (legacy_null_clr c) (unread c) = Some (x, unread c') \<and>
      wf_cursor c' \<and> same_format c c'"
  shows "reads r p"
  unfolding reads_def using assms by (auto split: sum.split)

lemma ensure_available_Inr:
  assumes "wf_cursor c" "ensure_available n ctx c = Inr (u, c1)"
  shows "take n (drop (pos c1) (cursor_data c1)) = take n (unread c)" "n \<le> length (unread c)"
    "unread (c1\<lparr>pos := pos c1 + n\<rparr>) = drop n (unread c)" "wf_cursor (c1\<lparr>pos := pos c1 + n\<rparr>)"
    "same_format c (c1\<lparr>pos := pos c1 + n\<rparr>)" "n \<le> remaining c1" "wf_cursor c1"
proof -
  from ensure_available_unread [OF assms(1), of n ctx] assms(2)
  have c1: "unread c1 = unread c" "wf_cursor c1" "same_format c c1" "n \<le> remaining c1" by auto
  from unread_split [OF c1(2,4)] c1
  show "take n (drop (pos c1) (cursor_data c1)) = take n (unread c)" "n \<le> length (unread c)"
    "unread (c1\<lparr>pos := pos c1 + n\<rparr>) = drop n (unread c)" "wf_cursor (c1\<lparr>pos := pos c1 + n\<rparr>)"
    "same_format c (c1\<lparr>pos := pos c1 + n\<rparr>)" "n \<le> remaining c1" "wf_cursor c1"
    by (simp_all add: same_format_def)
qed

lemma ensure_available_Inl:
  "wf_cursor c \<Longrightarrow> ensure_available n ctx c = Inl e \<Longrightarrow> length (unread c) < n"
  using ensure_available_unread [of c n ctx] by simp

lemma and_then_Inl_iff: "and_then r f = Inl e \<longleftrightarrow> r = Inl e \<or> (\<exists>x s. r = Inr (x, s) \<and> f x s = Inl e)"
  by (auto simp: and_then_def split: sum.split)

lemma readsD_Inl: "reads r p \<Longrightarrow> wf_cursor c \<Longrightarrow> r c = Inl e \<Longrightarrow>
    p (big_clr_chunks c) (legacy_null_clr c) (unread c) = None"
  and readsD_Inr: "reads r p \<Longrightarrow> wf_cursor c \<Longrightarrow> r c = Inr (x, c') \<Longrightarrow>
    p (big_clr_chunks c) (legacy_null_clr c) (unread c) = Some (x, unread c') \<and>
    wf_cursor c' \<and> same_format c c'"
  unfolding reads_def by (drule spec, drule (1) mp, simp)+

lemma reads_then:
  assumes r: "reads r p" and f: "\<And>x. reads (f x) (q x)"
  shows "reads (\<lambda>c. and_then (r c) f) (parse_then p q)"
proof (rule readsI)
  fix c e assume wf: "wf_cursor c" and "and_then (r c) f = Inl e"
  then consider "r c = Inl e" | x c1 where "r c = Inr (x, c1)" "f x c1 = Inl e"
    by (auto simp: and_then_Inl_iff)
  then show "parse_then p q (big_clr_chunks c) (legacy_null_clr c) (unread c) = None"
  proof cases
    case 1
    with readsD_Inl [OF r wf] show ?thesis by (simp add: parse_then_def)
  next
    case 2
    note c1 = readsD_Inr [OF r wf 2(1)]
    with readsD_Inl [OF f _ 2(2)] show ?thesis by (simp add: parse_then_def same_format_def)
  qed
next
  fix c y c' assume wf: "wf_cursor c" and "and_then (r c) f = Inr (y, c')"
  then obtain x c1 where x: "r c = Inr (x, c1)" "f x c1 = Inr (y, c')"
    by (auto simp: and_then_Inr_iff)
  note c1 = readsD_Inr [OF r wf x(1)]
  with readsD_Inr [OF f _ x(2)]
  show "parse_then p q (big_clr_chunks c) (legacy_null_clr c) (unread c) = Some (y, unread c') \<and>
      wf_cursor c' \<and> same_format c c'"
    by (simp add: parse_then_def same_format_def)
qed

lemma reads_raw: "reads (read_raw n) (parse_raw n)"
proof (rule readsI)
  fix c e assume "wf_cursor c" "read_raw n c = Inl e"
  then show "parse_raw n (big_clr_chunks c) (legacy_null_clr c) (unread c) = None"
    by (auto simp: read_raw_def parse_raw_def and_then_Inl_iff dest: ensure_available_Inl)
next
  fix c x c' assume wf: "wf_cursor c" and "read_raw n c = Inr (x, c')"
  then obtain u c1 where c1: "ensure_available n ''short TTC packet while reading bytes'' c = Inr (u, c1)"
    "x = take n (drop (pos c1) (cursor_data c1))" "c' = c1\<lparr>pos := pos c1 + n\<rparr>"
    by (auto simp: read_raw_def and_then_Inr_iff)
  from ensure_available_Inr [OF wf c1(1)] c1(2,3)
  show "parse_raw n (big_clr_chunks c) (legacy_null_clr c) (unread c) = Some (x, unread c') \<and>
      wf_cursor c' \<and> same_format c c'"
    by (simp add: parse_raw_def)
qed

lemma reads_u8: "reads read_u8 parse_u8"
proof (rule readsI)
  fix c e assume "wf_cursor c" "read_u8 c = Inl e"
  then show "parse_u8 (big_clr_chunks c) (legacy_null_clr c) (unread c) = None"
    by (auto simp: read_u8_def parse_u8_def and_then_Inl_iff dest: ensure_available_Inl)
next
  fix c x c' assume wf: "wf_cursor c" and "read_u8 c = Inr (x, c')"
  then obtain u c1 where c1: "ensure_available 1 ''short TTC packet while reading u8'' c = Inr (u, c1)"
    "x = cursor_data c1 ! pos c1" "c' = c1\<lparr>pos := pos c1 + 1\<rparr>"
    by (auto simp: read_u8_def and_then_Inr_iff)
  note e = ensure_available_Inr [OF wf c1(1)]
  have "x = hd (take 1 (drop (pos c1) (cursor_data c1)))"
    using e(6,7) c1(2) by (simp add: remaining_def wf_cursor_def hd_drop_conv_nth)
  then have "x = hd (take 1 (unread c))" unfolding e(1) .
  moreover have "unread c \<noteq> []" "unread c' = tl (unread c)"
    using e(2,3) c1(3) by (auto simp: drop_Suc)
  ultimately have "unread c = x # unread c'" by (cases "unread c") simp_all
  with e(4,5) c1(3) show "parse_u8 (big_clr_chunks c) (legacy_null_clr c) (unread c)
      = Some (x, unread c') \<and> wf_cursor c' \<and> same_format c c'"
    by (auto simp: parse_u8_def split: list.split)
qed

end
