(* ===== verification/Thin_Codec.thy ===== *)
theory Thin_Codec
  imports Thin_Wire
begin

text \<open>
  The fields of a TTC message: the parsers that specify the cursor's reads (each read is an
  interpretation of \<open>cursor_reader\<close>), and the round trips of the integer and byte-string encodings,
  from the writer through the framing of packets to the streaming reader.
\<close>

section \<open>Parsers\<close>

definition parse_uint :: "nat \<Rightarrow> 64 word parser" where
  "parse_uint m =
     parse_then parse_u8 (\<lambda>b.
       if unat b = 0 then parse_return 0
       else if m < unat b \<or> 8 < unat b then parse_fail
       else parse_then (parse_raw (unat b)) (\<lambda>bytes. parse_return (foldl shift_in 0 bytes)))"

definition parse_ub4 :: "32 word parser" where
  "parse_ub4 = parse_then (parse_uint 4) (\<lambda>v. if v < 2 ^ 32 then parse_return (ucast v) else parse_fail)"

definition parse_ub2 :: "16 word parser" where
  "parse_ub2 = parse_then (parse_uint 2) (\<lambda>v. if v < 2 ^ 16 then parse_return (ucast v) else parse_fail)"

definition parse_signed :: "nat \<Rightarrow> 'a::len word parser" where
  "parse_signed width =
     parse_then parse_u8 (\<lambda>b.
       if unat (b AND 0x7f) = 0 then parse_return 0
       else if width < unat (b AND 0x7f) then parse_fail
       else parse_then (parse_raw (unat (b AND 0x7f))) (\<lambda>bytes.
              parse_return (if b AND 0x80 \<noteq> 0 then - foldl shift_in 0 bytes else foldl shift_in 0 bytes)))"

definition parse_chunk_len :: "nat parser" where
  "parse_chunk_len big =
     (if big then parse_then parse_ub4 (\<lambda>n. parse_return (unat n)) big
      else parse_then parse_u8 (\<lambda>n. parse_return (unat n)) big)"

lemmas parser_defs = parse_then_def parse_return_def parse_fail_def parse_u8_def parse_raw_def

lemma parse_chunk_len_shorter:
  "parse_chunk_len big legacy bs = Some (n, rest) \<Longrightarrow> length rest < length bs"
  by (auto simp: parse_chunk_len_def parse_ub4_def parse_uint_def parser_defs
      split: if_splits option.splits list.splits)

function parse_chunk_loop :: "byte list \<Rightarrow> byte list parser" where
  "parse_chunk_loop out big legacy bs =
     (case parse_chunk_len big legacy bs of
        None \<Rightarrow> None
      | Some (n, rest) \<Rightarrow>
          (if n = 0 then Some (out, rest)
           else if n \<le> length rest
           then parse_chunk_loop (out @ take n rest) big legacy (drop n rest) else None))"
  by pat_completeness auto
termination
  by (relation "measure (\<lambda>(out, big, legacy, bs). length bs)") (auto dest!: parse_chunk_len_shorter)

declare parse_chunk_loop.simps [simp del]

definition parse_bytes :: "byte list option parser" where
  "parse_bytes big legacy =
     parse_then parse_u8 (\<lambda>len.
       if len = 0 \<or> len = 0xff then parse_return None
       else if len = TNS_LEGACY_NULL_LENGTH_INDICATOR \<and> legacy then parse_return None
       else if len = 0xfe then parse_then (parse_chunk_loop []) (\<lambda>out. parse_return (Some out))
       else parse_then (parse_raw (unat len)) (\<lambda>out. parse_return (Some out))) big legacy"

section \<open>The reads refine them\<close>

text \<open>The text of an error message is not part of what a read promises.\<close>

lemma reads_same_success:
  assumes "reads r p" "\<And>c q. r' c = Inr q \<longleftrightarrow> r c = Inr q"
  shows "reads r' p"
proof (rule readsI)
  fix c e assume wf: "wf_cursor c" and e: "r' c = Inl e"
  show "p (big_clr_chunks c) (legacy_null_clr c) (unread c) = None"
  proof (cases "r c")
    case (Inl e')
    then show ?thesis by (rule readsD_Inl [OF assms(1) wf])
  next
    case (Inr q)
    with assms(2) [of c q] e show ?thesis by simp
  qed
next
  fix c x c' assume "wf_cursor c" "r' c = Inr (x, c')"
  then show "p (big_clr_chunks c) (legacy_null_clr c) (unread c) = Some (x, unread c') \<and>
      wf_cursor c' \<and> same_format c c'"
    using readsD_Inr [OF assms(1)] assms(2) by blast
qed

lemmas reads_intros = reads_then reads_return reads_fail reads_if reads_raw reads_u8

lemma reads_universal_uint: "reads (read_universal_uint m) (parse_uint m)"
proof (rule reads_same_success)
  show "reads (\<lambda>c. and_then (read_u8 c) (\<lambda>b c.
      if unat b = 0 then Inr (0, c)
      else if m < unat b \<or> 8 < unat b then fail ''''
      else and_then (read_raw (unat b) c) (\<lambda>bytes c. Inr (foldl shift_in 0 bytes, c)))) (parse_uint m)"
    unfolding parse_uint_def by (intro reads_intros)
  show "read_universal_uint m c = Inr q \<longleftrightarrow> and_then (read_u8 c) (\<lambda>b c.
      if unat b = 0 then Inr (0, c)
      else if m < unat b \<or> 8 < unat b then fail ''''
      else and_then (read_raw (unat b) c) (\<lambda>bytes c. Inr (foldl shift_in 0 bytes, c))) = Inr q" for c q
    by (simp add: read_universal_uint_def and_then_Inr_iff Let_def)
qed

lemma reads_ub4: "reads read_ub4 parse_ub4"
  unfolding read_ub4_def parse_ub4_def by (intro reads_intros reads_universal_uint)

lemma reads_ub2: "reads read_ub2 parse_ub2"
  unfolding read_ub2_def parse_ub2_def by (intro reads_intros reads_universal_uint)

lemma reads_signed: "reads (read_signed width name) (parse_signed width)"
  unfolding read_signed_def parse_signed_def Let_def by (intro reads_intros)

text \<open>A read may choose by the format of the session.\<close>

lemma reads_by_format:
  assumes "reads r p" "reads r' p'"
  shows "reads (\<lambda>c. if P (big_clr_chunks c) (legacy_null_clr c) then r c else r' c)
    (\<lambda>big legacy bs. if P big legacy then p big legacy bs else p' big legacy bs)"
proof (rule readsI)
  fix c e
  assume "wf_cursor c" "(if P (big_clr_chunks c) (legacy_null_clr c) then r c else r' c) = Inl e"
  then show "(if P (big_clr_chunks c) (legacy_null_clr c)
      then p (big_clr_chunks c) (legacy_null_clr c) (unread c)
      else p' (big_clr_chunks c) (legacy_null_clr c) (unread c)) = None"
    using readsD_Inl [OF assms(1), of c e] readsD_Inl [OF assms(2), of c e]
    by (cases "P (big_clr_chunks c) (legacy_null_clr c)") simp_all
next
  fix c x c'
  assume "wf_cursor c"
    "(if P (big_clr_chunks c) (legacy_null_clr c) then r c else r' c) = Inr (x, c')"
  then show "(if P (big_clr_chunks c) (legacy_null_clr c)
      then p (big_clr_chunks c) (legacy_null_clr c) (unread c)
      else p' (big_clr_chunks c) (legacy_null_clr c) (unread c)) = Some (x, unread c') \<and>
      wf_cursor c' \<and> same_format c c'"
    using readsD_Inr [OF assms(1), of c x c'] readsD_Inr [OF assms(2), of c x c']
    by (cases "P (big_clr_chunks c) (legacy_null_clr c)") simp_all
qed

lemmas reads_by_big_chunks = reads_by_format [where P = "\<lambda>big legacy. big"]
lemmas reads_by_legacy = reads_by_format [where P = "\<lambda>big legacy. b \<and> legacy" for b]

lemma reads_chunk_len: "reads read_chunk_len parse_chunk_len"
proof -
  have "reads (\<lambda>c. if big_clr_chunks c then and_then (read_ub4 c) (\<lambda>n c. Inr (unat n, c))
        else and_then (read_u8 c) (\<lambda>n c. Inr (unat n, c)))
      (\<lambda>big legacy bs. if big then parse_then parse_ub4 (\<lambda>n. parse_return (unat n)) big legacy bs
        else parse_then parse_u8 (\<lambda>n. parse_return (unat n)) big legacy bs)"
    by (intro reads_by_big_chunks reads_intros reads_ub4)
  moreover have "parse_chunk_len = (\<lambda>big legacy bs.
      if big then parse_then parse_ub4 (\<lambda>n. parse_return (unat n)) big legacy bs
      else parse_then parse_u8 (\<lambda>n. parse_return (unat n)) big legacy bs)"
    by (simp add: fun_eq_iff parse_chunk_len_def)
  ultimately show ?thesis by (simp only: read_chunk_len_def [abs_def])
qed

lemma read_chunk_loop_parse:
  "wf_cursor c \<Longrightarrow>
   (case read_chunk_loop out c of
      Inl e \<Rightarrow> parse_chunk_loop out (big_clr_chunks c) (legacy_null_clr c) (unread c) = None
    | Inr (x, c') \<Rightarrow>
        parse_chunk_loop out (big_clr_chunks c) (legacy_null_clr c) (unread c) = Some (x, unread c') \<and>
        wf_cursor c' \<and> same_format c c')"
proof (induction out c rule: read_chunk_loop.induct)
  case (1 out c)
  let ?P = "parse_chunk_loop out (big_clr_chunks c) (legacy_null_clr c) (unread c)"
  show ?case
  proof (cases "read_chunk_len c")
    case (Inl e)
    with readsD_Inl [OF reads_chunk_len 1(2) Inl] show ?thesis
      by (simp add: read_chunk_loop.simps [of out c] parse_chunk_loop.simps [of out])
  next
    case (Inr q)
    then obtain n c1 where n: "read_chunk_len c = Inr (n, c1)" by (metis surj_pair)
    note len = readsD_Inr [OF reads_chunk_len 1(2) n]
    show ?thesis
    proof (cases "n = 0")
      case True
      with n len show ?thesis
        by (simp add: read_chunk_loop.simps [of out c] parse_chunk_loop.simps [of out])
    next
      case pos: False
      show ?thesis
      proof (cases "read_raw n c1")
        case (Inl e)
        from len readsD_Inl [OF reads_raw _ Inl] have "length (unread c1) < n"
          by (auto simp: parse_raw_def split: if_splits)
        with n pos len Inl show ?thesis
          by (simp add: read_chunk_loop.simps [of out c] parse_chunk_loop.simps [of out])
      next
        case (Inr q)
        then obtain bs c2 where bs: "read_raw n c1 = Inr (bs, c2)" by (metis surj_pair)
        from len readsD_Inr [OF reads_raw _ bs]
        have raw: "n \<le> length (unread c1)" "bs = take n (unread c1)" "unread c2 = drop n (unread c1)"
          "wf_cursor c2" "same_format c1 c2"
          by (auto simp: parse_raw_def split: if_splits)
        have fmt: "same_format c c2" using len raw(5) by (simp add: same_format_def)
        have "?P = parse_chunk_loop (out @ bs) (big_clr_chunks c2) (legacy_null_clr c2) (unread c2)"
          using len pos raw fmt by (simp add: parse_chunk_loop.simps [of out] same_format_def)
        with 1(1) [OF n pos bs raw(4)] n pos bs fmt show ?thesis
          by (cases "read_chunk_loop (out @ bs) c2")
            (auto simp: read_chunk_loop.simps [of out c] same_format_def)
      qed
    qed
  qed
qed

lemma reads_chunk_loop: "reads (read_chunk_loop out) (parse_chunk_loop out)"
  unfolding reads_def using read_chunk_loop_parse by blast

lemma reads_bytes: "reads read_bytes parse_bytes"
proof -
  have "reads read_bytes
      (parse_then parse_u8 (\<lambda>len.
        if len = 0 \<or> len = 0xff then parse_return None
        else (\<lambda>big legacy bs.
          if len = TNS_LEGACY_NULL_LENGTH_INDICATOR \<and> legacy then parse_return None big legacy bs
          else (if len = 0xfe then parse_then (parse_chunk_loop []) (\<lambda>out. parse_return (Some out))
            else parse_then (parse_raw (unat len)) (\<lambda>out. parse_return (Some out))) big legacy bs)))"
    unfolding read_bytes_def [abs_def]
    by (intro reads_intros reads_by_legacy reads_chunk_loop)
  moreover have "parse_bytes = (parse_then parse_u8 (\<lambda>len.
        if len = 0 \<or> len = 0xff then parse_return None
        else (\<lambda>big legacy bs.
          if len = TNS_LEGACY_NULL_LENGTH_INDICATOR \<and> legacy then parse_return None big legacy bs
          else (if len = 0xfe then parse_then (parse_chunk_loop []) (\<lambda>out. parse_return (Some out))
            else parse_then (parse_raw (unat len)) (\<lambda>out. parse_return (Some out))) big legacy bs)))"
    by (auto simp: fun_eq_iff parse_bytes_def parse_then_def split: option.split)
  ultimately show ?thesis by simp
qed

definition parse_bytes_with_ub4_length :: "byte list option parser" where
  "parse_bytes_with_ub4_length =
     parse_then parse_ub4 (\<lambda>expected.
       if expected = 0 then parse_return None
       else parse_then parse_bytes (\<lambda>r.
         if r = None then parse_return None
         else if length (the r) < unat expected then parse_fail
         else parse_return (Some (take (unat expected) (the r)))))"

lemma reads_bytes_with_ub4_length: "reads read_bytes_with_ub4_length parse_bytes_with_ub4_length"
proof (rule reads_same_success)
  let ?r = "\<lambda>c. and_then (read_ub4 c) (\<lambda>expected c.
      if expected = 0 then Inr (None, c)
      else and_then (read_bytes c) (\<lambda>r c.
        if r = None then Inr (None, c)
        else if length (the r) < unat expected then fail ''short TTC bytes-with-length field''
        else Inr (Some (take (unat expected) (the r)), c)))"
  show "reads ?r parse_bytes_with_ub4_length"
    unfolding parse_bytes_with_ub4_length_def by (intro reads_intros reads_ub4 reads_bytes)
  have "read_bytes_with_ub4_length c = ?r c" for c
    unfolding read_bytes_with_ub4_length_def
    by (intro and_then_cong refl if_cong) (simp split: option.split)
  then show "read_bytes_with_ub4_length c = Inr q \<longleftrightarrow> ?r c = Inr q" for c q by simp
qed

interpretation u8: cursor_reader read_u8 parse_u8
  by unfold_locales (rule reads_u8)

interpretation raw: cursor_reader "read_raw n" "parse_raw n" for n
  by unfold_locales (rule reads_raw)

interpretation uint: cursor_reader "read_universal_uint m" "parse_uint m" for m
  by unfold_locales (rule reads_universal_uint)

interpretation ub4: cursor_reader read_ub4 parse_ub4
  by unfold_locales (rule reads_ub4)

interpretation ub2: cursor_reader read_ub2 parse_ub2
  by unfold_locales (rule reads_ub2)

interpretation signed: cursor_reader "read_signed width name" "parse_signed width" for width name
  by unfold_locales (rule reads_signed)

interpretation bytes: cursor_reader read_bytes parse_bytes
  by unfold_locales (rule reads_bytes)

interpretation sized: cursor_reader read_bytes_with_ub4_length parse_bytes_with_ub4_length
  by unfold_locales (rule reads_bytes_with_ub4_length)

section \<open>Integers\<close>

lemma shift_in_eq: "shift_in v b = v * 256 + ucast b"
proof -
  have "push_bit 8 v + ucast b = push_bit 8 v OR ucast b"
    by (rule disjunctive_add) (auto simp: bit_push_bit_iff bit_ucast_iff dest: bit_imp_le_length)
  then show ?thesis by (simp add: shift_in_def push_bit_eq_mult)
qed

lemma foldl_shift_in: "foldl shift_in 0 bs = word_of_nat (be_nat bs)"
  by (induction bs rule: rev_induct) (simp_all add: shift_in_eq)

lemma write_ub8_append: "write_ub8 out v = out @ write_ub8 [] v"
  by (simp add: write_ub8_def)

lemma write_ub4_append: "write_ub4 out v = out @ write_ub4 [] v"
  by (simp add: write_ub4_def write_ub8_append [of out])

lemma parse_uint_Cons:
  "parse_uint m big legacy (b # rest) =
     (if unat b = 0 then Some (0, rest)
      else if m < unat b \<or> 8 < unat b then None
      else if unat b \<le> length rest
      then Some (word_of_nat (be_nat (take (unat b) rest)), drop (unat b) rest) else None)"
  by (simp add: parse_uint_def parser_defs foldl_shift_in)

text \<open>The parser inverts the writer wherever the writer's width is allowed.\<close>

lemma parse_uint_be:
  assumes "n \<le> m" "0 < n" "n \<le> 8" "unat v < 256 ^ n"
  shows "parse_uint m big legacy (word_of_nat n # be_bytes n (unat v) @ rest) = Some (v, rest)"
  using assms
  by (simp add: parse_uint_def parser_defs unat_of_nat foldl_shift_in be_nat_be_bytes)

lemma write_ub8_cases:
  obtains "v = 0" "write_ub8 [] v = [0]"
  | n where "write_ub8 [] v = word_of_nat n # be_bytes n (unat v)" "0 < n" "n \<le> 8"
      "unat v < 256 ^ n" "256 ^ (n div 2) \<le> unat v \<or> n = 1"
proof -
  have le: "v \<le> w \<longleftrightarrow> unat v \<le> unat w" for w :: "64 word" by (rule word_le_nat_alt)
  have b: "unat v < 256 ^ 8" using unsigned_less [of v] by simp
  consider "v = 0" | "v \<noteq> 0" "v \<le> 0xFF" | "0xFF < v" "v \<le> 0xFFFF"
    | "0xFFFF < v" "v \<le> 0xFFFFFFFF" | "0xFFFFFFFF < v" by force
  then show thesis
  proof cases
    case 1
    then show thesis by (intro that(1)) (simp_all add: write_ub8_def)
  next
    case 2
    then show thesis
      by (intro that(2) [of 1]) (simp_all add: write_ub8_def le)
  next
    case 3
    then show thesis
      by (intro that(2) [of 2]) (auto simp: write_ub8_def word_le_nat_alt word_less_nat_alt)
  next
    case 4
    then show thesis
      by (intro that(2) [of 4]) (auto simp: write_ub8_def word_le_nat_alt word_less_nat_alt)
  next
    case 5
    then show thesis using b
      by (intro that(2) [of 8]) (auto simp: write_ub8_def word_le_nat_alt word_less_nat_alt)
  qed
qed

lemma write_ub8_width:
  assumes "write_ub8 [] v = word_of_nat n # be_bytes n (unat v)"
  shows "n \<in> {1, 2, 4, 8} \<or> v = 0"
proof -
  from assms have "length (write_ub8 [] v) = Suc n" by simp
  then show ?thesis by (auto simp: write_ub8_def split: if_splits)
qed

lemma parse_uint_write_ub8:
  assumes "m = 8 \<or> m = 4 \<and> unat v < 2 ^ 32 \<or> m = 2 \<and> unat v < 2 ^ 16"
  shows "parse_uint m big legacy (write_ub8 [] v @ rest) = Some (v, rest)"
proof (cases v rule: write_ub8_cases)
  case 1
  then show ?thesis by (simp add: parse_uint_def parser_defs)
next
  case (2 n)
  have "n \<le> m"
  proof (rule ccontr)
    assume "\<not> n \<le> m"
    with 2(3) assms have n: "m = 4 \<and> unat v < 2 ^ 32 \<and> 4 < n \<or> m = 2 \<and> unat v < 2 ^ 16 \<and> 2 < n"
      by auto
    with 2(5) have "256 ^ (n div 2) \<le> unat v" by auto
    from n write_ub8_width [OF 2(1)] this show False by auto
  qed
  with 2 parse_uint_be [of n m v] show ?thesis by simp
qed

lemma unat_ucast_64 [simp]:
  "unat (ucast (v :: 32 word) :: 64 word) = unat v" "unat (ucast (w :: 16 word) :: 64 word) = unat w"
proof -
  have "unat v < 2 ^ 32" "unat w < 2 ^ 16"
    using unsigned_less [of v, where ?'a = nat] unsigned_less [of w, where ?'a = nat] by simp_all
  then show "unat (ucast v :: 64 word) = unat v" "unat (ucast w :: 64 word) = unat w"
    by (simp_all add: unsigned_ucast_eq take_bit_nat_eq_self)
qed

lemma ucast_ucast_64 [simp]:
  "ucast (ucast (v :: 32 word) :: 64 word) = v" "ucast (ucast (w :: 16 word) :: 64 word) = w"
  by (auto intro!: bit_word_eqI simp: bit_ucast_iff)

lemma parse_ub4_write_ub4: "parse_ub4 big legacy (write_ub4 [] v @ rest) = Some (v, rest)"
proof -
  have "unat (ucast v :: 64 word) < 2 ^ 32" using unsigned_less [of v] by simp
  then have "parse_uint 4 big legacy (write_ub4 [] v @ rest) = Some (ucast v, rest)"
    unfolding write_ub4_def by (intro parse_uint_write_ub8) simp
  moreover have "(ucast v :: 64 word) < 2 ^ 32"
    using unsigned_less [of v] by (simp add: word_less_nat_alt)
  ultimately show ?thesis
    by (simp add: parse_ub4_def parse_then_def parse_return_def)
qed

lemma parse_ub2_write_ub2: "parse_ub2 big legacy (write_ub2 [] v @ rest) = Some (v, rest)"
proof -
  have "unat (ucast v :: 64 word) < 2 ^ 16" using unsigned_less [of v] by simp
  then have "parse_uint 2 big legacy (write_ub2 [] v @ rest) = Some (ucast v, rest)"
    unfolding write_ub2_def by (intro parse_uint_write_ub8) simp
  moreover have "(ucast v :: 64 word) < 2 ^ 16"
    using unsigned_less [of v] by (simp add: word_less_nat_alt)
  ultimately show ?thesis
    by (simp add: parse_ub2_def parse_then_def parse_return_def)
qed

section \<open>Byte fields\<close>

lemma foldl_append_out:
  assumes "\<And>out c. f out c = out @ g c"
  shows "foldl f out cs = out @ concat (map g cs)"
  using assms by (induction cs arbitrary: out) simp_all

definition big_chunk :: "byte list \<Rightarrow> byte list" where
  "big_chunk chunk = write_ub4 [] (word_of_nat (length chunk)) @ chunk"

definition legacy_chunk :: "byte list \<Rightarrow> byte list" where
  "legacy_chunk chunk = word_of_nat (length chunk) # chunk"

lemma parse_big_chunks:
  assumes "\<forall>c \<in> set cs. 0 < length c \<and> length c < 2 ^ 32"
  shows "parse_chunk_loop out True legacy (concat (map big_chunk cs) @ write_ub4 [] 0 @ rest)
    = Some (out @ concat cs, rest)"
  using assms
proof (induction cs arbitrary: out)
  case Nil
  show ?case
    by (subst parse_chunk_loop.simps)
      (simp add: parse_chunk_len_def parse_then_def parse_return_def parse_ub4_write_ub4)
next
  case (Cons c cs)
  then have "unat (word_of_nat (length c) :: 32 word) = length c" by (simp add: unat_of_nat)
  with Cons show ?case
    by (subst parse_chunk_loop.simps)
      (simp add: parse_chunk_len_def parse_then_def parse_return_def big_chunk_def [of c] parse_ub4_write_ub4)
qed

lemma parse_legacy_chunks:
  assumes "\<forall>c \<in> set cs. 0 < length c \<and> length c < 256"
  shows "parse_chunk_loop out False legacy (concat (map legacy_chunk cs) @ [0] @ rest)
    = Some (out @ concat cs, rest)"
  using assms
proof (induction cs arbitrary: out)
  case Nil
  show ?case
    by (subst parse_chunk_loop.simps) (simp add: parse_chunk_len_def parser_defs)
next
  case (Cons c cs)
  then show ?case
    by (subst parse_chunk_loop.simps)
      (simp add: parse_chunk_len_def parser_defs legacy_chunk_def [of c])
qed

text \<open>An empty byte string and the null value have the same encoding.\<close>

definition or_null :: "byte list \<Rightarrow> byte list option" where
  "or_null v = (if v = [] then None else Some v)"

lemma write_bytes_with_length_forms:
  "write_bytes_with_length_with_big_chunks out v big =
     Inr (out @ (if length v \<le> 252 then word_of_nat (length v) # v
       else 0xfe # (if big then concat (map big_chunk (chunks TNS_BIG_CLR_CHUNK_SIZE v)) @ write_ub4 [] 0
         else concat (map legacy_chunk (chunks TNS_LEGACY_CLR_CHUNK_SIZE v)) @ [0])))"
proof -
  have "foldl (\<lambda>out chunk. write_ub4 out (word_of_nat (length chunk)) @ chunk) acc cs
      = acc @ concat (map big_chunk cs)" for acc cs
  proof (rule foldl_append_out)
    show "write_ub4 out (word_of_nat (length chunk)) @ chunk = out @ big_chunk chunk" for out chunk
      using write_ub4_append [of out "word_of_nat (length chunk)"] by (simp add: big_chunk_def)
  qed
  moreover have "foldl (\<lambda>out chunk. out @ [word_of_nat (length chunk)] @ chunk) acc cs
      = acc @ concat (map legacy_chunk cs)" for acc cs
    by (rule foldl_append_out) (simp add: legacy_chunk_def)
  moreover have "write_ub4 (out @ 0xfe # xs) 0 = out @ 0xfe # xs @ write_ub4 [] 0" for xs
    using write_ub4_append [of "out @ 0xfe # xs" 0] by simp
  ultimately show ?thesis
    by (simp add: write_bytes_with_length_with_big_chunks_def Let_def)
qed

lemma parse_bytes_write_bytes:
  assumes "write_bytes_with_length_with_big_chunks [] v big = Inr field"
  shows "parse_bytes big legacy (field @ rest) = Some (or_null v, rest)"
proof (cases "length v \<le> 252")
  case True
  with assms have f: "field = word_of_nat (length v) # v" by (simp add: write_bytes_with_length_forms)
  have u: "unat (word_of_nat (length v) :: byte) = length v" using True by simp
  then have "(word_of_nat (length v) :: byte) \<noteq> 0xff" "(word_of_nat (length v) :: byte) \<noteq> 0xfe"
    "word_of_nat (length v) \<noteq> TNS_LEGACY_NULL_LENGTH_INDICATOR"
    "(word_of_nat (length v) :: byte) = 0 \<longleftrightarrow> v = []"
    using True by (auto simp: word_unat_eq_iff TNS_LEGACY_NULL_LENGTH_INDICATOR_def simp del: unat_word_of_nat_byte)
  with u f show ?thesis by (simp add: parse_bytes_def parser_defs or_null_def)
next
  case False
  have len: "\<forall>c \<in> set (chunks TNS_BIG_CLR_CHUNK_SIZE v). 0 < length c \<and> length c < 2 ^ 32"
    "\<forall>c \<in> set (chunks TNS_LEGACY_CLR_CHUNK_SIZE v). 0 < length c \<and> length c < 256"
    by (auto simp: TNS_BIG_CLR_CHUNK_SIZE_def TNS_LEGACY_CLR_CHUNK_SIZE_def dest: chunk_length
        intro: le_less_trans)
  have "concat (chunks TNS_BIG_CLR_CHUNK_SIZE v) = v" "concat (chunks TNS_LEGACY_CLR_CHUNK_SIZE v) = v"
    by (simp_all add: concat_chunks TNS_BIG_CLR_CHUNK_SIZE_def TNS_LEGACY_CLR_CHUNK_SIZE_def)
  with False assms parse_big_chunks [OF len(1)] parse_legacy_chunks [OF len(2)] show ?thesis
    by (cases big) (auto simp: write_bytes_with_length_forms parse_bytes_def parse_then_def
        parse_return_def parse_u8_def TNS_LEGACY_NULL_LENGTH_INDICATOR_def or_null_def)
qed

section \<open>Framing\<close>

text \<open>The bytes of a data packet, and when its size fits the header's length field.\<close>

definition frame :: "nat \<Rightarrow> byte list \<Rightarrow> byte list" where
  "frame pv payload =
     (if 315 \<le> pv then be_bytes 4 (10 + length payload) else be_bytes 2 (10 + length payload) @ [0, 0])
     @ [TNS_PACKET_TYPE_DATA, 0, 0, 0, 0, 0] @ payload"

definition fits :: "nat \<Rightarrow> nat \<Rightarrow> bool" where
  "fits pv n \<longleftrightarrow> (if 315 \<le> pv then 10 + n < 2 ^ 32 else 10 + n < 2 ^ 16)"

lemma write_single_data_packet_frame:
  assumes "fits pv (length payload)"
  shows "write_single_data_packet pv payload s = write_all (frame pv payload) s"
proof -
  have r: "replicate (10 + n) (0 :: byte) = [0, 0, 0, 0, 0, 0, 0, 0, 0, 0] @ replicate n 0" for n
    by (simp add: eval_nat_numeral replicate_add)
  have "\<not> (315 \<le> pv \<and> 2 ^ 32 \<le> 10 + length payload \<or> pv < 315 \<and> 2 ^ 16 \<le> 10 + length payload)"
    using assms by (auto simp: fits_def split: if_splits)
  then show ?thesis
    unfolding write_single_data_packet_def Let_def r
    by (simp add: packet_header_def put_at_def frame_def list_update_append del: be_bytes_numeral)
qed

lemma write_single_data_packet_too_large:
  "\<not> fits pv (length payload) \<Longrightarrow>
   write_single_data_packet pv payload s =
     fail (''TNS data packet too large: '' @ show_nat (10 + length payload) @ '' bytes'')"
  by (auto simp: write_single_data_packet_def fits_def Let_def split: if_splits)

lemma read_frame:
  assumes "fits pv (length payload)" "rx s = frame pv payload @ later"
  shows "read_tns_packet pv ctx s = Inr ((TNS_PACKET_TYPE_DATA, 0 # 0 # payload), s\<lparr>rx := later\<rparr>)"
proof -
  have sz: "packet_size pv (take 8 (rx s)) = 10 + length payload"
    using assms by (auto simp: packet_size_def frame_def fits_def be_nat_be_bytes min_def
        simp del: be_bytes_numeral)
  have data: "drop 8 (rx s) = 0 # 0 # payload @ later" "take 8 (rx s) ! 4 = TNS_PACKET_TYPE_DATA"
    "8 \<le> length (rx s)"
    using assms(2) by (auto simp: frame_def nth_append simp del: be_bytes_numeral)
  show ?thesis
    using sz data by (simp add: read_tns_packet_def read_exact_tracking_progress_def Let_def)
qed

lemma read_data_frame:
  assumes "fits pv (length payload)" "rx s = frame pv payload @ later"
  shows "read_data_packet_with_flags pv s = Inr ((0, payload), s\<lparr>rx := later\<rparr>)"
  by (simp add: read_data_packet_with_flags_def read_data_packet_for_cancel.simps
      read_frame [OF assms] be_nat_def)

lemma stream_rest_frame:
  assumes "fits pv (length payload)" "rx s = frame pv payload @ later"
  shows "stream_rest pv s = payload @ stream_rest pv (s\<lparr>rx := later\<rparr>)"
  by (subst stream_rest.simps) (simp add: read_data_frame [OF assms] ends_response_def)

lemma stream_rest_Nil: "rx s = [] \<Longrightarrow> stream_rest pv s = []"
  by (simp add: stream_rest.simps [of pv s] read_data_packet_with_flags_def
      read_data_packet_for_cancel.simps read_tns_packet_def read_exact_tracking_progress_def)

lemma stream_rest_frames:
  assumes "\<forall>p \<in> set ps. fits pv (length p)" "rx s = concat (map (frame pv) ps) @ later"
  shows "stream_rest pv s = concat ps @ stream_rest pv (s\<lparr>rx := later\<rparr>)"
  using assms
proof (induction ps arbitrary: s)
  case Nil
  then have "s\<lparr>rx := later\<rparr> = s" by simp
  then show ?case by simp
next
  case (Cons p ps)
  then have "stream_rest pv s = p @ stream_rest pv (s\<lparr>rx := concat (map (frame pv) ps) @ later\<rparr>)"
    by (intro stream_rest_frame) simp_all
  with Cons show ?case by simp
qed

lemma write_chunks_frames:
  assumes "\<forall>p \<in> set ps. fits pv (length p)" "tx_error s = None"
  shows "write_chunks pv ps s = Inr ((), s\<lparr>tx := tx s @ concat (map (frame pv) ps)\<rparr>)"
  using assms
  by (induction ps arbitrary: s)
    (simp_all add: write_single_data_packet_frame write_all_def)

text \<open>The pieces a payload is cut into.\<close>

definition pieces :: "nat \<Rightarrow> byte list \<Rightarrow> byte list list" where
  "pieces chunk_size payload =
     (if chunk_size < length payload then chunks (max chunk_size 1) payload else [payload])"

lemma concat_pieces: "concat (pieces n payload) = payload"
  by (simp add: pieces_def concat_chunks)

lemma pieces_fit:
  assumes "fits pv (max chunk_size 1)" "p \<in> set (pieces chunk_size payload)"
  shows "fits pv (length p)"
proof -
  have "length p \<le> max chunk_size 1"
    using assms(2) by (auto simp: pieces_def split: if_splits dest: chunk_length)
  with assms(1) show ?thesis by (auto simp: fits_def split: if_splits)
qed

lemma write_data_packet_frames:
  assumes "fits pv (max chunk_size 1)" "tx_error s = None"
  shows "write_data_packet pv chunk_size payload s =
    Inr ((), s\<lparr>tx := tx s @ concat (map (frame pv) (pieces chunk_size payload))\<rparr>)"
proof (cases "chunk_size < length payload")
  case True
  then have p: "pieces chunk_size payload = chunks (max chunk_size 1) payload" by (simp add: pieces_def)
  with pieces_fit [OF assms(1), of _ payload]
  have "\<forall>q \<in> set (chunks (max chunk_size 1) payload). fits pv (length q)" by simp
  with True p assms(2) show ?thesis by (simp add: write_data_packet_def write_chunks_frames)
next
  case False
  then have "pieces chunk_size payload = [payload]" by (simp add: pieces_def)
  with False pieces_fit [OF assms(1), of payload payload] assms(2) show ?thesis
    by (simp add: write_data_packet_def write_single_data_packet_frame write_all_def)
qed

text \<open>What the peer of a sent payload reads, before whatever else arrives.\<close>

lemma sent_payload_arrives:
  assumes "fits pv (max chunk_size 1)" "tx_error s = None" "tx s = []"
    "write_data_packet pv chunk_size payload s = Inr (u, s')" "rx peer = tx s' @ later"
  shows "stream_rest pv peer = payload @ stream_rest pv (peer\<lparr>rx := later\<rparr>)"
proof -
  have "rx peer = concat (map (frame pv) (pieces chunk_size payload)) @ later"
    using assms(4,5) by (auto simp: write_data_packet_frames [OF assms(1,2)] assms(3))
  from stream_rest_frames [OF _ this] pieces_fit [OF assms(1)] show ?thesis
    by (simp add: concat_pieces)
qed

section \<open>Through the wire\<close>

definition peer_cursor :: "tcp \<Rightarrow> nat \<Rightarrow> bool \<Rightarrow> cursor" where
  "peer_cursor peer pv big = streaming [] 0 peer (Some pv) big"

lemma peer_cursor_unread:
  "unread (peer_cursor peer pv big) = stream_rest pv peer" "wf_cursor (peer_cursor peer pv big)"
  "big_clr_chunks (peer_cursor peer pv big) = big"
  by (simp_all add: peer_cursor_def streaming_def unread_def wf_cursor_def cursor_data_def
      ends_response_def)

definition offline :: io_error where
  "offline = \<lparr>io_kind = UnexpectedEof, io_text = ''eof''\<rparr>"

definition idle_stream :: "byte list \<Rightarrow> tcp" where
  "idle_stream bs = \<lparr>rx = bs, rx_error = offline, tx = [], tx_error = None\<rparr>"

text \<open>
  C11. A byte field reaches the other side of a connection unchanged: whatever its length, the
  chunking of the session's CLR encoding, the protocol version and the size the payload is cut to
  into TNS packets (a packet of that size has to fit the length field of its header, as every size that a
  session negotiates does), writing succeeds, and reading the peer's stream answers the bytes that were
  written (an empty field is read as null), with the cursor on the data that follows.
\<close>

theorem byte_field_survives_the_wire:
  assumes "fits pv (max chunk_size 1)" "tx_error s = None" "tx s = []"
  shows "\<exists>field s'.
    write_bytes_with_length_with_big_chunks [] v big = Inr field \<and>
    write_data_packet pv chunk_size (field @ after) s = Inr ((), s') \<and>
    (\<forall>peer. rx peer = tx s' \<longrightarrow>
       (\<exists>c. read_bytes (peer_cursor peer pv big) = Inr (or_null v, c) \<and> unread c = after))"
proof -
  obtain field where f: "write_bytes_with_length_with_big_chunks [] v big = Inr field"
    by (simp add: write_bytes_with_length_forms)
  obtain s' where w: "write_data_packet pv chunk_size (field @ after) s = Inr ((), s')"
    using write_data_packet_frames [OF assms(1,2)] by blast
  have "\<exists>c. read_bytes (peer_cursor peer pv big) = Inr (or_null v, c) \<and> unread c = after"
    if "rx peer = tx s'" for peer
  proof -
    have "stream_rest pv peer = field @ after"
      using sent_payload_arrives [OF assms w, of peer "[]"] that by (simp add: stream_rest_Nil)
    then show ?thesis
      using bytes.read_iff_parse [of "peer_cursor peer pv big" "or_null v" after]
        parse_bytes_write_bytes [OF f] by (simp add: peer_cursor_unread)
  qed
  with f w show ?thesis by blast
qed

lemma byte_field_survives_the_wire_witness:
  "\<exists>field s' c.
    write_bytes_with_length_with_big_chunks [] [1, 2, 3] True = Inr field \<and>
    write_data_packet 319 2 (field @ [9]) (idle_stream []) = Inr ((), s') \<and>
    read_bytes (peer_cursor (idle_stream (tx s')) 319 True) = Inr (Some [1, 2, 3], c) \<and>
    unread c = [9]"
proof -
  have "fits 319 (max 2 1)" "tx_error (idle_stream []) = None" "tx (idle_stream []) = []"
    by (simp_all add: fits_def idle_stream_def)
  from byte_field_survives_the_wire [OF this, of "[1, 2, 3]" True "[9]"] obtain field s' where w:
    "write_bytes_with_length_with_big_chunks [] [1, 2, 3] True = Inr field"
    "write_data_packet 319 2 (field @ [9]) (idle_stream []) = Inr ((), s')"
    "\<And>peer. rx peer = tx s' \<Longrightarrow>
       \<exists>c. read_bytes (peer_cursor peer 319 True) = Inr (or_null [1, 2, 3], c) \<and> unread c = [9]"
    by blast
  from w(3) [of "idle_stream (tx s')"] w(1,2) show ?thesis
    by (auto simp: idle_stream_def or_null_def)
qed

text \<open>
  C23. Where a response was cut into packets is invisible: two cursors of the same format that still
  have the same bytes to deliver, over any mixture of buffered bytes, data packets, markers and
  control packets, answer the same byte field and leave the same rest.
\<close>

theorem packet_boundaries_are_invisible:
  assumes "wf_cursor c" "wf_cursor d" "same_format c d" "unread c = unread d"
  shows "(\<exists>c'. read_bytes c = Inr (x, c') \<and> unread c' = rest) \<longleftrightarrow>
    (\<exists>d'. read_bytes d = Inr (x, d') \<and> unread d' = rest)"
  by (rule bytes.packets_do_not_matter [OF assms])

lemma packet_boundaries_are_invisible_witness:
  "(\<exists>c. read_bytes (peer_cursor (idle_stream (frame 319 [2, 7] @ frame 319 [8, 9])) 319 True)
      = Inr (Some [7, 8], c) \<and> unread c = [9]) \<longleftrightarrow>
   (\<exists>d. read_bytes (with_capabilities [2, 7, 8, 9] (Some 319) True) = Inr (Some [7, 8], d) \<and>
      unread d = [9])"
proof (rule packet_boundaries_are_invisible)
  let ?s = "idle_stream (frame 319 [2, 7] @ frame 319 [8, 9])"
  have "stream_rest 319 ?s = concat [[2, 7], [8, 9]] @ stream_rest 319 (?s\<lparr>rx := []\<rparr>)"
    by (rule stream_rest_frames) (simp_all add: fits_def idle_stream_def)
  then show "unread (peer_cursor ?s 319 True) = unread (with_capabilities [2, 7, 8, 9] (Some 319) True)"
    by (simp add: peer_cursor_unread stream_rest_Nil)
      (simp add: unread_def with_capabilities_def cursor_data_def)
qed (simp_all add: peer_cursor_def streaming_def with_capabilities_def wf_cursor_def cursor_data_def
    same_format_def)

text \<open>
  A length is never believed past its width: a universal integer whose length byte exceeds the
  field's width, or eight, is an error on every cursor, and a value that is answered is below 256 to
  the power of the width and used at most that many bytes after the length byte.
\<close>

lemma universal_integers_are_bounded:
  assumes "wf_cursor c" "unread c = b # rest"
  shows "(m < unat b \<or> 8 < unat b \<longrightarrow> (\<exists>e. read_universal_uint m c = Inl e)) \<and>
    (\<forall>v c'. read_universal_uint m c = Inr (v, c') \<longrightarrow>
      unat v < 256 ^ min m 8 \<and> unread c' = drop (unat b) rest)"
proof (intro conjI impI allI)
  note p = parse_uint_Cons [of m "big_clr_chunks c" "legacy_null_clr c" b rest]
  show "\<exists>e. read_universal_uint m c = Inl e" if bad: "m < unat b \<or> 8 < unat b"
  proof (cases "read_universal_uint m c")
    case (Inr q)
    with uint.read_iff_parse [OF assms(1), of m "fst q" "unread (snd q)"] p bad assms(2)
    show ?thesis by (cases q) (auto split: if_splits)
  qed blast
  fix v c' assume r: "read_universal_uint m c = Inr (v, c')"
  with uint.read_iff_parse [OF assms(1), of m v "unread c'"] assms(2)
  have "parse_uint m (big_clr_chunks c) (legacy_null_clr c) (b # rest) = Some (v, unread c')" by auto
  then consider "unat b = 0" "v = 0" "unread c' = rest"
    | "unat b \<le> m" "unat b \<le> 8" "unat b \<le> length rest" "v = word_of_nat (be_nat (take (unat b) rest))"
      "unread c' = drop (unat b) rest"
    unfolding p by (auto split: if_splits)
  then have bound: "unat v < 256 ^ min m 8 \<and> unread c' = drop (unat b) rest"
  proof cases
    case 2
    have "be_nat (take (unat b) rest) < 256 ^ unat b"
      using be_nat_bound [of "take (unat b) rest"] 2(3) by simp
    also have "\<dots> \<le> 256 ^ min m 8" using 2(1,2) by (intro power_increasing) auto
    finally have lt: "be_nat (take (unat b) rest) < 256 ^ min m 8" .
    then have "unat v < 256 ^ min m 8"
      unfolding 2(4) unat_of_nat by (rule le_less_trans [OF mod_less_eq_dividend])
    with 2(5) show ?thesis by simp
  qed simp
  then show "unat v < 256 ^ min m 8" "unread c' = drop (unat b) rest" by simp_all
qed

lemma universal_integers_are_bounded_witness:
  "(\<exists>e. read_universal_uint 4 (with_capabilities [5, 1, 2, 3, 4, 5] None True) = Inl e) \<and>
   (\<exists>v c. read_universal_uint 4 (with_capabilities [2, 1, 2, 7] None True) = Inr (v, c) \<and>
      unat v < 256 ^ min 4 8 \<and> unread c = [7])"
proof
  show "\<exists>e. read_universal_uint 4 (with_capabilities [5, 1, 2, 3, 4, 5] None True) = Inl e"
    using universal_integers_are_bounded
      [of "with_capabilities [5, 1, 2, 3, 4, 5] None True" 5 "[1, 2, 3, 4, 5]" 4]
    by (simp add: with_capabilities_def wf_cursor_def unread_def cursor_data_def)
  let ?c = "with_capabilities [2, 1, 2, 7] None True"
  have c: "wf_cursor ?c" "unread ?c = 2 # [1, 2, 7]"
    by (simp_all add: with_capabilities_def wf_cursor_def unread_def cursor_data_def)
  then obtain c' where "read_universal_uint 4 ?c = Inr (0x0102, c')"
    using uint.read_iff_parse [of ?c 4 "0x0102" "[7]"] by (auto simp: parse_uint_Cons be_nat_def)
  with universal_integers_are_bounded [OF c, of 4]
  show "\<exists>v c. read_universal_uint 4 ?c = Inr (v, c) \<and> unat v < 256 ^ min 4 8 \<and> unread c = [7]"
    by fastforce
qed

end
