(* ===== verification/Thin_Calendar.thy ===== *)
theory Thin_Calendar
  imports Thin_Bytes "HOL-Library.Signed_Division"
begin

text \<open>
  Calendar arithmetic of the thin driver (\<^verbatim>\<open>crates/tns-thin/src/session.rs\<close>): the day loops that move a
  wall-clock time by a zone offset, and the closed formula for Unix seconds. The two are written
  independently in the source; here each is shown to be right by the other. Unsigned fields are
  natural numbers, and the places where a Rust type wraps or saturates are written out.
\<close>

record oracle_date_time =
  year :: nat
  month :: nat
  day :: nat
  hour :: nat
  minute :: nat
  second :: nat
  nanosecond :: nat
  timezone_offset_minutes :: "int option"
  timezone_region_id :: "16 word option"

section \<open>Days\<close>

definition is_leap_year :: "nat \<Rightarrow> bool" where
  "is_leap_year y \<longleftrightarrow> y mod 4 = 0 \<and> y mod 100 \<noteq> 0 \<or> y mod 400 = 0"

definition days_in_month :: "nat \<Rightarrow> nat \<Rightarrow> nat" where
  "days_in_month y m =
     (if m \<in> {1, 3, 5, 7, 8, 10, 12} then 31
      else if m \<in> {4, 6, 9, 11} then 30
      else if m = 2 \<and> is_leap_year y then 29
      else if m = 2 then 28
      else 31)"

text \<open>One round of each loop of \<^verbatim>\<open>shift_date_by_days\<close>.\<close>

definition next_day :: "oracle_date_time \<Rightarrow> oracle_date_time" where
  "next_day v =
     (if day v < days_in_month (year v) (month v) then v\<lparr>day := day v + 1\<rparr>
      else if month v < 12 then v\<lparr>day := 1, month := month v + 1\<rparr>
      else v\<lparr>day := 1, month := 1, year := (year v + 1) mod 2 ^ 16\<rparr>)"

definition prev_day :: "oracle_date_time \<Rightarrow> oracle_date_time" where
  "prev_day v =
     (if 1 < day v then v\<lparr>day := day v - 1\<rparr>
      else if 1 < month v
      then v\<lparr>month := month v - 1, day := days_in_month (year v) (month v - 1)\<rparr>
      else v\<lparr>year := year v - 1, month := 12, day := days_in_month (year v - 1) 12\<rparr>)"

definition shift_date_by_days :: "oracle_date_time \<Rightarrow> int \<Rightarrow> oracle_date_time" where
  "shift_date_by_days v day_delta =
     (if 0 < day_delta then (next_day ^^ nat day_delta) v else (prev_day ^^ nat (- day_delta)) v)"

definition apply_timezone_offset :: "oracle_date_time \<Rightarrow> int \<Rightarrow> oracle_date_time" where
  "apply_timezone_offset v offset_minutes =
     (let total_minutes = int (hour v) * 60 + int (minute v) + offset_minutes;
          day_delta = total_minutes div (24 * 60);
          minute_of_day = total_minutes mod (24 * 60)
      in shift_date_by_days
           (v\<lparr>hour := nat (minute_of_day div 60), minute := nat (minute_of_day mod 60)\<rparr>) day_delta)"

definition days_from_civil :: "int \<Rightarrow> nat \<Rightarrow> nat \<Rightarrow> int option" where
  "days_from_civil y m d =
     (if \<not> (1 \<le> m \<and> m \<le> 12) \<or> \<not> (1 \<le> d \<and> d \<le> 31) then None
      else
        (let y = y - (if m \<le> 2 then 1 else 0);
             era = y div 400;
             yoe = y - era * 400;
             m = int m;
             d = int d;
             doy = (153 * (m + (if 2 < m then - 3 else 9)) + 2) div 5 + d - 1;
             doe = yoe * 365 + yoe div 4 - yoe div 100 + doy
         in Some (era * 146097 + doe - 719468)))"

definition oracle_datetime_to_unix_seconds :: "oracle_date_time \<Rightarrow> int option" where
  "oracle_datetime_to_unix_seconds v =
     map_option
       (\<lambda>days. days * 86400 + int (hour v) * 3600 + int (minute v) * 60 + int (second v))
       (days_from_civil (int (year v)) (month v) (day v))"

section \<open>The formula counts days\<close>

definition valid_date :: "oracle_date_time \<Rightarrow> bool" where
  "valid_date v \<longleftrightarrow>
     1 \<le> month v \<and> month v \<le> 12 \<and> 1 \<le> day v \<and> day v \<le> days_in_month (year v) (month v)"

definition valid_time :: "oracle_date_time \<Rightarrow> bool" where
  "valid_time v \<longleftrightarrow> hour v < 24 \<and> minute v < 60 \<and> second v < 60"

text \<open>Days before the first of March of a year, counted from a fixed origin.\<close>

definition year_days :: "int \<Rightarrow> int" where
  "year_days y = 365 * y + y div 4 - y div 100 + y div 400"

definition month_days :: "nat \<Rightarrow> int" where
  "month_days m = (153 * (int m + (if 2 < m then - 3 else 9)) + 2) div 5"

definition serial :: "oracle_date_time \<Rightarrow> int" where
  "serial v =
     year_days (int (year v) - (if month v \<le> 2 then 1 else 0)) + month_days (month v)
       + int (day v) - 719469"

lemma era_days:
  "y div 400 * 146097 + ((y - y div 400 * 400) * 365 + (y - y div 400 * 400) div 4
     - (y - y div 400 * 400) div 100) = year_days y" for y :: int
proof -
  define e r where "e = y div 400" and "r = y mod 400"
  have y: "y = 400 * e + r" by (simp add: e_def r_def)
  have "(4 * (100 * e) + r) div 4 = 100 * e + r div 4"
    "(100 * (4 * e) + r) div 100 = 4 * e + r div 100"
    by (simp_all only: div_mult_self4)
  then have "y div 4 = 100 * e + r div 4" "y div 100 = 4 * e + r div 100" by (simp_all add: y)
  moreover have "y - e * 400 = r" by (simp add: y)
  ultimately show ?thesis unfolding year_days_def e_def [symmetric] by simp
qed

lemma days_in_month_le: "days_in_month y m \<le> 31"
  by (simp add: days_in_month_def)

lemma days_from_civil_serial:
  assumes "valid_date v"
  shows "days_from_civil (int (year v)) (month v) (day v) = Some (serial v)"
proof -
  have "day v \<le> 31" using assms days_in_month_le [of "year v" "month v"] by (simp add: valid_date_def)
  with assms show ?thesis
    using era_days [of "int (year v) - (if month v \<le> 2 then 1 else 0)"]
    by (simp add: days_from_civil_def serial_def month_days_def valid_date_def Let_def algebra_simps)
qed

lemma year_days_step:
  "year_days (int y) - year_days (int y - 1) = (if is_leap_year y then 366 else 365)"
proof -
  have q: "(int y - 1) div int k = int y div int k - (if y mod k = 0 then 1 else 0)" if "0 < k" for k
  proof (cases "y mod k = 0")
    case True
    then have "int y - 1 = int k * (int y div int k - 1) + (int k - 1)"
      by (auto simp: algebra_simps simp flip: of_nat_mult of_nat_div elim: dvdE)
    then have "(int y - 1) div int k = int y div int k - 1"
      by (rule int_div_pos_eq) (use that in auto)
    with True show ?thesis by simp
  next
    case False
    have "int y - 1 = int k * (int y div int k) + (int y mod int k - 1)" by simp
    moreover have "0 < int y mod int k" "int y mod int k < int k"
      using that False by (simp_all flip: of_nat_mod)
    ultimately have "(int y - 1) div int k = int y div int k"
      using int_div_pos_eq [of "int y - 1" "int k" "int y div int k" "int y mod int k - 1"] by simp
    with False show ?thesis by simp
  qed
  have dvd: "4 dvd y" if "100 dvd y" using that by (rule dvd_trans [rotated]) simp
  have dvd': "100 dvd y" if "400 dvd y" using that by (rule dvd_trans [rotated]) simp
  have lin: "365 * k + a - b + c - (365 * (k - 1) + a' - b' + c') = 365 + x - y + z"
    if "a' = a - x" "b' = b - y" "c' = c - z" for k a b c a' b' c' x y z :: int
    using that by simp
  have "year_days (int y) - year_days (int y - 1) =
      365 + (if 4 dvd y then 1 else 0) - (if 100 dvd y then 1 else 0) + (if 400 dvd y then 1 else 0)"
    using q [of 4] q [of 100] q [of 400] unfolding year_days_def mod_eq_0_iff_dvd
    by (intro lin) simp_all
  with dvd dvd' show ?thesis by (auto simp: is_leap_year_def mod_eq_0_iff_dvd)
qed

lemma month_days_table:
  "month_days 1 = 306" "month_days 2 = 337" "month_days 3 = 0" "month_days 4 = 31"
  "month_days 5 = 61" "month_days 6 = 92" "month_days 7 = 122" "month_days 8 = 153"
  "month_days 9 = 184" "month_days 10 = 214" "month_days 11 = 245" "month_days 12 = 275"
  by (simp_all add: month_days_def)

lemma month_cases:
  assumes "1 \<le> m" "m \<le> (12 :: nat)"
  obtains "m = 1" | "m = 2" | "m = 3" | "m = 4" | "m = 5" | "m = 6" | "m = 7" | "m = 8" | "m = 9"
    | "m = 10" | "m = 11" | "m = 12"
  using assms by (auto simp: numeral_eq_Suc le_Suc_eq)

text \<open>The first of a month is the day after the last of the month before.\<close>

lemma month_step:
  assumes "1 \<le> m" "m < 12"
  shows "year_days (int y - (if m + 1 \<le> 2 then 1 else 0)) + month_days (m + 1) =
    year_days (int y - (if m \<le> 2 then 1 else 0)) + month_days m + int (days_in_month y m)"
proof (rule month_cases [of m])
  show "m = 2 \<Longrightarrow> ?thesis"
    using year_days_step [of y] by (auto simp: days_in_month_def month_days_table)
qed (use assms in \<open>simp_all add: days_in_month_def month_days_table month_days_def [of "Suc _"]\<close>)

lemma next_day_serial:
  assumes "valid_date v" "year v + 1 < 2 ^ 16"
  shows "valid_date (next_day v) \<and> serial (next_day v) = serial v + 1 \<and> year (next_day v) \<le> year v + 1"
proof -
  consider "day v < days_in_month (year v) (month v)"
    | "day v = days_in_month (year v) (month v)" "month v < 12"
    | "day v = 31" "month v = 12"
    using assms by (fastforce simp: valid_date_def days_in_month_def)
  then show ?thesis
  proof cases
    case 1
    with assms show ?thesis by (simp add: next_day_def valid_date_def serial_def)
  next
    case 2
    moreover have "1 \<le> days_in_month (year v) (month v + 1)" by (simp add: days_in_month_def)
    ultimately show ?thesis
      using assms month_step [of "month v" "year v"]
      by (simp add: next_day_def valid_date_def serial_def)
  next
    case 3
    with assms show ?thesis
      by (simp add: next_day_def valid_date_def serial_def days_in_month_def month_days_def)
  qed
qed

text \<open>The first day the loops can reach without saturating the year.\<close>

definition first_day :: "oracle_date_time \<Rightarrow> bool" where
  "first_day v \<longleftrightarrow> year v = 0 \<and> month v = 1 \<and> day v = 1"

lemma prev_next_day:
  assumes "valid_date v" "year v + 1 < 2 ^ 16"
  shows "prev_day (next_day v) = v"
proof -
  consider "day v < days_in_month (year v) (month v)"
    | "day v = days_in_month (year v) (month v)" "month v < 12"
    | "day v = 31" "month v = 12"
    using assms by (fastforce simp: valid_date_def days_in_month_def)
  then show ?thesis
    by cases (use assms in \<open>auto simp: next_day_def prev_day_def valid_date_def days_in_month_def\<close>)
qed

lemma next_prev_day:
  assumes "valid_date v" "\<not> first_day v" "year v < 2 ^ 16"
  shows "next_day (prev_day v) = v" "valid_date (prev_day v)" "year (prev_day v) \<le> year v"
proof -
  have d: "1 \<le> days_in_month y m" for y m by (simp add: days_in_month_def)
  consider "1 < day v" | "day v = 1" "1 < month v" | "day v = 1" "month v = 1" "0 < year v"
    using assms by (fastforce simp: valid_date_def first_day_def)
  then show "next_day (prev_day v) = v" "valid_date (prev_day v)" "year (prev_day v) \<le> year v"
    by (cases, use assms d in \<open>auto simp: next_day_def prev_day_def valid_date_def\<close>)+
qed

lemma prev_day_serial:
  assumes "valid_date v" "\<not> first_day v" "year v < 2 ^ 16" "1 \<le> year v \<longrightarrow> year v + 1 < 2 ^ 16"
  shows "serial (prev_day v) = serial v - 1"
proof -
  note np = next_prev_day [OF assms(1-3)]
  have "year (prev_day v) + 1 < 2 ^ 16" using np(3) assms(3,4) by (cases "year v") auto
  with next_day_serial [OF np(2)] np(1) show ?thesis by simp
qed

section \<open>The loops move by days\<close>

text \<open>The part of a value the day loops do not touch.\<close>

definition same_clock :: "oracle_date_time \<Rightarrow> oracle_date_time \<Rightarrow> bool" where
  "same_clock v w \<longleftrightarrow>
     hour w = hour v \<and> minute w = minute v \<and> second w = second v \<and> nanosecond w = nanosecond v \<and>
     timezone_offset_minutes w = timezone_offset_minutes v \<and> timezone_region_id w = timezone_region_id v"

lemma same_clock_days: "same_clock v (next_day v)" "same_clock v (prev_day v)"
  by (simp_all add: same_clock_def next_day_def prev_day_def)

lemma next_days:
  assumes "valid_date v" "year v + n < 2 ^ 16"
  shows "valid_date ((next_day ^^ n) v) \<and> serial ((next_day ^^ n) v) = serial v + int n \<and>
    year ((next_day ^^ n) v) \<le> year v + n \<and> (prev_day ^^ n) ((next_day ^^ n) v) = v \<and>
    same_clock v ((next_day ^^ n) v)"
  using assms(2)
proof (induction n)
  case 0
  with assms(1) show ?case by (simp add: same_clock_def)
next
  case (Suc n)
  let ?w = "(next_day ^^ n) v"
  from Suc have w: "valid_date ?w" "serial ?w = serial v + int n" "year ?w + 1 < 2 ^ 16"
    "year ?w \<le> year v + n" "(prev_day ^^ n) ?w = v" "same_clock v ?w" by auto
  note step = next_day_serial [OF w(1,3)] prev_next_day [OF w(1,3)]
  have "(prev_day ^^ Suc n) (next_day ?w) = (prev_day ^^ n) ?w" by (simp only: funpow_Suc_right o_apply step)
  with w step same_clock_days(1) [of ?w] show ?case by (simp add: same_clock_def)
qed

definition origin :: int where
  "origin = - 719528"

lemma first_day_serial: "first_day v \<Longrightarrow> serial v = origin"
  by (simp add: first_day_def serial_def year_days_def month_days_def origin_def)

lemma prev_days:
  assumes "valid_date v" "origin \<le> serial v - int n" "year v + 1 < 2 ^ 16"
  shows "valid_date ((prev_day ^^ n) v) \<and> serial ((prev_day ^^ n) v) = serial v - int n \<and>
    year ((prev_day ^^ n) v) \<le> year v \<and> (next_day ^^ n) ((prev_day ^^ n) v) = v \<and>
    same_clock v ((prev_day ^^ n) v)"
  using assms(2)
proof (induction n)
  case 0
  with assms(1) show ?case by (simp add: same_clock_def)
next
  case (Suc n)
  let ?w = "(prev_day ^^ n) v"
  from Suc assms(3) have w: "valid_date ?w" "serial ?w = serial v - int n" "year ?w < 2 ^ 16"
    "year ?w \<le> year v" "(next_day ^^ n) ?w = v" "same_clock v ?w" by auto
  have f: "\<not> first_day ?w" using w(2) Suc(2) first_day_serial [of ?w] by auto
  note step = next_prev_day [OF w(1) f w(3)] prev_day_serial [OF w(1) f w(3)]
  have "(next_day ^^ Suc n) (prev_day ?w) = (next_day ^^ n) ?w" by (simp only: funpow_Suc_right o_apply step)
  with w step same_clock_days(2) [of ?w] assms(3) show ?case by (simp add: same_clock_def)
qed

lemma year_days_ge: "0 \<le> y \<Longrightarrow> 365 * y \<le> year_days y"
proof -
  assume y: "0 \<le> y"
  then have "y div 100 \<le> y div 4" "0 \<le> y div 400"
    by (simp_all add: zdiv_mono2 pos_imp_zdiv_nonneg_iff)
  then show ?thesis by (simp add: year_days_def)
qed

lemma serial_after_origin:
  assumes "valid_date v" "1 \<le> year v"
  shows "origin + 365 \<le> serial v"
proof -
  let ?y = "int (year v) - (if month v \<le> 2 then 1 else 0)"
  have "365 * ?y \<le> year_days ?y" using assms(2) by (intro year_days_ge) simp
  moreover have "month v \<le> 2 \<Longrightarrow> 306 \<le> month_days (month v)" "0 \<le> month_days (month v)"
    using assms(1) by (auto simp: month_days_def valid_date_def)
  ultimately show ?thesis
    using assms by (cases "month v \<le> 2") (auto simp: serial_def origin_def valid_date_def)
qed

lemma shift_date:
  assumes "valid_date v" "1 \<le> year v" "year v + 366 < 2 ^ 16" "\<bar>d\<bar> \<le> 365"
  shows "valid_date (shift_date_by_days v d)" "serial (shift_date_by_days v d) = serial v + d"
    "shift_date_by_days (shift_date_by_days v d) (- d) = v" "same_clock v (shift_date_by_days v d)"
proof -
  have "origin \<le> serial v - int (nat (- d))" if "d \<le> 0"
    using serial_after_origin [OF assms(1,2)] assms(4) that by simp
  with next_days [of v "nat d"] prev_days [of v "nat (- d)"] assms
  show "valid_date (shift_date_by_days v d)" "serial (shift_date_by_days v d) = serial v + d"
    "shift_date_by_days (shift_date_by_days v d) (- d) = v" "same_clock v (shift_date_by_days v d)"
    by (cases "0 < d"; simp add: shift_date_by_days_def; cases "d = 0"; simp)+
qed

section \<open>Zone offsets\<close>

lemma apply_timezone_offset_by:
  assumes "int (hour v) * 60 + int (minute v) + off = 1440 * q + r" "0 \<le> r" "r < 1440"
  shows "apply_timezone_offset v off =
    shift_date_by_days (v\<lparr>hour := nat (r div 60), minute := nat (r mod 60)\<rparr>) q"
proof -
  have "(1440 * q + r) div 1440 = q" "(1440 * q + r) mod 1440 = r" using assms(2,3) by simp_all
  with assms(1) show ?thesis by (simp add: apply_timezone_offset_def Let_def)
qed

definition ordinary :: "oracle_date_time \<Rightarrow> bool" where
  "ordinary v \<longleftrightarrow> valid_date v \<and> valid_time v \<and> 1 \<le> year v \<and> year v \<le> 9999"

lemma clock_update [simp]:
  "valid_date (v\<lparr>hour := h, minute := m\<rparr>) = valid_date v" "serial (v\<lparr>hour := h, minute := m\<rparr>) = serial v"
  by (simp_all add: valid_date_def serial_def)

lemma shift_date_clock:
  "shift_date_by_days (v\<lparr>hour := h, minute := m\<rparr>) d = (shift_date_by_days v d)\<lparr>hour := h, minute := m\<rparr>"
proof -
  have "next_day (v\<lparr>hour := h, minute := m\<rparr>) = (next_day v)\<lparr>hour := h, minute := m\<rparr>"
    "prev_day (v\<lparr>hour := h, minute := m\<rparr>) = (prev_day v)\<lparr>hour := h, minute := m\<rparr>" for v
    by (simp_all add: next_day_def prev_day_def)
  then have "(next_day ^^ n) (v\<lparr>hour := h, minute := m\<rparr>) = ((next_day ^^ n) v)\<lparr>hour := h, minute := m\<rparr>"
    "(prev_day ^^ n) (v\<lparr>hour := h, minute := m\<rparr>) = ((prev_day ^^ n) v)\<lparr>hour := h, minute := m\<rparr>" for n
    by (induction n) simp_all
  then show ?thesis by (simp add: shift_date_by_days_def)
qed

text \<open>The carry and the minute of the day an offset leads to, and what the day loops make of them.\<close>

lemma timezone_shift:
  assumes "ordinary v" "\<bar>off\<bar> \<le> 2 ^ 15"
  obtains q r w where "int (hour v) * 60 + int (minute v) + off = 1440 * q + r" "0 \<le> r" "r < 1440"
    "\<bar>q\<bar> \<le> 365" "apply_timezone_offset v off = w" "valid_date w" "serial w = serial v + q"
    "same_clock (v\<lparr>hour := nat (r div 60), minute := nat (r mod 60)\<rparr>) w"
    "shift_date_by_days w (- q) = v\<lparr>hour := nat (r div 60), minute := nat (r mod 60)\<rparr>"
proof -
  define t q r where "t = int (hour v) * 60 + int (minute v) + off" and "q = t div 1440"
    and "r = t mod 1440"
  have t: "int (hour v) * 60 + int (minute v) + off = 1440 * q + r" "0 \<le> r" "r < 1440"
    by (simp_all add: q_def r_def flip: t_def)
  have "- 32768 \<le> t" "t \<le> 24 * 60 + 60 + 32768"
    using assms by (auto simp: t_def ordinary_def valid_time_def)
  then have q: "\<bar>q\<bar> \<le> 365" by (simp add: q_def)
  let ?v = "v\<lparr>hour := nat (r div 60), minute := nat (r mod 60)\<rparr>"
  from assms q have "valid_date ?v" "1 \<le> year ?v" "year ?v + 366 < 2 ^ 16" "\<bar>q\<bar> \<le> 365"
    by (simp_all add: ordinary_def)
  note s = shift_date [OF this]
  show thesis
    using that [OF t q apply_timezone_offset_by [OF t] s(1) _ s(4,3)] s(2) by simp
qed

lemma clock_of_minutes:
  assumes "0 \<le> r" "r < (1440 :: int)"
  shows "int (nat (r div 60)) * 60 + int (nat (r mod 60)) = r" "nat (r div 60) < 24" "nat (r mod 60) < 60"
  using assms by auto

lemma apply_timezone_offset_valid:
  assumes "ordinary v" "\<bar>off\<bar> \<le> 2 ^ 15"
  shows "valid_date (apply_timezone_offset v off) \<and> valid_time (apply_timezone_offset v off)"
proof (use assms in \<open>rule timezone_shift\<close>)
  fix q r w
  assume "0 \<le> r" "r < 1440" "apply_timezone_offset v off = w" "valid_date w"
    "same_clock (v\<lparr>hour := nat (r div 60), minute := nat (r mod 60)\<rparr>) w"
  with clock_of_minutes [of r] assms(1)
  show ?thesis
    by (simp add: same_clock_def valid_time_def ordinary_def)
qed

lemma unix_time_shift:
  assumes "ordinary v" "\<bar>off\<bar> \<le> 2 ^ 15"
  shows "oracle_datetime_to_unix_seconds (apply_timezone_offset v off) =
    map_option (\<lambda>t. t + 60 * off) (oracle_datetime_to_unix_seconds v)"
proof (use assms in \<open>rule timezone_shift\<close>)
  fix q r w
  assume w: "int (hour v) * 60 + int (minute v) + off = 1440 * q + r" "0 \<le> r" "r < 1440"
    "apply_timezone_offset v off = w" "valid_date w" "serial w = serial v + q"
    "same_clock (v\<lparr>hour := nat (r div 60), minute := nat (r mod 60)\<rparr>) w"
  have "valid_date v" using assms(1) by (simp add: ordinary_def)
  moreover have "int (hour w) * 60 + int (minute w) = r" "second w = second v"
    using clock_of_minutes(1) [OF w(2,3)] w(7) by (simp_all add: same_clock_def)
  ultimately show ?thesis
    using w(1,4-6) by (simp add: oracle_datetime_to_unix_seconds_def days_from_civil_serial)
qed

text \<open>
  C34. The day-by-day loops and the closed calendar formula agree: moving a date and time by a zone
  offset of any 16-bit number of minutes, with its carry over days, months, leap days and years,
  moves its Unix time by exactly that many minutes.
\<close>

theorem timezone_shift_moves_unix_time:
  assumes "ordinary v" "\<bar>off\<bar> \<le> 2 ^ 15"
  shows "oracle_datetime_to_unix_seconds (apply_timezone_offset v off) =
    map_option (\<lambda>t. t + 60 * off) (oracle_datetime_to_unix_seconds v)"
  using assms by (rule unix_time_shift)

definition half_past_midnight :: oracle_date_time where
  "half_past_midnight = \<lparr>year = 2024, month = 3, day = 1, hour = 0, minute = 30, second = 5,
     nanosecond = 7, timezone_offset_minutes = Some 330, timezone_region_id = None\<rparr>"

lemma half_past_midnight_ordinary: "ordinary half_past_midnight"
  by (simp add: half_past_midnight_def ordinary_def valid_date_def valid_time_def days_in_month_def)

lemma timezone_shift_moves_unix_time_witness:
  "oracle_datetime_to_unix_seconds (apply_timezone_offset half_past_midnight (- 330)) =
    map_option (\<lambda>t. t + 60 * (- 330)) (oracle_datetime_to_unix_seconds half_past_midnight)"
  by (rule timezone_shift_moves_unix_time [OF half_past_midnight_ordinary]) simp

lemma apply_timezone_offset_inverse:
  assumes "ordinary v" "\<bar>off\<bar> \<le> 2 ^ 15"
  shows "apply_timezone_offset (apply_timezone_offset v off) (- off) = v"
proof (use assms in \<open>rule timezone_shift\<close>)
  fix q r w
  assume w: "int (hour v) * 60 + int (minute v) + off = 1440 * q + r" "0 \<le> r" "r < 1440"
    "apply_timezone_offset v off = w" "valid_date w" "serial w = serial v + q"
    "same_clock (v\<lparr>hour := nat (r div 60), minute := nat (r mod 60)\<rparr>) w"
    "shift_date_by_days w (- q) = v\<lparr>hour := nat (r div 60), minute := nat (r mod 60)\<rparr>"
  let ?m = "int (hour v) * 60 + int (minute v)"
  have m: "0 \<le> ?m" "?m < 1440" "?m div 60 = int (hour v)" "?m mod 60 = int (minute v)"
    using assms(1) by (simp_all add: ordinary_def valid_time_def)
  have "int (hour w) * 60 + int (minute w) + - off = 1440 * (- q) + ?m"
    using clock_of_minutes(1) [OF w(2,3)] w(1,7) by (simp add: same_clock_def)
  from apply_timezone_offset_by [OF this m(1,2)] m(3,4) w(4,8)
  show ?thesis by (simp add: shift_date_clock)
qed

text \<open>An offset moves the year by at most one.\<close>

definition new_year :: "nat \<Rightarrow> int" where
  "new_year y = year_days (int y - 1) - 719162"

lemma serial_in_year:
  assumes "valid_date v"
  shows "new_year (year v) \<le> serial v" "serial v < new_year (year v + 1)"
proof -
  have m: "1 \<le> month v" "month v \<le> 12" using assms by (simp_all add: valid_date_def)
  from m assms year_days_step [of "year v"]
  show "new_year (year v) \<le> serial v" "serial v < new_year (year v + 1)"
    by (cases rule: month_cases [OF m];
        simp add: valid_date_def serial_def new_year_def month_days_table month_days_def
          days_in_month_def split: if_splits)+
qed

lemma new_year_step: "new_year y + 365 \<le> new_year (y + 1)"
  using year_days_step [of y] by (simp add: new_year_def split: if_splits)

lemma new_year_mono: "y \<le> z \<Longrightarrow> new_year y \<le> new_year z"
proof (induction z rule: dec_induct)
  case (step n)
  then show ?case using new_year_step [of n] by simp
qed simp

lemma near_dates_near_years:
  assumes "valid_date v" "valid_date w" "serial w \<le> serial v + 365"
  shows "year w \<le> year v + 1"
proof (rule ccontr)
  assume "\<not> year w \<le> year v + 1"
  then have "new_year (year v + 2) \<le> serial w"
    using serial_in_year(1) [OF assms(2)] new_year_mono [of "year v + 2" "year w"] by simp
  with serial_in_year(2) [OF assms(1)] new_year_step [of "year v + 1"] assms(3) show False by simp
qed

lemma apply_timezone_offset_year:
  assumes "ordinary v" "\<bar>off\<bar> \<le> 2 ^ 15"
  shows "year (apply_timezone_offset v off) \<le> year v + 1" "year v \<le> year (apply_timezone_offset v off) + 1"
proof -
  have "valid_date v" using assms(1) by (simp add: ordinary_def)
  moreover obtain q w where "apply_timezone_offset v off = w" "valid_date w"
    "serial w = serial v + q" "\<bar>q\<bar> \<le> 365"
    using assms by (rule timezone_shift) blast
  ultimately show "year (apply_timezone_offset v off) \<le> year v + 1"
    "year v \<le> year (apply_timezone_offset v off) + 1"
    using near_dates_near_years [of v w] near_dates_near_years [of w v] by auto
qed

end
