(* ===== verification/Thin_Zones.thy ===== *)
theory Thin_Zones
  imports Thin_Calendar
begin

text \<open>
  Time-zone regions of the thin driver: the table of region names
  (\<^verbatim>\<open>crates/tns-thin/src/oracle_zones.rs\<close>), the reader of compiled zone files and the offset a zone
  has at an instant (\<^verbatim>\<open>session.rs\<close>). The zone files of the host are a parameter, a function from a
  path to the bytes of a file.
\<close>

section \<open>Region names\<close>

definition african_zones :: "(nat \<times> string) list" where
  "african_zones =
     [(42, ''Africa/Abidjan''), (50, ''Africa/Accra''), (47, ''Africa/Addis_Ababa''),
      (30, ''Africa/Algiers''), (46, ''Africa/Asmara''), (558, ''Africa/Asmera''),
      (58, ''Africa/Bamako''), (37, ''Africa/Bangui''), (49, ''Africa/Banjul''),
      (52, ''Africa/Bissau''), (57, ''Africa/Blantyre''), (41, ''Africa/Brazzaville''),
      (35, ''Africa/Bujumbura''), (44, ''Africa/Cairo''), (61, ''Africa/Casablanca''),
      (81, ''Africa/Ceuta''), (51, ''Africa/Conakry''), (69, ''Africa/Dakar''),
      (75, ''Africa/Dar_es_Salaam''), (43, ''Africa/Djibouti''), (36, ''Africa/Douala''),
      (62, ''Africa/El_Aaiun''), (70, ''Africa/Freetown''), (33, ''Africa/Gaborone''),
      (80, ''Africa/Harare''), (72, ''Africa/Johannesburg''), (321, ''Africa/Juba''),
      (78, ''Africa/Kampala''), (73, ''Africa/Khartoum''), (67, ''Africa/Kigali''),
      (39, ''Africa/Kinshasa''), (66, ''Africa/Lagos''), (48, ''Africa/Libreville''),
      (76, ''Africa/Lome''), (31, ''Africa/Luanda''), (40, ''Africa/Lubumbashi''),
      (79, ''Africa/Lusaka''), (45, ''Africa/Malabo''), (63, ''Africa/Maputo''),
      (54, ''Africa/Maseru''), (74, ''Africa/Mbabane''), (71, ''Africa/Mogadishu''),
      (55, ''Africa/Monrovia''), (53, ''Africa/Nairobi''), (38, ''Africa/Ndjamena''),
      (65, ''Africa/Niamey''), (60, ''Africa/Nouakchott''), (34, ''Africa/Ouagadougou''),
      (32, ''Africa/Porto-Novo''), (68, ''Africa/Sao_Tome''), (570, ''Africa/Timbuktu''),
      (56, ''Africa/Tripoli''), (77, ''Africa/Tunis''), (64, ''Africa/Windhoek'')]"

definition other_zones :: "(nat \<times> string) list" where
  "other_zones =
     [(108, ''America/Adak''), (106, ''America/Anchorage''), (146, ''America/Anguilla''),
      (147, ''America/Antigua''), (186, ''America/Araguaina''),
      (687, ''America/Argentina/Buenos_Aires''), (691, ''America/Argentina/Catamarca''),
      (1203, ''America/Argentina/ComodRivadavia''), (689, ''America/Argentina/Cordoba''),
      (690, ''America/Argentina/Jujuy''), (99, ''America/Argentina/La_Rioja''),
      (692, ''America/Argentina/Mendoza''), (98, ''America/Argentina/Rio_Gallegos''),
      (237, ''America/Argentina/Salta''), (229, ''America/Argentina/San_Juan''),
      (97, ''America/Argentina/San_Luis''), (228, ''America/Argentina/Tucuman''),
      (176, ''America/Argentina/Ushuaia''), (181, ''America/Aruba''), (200, ''America/Asuncion''),
      (221, ''America/Atikokan''), (620, ''America/Atka''), (90, ''America/Bahia''),
      (95, ''America/Bahia_Banderas''), (149, ''America/Barbados''), (184, ''America/Belem''),
      (150, ''America/Belize''), (224, ''America/Blanc-Sablon''), (191, ''America/Boa_Vista''),
      (195, ''America/Bogota''), (110, ''America/Boise''), (175, ''America/Buenos_Aires''),
      (135, ''America/Cambridge_Bay''), (222, ''America/Campo_Grande''), (140, ''America/Cancun''),
      (205, ''America/Caracas''), (179, ''America/Catamarca''), (198, ''America/Cayenne''),
      (151, ''America/Cayman''), (101, ''America/Chicago''), (142, ''America/Chihuahua''),
      (733, ''America/Coral_Harbour''), (177, ''America/Cordoba''), (152, ''America/Costa_Rica''),
      (325, ''America/Creston''), (189, ''America/Cuiaba''), (196, ''America/Curacao''),
      (223, ''America/Danmarkshavn''), (139, ''America/Dawson''), (131, ''America/Dawson_Creek''),
      (102, ''America/Denver''), (116, ''America/Detroit''), (154, ''America/Dominica''),
      (129, ''America/Edmonton''), (225, ''America/Eirunepe''), (156, ''America/El_Salvador''),
      (657, ''America/Ensenada''), (343, ''America/Fort_Nelson''), (623, ''America/Fort_Wayne''),
      (185, ''America/Fortaleza''), (121, ''America/Glace_Bay''), (207, ''America/Godthab''),
      (119, ''America/Goose_Bay''), (172, ''America/Grand_Turk''), (157, ''America/Grenada''),
      (158, ''America/Guadeloupe''), (159, ''America/Guatemala''), (197, ''America/Guayaquil''),
      (199, ''America/Guyana''), (120, ''America/Halifax''), (153, ''America/Havana''),
      (143, ''America/Hermosillo''), (1647, ''America/Indiana/Indianapolis''),
      (113, ''America/Indiana/Knox''), (112, ''America/Indiana/Marengo''),
      (210, ''America/Indiana/Petersburg''), (94, ''America/Indiana/Tell_City''),
      (114, ''America/Indiana/Vevay''), (209, ''America/Indiana/Vincennes''),
      (218, ''America/Indiana/Winamac''), (111, ''America/Indianapolis''),
      (137, ''America/Inuvik''), (133, ''America/Iqaluit''), (162, ''America/Jamaica''),
      (178, ''America/Jujuy''), (104, ''America/Juneau''), (627, ''America/Kentucky/Louisville''),
      (91, ''America/Kentucky/Monticello''), (625, ''America/Knox_IN''),
      (323, ''America/Kralendijk''), (182, ''America/La_Paz''), (201, ''America/Lima''),
      (103, ''America/Los_Angeles''), (115, ''America/Louisville''),
      (322, ''America/Lower_Princes''), (187, ''America/Maceio''), (165, ''America/Managua''),
      (192, ''America/Manaus''), (670, ''America/Marigot''), (163, ''America/Martinique''),
      (87, ''America/Matamoros''), (144, ''America/Mazatlan''), (180, ''America/Mendoza''),
      (117, ''America/Menominee''), (226, ''America/Merida''), (319, ''America/Metlakatla''),
      (141, ''America/Mexico_City''), (170, ''America/Miquelon''), (92, ''America/Moncton''),
      (227, ''America/Monterrey''), (204, ''America/Montevideo''), (122, ''America/Montreal''),
      (164, ''America/Montserrat''), (148, ''America/Nassau''), (100, ''America/New_York''),
      (124, ''America/Nipigon''), (107, ''America/Nome''), (183, ''America/Noronha''),
      (320, ''America/North_Dakota/Beulah''), (88, ''America/North_Dakota/Center''),
      (89, ''America/North_Dakota/New_Salem''), (93, ''America/Ojinaga''),
      (166, ''America/Panama''), (132, ''America/Pangnirtung''), (202, ''America/Paramaribo''),
      (109, ''America/Phoenix''), (160, ''America/Port-au-Prince''),
      (203, ''America/Port_of_Spain''), (193, ''America/Porto_Acre''),
      (190, ''America/Porto_Velho''), (167, ''America/Puerto_Rico''),
      (394, ''America/Punta_Arenas''), (125, ''America/Rainy_River''),
      (134, ''America/Rankin_Inlet''), (86, ''America/Recife''), (127, ''America/Regina''),
      (219, ''America/Resolute''), (1217, ''America/Rio_Branco''), (1201, ''America/Rosario''),
      (96, ''America/Santa_Isabel''), (83, ''America/Santarem''), (194, ''America/Santiago''),
      (155, ''America/Santo_Domingo''), (188, ''America/Sao_Paulo''),
      (206, ''America/Scoresbysund''), (1638, ''America/Shiprock''), (318, ''America/Sitka''),
      (1182, ''America/St_Barthelemy''), (118, ''America/St_Johns''), (168, ''America/St_Kitts''),
      (169, ''America/St_Lucia''), (174, ''America/St_Thomas''), (171, ''America/St_Vincent''),
      (128, ''America/Swift_Current''), (161, ''America/Tegucigalpa''), (208, ''America/Thule''),
      (123, ''America/Thunder_Bay''), (145, ''America/Tijuana''), (220, ''America/Toronto''),
      (173, ''America/Tortola''), (130, ''America/Vancouver''), (686, ''America/Virgin''),
      (138, ''America/Whitehorse''), (126, ''America/Winnipeg''), (105, ''America/Yakutat''),
      (136, ''America/Yellowknife''), (230, ''Antarctica/Casey''), (231, ''Antarctica/Davis''),
      (233, ''Antarctica/DumontDUrville''), (85, ''Antarctica/Macquarie''),
      (232, ''Antarctica/Mawson''), (236, ''Antarctica/McMurdo''), (235, ''Antarctica/Palmer''),
      (82, ''Antarctica/Rothera''), (748, ''Antarctica/South_Pole''), (234, ''Antarctica/Syowa''),
      (329, ''Antarctica/Troll''), (59, ''Antarctica/Vostok''), (909, ''Arctic/Longyearbyen''),
      (302, ''Asia/Aden''), (269, ''Asia/Almaty''), (268, ''Asia/Amman''), (312, ''Asia/Anadyr''),
      (271, ''Asia/Aqtau''), (270, ''Asia/Aqtobe''), (297, ''Asia/Ashgabat''),
      (809, ''Asia/Ashkhabad''), (363, ''Asia/Atyrau''), (265, ''Asia/Baghdad''),
      (243, ''Asia/Bahrain''), (242, ''Asia/Baku''), (296, ''Asia/Bangkok''),
      (359, ''Asia/Barnaul''), (277, ''Asia/Beirut''), (272, ''Asia/Bishkek''),
      (246, ''Asia/Brunei''), (260, ''Asia/Calcutta''), (335, ''Asia/Chita''),
      (316, ''Asia/Choibalsan''), (763, ''Asia/Chongqing''), (251, ''Asia/Chungking''),
      (293, ''Asia/Colombo''), (244, ''Asia/Dacca''), (294, ''Asia/Damascus''),
      (756, ''Asia/Dhaka''), (259, ''Asia/Dili''), (298, ''Asia/Dubai''), (295, ''Asia/Dushanbe''),
      (362, ''Asia/Famagusta''), (285, ''Asia/Gaza''), (249, ''Asia/Harbin''),
      (324, ''Asia/Hebron''), (813, ''Asia/Ho_Chi_Minh''), (254, ''Asia/Hong_Kong''),
      (280, ''Asia/Hovd''), (307, ''Asia/Irkutsk''), (1431, ''Asia/Istanbul''),
      (261, ''Asia/Jakarta''), (263, ''Asia/Jayapura''), (266, ''Asia/Jerusalem''),
      (240, ''Asia/Kabul''), (311, ''Asia/Kamchatka''), (284, ''Asia/Karachi''),
      (253, ''Asia/Kashgar''), (797, ''Asia/Kathmandu''), (282, ''Asia/Katmandu''),
      (326, ''Asia/Khandyga''), (772, ''Asia/Kolkata''), (306, ''Asia/Krasnoyarsk''),
      (278, ''Asia/Kuala_Lumpur''), (279, ''Asia/Kuching''), (275, ''Asia/Kuwait''),
      (256, ''Asia/Macao''), (768, ''Asia/Macau''), (310, ''Asia/Magadan''),
      (774, ''Asia/Makassar''), (286, ''Asia/Manila''), (283, ''Asia/Muscat''),
      (257, ''Asia/Nicosia''), (84, ''Asia/Novokuznetsk''), (305, ''Asia/Novosibirsk''),
      (304, ''Asia/Omsk''), (315, ''Asia/Oral''), (248, ''Asia/Phnom_Penh''),
      (313, ''Asia/Pontianak''), (274, ''Asia/Pyongyang''), (287, ''Asia/Qatar''),
      (314, ''Asia/Qyzylorda''), (247, ''Asia/Rangoon''), (288, ''Asia/Riyadh''),
      (301, ''Asia/Saigon''), (317, ''Asia/Sakhalin''), (299, ''Asia/Samarkand''),
      (273, ''Asia/Seoul''), (250, ''Asia/Shanghai''), (292, ''Asia/Singapore''),
      (341, ''Asia/Srednekolymsk''), (255, ''Asia/Taipei''), (300, ''Asia/Tashkent''),
      (258, ''Asia/Tbilisi''), (264, ''Asia/Tehran''), (778, ''Asia/Tel_Aviv''),
      (757, ''Asia/Thimbu''), (245, ''Asia/Thimphu''), (267, ''Asia/Tokyo''),
      (360, ''Asia/Tomsk''), (262, ''Asia/Ujung_Pandang''), (281, ''Asia/Ulaanbaatar''),
      (793, ''Asia/Ulan_Bator''), (252, ''Asia/Urumqi''), (327, ''Asia/Ust-Nera''),
      (276, ''Asia/Vientiane''), (309, ''Asia/Vladivostok''), (308, ''Asia/Yakutsk''),
      (361, ''Asia/Yangon''), (303, ''Asia/Yekaterinburg''), (241, ''Asia/Yerevan''),
      (336, ''Atlantic/Azores''), (330, ''Atlantic/Bermuda''), (338, ''Atlantic/Canary''),
      (339, ''Atlantic/Cape_Verde''), (845, ''Atlantic/Faeroe''), (333, ''Atlantic/Faroe''),
      (1421, ''Atlantic/Jan_Mayen''), (337, ''Atlantic/Madeira''), (334, ''Atlantic/Reykjavik''),
      (332, ''Atlantic/South_Georgia''), (340, ''Atlantic/St_Helena''),
      (331, ''Atlantic/Stanley''), (864, ''Australia/ACT''), (349, ''Australia/Adelaide''),
      (347, ''Australia/Brisbane''), (353, ''Australia/Broken_Hill''),
      (1376, ''Australia/Canberra''), (355, ''Australia/Currie''), (345, ''Australia/Darwin''),
      (356, ''Australia/Eucla''), (350, ''Australia/Hobart''), (866, ''Australia/LHI''),
      (348, ''Australia/Lindeman''), (354, ''Australia/Lord_Howe''),
      (351, ''Australia/Melbourne''), (857, ''Australia/North''), (1888, ''Australia/NSW''),
      (346, ''Australia/Perth''), (859, ''Australia/Queensland''), (861, ''Australia/South''),
      (352, ''Australia/Sydney''), (862, ''Australia/Tasmania''), (863, ''Australia/Victoria''),
      (858, ''Australia/West''), (865, ''Australia/Yancowinna''), (705, ''Brazil/Acre''),
      (695, ''Brazil/DeNoronha''), (700, ''Brazil/East''), (704, ''Brazil/West''),
      (632, ''Canada/Atlantic''), (638, ''Canada/Central''), (639, ''Canada/East-Saskatchewan''),
      (634, ''Canada/Eastern''), (641, ''Canada/Mountain''), (630, ''Canada/Newfoundland''),
      (642, ''Canada/Pacific''), (1151, ''Canada/Saskatchewan''), (650, ''Canada/Yukon''),
      (366, ''CET''), (706, ''Chile/Continental''), (963, ''Chile/EasterIsland''), (1637, ''CST''),
      (215, ''CST6CDT''), (665, ''Cuba''), (368, ''EET''), (556, ''Egypt''), (883, ''Eire''),
      (211, ''EST''), (214, ''EST5EDT''), (1, ''Etc/GMT''), (1025, ''Etc/GMT+0''),
      (16, ''Etc/GMT+1''), (25, ''Etc/GMT+10''), (26, ''Etc/GMT+11''), (27, ''Etc/GMT+12''),
      (17, ''Etc/GMT+2''), (18, ''Etc/GMT+3''), (19, ''Etc/GMT+4''), (20, ''Etc/GMT+5''),
      (21, ''Etc/GMT+6''), (22, ''Etc/GMT+7''), (23, ''Etc/GMT+8''), (24, ''Etc/GMT+9''),
      (3073, ''Etc/GMT0''), (2049, ''Etc/GMT-0''), (15, ''Etc/GMT-1''), (6, ''Etc/GMT-10''),
      (5, ''Etc/GMT-11''), (4, ''Etc/GMT-12''), (3, ''Etc/GMT-13''), (2, ''Etc/GMT-14''),
      (14, ''Etc/GMT-2''), (13, ''Etc/GMT-3''), (12, ''Etc/GMT-4''), (11, ''Etc/GMT-5''),
      (10, ''Etc/GMT-6''), (9, ''Etc/GMT-7''), (8, ''Etc/GMT-8''), (7, ''Etc/GMT-9''),
      (4097, ''Etc/Greenwich''), (29, ''Etc/UCT''), (540, ''Etc/Universal''), (28, ''Etc/UTC''),
      (1564, ''Etc/Zulu''), (396, ''Europe/Amsterdam''), (373, ''Europe/Andorra''),
      (344, ''Europe/Astrakhan''), (385, ''Europe/Athens''), (370, ''Europe/Belfast''),
      (412, ''Europe/Belgrade''), (383, ''Europe/Berlin''), (890, ''Europe/Bratislava''),
      (376, ''Europe/Brussels''), (400, ''Europe/Bucharest''), (386, ''Europe/Budapest''),
      (328, ''Europe/Busingen''), (393, ''Europe/Chisinau''), (379, ''Europe/Copenhagen''),
      (371, ''Europe/Dublin''), (384, ''Europe/Gibraltar''), (2417, ''Europe/Guernsey''),
      (381, ''Europe/Helsinki''), (2929, ''Europe/Isle_of_Man''), (407, ''Europe/Istanbul''),
      (1905, ''Europe/Jersey''), (401, ''Europe/Kaliningrad''), (408, ''Europe/Kiev''),
      (357, ''Europe/Kirov''), (399, ''Europe/Lisbon''), (924, ''Europe/Ljubljana''),
      (369, ''Europe/London''), (391, ''Europe/Luxembourg''), (404, ''Europe/Madrid''),
      (392, ''Europe/Malta''), (893, ''Europe/Mariehamn''), (375, ''Europe/Minsk''),
      (395, ''Europe/Monaco''), (402, ''Europe/Moscow''), (769, ''Europe/Nicosia''),
      (397, ''Europe/Oslo''), (382, ''Europe/Paris''), (2972, ''Europe/Podgorica''),
      (378, ''Europe/Prague''), (388, ''Europe/Riga''), (387, ''Europe/Rome''),
      (403, ''Europe/Samara''), (1411, ''Europe/San_Marino''), (1436, ''Europe/Sarajevo''),
      (364, ''Europe/Saratov''), (411, ''Europe/Simferopol''), (1948, ''Europe/Skopje''),
      (377, ''Europe/Sofia''), (405, ''Europe/Stockholm''), (380, ''Europe/Tallinn''),
      (372, ''Europe/Tirane''), (905, ''Europe/Tiraspol''), (358, ''Europe/Ulyanovsk''),
      (409, ''Europe/Uzhgorod''), (389, ''Europe/Vaduz''), (899, ''Europe/Vatican''),
      (374, ''Europe/Vienna''), (390, ''Europe/Vilnius''), (413, ''Europe/Volgograd''),
      (398, ''Europe/Warsaw''), (2460, ''Europe/Zagreb''), (410, ''Europe/Zaporozhye''),
      (406, ''Europe/Zurich''), (881, ''GB''), (1393, ''GB-Eire''), (513, ''GMT''),
      (1537, ''GMT+0''), (3585, ''GMT0''), (2561, ''GMT-0''), (4609, ''Greenwich''),
      (766, ''Hongkong''), (213, ''HST''), (846, ''Iceland''), (438, ''Indian/Antananarivo''),
      (436, ''Indian/Chagos''), (439, ''Indian/Christmas''), (440, ''Indian/Cocos''),
      (441, ''Indian/Comoro''), (435, ''Indian/Kerguelen''), (442, ''Indian/Mahe''),
      (437, ''Indian/Maldives''), (443, ''Indian/Mauritius''), (444, ''Indian/Mayotte''),
      (445, ''Indian/Reunion''), (776, ''Iran''), (1290, ''Israel''), (674, ''Jamaica''),
      (779, ''Japan''), (976, ''Kwajalein''), (568, ''Libya''), (367, ''MET''),
      (1169, ''Mexico/BajaNorte''), (656, ''Mexico/BajaSur''), (653, ''Mexico/General''),
      (212, ''MST''), (216, ''MST7MDT''), (614, ''Navajo''), (983, ''NZ''), (984, ''NZ-CHAT''),
      (479, ''Pacific/Apia''), (471, ''Pacific/Auckland''), (342, ''Pacific/Bougainville''),
      (472, ''Pacific/Chatham''), (238, ''Pacific/Chuuk''), (451, ''Pacific/Easter''),
      (488, ''Pacific/Efate''), (460, ''Pacific/Enderbury''), (482, ''Pacific/Fakaofo''),
      (454, ''Pacific/Fiji''), (484, ''Pacific/Funafuti''), (452, ''Pacific/Galapagos''),
      (455, ''Pacific/Gambier''), (481, ''Pacific/Guadalcanal''), (458, ''Pacific/Guam''),
      (450, ''Pacific/Honolulu''), (485, ''Pacific/Johnston''), (461, ''Pacific/Kiritimati''),
      (468, ''Pacific/Kosrae''), (464, ''Pacific/Kwajalein''), (463, ''Pacific/Majuro''),
      (456, ''Pacific/Marquesas''), (486, ''Pacific/Midway''), (469, ''Pacific/Nauru''),
      (473, ''Pacific/Niue''), (474, ''Pacific/Norfolk''), (470, ''Pacific/Noumea''),
      (478, ''Pacific/Pago_Pago''), (475, ''Pacific/Palau''), (477, ''Pacific/Pitcairn''),
      (239, ''Pacific/Pohnpei''), (467, ''Pacific/Ponape''), (476, ''Pacific/Port_Moresby''),
      (453, ''Pacific/Rarotonga''), (462, ''Pacific/Saipan''), (1502, ''Pacific/Samoa''),
      (457, ''Pacific/Tahiti''), (459, ''Pacific/Tarawa''), (483, ''Pacific/Tongatapu''),
      (466, ''Pacific/Truk''), (487, ''Pacific/Wake''), (489, ''Pacific/Wallis''),
      (978, ''Pacific/Yap''), (910, ''Poland''), (911, ''Portugal''), (762, ''PRC''),
      (2151, ''PST''), (217, ''PST8PDT''), (767, ''ROC''), (785, ''ROK''), (804, ''Singapore''),
      (919, ''Turkey''), (541, ''UCT''), (1052, ''Universal''), (618, ''US/Alaska''),
      (1132, ''US/Aleutian''), (621, ''US/Arizona''), (613, ''US/Central''),
      (1135, ''US/East-Indiana''), (612, ''US/Eastern''), (962, ''US/Hawaii''),
      (1137, ''US/Indiana-Starke''), (628, ''US/Michigan''), (1126, ''US/Mountain''),
      (615, ''US/Pacific''), (1639, ''US/Pacific-New''), (990, ''US/Samoa''), (5121, ''UTC''),
      (914, ''W-SU''), (365, ''WET''), (2076, ''Zulu'')]"

definition oracle_zones :: "(nat \<times> string) list" where
  "oracle_zones = african_zones @ other_zones"

definition oracle_zone_name :: "16 word \<Rightarrow> string option" where
  "oracle_zone_name region_id = map_of oracle_zones (unat region_id)"

section \<open>Zone files\<close>

record zone_info =
  transitions :: "(int \<times> nat) list"
  offsets :: "int list"

text \<open>\<^verbatim>\<open>slice.get(a..b)\<close>\<close>

definition get_range :: "byte list \<Rightarrow> nat \<Rightarrow> nat \<Rightarrow> byte list option" where
  "get_range bs a b = (if a \<le> b \<and> b \<le> length bs then Some (drop a (take b bs)) else None)"

definition read_tzif_u32 :: "byte list \<Rightarrow> nat \<Rightarrow> (nat \<times> nat) option" where
  "read_tzif_u32 bs pos = map_option (\<lambda>raw. (be_nat raw, pos + 4)) (get_range bs pos (pos + 4))"

definition read_tzif_i32 :: "byte list \<Rightarrow> nat \<Rightarrow> (int \<times> nat) option" where
  "read_tzif_i32 bs pos =
     map_option (\<lambda>(v, pos). (sint (word_of_nat v :: 32 word), pos)) (read_tzif_u32 bs pos)"

definition read_tzif_i64 :: "byte list \<Rightarrow> nat \<Rightarrow> (int \<times> nat) option" where
  "read_tzif_i64 bs pos =
     map_option (\<lambda>raw. (sint (word_of_nat (be_nat raw) :: 64 word), pos + 8))
       (get_range bs pos (pos + 8))"

text \<open>The two counted loops of \<^verbatim>\<open>parse_tzif_section\<close>.\<close>

fun read_times :: "nat \<Rightarrow> byte list \<Rightarrow> nat \<Rightarrow> nat \<Rightarrow> (int list \<times> nat) option" where
  "read_times time_size bs pos 0 = Some ([], pos)"
| "read_times time_size bs pos (Suc n) =
     Option.bind (if time_size = 8 then read_tzif_i64 bs pos else read_tzif_i32 bs pos) (\<lambda>(t, pos).
       map_option (\<lambda>(ts, pos). (t # ts, pos)) (read_times time_size bs pos n))"

fun read_offsets :: "byte list \<Rightarrow> nat \<Rightarrow> nat \<Rightarrow> (int list \<times> nat) option" where
  "read_offsets bs pos 0 = Some ([], pos)"
| "read_offsets bs pos (Suc n) =
     Option.bind (read_tzif_i32 bs pos) (\<lambda>(t, pos).
       map_option (\<lambda>(ts, pos). (t # ts, pos)) (read_offsets bs (pos + 2) n))"

definition parse_tzif_section :: "byte list \<Rightarrow> nat \<Rightarrow> nat \<Rightarrow> (zone_info \<times> nat) option" where
  "parse_tzif_section bs start time_size =
     Option.bind (get_range bs start (start + 4)) (\<lambda>magic.
     if magic \<noteq> map (word_of_nat \<circ> of_char) ''TZif'' then None
     else
       Option.bind (read_tzif_u32 bs (start + 20)) (\<lambda>(ttisgmtcnt, pos).
       Option.bind (read_tzif_u32 bs pos) (\<lambda>(ttisstdcnt, pos).
       Option.bind (read_tzif_u32 bs pos) (\<lambda>(leapcnt, pos).
       Option.bind (read_tzif_u32 bs pos) (\<lambda>(timecnt, pos).
       Option.bind (read_tzif_u32 bs pos) (\<lambda>(typecnt, pos).
       Option.bind (read_tzif_u32 bs pos) (\<lambda>(charcnt, pos).
       Option.bind (read_times time_size bs pos timecnt) (\<lambda>(transition_times, pos).
       Option.bind (get_range bs pos (pos + timecnt)) (\<lambda>transition_indices.
       Option.bind (read_offsets bs (pos + timecnt) typecnt) (\<lambda>(offs, pos).
         let pos = pos + charcnt + leapcnt * (time_size + 4) + ttisstdcnt + ttisgmtcnt
         in map_option
              (\<lambda>_. (\<lparr>transitions = zip transition_times (map unat transition_indices),
                      offsets = offs\<rparr>, pos))
              (get_range bs (pos - 1) pos)))))))))))"

definition parse_tzif :: "byte list \<Rightarrow> zone_info option" where
  "parse_tzif bs =
     Option.bind (parse_tzif_section bs 0 4) (\<lambda>(first_info, next_offset).
       if 4 < length bs \<and> bs ! 4 \<in> {0x32, 0x33, 0x34}
       then map_option fst (parse_tzif_section bs next_offset 8)
       else Some first_info)"

definition load_zone_info :: "(string \<Rightarrow> byte list option) \<Rightarrow> string \<Rightarrow> zone_info option" where
  "load_zone_info zone_file zone_name =
     (case Option.bind (zone_file (''/usr/share/zoneinfo/'' @ zone_name)) parse_tzif of
        Some info \<Rightarrow> Some info
      | None \<Rightarrow> Option.bind (zone_file (''/var/db/timezone/zoneinfo/'' @ zone_name)) parse_tzif)"

text \<open>The process-wide cache also remembers that a zone could not be loaded.\<close>

definition cached_zone_info ::
    "(string \<Rightarrow> byte list option) \<Rightarrow> (string \<rightharpoonup> zone_info option) \<Rightarrow> string \<Rightarrow>
     zone_info option \<times> (string \<rightharpoonup> zone_info option)" where
  "cached_zone_info zone_file cache zone_name =
     (case cache zone_name of
        Some info \<Rightarrow> (info, cache)
      | None \<Rightarrow>
          (let info = load_zone_info zone_file zone_name in (info, cache(zone_name \<mapsto> info))))"

definition coherent_cache ::
    "(string \<Rightarrow> byte list option) \<Rightarrow> (string \<rightharpoonup> zone_info option) \<Rightarrow> bool" where
  "coherent_cache zone_file cache \<longleftrightarrow>
     (\<forall>name info. cache name = Some info \<longrightarrow> info = load_zone_info zone_file name)"

lemma cached_zone_info_coherent:
  assumes "coherent_cache zone_file cache"
  shows "fst (cached_zone_info zone_file cache name) = load_zone_info zone_file name \<and>
    coherent_cache zone_file (snd (cached_zone_info zone_file cache name))"
  using assms by (auto simp: cached_zone_info_def coherent_cache_def Let_def split: option.split)

section \<open>Offsets\<close>

text \<open>
  \<^verbatim>\<open>partition_point\<close> is given its meaning on a partitioned slice, which the transitions of a zone
  file are.
\<close>

definition offset_at :: "zone_info \<Rightarrow> int \<Rightarrow> int option" where
  "offset_at info unix_seconds =
     (let after = length (takeWhile (\<lambda>(transition, _). transition \<le> unix_seconds) (transitions info));
          type_index = (if after = 0 then 0 else snd (transitions info ! (after - 1)))
      in if type_index < length (offsets info) then Some (offsets info ! type_index) else None)"

definition to_i16 :: "int \<Rightarrow> int option" where
  "to_i16 x = (if - (2 ^ 15) \<le> x \<and> x < 2 ^ 15 then Some x else None)"

definition timezone_region_offset_minutes ::
    "(string \<Rightarrow> zone_info option) \<Rightarrow> 16 word \<Rightarrow> oracle_date_time \<Rightarrow> int option" where
  "timezone_region_offset_minutes zones region_id v =
     Option.bind (oracle_zone_name region_id) (\<lambda>zone_name.
     Option.bind (oracle_datetime_to_unix_seconds v) (\<lambda>unix_seconds.
     Option.bind (zones zone_name) (\<lambda>info.
     Option.bind (offset_at info unix_seconds) (\<lambda>offset_seconds.
       to_i16 (offset_seconds sdiv 60)))))"

definition timezone_region_local_offset_minutes ::
    "(string \<Rightarrow> zone_info option) \<Rightarrow> 16 word \<Rightarrow> oracle_date_time \<Rightarrow> int option" where
  "timezone_region_local_offset_minutes zones region_id v =
     Option.bind (oracle_zone_name region_id) (\<lambda>zone_name.
     Option.bind (oracle_datetime_to_unix_seconds v) (\<lambda>local_seconds.
     Option.bind (zones zone_name) (\<lambda>info.
       case find (\<lambda>off. offset_at info (local_seconds - off) = Some off) (offsets info) of
         Some off \<Rightarrow> to_i16 (off sdiv 60)
       | None \<Rightarrow>
           Option.bind (offset_at info local_seconds) (\<lambda>offset_seconds.
             to_i16 (offset_seconds sdiv 60)))))"

end
