(* ===== verification/Thin_Datetime.thy ===== *)
theory Thin_Datetime
  imports Thin_Zones
begin

text \<open>
  Wire form of \<^verbatim>\<open>DATE\<close> and \<^verbatim>\<open>TIMESTAMP\<close> values (\<^verbatim>\<open>crates/tns-thin/src/session.rs\<close>): seven bytes for a
  date, eleven with fractional seconds, thirteen with a time zone, which is an offset in minutes or
  a region. A zoned value travels in UTC. \<open>zones\<close> is what the zone cache answers.
\<close>

section \<open>Encoding\<close>

text \<open>Rust's unary minus on \<^verbatim>\<open>i16\<close>.\<close>

definition neg_i16 :: "int \<Rightarrow> int" where
  "neg_i16 x = (if x = - (2 ^ 15) then x else - x)"

definition oracle_datetime_has_timezone :: "oracle_date_time \<Rightarrow> bool" where
  "oracle_datetime_has_timezone v \<longleftrightarrow>
     timezone_offset_minutes v \<noteq> None \<or> timezone_region_id v \<noteq> None"

definition oracle_timestamp_timezone_bytes :: "oracle_date_time \<Rightarrow> (byte \<times> byte) option" where
  "oracle_timestamp_timezone_bytes v =
     (case timezone_offset_minutes v of
        Some off \<Rightarrow> Some (word_of_int (off sdiv 60 + 20), word_of_int (off smod 60 + 60))
      | None \<Rightarrow>
          map_option
            (\<lambda>region_id. (ucast (drop_bit 6 (region_id AND 0x1fc0)) OR 0x80,
                           ucast (push_bit 2 (region_id AND 0x003f))))
            (timezone_region_id v))"

definition date_bytes :: "oracle_date_time \<Rightarrow> byte list" where
  "date_bytes v =
     [word_of_nat (year v div 100) + 100, word_of_nat (year v mod 100) + 100,
      word_of_nat (month v), word_of_nat (day v), word_of_nat (hour v) + 1,
      word_of_nat (minute v) + 1, word_of_nat (second v) + 1]"

definition encode_oracle_date ::
    "(string \<Rightarrow> zone_info option) \<Rightarrow> oracle_date_time \<Rightarrow> nat \<Rightarrow> byte list" where
  "encode_oracle_date zones v len =
     (let timezone_bytes = (if 11 < len then oracle_timestamp_timezone_bytes v else None);
          encoded =
            (if timezone_bytes \<noteq> None then
               (case timezone_offset_minutes v of
                  Some off \<Rightarrow> apply_timezone_offset v (neg_i16 off)
                | None \<Rightarrow>
                    (case timezone_region_id v of
                       None \<Rightarrow> v
                     | Some region_id \<Rightarrow>
                         (case timezone_region_local_offset_minutes zones region_id v of
                            None \<Rightarrow> v
                          | Some off \<Rightarrow> apply_timezone_offset v (neg_i16 off))))
             else v)
      in date_bytes encoded
         @ (if 7 < len then be_bytes 4 (nanosecond encoded) else [])
         @ (case timezone_bytes of None \<Rightarrow> [] | Some (zone_1, zone_2) \<Rightarrow> [zone_1, zone_2]))"

definition encode_oracle_timestamp_bind ::
    "(string \<Rightarrow> zone_info option) \<Rightarrow> oracle_date_time \<Rightarrow> byte list" where
  "encode_oracle_timestamp_bind zones v =
     (if oracle_datetime_has_timezone v then encode_oracle_date zones v 13
      else if nanosecond v = 0 then encode_oracle_date zones v 7
      else encode_oracle_date zones v 11)"

section \<open>Decoding\<close>

definition validate_oracle_datetime_year :: "int \<Rightarrow> thin_error + nat" where
  "validate_oracle_datetime_year y =
     (if 1 \<le> y \<and> y \<le> 9999 then Inr (nat y)
      else Inl (thin_error_new (''Oracle date/time year '' @ show_int y
             @ '' is outside supported range 1..=9999'')))"

text \<open>
  The zone fields of a decoded value: the offset, the region and whether the time is already local to
  the region.
\<close>

definition decode_timezone :: "byte list \<Rightarrow> int option \<times> 16 word option \<times> bool" where
  "decode_timezone bs =
     (if 12 < length bs \<and> bs ! 11 \<noteq> 0 \<and> bs ! 12 \<noteq> 0 then
        (if bs ! 11 AND 0x80 \<noteq> 0 then
           (None,
            Some (push_bit 6 (ucast (bs ! 11 AND 0x7f)) OR drop_bit 2 (ucast (bs ! 12 AND 0xfc))),
            bs ! 12 AND 0x01 \<noteq> 0)
         else
           (Some ((int (unat (bs ! 11)) - 20) * 60 + (int (unat (bs ! 12)) - 60)), None, False))
      else (None, None, False))"

definition to_local_time ::
    "(string \<Rightarrow> zone_info option) \<Rightarrow> bool \<Rightarrow> oracle_date_time \<Rightarrow> oracle_date_time" where
  "to_local_time zones time_in_zone v =
     (case timezone_offset_minutes v of
        Some off \<Rightarrow> apply_timezone_offset v off
      | None \<Rightarrow>
          (case timezone_region_id v of
             None \<Rightarrow> v
           | Some region_id \<Rightarrow>
               (if time_in_zone then v
                else
                  (case timezone_region_offset_minutes zones region_id v of
                     None \<Rightarrow> v
                   | Some off \<Rightarrow> apply_timezone_offset v off))))"

definition decode_oracle_datetime ::
    "(string \<Rightarrow> zone_info option) \<Rightarrow> byte list \<Rightarrow> thin_error + oracle_date_time" where
  "decode_oracle_datetime zones bs =
     (if length bs < 7 then Inl (thin_error_new ''short Oracle date/time value'')
      else
        (case validate_oracle_datetime_year
                ((int (unat (bs ! 0)) - 100) * 100 + int (unat (bs ! 1)) - 100) of
           Inl e \<Rightarrow> Inl e
         | Inr y \<Rightarrow>
             (let nanos = (if 10 < length bs then be_nat (take 4 (drop 7 bs)) else 0);
                  (offset, region_id, time_in_zone) = decode_timezone bs;
                  v = to_local_time zones time_in_zone
                        \<lparr>year = y, month = unat (bs ! 2), day = unat (bs ! 3),
                         hour = unat (bs ! 4) - 1, minute = unat (bs ! 5) - 1,
                         second = unat (bs ! 6) - 1, nanosecond = nanos,
                         timezone_offset_minutes = offset, timezone_region_id = region_id\<rparr>
              in case validate_oracle_datetime_year (min (int (year v)) (2 ^ 15 - 1)) of
                   Inl e \<Rightarrow> Inl e
                 | Inr _ \<Rightarrow> Inr v)))"

definition timezone_suffix :: "oracle_date_time \<Rightarrow> string option" where
  "timezone_suffix v =
     (case timezone_offset_minutes v of
        Some off \<Rightarrow>
          Some ((if off < 0 then ''-'' else ''+'') @ pad_left 2 (show_nat (nat \<bar>off\<bar> div 60))
                @ '':'' @ pad_left 2 (show_nat (nat \<bar>off\<bar> mod 60)))
      | None \<Rightarrow>
          map_option
            (\<lambda>region_id. case oracle_zone_name region_id of
               Some name \<Rightarrow> '' '' @ name
             | None \<Rightarrow> '' TZR#'' @ show_nat (unat region_id))
            (timezone_region_id v))"

definition decode_oracle_time_text ::
    "(string \<Rightarrow> zone_info option) \<Rightarrow> byte list \<Rightarrow> thin_error + string" where
  "decode_oracle_time_text zones bs =
     (case decode_oracle_datetime zones bs of
        Inl e \<Rightarrow> Inl e
      | Inr v \<Rightarrow>
          (let out = pad_left 2 (show_nat (hour v)) @ '':'' @ pad_left 2 (show_nat (minute v))
                       @ '':'' @ pad_left 2 (show_nat (second v));
               out = (if 0 < nanosecond v
                      then rev (dropWhile ((=) CHR ''0'')
                             (rev (out @ ''.'' @ pad_left 9 (show_nat (nanosecond v)))))
                      else out)
           in Inr (out @ (case timezone_suffix v of None \<Rightarrow> '''' | Some suffix \<Rightarrow> suffix))))"

section \<open>Decoding inverts encoding\<close>

lemma byte_plus: "k + numeral n < 256 \<Longrightarrow> unat (word_of_nat k + numeral n :: byte) = k + numeral n"
  "k + 1 < 256 \<Longrightarrow> unat (word_of_nat k + 1 :: byte) = k + 1"
  using unat_word_of_nat_byte [of "k + numeral n"] unat_word_of_nat_byte [of "k + 1"]
  by (simp_all add: add.commute)

text \<open>The seven bytes of a date carry its fields.\<close>

lemma date_bytes_fields:
  assumes "ordinary v" "bs = date_bytes v @ tail"
  shows "validate_oracle_datetime_year ((int (unat (bs ! 0)) - 100) * 100 + int (unat (bs ! 1)) - 100)
      = Inr (year v)"
    "unat (bs ! 2) = month v" "unat (bs ! 3) = day v" "unat (bs ! 4) - 1 = hour v"
    "unat (bs ! 5) - 1 = minute v" "unat (bs ! 6) - 1 = second v" "drop 7 bs = tail" "length bs = 7 + length tail"
proof -
  have b: "year v div 100 + 100 < 256" "year v mod 100 + 100 < 256" "month v < 256" "day v < 256"
    "hour v + 1 < 256" "minute v + 1 < 256" "second v + 1 < 256" "1 \<le> year v" "year v \<le> 9999"
    using assms(1) days_in_month_le [of "year v" "month v"]
    by (auto simp: ordinary_def valid_date_def valid_time_def)
  have "int (year v div 100) * 100 + int (year v mod 100) = int (year v)"
    using div_mult_mod_eq [of "year v" 100] by (metis of_nat_add of_nat_mult of_nat_numeral)
  then show "validate_oracle_datetime_year ((int (unat (bs ! 0)) - 100) * 100 + int (unat (bs ! 1)) - 100)
      = Inr (year v)"
    using b by (simp add: assms(2) date_bytes_def byte_plus validate_oracle_datetime_year_def
        del: of_nat_mod of_nat_div)
  show "unat (bs ! 2) = month v" "unat (bs ! 3) = day v" "unat (bs ! 4) - 1 = hour v"
    "unat (bs ! 5) - 1 = minute v" "unat (bs ! 6) - 1 = second v" "drop 7 bs = tail" "length bs = 7 + length tail"
    using b by (simp_all add: assms(2) date_bytes_def byte_plus)
qed

lemma decode_date_bytes:
  assumes "ordinary e" "nanosecond e < 2 ^ 32"
    "tail = [] \<and> nanosecond e = 0 \<and> zone = [] \<or> tail = be_bytes 4 (nanosecond e) @ zone"
    "length zone \<in> {0, 2}"
    "decode_timezone (date_bytes e @ tail) =
       (timezone_offset_minutes e, timezone_region_id e, in_zone)"
    "to_local_time zones in_zone e = v" "1 \<le> year v" "year v \<le> 9999"
  shows "decode_oracle_datetime zones (date_bytes e @ tail) = Inr v"
proof -
  note f = date_bytes_fields [OF assms(1) refl, of tail]
  have n: "(if 10 < length (date_bytes e @ tail) then be_nat (take 4 (drop 7 (date_bytes e @ tail))) else 0)
      = nanosecond e"
    using assms(2-4) f(7,8) by (auto simp: be_nat_be_bytes simp del: be_bytes_numeral)
  have "validate_oracle_datetime_year (min (int (year v)) (2 ^ 15 - 1)) = Inr (year v)"
    using assms(7,8) by (simp add: validate_oracle_datetime_year_def)
  moreover have r: "\<lparr>year = year e, month = month e, day = day e, hour = hour e, minute = minute e,
      second = second e, nanosecond = nanosecond e,
      timezone_offset_minutes = timezone_offset_minutes e, timezone_region_id = timezone_region_id e\<rparr> = e"
    by simp
  ultimately show ?thesis
    unfolding decode_oracle_datetime_def f(1) f(2) f(3) f(4) f(5) f(6) n assms(5)
    using f(8) assms(6) by (simp add: Let_def r)
qed

text \<open>Zone bytes.\<close>

lemma zone_bytes_at:
  assumes "bs = date_bytes e @ be_bytes 4 n @ [z1, z2]"
  shows "bs ! 11 = z1" "bs ! 12 = z2" "12 < length bs"
  by (simp_all add: assms date_bytes_def)

lemma offset_bytes:
  assumes "\<bar>off\<bar> < 1200"
  defines "z1 \<equiv> word_of_int (off sdiv 60 + 20) :: byte" and "z2 \<equiv> word_of_int (off smod 60 + 60) :: byte"
  shows "z1 \<noteq> 0" "z2 \<noteq> 0" "z1 AND 0x80 = 0"
    "(int (unat z1) - 20) * 60 + (int (unat z2) - 60) = off"
proof -
  have q: "- 20 < off sdiv 60" "off sdiv 60 < 20"
    using assms(1) by (auto simp: signed_divide_int_def sgn_if abs_if)
  have r: "- 60 < off smod 60" "off smod 60 < 60"
    using smod_int_compares(5,6) [of 60 off] smod_int_range [of 60 off] by auto
  have "uint z1 = off sdiv 60 + 20" "uint z2 = off smod 60 + 60"
    using q r byte_of_int [of "off sdiv 60 + 20"] byte_of_int [of "off smod 60 + 60"]
    by (simp_all add: z1_def z2_def)
  then have u: "int (unat z1) = off sdiv 60 + 20" "int (unat z2) = off smod 60 + 60" by simp_all
  have "int (unat z1) \<noteq> 0" "int (unat z2) \<noteq> 0" using q r u by linarith+
  then show "z1 \<noteq> 0" "z2 \<noteq> 0" by auto
  have "unat z1 < 128" using u(1) q by linarith
  then show "z1 AND 0x80 = 0" by (simp add: sign_bit_iff)
  show "(int (unat z1) - 20) * 60 + (int (unat z2) - 60) = off"
    using mult_sdiv_smod_eq [of 60 off] u by simp
qed

lemma region_masks:
  "(0x1fc0 :: 16 word) = push_bit 6 (mask 7)" "(0x003f :: 16 word) = mask 6"
  "(0x7f :: byte) = mask 7" "(0xfc :: byte) = push_bit 2 (mask 6)"
  by (simp_all add: mask_eq_exp_minus_1 push_bit_eq_mult)

lemma region_bytes:
  fixes r :: "16 word"
  assumes "unat r < 2 ^ 13"
  defines "z1 \<equiv> ucast (drop_bit 6 (r AND 0x1fc0)) OR 0x80 :: byte"
    and "z2 \<equiv> ucast (push_bit 2 (r AND 0x003f)) :: byte"
  shows "z1 \<noteq> 0" "z1 AND 0x80 \<noteq> 0" "z2 = 0 \<longleftrightarrow> unat r mod 64 = 0" "z2 AND 0x01 = 0"
    "push_bit 6 (ucast (z1 AND 0x7f)) OR drop_bit 2 (ucast (z2 AND 0xfc)) = r"
proof -
  have hi: "\<not> bit r n" if "13 \<le> n" for n
  proof -
    have "unat r < 2 ^ n" using assms(1) power_increasing [of 13 n "2 :: nat"] that by simp
    then have "\<not> bit (unat r) n" by (simp add: bit_iff_odd)
    then show ?thesis by (auto simp: bit_unsigned_iff dest: bit_imp_le_length)
  qed
  have b7: "bit z1 7" unfolding z1_def region_masks by (simp add: bit_simps bit_sign_byte)
  then have "z1 AND 2 ^ 7 \<noteq> 0" by (simp only: and_exp_eq_0_iff_not_bit) simp
  then show "z1 AND 0x80 \<noteq> 0" by simp
  then show "z1 \<noteq> 0" by auto
  show "z2 AND 0x01 = 0"
    unfolding z2_def region_masks by (auto intro!: bit_word_eqI simp: bit_simps)
  show "push_bit 6 (ucast (z1 AND 0x7f)) OR drop_bit 2 (ucast (z2 AND 0xfc)) = r"
  proof (rule bit_word_eqI)
    fix n assume n: "n < LENGTH(16)"
    consider "n < 6" | "6 \<le> n" "n < 13" | "13 \<le> n" by linarith
    then show "bit (push_bit 6 (ucast (z1 AND 0x7f) :: 16 word) OR drop_bit 2 (ucast (z2 AND 0xfc))) n = bit r n"
    proof cases
      case 1
      then show ?thesis unfolding z1_def z2_def region_masks by (simp add: bit_simps bit_sign_byte)
    next
      case 2
      then obtain k where "n = k + 6" "k < 7" using le_Suc_ex [of 6 n] by auto
      then show ?thesis
        unfolding z1_def z2_def region_masks by (simp add: bit_simps bit_sign_byte add.commute)
    next
      case 3
      with hi show ?thesis unfolding z1_def z2_def region_masks by (simp add: bit_simps bit_sign_byte)
    qed
  qed
  have "unat (r AND mask 6) = unat r mod 64"
    by (simp add: take_bit_eq_mod unat_mod_distrib flip: take_bit_eq_mask)
  moreover have "z2 = 0 \<longleftrightarrow> r AND mask 6 = 0"
  proof
    assume "z2 = 0"
    moreover have "bit z2 (n + 2) = bit r n" if "n < 6" for n
      using that unfolding z2_def region_masks by (simp add: bit_simps)
    ultimately show "r AND mask 6 = 0" by (auto intro!: bit_word_eqI simp: bit_simps)
  next
    assume "r AND mask 6 = 0"
    then show "z2 = 0" unfolding z2_def region_masks by simp
  qed
  ultimately show "z2 = 0 \<longleftrightarrow> unat r mod 64 = 0" by (metis unat_eq_zero)
qed

lemma decode_offset_bytes:
  assumes "\<bar>off\<bar> < 1200" "timezone_offset_minutes v = Some off"
    "oracle_timestamp_timezone_bytes v = Some (z1, z2)"
  shows "decode_timezone (date_bytes e @ be_bytes 4 n @ [z1, z2]) = (Some off, None, False)"
  using offset_bytes [OF assms(1)] assms(2,3) zone_bytes_at [OF refl, of e n z1 z2]
  by (auto simp: decode_timezone_def oracle_timestamp_timezone_bytes_def simp del: be_bytes_numeral)

lemma decode_region_bytes:
  assumes "unat r < 2 ^ 13" "unat r mod 64 \<noteq> 0" "timezone_offset_minutes v = None"
    "timezone_region_id v = Some r" "oracle_timestamp_timezone_bytes v = Some (z1, z2)"
  shows "decode_timezone (date_bytes e @ be_bytes 4 n @ [z1, z2]) = (None, Some r, False)"
proof -
  have z: "z1 = ucast (drop_bit 6 (r AND 0x1fc0)) OR 0x80" "z2 = ucast (push_bit 2 (r AND 0x003f))"
    using assms(3-5) by (simp_all add: oracle_timestamp_timezone_bytes_def)
  note b = region_bytes [OF assms(1), folded z]
  show ?thesis
    unfolding decode_timezone_def zone_bytes_at [OF refl, of e n z1 z2]
    using b(1,2,4,5) b(3) assms(2) zone_bytes_at(3) [OF refl, of e n z1 z2] by simp
qed

section \<open>The round trip\<close>

text \<open>
  A local time of a region that exists there, in a zone of whole minutes (if the zone is known at
  all): it has the offset of one of the zone's types at the instant that offset gives it.
\<close>

definition local_time_exists :: "zone_info \<Rightarrow> int \<Rightarrow> bool" where
  "local_time_exists info local_seconds \<longleftrightarrow>
     list_ex (\<lambda>off. offset_at info (local_seconds - off) = Some off) (offsets info) \<and>
     list_all (\<lambda>off. off mod 60 = 0 \<and> \<bar>off\<bar> < 72000) (offsets info)"

definition region_time_ok :: "(string \<Rightarrow> zone_info option) \<Rightarrow> 16 word \<Rightarrow> oracle_date_time \<Rightarrow> bool" where
  "region_time_ok zones r v \<longleftrightarrow>
     (case oracle_zone_name r of
        None \<Rightarrow> True
      | Some name \<Rightarrow>
          (case zones name of
             None \<Rightarrow> True
           | Some info \<Rightarrow>
               (case oracle_datetime_to_unix_seconds v of
                  None \<Rightarrow> False | Some t \<Rightarrow> local_time_exists info t)))"

definition bindable :: "(string \<Rightarrow> zone_info option) \<Rightarrow> oracle_date_time \<Rightarrow> bool" where
  "bindable zones v \<longleftrightarrow>
     ordinary v \<and> nanosecond v < 2 ^ 32 \<and>
     (case (timezone_offset_minutes v, timezone_region_id v) of
        (None, None) \<Rightarrow> True
      | (Some off, None) \<Rightarrow> \<bar>off\<bar> < 1200 \<and> 1 < year v \<and> year v < 9999
      | (None, Some r) \<Rightarrow>
          unat r < 2 ^ 13 \<and> unat r mod 64 \<noteq> 0 \<and> 1 < year v \<and> year v < 9999 \<and> region_time_ok zones r v
      | (Some _, Some _) \<Rightarrow> False)"

text \<open>A shifted value and the value it came from.\<close>

lemma shifted_back:
  assumes "ordinary v" "1 < year v" "year v < 9999" "\<bar>off\<bar> < 1200"
  defines "e \<equiv> apply_timezone_offset v (neg_i16 off)"
  shows "ordinary e" "apply_timezone_offset e off = v" "nanosecond e = nanosecond v"
    "timezone_offset_minutes e = timezone_offset_minutes v" "timezone_region_id e = timezone_region_id v"
proof -
  have off: "neg_i16 off = - off" "\<bar>- off\<bar> \<le> 2 ^ 15" using assms(4) by (auto simp: neg_i16_def)
  show "ordinary e"
    using apply_timezone_offset_valid [OF assms(1) off(2)] apply_timezone_offset_year [OF assms(1) off(2)]
      assms(2,3) by (simp add: e_def off(1) ordinary_def)
  show "apply_timezone_offset e off = v"
    using apply_timezone_offset_inverse [OF assms(1) off(2)] by (simp add: e_def off(1))
  show "nanosecond e = nanosecond v" "timezone_offset_minutes e = timezone_offset_minutes v"
    "timezone_region_id e = timezone_region_id v"
    using timezone_shift [OF assms(1) off(2)] unfolding e_def off(1)
    by (metis (no_types, lifting) same_clock_def oracle_date_time.select_convs
        oracle_date_time.update_convs oracle_date_time.surjective)+
qed

lemma encode_zoned:
  assumes "oracle_timestamp_timezone_bytes v = Some (z1, z2)"
    "e = (case timezone_offset_minutes v of
            Some off \<Rightarrow> apply_timezone_offset v (neg_i16 off)
          | None \<Rightarrow>
              (case timezone_region_id v of
                 None \<Rightarrow> v
               | Some r \<Rightarrow>
                   (case timezone_region_local_offset_minutes zones r v of
                      None \<Rightarrow> v | Some off \<Rightarrow> apply_timezone_offset v (neg_i16 off))))"
  shows "encode_oracle_date zones v 13 = date_bytes e @ be_bytes 4 (nanosecond e) @ [z1, z2]"
  using assms by (simp add: encode_oracle_date_def Let_def del: be_bytes_numeral)

lemma region_offsets_agree:
  assumes "ordinary v" "region_time_ok zones r v"
  obtains
    "timezone_region_local_offset_minutes zones r v = None" "timezone_region_offset_minutes zones r v = None"
  | m where "timezone_region_local_offset_minutes zones r v = Some m" "\<bar>m\<bar> < 1200"
      "timezone_region_offset_minutes zones r (apply_timezone_offset v (neg_i16 m)) = Some m"
proof -
  obtain t where t: "oracle_datetime_to_unix_seconds v = Some t"
    using assms(1) by (simp add: oracle_datetime_to_unix_seconds_def days_from_civil_serial ordinary_def)
  show thesis
  proof (cases "\<exists>name info. oracle_zone_name r = Some name \<and> zones name = Some info")
    case False
    then show thesis
      by (intro that(1))
        (auto simp: timezone_region_local_offset_minutes_def timezone_region_offset_minutes_def
          split: option.split bind_splits)
  next
    case True
    then obtain name info where z: "oracle_zone_name r = Some name" "zones name = Some info" by blast
    with assms(2) t have ex: "local_time_exists info t" by (simp add: region_time_ok_def)
    let ?P = "\<lambda>off. offset_at info (t - off) = Some off"
    from ex have "find ?P (offsets info) \<noteq> None"
      by (auto simp: local_time_exists_def list_ex_iff find_None_iff)
    then obtain off where f: "find ?P (offsets info) = Some off" by blast
    then have off: "?P off" "off mod 60 = 0" "\<bar>off\<bar> < 72000"
      using ex by (auto simp: find_Some_iff local_time_exists_def list_all_length)
    define m where "m = off sdiv 60"
    have m: "off = 60 * m" "\<bar>m\<bar> < 1200"
      using off(2,3) by (auto simp: m_def signed_divide_int_def sgn_if abs_if)
    from m(2) have i: "to_i16 (off sdiv 60) = Some m" "neg_i16 m = - m"
      unfolding m_def [symmetric] by (simp_all add: to_i16_def neg_i16_def abs_less_iff)
    have "oracle_datetime_to_unix_seconds (apply_timezone_offset v (- m)) = Some (t - off)"
      using unix_time_shift [OF assms(1), of "- m"] m t by simp
    with z t f off(1) i show thesis
      by (intro that(2) [of m])
        (simp_all add: timezone_region_local_offset_minutes_def timezone_region_offset_minutes_def m(2))
  qed
qed

lemma decode_zoned:
  assumes "ordinary e" "nanosecond e < 2 ^ 32" "to_local_time zones False e = v" "ordinary v"
    "decode_timezone (date_bytes e @ be_bytes 4 (nanosecond e) @ [z1, z2]) =
       (timezone_offset_minutes e, timezone_region_id e, False)"
    "encode_oracle_timestamp_bind zones v = date_bytes e @ be_bytes 4 (nanosecond e) @ [z1, z2]"
  shows "decode_oracle_datetime zones (encode_oracle_timestamp_bind zones v) = Inr v"
  unfolding assms(6)
  by (rule decode_date_bytes [where zone = "[z1, z2]" and in_zone = False])
    (use assms(1-5) in \<open>simp_all add: ordinary_def del: be_bytes_numeral\<close>)

lemma offset_roundtrip:
  assumes "ordinary v" "nanosecond v < 2 ^ 32" "timezone_offset_minutes v = Some off"
    "timezone_region_id v = None" "\<bar>off\<bar> < 1200" "1 < year v" "year v < 9999"
  shows "decode_oracle_datetime zones (encode_oracle_timestamp_bind zones v) = Inr v"
proof -
  obtain z1 z2 where z: "oracle_timestamp_timezone_bytes v = Some (z1, z2)"
    using assms(3) by (simp add: oracle_timestamp_timezone_bytes_def)
  define e where "e = apply_timezone_offset v (neg_i16 off)"
  note shifted = shifted_back [OF assms(1,6,7,5), folded e_def]
  have "encode_oracle_timestamp_bind zones v = date_bytes e @ be_bytes 4 (nanosecond e) @ [z1, z2]"
    using encode_zoned [OF z, of e zones] assms(3)
    by (simp add: encode_oracle_timestamp_bind_def oracle_datetime_has_timezone_def e_def)
  moreover have "to_local_time zones False e = v"
    using shifted assms(3) by (simp add: to_local_time_def)
  ultimately show ?thesis
    using decode_zoned [of e zones v z1 z2] decode_offset_bytes [OF assms(5,3) z] shifted assms(1-4)
    by (simp del: be_bytes_numeral)
qed

lemma region_roundtrip:
  assumes v: "ordinary v" "nanosecond v < 2 ^ 32" "timezone_offset_minutes v = None"
    "timezone_region_id v = Some r" "1 < year v" "year v < 9999"
    and r: "unat r < 2 ^ 13" "unat r mod 64 \<noteq> 0" "region_time_ok zones r v"
  shows "decode_oracle_datetime zones (encode_oracle_timestamp_bind zones v) = Inr v"
proof -
  obtain z1 z2 where z: "oracle_timestamp_timezone_bytes v = Some (z1, z2)"
    using v(3,4) by (simp add: oracle_timestamp_timezone_bytes_def)
  note bytes = decode_region_bytes [OF r(1,2) v(3,4) z]
  note has_zone = encode_oracle_timestamp_bind_def oracle_datetime_has_timezone_def
  from v(1) r(3) show ?thesis
  proof (cases rule: region_offsets_agree)
    case 1
    then show ?thesis
      using decode_zoned [of v zones v z1 z2] encode_zoned [OF z, of v zones] bytes v
      by (simp add: has_zone to_local_time_def del: be_bytes_numeral)
  next
    case (2 m)
    define e where "e = apply_timezone_offset v (neg_i16 m)"
    note shifted = shifted_back [OF v(1,5,6) 2(2), folded e_def]
    have "encode_oracle_timestamp_bind zones v = date_bytes e @ be_bytes 4 (nanosecond e) @ [z1, z2]"
      using encode_zoned [OF z, of e zones] 2(1) v(3,4) by (simp add: has_zone e_def)
    moreover have "to_local_time zones False e = v"
      using shifted 2(3) v(3,4) by (simp add: to_local_time_def flip: e_def)
    ultimately show ?thesis
      using decode_zoned [of e zones v z1 z2] bytes shifted v by (simp del: be_bytes_numeral)
  qed
qed

text \<open>
  C20. Date and time binds survive the wire: a value with a valid date and time, any fraction of a
  second and no zone, a zone offset below twenty hours or a region (not both) is decoded from its encoded
  bytes as it was, whichever of the seven, eleven and thirteen byte forms is chosen. A value without a zone may
  have any year from 1 to 9999. The zoned forms travel in UTC, across midnight, month ends and years, so
  that their year has to be from 2 to 9998: at the last hours of 9999 the year in UTC may be 10000, which the
  decoder refuses. A region's number is below 8192 and no multiple of 64, and where the client has the rules of
  the zone, they have the local time (it is not in a gap of daylight saving) and only offsets of whole
  minutes below twenty hours.
\<close>

theorem timestamp_bind_roundtrip:
  assumes "bindable zones v"
  shows "decode_oracle_datetime zones (encode_oracle_timestamp_bind zones v) = Inr v"
proof -
  from assms have v: "ordinary v" "nanosecond v < 2 ^ 32" by (simp_all add: bindable_def)
  show ?thesis
  proof (cases "timezone_offset_minutes v = None \<and> timezone_region_id v = None")
    case True
    then have e: "encode_oracle_timestamp_bind zones v =
        date_bytes v @ (if nanosecond v = 0 then [] else be_bytes 4 (nanosecond v))"
      by (simp add: encode_oracle_timestamp_bind_def oracle_datetime_has_timezone_def
          encode_oracle_date_def Let_def del: be_bytes_numeral)
    show ?thesis
      unfolding e
      by (rule decode_date_bytes [where zone = "[]" and in_zone = False])
        (use v True in \<open>simp_all add: to_local_time_def decode_timezone_def date_bytes_def
          ordinary_def del: be_bytes_numeral\<close>)
  next
    case False
    with assms v show ?thesis
      by (auto simp: bindable_def split: option.splits intro: offset_roundtrip region_roundtrip)
  qed
qed

definition two_hours_east :: zone_info where
  "two_hours_east = \<lparr>transitions = [], offsets = [7200]\<rparr>"

definition in_cairo :: oracle_date_time where
  "in_cairo = half_past_midnight\<lparr>timezone_offset_minutes := None, timezone_region_id := Some 44\<rparr>"

lemma timestamp_bind_roundtrip_witness:
  "decode_oracle_datetime (\<lambda>_. Some two_hours_east)
     (encode_oracle_timestamp_bind (\<lambda>_. Some two_hours_east) in_cairo) = Inr in_cairo"
proof (rule timestamp_bind_roundtrip)
  have "ordinary in_cairo"
    using half_past_midnight_ordinary by (simp add: in_cairo_def ordinary_def valid_date_def valid_time_def)
  moreover have "region_time_ok (\<lambda>_. Some two_hours_east) 44 in_cairo"
    using \<open>ordinary in_cairo\<close>
    by (simp add: region_time_ok_def local_time_exists_def two_hours_east_def offset_at_def
        oracle_datetime_to_unix_seconds_def days_from_civil_serial ordinary_def split: option.split)
  ultimately show "bindable (\<lambda>_. Some two_hours_east) in_cairo"
    by (simp add: bindable_def in_cairo_def half_past_midnight_def)
qed

text \<open>
  Region identifiers that are multiples of 64 are not in that class: the second zone byte is then
  zero, which the decoder takes for a value without a zone. One of the table's regions:
\<close>

definition in_windhoek :: oracle_date_time where
  "in_windhoek = half_past_midnight\<lparr>timezone_offset_minutes := None, timezone_region_id := Some 64\<rparr>"

lemma zone_of_windhoek_is_lost:
  "oracle_zone_name 64 = Some ''Africa/Windhoek'' \<and>
   decode_oracle_datetime (\<lambda>_. None) (encode_oracle_timestamp_bind (\<lambda>_. None) in_windhoek) =
     Inr (in_windhoek\<lparr>timezone_region_id := None\<rparr>)"
proof
  show "oracle_zone_name 64 = Some ''Africa/Windhoek''"
    by (simp add: oracle_zone_name_def oracle_zones_def african_zones_def map_add_def)
  let ?w = "in_windhoek\<lparr>timezone_region_id := None\<rparr>"
  have "oracle_timestamp_timezone_bytes in_windhoek = Some (0x81, 0)"
    by (simp add: oracle_timestamp_timezone_bytes_def in_windhoek_def)
  then have e: "encode_oracle_timestamp_bind (\<lambda>_. None) in_windhoek =
      date_bytes ?w @ be_bytes 4 (nanosecond ?w) @ [0x81, 0]"
    using encode_zoned [of in_windhoek "0x81" 0 in_windhoek "\<lambda>_. None"]
    by (simp add: encode_oracle_timestamp_bind_def oracle_datetime_has_timezone_def in_windhoek_def
        timezone_region_local_offset_minutes_def date_bytes_def split: option.split bind_split
        del: be_bytes_numeral)
  have "ordinary ?w"
    using half_past_midnight_ordinary
    by (simp add: in_windhoek_def ordinary_def valid_date_def valid_time_def)
  moreover have "nanosecond ?w < 2 ^ 32" "timezone_offset_minutes ?w = None" "timezone_region_id ?w = None"
    by (simp_all add: in_windhoek_def half_past_midnight_def)
  moreover have "decode_timezone (date_bytes ?w @ be_bytes 4 (nanosecond ?w) @ [0x81, 0]) =
      (None, None, False)"
    using zone_bytes_at [OF refl, of ?w "nanosecond ?w" "0x81" 0]
    by (simp add: decode_timezone_def del: be_bytes_numeral)
  ultimately show "decode_oracle_datetime (\<lambda>_. None)
      (encode_oracle_timestamp_bind (\<lambda>_. None) in_windhoek) = Inr ?w"
    unfolding e
    by (intro decode_date_bytes [where zone = "[0x81, 0]" and in_zone = False])
      (simp_all add: to_local_time_def ordinary_def del: be_bytes_numeral)
qed

end
