(* ===== verification/Thin_Number.thy ===== *)
theory Thin_Number
  imports Complex_Main Thin_Bytes "HOL-Library.Signed_Division"
begin

text \<open>
  Wire form of \<^verbatim>\<open>NUMBER\<close> values (\<^verbatim>\<open>crates/tns-thin/src/session.rs\<close>): decimal text is encoded as an
  exponent byte and digits of base 100, complemented for a negative number, and decoded back to
  decimal text. The specification is the rational number that a decimal text, and a sequence of
  \<^verbatim>\<open>NUMBER\<close> bytes, stand for. \<^verbatim>\<open>decimal_point_index\<close> is the 16-bit integer of the source, wrapping.
\<close>

section \<open>Encoding\<close>

text \<open>The digit loops before and after the decimal point; the result is what is left of the text.\<close>

fun scan_integer :: "nat list \<Rightarrow> string \<Rightarrow> (nat list \<times> string) option" where
  "scan_integer digits [] = Some (digits, [])"
| "scan_integer digits (c # cs) =
     (if is_ascii_digit c then
        (if digit_value c = 0 \<and> digits = [] then scan_integer digits cs
         else scan_integer (digits @ [digit_value c]) cs)
      else if c = CHR ''.'' \<or> c = CHR ''e'' \<or> c = CHR ''E'' then Some (digits, c # cs)
      else None)"

fun scan_fraction :: "nat list \<Rightarrow> 16 word \<Rightarrow> string \<Rightarrow> (nat list \<times> 16 word \<times> string) option" where
  "scan_fraction digits decimal_point_index [] = Some (digits, decimal_point_index, [])"
| "scan_fraction digits decimal_point_index (c # cs) =
     (if is_ascii_digit c then
        (if digit_value c = 0 \<and> digits = []
         then scan_fraction digits (decimal_point_index - 1) cs
         else scan_fraction (digits @ [digit_value c]) decimal_point_index cs)
      else if c = CHR ''e'' \<or> c = CHR ''E'' then Some (digits, decimal_point_index, c # cs)
      else None)"

definition scan_exponent :: "string \<Rightarrow> string \<Rightarrow> thin_error + 16 word" where
  "scan_exponent val cs =
     (let exponent_negative = (cs \<noteq> [] \<and> hd cs = CHR ''-'');
          text = (if cs \<noteq> [] \<and> (hd cs = CHR ''-'' \<or> hd cs = CHR ''+'') then tl cs else cs)
      in if text = [] \<or> \<not> list_all is_ascii_digit text
         then Inl (thin_error_new (''invalid Oracle NUMBER exponent in bind value: '' @ val))
         else if 2 ^ 15 \<le> nat_of_digits text
         then Inl (thin_error_new ''number too large to fit in target type'')
         else Inr (if exponent_negative then - word_of_nat (nat_of_digits text)
                   else word_of_nat (nat_of_digits text)))"

definition invalid_number :: "string \<Rightarrow> thin_error" where
  "invalid_number val = thin_error_new (''invalid Oracle NUMBER bind value: '' @ val)"

text \<open>The sign, the significant digits and the decimal point of a text.\<close>

definition scan_number :: "string \<Rightarrow> thin_error + bool \<times> nat list \<times> 16 word" where
  "scan_number val =
     (let is_negative = (hd val = CHR ''-'');
          body = (if hd val = CHR ''-'' \<or> hd val = CHR ''+'' then tl val else val)
      in if body = [] then Inl (invalid_number val)
         else
           (case scan_integer [] body of
              None \<Rightarrow> Inl (invalid_number val)
            | Some (digits, rest) \<Rightarrow>
                (case (if rest \<noteq> [] \<and> hd rest = CHR ''.''
                       then scan_fraction digits (word_of_nat (length digits)) (tl rest)
                       else Some (digits, word_of_nat (length digits), rest)) of
                   None \<Rightarrow> Inl (invalid_number val)
                 | Some (digits, decimal_point_index, rest) \<Rightarrow>
                     (if rest = [] then Inr (is_negative, digits, decimal_point_index)
                      else
                        (case scan_exponent val (tl rest) of
                           Inl e \<Rightarrow> Inl e
                         | Inr exponent \<Rightarrow>
                             Inr (is_negative, digits, decimal_point_index + exponent))))))"

fun digit_pairs :: "nat \<Rightarrow> nat list \<Rightarrow> nat list" where
  "digit_pairs (Suc n) (a # b # ds) = (a * 10 + b) # digit_pairs n ds"
| "digit_pairs _ _ = []"

definition pack_number :: "bool \<Rightarrow> nat list \<Rightarrow> 16 word \<Rightarrow> byte list" where
  "pack_number is_negative digits decimal_point_index =
     (let prepend_zero = (sint decimal_point_index smod 2 \<noteq> 0);
          digits = (if prepend_zero then digits @ [0] else digits);
          decimal_point_index =
            (if prepend_zero then decimal_point_index + 1 else decimal_point_index);
          digits = (if length digits mod 2 \<noteq> 0 then digits @ [0] else digits);
          num_pairs = length digits div 2;
          exponent_on_wire = (word_of_int (sint decimal_point_index sdiv 2 + 192) :: byte);
          pairs = (if prepend_zero then hd digits # digit_pairs (num_pairs - 1) (tl digits)
                   else digit_pairs num_pairs digits)
      in (if is_negative then NOT exponent_on_wire else exponent_on_wire)
         # map (\<lambda>digit. if is_negative then 101 - word_of_nat digit else word_of_nat digit + 1) pairs
         @ (if is_negative \<and> length digits < 38 then [102] else []))"

definition encode_oracle_number :: "string \<Rightarrow> thin_error + byte list" where
  "encode_oracle_number text =
     (let val = trim text
      in if val = [] then Inl (thin_error_new ''empty Oracle NUMBER bind value'')
         else
           (case scan_number val of
              Inl e \<Rightarrow> Inl e
            | Inr (is_negative, digits, decimal_point_index) \<Rightarrow>
                (let digits = rev (dropWhile ((=) 0) (rev digits))
                 in if digits = [] then Inr [0x80]
                    else if 38 < length digits \<or>
                            \<not> (- 129 \<le> sint decimal_point_index \<and> sint decimal_point_index \<le> 126)
                    then Inl (thin_error_new (''Oracle NUMBER bind value out of range: '' @ val))
                    else Inr (pack_number is_negative digits decimal_point_index))))"

section \<open>Decoding\<close>

definition decode_digit :: "bool \<Rightarrow> byte \<Rightarrow> nat" where
  "decode_digit negative b =
     (if negative then 100 - (unat b - 1) else unat b - 1)"

definition digit_text :: "nat \<Rightarrow> string" where
  "digit_text d = [char_of (48 + d div 10), char_of (48 + d mod 10)]"

definition place_point :: "string \<Rightarrow> int \<Rightarrow> string" where
  "place_point digits scale =
     (if 0 < scale then digits @ replicate (nat scale) CHR ''0''
      else if scale < 0 then
        (let point_pos = int (length digits) + scale
         in if point_pos \<le> 0
            then ''0.'' @ replicate (nat (- point_pos)) CHR ''0'' @ digits
            else take (nat point_pos) digits @ ''.'' @ drop (nat point_pos) digits)
      else digits)"

definition trim_fraction :: "string \<Rightarrow> string" where
  "trim_fraction digits =
     (if CHR ''.'' \<in> set digits then
        (let digits = rev (dropWhile ((=) CHR ''0'') (rev digits))
         in if digits \<noteq> [] \<and> last digits = CHR ''.'' then butlast digits else digits)
      else digits)"

definition decode_oracle_number :: "byte list \<Rightarrow> thin_error + string" where
  "decode_oracle_number bs =
     (if bs = [] then Inl (thin_error_new ''empty Oracle NUMBER value'')
      else if bs = [0x80] then Inr ''0''
      else if bs = [0x00] then Inr ''-Infinity''
      else if bs = [0xff, 0x65] then Inr ''Infinity''
      else
        (let negative = (hd bs AND 0x80 = 0);
             exponent = (if negative then int (unat (hd bs XOR 0x7f)) - 64
                         else int (unat (hd bs AND 0x7f)) - 64);
             mantissa = tl bs
         in if mantissa = [] then Inl (thin_error_new ''invalid Oracle NUMBER value'')
            else
              (let mantissa = (if negative \<and> last mantissa = 0x66 then butlast mantissa else mantissa);
                   digits = concat (map (digit_text \<circ> decode_digit negative) mantissa);
                   scale = exponent * 2 - int (length digits);
                   trimmed = dropWhile ((=) CHR ''0'') digits;
                   digits = (if 1 < length digits then (if trimmed = [] then ''0'' else trimmed)
                             else digits);
                   digits = trim_fraction (place_point digits scale);
                   digits = (if digits \<noteq> [] \<and> hd digits = CHR ''.'' then CHR ''0'' # digits else digits)
               in Inr (if negative \<and> digits \<noteq> ''0'' then CHR ''-'' # digits else digits))))"

section \<open>What texts and bytes stand for\<close>

definition digits_value :: "nat list \<Rightarrow> nat" where
  "digits_value ds = foldl (\<lambda>v d. v * 10 + d) 0 ds"

definition split_sign :: "string \<Rightarrow> bool \<times> string" where
  "split_sign s =
     (if s \<noteq> [] \<and> hd s = CHR ''-'' then (True, tl s)
      else if s \<noteq> [] \<and> hd s = CHR ''+'' then (False, tl s)
      else (False, s))"

definition sign_of :: "bool \<Rightarrow> rat" where
  "sign_of negative = (if negative then - 1 else 1)"

definition exponent_value :: "string \<Rightarrow> int" where
  "exponent_value s =
     (case split_sign s of (negative, ds) \<Rightarrow>
        if negative then - int (nat_of_digits ds) else int (nat_of_digits ds))"

definition decimal_value :: "bool \<Rightarrow> nat \<Rightarrow> int \<Rightarrow> rat" where
  "decimal_value negative n scale = sign_of negative * of_nat n * 10 powi scale"

definition text_value :: "string \<Rightarrow> rat" where
  "text_value s =
     (let (negative, body) = split_sign s;
          whole = takeWhile is_ascii_digit body;
          rest = dropWhile is_ascii_digit body;
          pointed = (rest \<noteq> [] \<and> hd rest = CHR ''.'');
          fraction = (if pointed then takeWhile is_ascii_digit (tl rest) else []);
          rest = (if pointed then dropWhile is_ascii_digit (tl rest) else rest);
          exponent = (if rest = [] then 0 else exponent_value (tl rest))
      in decimal_value negative (nat_of_digits (whole @ fraction)) (exponent - int (length fraction)))"

definition base100 :: "nat list \<Rightarrow> nat" where
  "base100 ds = foldl (\<lambda>v d. v * 100 + d) 0 ds"

definition hundreds :: "byte list \<Rightarrow> bool \<times> int \<times> nat list" where
  "hundreds bs =
     (let h = unat (hd bs);
          negative = (h < 128);
          m = (if negative \<and> tl bs \<noteq> [] \<and> last (tl bs) = 102 then butlast (tl bs) else tl bs)
      in (negative, if negative then 63 - int h else int h - 192, map (decode_digit negative) m))"

definition number_value :: "byte list \<Rightarrow> rat" where
  "number_value bs =
     (if bs = [0x80] then 0
      else
        (let (negative, exponent, ds) = hundreds bs
         in sign_of negative * of_nat (base100 ds) * 100 powi (exponent - int (length ds))))"

subsection \<open>Digit strings\<close>

lemma digits_value_simps [simp]:
  "digits_value [] = 0" "digits_value (ds @ [d]) = digits_value ds * 10 + d"
  by (simp_all add: digits_value_def)

lemma digits_value_append: "digits_value (xs @ ys) = digits_value xs * 10 ^ length ys + digits_value ys"
  by (induction ys rule: rev_induct) (simp_all add: algebra_simps flip: append_assoc)

lemma digits_value_Cons: "digits_value (d # ds) = d * 10 ^ length ds + digits_value ds"
  using digits_value_append [of "[d]" ds] by (simp add: digits_value_def)

lemma digits_value_zeros [simp]: "digits_value (replicate n 0) = 0"
  by (induction n) (simp_all add: digits_value_Cons)

lemma nat_of_digits_value: "nat_of_digits cs = digits_value (map digit_value cs)"
  by (simp add: nat_of_digits_def digits_value_def foldl_map)

lemma nat_of_digits_append:
  "nat_of_digits (xs @ ys) = nat_of_digits xs * 10 ^ length ys + nat_of_digits ys"
  by (simp add: nat_of_digits_value digits_value_append)

lemma digit_value_zero [simp]: "digit_value CHR ''0'' = 0"
  by (simp add: digit_value_def)

lemma nat_of_digits_zeros [simp]: "nat_of_digits (replicate n CHR ''0'') = 0"
  by (simp add: nat_of_digits_value)

lemma nat_of_digits_zero [simp]:
  "nat_of_digits [] = 0" "nat_of_digits (CHR ''0'' # cs) = nat_of_digits cs"
  by (simp_all add: nat_of_digits_value digits_value_Cons)

lemma digit_value_bound: "is_ascii_digit c \<Longrightarrow> digit_value c \<le> 9"
  by (simp add: is_ascii_digit_def byte_between_def digit_value_def le_diff_conv)

lemma base100_simps [simp]:
  "base100 [] = 0" "base100 (ds @ [d]) = base100 ds * 100 + d"
  by (simp_all add: base100_def)

lemma base100_Cons: "base100 (d # ds) = d * 100 ^ length ds + base100 ds"
proof (induction ds rule: rev_induct)
  case (snoc x ds)
  have "base100 (d # ds @ [x]) = base100 (d # ds) * 100 + x"
    using base100_simps(2) [of "d # ds" x] by simp
  with snoc show ?case by simp
qed (simp add: base100_def)

lemma digit_pairs_base100: "length ds = 2 * n \<Longrightarrow> base100 (digit_pairs n ds) = digits_value ds \<and>
    length (digit_pairs n ds) = n"
proof (induction n ds rule: digit_pairs.induct, goal_cases)
  case (1 n a b ds)
  moreover have "(100 :: nat) ^ n = 10 ^ (2 * n)" by (simp add: power_mult)
  ultimately show ?case by (simp add: base100_Cons digits_value_Cons algebra_simps)
next
  case (4 n v)
  then have "Suc 0 = 2 * n" by simp
  then show ?case by presburger
qed simp_all

lemma digit_pairs_take: "digit_pairs n ds = digit_pairs n (take (2 * n) ds)"
proof (induction n ds rule: digit_pairs.induct, goal_cases)
  case (3 n)
  then show ?case by simp
next
  case (4 n d)
  then show ?case by (cases n) simp_all
qed simp_all

lemma digit_pairs_le: "\<forall>d \<in> set ds. d \<le> 9 \<Longrightarrow> \<forall>d \<in> set (digit_pairs n ds). d \<le> 99"
  by (induction n ds rule: digit_pairs.induct) auto

lemma trim_zeros:
  obtains k where "xs = rev (dropWhile ((=) z) (rev xs)) @ replicate k z"
proof -
  have "xs = rev (dropWhile ((=) z) (rev xs)) @ rev (takeWhile ((=) z) (rev xs))"
    by (metis rev_append rev_rev_ident takeWhile_dropWhile_id)
  moreover have "rev (takeWhile ((=) z) (rev xs)) = replicate (length (takeWhile ((=) z) (rev xs))) z"
    by (rule replicate_eqI) (auto dest: set_takeWhileD)
  ultimately show thesis using that by metis
qed

section \<open>The scan\<close>

lemma scan_integer_digits:
  "scan_integer ds cs = Some (ds', rest) \<Longrightarrow>
     rest = dropWhile is_ascii_digit cs \<and>
     digits_value ds' = digits_value (ds @ map digit_value (takeWhile is_ascii_digit cs)) \<and>
     length ds' \<le> length ds + length (takeWhile is_ascii_digit cs) \<and>
     ((\<forall>d \<in> set ds. d \<le> 9) \<longrightarrow> (\<forall>d \<in> set ds'. d \<le> 9))"
proof (induction ds cs rule: scan_integer.induct)
  case (2 ds c cs)
  show ?case
  proof (cases "is_ascii_digit c")
    case True
    show ?thesis
    proof (cases "digit_value c = 0 \<and> ds = []")
      case zero: True
      with 2(1) [OF True] 2(3) True show ?thesis by (simp add: digits_value_Cons)
    next
      case False
      with 2(2) [OF True] 2(3) True digit_value_bound [OF True] show ?thesis by simp
    qed
  next
    case False
    with 2(3) show ?thesis by (auto split: if_splits)
  qed
qed simp

lemma scan_fraction_digits:
  "scan_fraction ds dpi cs = Some (ds', dpi', rest) \<Longrightarrow>
     rest = dropWhile is_ascii_digit cs \<and>
     digits_value ds' = digits_value (ds @ map digit_value (takeWhile is_ascii_digit cs)) \<and>
     dpi' - word_of_nat (length ds') =
       dpi - word_of_nat (length ds) - word_of_nat (length (takeWhile is_ascii_digit cs)) \<and>
     length ds' \<le> length ds + length (takeWhile is_ascii_digit cs) \<and>
     ((\<forall>d \<in> set ds. d \<le> 9) \<longrightarrow> (\<forall>d \<in> set ds'. d \<le> 9))"
proof (induction ds dpi cs rule: scan_fraction.induct)
  case (2 ds dpi c cs)
  show ?case
  proof (cases "is_ascii_digit c")
    case True
    show ?thesis
    proof (cases "digit_value c = 0 \<and> ds = []")
      case zero: True
      with 2(1) [OF True] 2(3) True show ?thesis by (simp add: digits_value_Cons)
    next
      case False
      with 2(2) [OF True] 2(3) True digit_value_bound [OF True] show ?thesis by simp
    qed
  next
    case False
    with 2(3) show ?thesis by (auto split: if_splits)
  qed
qed simp

lemma scan_exponent_value:
  assumes "scan_exponent val cs = Inr e"
  shows "e = word_of_int (exponent_value cs) \<and> \<bar>exponent_value cs\<bar> < 2 ^ 15"
proof -
  have t: "(if cs \<noteq> [] \<and> (hd cs = CHR ''-'' \<or> hd cs = CHR ''+'') then tl cs else cs) = snd (split_sign cs)"
    "(cs \<noteq> [] \<and> hd cs = CHR ''-'') = fst (split_sign cs)"
    by (auto simp: split_sign_def)
  show ?thesis
    using assms unfolding scan_exponent_def t Let_def
    by (auto simp: exponent_value_def split: if_splits prod.splits)
qed

text \<open>The decimal point a text asks for, before the scan keeps it in sixteen bits.\<close>

definition point_index :: "string \<Rightarrow> nat list \<Rightarrow> int" where
  "point_index val ds =
     (let body = snd (split_sign val);
          rest = dropWhile is_ascii_digit body;
          pointed = (rest \<noteq> [] \<and> hd rest = CHR ''.'');
          fraction = (if pointed then takeWhile is_ascii_digit (tl rest) else []);
          rest = (if pointed then dropWhile is_ascii_digit (tl rest) else rest)
      in int (length ds) - int (length fraction) + (if rest = [] then 0 else exponent_value (tl rest)))"

lemma scan_number_value:
  assumes "scan_number val = Inr (negative, ds, dpi)" "val \<noteq> []"
  shows "dpi = word_of_int (point_index val ds)"
    "decimal_value negative (digits_value ds) (point_index val ds - int (length ds)) = text_value val"
    "\<forall>d \<in> set ds. d \<le> 9" "\<bar>point_index val ds\<bar> < int (length val) + 2 ^ 15"
proof -
  define body where "body = snd (split_sign val)"
  define rest where "rest = dropWhile is_ascii_digit body"
  define pointed where "pointed \<longleftrightarrow> rest \<noteq> [] \<and> hd rest = CHR ''.''"
  define fraction where "fraction = (if pointed then takeWhile is_ascii_digit (tl rest) else [])"
  define rest' where "rest' = (if pointed then dropWhile is_ascii_digit (tl rest) else rest)"
  define e where "e = (if rest' = [] then 0 else exponent_value (tl rest'))"
  have split: "split_sign val = (hd val = CHR ''-'', body)"
    "(if hd val = CHR ''-'' \<or> hd val = CHR ''+'' then tl val else val) = body"
    using assms(2) by (auto simp: body_def split_sign_def)
  obtain ds1 r1 where s1: "scan_integer [] body = Some (ds1, r1)"
    using assms(1) by (auto simp: scan_number_def split(2) Let_def split: if_splits option.splits)
  note i = scan_integer_digits [OF s1, folded rest_def]
  obtain ds2 dpi2 r2 where s2:
    "(if pointed then scan_fraction ds1 (word_of_nat (length ds1)) (tl rest)
      else Some (ds1, word_of_nat (length ds1), rest)) = Some (ds2, dpi2, r2)"
    and k: "(if r2 = [] then Inr (hd val = CHR ''-'', ds2, dpi2)
      else (case scan_exponent val (tl r2) of Inl e \<Rightarrow> Inl e
        | Inr x \<Rightarrow> Inr (hd val = CHR ''-'', ds2, dpi2 + x))) = Inr (negative, ds, dpi)"
    using assms(1) i
    by (auto simp: scan_number_def split(2) Let_def s1 pointed_def split: if_splits option.splits)
  have f: "r2 = rest'" "digits_value ds2 = digits_value (ds1 @ map digit_value fraction)"
    "dpi2 = word_of_nat (length ds2) - word_of_nat (length fraction)"
    "length ds2 \<le> length ds1 + length fraction" "\<forall>d \<in> set ds2. d \<le> 9"
    using s2 i scan_fraction_digits [of ds1 "word_of_nat (length ds1)" "tl rest" ds2 dpi2 r2]
    by (auto simp: rest'_def fraction_def algebra_simps split: if_splits)
  have d: "ds = ds2" "negative = (hd val = CHR ''-'')" "dpi = dpi2 + word_of_int e" "\<bar>e\<bar> < 2 ^ 15"
    using k f(1) by (auto simp: e_def split: if_splits sum.splits dest: scan_exponent_value)
  have p: "point_index val ds = int (length ds2) - int (length fraction) + e"
    using d(1) by (simp add: point_index_def Let_def body_def rest_def pointed_def fraction_def rest'_def e_def)
  show "dpi = word_of_int (point_index val ds)" by (simp add: p d(3) f(3))
  show "\<forall>d \<in> set ds. d \<le> 9" using f(5) d(1) by simp
  have "text_value val = decimal_value negative
      (nat_of_digits (takeWhile is_ascii_digit body @ fraction)) (e - int (length fraction))"
    unfolding text_value_def split Let_def
    by (simp add: d(2) body_def rest_def pointed_def fraction_def rest'_def e_def)
  moreover have "digits_value ds = nat_of_digits (takeWhile is_ascii_digit body @ fraction)"
    using i f(2) d(1) by (simp add: nat_of_digits_value digits_value_append)
  ultimately show "decimal_value negative (digits_value ds) (point_index val ds - int (length ds))
      = text_value val"
    using d(1) p by simp
  have "length (takeWhile is_ascii_digit body) + length fraction \<le> length body"
  proof -
    have "length (takeWhile is_ascii_digit body) + length rest = length body"
      unfolding rest_def length_append [symmetric] by simp
    moreover have "length fraction \<le> length rest"
      using length_takeWhile_le [of is_ascii_digit "tl rest"]
      by (cases rest) (simp_all add: fraction_def le_SucI)
    ultimately show ?thesis by simp
  qed
  moreover have "length body \<le> length val" by (auto simp: body_def split_sign_def)
  ultimately have "length ds2 \<le> length val" "length fraction \<le> length val" using i f(4) by simp_all
  then show "\<bar>point_index val ds\<bar> < int (length val) + 2 ^ 15" using p d(4) by simp
qed

section \<open>Packing\<close>

lemma sint_word_of_int_16:
  assumes "- (2 ^ 15) \<le> k" "k < 2 ^ 15"
  shows "sint (word_of_int k :: 16 word) = k"
  using assms by (simp add: signed_of_int signed_take_bit_int_eq_self)

text \<open>A wrapped index that looks like one of \<^verbatim>\<open>NUMBER\<close> is one, for texts of less than 32,000 bytes.\<close>

lemma wrapped_index:
  assumes "\<bar>k\<bar> < 32000 + 2 ^ 15" "- 129 \<le> sint (word_of_int k :: 16 word)"
    "sint (word_of_int k :: 16 word) \<le> 126"
  shows "sint (word_of_int k :: 16 word) = k"
proof -
  let ?s = "sint (word_of_int k :: 16 word)"
  have "(word_of_int ?s :: 16 word) = word_of_int k" by simp
  from word_of_int_eq_iff [THEN iffD1, OF this] have "?s mod 65536 = k mod 65536"
    unfolding take_bit_eq_mod by simp
  then have "65536 dvd (?s - k)" by (simp add: mod_eq_dvd_iff)
  then obtain q where q: "?s - k = 65536 * q" by (auto elim: dvdE)
  have "\<bar>?s - k\<bar> < 65536" using assms by simp
  with q have "q = 0" by simp
  with q show ?thesis by simp
qed

lemma power_int_100: "(100 :: rat) powi k = 10 powi (2 * k)"
  using power_int_power [of "10 :: rat" 2 k] by simp

lemma decimal_value_shift:
  "decimal_value negative (n * 10 ^ k) scale = decimal_value negative n (scale + int k)"
  by (simp add: decimal_value_def power_int_add mult_ac)

text \<open>The base-100 digits of a packed number.\<close>

definition packed_pairs :: "nat list \<Rightarrow> int \<Rightarrow> nat list" where
  "packed_pairs ds k =
     (let odd_point = (k mod 2 \<noteq> 0);
          ds = (if odd_point then ds @ [0] else ds);
          ds = (if length ds mod 2 \<noteq> 0 then ds @ [0] else ds)
      in if odd_point then hd ds # digit_pairs (length ds div 2 - 1) (tl ds)
         else digit_pairs (length ds div 2) ds)"

lemma packed_pairs_even:
  assumes "k mod 2 = 0" "ds \<noteq> []" "\<forall>d \<in> set ds. d \<le> 9"
  shows "decimal_value negative (base100 (packed_pairs ds k)) (k - 2 * int (length (packed_pairs ds k)))
      = decimal_value negative (digits_value ds) (k - int (length ds))"
    "packed_pairs ds k \<noteq> []" "\<forall>d \<in> set (packed_pairs ds k). d \<le> 99"
proof -
  define es where "es = (if length ds mod 2 \<noteq> 0 then ds @ [0] else ds)"
  define n where "n = length es div 2"
  have n: "length es = 2 * n" unfolding n_def es_def by (auto; presburger)
  have p: "packed_pairs ds k = digit_pairs n es"
    using assms(1) by (simp add: packed_pairs_def Let_def n_def es_def)
  note b = digit_pairs_base100 [OF n]
  have "es \<noteq> []" using assms(2) by (auto simp: es_def)
  with n have "0 < n" by (cases n) auto
  with b p show "packed_pairs ds k \<noteq> []" by auto
  show "\<forall>d \<in> set (packed_pairs ds k). d \<le> 99"
    unfolding p by (rule digit_pairs_le) (use assms(3) in \<open>auto simp: es_def\<close>)
  have "digits_value es = digits_value ds * 10 ^ (length es - length ds)"
    by (simp add: es_def)
  moreover have "length ds \<le> length es" by (simp add: es_def)
  ultimately show "decimal_value negative (base100 (packed_pairs ds k)) (k - 2 * int (length (packed_pairs ds k)))
      = decimal_value negative (digits_value ds) (k - int (length ds))"
    using b p n by (simp add: decimal_value_shift)
qed

lemma packed_pairs_odd:
  assumes "k mod 2 \<noteq> 0" "ds \<noteq> []" "\<forall>d \<in> set ds. d \<le> 9"
  shows "decimal_value negative (base100 (packed_pairs ds k)) (k + 1 - 2 * int (length (packed_pairs ds k)))
      = decimal_value negative (digits_value ds) (k - int (length ds))"
    "packed_pairs ds k \<noteq> []" "\<forall>d \<in> set (packed_pairs ds k). d \<le> 99"
proof -
  define es where "es = (if length (ds @ [0]) mod 2 \<noteq> 0 then ds @ [0, 0] else ds @ [0])"
  define n where "n = length es div 2"
  have n: "length es = 2 * n" unfolding n_def es_def by (auto; presburger)
  moreover have "length es \<noteq> 0" by (simp add: es_def)
  ultimately have n0: "0 < n" by simp
  obtain d fs where ds: "ds = d # fs" using assms(2) by (cases ds) auto
  define gs where "gs = take (2 * (n - 1)) (tl es)"
  have es: "es = d # gs @ [0]" "length gs = 2 * (n - 1)"
  proof -
    have "length (tl es) = 2 * (n - 1) + 1" using n n0 by simp
    then have "tl es = gs @ [last (tl es)]"
      by (metis append_butlast_last_id butlast_conv_take diff_add_inverse2 gs_def length_0_conv
          add_is_0 one_neq_zero)
    moreover have "last (tl es) = 0" "es = d # tl es" using ds by (auto simp: es_def)
    ultimately show "es = d # gs @ [0]" "length gs = 2 * (n - 1)" using n n0 by (auto simp: gs_def)
  qed
  have "packed_pairs ds k = hd es # digit_pairs (n - 1) (tl es)"
    using assms(1) by (simp add: packed_pairs_def Let_def n_def es_def)
  moreover have "hd es = d" using es(1) by simp
  ultimately have p: "packed_pairs ds k = d # digit_pairs (n - 1) gs"
    using digit_pairs_take [of "n - 1" "tl es"] by (simp add: gs_def)
  note b = digit_pairs_base100 [OF es(2)]
  show "packed_pairs ds k \<noteq> []" by (simp add: p)
  have "\<forall>x \<in> set es. x \<le> 9" using assms(3) by (auto simp: es_def)
  then show "\<forall>d \<in> set (packed_pairs ds k). d \<le> 99"
    using digit_pairs_le [of gs "n - 1"] es(1) by (auto simp: p)
  have "base100 (packed_pairs ds k) = digits_value (d # gs)"
    using b es(2) by (simp add: p base100_Cons digits_value_Cons power_mult)
  moreover have "digits_value (d # gs) = digits_value ds * 10 ^ (length (d # gs) - length ds)"
    "length ds \<le> length (d # gs)"
    using es(1) ds by (auto simp: es_def append_eq_Cons_conv digits_value_Cons split: if_splits)
  ultimately show "decimal_value negative (base100 (packed_pairs ds k)) (k + 1 - 2 * int (length (packed_pairs ds k)))
      = decimal_value negative (digits_value ds) (k - int (length ds))"
    using b es(2) n0 by (simp add: decimal_value_shift p)
qed

subsection \<open>Bytes\<close>

lemma digit_bytes:
  assumes "d \<le> 99"
  shows "decode_digit False (word_of_nat d + 1) = d" "decode_digit True (101 - word_of_nat d) = d"
    "(101 - word_of_nat d :: byte) \<noteq> 102"
proof -
  have "unat (word_of_nat d + 1 :: byte) = d + 1"
    using unat_word_of_nat_byte [of "d + 1"] assms by (simp add: add.commute)
  then show "decode_digit False (word_of_nat d + 1) = d" by (simp add: decode_digit_def)
  have "(101 - word_of_nat d :: byte) = word_of_nat (101 - d)" using assms by (simp add: of_nat_diff)
  then have u: "unat (101 - word_of_nat d :: byte) = 101 - d"
    using unat_word_of_nat_byte [of "101 - d"] assms by simp
  then show "decode_digit True (101 - word_of_nat d) = d" using assms by (simp add: decode_digit_def)
  show "(101 - word_of_nat d :: byte) \<noteq> 102"
  proof
    assume "(101 - word_of_nat d :: byte) = 102"
    then have "unat (101 - word_of_nat d :: byte) = unat (102 :: byte)" by (rule arg_cong)
    with u show False by simp
  qed
qed

definition pack_digits :: "bool \<Rightarrow> nat list \<Rightarrow> byte list" where
  "pack_digits negative pairs =
     map (\<lambda>digit. if negative then 101 - word_of_nat digit else word_of_nat digit + 1) pairs"

lemma pack_digits_decode:
  assumes "\<forall>d \<in> set pairs. d \<le> 99"
  shows "map (decode_digit negative) (pack_digits negative pairs) = pairs"
    "negative \<Longrightarrow> pairs \<noteq> [] \<Longrightarrow> last (pack_digits negative pairs) \<noteq> 102"
proof -
  show "map (decode_digit negative) (pack_digits negative pairs) = pairs"
    using assms by (cases negative) (auto simp: pack_digits_def digit_bytes intro!: map_idI)
  show "negative \<Longrightarrow> pairs \<noteq> [] \<Longrightarrow> last (pack_digits negative pairs) \<noteq> 102"
    using assms digit_bytes(3) [of "last pairs"] by (simp add: pack_digits_def last_map)
qed

text \<open>The exponent byte of an even index and how it reads.\<close>

lemma exponent_byte:
  assumes "- 64 \<le> q" "q \<le> 63"
  defines "x \<equiv> word_of_int (q + 192) :: byte"
  shows "int (unat x) = q + 192" "int (unat (NOT x)) = 63 - q"
proof -
  have "uint x = q + 192" using byte_of_int [of "q + 192"] assms(1,2) by (simp add: x_def)
  then show u: "int (unat x) = q + 192" by simp
  have "(255 :: byte) = - 1" by simp
  then have "NOT x = word_of_int (255 - uint x)" by (simp add: not_eq_complement)
  moreover have "0 \<le> 255 - uint x" "255 - uint x < 256" using unsigned_less [of x, where ?'a = int] unsigned_greater_eq [of x, where ?'a = int]
    by (simp, linarith)
  ultimately have "uint (NOT x) = 255 - uint x" using byte_of_int by metis
  then show "int (unat (NOT x)) = 63 - q" using u by simp
qed

lemma pack_number_bytes:
  assumes "- 129 \<le> k" "k \<le> 126"
  defines "q \<equiv> (if k mod 2 \<noteq> 0 then k + 1 else k) div 2"
  obtains terminator where
    "pack_number negative ds (word_of_int k) =
       (if negative then NOT (word_of_int (q + 192)) else word_of_int (q + 192))
         # pack_digits negative (packed_pairs ds k) @ terminator"
    "terminator = [] \<or> negative \<and> terminator = [102]" "- 64 \<le> q" "q \<le> 63"
proof -
  have s: "sint (word_of_int k :: 16 word) = k" using assms(1,2) by (intro sint_word_of_int_16) simp_all
  have m: "(k smod 2 \<noteq> 0) = (k mod 2 \<noteq> 0)"
    by (auto simp: signed_modulo_int_def sgn_if abs_if split: if_splits) presburger+
  have "sint (if k mod 2 \<noteq> 0 then word_of_int k + 1 else word_of_int k :: 16 word)
      = (if k mod 2 \<noteq> 0 then k + 1 else k)"
    using assms(1,2) s sint_word_of_int_16 [of "k + 1"] by (auto simp: ac_simps)
  moreover have "(if k mod 2 \<noteq> 0 then k + 1 else k) sdiv 2 = q"
    by (auto simp: q_def signed_divide_int_def sgn_if) presburger+
  ultimately have e: "sint (if k mod 2 \<noteq> 0 then word_of_int k + 1 else word_of_int k :: 16 word) sdiv 2 = q"
    by simp
  show thesis
  proof (rule that)
    show "- 64 \<le> q" "q \<le> 63" using assms(1,2) by (auto simp: q_def)
    let ?es = "if k mod 2 \<noteq> 0 then ds @ [0] else ds"
    let ?fs = "if length ?es mod 2 \<noteq> 0 then ?es @ [0] else ?es"
    let ?t = "if negative \<and> length ?fs < 38 then [102] else [] :: byte list"
    show "?t = [] \<or> negative \<and> ?t = [102]" by simp
    show "pack_number negative ds (word_of_int k) =
       (if negative then NOT (word_of_int (q + 192)) else word_of_int (q + 192))
         # pack_digits negative (packed_pairs ds k) @ ?t"
      unfolding pack_number_def s m Let_def e pack_digits_def packed_pairs_def by simp
  qed
qed

lemma hundreds_packed:
  assumes "- 64 \<le> q" "q \<le> 63" "pairs \<noteq> []" "\<forall>d \<in> set pairs. d \<le> 99"
    "terminator = [] \<or> negative \<and> terminator = [102]"
    "bs = (if negative then NOT (word_of_int (q + 192)) else word_of_int (q + 192))
       # pack_digits negative pairs @ terminator"
  shows "hundreds bs = (negative, q, pairs)" "2 \<le> length bs"
proof -
  note e = exponent_byte [OF assms(1,2)]
  note d = pack_digits_decode [OF assms(4), of negative]
  have neg: "(unat (hd bs) < 128) = negative"
    using e assms(1,2,6) by (cases negative) (simp_all flip: of_nat_less_iff [where ?'a = int])
  have ne: "pack_digits negative pairs \<noteq> []" using assms(3) by (simp add: pack_digits_def)
  have "(if negative \<and> tl bs \<noteq> [] \<and> last (tl bs) = 102 then butlast (tl bs) else tl bs)
      = pack_digits negative pairs"
    using assms(3,5,6) d(2) ne by (auto simp: butlast_append)
  moreover have "(if negative then 63 - int (unat (hd bs)) else int (unat (hd bs)) - 192) = q"
    using e assms(6) by simp
  ultimately show "hundreds bs = (negative, q, pairs)"
    unfolding hundreds_def Let_def neg using d(1) by simp
  show "2 \<le> length bs" using ne assms(6) by (cases "pack_digits negative pairs") simp_all
qed

lemma pack_number_value:
  assumes "- 129 \<le> k" "k \<le> 126" "ds \<noteq> []" "\<forall>d \<in> set ds. d \<le> 9"
  shows "number_value (pack_number negative ds (word_of_int k)) =
      decimal_value negative (digits_value ds) (k - int (length ds))"
    "\<exists>q pairs. hundreds (pack_number negative ds (word_of_int k)) = (negative, q, pairs) \<and>
       pairs \<noteq> [] \<and> (\<forall>d \<in> set pairs. d \<le> 99)"
    "2 \<le> length (pack_number negative ds (word_of_int k))"
proof -
  let ?bs = "pack_number negative ds (word_of_int k)"
  let ?q = "(if k mod 2 \<noteq> 0 then k + 1 else k) div 2"
  let ?ps = "packed_pairs ds k"
  obtain terminator where t: "?bs =
      (if negative then NOT (word_of_int (?q + 192)) else word_of_int (?q + 192)) # pack_digits negative ?ps @ terminator"
    "terminator = [] \<or> negative \<and> terminator = [102]" "- 64 \<le> ?q" "?q \<le> 63"
    using assms(1,2) by (rule pack_number_bytes [of k negative ds])
  have q: "2 * ?q = (if k mod 2 \<noteq> 0 then k + 1 else k)" by presburger
  have ps: "?ps \<noteq> []" "\<forall>d \<in> set ?ps. d \<le> 99"
    "decimal_value negative (base100 ?ps) (2 * ?q - 2 * int (length ?ps))
       = decimal_value negative (digits_value ds) (k - int (length ds))"
    using packed_pairs_even(2,3) [OF _ assms(3,4), of k] packed_pairs_odd(2,3) [OF _ assms(3,4), of k]
      packed_pairs_even(1) [OF _ assms(3,4), of k negative] packed_pairs_odd(1) [OF _ assms(3,4), of k negative]
    unfolding q by (cases "k mod 2 = 0"; force)+
  note h = hundreds_packed [OF t(3,4) ps(1,2) t(2,1)]
  then show "\<exists>q pairs. hundreds ?bs = (negative, q, pairs) \<and> pairs \<noteq> [] \<and> (\<forall>d \<in> set pairs. d \<le> 99)"
    using ps by blast
  show "2 \<le> length ?bs" by (rule h(2))
  then have "?bs \<noteq> [0x80]" by (cases ?bs) auto
  then have "number_value ?bs = decimal_value negative (base100 ?ps) (2 * ?q - 2 * int (length ?ps))"
    by (simp add: number_value_def h(1) decimal_value_def power_int_100 right_diff_distrib)
  then show "number_value ?bs = decimal_value negative (digits_value ds) (k - int (length ds))"
    using ps(3) by simp
qed

lemma encode_oracle_number_value:
  assumes "encode_oracle_number text = Inr bs" "length (trim text) < 32000"
  shows "number_value bs = text_value (trim text)"
    "bs = [0x80] \<or> 2 \<le> length bs \<and>
       (\<exists>negative q pairs. hundreds bs = (negative, q, pairs) \<and> pairs \<noteq> [] \<and> (\<forall>d \<in> set pairs. d \<le> 99))"
proof -
  let ?val = "trim text"
  obtain negative ds dpi where s: "?val \<noteq> []" "scan_number ?val = Inr (negative, ds, dpi)"
    using assms(1) by (auto simp: encode_oracle_number_def Let_def split: if_splits sum.splits)
  define es where "es = rev (dropWhile ((=) 0) (rev ds))"
  have b: "bs = (if es = [] then [0x80] else pack_number negative es dpi)"
    "es \<noteq> [] \<Longrightarrow> - 129 \<le> sint dpi \<and> sint dpi \<le> 126"
    using assms(1) s by (auto simp: encode_oracle_number_def Let_def es_def split: if_splits)
  note v = scan_number_value [OF s(2,1)]
  obtain n where n: "ds = es @ replicate n 0" unfolding es_def by (rule trim_zeros)
  have val: "decimal_value negative (digits_value es) (point_index ?val ds - int (length es)) = text_value ?val"
    using v(2) decimal_value_shift [of negative "digits_value es" n "point_index ?val ds - int (length ds)"]
    by (simp add: n digits_value_append)
  have w: "dpi = word_of_int (point_index ?val ds)" "\<bar>point_index ?val ds\<bar> < 32000 + 2 ^ 15"
    using v(1,4) assms(2) by simp_all
  show "number_value bs = text_value ?val" "bs = [0x80] \<or> 2 \<le> length bs \<and>
      (\<exists>negative q pairs. hundreds bs = (negative, q, pairs) \<and> pairs \<noteq> [] \<and> (\<forall>d \<in> set pairs. d \<le> 99))"
  proof (atomize(full), cases "es = []")
    case True
    with val b show "number_value bs = text_value ?val \<and> (bs = [0x80] \<or> 2 \<le> length bs \<and>
      (\<exists>negative q pairs. hundreds bs = (negative, q, pairs) \<and> pairs \<noteq> [] \<and> (\<forall>d \<in> set pairs. d \<le> 99)))"
      by (simp add: number_value_def decimal_value_def)
  next
    case False
    have "sint dpi = point_index ?val ds" using wrapped_index [of "point_index ?val ds"] b(2) False w by simp
    with b(2) False have k: "- 129 \<le> point_index ?val ds" "point_index ?val ds \<le> 126" by simp_all
    have "\<forall>d \<in> set es. d \<le> 9" using v(3) n by simp
    from pack_number_value [OF k False this, of negative] b(1) False val w(1)
    show "number_value bs = text_value ?val \<and> (bs = [0x80] \<or> 2 \<le> length bs \<and>
      (\<exists>negative q pairs. hundreds bs = (negative, q, pairs) \<and> pairs \<noteq> [] \<and> (\<forall>d \<in> set pairs. d \<le> 99)))"
      by auto
  qed
qed

section \<open>Decoded text\<close>

lemma digit_chars: "d \<le> 9 \<Longrightarrow> is_ascii_digit (char_of (48 + d)) \<and> digit_value (char_of (48 + d)) = d"
  by (simp add: is_ascii_digit_def byte_between_def digit_value_def)

lemma digit_text_digits:
  assumes "\<forall>d \<in> set ds. d \<le> 99"
  shows "list_all is_ascii_digit (concat (map digit_text ds)) \<and>
    nat_of_digits (concat (map digit_text ds)) = base100 ds \<and>
    length (concat (map digit_text ds)) = 2 * length ds"
  using assms
proof (induction ds rule: rev_induct)
  case (snoc d ds)
  then have "d \<le> 99" by simp
  then have "d div 10 \<le> 9" "d mod 10 \<le> 9" using div_le_mono [of d 99 10] by simp_all
  note c = digit_chars [OF this(1)] digit_chars [OF this(2)]
  have "nat_of_digits (digit_text d) = d"
    using c by (simp add: digit_text_def nat_of_digits_def)
  moreover have "length (digit_text d) = 2" "list_all is_ascii_digit (digit_text d)"
    using c by (simp_all add: digit_text_def)
  ultimately show ?case using snoc by (simp add: nat_of_digits_append)
qed (simp add: nat_of_digits_def)

lemma takeWhile_digits: "list_all is_ascii_digit xs \<Longrightarrow> takeWhile is_ascii_digit xs = xs"
  "list_all is_ascii_digit xs \<Longrightarrow> dropWhile is_ascii_digit xs = []"
  "list_all is_ascii_digit xs \<Longrightarrow> takeWhile is_ascii_digit (xs @ CHR ''.'' # ys) = xs"
  "list_all is_ascii_digit xs \<Longrightarrow> dropWhile is_ascii_digit (xs @ CHR ''.'' # ys) = CHR ''.'' # ys"
proof -
  have "\<not> is_ascii_digit CHR ''.''" by (simp add: is_ascii_digit_def byte_between_def)
  then show "list_all is_ascii_digit xs \<Longrightarrow> takeWhile is_ascii_digit xs = xs"
    "list_all is_ascii_digit xs \<Longrightarrow> dropWhile is_ascii_digit xs = []"
    "list_all is_ascii_digit xs \<Longrightarrow> takeWhile is_ascii_digit (xs @ CHR ''.'' # ys) = xs"
    "list_all is_ascii_digit xs \<Longrightarrow> dropWhile is_ascii_digit (xs @ CHR ''.'' # ys) = CHR ''.'' # ys"
    by (simp_all add: list_all_iff takeWhile_append dropWhile_append3 dropWhile_append2)
qed

text \<open>Plain texts: digits, or digits around a decimal point.\<close>

definition plain :: "string \<Rightarrow> nat \<Rightarrow> int \<Rightarrow> bool" where
  "plain t n scale \<longleftrightarrow>
     (\<exists>i f. i \<noteq> [] \<and> list_all is_ascii_digit i \<and> list_all is_ascii_digit f \<and>
        (t = i \<and> f = [] \<or> t = i @ ''.'' @ f) \<and>
        decimal_value False (nat_of_digits (i @ f)) (- int (length f)) = decimal_value False n scale)"

lemma plain_value:
  assumes "plain t n scale"
  shows "text_value t = decimal_value False n scale" "text_value (CHR ''-'' # t) = decimal_value True n scale"
    "hd t \<noteq> CHR ''.''" "t \<noteq> []"
proof -
  obtain i f where t: "i \<noteq> []" "list_all is_ascii_digit i" "list_all is_ascii_digit f"
    "t = i \<and> f = [] \<or> t = i @ ''.'' @ f"
    "decimal_value False (nat_of_digits (i @ f)) (- int (length f)) = decimal_value False n scale"
    using assms by (auto simp: plain_def)
  have c: "\<not> is_ascii_digit CHR ''-''" "\<not> is_ascii_digit CHR ''+''" "\<not> is_ascii_digit CHR ''.''"
    by (simp_all add: is_ascii_digit_def byte_between_def)
  have h: "is_ascii_digit (hd i)" using t(1,2) by (cases i) simp_all
  then have "hd t = hd i" "hd i \<noteq> CHR ''-''" "hd i \<noteq> CHR ''+''" "hd i \<noteq> CHR ''.''" using t(1,4) c by auto
  then show "hd t \<noteq> CHR ''.''" "t \<noteq> []" using t(1,4) by auto
  from \<open>hd t = hd i\<close> \<open>hd i \<noteq> CHR ''-''\<close> \<open>hd i \<noteq> CHR ''+''\<close>
  have s: "split_sign t = (False, t)" "split_sign (CHR ''-'' # t) = (True, t)"
    by (simp_all add: split_sign_def)
  have w: "text_value t = decimal_value False (nat_of_digits (i @ f)) (- int (length f)) \<and>
    text_value (CHR ''-'' # t) = decimal_value True (nat_of_digits (i @ f)) (- int (length f))"
    using t(4)
  proof
    assume "t = i \<and> f = []"
    with t(2) show ?thesis unfolding text_value_def s Let_def by (simp add: takeWhile_digits(1,2))
  next
    assume "t = i @ ''.'' @ f"
    with t(2,3) c(3) show ?thesis
      unfolding text_value_def s Let_def by (simp add: takeWhile_digits)
  qed
  have "decimal_value True m k = - decimal_value False m k" for m k
    by (simp add: decimal_value_def sign_of_def)
  with w show "text_value t = decimal_value False n scale"
    "text_value (CHR ''-'' # t) = decimal_value True n scale" using t(5) by simp_all
qed

lemma plain_digits:
  "i \<noteq> [] \<Longrightarrow> list_all is_ascii_digit i \<Longrightarrow>
   decimal_value False (nat_of_digits i) 0 = decimal_value False n scale \<Longrightarrow> plain i n scale"
  unfolding plain_def by (intro exI [of _ i] exI [of _ "[]"]) simp

lemma plain_pointed:
  "i \<noteq> [] \<Longrightarrow> list_all is_ascii_digit i \<Longrightarrow> list_all is_ascii_digit f \<Longrightarrow>
   decimal_value False (nat_of_digits (i @ f)) (- int (length f)) = decimal_value False n scale \<Longrightarrow>
   plain (i @ ''.'' @ f) n scale"
  unfolding plain_def by (intro exI [of _ i] exI [of _ f]) simp

lemma place_point_plain:
  assumes "list_all is_ascii_digit ds" "ds \<noteq> []"
  shows "plain (place_point ds scale) (nat_of_digits ds) scale"
proof -
  have z: "list_all is_ascii_digit (replicate n CHR ''0'')" for n
    by (simp add: list_all_iff is_ascii_digit_def byte_between_def)
  consider "0 < scale" | "scale = 0" | "scale < 0" "int (length ds) + scale \<le> 0"
    | "scale < 0" "0 < int (length ds) + scale" by linarith
  then show ?thesis
  proof cases
    case 1
    have "plain (ds @ replicate (nat scale) CHR ''0'') (nat_of_digits ds) scale"
      by (rule plain_digits)
        (use 1 assms z decimal_value_shift [of False "nat_of_digits ds" "nat scale" 0] in
          \<open>simp_all add: nat_of_digits_append\<close>)
    with 1 show ?thesis by (simp add: place_point_def)
  next
    case 2
    then show ?thesis using assms by (simp add: place_point_def plain_digits)
  next
    case 3
    let ?f = "replicate (nat (- (int (length ds) + scale))) CHR ''0'' @ ds"
    have "nat_of_digits (''0'' @ ?f) = nat_of_digits ds" "- int (length ?f) = scale"
      using 3 by (simp_all add: nat_of_digits_append)
    then have "plain (''0'' @ ''.'' @ ?f) (nat_of_digits ds) scale"
      using assms z [of 1] z by (intro plain_pointed) simp_all
    with 3 show ?thesis by (simp add: place_point_def)
  next
    case 4
    let ?p = "nat (int (length ds) + scale)"
    have "list_all is_ascii_digit (take ?p ds)" "list_all is_ascii_digit (drop ?p ds)"
      using assms(1) by (metis append_take_drop_id list_all_append)+
    then have "plain (take ?p ds @ ''.'' @ drop ?p ds) (nat_of_digits ds) scale"
      using 4 assms(2) by (intro plain_pointed) simp_all
    with 4 show ?thesis by (simp add: place_point_def Let_def)
  qed
qed

lemma trim_fraction_plain:
  assumes "plain t n scale"
  shows "plain (trim_fraction t) n scale"
proof -
  obtain i f where t: "i \<noteq> []" "list_all is_ascii_digit i" "list_all is_ascii_digit f"
    "t = i \<and> f = [] \<or> t = i @ ''.'' @ f"
    "decimal_value False (nat_of_digits (i @ f)) (- int (length f)) = decimal_value False n scale"
    using assms by (auto simp: plain_def)
  have dot: "\<not> is_ascii_digit CHR ''.''" by (simp add: is_ascii_digit_def byte_between_def)
  from t(4) show ?thesis
  proof
    assume i: "t = i \<and> f = []"
    with t(2) dot have "CHR ''.'' \<notin> set t" by (auto simp: list_all_iff)
    with assms show ?thesis by (simp add: trim_fraction_def)
  next
    assume i: "t = i @ ''.'' @ f"
    obtain k where k: "f = rev (dropWhile ((=) CHR ''0'') (rev f)) @ replicate k CHR ''0''"
      by (rule trim_zeros)
    define g where "g = rev (dropWhile ((=) CHR ''0'') (rev f))"
    have f: "f = g @ replicate k CHR ''0''" using k by (simp add: g_def)
    with t(3) have g: "list_all is_ascii_digit g" by simp
    have "rev (dropWhile ((=) CHR ''0'') (rev t)) = i @ ''.'' @ g"
      by (simp add: i g_def dropWhile_append)
    moreover have "last (i @ ''.'' @ g) = CHR ''.'' \<longleftrightarrow> g = []"
      using g dot by (cases g rule: rev_cases) auto
    ultimately have r: "trim_fraction t = (if g = [] then i else i @ ''.'' @ g)"
      by (auto simp: trim_fraction_def i butlast_append)
    have "decimal_value False (nat_of_digits (i @ g)) (- int (length g)) = decimal_value False n scale"
      using t(5) decimal_value_shift [of False "nat_of_digits (i @ g)" k "- int (length f)"]
      by (simp add: f nat_of_digits_append power_add algebra_simps)
    then show ?thesis
      using t(1,2) g r by (cases "g = []") (simp_all add: plain_digits plain_pointed del: append.simps)
  qed
qed

text \<open>Every number of base-100 digits decodes to a text of its value.\<close>

lemma complement_low_bits:
  fixes b :: byte
  assumes "unat b < 128"
  shows "unat (b XOR 0x7f) = 127 - unat b"
proof -
  have low: "\<not> bit b n" if "7 \<le> n" for n
    using that sign_bit_iff [of b] assms by (auto simp: byte_bit_7 le_less dest: bit_imp_le_length)
  have "(mask 7 :: byte) - b = mask 7 AND NOT b"
    by (rule disjunctive_diff_eq_and_not)
      (use low in \<open>auto intro!: bit_word_eqI simp: bit_simps not_le [symmetric]\<close>)
  moreover have "b XOR mask 7 = mask 7 AND NOT b"
    by (rule bit_word_eqI) (use low in \<open>auto simp: bit_simps not_le [symmetric]\<close>)
  ultimately have "b XOR 0x7f = 0x7f - b" by (simp add: mask_eq_exp_minus_1)
  moreover have "b \<le> 0x7f" using assms by (simp add: word_le_nat_alt)
  ultimately show ?thesis by (simp add: unat_sub)
qed

lemma exponent_bits:
  assumes "hundreds bs = (negative, q, pairs)"
  shows "(hd bs AND 0x80 = 0) = negative"
    "(if negative then int (unat (hd bs XOR 0x7f)) - 64 else int (unat (hd bs AND 0x7f)) - 64) = q"
proof -
  show neg: "(hd bs AND 0x80 = 0) = negative" using assms by (auto simp: hundreds_def sign_bit_iff Let_def)
  show "(if negative then int (unat (hd bs XOR 0x7f)) - 64 else int (unat (hd bs AND 0x7f)) - 64) = q"
  proof (cases negative)
    case True
    then have "unat (hd bs) < 128" using neg sign_bit_iff by blast
    with True assms show ?thesis by (auto simp: hundreds_def Let_def complement_low_bits)
  next
    case False
    then have "128 \<le> unat (hd bs)" using neg sign_bit_iff by fastforce
    moreover have "unat (hd bs) - 128 < 128" using byte_bound [of "hd bs"] by linarith
    ultimately have "unat (hd bs) mod 128 = unat (hd bs) - 128" by (simp add: le_mod_geq)
    with False assms \<open>128 \<le> unat (hd bs)\<close> show ?thesis
      by (auto simp: hundreds_def Let_def low_bits)
  qed
qed

lemma strip_leading_zeros:
  assumes "list_all is_ascii_digit ds"
  defines "es \<equiv> if dropWhile ((=) CHR ''0'') ds = [] then ''0'' else dropWhile ((=) CHR ''0'') ds"
  shows "list_all is_ascii_digit es" "es \<noteq> []" "nat_of_digits es = nat_of_digits ds"
proof -
  have z: "takeWhile ((=) CHR ''0'') ds = replicate (length (takeWhile ((=) CHR ''0'') ds)) CHR ''0''"
    by (rule replicate_eqI) (auto dest: set_takeWhileD)
  have "nat_of_digits ds = nat_of_digits (takeWhile ((=) CHR ''0'') ds @ dropWhile ((=) CHR ''0'') ds)" by simp
  also have "\<dots> = nat_of_digits (dropWhile ((=) CHR ''0'') ds)"
    unfolding nat_of_digits_append by (subst z) simp
  finally show "nat_of_digits es = nat_of_digits ds" 
    unfolding es_def
    by (cases "dropWhile ((=) CHR ''0'') ds") (simp_all del: dropWhile_eq_Nil_conv)
  show "list_all is_ascii_digit es" "es \<noteq> []"
    using assms(1) by (auto simp: es_def list_all_iff is_ascii_digit_def byte_between_def dest: set_dropWhileD)
qed

lemma text_value_zero: "text_value ''0'' = 0"
  by (simp add: text_value_def split_sign_def decimal_value_def nat_of_digits_def is_ascii_digit_def
      byte_between_def)

lemma decode_hundreds:
  assumes "hundreds bs = (negative, q, pairs)" "pairs \<noteq> []" "\<forall>d \<in> set pairs. d \<le> 99"
    "2 \<le> length bs"
  shows "\<exists>t. decode_oracle_number bs = Inr t \<and>
    text_value t = decimal_value negative (base100 pairs) (2 * q - 2 * int (length pairs))"
proof (cases "bs = [0xff, 0x65]")
  case True
  with assms(1,3) show ?thesis by (auto simp: hundreds_def decode_digit_def)
next
  case False
  have ne: "bs \<noteq> []" "bs \<noteq> [0x80]" "bs \<noteq> [0x00]" "tl bs \<noteq> []" using assms(4) by (cases bs; auto)+
  note e = exponent_bits [OF assms(1)]
  let ?m = "if negative \<and> last (tl bs) = 0x66 then butlast (tl bs) else tl bs"
  have m: "map (decode_digit negative) ?m = pairs"
    using assms(1) ne(4) by (auto simp: hundreds_def Let_def split: if_splits)
  define ds where "ds = concat (map (digit_text \<circ> decode_digit negative) ?m)"
  have ds': "ds = concat (map digit_text pairs)" by (simp add: ds_def flip: m)
  note ds = digit_text_digits [OF assms(3), folded ds']
  then have len: "1 < length ds" using assms(2) by (cases pairs) simp_all
  define es where "es = (if dropWhile ((=) CHR ''0'') ds = [] then ''0'' else dropWhile ((=) CHR ''0'') ds)"
  note es = strip_leading_zeros [of ds, folded es_def]
  define t where "t = trim_fraction (place_point es (q * 2 - int (length ds)))"
  have "plain t (nat_of_digits es) (q * 2 - int (length ds))"
    unfolding t_def using es ds by (intro trim_fraction_plain place_point_plain) simp_all
  with ds es(3) have t: "plain t (base100 pairs) (2 * q - 2 * int (length pairs))" by (simp add: mult.commute)
  have "decode_oracle_number bs = Inr (if negative \<and> t \<noteq> ''0'' then CHR ''-'' # t else t)"
    unfolding decode_oracle_number_def Let_def e ds_def [symmetric]
    using ne False len plain_value(3,4) [OF t] by (simp add: t_def es_def)
  then show ?thesis
    using plain_value(1,2) [OF t] text_value_zero by (auto simp: decimal_value_def sign_of_def)
qed

text \<open>
  C14. Numbers survive the wire: whenever a decimal text of less than 32,000 bytes is accepted as a
  \<^verbatim>\<open>NUMBER\<close> bind (with a sign, leading and trailing zeros, a fraction and an exponent), the bytes
  written stand for exactly the number that the text does, and decoding them succeeds and answers a
  decimal text of that same number.
\<close>

theorem number_bind_roundtrip:
  assumes "encode_oracle_number text = Inr bs" "length (trim text) < 32000"
  shows "number_value bs = text_value (trim text) \<and>
    (\<exists>t. decode_oracle_number bs = Inr t \<and> text_value t = text_value (trim text))"
proof -
  note enc = encode_oracle_number_value [OF assms]
  from enc(2) show ?thesis
  proof
    assume zero: "bs = [0x80]"
    with enc(1) text_value_zero show ?thesis by (simp add: number_value_def decode_oracle_number_def)
  next
    assume "2 \<le> length bs \<and> (\<exists>negative q pairs. hundreds bs = (negative, q, pairs) \<and> pairs \<noteq> [] \<and>
      (\<forall>d \<in> set pairs. d \<le> 99))"
    then obtain negative q pairs where h: "hundreds bs = (negative, q, pairs)" "pairs \<noteq> []"
      "\<forall>d \<in> set pairs. d \<le> 99" "2 \<le> length bs" by blast
    have "number_value bs = decimal_value negative (base100 pairs) (2 * q - 2 * int (length pairs))"
      using h by (auto simp: number_value_def decimal_value_def power_int_100 right_diff_distrib)
    with decode_hundreds [OF h] enc(1) show ?thesis by auto
  qed
qed

lemma number_bind_roundtrip_witness:
  "number_value [193, 2, 51] = text_value (trim ''+1.50'') \<and>
   (\<exists>t. decode_oracle_number [193, 2, 51] = Inr t \<and> text_value t = text_value (trim ''+1.50''))"
proof (rule number_bind_roundtrip)
  have t: "trim ''+1.50'' = ''+1.50''" by (rule trim_visible) (simp_all add: byte_between_def)
  then show "length (trim ''+1.50'') < 32000" by simp
  show "encode_oracle_number ''+1.50'' = Inr [193, 2, 51]"
    unfolding encode_oracle_number_def t by code_simp
qed

lemma digit_pairs_length: "length (digit_pairs n ds) \<le> n"
  by (induction n ds rule: digit_pairs.induct) simp_all

lemma pack_number_length:
  assumes "ds \<noteq> []" "length ds \<le> 38"
  shows "length (pack_number negative ds k) \<le> 21"
proof -
  let ?es = "if sint k smod 2 \<noteq> 0 then ds @ [0] else ds"
  define fs where "fs = (if length ?es mod 2 \<noteq> 0 then ?es @ [0] else ?es)"
  have "length fs \<le> 40" "fs \<noteq> []" "even (length fs)"
    using assms unfolding fs_def by (auto split: if_splits; presburger)+
  moreover obtain n where "length fs = 2 * n" using \<open>even (length fs)\<close> by (rule evenE)
  ultimately have n: "length fs = 2 * n" "n \<le> 20" "0 < n" by (cases n; simp)+
  show ?thesis
    using n digit_pairs_length [of n fs] digit_pairs_length [of "n - 1" "tl fs"]
    unfolding pack_number_def Let_def fs_def [symmetric] by auto
qed

text \<open>
  C35. An encoded \<^verbatim>\<open>NUMBER\<close> is never longer than the 21 bytes the type can have (an exponent byte and
  twenty base-100 digits, or one terminator instead of the last digits), never empty, and a text with
  more than 38 significant digits is refused, not rounded.
\<close>

theorem encoded_number_is_bounded:
  assumes "encode_oracle_number text = Inr bs"
  shows "1 \<le> length bs \<and> length bs \<le> 21 \<and>
    (\<exists>negative ds point. scan_number (trim text) = Inr (negative, ds, point) \<and>
       length (rev (dropWhile ((=) 0) (rev ds))) \<le> 38)"
proof -
  obtain negative ds point where s: "trim text \<noteq> []" "scan_number (trim text) = Inr (negative, ds, point)"
    using assms by (auto simp: encode_oracle_number_def Let_def split: if_splits sum.splits)
  define es where "es = rev (dropWhile ((=) 0) (rev ds))"
  have b: "es = [] \<and> bs = [0x80] \<or> es \<noteq> [] \<and> length es \<le> 38 \<and> bs = pack_number negative es point"
    using assms s unfolding encode_oracle_number_def Let_def es_def
    by (auto simp del: rev_is_Nil_conv dropWhile_eq_Nil_conv split: if_splits)
  then have "1 \<le> length bs" by (auto simp: pack_number_def Let_def)
  moreover have "length bs \<le> 21" using b pack_number_length by auto
  moreover have "length es \<le> 38" using b by auto
  then have "length (rev (dropWhile ((=) 0) (rev ds))) \<le> 38" unfolding es_def .
  ultimately show ?thesis using s(2) by blast
qed

lemma encoded_number_is_bounded_witness:
  "1 \<le> length [62 :: byte, 89, 102] \<and> length [62 :: byte, 89, 102] \<le> 21 \<and>
    (\<exists>negative ds point. scan_number (trim ''-12'') = Inr (negative, ds, point) \<and>
       length (rev (dropWhile ((=) 0) (rev ds))) \<le> 38)"
proof (rule encoded_number_is_bounded)
  have t: "trim ''-12'' = ''-12''" by (rule trim_visible) (simp_all add: byte_between_def)
  show "encode_oracle_number ''-12'' = Inr [62, 89, 102]"
    unfolding encode_oracle_number_def t by code_simp
qed

section \<open>The width of the decimal point\<close>

text \<open>
  The bound on the length of the text is needed: the number of digits before the point is cut to
  sixteen bits, so that one followed by 65,536 zeros is written as one.
\<close>

definition huge_text :: string where
  "huge_text = CHR ''1'' # replicate 65536 CHR ''0''"

lemma scan_integer_zeros:
  "ds \<noteq> [] \<Longrightarrow> scan_integer ds (replicate n CHR ''0'') = Some (ds @ replicate n 0, [])"
proof (induction n arbitrary: ds)
  case (Suc n)
  then show ?case by (simp add: is_ascii_digit_def byte_between_def replicate_append_same)
qed simp

lemma huge_number_bind_wraps:
  "encode_oracle_number huge_text = Inr [193, 2] \<and> decode_oracle_number [193, 2] = Inr ''1''"
proof
  have t: "trim huge_text = huge_text"
    by (rule trim_visible) (simp_all add: huge_text_def byte_between_def)
  have "scan_integer [] huge_text = Some (1 # replicate 65536 0, [])"
    using scan_integer_zeros [of "[1]" 65536]
    by (simp add: huge_text_def is_ascii_digit_def byte_between_def digit_value_def)
  then have "scan_number huge_text = Inr (False, 1 # replicate 65536 0, 1)"
    by (simp add: scan_number_def huge_text_def)
  moreover have "rev (dropWhile ((=) 0) (rev (1 # replicate 65536 (0 :: nat)))) = [1]"
    by (simp add: dropWhile_append)
  moreover have "pack_number False [1] 1 = [193, 2]" by code_simp
  ultimately show "encode_oracle_number huge_text = Inr [193, 2]"
    unfolding encode_oracle_number_def t Let_def by (simp add: huge_text_def)
  show "decode_oracle_number [193, 2] = Inr ''1''" by code_simp
qed

end
