(* ===== verification/Thin_Values.thy ===== *)
theory Thin_Values
  imports Thin_Wire "HOL-Library.Signed_Division"
begin

text \<open>
  The remaining scalar wire forms of the thin driver (\<^verbatim>\<open>crates/tns-thin/src/session.rs\<close>): hexadecimal
  text, physical rowids and base-64 text, intervals, the order-preserving form of IEEE floats (on
  their bit patterns) and unsigned integers.
\<close>

section \<open>Hexadecimal text\<close>

definition hex_nibble :: "byte \<Rightarrow> thin_error + byte" where
  "hex_nibble b =
     (if 48 \<le> unat b \<and> unat b \<le> 57 then Inr (b - 48)
      else if 97 \<le> unat b \<and> unat b \<le> 102 then Inr (b - 97 + 10)
      else if 65 \<le> unat b \<and> unat b \<le> 70 then Inr (b - 65 + 10)
      else Inl (thin_error_new ''invalid hex digit''))"

fun hex_pairs :: "byte list \<Rightarrow> thin_error + byte list" where
  "hex_pairs (a # b # rest) =
     (case hex_nibble a of
        Inl e \<Rightarrow> Inl e
      | Inr high \<Rightarrow>
          (case hex_nibble b of
             Inl e \<Rightarrow> Inl e
           | Inr low \<Rightarrow>
               (case hex_pairs rest of
                  Inl e \<Rightarrow> Inl e
                | Inr out \<Rightarrow> Inr ((push_bit 4 high OR low) # out))))"
| "hex_pairs _ = Inr []"

definition hex_decode :: "byte list \<Rightarrow> thin_error + byte list" where
  "hex_decode bs =
     (if length bs mod 2 \<noteq> 0 then Inl (thin_error_new ''hex string has odd length'')
      else hex_pairs bs)"

definition HEX :: "byte list" where
  "HEX = map (word_of_nat \<circ> of_char) ''0123456789ABCDEF''"

definition hex_encode_upper :: "byte list \<Rightarrow> byte list" where
  "hex_encode_upper bs =
     concat (map (\<lambda>b. [HEX ! unat (drop_bit 4 b), HEX ! unat (b AND 0x0f)]) bs)"

lemma hex_digit: "n < 16 \<Longrightarrow> hex_nibble (HEX ! n) = Inr (word_of_nat n)"
proof -
  have "list_all (\<lambda>n. hex_nibble (HEX ! n) = Inr (word_of_nat n)) [0..<16]"
    by (simp add: upt_rec HEX_def hex_nibble_def)
  then show "n < 16 \<Longrightarrow> ?thesis" by (simp add: list_all_iff)
qed

lemma nibbles: "push_bit 4 (drop_bit 4 b) OR (b AND 0x0f) = (b :: byte)"
  "unat (drop_bit 4 b) < 16" "unat (b AND 0x0f) < 16"
proof -
  have m: "(0x0f :: byte) = mask 4" by (simp add: mask_eq_exp_minus_1)
  show "push_bit 4 (drop_bit 4 b) OR (b AND 0x0f) = b"
    unfolding m by (rule bit_word_eqI) (auto simp: bit_simps)
  show "unat (drop_bit 4 b) < 16"
    using byte_bound [of b] by (simp add: drop_bit_eq_div unat_div_distrib less_mult_imp_div_less del: byte_bound)
  show "unat (b AND 0x0f) < 16"
    unfolding m by (simp add: take_bit_eq_mod unat_mod_distrib flip: take_bit_eq_mask)
qed

lemma hex_pairs_encode: "hex_pairs (hex_encode_upper bs) = Inr bs"
proof (induction bs)
  case (Cons b bs)
  then show ?case
    using hex_digit [OF nibbles(2) [of b]] hex_digit [OF nibbles(3) [of b]] nibbles(1) [of b]
    by (simp add: hex_encode_upper_def)
qed (simp add: hex_encode_upper_def)

lemma length_hex: "length (hex_encode_upper bs) = 2 * length bs"
  by (induction bs) (simp_all add: hex_encode_upper_def)

lemma hex_roundtrip: "hex_decode (hex_encode_upper bs) = Inr bs"
  by (simp add: hex_decode_def length_hex hex_pairs_encode)

section \<open>Rowids\<close>

definition TNS_BASE64_ALPHABET :: string where
  "TNS_BASE64_ALPHABET = ''ABCDEFGHIJKLMNOPQRSTUVWXYZabcdefghijklmnopqrstuvwxyz0123456789+/''"

text \<open>The loop of \<^verbatim>\<open>encode_rowid_base64_value\<close> fills its buffer from the last character.\<close>

primrec rowid_base64_digits :: "nat \<Rightarrow> 64 word \<Rightarrow> string" where
  "rowid_base64_digits 0 v = []"
| "rowid_base64_digits (Suc n) v =
     rowid_base64_digits n (drop_bit 6 v) @ [TNS_BASE64_ALPHABET ! unat (v AND 0x3f)]"

definition encode_rowid_base64_value :: "64 word \<Rightarrow> nat \<Rightarrow> string \<Rightarrow> string" where
  "encode_rowid_base64_value v sz out = out @ rowid_base64_digits sz v"

text \<open>\<open>None\<close> is the null value.\<close>

definition encode_physical_rowid :: "32 word \<Rightarrow> 16 word \<Rightarrow> 32 word \<Rightarrow> 16 word \<Rightarrow> string option" where
  "encode_physical_rowid rba partition_id block_num slot_num =
     (if rba = 0 \<and> partition_id = 0 \<and> block_num = 0 \<and> slot_num = 0 then None
      else
        (let out = encode_rowid_base64_value (ucast rba) 6 [];
             out = encode_rowid_base64_value (ucast partition_id) 3 out;
             out = encode_rowid_base64_value (ucast block_num) 6 out
         in Some (encode_rowid_base64_value (ucast slot_num) 3 out)))"

definition read_rowid_value :: "cursor \<Rightarrow> (cursor, string option) res" where
  "read_rowid_value c =
     and_then (read_u8 c) (\<lambda>num_bytes c.
       if num_bytes = 0 \<or> num_bytes = 0xff \<or>
          legacy_null_clr c \<and> num_bytes = TNS_LEGACY_NULL_LENGTH_INDICATOR
       then Inr (None, c)
       else
         and_then (read_ub4 c) (\<lambda>rba c.
         and_then (read_ub2 c) (\<lambda>partition_id c.
         and_then (skip 1 c) (\<lambda>_ c.
         and_then (read_ub4 c) (\<lambda>block_num c.
         and_then (read_ub2 c) (\<lambda>slot_num c.
           Inr (encode_physical_rowid rba partition_id block_num slot_num, c)))))))"

definition base64_unpadded_len :: "nat \<Rightarrow> nat" where
  "base64_unpadded_len input_len =
     (input_len div 3) * 4 +
     (if input_len mod 3 = 0 then 0 else if input_len mod 3 = 1 then 2 else 3)"

fun base64_chunks :: "byte list list \<Rightarrow> string" where
  "base64_chunks [] = []"
| "base64_chunks (chunk # rest) =
     (let first = chunk ! 0;
          second = push_bit 4 (first AND 0x03)
      in (TNS_BASE64_ALPHABET ! unat (drop_bit 2 first)) #
         (if length chunk = 1 then [TNS_BASE64_ALPHABET ! unat second]
          else
            (let second = second OR drop_bit 4 (chunk ! 1);
                 third = push_bit 2 (chunk ! 1 AND 0x0f)
             in (TNS_BASE64_ALPHABET ! unat second) #
                (if length chunk = 2 then [TNS_BASE64_ALPHABET ! unat third]
                 else
                   (let third = third OR drop_bit 6 (chunk ! 2)
                    in (TNS_BASE64_ALPHABET ! unat third) #
                       (TNS_BASE64_ALPHABET ! unat (chunk ! 2 AND 0x3f)) #
                       base64_chunks rest)))))"

definition encode_base64_unpadded :: "byte list \<Rightarrow> string \<Rightarrow> string" where
  "encode_base64_unpadded input out = out @ base64_chunks (chunks 3 input)"

definition read_urowid_value :: "cursor \<Rightarrow> (cursor, string option) res" where
  "read_urowid_value c =
     and_then (read_bytes c) (\<lambda>outer c.
       if outer = None then Inr (None, c)
       else
         and_then (read_bytes c) (\<lambda>inner c.
           case inner of
             None \<Rightarrow> Inr (None, c)
           | Some bs \<Rightarrow>
               (if length bs < 13
                then fail (''short Oracle UROWID data: '' @ show_nat (length bs) @ '' bytes'')
                else if bs ! 0 = 1
                then Inr (encode_physical_rowid
                       (word_of_nat (be_nat (take 4 (drop 1 bs))))
                       (word_of_nat (be_nat (take 2 (drop 5 bs))))
                       (word_of_nat (be_nat (take 4 (drop 7 bs))))
                       (word_of_nat (be_nat (take 2 (drop 11 bs)))), c)
                else Inr (Some (encode_base64_unpadded (drop 1 bs) ''*''), c))))"

subsection \<open>A rowid text determines its rowid\<close>

lemma alphabet: "distinct TNS_BASE64_ALPHABET" "length TNS_BASE64_ALPHABET = 64"
  by (simp_all add: TNS_BASE64_ALPHABET_def)

lemma length_rowid_digits [simp]: "length (rowid_base64_digits n v) = n"
  by (induction n arbitrary: v) simp_all

lemma six_bits: "unat (v AND 0x3f :: 64 word) = unat v mod 64" "unat (drop_bit 6 v :: 64 word) = unat v div 64"
proof -
  have m: "(0x3f :: 64 word) = mask 6" by (simp add: mask_eq_exp_minus_1)
  show "unat (v AND 0x3f :: 64 word) = unat v mod 64"
    unfolding m by (simp add: take_bit_eq_mod unat_mod_distrib flip: take_bit_eq_mask)
  show "unat (drop_bit 6 v :: 64 word) = unat v div 64" by (simp add: drop_bit_eq_div unat_div_distrib)
qed

lemma rowid_digits_injective:
  "rowid_base64_digits n v = rowid_base64_digits n w \<Longrightarrow> unat v mod 64 ^ n = unat w mod 64 ^ n"
proof (induction n arbitrary: v w)
  case (Suc n)
  have "TNS_BASE64_ALPHABET ! unat (v AND 0x3f) = TNS_BASE64_ALPHABET ! unat (w AND 0x3f)"
    and rest: "rowid_base64_digits n (drop_bit 6 v) = rowid_base64_digits n (drop_bit 6 w)"
    using Suc(2) by simp_all
  with Suc(1) [OF rest] have "unat v mod 64 = unat w mod 64"
    "unat v div 64 mod 64 ^ n = unat w div 64 mod 64 ^ n"
    using alphabet by (simp_all add: six_bits nth_eq_iff_index_eq)
  moreover have "x mod 64 ^ Suc n = 64 * (x div 64 mod 64 ^ n) + x mod 64" for x :: nat
    by (simp add: mod_mult2_eq)
  ultimately show ?case by simp
qed simp

lemma rowid_field:
  fixes v w :: "'a::len word"
  assumes "rowid_base64_digits n (ucast v) = rowid_base64_digits n (ucast w)" "LENGTH('a) \<le> 6 * n"
    "LENGTH('a) \<le> 64"
  shows "v = w"
proof -
  have u: "unat (ucast x :: 64 word) = unat x" for x :: "'a word"
  proof -
    have "unat x < 2 ^ LENGTH('a)" by (rule unsigned_less)
    also have "\<dots> \<le> 2 ^ 64" by (rule power_increasing [OF assms(3)]) simp
    finally show ?thesis by (simp add: unsigned_ucast_eq take_bit_nat_eq_self)
  qed
  have "unat x < 64 ^ n" for x :: "'a word"
  proof -
    have "(64 :: nat) ^ n = 2 ^ (6 * n)" by (simp add: power_mult)
    moreover have "unat x < 2 ^ LENGTH('a)" by (rule unsigned_less)
    moreover have "(2 :: nat) ^ LENGTH('a) \<le> 2 ^ (6 * n)" by (rule power_increasing [OF assms(2)]) simp
    ultimately show ?thesis by (simp only: less_le_trans)
  qed
  with rowid_digits_injective [OF assms(1)] u show ?thesis by (simp add: word_unat_eq_iff)
qed

text \<open>
  The text of a physical rowid identifies the row: two rowids with the same non-null text have the
  same object, file, block and slot, and a rowid text always has its eighteen characters.
\<close>

lemma rowid_text_identifies_the_row:
  assumes "encode_physical_rowid rba partition_id block_num slot_num = Some t"
  shows "length t = 18 \<and>
    (encode_physical_rowid rba' partition_id' block_num' slot_num' = Some t \<longleftrightarrow>
      rba' = rba \<and> partition_id' = partition_id \<and> block_num' = block_num \<and> slot_num' = slot_num)"
proof -
  have t: "t = rowid_base64_digits 6 (ucast rba) @ rowid_base64_digits 3 (ucast partition_id) @
      rowid_base64_digits 6 (ucast block_num) @ rowid_base64_digits 3 (ucast slot_num)"
    using assms by (auto simp: encode_physical_rowid_def encode_rowid_base64_value_def Let_def split: if_splits)
  have "rba' = rba \<and> partition_id' = partition_id \<and> block_num' = block_num \<and> slot_num' = slot_num"
    if "encode_physical_rowid rba' partition_id' block_num' slot_num' = Some t"
  proof -
    have t': "t = rowid_base64_digits 6 (ucast rba') @ rowid_base64_digits 3 (ucast partition_id') @
        rowid_base64_digits 6 (ucast block_num') @ rowid_base64_digits 3 (ucast slot_num')"
      using that by (auto simp: encode_physical_rowid_def encode_rowid_base64_value_def Let_def split: if_splits)
    from t' [unfolded t] have "rowid_base64_digits 6 (ucast rba') = rowid_base64_digits 6 (ucast rba)"
      "rowid_base64_digits 3 (ucast partition_id') = rowid_base64_digits 3 (ucast partition_id)"
      "rowid_base64_digits 6 (ucast block_num') = rowid_base64_digits 6 (ucast block_num)"
      "rowid_base64_digits 3 (ucast slot_num') = rowid_base64_digits 3 (ucast slot_num)"
      by (simp_all only: append_eq_append_conv length_rowid_digits simp_thms)
    from rowid_field [OF this(1)] rowid_field [OF this(2)] rowid_field [OF this(3)]
      rowid_field [OF this(4)] show ?thesis by simp
  qed
  moreover have "length t = 18" unfolding t by simp
  ultimately show ?thesis using assms by blast
qed

lemma rowid_text_identifies_the_row_witness:
  "length ''AAAAAAAAAAAAAAAAAB'' = 18 \<and>
   (encode_physical_rowid 0 0 0 1 = Some ''AAAAAAAAAAAAAAAAAB'' \<longleftrightarrow>
     (0 :: 32 word) = 0 \<and> (0 :: 16 word) = 0 \<and> (0 :: 32 word) = 0 \<and> (1 :: 16 word) = 1)"
proof (rule rowid_text_identifies_the_row)
  show "encode_physical_rowid 0 0 0 1 = Some ''AAAAAAAAAAAAAAAAAB''"
    by (simp add: encode_physical_rowid_def encode_rowid_base64_value_def TNS_BASE64_ALPHABET_def
        numeral_eq_Suc)
qed

section \<open>Base-64 length\<close>

lemma base64_length: "length (base64_chunks (chunks 3 bs)) = base64_unpadded_len (length bs)"
proof (induction "length bs" arbitrary: bs rule: less_induct)
  case less
  show ?case
  proof (cases "bs = []")
    case True
    then show ?thesis by (simp add: base64_unpadded_len_def)
  next
    case False
    then have c: "chunks 3 bs = take 3 bs # chunks 3 (drop 3 bs)" by (simp add: chunks.simps [of 3 bs])
    consider "length bs = 1" | "length bs = 2" | "3 \<le> length bs" using False length_greater_0_conv [of bs] by linarith
    then show ?thesis
    proof cases
      case 3
      then have "length bs div 3 = Suc ((length bs - 3) div 3)" "length bs mod 3 = (length bs - 3) mod 3"
        by (simp_all add: le_div_geq le_mod_geq)
      with 3 less [of "drop 3 bs"] show ?thesis
        by (simp add: c base64_unpadded_len_def Let_def)
    qed (simp_all add: c base64_unpadded_len_def Let_def)
  qed
qed

section \<open>Intervals\<close>

record interval_ym =
  ym_years :: int
  ym_months :: int

record interval_ds =
  ds_days :: int
  ds_hours :: int
  ds_minutes :: int
  ds_seconds :: int
  ds_nanoseconds :: int

definition TNS_DURATION_MID :: int where "TNS_DURATION_MID = 0x80000000"
definition TNS_DURATION_OFFSET :: int where "TNS_DURATION_OFFSET = 60"

definition encode_duration_u32 :: "int \<Rightarrow> string \<Rightarrow> thin_error + nat" where
  "encode_duration_u32 v label =
     (let encoded = v + TNS_DURATION_MID
      in if 0 \<le> encoded \<and> encoded < 2 ^ 32 then Inr (nat encoded)
         else Inl (thin_error_new (''Oracle '' @ label @ '' is out of range'')))"

definition encode_duration_u8 :: "int \<Rightarrow> string \<Rightarrow> thin_error + byte" where
  "encode_duration_u8 v label =
     (let encoded = v + TNS_DURATION_OFFSET
      in if 0 \<le> encoded \<and> encoded < 2 ^ 8 then Inr (word_of_int encoded)
         else Inl (thin_error_new (''Oracle '' @ label @ '' is out of range'')))"

definition encode_oracle_interval_ym :: "interval_ym \<Rightarrow> thin_error + byte list" where
  "encode_oracle_interval_ym v =
     (case encode_duration_u32 (ym_years v) ''INTERVAL YEAR TO MONTH years'' of
        Inl e \<Rightarrow> Inl e
      | Inr years \<Rightarrow>
          (case encode_duration_u8 (ym_months v) ''INTERVAL YEAR TO MONTH months'' of
             Inl e \<Rightarrow> Inl e
           | Inr months \<Rightarrow> Inr (be_bytes 4 years @ [months])))"

definition encode_oracle_interval_ds :: "interval_ds \<Rightarrow> thin_error + byte list" where
  "encode_oracle_interval_ds v =
     (case encode_duration_u32 (ds_days v) ''INTERVAL DAY TO SECOND days'' of
        Inl e \<Rightarrow> Inl e
      | Inr days \<Rightarrow>
     (case encode_duration_u8 (ds_hours v) ''INTERVAL DAY TO SECOND hours'' of
        Inl e \<Rightarrow> Inl e
      | Inr hours \<Rightarrow>
     (case encode_duration_u8 (ds_minutes v) ''INTERVAL DAY TO SECOND minutes'' of
        Inl e \<Rightarrow> Inl e
      | Inr minutes \<Rightarrow>
     (case encode_duration_u8 (ds_seconds v) ''INTERVAL DAY TO SECOND seconds'' of
        Inl e \<Rightarrow> Inl e
      | Inr seconds \<Rightarrow>
     (case encode_duration_u32 (ds_nanoseconds v) ''INTERVAL DAY TO SECOND fractional seconds'' of
        Inl e \<Rightarrow> Inl e
      | Inr fseconds \<Rightarrow>
          Inr (be_bytes 4 days @ [hours, minutes, seconds] @ be_bytes 4 fseconds))))))"

text \<open>A precision outside 0 to 9 is replaced by the default.\<close>

definition field_width :: "int \<Rightarrow> nat \<Rightarrow> nat" where
  "field_width precision dflt = (if 0 \<le> precision \<and> precision \<le> 9 then nat precision else dflt)"

definition decode_oracle_interval_ym_with_precision :: "byte list \<Rightarrow> int \<Rightarrow> thin_error + string" where
  "decode_oracle_interval_ym_with_precision bs precision =
     (if length bs \<noteq> 5
      then Inl (thin_error_new (''invalid Oracle INTERVAL YEAR TO MONTH length '' @ show_nat (length bs)))
      else
        (let years = int (be_nat (take 4 bs)) - TNS_DURATION_MID;
             months = int (unat (bs ! 4)) - TNS_DURATION_OFFSET;
             sign = (if years < 0 \<or> months < 0 then ''-'' else ''+'');
             width = max (field_width precision 2) 1
         in Inr (sign @ pad_left width (show_nat (nat \<bar>years\<bar>)) @ ''-''
                 @ pad_left 2 (show_nat (nat \<bar>months\<bar>)))))"

definition decode_oracle_interval_ym :: "byte list \<Rightarrow> thin_error + string" where
  "decode_oracle_interval_ym bs = decode_oracle_interval_ym_with_precision bs 2"

definition decode_oracle_interval_ds_with_precision ::
    "byte list \<Rightarrow> int \<Rightarrow> int \<Rightarrow> thin_error + string" where
  "decode_oracle_interval_ds_with_precision bs precision scale =
     (if length bs \<noteq> 11
      then Inl (thin_error_new (''invalid Oracle INTERVAL DAY TO SECOND length '' @ show_nat (length bs)))
      else
        (let days = int (be_nat (take 4 bs)) - TNS_DURATION_MID;
             hours = int (unat (bs ! 4)) - TNS_DURATION_OFFSET;
             minutes = int (unat (bs ! 5)) - TNS_DURATION_OFFSET;
             seconds = int (unat (bs ! 6)) - TNS_DURATION_OFFSET;
             fseconds = int (be_nat (take 4 (drop 7 bs))) - TNS_DURATION_MID;
             sign = (if days < 0 \<or> hours < 0 \<or> minutes < 0 \<or> seconds < 0 \<or> fseconds < 0
                     then ''-'' else ''+'');
             day_width = max (field_width precision 2) 1;
             fractional_width = field_width scale 6;
             rendered = sign @ pad_left day_width (show_nat (nat \<bar>days\<bar>)) @ '' ''
               @ pad_left 2 (show_nat (nat \<bar>hours\<bar>)) @ '':''
               @ pad_left 2 (show_nat (nat \<bar>minutes\<bar>)) @ '':''
               @ pad_left 2 (show_nat (nat \<bar>seconds\<bar>))
         in Inr (if 0 < fractional_width
                 then rendered @ ''.'' @ take fractional_width (pad_left 9 (show_nat (nat \<bar>fseconds\<bar>)))
                 else rendered)))"

definition decode_oracle_interval_ds :: "byte list \<Rightarrow> thin_error + string" where
  "decode_oracle_interval_ds bs = decode_oracle_interval_ds_with_precision bs 2 6"

definition decode_oracle_unsigned_integer :: "byte list \<Rightarrow> thin_error + 64 word" where
  "decode_oracle_unsigned_integer bs =
     (if 8 < length bs then Inl (thin_error_new (''invalid Oracle UB8 length '' @ show_nat (length bs)))
      else Inr (foldl shift_in 0 bs))"

lemma encode_duration_u32_iff:
  "encode_duration_u32 v label = Inr n \<longleftrightarrow> - (2 ^ 31) \<le> v \<and> v < 2 ^ 31 \<and> int n = v + TNS_DURATION_MID"
  by (auto simp: encode_duration_u32_def Let_def TNS_DURATION_MID_def split: if_splits)

lemma encode_duration_u8_iff:
  "encode_duration_u8 v label = Inr b \<longleftrightarrow> - 60 \<le> v \<and> v < 196 \<and> int (unat b) = v + TNS_DURATION_OFFSET"
proof -
  have "uint (word_of_int (v + 60) :: byte) = v + 60" if "- 60 \<le> v" "v < 196"
    using byte_of_int [of "v + 60"] that by simp
  moreover have "b = word_of_int (v + 60)" if "uint b = v + 60" using that by (metis word_of_int_uint)
  ultimately show ?thesis
    by (auto simp: encode_duration_u8_def Let_def TNS_DURATION_OFFSET_def split: if_splits)
qed

definition interval_ds_in_range :: "interval_ds \<Rightarrow> bool" where
  "interval_ds_in_range v \<longleftrightarrow>
     - (2 ^ 31) \<le> ds_days v \<and> ds_days v < 2 ^ 31 \<and> - 60 \<le> ds_hours v \<and> ds_hours v < 196 \<and>
     - 60 \<le> ds_minutes v \<and> ds_minutes v < 196 \<and> - 60 \<le> ds_seconds v \<and> ds_seconds v < 196 \<and>
     - (2 ^ 31) \<le> ds_nanoseconds v \<and> ds_nanoseconds v < 2 ^ 31"

text \<open>The text of an interval with two digits of days and six of fractional seconds.\<close>

definition interval_ds_text :: "interval_ds \<Rightarrow> string" where
  "interval_ds_text v =
     (if ds_days v < 0 \<or> ds_hours v < 0 \<or> ds_minutes v < 0 \<or> ds_seconds v < 0 \<or> ds_nanoseconds v < 0
      then ''-'' else ''+'')
     @ pad_left 2 (show_nat (nat \<bar>ds_days v\<bar>)) @ '' '' @ pad_left 2 (show_nat (nat \<bar>ds_hours v\<bar>)) @ '':''
     @ pad_left 2 (show_nat (nat \<bar>ds_minutes v\<bar>)) @ '':'' @ pad_left 2 (show_nat (nat \<bar>ds_seconds v\<bar>))
     @ ''.'' @ take 6 (pad_left 9 (show_nat (nat \<bar>ds_nanoseconds v\<bar>)))"

lemma encode_interval_ds_fields:
  assumes "encode_oracle_interval_ds v = Inr bs"
  obtains d h m s f where "bs = be_bytes 4 d @ [h, m, s] @ be_bytes 4 f"
    "int d = ds_days v + TNS_DURATION_MID" "int (unat h) = ds_hours v + TNS_DURATION_OFFSET"
    "int (unat m) = ds_minutes v + TNS_DURATION_OFFSET" "int (unat s) = ds_seconds v + TNS_DURATION_OFFSET"
    "int f = ds_nanoseconds v + TNS_DURATION_MID" "interval_ds_in_range v"
  using assms
  by (auto simp: encode_oracle_interval_ds_def encode_duration_u32_iff encode_duration_u8_iff
      interval_ds_in_range_def simp del: be_bytes_numeral split: sum.splits)

lemma encode_interval_ds_error:
  assumes "encode_oracle_interval_ds v = Inl e"
  shows "\<not> interval_ds_in_range v"
proof -
  have "\<exists>label. encode_duration_u32 x label = Inl e \<Longrightarrow> \<not> (- (2 ^ 31) \<le> x \<and> x < 2 ^ 31)"
    "\<exists>label. encode_duration_u8 x label = Inl e \<Longrightarrow> \<not> (- 60 \<le> x \<and> x < 196)" for x
    by (auto simp: encode_duration_u32_def encode_duration_u8_def Let_def TNS_DURATION_MID_def
        TNS_DURATION_OFFSET_def split: if_splits)
  with assms show ?thesis
    unfolding encode_oracle_interval_ds_def interval_ds_in_range_def
    by (auto split: sum.splits)
qed

text \<open>
  C36. An interval bind is refused exactly when one of its fields does not fit its biased byte or word,
  and otherwise its eleven bytes decode to the text of the interval that was bound.
\<close>

theorem interval_bind_is_exact_or_refused:
  "if interval_ds_in_range v
   then \<exists>bs. encode_oracle_interval_ds v = Inr bs \<and> length bs = 11 \<and>
          decode_oracle_interval_ds bs = Inr (interval_ds_text v)
   else \<exists>e. encode_oracle_interval_ds v = Inl e"
proof (cases "encode_oracle_interval_ds v")
  case (Inl e)
  with encode_interval_ds_error [OF Inl] show ?thesis by simp
next
  case (Inr bs)
  then obtain d h m s f where b: "bs = be_bytes 4 d @ [h, m, s] @ be_bytes 4 f"
    "int d = ds_days v + TNS_DURATION_MID" "int (unat h) = ds_hours v + TNS_DURATION_OFFSET"
    "int (unat m) = ds_minutes v + TNS_DURATION_OFFSET" "int (unat s) = ds_seconds v + TNS_DURATION_OFFSET"
    "int f = ds_nanoseconds v + TNS_DURATION_MID" "interval_ds_in_range v"
    by (rule encode_interval_ds_fields)
  have "d < 2 ^ 32" "f < 2 ^ 32"
    using b(2,6,7) by (simp_all add: interval_ds_in_range_def TNS_DURATION_MID_def)
  then have w: "int (be_nat (take 4 bs)) - TNS_DURATION_MID = ds_days v"
    "int (be_nat (take 4 (drop 7 bs))) - TNS_DURATION_MID = ds_nanoseconds v"
    using b(2,6) by (simp_all add: b(1) be_nat_be_bytes del: be_bytes_numeral)
  have x: "int (unat (bs ! 4)) - TNS_DURATION_OFFSET = ds_hours v"
    "int (unat (bs ! 5)) - TNS_DURATION_OFFSET = ds_minutes v"
    "int (unat (bs ! 6)) - TNS_DURATION_OFFSET = ds_seconds v" "length bs = 11"
    using b(3-5) by (simp_all add: b(1) nth_append del: be_bytes_numeral)
  have "max (field_width 2 2) 1 = 2" "field_width 6 6 = 6" by (simp_all add: field_width_def)
  then have "decode_oracle_interval_ds bs = Inr (interval_ds_text v)"
    unfolding decode_oracle_interval_ds_def decode_oracle_interval_ds_with_precision_def Let_def w x
    by (simp add: interval_ds_text_def)
  with Inr x(4) b(7) show ?thesis by simp
qed

section \<open>Binary floats\<close>

text \<open>A float is the list of the big-endian bytes of its bits.\<close>

definition encode_oracle_binary_bytes :: "byte list \<Rightarrow> byte list" where
  "encode_oracle_binary_bytes bs =
     (if bs ! 0 AND 0x80 \<noteq> 0 then map NOT bs else bs[0 := bs ! 0 OR 0x80])"

definition encode_oracle_binary_float :: "32 word \<Rightarrow> byte list" where
  "encode_oracle_binary_float bits = encode_oracle_binary_bytes (be_bytes 4 (unat bits))"

definition encode_oracle_binary_double :: "64 word \<Rightarrow> byte list" where
  "encode_oracle_binary_double bits = encode_oracle_binary_bytes (be_bytes 8 (unat bits))"

definition decode_oracle_binary_bytes :: "byte list \<Rightarrow> byte list" where
  "decode_oracle_binary_bytes bs =
     (if bs ! 0 AND 0x80 \<noteq> 0 then bs[0 := bs ! 0 AND 0x7f] else map NOT bs)"

definition decode_oracle_binary_float_bits :: "byte list \<Rightarrow> 32 word" where
  "decode_oracle_binary_float_bits bs = word_of_nat (be_nat (decode_oracle_binary_bytes bs))"

definition decode_oracle_binary_double_bits :: "byte list \<Rightarrow> 64 word" where
  "decode_oracle_binary_double_bits bs = word_of_nat (be_nat (decode_oracle_binary_bytes bs))"

lemma sign_flip:
  "(NOT b AND 0x80 = 0) = (b AND 0x80 \<noteq> 0)" "(b OR 0x80) AND 0x80 \<noteq> 0"
  "b AND 0x80 = 0 \<Longrightarrow> (b OR 0x80) AND 0x7f = b" for b :: byte
proof -
  have e: "b AND 0x80 = 0 \<longleftrightarrow> \<not> bit b 7" for b :: byte
    using and_exp_eq_0_iff_not_bit [of b 7] by simp
  have m: "(0x7f :: byte) = mask 7" by (simp add: mask_eq_exp_minus_1)
  show "(NOT b AND 0x80 = 0) = (b AND 0x80 \<noteq> 0)" unfolding e by (simp add: bit_simps)
  show "(b OR 0x80) AND 0x80 \<noteq> 0" unfolding e by (simp add: bit_simps bit_sign_byte)
  show "(b OR 0x80) AND 0x7f = b" if "b AND 0x80 = 0"
  proof (rule bit_word_eqI)
    fix n assume n: "n < LENGTH(8)"
    have "\<not> bit b 7" using that e by blast
    with n show "bit ((b OR 0x80) AND 0x7f) n = bit b n"
      unfolding m by (cases "n = 7") (auto simp: bit_simps bit_sign_byte)
  qed
qed

lemma binary_bytes_roundtrip:
  "bs \<noteq> [] \<Longrightarrow> decode_oracle_binary_bytes (encode_oracle_binary_bytes bs) = bs"
  by (cases bs) (simp_all add: decode_oracle_binary_bytes_def encode_oracle_binary_bytes_def sign_flip
      comp_def)

lemma binary_float_roundtrip:
  "decode_oracle_binary_float_bits (encode_oracle_binary_float bits) = bits"
  "decode_oracle_binary_double_bits (encode_oracle_binary_double dbits) = dbits"
proof -
  have "be_bytes 4 n \<noteq> []" "be_bytes 8 n \<noteq> []" for n by simp_all
  moreover have "unat bits < 256 ^ 4" "unat dbits < 256 ^ 8"
    using unsigned_less [of bits, where ?'a = nat] unsigned_less [of dbits, where ?'a = nat] by simp_all
  ultimately show "decode_oracle_binary_float_bits (encode_oracle_binary_float bits) = bits"
    "decode_oracle_binary_double_bits (encode_oracle_binary_double dbits) = dbits"
    by (simp_all add: decode_oracle_binary_float_bits_def encode_oracle_binary_float_def
        decode_oracle_binary_double_bits_def encode_oracle_binary_double_def binary_bytes_roundtrip
        be_nat_be_bytes del: be_bytes_numeral)
qed

end
