(* ===== verification/Thin_Pool.thy ===== *)
theory Thin_Pool
  imports Thin_Bytes "HOL-Library.Multiset"
begin

text \<open>
  The session pool of the thin driver (\<^verbatim>\<open>crates/tns-thin/src/pool.rs\<close>) as a transition system of
  threads. A step is one critical section of the pool's mutex, or one action outside it whose
  outcome the environment chooses (a health check, a handshake, a reset). A connection is named by a
  number that is used once. Threads wait on the condition variable in \<open>Waiting\<close>; a wake-up lets
  them run the loop again, and a time-out ends the call. The lock is never poisoned in the model: no thread
  panics inside a critical section, so the branches for a poisoned lock are left out.
\<close>

section \<open>State\<close>

record pool_state =
  idle :: "nat list"
  open_count :: nat
  closed :: bool

text \<open>
  Where a thread is. \<open>Probing\<close> has taken an idle connection, \<open>Dropped\<close> has dropped one and has not
  yet released its slot, \<open>Connecting\<close> has reserved a slot, \<open>Refused\<close> has to give that slot back,
  \<open>Holding\<close> owns a \<^verbatim>\<open>PooledThinConnection\<close>, \<open>Returning\<close> has reset its connection and
  \<open>Discarding\<close> has dropped it instead.
\<close>

datatype phase =
  Outside
| Probing nat
| Dropped
| Connecting
| Refused
| Waiting
| Holding nat
| Returning nat
| Discarding

record world =
  pool :: pool_state
  threads :: "phase list"
  next_conn :: nat

definition initial :: "nat \<Rightarrow> world" where
  "initial n =
     \<lparr>pool = \<lparr>idle = [], open_count = 0, closed = False\<rparr>, threads = replicate n Outside, next_conn = 0\<rparr>"

text \<open>The size a pool works with: \<^verbatim>\<open>OracleThinSessionPool::new\<close> raises a maximum of zero to one.\<close>

definition pool_max_size :: "nat \<Rightarrow> nat" where
  "pool_max_size requested = max requested 1"

section \<open>The operations\<close>

text \<open>The inner part of the loop of \<^verbatim>\<open>acquire\<close>, from the attempt to pop an idle connection.\<close>

definition pop_or_open :: "nat \<Rightarrow> pool_state \<Rightarrow> pool_state \<times> phase" where
  "pop_or_open max_size s =
     (if idle s \<noteq> [] then (s\<lparr>idle := butlast (idle s)\<rparr>, Probing (last (idle s)))
      else if open_count s < max_size then (s\<lparr>open_count := open_count s + 1\<rparr>, Connecting)
      else (s, Waiting))"

text \<open>The loop head, which fails on a closed pool.\<close>

definition acquire_locked :: "nat \<Rightarrow> pool_state \<Rightarrow> pool_state \<times> phase" where
  "acquire_locked max_size s = (if closed s then (s, Outside) else pop_or_open max_size s)"

definition release_slot :: "pool_state \<Rightarrow> pool_state" where
  "release_slot s = s\<lparr>open_count := open_count s - 1\<rparr>"

definition close_pool :: "pool_state \<Rightarrow> pool_state" where
  "close_pool s = s\<lparr>closed := True, idle := [], open_count := open_count s - length (idle s)\<rparr>"

definition return_locked :: "nat \<Rightarrow> pool_state \<Rightarrow> pool_state \<times> phase" where
  "return_locked c s =
     (if \<not> closed s then (s\<lparr>idle := idle s @ [c]\<rparr>, Outside) else (s, Discarding))"

text \<open>Dropping a \<^verbatim>\<open>PooledThinConnection\<close>, up to the lock: the connection goes back only when it was reset.\<close>

definition drop_connection :: "nat \<Rightarrow> bool \<Rightarrow> bool \<Rightarrow> bool \<Rightarrow> phase" where
  [simp]: "drop_connection c discard_on_drop healthy reset_ok =
     (if \<not> discard_on_drop \<and> healthy \<and> reset_ok then Returning c else Discarding)"

datatype event =
  Acquire nat
| Probe nat bool bool
| Relock nat
| Connect nat bool bool
| GiveBack nat
| Timeout nat
| Return nat bool bool bool
| PushIdle nat
| Discarded nat
| Close

definition at :: "world \<Rightarrow> nat \<Rightarrow> phase option" where
  "at w t = (if t < length (threads w) then Some (threads w ! t) else None)"

definition put :: "world \<Rightarrow> nat \<Rightarrow> pool_state \<times> phase \<Rightarrow> world" where
  "put w t r = w\<lparr>pool := fst r, threads := (threads w)[t := snd r]\<rparr>"

fun step :: "nat \<Rightarrow> event \<Rightarrow> world \<Rightarrow> world option" where
  "step max_size (Acquire t) w =
     (case at w t of
        Some Outside \<Rightarrow> Some (put w t (acquire_locked max_size (pool w)))
      | Some Waiting \<Rightarrow> Some (put w t (acquire_locked max_size (pool w)))
      | _ \<Rightarrow> None)"
| "step max_size (Probe t healthy begin_ok) w =
     (case at w t of
        Some (Probing c) \<Rightarrow>
          Some (put w t (pool w, if healthy \<and> begin_ok then Holding c else Dropped))
      | _ \<Rightarrow> None)"
| "step max_size (Relock t) w =
     (case at w t of
        Some Dropped \<Rightarrow> Some (put w t (pop_or_open max_size (release_slot (pool w))))
      | _ \<Rightarrow> None)"
| "step max_size (Connect t connect_ok begin_ok) w =
     (case at w t of
        Some Connecting \<Rightarrow>
          Some ((put w t (pool w, if connect_ok \<and> begin_ok then Holding (next_conn w) else Refused))
                  \<lparr>next_conn := next_conn w + 1\<rparr>)
      | _ \<Rightarrow> None)"
| "step max_size (GiveBack t) w =
     (case at w t of Some Refused \<Rightarrow> Some (put w t (release_slot (pool w), Outside)) | _ \<Rightarrow> None)"
| "step max_size (Timeout t) w =
     (case at w t of Some Waiting \<Rightarrow> Some (put w t (pool w, Outside)) | _ \<Rightarrow> None)"
| "step max_size (Return t discard_on_drop healthy reset_ok) w =
     (case at w t of
        Some (Holding c) \<Rightarrow> Some (put w t (pool w, drop_connection c discard_on_drop healthy reset_ok))
      | _ \<Rightarrow> None)"
| "step max_size (PushIdle t) w =
     (case at w t of Some (Returning c) \<Rightarrow> Some (put w t (return_locked c (pool w))) | _ \<Rightarrow> None)"
| "step max_size (Discarded t) w =
     (case at w t of Some Discarding \<Rightarrow> Some (put w t (release_slot (pool w), Outside)) | _ \<Rightarrow> None)"
| "step max_size Close w = Some (w\<lparr>pool := close_pool (pool w)\<rparr>)"

fun run :: "nat \<Rightarrow> event list \<Rightarrow> world \<Rightarrow> world option" where
  "run max_size [] w = Some w"
| "run max_size (e # es) w =
     (case step max_size e w of None \<Rightarrow> None | Some w' \<Rightarrow> run max_size es w')"

inductive reachable :: "nat \<Rightarrow> nat \<Rightarrow> world \<Rightarrow> bool" for max_size n where
  start: "reachable max_size n (initial n)"
| step: "reachable max_size n w \<Longrightarrow> step max_size e w = Some w' \<Longrightarrow> reachable max_size n w'"

section \<open>Accounting\<close>

fun slots :: "phase \<Rightarrow> nat" where
  "slots Outside = 0"
| "slots Waiting = 0"
| "slots _ = 1"

fun conns :: "phase \<Rightarrow> nat multiset" where
  "conns (Probing c) = {#c#}"
| "conns (Holding c) = {#c#}"
| "conns (Returning c) = {#c#}"
| "conns _ = {#}"

definition slots_in_use :: "world \<Rightarrow> nat" where
  "slots_in_use w = length (idle (pool w)) + sum_list (map slots (threads w))"

definition owned :: "world \<Rightarrow> nat multiset" where
  "owned w = mset (idle (pool w)) + sum_list (map conns (threads w))"

definition pool_inv :: "nat \<Rightarrow> world \<Rightarrow> bool" where
  "pool_inv max_size w \<longleftrightarrow>
     open_count (pool w) = slots_in_use w \<and> open_count (pool w) \<le> max_size \<and>
     (closed (pool w) \<longrightarrow> idle (pool w) = []) \<and>
     (\<forall>c. count (owned w) c \<le> 1) \<and> (\<forall>c. c \<in># owned w \<longrightarrow> c < next_conn w)"

lemma sum_list_map_update:
  fixes f :: "'a \<Rightarrow> 'b::comm_monoid_add"
  assumes "i < length xs"
  shows "sum_list (map f (xs[i := y])) + f (xs ! i) = sum_list (map f xs) + f y"
proof -
  have "sum_list (map f xs) = sum_list (map f (take i xs)) + (f (xs ! i) + sum_list (map f (drop (Suc i) xs)))"
    by (subst id_take_nth_drop [OF assms]) simp
  with assms show ?thesis by (simp add: upd_conv_take_nth_drop ac_simps)
qed

text \<open>
  One thread moves: what its step does to the pool decides everything. The premises balance the
  thread's slot and connection against those of the pool.
\<close>

lemma thread_step:
  assumes inv: "pool_inv max_size w" and t: "at w t = Some p"
    and count: "open_count s' + slots p + length (idle (pool w)) =
      open_count (pool w) + slots p' + length (idle s')"
    and bound: "open_count s' \<le> max_size" and shut: "closed s' \<longrightarrow> idle s' = []"
    and conns: "mset (idle s') + conns p' \<subseteq># mset (idle (pool w)) + conns p"
  shows "pool_inv max_size (put w t (s', p'))"
proof -
  have i: "t < length (threads w)" "threads w ! t = p" using t by (auto simp: at_def split: if_splits)
  note u = sum_list_map_update [OF i(1), of slots p'] sum_list_map_update [OF i(1), of conns p']
  have "open_count s' = length (idle s') + sum_list (map slots ((threads w)[t := p']))"
    using inv count u(1) i(2) by (simp add: pool_inv_def slots_in_use_def)
  moreover have sub: "owned (put w t (s', p')) \<subseteq># owned w"
  proof -
    have "owned (put w t (s', p')) + conns p = (mset (idle s') + conns p') + sum_list (map conns (threads w))"
      using u(2) i(2) by (simp add: owned_def put_def ac_simps)
    also have "\<dots> \<subseteq># (mset (idle (pool w)) + conns p) + sum_list (map conns (threads w))"
      using conns by (rule subset_mset.add_right_mono)
    finally show ?thesis by (simp add: owned_def ac_simps)
  qed
  moreover have "count (owned (put w t (s', p'))) c \<le> 1" for c
    using inv mset_subset_eq_count [OF sub, of c] by (auto simp: pool_inv_def intro: order_trans)
  ultimately show ?thesis
    using inv bound shut
    by (auto simp: pool_inv_def slots_in_use_def put_def dest: mset_subset_eqD)
qed

lemma slot_is_counted:
  assumes "pool_inv max_size w" "at w t = Some p"
  shows "slots p + length (idle (pool w)) \<le> open_count (pool w)"
proof -
  have i: "t < length (threads w)" "threads w ! t = p"
    using assms(2) by (auto simp: at_def split: if_splits)
  then have "p \<in> set (threads w)" using nth_mem by blast
  then have "slots p \<in> set (map slots (threads w))" by simp
  then have "slots p \<le> sum_list (map slots (threads w))" by (rule member_le_sum_list) simp
  with assms(1) show ?thesis by (simp add: pool_inv_def slots_in_use_def)
qed

lemma pop_or_open_balance:
  assumes "pop_or_open max_size s = (s', p)"
  shows "open_count s' + length (idle s) = open_count s + slots p + length (idle s')"
    "open_count s \<le> max_size \<Longrightarrow> open_count s' \<le> max_size" "closed s' = closed s"
    "idle s = [] \<Longrightarrow> idle s' = []" "mset (idle s') + conns p \<subseteq># mset (idle s)"
proof -
  have "mset (butlast xs) + {#last xs#} = mset xs" if "xs \<noteq> []" for xs :: "nat list"
    using that by (cases xs rule: rev_cases) simp_all
  then show "open_count s' + length (idle s) = open_count s + slots p + length (idle s')"
    "open_count s \<le> max_size \<Longrightarrow> open_count s' \<le> max_size" "closed s' = closed s"
    "idle s = [] \<Longrightarrow> idle s' = []" "mset (idle s') + conns p \<subseteq># mset (idle s)"
    using assms by (auto simp: pop_or_open_def split: if_splits)
qed

lemma acquire_inv:
  assumes "pool_inv max_size w" "at w t = Some p" "p = Outside \<or> p = Waiting"
  shows "pool_inv max_size (put w t (acquire_locked max_size (pool w)))"
proof -
  obtain s' p' where r: "acquire_locked max_size (pool w) = (s', p')" by force
  show ?thesis
  proof (cases "closed (pool w)")
    case True
    with r have "s' = pool w" "p' = Outside" by (auto simp: acquire_locked_def)
    with assms thread_step [OF assms(1,2), of s' p'] show ?thesis by (auto simp: r pool_inv_def)
  next
    case False
    with r have "pop_or_open max_size (pool w) = (s', p')" by (simp add: acquire_locked_def)
    note b = pop_or_open_balance [OF this]
    show ?thesis
      unfolding r by (rule thread_step [OF assms(1,2)]) (use assms b in \<open>auto simp: pool_inv_def\<close>)
  qed
qed

lemma relock_inv:
  assumes "pool_inv max_size w" "at w t = Some Dropped"
  shows "pool_inv max_size (put w t (pop_or_open max_size (release_slot (pool w))))"
proof -
  obtain s' p' where r: "pop_or_open max_size (release_slot (pool w)) = (s', p')" by force
  note b = pop_or_open_balance [OF this]
  show ?thesis
    unfolding r
    by (rule thread_step [OF assms])
      (use assms(1) b slot_is_counted [OF assms] in \<open>auto simp: pool_inv_def release_slot_def\<close>)
qed

lemma same_pool_inv:
  assumes "pool_inv max_size w" "at w t = Some p" "slots p' = slots p" "conns p' \<subseteq># conns p"
  shows "pool_inv max_size (put w t (pool w, p'))"
  by (rule thread_step [OF assms(1,2)]) (use assms in \<open>auto simp: pool_inv_def\<close>)

lemma release_inv:
  assumes "pool_inv max_size w" "at w t = Some p" "slots p = 1" "conns p = {#}"
  shows "pool_inv max_size (put w t (release_slot (pool w), Outside))"
  by (rule thread_step [OF assms(1,2)])
    (use assms slot_is_counted [OF assms(1,2)] in \<open>auto simp: pool_inv_def release_slot_def\<close>)

lemma push_inv:
  assumes "pool_inv max_size w" "at w t = Some (Returning c)"
  shows "pool_inv max_size (put w t (return_locked c (pool w)))"
proof (cases "closed (pool w)")
  case True
  with same_pool_inv [OF assms, of Discarding] show ?thesis by (simp add: return_locked_def)
next
  case False
  then have "return_locked c (pool w) = ((pool w)\<lparr>idle := idle (pool w) @ [c]\<rparr>, Outside)"
    by (simp add: return_locked_def)
  then show ?thesis
    using thread_step [OF assms, of "(pool w)\<lparr>idle := idle (pool w) @ [c]\<rparr>" Outside] assms(1) False
    by (simp add: pool_inv_def)
qed

lemma fresh_conn_inv:
  assumes "pool_inv max_size w" "at w t = Some Connecting"
  shows "pool_inv max_size ((put w t (pool w, Holding (next_conn w)))\<lparr>next_conn := next_conn w + 1\<rparr>)"
proof -
  let ?w = "(put w t (pool w, Holding (next_conn w)))\<lparr>next_conn := next_conn w + 1\<rparr>"
  have i: "t < length (threads w)" "threads w ! t = Connecting"
    using assms(2) by (auto simp: at_def split: if_splits)
  note u = sum_list_map_update [OF i(1), of slots "Holding (next_conn w)"]
    sum_list_map_update [OF i(1), of conns "Holding (next_conn w)"]
  have "next_conn w \<notin># owned w" using assms(1) by (auto simp: pool_inv_def)
  moreover have "owned ?w = add_mset (next_conn w) (owned w)"
    using u(2) i(2) by (simp add: owned_def put_def)
  ultimately show ?thesis
    using assms(1) u(1) i(2)
    by (auto simp: pool_inv_def slots_in_use_def put_def count_eq_zero_iff less_Suc_eq)
qed

lemma close_inv:
  assumes "pool_inv max_size w"
  shows "pool_inv max_size (w\<lparr>pool := close_pool (pool w)\<rparr>)"
proof -
  have sub: "owned (w\<lparr>pool := close_pool (pool w)\<rparr>) \<subseteq># owned w" by (simp add: owned_def close_pool_def)
  have "count (owned (w\<lparr>pool := close_pool (pool w)\<rparr>)) c \<le> 1" for c
    using assms mset_subset_eq_count [OF sub, of c] by (auto simp: pool_inv_def intro: order_trans)
  with assms sub show ?thesis
    by (auto simp: pool_inv_def slots_in_use_def close_pool_def dest: mset_subset_eqD)
qed

lemma next_conn_inv:
  assumes "pool_inv max_size w"
  shows "pool_inv max_size (w\<lparr>next_conn := next_conn w + 1\<rparr>)"
proof -
  have "owned (w\<lparr>next_conn := next_conn w + 1\<rparr>) = owned w"
    "slots_in_use (w\<lparr>next_conn := next_conn w + 1\<rparr>) = slots_in_use w"
    by (simp_all add: owned_def slots_in_use_def)
  with assms show ?thesis by (simp add: pool_inv_def less_SucI)
qed

lemma step_inv:
  assumes "pool_inv max_size w" "step max_size e w = Some w'"
  shows "pool_inv max_size w'"
proof (cases e)
  case (Acquire t)
  with assms show ?thesis
    by (auto split: option.splits phase.splits intro: acquire_inv)
next
  case (Probe t healthy begin_ok)
  with assms show ?thesis
    by (auto split: option.splits phase.splits if_splits intro: same_pool_inv)
next
  case (Relock t)
  with assms show ?thesis by (auto split: option.splits phase.splits intro: relock_inv)
next
  case (Connect t connect_ok begin_ok)
  with assms have c: "at w t = Some Connecting" by (auto split: option.splits phase.splits)
  show ?thesis
  proof (cases "connect_ok \<and> begin_ok")
    case True
    with Connect assms c fresh_conn_inv [OF assms(1) c] show ?thesis by simp
  next
    case False
    have "pool_inv max_size (put w t (pool w, Refused))" by (rule same_pool_inv [OF assms(1) c]) simp_all
    from next_conn_inv [OF this] False Connect assms(2) c show ?thesis by (auto simp: put_def)
  qed
next
  case (GiveBack t)
  with assms show ?thesis by (auto split: option.splits phase.splits intro: release_inv)
next
  case (Timeout t)
  with assms show ?thesis by (auto split: option.splits phase.splits intro: same_pool_inv)
next
  case (Return t discard healthy reset_ok)
  with assms show ?thesis
    by (auto split: option.splits phase.splits if_splits intro: same_pool_inv)
next
  case (PushIdle t)
  with assms show ?thesis by (auto split: option.splits phase.splits intro: push_inv)
next
  case (Discarded t)
  with assms show ?thesis by (auto split: option.splits phase.splits intro: release_inv)
next
  case Close
  with assms show ?thesis by (auto intro: close_inv)
qed

lemma initial_inv: "pool_inv max_size (initial n)"
proof -
  have "sum_list (replicate n ({#} :: nat multiset)) = {#}" by (induction n) simp_all
  then show ?thesis
    by (simp add: pool_inv_def initial_def slots_in_use_def owned_def map_replicate_const sum_list_replicate)
qed

lemma reachable_inv: "reachable max_size n w \<Longrightarrow> pool_inv max_size w"
  by (induction rule: reachable.induct) (auto intro: initial_inv step_inv)

lemma reachable_threads: "reachable max_size n w \<Longrightarrow> length (threads w) = n"
proof (induction rule: reachable.induct)
  case (step w e w')
  then show ?case
    by (cases e) (auto simp: put_def split: option.splits phase.splits)
qed (simp add: initial_def)

text \<open>
  C17. Whatever the interleaving of acquiring, returning and closing threads, and whatever the health
  checks, handshakes and resets answer, the pool counts right: its open count is the number of idle
  connections plus the slots that threads occupy, it never exceeds the configured maximum, no
  connection is idle or handed out twice, and a closed pool keeps nothing idle.
\<close>

theorem pool_never_overcommits:
  assumes "reachable max_size n w"
  shows "open_count (pool w) = length (idle (pool w)) + sum_list (map slots (threads w)) \<and>
    open_count (pool w) \<le> max_size \<and> (closed (pool w) \<longrightarrow> idle (pool w) = []) \<and>
    (\<forall>c. count (mset (idle (pool w)) + sum_list (map conns (threads w))) c \<le> 1)"
  using reachable_inv [OF assms] by (auto simp: pool_inv_def slots_in_use_def owned_def)

lemma reachable_run: "reachable max_size n w \<Longrightarrow> run max_size es w = Some w' \<Longrightarrow> reachable max_size n w'"
  by (induction es arbitrary: w) (auto split: option.splits intro: reachable.step)

definition two_holders :: world where
  "two_holders = \<lparr>pool = \<lparr>idle = [], open_count = 2, closed = False\<rparr>,
     threads = [Holding 0, Holding 1], next_conn = 2\<rparr>"

lemma two_holders_reachable: "reachable 2 2 two_holders"
proof (rule reachable_run [OF reachable.start])
  show "run 2 [Acquire 0, Acquire 1, Connect 0 True True, Connect 1 True True] (initial 2)
      = Some two_holders"
    by code_simp
qed

lemma pool_never_overcommits_witness:
  "reachable 2 2 two_holders \<and>
   open_count (pool two_holders) = length (idle (pool two_holders)) + sum_list (map slots (threads two_holders)) \<and>
   open_count (pool two_holders) \<le> 2 \<and>
   count (mset (idle (pool two_holders)) + sum_list (map conns (threads two_holders))) 1 \<le> 1"
  using pool_never_overcommits [OF two_holders_reachable] two_holders_reachable by blast

text \<open>
  C37. No slot leaks: in every reachable state of an open pool, of any requested size, in which no
  thread holds, probes or opens a connection (through whatever errors it came there), an acquire does
  not wait; a caller from outside and a waiting caller alike get an idle connection to probe or a
  slot to connect with.
\<close>

theorem quiet_pool_serves_the_next_caller:
  assumes "reachable (pool_max_size requested) n w" "list_all (\<lambda>p. slots p = 0) (threads w)" "t < n"
    "\<not> closed (pool w)"
  shows "\<exists>w'. step (pool_max_size requested) (Acquire t) w = Some w' \<and>
    (threads w' ! t = Connecting \<or> (\<exists>c. threads w' ! t = Probing c))"
proof -
  have "at w t = Some (threads w ! t)" "slots (threads w ! t) = 0"
    using assms(2,3) reachable_threads [OF assms(1)] by (simp_all add: at_def list_all_length)
  then have t: "at w t = Some Outside \<or> at w t = Some Waiting" by (cases "threads w ! t") simp_all
  have "sum_list (map slots (threads w)) = 0" using assms(2) by (auto simp: sum_list_eq_0_iff list_all_iff)
  then have "open_count (pool w) = length (idle (pool w))"
    using reachable_inv [OF assms(1)] by (simp add: pool_inv_def slots_in_use_def)
  with assms(3,4) t reachable_threads [OF assms(1)] show ?thesis
    by (auto simp: acquire_locked_def pop_or_open_def put_def pool_max_size_def)
qed

lemma quiet_pool_serves_the_next_caller_witness:
  "\<exists>w. step (pool_max_size 0) (Acquire 0) (initial 1) = Some w \<and>
    (threads w ! 0 = Connecting \<or> (\<exists>c. threads w ! 0 = Probing c))"
  by (rule quiet_pool_serves_the_next_caller [OF reachable.start]) (simp_all add: initial_def)

text \<open>
  Closing the pool does not stop an acquire that is probing: when its connection turns out to be dead,
  the inner loop goes on without looking at \<^verbatim>\<open>closed\<close> again and opens a new connection.
\<close>

lemma closed_pool_still_connects:
  "\<exists>w. run 1 [Acquire 0, Connect 0 True True, Return 0 False True True, PushIdle 0, Acquire 0, Close,
          Probe 0 False True, Relock 0, Connect 0 True True] (initial 1) = Some w \<and>
     closed (pool w) \<and> threads w = [Holding 1]"
  by (simp add: initial_def at_def put_def acquire_locked_def pop_or_open_def return_locked_def
      close_pool_def release_slot_def)

end
