(* ===== verification/Seq_Tree.thy ===== *)
theory Seq_Tree
  imports Prelude
begin

text \<open>
  The persistent balanced sequence under the editor's texts and style runs
  (\<^verbatim>\<open>src/ui/sql_editor/chunked_text.rs\<close>, up to the leaves). A tree caches lengths and heights in its
  branches; joining, splitting and replacing copy only a path. The trait \<^verbatim>\<open>SequenceLeaf\<close> is the record
  \<open>leaf_ops\<close> of its functions, and the contract that the tree relies on is the locale \<open>sequence_leaf\<close>:
  inside it every operation is proved to be the list operation it stands for and to keep the tree
  balanced with exact caches. Lengths are natural numbers: the saturating additions of the source
  saturate only beyond the size of the address space.
\<close>

record 'l leaf_ops =
  leaf_len :: "'l \<Rightarrow> nat"
  leaf_secondary_len :: "'l \<Rightarrow> nat"
  leaf_secondary_count_before :: "'l \<Rightarrow> nat \<Rightarrow> nat"
  leaf_secondary_position :: "'l \<Rightarrow> nat \<Rightarrow> nat option"
  leaf_split_at :: "'l \<Rightarrow> nat \<Rightarrow> 'l option \<times> 'l option"
  leaf_rechunk_pair :: "'l \<Rightarrow> 'l \<Rightarrow> 'l list"

datatype 'l SequenceNode =
    Leaf 'l
  | Branch "'l SequenceNode" "'l SequenceNode" nat nat nat nat

fun node_len :: "'l leaf_ops \<Rightarrow> 'l SequenceNode \<Rightarrow> nat" where
  "node_len ops (Leaf leaf) = leaf_len ops leaf"
| "node_len ops (Branch _ _ len _ _ _) = len"

fun node_secondary_len :: "'l leaf_ops \<Rightarrow> 'l SequenceNode \<Rightarrow> nat" where
  "node_secondary_len ops (Leaf leaf) = leaf_secondary_len ops leaf"
| "node_secondary_len ops (Branch _ _ _ secondary_len _ _) = secondary_len"

fun node_leaf_count :: "'l SequenceNode \<Rightarrow> nat" where
  "node_leaf_count (Leaf _) = 1"
| "node_leaf_count (Branch _ _ _ _ leaf_count _) = leaf_count"

fun node_height :: "'l SequenceNode \<Rightarrow> nat" where
  "node_height (Leaf _) = 1"
| "node_height (Branch _ _ _ _ _ height) = height"

type_synonym 'l PersistentSequence = "'l SequenceNode option"

section \<open>Building and joining\<close>

definition make_branch :: "'l leaf_ops \<Rightarrow> 'l SequenceNode \<Rightarrow> 'l SequenceNode \<Rightarrow> 'l SequenceNode" where
  "make_branch ops l r =
     Branch l r (node_len ops l + node_len ops r) (node_secondary_len ops l + node_secondary_len ops r)
       (node_leaf_count l + node_leaf_count r) (max (node_height l) (node_height r) + 1)"

function build_balanced_nodes :: "'l leaf_ops \<Rightarrow> 'l list \<Rightarrow> 'l PersistentSequence" where
  "build_balanced_nodes ops leaves =
     (case leaves of
        [] \<Rightarrow> None
      | [leaf] \<Rightarrow> Some (Leaf leaf)
      | _ \<Rightarrow>
          (let middle = length leaves div 2
           in case build_balanced_nodes ops (take middle leaves) of
                None \<Rightarrow> None
              | Some l \<Rightarrow>
                  (case build_balanced_nodes ops (drop middle leaves) of
                     None \<Rightarrow> None
                   | Some r \<Rightarrow> Some (make_branch ops l r))))"
  by pat_completeness auto
termination by (relation "measure (length \<circ> snd)") (auto simp: min_def)

declare build_balanced_nodes.simps [simp del]

definition balance_nodes :: "'l leaf_ops \<Rightarrow> 'l SequenceNode \<Rightarrow> 'l SequenceNode \<Rightarrow> 'l SequenceNode" where
  "balance_nodes ops l r =
     (if node_height l > node_height r + 1 then
        (case l of
           Leaf _ \<Rightarrow> make_branch ops l r
         | Branch left_left left_right _ _ _ _ \<Rightarrow>
             if node_height left_left \<ge> node_height left_right
             then make_branch ops left_left (make_branch ops left_right r)
             else
               (case left_right of
                  Leaf _ \<Rightarrow> make_branch ops l r
                | Branch middle_left middle_right _ _ _ _ \<Rightarrow>
                    make_branch ops (make_branch ops left_left middle_left) (make_branch ops middle_right r)))
      else if node_height r > node_height l + 1 then
        (case r of
           Leaf _ \<Rightarrow> make_branch ops l r
         | Branch right_left right_right _ _ _ _ \<Rightarrow>
             if node_height right_right \<ge> node_height right_left
             then make_branch ops (make_branch ops l right_left) right_right
             else
               (case right_left of
                  Leaf _ \<Rightarrow> make_branch ops l r
                | Branch middle_left middle_right _ _ _ _ \<Rightarrow>
                    make_branch ops (make_branch ops l middle_left) (make_branch ops middle_right right_right)))
      else make_branch ops l r)"

function join_nodes :: "'l leaf_ops \<Rightarrow> 'l SequenceNode \<Rightarrow> 'l SequenceNode \<Rightarrow> 'l SequenceNode" where
  "join_nodes ops l r =
     (if node_height l > node_height r + 1 then
        (case l of
           Leaf _ \<Rightarrow> make_branch ops l r
         | Branch left_left left_right _ _ _ _ \<Rightarrow>
             balance_nodes ops left_left (join_nodes ops left_right r))
      else if node_height r > node_height l + 1 then
        (case r of
           Leaf _ \<Rightarrow> make_branch ops l r
         | Branch right_left right_right _ _ _ _ \<Rightarrow>
             balance_nodes ops (join_nodes ops l right_left) right_right)
      else make_branch ops l r)"
  by pat_completeness auto
termination by (relation "measure (\<lambda>(ops, l, r). size l + size r)") auto

declare join_nodes.simps [simp del]

definition concat_raw :: "'l leaf_ops \<Rightarrow> 'l PersistentSequence \<Rightarrow> 'l PersistentSequence \<Rightarrow> 'l PersistentSequence" where
  "concat_raw ops l r =
     (case l of
        None \<Rightarrow> r
      | Some l \<Rightarrow> (case r of None \<Rightarrow> Some l | Some r \<Rightarrow> Some (join_nodes ops l r)))"

fun pop_first :: "'l leaf_ops \<Rightarrow> 'l SequenceNode \<Rightarrow> 'l PersistentSequence \<times> 'l" where
  "pop_first ops (Leaf leaf) = (None, leaf)"
| "pop_first ops (Branch l r _ _ _ _) =
     (let (left_rest, first) = pop_first ops l in (concat_raw ops left_rest (Some r), first))"

fun pop_last :: "'l leaf_ops \<Rightarrow> 'l SequenceNode \<Rightarrow> 'l PersistentSequence \<times> 'l" where
  "pop_last ops (Leaf leaf) = (None, leaf)"
| "pop_last ops (Branch l r _ _ _ _) =
     (let (right_rest, last) = pop_last ops r in (concat_raw ops (Some l) right_rest, last))"

definition concat_normalized ::
    "'l leaf_ops \<Rightarrow> 'l PersistentSequence \<Rightarrow> 'l PersistentSequence \<Rightarrow> 'l PersistentSequence" where
  "concat_normalized ops l r =
     (case l of
        None \<Rightarrow> r
      | Some l \<Rightarrow>
          (case r of
             None \<Rightarrow> Some l
           | Some r \<Rightarrow>
               (let (left_rest, left_leaf) = pop_last ops l;
                    (right_rest, right_leaf) = pop_first ops r;
                    middle = build_balanced_nodes ops (leaf_rechunk_pair ops left_leaf right_leaf)
                in concat_raw ops (concat_raw ops left_rest middle) right_rest)))"

section \<open>Splitting, replacing and looking up\<close>

fun split_some :: "'l leaf_ops \<Rightarrow> 'l SequenceNode \<Rightarrow> nat \<Rightarrow> 'l PersistentSequence \<times> 'l PersistentSequence" where
  "split_some ops (Leaf leaf) position =
     (if position = 0 then (None, Some (Leaf leaf))
      else if position \<ge> leaf_len ops leaf then (Some (Leaf leaf), None)
      else (let (l, r) = leaf_split_at ops leaf position in (map_option Leaf l, map_option Leaf r)))"
| "split_some ops (Branch l r len secondary_len leaf_count height) position =
     (if position = 0 then (None, Some (Branch l r len secondary_len leaf_count height))
      else if position \<ge> len then (Some (Branch l r len secondary_len leaf_count height), None)
      else if position = node_len ops l then (Some l, Some r)
      else if position < node_len ops l then
        (let (before_part, after_part) = split_some ops l position
         in (before_part, concat_raw ops after_part (Some r)))
      else
        (let (before_part, after_part) = split_some ops r (position - node_len ops l)
         in (concat_raw ops (Some l) before_part, after_part)))"

definition split_node ::
    "'l leaf_ops \<Rightarrow> 'l PersistentSequence \<Rightarrow> nat \<Rightarrow> 'l PersistentSequence \<times> 'l PersistentSequence" where
  "split_node ops node position =
     (case node of None \<Rightarrow> (None, None) | Some node \<Rightarrow> split_some ops node position)"

definition seq_len :: "'l leaf_ops \<Rightarrow> 'l PersistentSequence \<Rightarrow> nat" where
  "seq_len ops root = (case root of None \<Rightarrow> 0 | Some node \<Rightarrow> node_len ops node)"

definition seq_secondary_len :: "'l leaf_ops \<Rightarrow> 'l PersistentSequence \<Rightarrow> nat" where
  "seq_secondary_len ops root = (case root of None \<Rightarrow> 0 | Some node \<Rightarrow> node_secondary_len ops node)"

definition from_leaves :: "'l leaf_ops \<Rightarrow> 'l list \<Rightarrow> 'l PersistentSequence" where
  "from_leaves ops leaves = build_balanced_nodes ops leaves"

definition seq_replace_range ::
    "'l leaf_ops \<Rightarrow> 'l PersistentSequence \<Rightarrow> nat \<Rightarrow> nat \<Rightarrow> 'l PersistentSequence \<Rightarrow> 'l PersistentSequence" where
  "seq_replace_range ops root start_pos end_pos replacement =
     (let start_pos = min start_pos (seq_len ops root);
          end_pos = max (min end_pos (seq_len ops root)) start_pos;
          (l, tail) = split_node ops root start_pos;
          (_, r) = split_node ops tail (end_pos - start_pos)
      in concat_normalized ops (concat_normalized ops l replacement) r)"

fun locate_node :: "'l leaf_ops \<Rightarrow> 'l SequenceNode \<Rightarrow> nat \<Rightarrow> ('l \<times> nat) option" where
  "locate_node ops (Leaf leaf) position = Some (leaf, min position (leaf_len ops leaf))"
| "locate_node ops (Branch l r _ _ _ _) position =
     (if position < node_len ops l then locate_node ops l position
      else locate_node ops r (position - node_len ops l))"

definition locate :: "'l leaf_ops \<Rightarrow> 'l PersistentSequence \<Rightarrow> nat \<Rightarrow> ('l \<times> nat) option" where
  "locate ops root position =
     (if position \<ge> seq_len ops root then None
      else Option.bind root (\<lambda>node. locate_node ops node position))"

text \<open>The visits of a range: the leaves it meets, each with the local bounds that are visited.\<close>

fun visit_node_range :: "'l leaf_ops \<Rightarrow> 'l SequenceNode \<Rightarrow> nat \<Rightarrow> nat \<Rightarrow> nat \<Rightarrow> ('l \<times> nat \<times> nat) list" where
  "visit_node_range ops (Leaf leaf) node_start start_pos end_pos =
     (if start_pos \<ge> node_start + leaf_len ops leaf \<or> end_pos \<le> node_start then []
      else
        (let local_start = min (start_pos - node_start) (leaf_len ops leaf);
             local_end = min (end_pos - node_start) (leaf_len ops leaf)
         in if local_start < local_end then [(leaf, local_start, local_end)] else []))"
| "visit_node_range ops (Branch l r len _ _ _) node_start start_pos end_pos =
     (if start_pos \<ge> node_start + len \<or> end_pos \<le> node_start then []
      else visit_node_range ops l node_start start_pos end_pos @
           visit_node_range ops r (node_start + node_len ops l) start_pos end_pos)"

definition visit_range :: "'l leaf_ops \<Rightarrow> 'l PersistentSequence \<Rightarrow> nat \<Rightarrow> nat \<Rightarrow> ('l \<times> nat \<times> nat) list" where
  "visit_range ops root start_pos end_pos =
     (let start_pos = min start_pos (seq_len ops root);
          end_pos = max (min end_pos (seq_len ops root)) start_pos
      in case root of None \<Rightarrow> [] | Some node \<Rightarrow> visit_node_range ops node 0 start_pos end_pos)"

fun visit_each_leaf :: "'l SequenceNode \<Rightarrow> 'l list" where
  "visit_each_leaf (Leaf leaf) = [leaf]"
| "visit_each_leaf (Branch l r _ _ _ _) = visit_each_leaf l @ visit_each_leaf r"

definition for_each_leaf :: "'l PersistentSequence \<Rightarrow> 'l list" where
  "for_each_leaf root = (case root of None \<Rightarrow> [] | Some node \<Rightarrow> visit_each_leaf node)"

fun secondary_count_before_node :: "'l leaf_ops \<Rightarrow> 'l SequenceNode \<Rightarrow> nat \<Rightarrow> nat" where
  "secondary_count_before_node ops (Leaf leaf) position =
     leaf_secondary_count_before ops leaf (min position (leaf_len ops leaf))"
| "secondary_count_before_node ops (Branch l r _ _ _ _) position =
     (if position \<le> node_len ops l then secondary_count_before_node ops l position
      else node_secondary_len ops l + secondary_count_before_node ops r (position - node_len ops l))"

definition secondary_count_before :: "'l leaf_ops \<Rightarrow> 'l PersistentSequence \<Rightarrow> nat \<Rightarrow> nat" where
  "secondary_count_before ops root position =
     (case root of None \<Rightarrow> 0
      | Some node \<Rightarrow> secondary_count_before_node ops node (min position (node_len ops node)))"

fun nth_secondary_in_node :: "'l leaf_ops \<Rightarrow> 'l SequenceNode \<Rightarrow> nat \<Rightarrow> nat \<Rightarrow> nat option" where
  "nth_secondary_in_node ops (Leaf leaf) ordinal node_start =
     map_option (\<lambda>position. node_start + position) (leaf_secondary_position ops leaf ordinal)"
| "nth_secondary_in_node ops (Branch l r _ _ _ _) ordinal node_start =
     (if ordinal < node_secondary_len ops l then nth_secondary_in_node ops l ordinal node_start
      else nth_secondary_in_node ops r (ordinal - node_secondary_len ops l) (node_start + node_len ops l))"

definition nth_secondary :: "'l leaf_ops \<Rightarrow> 'l PersistentSequence \<Rightarrow> nat \<Rightarrow> nat option" where
  "nth_secondary ops root ordinal =
     (case root of None \<Rightarrow> None
      | Some node \<Rightarrow>
          if ordinal \<ge> node_secondary_len ops node then None
          else nth_secondary_in_node ops node ordinal 0)"

section \<open>The leaves of a tree\<close>

named_theorems leaves_of \<open>what an operation does to the leaves\<close>

lemma make_branch_leaves [leaves_of, simp]:
  "visit_each_leaf (make_branch ops l r) = visit_each_leaf l @ visit_each_leaf r"
  by (simp add: make_branch_def)

lemma balance_nodes_leaves [leaves_of, simp]:
  "visit_each_leaf (balance_nodes ops l r) = visit_each_leaf l @ visit_each_leaf r"
  by (auto simp: balance_nodes_def split: SequenceNode.split)

lemma join_nodes_leaves [leaves_of, simp]:
  "visit_each_leaf (join_nodes ops l r) = visit_each_leaf l @ visit_each_leaf r"
proof (induction ops l r rule: join_nodes.induct)
  case (1 ops l r)
  then show ?case by (subst join_nodes.simps) (auto split: SequenceNode.split)
qed

lemma for_each_leaf_simps [leaves_of, simp]:
  "for_each_leaf None = []" "for_each_leaf (Some node) = visit_each_leaf node"
  by (simp_all add: for_each_leaf_def)

lemma concat_raw_leaves [leaves_of, simp]:
  "for_each_leaf (concat_raw ops l r) = for_each_leaf l @ for_each_leaf r"
  by (auto simp: concat_raw_def split: option.split)

lemma pop_first_leaves: "snd (pop_first ops node) # for_each_leaf (fst (pop_first ops node)) = visit_each_leaf node"
  by (induction node) (auto split: prod.split)

lemma pop_last_leaves: "for_each_leaf (fst (pop_last ops node)) @ [snd (pop_last ops node)] = visit_each_leaf node"
  by (induction node) (auto split: prod.split)

text \<open>Induction over the halving of a list.\<close>

lemma halving_induct [case_names Nil Single Halves]:
  assumes "P []" "\<And>x. P [x]"
    and "\<And>xs. 2 \<le> length xs \<Longrightarrow> P (take (length xs div 2) xs) \<Longrightarrow> P (drop (length xs div 2) xs) \<Longrightarrow> P xs"
  shows "P xs"
proof (induction xs rule: length_induct)
  case (1 xs)
  show ?case
  proof (cases "2 \<le> length xs")
    case True
    then have "P (take (length xs div 2) xs)" "P (drop (length xs div 2) xs)"
      using 1 by simp_all
    then show ?thesis using True assms(3) by simp
  next
    case False
    then show ?thesis
      using assms(1,2) by (cases xs rule: list.exhaust; cases "tl xs") auto
  qed
qed

lemma build_balanced_nodes_simps [simp]:
  "build_balanced_nodes ops [] = None"
  "build_balanced_nodes ops [x] = Some (Leaf x)"
  by (simp_all add: build_balanced_nodes.simps)

lemma build_balanced_nodes_halves:
  assumes "2 \<le> length leaves"
  shows "build_balanced_nodes ops leaves =
     (case build_balanced_nodes ops (take (length leaves div 2) leaves) of
        None \<Rightarrow> None
      | Some l \<Rightarrow>
          (case build_balanced_nodes ops (drop (length leaves div 2) leaves) of
             None \<Rightarrow> None
           | Some r \<Rightarrow> Some (make_branch ops l r)))"
proof -
  obtain x y zs where leaves: "leaves = x # y # zs"
    using assms by (metis Suc_le_length_iff numeral_2_eq_2)
  show ?thesis
    unfolding leaves by (subst build_balanced_nodes.simps) (simp only: list.case Let_def)
qed

lemma build_balanced_nodes_Some: "leaves \<noteq> [] \<Longrightarrow> \<exists>node. build_balanced_nodes ops leaves = Some node"
proof (induction leaves rule: halving_induct)
  case (Halves xs)
  then have "take (length xs div 2) xs \<noteq> []" "drop (length xs div 2) xs \<noteq> []" by auto
  with Halves show ?case by (auto simp: build_balanced_nodes_halves)
qed simp_all

lemma build_balanced_nodes_leaves [leaves_of, simp]: "for_each_leaf (build_balanced_nodes ops leaves) = leaves"
proof (induction leaves rule: halving_induct)
  case (Halves xs)
  then have "take (length xs div 2) xs \<noteq> []" "drop (length xs div 2) xs \<noteq> []" by auto
  then obtain l r where "build_balanced_nodes ops (take (length xs div 2) xs) = Some l"
      "build_balanced_nodes ops (drop (length xs div 2) xs) = Some r"
    using build_balanced_nodes_Some by metis
  with Halves show ?case by (simp add: build_balanced_nodes_halves)
qed simp_all

section \<open>Balance\<close>

text \<open>
  The invariant of a tree: the caches are exact, siblings differ in height by at most one, and every leaf
  is well formed.
\<close>

fun tree_ok :: "'l leaf_ops \<Rightarrow> ('l \<Rightarrow> bool) \<Rightarrow> 'l SequenceNode \<Rightarrow> bool" where
  "tree_ok ops ok (Leaf leaf) = ok leaf"
| "tree_ok ops ok (Branch l r len secondary_len leaf_count height) \<longleftrightarrow>
     tree_ok ops ok l \<and> tree_ok ops ok r \<and>
     len = node_len ops l + node_len ops r \<and>
     secondary_len = node_secondary_len ops l + node_secondary_len ops r \<and>
     leaf_count = node_leaf_count l + node_leaf_count r \<and>
     height = max (node_height l) (node_height r) + 1 \<and>
     node_height l \<le> node_height r + 1 \<and> node_height r \<le> node_height l + 1"

definition root_ok :: "'l leaf_ops \<Rightarrow> ('l \<Rightarrow> bool) \<Rightarrow> 'l PersistentSequence \<Rightarrow> bool" where
  "root_ok ops ok root = (case root of None \<Rightarrow> True | Some node \<Rightarrow> tree_ok ops ok node)"

lemma root_ok_simps [simp]: "root_ok ops ok None" "root_ok ops ok (Some node) = tree_ok ops ok node"
  by (simp_all add: root_ok_def)

lemma tree_ok_leaves: "tree_ok ops ok node \<Longrightarrow> list_all ok (visit_each_leaf node)"
  by (induction node) auto

lemma node_height_pos: "tree_ok ops ok node \<Longrightarrow> 0 < node_height node"
  by (cases node) auto

lemma node_height_make_branch [simp]:
  "node_height (make_branch ops l r) = max (node_height l) (node_height r) + 1"
  by (simp add: make_branch_def)

lemma tree_ok_make_branch:
  "tree_ok ops ok (make_branch ops l r) \<longleftrightarrow>
     tree_ok ops ok l \<and> tree_ok ops ok r \<and>
     node_height l \<le> node_height r + 1 \<and> node_height r \<le> node_height l + 1"
  by (simp add: make_branch_def)

text \<open>A rotation repairs a difference of two, and the height grows by at most one over the taller side.\<close>

lemma balance_nodes_left_heavy:
  assumes "tree_ok ops ok l" "tree_ok ops ok r" "node_height l = node_height r + 2"
  shows "tree_ok ops ok (balance_nodes ops l r) \<and>
    node_height (balance_nodes ops l r) \<in> {node_height l, node_height l + 1}"
proof (cases l)
  case (Leaf leaf)
  then show ?thesis using assms by simp
next
  case (Branch a b n m c h)
  show ?thesis
  proof (cases "node_height b \<le> node_height a")
    case True
    then show ?thesis using assms by (simp add: Branch balance_nodes_def tree_ok_make_branch max_def)
  next
    case False
    have "0 < node_height a" using assms(1) by (auto simp: Branch dest: node_height_pos)
    then obtain b1 b2 x y z w where b: "b = Branch b1 b2 x y z w" using False by (cases b) simp_all
    then show ?thesis
      using False assms by (simp add: Branch balance_nodes_def tree_ok_make_branch max_def split: if_splits)
  qed
qed

lemma balance_nodes_right_heavy:
  assumes "tree_ok ops ok l" "tree_ok ops ok r" "node_height r = node_height l + 2"
  shows "tree_ok ops ok (balance_nodes ops l r) \<and>
    node_height (balance_nodes ops l r) \<in> {node_height r, node_height r + 1}"
proof (cases r)
  case (Leaf leaf)
  then show ?thesis using assms by simp
next
  case (Branch a b n m c h)
  show ?thesis
  proof (cases "node_height a \<le> node_height b")
    case True
    then show ?thesis using assms by (simp add: Branch balance_nodes_def tree_ok_make_branch max_def)
  next
    case False
    have "0 < node_height b" using assms(2) by (auto simp: Branch dest: node_height_pos)
    then obtain a1 a2 x y z w where a: "a = Branch a1 a2 x y z w" using False by (cases a) simp_all
    then show ?thesis
      using False assms by (simp add: Branch balance_nodes_def tree_ok_make_branch max_def split: if_splits)
  qed
qed

lemma balance_nodes_ok:
  assumes "tree_ok ops ok l" "tree_ok ops ok r"
    and "node_height l \<le> node_height r + 2" "node_height r \<le> node_height l + 2"
  shows "tree_ok ops ok (balance_nodes ops l r) \<and>
    node_height (balance_nodes ops l r)
      \<in> {max (node_height l) (node_height r), max (node_height l) (node_height r) + 1} \<and>
    (node_height l \<le> node_height r + 1 \<and> node_height r \<le> node_height l + 1 \<longrightarrow>
       node_height (balance_nodes ops l r) = max (node_height l) (node_height r) + 1)"
proof -
  consider (l) "node_height l = node_height r + 2" | (r) "node_height r = node_height l + 2"
    | (even) "node_height l \<le> node_height r + 1" "node_height r \<le> node_height l + 1"
    using assms(3,4) by linarith
  then show ?thesis
  proof cases
    case l
    then show ?thesis using balance_nodes_left_heavy [OF assms(1,2)] by (simp add: max_def)
  next
    case r
    then show ?thesis using balance_nodes_right_heavy [OF assms(1,2)] by (simp add: max_def)
  next
    case even
    then show ?thesis using assms(1,2) by (simp add: balance_nodes_def tree_ok_make_branch)
  qed
qed

text \<open>Joining walks down the taller side and repairs on the way back.\<close>

lemma join_nodes_ok:
  assumes "tree_ok ops ok l" "tree_ok ops ok r"
  shows "tree_ok ops ok (join_nodes ops l r) \<and>
    node_height (join_nodes ops l r)
      \<in> {max (node_height l) (node_height r), max (node_height l) (node_height r) + 1}"
  using assms
proof (induction ops l r rule: join_nodes.induct)
  case (1 ops l r)
  consider (l) "node_height l > node_height r + 1" | (r) "node_height r > node_height l + 1"
    | (even) "node_height l \<le> node_height r + 1" "node_height r \<le> node_height l + 1"
    by linarith
  then show ?case
  proof cases
    case l
    then obtain a b n m c h where L: "l = Branch a b n m c h" by (cases l) simp_all
    let ?j = "join_nodes ops b r"
    have oks: "tree_ok ops ok a" "tree_ok ops ok b"
      and heights: "node_height l = max (node_height a) (node_height b) + 1"
        "node_height a \<le> node_height b + 1" "node_height b \<le> node_height a + 1"
      using "1.prems"(1) by (simp_all add: L)
    have j: "tree_ok ops ok ?j"
        "node_height ?j \<in> {max (node_height b) (node_height r), max (node_height b) (node_height r) + 1}"
      using "1.IH"(1) [OF l L oks(2) "1.prems"(2)] by simp_all
    have "max (node_height b) (node_height r) = node_height b" using heights l by linarith
    then have hj: "node_height ?j \<in> {node_height b, node_height b + 1}" using j(2) by simp
    then have "tree_ok ops ok (balance_nodes ops a ?j) \<and> node_height (balance_nodes ops a ?j)
        \<in> {max (node_height a) (node_height ?j), max (node_height a) (node_height ?j) + 1} \<and>
        (node_height a \<le> node_height ?j + 1 \<and> node_height ?j \<le> node_height a + 1 \<longrightarrow>
           node_height (balance_nodes ops a ?j) = max (node_height a) (node_height ?j) + 1)"
      using heights oks j(1) by (intro balance_nodes_ok) auto
    then show ?thesis
      using l hj heights by (subst (1 2) join_nodes.simps) (auto simp: L max_def split: if_splits)
  next
    case r
    then obtain a b n m c h where R: "r = Branch a b n m c h" by (cases r) simp_all
    let ?j = "join_nodes ops l a"
    have oks: "tree_ok ops ok a" "tree_ok ops ok b"
      and heights: "node_height r = max (node_height a) (node_height b) + 1"
        "node_height a \<le> node_height b + 1" "node_height b \<le> node_height a + 1"
      using "1.prems"(2) by (simp_all add: R)
    have j: "tree_ok ops ok ?j"
        "node_height ?j \<in> {max (node_height l) (node_height a), max (node_height l) (node_height a) + 1}"
      using "1.IH"(2) [OF _ r R "1.prems"(1) oks(1)] r by simp_all
    have "max (node_height l) (node_height a) = node_height a" using heights r by linarith
    then have hj: "node_height ?j \<in> {node_height a, node_height a + 1}" using j(2) by simp
    then have "tree_ok ops ok (balance_nodes ops ?j b) \<and> node_height (balance_nodes ops ?j b)
        \<in> {max (node_height ?j) (node_height b), max (node_height ?j) (node_height b) + 1} \<and>
        (node_height ?j \<le> node_height b + 1 \<and> node_height b \<le> node_height ?j + 1 \<longrightarrow>
           node_height (balance_nodes ops ?j b) = max (node_height ?j) (node_height b) + 1)"
      using heights oks j(1) by (intro balance_nodes_ok) auto
    then show ?thesis
      using r hj heights by (subst (1 2) join_nodes.simps) (auto simp: R max_def split: if_splits)
  next
    case even
    then show ?thesis
      using "1.prems" by (subst (1 2) join_nodes.simps) (simp add: tree_ok_make_branch)
  qed
qed

lemma concat_raw_ok: "root_ok ops ok l \<Longrightarrow> root_ok ops ok r \<Longrightarrow> root_ok ops ok (concat_raw ops l r)"
  by (auto simp: concat_raw_def join_nodes_ok [THEN conjunct1] split: option.split)

lemma pop_ok:
  "tree_ok ops ok node \<Longrightarrow> root_ok ops ok (fst (pop_first ops node)) \<and> ok (snd (pop_first ops node))"
  "tree_ok ops ok node \<Longrightarrow> root_ok ops ok (fst (pop_last ops node)) \<and> ok (snd (pop_last ops node))"
  by (induction node) (auto simp: concat_raw_ok split: prod.split)

text \<open>A balanced build: halves differ by at most one leaf, and heights are monotone in the number of leaves.\<close>

function half_height :: "nat \<Rightarrow> nat" where
  "half_height n = (if n \<le> 1 then 1 else half_height (n - n div 2) + 1)"
  by pat_completeness auto
termination by (relation "measure id") auto

declare half_height.simps [simp del]

lemma half_height_small [simp]: "n \<le> 1 \<Longrightarrow> half_height n = 1"
  by (subst half_height.simps) simp

lemma half_height_step: "1 < n \<Longrightarrow> half_height n = half_height (n - n div 2) + 1"
  by (subst half_height.simps) simp

lemma half_height_mono: "m \<le> n \<Longrightarrow> half_height m \<le> half_height n"
proof (induction n arbitrary: m rule: less_induct)
  case (less n)
  show ?case
  proof (cases "m \<le> 1")
    case True
    then show ?thesis by (cases "n \<le> 1") (simp_all add: half_height_step)
  next
    case False
    have "half_height (m - m div 2) \<le> half_height (n - n div 2)"
      using less.prems False by (intro less.IH) linarith+
    then show ?thesis using False less.prems by (simp add: half_height_step)
  qed
qed

lemma half_height_Suc: "half_height (Suc n) \<le> half_height n + 1"
proof (induction n rule: less_induct)
  case (less n)
  show ?case
  proof (cases "n \<le> 1")
    case True
    then have "n = 0 \<or> n = 1" by linarith
    then show ?thesis by (auto simp: half_height_step [of "Suc (Suc 0)"])
  next
    case False
    have "half_height (Suc n - Suc n div 2) \<le> half_height (Suc (n - n div 2))"
      by (rule half_height_mono) linarith
    also have "\<dots> \<le> half_height (n - n div 2) + 1" using False by (intro less.IH) linarith
    finally show ?thesis using False by (simp add: half_height_step)
  qed
qed

lemma build_balanced_nodes_height:
  "build_balanced_nodes ops leaves = Some node \<Longrightarrow> node_height node = half_height (length leaves)"
proof (induction leaves arbitrary: node rule: halving_induct)
  case (Halves xs)
  let ?m = "length xs div 2"
  from Halves obtain l r where halves: "build_balanced_nodes ops (take ?m xs) = Some l"
      "build_balanced_nodes ops (drop ?m xs) = Some r" "node = make_branch ops l r"
    by (auto simp: build_balanced_nodes_halves split: option.splits)
  have "min (length xs) ?m = ?m" by simp
  then have "node_height l = half_height ?m" "node_height r = half_height (length xs - ?m)"
    using Halves.IH halves by (fastforce simp: min_def)+
  moreover have "half_height ?m \<le> half_height (length xs - ?m)"
    by (rule half_height_mono) linarith
  moreover have "half_height (length xs) = half_height (length xs - ?m) + 1"
    using Halves.hyps by (simp add: half_height_step)
  ultimately show ?case using halves(3) by (simp add: max_def)
qed auto

lemma build_balanced_nodes_ok:
  "list_all ok leaves \<Longrightarrow> root_ok ops ok (build_balanced_nodes ops leaves)"
proof (induction leaves rule: halving_induct)
  case (Halves xs)
  let ?m = "length xs div 2"
  have "take ?m xs \<noteq> []" "drop ?m xs \<noteq> []" using Halves.hyps by auto
  then obtain l r where halves: "build_balanced_nodes ops (take ?m xs) = Some l"
      "build_balanced_nodes ops (drop ?m xs) = Some r"
    using build_balanced_nodes_Some by metis
  have ok: "tree_ok ops ok l" "tree_ok ops ok r"
    using Halves halves by (auto simp: list_all_iff dest: in_set_takeD in_set_dropD)
  have "length (take ?m xs) = ?m" by simp
  then have heights: "node_height l = half_height ?m" "node_height r = half_height (length xs - ?m)"
    using halves [THEN build_balanced_nodes_height] by simp_all
  have "half_height ?m \<le> half_height (length xs - ?m)" "half_height (length xs - ?m) \<le> half_height (Suc ?m)"
    by (rule half_height_mono, linarith)+
  then have "node_height l \<le> node_height r + 1" "node_height r \<le> node_height l + 1"
    using half_height_Suc [of ?m] heights by linarith+
  then show ?case
    using ok halves Halves.hyps by (simp add: build_balanced_nodes_halves tree_ok_make_branch)
qed simp_all

text \<open>A balanced tree is shallow: its leaves are at least exponential in half its height.\<close>

lemma tree_ok_leaf_count: "tree_ok ops ok node \<Longrightarrow> node_leaf_count node = length (visit_each_leaf node)"
  by (induction node) auto

lemma tree_ok_shallow: "tree_ok ops ok node \<Longrightarrow> 2 ^ (node_height node div 2) \<le> length (visit_each_leaf node)"
proof (induction node)
  case (Branch l r n m c h)
  let ?a = "node_height l div 2" and ?b = "node_height r div 2"
  have IH: "2 ^ ?a \<le> length (visit_each_leaf l)" "2 ^ ?b \<le> length (visit_each_leaf r)"
    using Branch by simp_all
  have h: "h = max (node_height l) (node_height r) + 1"
      "node_height l \<le> node_height r + 1" "node_height r \<le> node_height l + 1"
    using Branch.prems by simp_all
  have "h div 2 \<le> Suc (min ?a ?b)" using h by linarith
  then have "(2::nat) ^ (h div 2) \<le> 2 ^ Suc (min ?a ?b)" by (rule power_increasing) simp
  also have "\<dots> \<le> 2 ^ ?a + 2 ^ ?b"
    using power_increasing [of "min ?a ?b" ?a "2::nat"] power_increasing [of "min ?a ?b" ?b "2::nat"]
    by (simp add: min_def split: if_splits)
  finally show ?case using IH by simp
qed simp

section \<open>The contract of a leaf\<close>

text \<open>
  What a leaf holds is a list, \<open>content\<close>. A leaf may be cut before an element that \<open>starts\<close> a unit; for a
  text these are the bytes that are not continuation bytes, for the other leaves all elements.
\<close>

definition flat :: "('l \<Rightarrow> 'a list) \<Rightarrow> 'l PersistentSequence \<Rightarrow> 'a list" where
  "flat content root = concat (map content (for_each_leaf root))"

definition can_cut :: "('a \<Rightarrow> bool) \<Rightarrow> 'a list \<Rightarrow> nat \<Rightarrow> bool" where
  "can_cut starts xs p \<longleftrightarrow> p = 0 \<or> length xs \<le> p \<or> starts (xs ! p)"

lemma flat_simps [simp]:
  "flat content None = []"
  "flat content (Some (Leaf leaf)) = content leaf"
  "flat content (Some (Branch l r len secondary_len leaf_count height)) =
     flat content (Some l) @ flat content (Some r)"
  "flat content (Some (make_branch ops l r)) = flat content (Some l) @ flat content (Some r)"
  "flat content (concat_raw ops a b) = flat content a @ flat content b"
  "flat content (build_balanced_nodes ops leaves) = concat (map content leaves)"
  by (simp_all only: flat_def leaves_of visit_each_leaf.simps map_append concat_append list.map concat.simps
      append_Nil2)

lemma flat_pop_first: "content (snd (pop_first ops node)) @ flat content (fst (pop_first ops node)) = flat content (Some node)"
  using pop_first_leaves [of ops node] by (simp add: flat_def flip: pop_first_leaves [of ops node])

lemma flat_pop_last: "flat content (fst (pop_last ops node)) @ content (snd (pop_last ops node)) = flat content (Some node)"
  by (simp add: flat_def flip: pop_last_leaves [of ops node])

lemma can_cut_append:
  "p < length xs \<Longrightarrow> can_cut starts (xs @ ys) p = (p = 0 \<or> starts (xs ! p))"
  "length xs < p \<Longrightarrow> can_cut starts (xs @ ys) p = can_cut starts ys (p - length xs)"
  by (auto simp: can_cut_def nth_append)

locale sequence_leaf =
  fixes ops :: "'l leaf_ops"
    and content :: "'l \<Rightarrow> 'a list"
    and ok :: "'l \<Rightarrow> bool"
    and starts :: "'a \<Rightarrow> bool"
  assumes leaf_len: "ok leaf \<Longrightarrow> leaf_len ops leaf = length (content leaf)"
    and leaf_starts: "ok leaf \<Longrightarrow> content leaf \<noteq> [] \<and> starts (hd (content leaf))"
    and leaf_split_at: "ok leaf \<Longrightarrow> 0 < p \<Longrightarrow> p < length (content leaf) \<Longrightarrow> starts (content leaf ! p) \<Longrightarrow>
      \<exists>a b. leaf_split_at ops leaf p = (Some a, Some b) \<and> ok a \<and> ok b \<and>
        content a = take p (content leaf) \<and> content b = drop p (content leaf)"
    and leaf_rechunk_pair: "ok l \<Longrightarrow> ok r \<Longrightarrow>
      list_all ok (leaf_rechunk_pair ops l r) \<and>
      concat (map content (leaf_rechunk_pair ops l r)) = content l @ content r"
begin

lemma node_len_flat: "tree_ok ops ok node \<Longrightarrow> node_len ops node = length (flat content (Some node))"
  by (induction node) (auto simp: leaf_len)

lemma seq_len_flat: "root_ok ops ok root \<Longrightarrow> seq_len ops root = length (flat content root)"
  by (auto simp: seq_len_def node_len_flat split: option.split)

lemma flat_starts: "tree_ok ops ok node \<Longrightarrow> flat content (Some node) \<noteq> [] \<and> starts (hd (flat content (Some node)))"
  by (induction node) (auto simp: leaf_starts)

lemma split_some_flat:
  assumes "tree_ok ops ok node" "can_cut starts (flat content (Some node)) p"
  shows "root_ok ops ok (fst (split_some ops node p)) \<and> root_ok ops ok (snd (split_some ops node p)) \<and>
    flat content (fst (split_some ops node p)) = take p (flat content (Some node)) \<and>
    flat content (snd (split_some ops node p)) = drop p (flat content (Some node))"
  using assms
proof (induction node arbitrary: p)
  case (Leaf leaf)
  show ?case
  proof (cases "p = 0 \<or> length (content leaf) \<le> p")
    case True
    then show ?thesis using Leaf by (auto simp: leaf_len)
  next
    case False
    then obtain a b where "leaf_split_at ops leaf p = (Some a, Some b)" "ok a" "ok b"
        "content a = take p (content leaf)" "content b = drop p (content leaf)"
      using leaf_split_at [of leaf p] Leaf by (auto simp: can_cut_def)
    then show ?thesis using False Leaf by (simp add: leaf_len)
  qed
next
  case (Branch l r len secondary_len leaf_count height)
  note ok = Branch.prems(1)
  let ?L = "flat content (Some l)" and ?R = "flat content (Some r)"
  have lens: "node_len ops l = length ?L" "len = length ?L + length ?R"
    using ok by (simp_all add: node_len_flat)
  consider (none) "p = 0" | (all) "len \<le> p" "p \<noteq> 0" | (middle) "p = length ?L" "p \<noteq> 0" "p < len"
    | (in_left) "0 < p" "p < length ?L" | (in_right) "length ?L < p" "p < len"
    using lens by linarith
  then show ?case
  proof cases
    case in_left
    then have "can_cut starts ?L p" using Branch.prems(2) by (simp add: can_cut_append) (simp add: can_cut_def)
    then show ?thesis
      using Branch.IH(1) [of p] in_left ok lens by (auto simp: concat_raw_ok split: prod.splits)
  next
    case in_right
    then have "can_cut starts ?R (p - length ?L)" using Branch.prems(2) by (simp add: can_cut_append)
    then show ?thesis
      using Branch.IH(2) [of "p - length ?L"] in_right ok lens by (auto simp: concat_raw_ok split: prod.splits)
  next
    case none
    then show ?thesis using ok by simp
  next
    case all
    then show ?thesis using ok lens by simp
  next
    case middle
    then show ?thesis using ok lens(1) by simp
  qed
qed

lemma split_node_flat:
  assumes "root_ok ops ok root" "can_cut starts (flat content root) p"
  shows "root_ok ops ok (fst (split_node ops root p)) \<and> root_ok ops ok (snd (split_node ops root p)) \<and>
    flat content (fst (split_node ops root p)) = take p (flat content root) \<and>
    flat content (snd (split_node ops root p)) = drop p (flat content root)"
  using assms split_some_flat by (auto simp: split_node_def split: option.split)

lemma concat_normalized_flat:
  assumes "root_ok ops ok a" "root_ok ops ok b"
  shows "root_ok ops ok (concat_normalized ops a b) \<and>
    flat content (concat_normalized ops a b) = flat content a @ flat content b"
proof (cases a; cases b)
  fix l r assume a: "a = Some l" and b: "b = Some r"
  obtain left_rest left_leaf where L: "pop_last ops l = (left_rest, left_leaf)" by fastforce
  obtain right_rest right_leaf where R: "pop_first ops r = (right_rest, right_leaf)" by fastforce
  have "root_ok ops ok left_rest" "ok left_leaf" "root_ok ops ok right_rest" "ok right_leaf"
    using pop_ok(2) [of ops ok l] pop_ok(1) [of ops ok r] assms by (simp_all add: a b L R)
  then show ?thesis
    using leaf_rechunk_pair [of left_leaf right_leaf] flat_pop_last [of content ops l] flat_pop_first [of content ops r]
    by (simp add: concat_normalized_def a b L R concat_raw_ok build_balanced_nodes_ok)
qed (use assms in \<open>auto simp: concat_normalized_def\<close>)

lemma from_leaves_flat:
  "list_all ok leaves \<Longrightarrow>
     root_ok ops ok (from_leaves ops leaves) \<and> flat content (from_leaves ops leaves) = concat (map content leaves)"
  by (simp add: from_leaves_def build_balanced_nodes_ok)

lemma seq_replace_range_flat:
  assumes "root_ok ops ok root" "root_ok ops ok replacement" "a \<le> b" "b \<le> length (flat content root)"
    and "can_cut starts (flat content root) a" "can_cut starts (flat content root) b"
  shows "root_ok ops ok (seq_replace_range ops root a b replacement) \<and>
    flat content (seq_replace_range ops root a b replacement) =
      take a (flat content root) @ flat content replacement @ drop b (flat content root)"
proof -
  obtain l tail where split: "split_node ops root a = (l, tail)" by fastforce
  have ok: "root_ok ops ok l" "root_ok ops ok tail" "flat content l = take a (flat content root)"
      "flat content tail = drop a (flat content root)"
    using split_node_flat [OF assms(1,5)] by (simp_all add: split)
  have "can_cut starts (flat content tail) (b - a)"
    using assms(3,4,6) by (auto simp: ok(4) can_cut_def)
  then have "root_ok ops ok (snd (split_node ops tail (b - a)))"
      "flat content (snd (split_node ops tail (b - a))) = drop b (flat content root)"
    using split_node_flat [OF ok(2)] assms(3) by (simp_all add: ok(4))
  then show ?thesis
    using assms ok concat_normalized_flat
    by (simp add: seq_replace_range_def seq_len_flat [OF assms(1)] split split_beta max_absorb1 min_absorb1)
qed

lemma locate_node_flat:
  assumes "tree_ok ops ok node" "p < length (flat content (Some node))"
  shows "\<exists>leaf offset. locate_node ops node p = Some (leaf, offset) \<and> ok leaf \<and>
    offset < length (content leaf) \<and> content leaf ! offset = flat content (Some node) ! p"
  using assms
proof (induction node arbitrary: p)
  case (Branch l r len secondary_len leaf_count height)
  then show ?case by (cases "p < node_len ops l") (auto simp: node_len_flat nth_append)
qed (auto simp: leaf_len)

lemma locate_flat:
  assumes "root_ok ops ok root"
  shows "locate ops root p = None \<longleftrightarrow> length (flat content root) \<le> p"
    and "locate ops root p = Some (leaf, offset) \<Longrightarrow>
      ok leaf \<and> offset < length (content leaf) \<and> content leaf ! offset = flat content root ! p"
proof -
  have "length (flat content root) \<le> p \<or>
      (\<exists>leaf offset. locate ops root p = Some (leaf, offset) \<and> ok leaf \<and>
         offset < length (content leaf) \<and> content leaf ! offset = flat content root ! p)"
    using assms locate_node_flat by (cases root) (auto simp: locate_def seq_len_flat not_le)
  then show "locate ops root p = None \<longleftrightarrow> length (flat content root) \<le> p"
    and "locate ops root p = Some (leaf, offset) \<Longrightarrow>
      ok leaf \<and> offset < length (content leaf) \<and> content leaf ! offset = flat content root ! p"
    using seq_len_flat [OF assms] by (auto simp: locate_def)
qed

text \<open>The visits of a range are its pieces, in order, cut where the range may be cut.\<close>

lemma visit_node_range_flat:
  assumes "tree_ok ops ok node"
  shows "concat (map (\<lambda>(leaf, a, b). take (b - a) (drop a (content leaf))) (visit_node_range ops node n s e)) =
    take ((e - n) - (s - n)) (drop (s - n) (flat content (Some node)))"
  using assms
proof (induction node arbitrary: n)
  case (Leaf leaf)
  then show ?case by (auto simp: leaf_len Let_def min_def)
next
  case (Branch l r len secondary_len leaf_count height)
  let ?L = "flat content (Some l)" and ?R = "flat content (Some r)"
  have lens: "node_len ops l = length ?L" "len = length ?L + length ?R"
    using Branch.prems by (simp_all add: node_len_flat)
  have sum: "e - (n + (s - n) + (length ?L - (s - n))) = e - (n + length ?L + (s - (n + length ?L)))"
    by linarith
  show ?case
  proof (cases "s \<ge> n + len \<or> e \<le> n")
    case True
    then show ?thesis using lens by auto
  next
    case False
    have "concat (map (\<lambda>(leaf, a, b). take (b - a) (drop a (content leaf))) (visit_node_range ops l n s e)) =
        take ((e - n) - (s - n)) (drop (s - n) ?L)"
      "concat (map (\<lambda>(leaf, a, b). take (b - a) (drop a (content leaf)))
         (visit_node_range ops r (n + length ?L) s e)) =
        take ((e - (n + length ?L)) - (s - (n + length ?L))) (drop (s - (n + length ?L)) ?R)"
      using Branch.IH Branch.prems by simp_all
    with False lens show ?thesis by (simp add: sum)
  qed
qed

lemma visit_node_range_bounds:
  assumes "tree_ok ops ok node" "(leaf, a, b) \<in> set (visit_node_range ops node n s e)"
    and "s \<le> n \<or> can_cut starts (flat content (Some node)) (s - n)"
    and "e \<le> n \<or> can_cut starts (flat content (Some node)) (e - n)"
  shows "ok leaf \<and> a < b \<and> b \<le> length (content leaf) \<and>
    can_cut starts (content leaf) a \<and> can_cut starts (content leaf) b"
  using assms
proof (induction node arbitrary: n)
  case (Leaf leaf)
  then show ?case
    by (auto simp: leaf_len Let_def min_def can_cut_def split: if_splits)
next
  case (Branch l r len secondary_len leaf_count height)
  let ?L = "flat content (Some l)" and ?R = "flat content (Some r)"
  have cut_left: "q \<le> n \<or> can_cut starts ?L (q - n)" if "q \<le> n \<or> can_cut starts (?L @ ?R) (q - n)" for q
    using that by (cases "q - n < length ?L") (auto simp: can_cut_append, auto simp: can_cut_def)
  have cut_right: "q \<le> n + length ?L \<or> can_cut starts ?R (q - (n + length ?L))"
    if "q \<le> n \<or> can_cut starts (?L @ ?R) (q - n)" for q
    using that by (cases "length ?L < q - n") (auto simp: can_cut_append)
  have "(leaf, a, b) \<in> set (visit_node_range ops l n s e) \<or>
      (leaf, a, b) \<in> set (visit_node_range ops r (n + length ?L) s e)"
    using Branch.prems(1,2) by (auto simp: node_len_flat split: if_splits)
  then show ?case
    using Branch.IH(1) [of n] Branch.IH(2) [of "n + length ?L"] Branch.prems(1,3,4)
      cut_left [of s] cut_left [of e] cut_right [of s] cut_right [of e]
    by (simp add: add.commute) blast
qed

lemma visit_range_flat:
  assumes "root_ok ops ok root" "a \<le> b" "b \<le> length (flat content root)"
  shows "concat (map (\<lambda>(leaf, p, q). take (q - p) (drop p (content leaf))) (visit_range ops root a b)) =
    take (b - a) (drop a (flat content root))"
proof (cases root)
  case (Some node)
  then show ?thesis
    using assms visit_node_range_flat [of node 0 a b] seq_len_flat [OF assms(1)]
    by (simp add: visit_range_def max_absorb1 min_absorb1)
qed (simp add: visit_range_def)

lemma visit_range_bounds:
  assumes "root_ok ops ok root" "a \<le> b" "b \<le> length (flat content root)"
    and "can_cut starts (flat content root) a" "can_cut starts (flat content root) b"
    and "(leaf, p, q) \<in> set (visit_range ops root a b)"
  shows "ok leaf \<and> p < q \<and> q \<le> length (content leaf) \<and>
    can_cut starts (content leaf) p \<and> can_cut starts (content leaf) q"
proof (cases root)
  case (Some node)
  then show ?thesis
    using assms visit_node_range_bounds [of node leaf p q 0 a b] seq_len_flat [OF assms(1)]
    by (simp add: visit_range_def max_absorb1 min_absorb1)
qed (use assms in \<open>simp add: visit_range_def\<close>)

end

text \<open>
  Leaves that also count marked elements, as a text counts its line breaks. The counts are exact on leaves
  of \<open>plain\<close> elements.
\<close>

locale counted_leaf = sequence_leaf ops content ok starts
  for ops :: "'l leaf_ops" and content :: "'l \<Rightarrow> 'a list" and ok :: "'l \<Rightarrow> bool" and starts :: "'a \<Rightarrow> bool" +
  fixes mark :: "'a \<Rightarrow> bool" and plain :: "'a \<Rightarrow> bool"
  assumes leaf_secondary_len: "ok leaf \<Longrightarrow> list_all plain (content leaf) \<Longrightarrow>
      leaf_secondary_len ops leaf = length (filter mark (content leaf))"
    and leaf_secondary_count_before: "ok leaf \<Longrightarrow> list_all plain (content leaf) \<Longrightarrow> p \<le> length (content leaf) \<Longrightarrow>
      leaf_secondary_count_before ops leaf p = length (filter mark (take p (content leaf)))"
    and leaf_secondary_position: "ok leaf \<Longrightarrow> list_all plain (content leaf) \<Longrightarrow>
      ordinal < length (filter mark (content leaf)) \<Longrightarrow>
      \<exists>p. leaf_secondary_position ops leaf ordinal = Some p \<and> p < length (content leaf) \<and>
        mark (content leaf ! p) \<and> length (filter mark (take p (content leaf))) = ordinal"
begin

lemma node_secondary_len_flat:
  "tree_ok ops ok node \<Longrightarrow> list_all plain (flat content (Some node)) \<Longrightarrow>
     node_secondary_len ops node = length (filter mark (flat content (Some node)))"
  by (induction node) (auto simp: leaf_secondary_len)

lemma secondary_count_before_node_flat:
  "tree_ok ops ok node \<Longrightarrow> list_all plain (flat content (Some node)) \<Longrightarrow> p \<le> length (flat content (Some node)) \<Longrightarrow>
     secondary_count_before_node ops node p = length (filter mark (take p (flat content (Some node))))"
proof (induction node arbitrary: p)
  case (Branch l r len secondary_len leaf_count height)
  then show ?case
    by (cases "p \<le> length (flat content (Some l))") (auto simp: node_len_flat node_secondary_len_flat)
qed (simp add: leaf_len leaf_secondary_count_before min_absorb1)

lemma nth_secondary_in_node_flat:
  assumes "tree_ok ops ok node" "list_all plain (flat content (Some node))"
    and "ordinal < length (filter mark (flat content (Some node)))"
  shows "\<exists>p. nth_secondary_in_node ops node ordinal n = Some (n + p) \<and> p < length (flat content (Some node)) \<and>
    mark (flat content (Some node) ! p) \<and> length (filter mark (take p (flat content (Some node)))) = ordinal"
  using assms
proof (induction node arbitrary: ordinal n)
  case (Leaf leaf)
  then show ?case using leaf_secondary_position [of leaf ordinal] by auto
next
  case (Branch l r len secondary_len leaf_count height)
  let ?L = "flat content (Some l)" and ?R = "flat content (Some r)"
  have marks: "node_secondary_len ops l = length (filter mark ?L)" and len: "node_len ops l = length ?L"
    using Branch.prems by (simp_all add: node_secondary_len_flat node_len_flat)
  show ?case
  proof (cases "ordinal < length (filter mark ?L)")
    case True
    then obtain p where "nth_secondary_in_node ops l ordinal n = Some (n + p)" "p < length ?L" "mark (?L ! p)"
        "length (filter mark (take p ?L)) = ordinal"
      using Branch.IH(1) [of ordinal n] Branch.prems by auto
    then show ?thesis using True marks by (intro exI [of _ p]) (simp add: nth_append)
  next
    case False
    then have "ordinal - length (filter mark ?L) < length (filter mark ?R)" using Branch.prems(3) by simp
    then obtain p where "nth_secondary_in_node ops r (ordinal - length (filter mark ?L)) (n + length ?L) =
        Some (n + length ?L + p)" "p < length ?R" "mark (?R ! p)"
        "length (filter mark (take p ?R)) = ordinal - length (filter mark ?L)"
      using Branch.IH(2) [of "ordinal - length (filter mark ?L)" "n + length ?L"] Branch.prems by auto
    then show ?thesis
      using False marks len by (intro exI [of _ "length ?L + p"]) (simp add: nth_append)
  qed
qed

lemma secondary_count_before_flat:
  assumes "root_ok ops ok root" "list_all plain (flat content root)" "p \<le> length (flat content root)"
  shows "secondary_count_before ops root p = length (filter mark (take p (flat content root)))"
  using assms secondary_count_before_node_flat
  by (auto simp: secondary_count_before_def node_len_flat min_absorb1 split: option.split)

lemma seq_secondary_len_flat:
  assumes "root_ok ops ok root" "list_all plain (flat content root)"
  shows "seq_secondary_len ops root = length (filter mark (flat content root))"
  using assms node_secondary_len_flat by (auto simp: seq_secondary_len_def split: option.split)

lemma nth_secondary_flat:
  assumes "root_ok ops ok root" "list_all plain (flat content root)"
  shows "nth_secondary ops root ordinal = None \<longleftrightarrow> length (filter mark (flat content root)) \<le> ordinal"
    and "nth_secondary ops root ordinal = Some p \<Longrightarrow>
      p < length (flat content root) \<and> mark (flat content root ! p) \<and>
      length (filter mark (take p (flat content root))) = ordinal"
proof -
  have "length (filter mark (flat content root)) \<le> ordinal \<and> nth_secondary ops root ordinal = None \<or>
      ordinal < length (filter mark (flat content root)) \<and>
      (\<exists>p. nth_secondary ops root ordinal = Some p \<and> p < length (flat content root) \<and>
         mark (flat content root ! p) \<and> length (filter mark (take p (flat content root))) = ordinal)"
  proof (cases root)
    case (Some node)
    then show ?thesis
      using nth_secondary_in_node_flat [of node ordinal 0] node_secondary_len_flat [of node] assms
      by (auto simp: nth_secondary_def)
  qed (simp add: nth_secondary_def)
  then show "nth_secondary ops root ordinal = None \<longleftrightarrow> length (filter mark (flat content root)) \<le> ordinal"
    and "nth_secondary ops root ordinal = Some p \<Longrightarrow>
      p < length (flat content root) \<and> mark (flat content root ! p) \<and>
      length (filter mark (take p (flat content root))) = ordinal"
    by auto
qed

end

end
