(* ===== verification/Chunked_Values.thy ===== *)
theory Chunked_Values
  imports Seq_Tree "HOL-Library.Sublist"
begin

text \<open>
  The other two leaves of the balanced sequence (\<^verbatim>\<open>src/ui/sql_editor/chunked_text.rs\<close>): \<^verbatim>\<open>ValueChunk\<close>, a range of
  a shared vector, and \<^verbatim>\<open>ValueRun\<close>, a repeated value, with which the editor keeps its style runs. A leaf of
  either kind may be cut anywhere. As for texts, whether two chunks lie in one vector is the argument
  \<open>same\<close>.
\<close>

definition VALUE_CHUNK_TARGET_LEN :: nat where
  "VALUE_CHUNK_TARGET_LEN = 4 * 1024"

definition VALUE_CHUNK_RECHUNK_MIN_LEN :: nat where
  "VALUE_CHUNK_RECHUNK_MIN_LEN = 2 * 1024"

section \<open>Chunks of values\<close>

record 'a ValueChunk =
  value_storage :: "'a list"
  value_start :: nat
  value_end :: nat

definition value_from_storage :: "'a list \<Rightarrow> nat \<Rightarrow> nat \<Rightarrow> 'a ValueChunk" where
  "value_from_storage s start_pos end_pos =
     (let start_pos = min start_pos (length s);
          end_pos = max (min end_pos (length s)) start_pos
      in \<lparr>value_storage = s, value_start = start_pos, value_end = end_pos\<rparr>)"

definition value_as_slice :: "'a ValueChunk \<Rightarrow> 'a list" where
  "value_as_slice chunk =
     (if value_start chunk \<le> value_end chunk \<and> value_end chunk \<le> length (value_storage chunk)
      then take (value_end chunk - value_start chunk) (drop (value_start chunk) (value_storage chunk)) else [])"

definition value_chunk_len :: "'a ValueChunk \<Rightarrow> nat" where
  "value_chunk_len chunk = value_end chunk - value_start chunk"

definition value_split_at :: "'a ValueChunk \<Rightarrow> nat \<Rightarrow> 'a ValueChunk option \<times> 'a ValueChunk option" where
  "value_split_at chunk position =
     (let position = min position (value_chunk_len chunk);
          absolute = min (value_start chunk + position) (value_end chunk)
      in (if absolute > value_start chunk
          then Some (value_from_storage (value_storage chunk) (value_start chunk) absolute) else None,
          if absolute < value_end chunk
          then Some (value_from_storage (value_storage chunk) absolute (value_end chunk)) else None))"

function value_chunks_loop :: "'a list \<Rightarrow> nat \<Rightarrow> 'a ValueChunk list" where
  "value_chunks_loop s start_pos =
     (if start_pos < length s then
        (let end_pos = min (start_pos + VALUE_CHUNK_TARGET_LEN) (length s)
         in value_from_storage s start_pos end_pos # value_chunks_loop s end_pos)
      else [])"
  by pat_completeness auto
termination
  by (relation "measure (\<lambda>(s, start_pos). length s - start_pos)") (auto simp: VALUE_CHUNK_TARGET_LEN_def)

declare value_chunks_loop.simps [simp del]

definition value_chunks :: "'a list \<Rightarrow> 'a ValueChunk list" where
  "value_chunks values = (if values = [] then [] else value_chunks_loop values 0)"

definition value_rechunk_pair ::
    "('a ValueChunk \<Rightarrow> 'a ValueChunk \<Rightarrow> bool) \<Rightarrow> 'a ValueChunk \<Rightarrow> 'a ValueChunk \<Rightarrow> 'a ValueChunk list" where
  "value_rechunk_pair same l r =
     (if same l r \<and> value_end l = value_start r
      then [value_from_storage (value_storage l) (value_start l) (value_end r)]
      else
        (let combined_len = value_chunk_len l + value_chunk_len r
         in if combined_len > VALUE_CHUNK_TARGET_LEN \<and>
              value_chunk_len l \<ge> VALUE_CHUNK_RECHUNK_MIN_LEN \<and> value_chunk_len r \<ge> VALUE_CHUNK_RECHUNK_MIN_LEN
            then [l, r]
            else if combined_len > VALUE_CHUNK_TARGET_LEN \<and>
              (value_chunk_len l \<ge> VALUE_CHUNK_TARGET_LEN \<or> value_chunk_len r \<ge> VALUE_CHUNK_TARGET_LEN)
            then [l, r]
            else value_chunks (value_as_slice l @ value_as_slice r)))"

definition value_ops :: "('a ValueChunk \<Rightarrow> 'a ValueChunk \<Rightarrow> bool) \<Rightarrow> 'a ValueChunk leaf_ops" where
  "value_ops same =
     \<lparr>leaf_len = value_chunk_len, leaf_secondary_len = (\<lambda>_. 0), leaf_secondary_count_before = (\<lambda>_ _. 0),
      leaf_secondary_position = (\<lambda>_ _. None), leaf_split_at = value_split_at,
      leaf_rechunk_pair = value_rechunk_pair same\<rparr>"

type_synonym 'a ChunkedValues = "'a ValueChunk PersistentSequence"

definition values_len :: "('a ValueChunk \<Rightarrow> 'a ValueChunk \<Rightarrow> bool) \<Rightarrow> 'a ChunkedValues \<Rightarrow> nat" where
  "values_len same t = seq_len (value_ops same) t"

definition values_get :: "('a ValueChunk \<Rightarrow> 'a ValueChunk \<Rightarrow> bool) \<Rightarrow> 'a ChunkedValues \<Rightarrow> nat \<Rightarrow> 'a option" where
  "values_get same t position =
     (case locate (value_ops same) t position of
        None \<Rightarrow> None
      | Some (chunk, offset) \<Rightarrow>
          if offset < length (value_as_slice chunk) then Some (value_as_slice chunk ! offset) else None)"

definition values_replace_range ::
    "('a ValueChunk \<Rightarrow> 'a ValueChunk \<Rightarrow> bool) \<Rightarrow> 'a ChunkedValues \<Rightarrow> nat \<Rightarrow> nat \<Rightarrow> 'a list \<Rightarrow> 'a ChunkedValues" where
  "values_replace_range same t start_pos end_pos replacement =
     seq_replace_range (value_ops same) t start_pos end_pos
       (from_leaves (value_ops same) (value_chunks replacement))"

primrec range_matches_loop :: "'a list \<Rightarrow> nat \<Rightarrow> ('a ValueChunk \<times> nat \<times> nat) list \<Rightarrow> nat option" where
  "range_matches_loop expected expected_start [] = Some expected_start"
| "range_matches_loop expected expected_start (visit # visits) =
     (case visit of (chunk, local_start, local_end) \<Rightarrow>
      if \<not> (local_start \<le> local_end \<and> local_end \<le> length (value_as_slice chunk)) then None
      else
        (let values = take (local_end - local_start) (drop local_start (value_as_slice chunk));
             expected_end = expected_start + length values
         in if expected_end \<le> length expected \<and>
              take (expected_end - expected_start) (drop expected_start expected) = values
            then range_matches_loop expected expected_end visits else None))"

definition range_matches_slice ::
    "('a ValueChunk \<Rightarrow> 'a ValueChunk \<Rightarrow> bool) \<Rightarrow> 'a ChunkedValues \<Rightarrow> nat \<Rightarrow> nat \<Rightarrow> 'a list \<Rightarrow> bool" where
  "range_matches_slice same t start_pos end_pos expected =
     (let start_pos = min start_pos (values_len same t);
          end_pos = min end_pos (values_len same t)
      in \<not> (end_pos < start_pos \<or> end_pos - start_pos \<noteq> length expected) \<and>
         range_matches_loop expected 0 (visit_range (value_ops same) t start_pos end_pos) = Some (length expected))"

fun position_where :: "('a \<Rightarrow> bool) \<Rightarrow> 'a list \<Rightarrow> nat option" where
  "position_where P [] = None"
| "position_where P (x # xs) = (if P x then Some 0 else map_option Suc (position_where P xs))"

fun first_matching_loop :: "('a \<Rightarrow> bool) \<Rightarrow> nat \<Rightarrow> ('a ValueChunk \<times> nat \<times> nat) list \<Rightarrow> nat option" where
  "first_matching_loop P absolute [] = None"
| "first_matching_loop P absolute ((chunk, local_start, local_end) # visits) =
     (if \<not> (local_start \<le> local_end \<and> local_end \<le> length (value_as_slice chunk))
      then first_matching_loop P absolute visits
      else
        (let values = take (local_end - local_start) (drop local_start (value_as_slice chunk))
         in case position_where P values of
              Some relative \<Rightarrow> Some (absolute + relative)
            | None \<Rightarrow> first_matching_loop P (absolute + length values) visits))"

definition first_matching_position ::
    "('a ValueChunk \<Rightarrow> 'a ValueChunk \<Rightarrow> bool) \<Rightarrow> 'a ChunkedValues \<Rightarrow> nat \<Rightarrow> nat \<Rightarrow> ('a \<Rightarrow> bool) \<Rightarrow> nat option" where
  "first_matching_position same t start_pos end_pos P =
     (let start_pos = min start_pos (values_len same t);
          end_pos = min end_pos (values_len same t)
      in if end_pos \<le> start_pos then None
         else first_matching_loop P start_pos (visit_range (value_ops same) t start_pos end_pos))"

section \<open>Runs\<close>

record 'a ValueRun =
  run_value :: 'a
  run_len :: nat

definition run_split_at :: "'a ValueRun \<Rightarrow> nat \<Rightarrow> 'a ValueRun option \<times> 'a ValueRun option" where
  "run_split_at run position =
     (let position = min position (run_len run);
          right_len = run_len run - position
      in (if position > 0 then Some \<lparr>run_value = run_value run, run_len = position\<rparr> else None,
          if right_len > 0 then Some \<lparr>run_value = run_value run, run_len = right_len\<rparr> else None))"

definition run_rechunk_pair :: "'a ValueRun \<Rightarrow> 'a ValueRun \<Rightarrow> 'a ValueRun list" where
  "run_rechunk_pair l r =
     (if run_value l = run_value r then [\<lparr>run_value = run_value l, run_len = run_len l + run_len r\<rparr>]
      else [l, r])"

definition run_ops :: "'a ValueRun leaf_ops" where
  "run_ops =
     \<lparr>leaf_len = run_len, leaf_secondary_len = (\<lambda>_. 0), leaf_secondary_count_before = (\<lambda>_ _. 0),
      leaf_secondary_position = (\<lambda>_ _. None), leaf_split_at = run_split_at,
      leaf_rechunk_pair = run_rechunk_pair\<rparr>"

type_synonym 'a RunValues = "'a ValueRun PersistentSequence"

text \<open>The normalized runs, built at the end of the list as the source pushes them.\<close>

definition push_run :: "'a ValueRun list \<Rightarrow> 'a \<times> nat \<Rightarrow> 'a ValueRun list" where
  "push_run normalized run =
     (case run of (v, len) \<Rightarrow>
        if len = 0 then normalized
        else if normalized \<noteq> [] \<and> run_value (last normalized) = v
        then butlast normalized @ [\<lparr>run_value = v, run_len = run_len (last normalized) + len\<rparr>]
        else normalized @ [\<lparr>run_value = v, run_len = len\<rparr>])"

definition normalized_runs :: "('a \<times> nat) list \<Rightarrow> 'a ValueRun list" where
  "normalized_runs runs = foldl push_run [] runs"

definition from_runs :: "('a \<times> nat) list \<Rightarrow> 'a RunValues" where
  "from_runs runs = from_leaves run_ops (normalized_runs runs)"

definition runs_len :: "'a RunValues \<Rightarrow> nat" where
  "runs_len t = seq_len run_ops t"

definition runs_get :: "'a RunValues \<Rightarrow> nat \<Rightarrow> 'a option" where
  "runs_get t position = map_option (\<lambda>(run, _). run_value run) (locate run_ops t position)"

definition runs_last :: "'a RunValues \<Rightarrow> 'a option" where
  "runs_last t = (if runs_len t = 0 then None else runs_get t (runs_len t - 1))"

definition replace_range_runs :: "'a RunValues \<Rightarrow> nat \<Rightarrow> nat \<Rightarrow> ('a \<times> nat) list \<Rightarrow> 'a RunValues" where
  "replace_range_runs t start_pos end_pos replacement =
     seq_replace_range run_ops t start_pos end_pos (from_runs replacement)"

section \<open>Chunks of values as leaves\<close>

locale shared_values =
  fixes same :: "'a ValueChunk \<Rightarrow> 'a ValueChunk \<Rightarrow> bool"
  assumes one_content: "same l r \<Longrightarrow> value_storage l = value_storage r"

definition value_ok :: "'a ValueChunk \<Rightarrow> bool" where
  "value_ok chunk \<longleftrightarrow> value_start chunk < value_end chunk \<and> value_end chunk \<le> length (value_storage chunk)"

lemma value_from_storage_ok:
  assumes "a < b" "b \<le> length s"
  shows "value_ok (value_from_storage s a b)" "value_as_slice (value_from_storage s a b) = take (b - a) (drop a s)"
  using assms by (simp_all add: value_ok_def value_as_slice_def value_from_storage_def Let_def max_absorb1)

lemma value_as_slice_ok:
  "value_ok chunk \<Longrightarrow>
     value_as_slice chunk = take (value_end chunk - value_start chunk) (drop (value_start chunk) (value_storage chunk))"
  by (simp add: value_ok_def value_as_slice_def)

lemma length_value_as_slice: "value_ok chunk \<Longrightarrow> length (value_as_slice chunk) = value_chunk_len chunk"
  by (auto simp: value_as_slice_ok value_ok_def value_chunk_len_def)

lemma value_chunks_loop_ok:
  "list_all value_ok (value_chunks_loop s a) \<and> concat (map value_as_slice (value_chunks_loop s a)) = drop a s"
proof (induction s a rule: value_chunks_loop.induct)
  case (1 s a)
  show ?case
  proof (cases "a < length s")
    case True
    let ?e = "min (a + VALUE_CHUNK_TARGET_LEN) (length s)"
    have "a < ?e" "?e \<le> length s" using True by (simp_all add: VALUE_CHUNK_TARGET_LEN_def)
    moreover have "take (?e - a) (drop a s) @ drop ?e s = drop a s"
      using \<open>a < ?e\<close> by (metis add.commute append_take_drop_id drop_drop le_add_diff_inverse less_imp_le)
    ultimately show ?thesis
      using True 1 [OF True refl] value_from_storage_ok [of a ?e s]
      by (subst (1 2) value_chunks_loop.simps) (simp add: Let_def)
  next
    case False
    then show ?thesis by (subst (1 2) value_chunks_loop.simps) simp
  qed
qed

lemma value_chunks_ok: "list_all value_ok (value_chunks s) \<and> concat (map value_as_slice (value_chunks s)) = s"
  using value_chunks_loop_ok [of s 0] by (simp add: value_chunks_def)

lemma value_split_at_ok:
  assumes "value_ok chunk" "0 < p" "p < length (value_as_slice chunk)"
  shows "\<exists>a b. value_split_at chunk p = (Some a, Some b) \<and> value_ok a \<and> value_ok b \<and>
    value_as_slice a = take p (value_as_slice chunk) \<and> value_as_slice b = drop p (value_as_slice chunk)"
proof -
  let ?s = "value_storage chunk" and ?a = "value_start chunk" and ?b = "value_end chunk"
  have p: "p < ?b - ?a" "?b \<le> length ?s" "?a < ?b"
    using assms by (simp_all add: length_value_as_slice value_chunk_len_def value_ok_def)
  then have "value_split_at chunk p = (Some (value_from_storage ?s ?a (?a + p)), Some (value_from_storage ?s (?a + p) ?b))"
    using assms(2) by (simp add: value_split_at_def value_chunk_len_def Let_def)
  moreover have "value_ok (value_from_storage ?s ?a (?a + p))" "value_ok (value_from_storage ?s (?a + p) ?b)"
      "value_as_slice (value_from_storage ?s ?a (?a + p)) = take p (drop ?a ?s)"
      "value_as_slice (value_from_storage ?s (?a + p) ?b) = take (?b - (?a + p)) (drop (?a + p) ?s)"
    using p assms(2) value_from_storage_ok [of ?a "?a + p" ?s] value_from_storage_ok [of "?a + p" ?b ?s] by simp_all
  ultimately show ?thesis
    using p by (simp add: value_as_slice_ok [OF assms(1)] drop_take add.commute)
qed

context shared_values
begin

lemma value_rechunk_pair_ok:
  assumes "value_ok l" "value_ok r"
  shows "list_all value_ok (value_rechunk_pair same l r) \<and>
    concat (map value_as_slice (value_rechunk_pair same l r)) = value_as_slice l @ value_as_slice r"
proof (cases "same l r \<and> value_end l = value_start r")
  case True
  have s: "value_storage r = value_storage l" using True one_content [of l r] by simp
  have len: "value_end r - value_start l = (value_end l - value_start l) + (value_end r - value_start r)"
    and rest: "drop (value_start r) (value_storage l) =
      drop (value_end l - value_start l) (drop (value_start l) (value_storage l))"
    using True assms by (simp_all add: value_ok_def)
  have "value_as_slice l @ value_as_slice r =
      take (value_end r - value_start l) (drop (value_start l) (value_storage l))"
    unfolding value_as_slice_ok [OF assms(1)] value_as_slice_ok [OF assms(2)] s len rest take_add ..
  then show ?thesis
    using True assms s value_from_storage_ok [of "value_start l" "value_end r" "value_storage l"]
    by (simp add: value_rechunk_pair_def value_ok_def)
next
  case False
  have "value_rechunk_pair same l r = [l, r] \<or>
      value_rechunk_pair same l r = value_chunks (value_as_slice l @ value_as_slice r)"
    unfolding value_rechunk_pair_def if_not_P [OF False] Let_def by metis
  then show ?thesis using assms value_chunks_ok [of "value_as_slice l @ value_as_slice r"] by auto
qed

end

sublocale shared_values \<subseteq> sequence_leaf "value_ops same" value_as_slice value_ok "\<lambda>_. True"
proof
  fix leaf :: "'a ValueChunk" assume ok: "value_ok leaf"
  show "leaf_len (value_ops same) leaf = length (value_as_slice leaf)"
    using ok by (simp add: value_ops_def length_value_as_slice)
  show "value_as_slice leaf \<noteq> [] \<and> True"
    using length_value_as_slice [OF ok] ok by (auto simp: value_ok_def value_chunk_len_def)
  fix p assume "0 < p" "p < length (value_as_slice leaf)"
  then show "\<exists>a b. leaf_split_at (value_ops same) leaf p = (Some a, Some b) \<and> value_ok a \<and> value_ok b \<and>
      value_as_slice a = take p (value_as_slice leaf) \<and> value_as_slice b = drop p (value_as_slice leaf)"
    using value_split_at_ok [OF ok] by (simp add: value_ops_def)
next
  fix l r :: "'a ValueChunk" assume "value_ok l" "value_ok r"
  then show "list_all value_ok (leaf_rechunk_pair (value_ops same) l r) \<and>
      concat (map value_as_slice (leaf_rechunk_pair (value_ops same) l r)) = value_as_slice l @ value_as_slice r"
    using value_rechunk_pair_ok by (simp add: value_ops_def)
qed

interpretation equal_values: shared_values "\<lambda>l r. value_storage l = value_storage r"
  by unfold_locales

context shared_values
begin

lemma can_cut_anywhere [simp]: "can_cut (\<lambda>_. True) xs p"
  by (simp add: can_cut_def)

lemma values_replace_range_flat:
  assumes "root_ok (value_ops same) value_ok t"
  shows "root_ok (value_ops same) value_ok (values_replace_range same t a b vs) \<and>
    flat value_as_slice (values_replace_range same t a b vs) =
      take a (flat value_as_slice t) @ vs @ drop (max a b) (flat value_as_slice t)"
proof -
  let ?xs = "flat value_as_slice t" and ?r = "from_leaves (value_ops same) (value_chunks vs)"
  let ?a = "min a (length ?xs)" and ?b = "max (min b (length ?xs)) (min a (length ?xs))"
  have r: "root_ok (value_ops same) value_ok ?r" "flat value_as_slice ?r = vs"
    using from_leaves_flat [of "value_chunks vs"] value_chunks_ok [of vs] by auto
  have same_range: "seq_replace_range (value_ops same) t a b ?r = seq_replace_range (value_ops same) t ?a ?b ?r"
    by (simp add: seq_replace_range_def seq_len_flat [OF assms] Let_def)
  have "take ?a ?xs = take a ?xs" by (cases "a \<le> length ?xs") auto
  moreover have "drop ?b ?xs = drop (max a b) ?xs" by (cases "max a b \<le> length ?xs") (auto simp: max_def min_def)
  ultimately show ?thesis
    using seq_replace_range_flat [OF assms r(1), of ?a ?b] r(2)
    by (simp add: values_replace_range_def same_range)
qed

lemma values_get_flat:
  assumes "root_ok (value_ops same) value_ok t"
  shows "values_get same t p =
    (if p < length (flat value_as_slice t) then Some (flat value_as_slice t ! p) else None)"
  using locate_flat [OF assms, of p] by (auto simp: values_get_def split: option.split prod.split)

text \<open>The two searches over a range, on the visited pieces.\<close>

lemma range_matches_loop_spec:
  assumes "\<forall>(chunk, p, q) \<in> set visits. p \<le> q \<and> q \<le> length (value_as_slice chunk)" "n \<le> length expected"
  defines "pieces \<equiv> concat (map (\<lambda>(chunk, p, q). take (q - p) (drop p (value_as_slice chunk))) visits)"
  shows "range_matches_loop expected n visits =
    (if take (length pieces) (drop n expected) = pieces then Some (n + length pieces) else None)"
  using assms(1,2) unfolding pieces_def
proof (induction visits arbitrary: n)
  case (Cons visit visits)
  obtain chunk p q where visit: "visit = (chunk, p, q)" by (cases visit)
  let ?v = "take (q - p) (drop p (value_as_slice chunk))"
  let ?rest = "concat (map (\<lambda>(chunk, p, q). take (q - p) (drop p (value_as_slice chunk))) visits)"
  have pq: "p \<le> q \<and> q \<le> length (value_as_slice chunk)" using Cons.prems(1) by (simp add: visit)
  have unfold: "range_matches_loop expected n (visit # visits) =
      (if n + length ?v \<le> length expected \<and> take (length ?v) (drop n expected) = ?v
       then range_matches_loop expected (n + length ?v) visits else None)"
    using pq by (simp add: visit Let_def del: length_take length_drop)
  have split: "take (length (?v @ ?rest)) (drop n expected) =
      take (length ?v) (drop n expected) @ take (length ?rest) (drop (n + length ?v) expected)"
    by (simp only: length_append take_add drop_drop add.commute)
  show ?case
  proof (cases "n + length ?v \<le> length expected \<and> take (length ?v) (drop n expected) = ?v")
    case True
    then show ?thesis
      using Cons.IH [of "n + length ?v"] Cons.prems(1) split unfold
      by (simp add: visit add.assoc del: take_append length_take length_drop)
  next
    case False
    have no: "\<not> take (length (?v @ ?rest)) (drop n expected) = ?v @ ?rest"
    proof
      assume eq: "take (length (?v @ ?rest)) (drop n expected) = ?v @ ?rest"
      then have "length (take (length (?v @ ?rest)) (drop n expected)) = length (?v @ ?rest)" by (rule arg_cong)
      then have "length (?v @ ?rest) \<le> length expected - n" unfolding length_take length_drop by linarith
      then have le: "n + length ?v \<le> length expected" using Cons.prems(2) by simp
      then have "length (take (length ?v) (drop n expected)) = length ?v" by simp
      then have "take (length ?v) (drop n expected) = ?v"
        using eq unfolding split by (rule append_eq_append_conv [THEN iffD1, THEN conjunct1, OF disjI1])
      then show False using False le by blast
    qed
    have pieces: "concat (map (\<lambda>(chunk, p, q). take (q - p) (drop p (value_as_slice chunk))) (visit # visits)) =
        ?v @ ?rest"
      by (simp add: visit)
    show ?thesis unfolding pieces unfold if_not_P [OF False] if_not_P [OF no] ..
  qed
qed simp

lemma range_matches_slice_flat:
  assumes "root_ok (value_ops same) value_ok t" "a \<le> b" "b \<le> length (flat value_as_slice t)"
  shows "range_matches_slice same t a b expected \<longleftrightarrow> take (b - a) (drop a (flat value_as_slice t)) = expected"
proof -
  let ?visits = "visit_range (value_ops same) t a b" and ?xs = "flat value_as_slice t"
  have bounds: "\<forall>(chunk, p, q) \<in> set ?visits. p \<le> q \<and> q \<le> length (value_as_slice chunk)"
    using visit_range_bounds [OF assms] by fastforce
  have len: "values_len same t = length ?xs" by (simp add: values_len_def seq_len_flat [OF assms(1)])
  show ?thesis
    using range_matches_loop_spec [OF bounds, of 0 expected] visit_range_flat [OF assms] assms(2,3)
    by (auto simp: range_matches_slice_def len Let_def)
qed

lemma position_where_append:
  "position_where P (xs @ ys) =
     (case position_where P xs of Some i \<Rightarrow> Some i | None \<Rightarrow> map_option (\<lambda>i. length xs + i) (position_where P ys))"
  by (cases "position_where P ys"; induction xs) (auto split: option.split)

lemma first_matching_loop_spec:
  assumes "\<forall>(chunk, p, q) \<in> set visits. p \<le> q \<and> q \<le> length (value_as_slice chunk)"
  shows "first_matching_loop P n visits = map_option (\<lambda>i. n + i)
    (position_where P (concat (map (\<lambda>(chunk, p, q). take (q - p) (drop p (value_as_slice chunk))) visits)))"
  using assms
proof (induction visits arbitrary: n)
  case (Cons visit visits)
  obtain chunk p q where visit: "visit = (chunk, p, q)" by (cases visit)
  let ?rest = "concat (map (\<lambda>(chunk, p, q). take (q - p) (drop p (value_as_slice chunk))) visits)"
  show ?case
    using Cons.IH Cons.prems
    by (cases "position_where P ?rest") (auto simp: visit Let_def position_where_append split: option.split)
qed simp

lemma first_matching_position_flat:
  assumes "root_ok (value_ops same) value_ok t" "a \<le> b" "b \<le> length (flat value_as_slice t)"
  shows "first_matching_position same t a b P =
    map_option (\<lambda>i. a + i) (position_where P (take (b - a) (drop a (flat value_as_slice t))))"
proof -
  have bounds: "\<forall>(chunk, p, q) \<in> set (visit_range (value_ops same) t a b). p \<le> q \<and> q \<le> length (value_as_slice chunk)"
    using visit_range_bounds [OF assms] by fastforce
  have len: "values_len same t = length (flat value_as_slice t)"
    by (simp add: values_len_def seq_len_flat [OF assms(1)])
  show ?thesis
    using first_matching_loop_spec [OF bounds, of P a] visit_range_flat [OF assms] assms(2,3)
    by (auto simp: first_matching_position_def len Let_def)
qed

end

section \<open>Runs as leaves\<close>

definition run_content :: "'a ValueRun \<Rightarrow> 'a list" where
  "run_content run = replicate (run_len run) (run_value run)"

definition run_ok :: "'a ValueRun \<Rightarrow> bool" where
  "run_ok run \<longleftrightarrow> 0 < run_len run"

interpretation runs: sequence_leaf run_ops run_content run_ok "\<lambda>_. True"
  by unfold_locales
    (auto simp: run_ops_def run_content_def run_ok_def run_split_at_def run_rechunk_pair_def Let_def
      replicate_add take_replicate drop_replicate min_def)

lemma last_run_content:
  "rs \<noteq> [] \<Longrightarrow> concat (map run_content rs) =
     concat (map run_content (butlast rs)) @ replicate (run_len (last rs)) (run_value (last rs))"
  by (induction rs) (auto simp: run_content_def)

lemma push_run_spec:
  assumes "list_all run_ok rs" "distinct_adj (map run_value rs)"
  shows "list_all run_ok (push_run rs (v, n)) \<and> distinct_adj (map run_value (push_run rs (v, n))) \<and>
    concat (map run_content (push_run rs (v, n))) = concat (map run_content rs) @ replicate n v"
proof -
  consider "n = 0" | (merge) "n \<noteq> 0" "rs \<noteq> []" "run_value (last rs) = v" | (push) "n \<noteq> 0" "rs = [] \<or> run_value (last rs) \<noteq> v"
    by blast
  then show ?thesis
  proof cases
    case merge
    then obtain init r where rs: "rs = init @ [r]" by (metis append_butlast_last_id)
    then show ?thesis
      using merge assms
      by (simp add: push_run_def run_ok_def run_content_def replicate_add)
  next
    case push
    then show ?thesis
      using assms
      by (auto simp: push_run_def run_ok_def run_content_def distinct_adj_append_iff last_map)
  qed (use assms in \<open>simp add: push_run_def\<close>)
qed

definition run_list :: "('a \<times> nat) list \<Rightarrow> 'a list" where
  "run_list runs = concat (map (\<lambda>(v, n). replicate n v) runs)"

lemma normalized_runs_spec:
  "list_all run_ok (normalized_runs runs) \<and> distinct_adj (map run_value (normalized_runs runs)) \<and>
   concat (map run_content (normalized_runs runs)) = run_list runs"
proof -
  have "list_all run_ok rs \<Longrightarrow> distinct_adj (map run_value rs) \<Longrightarrow>
      list_all run_ok (foldl push_run rs runs) \<and> distinct_adj (map run_value (foldl push_run rs runs)) \<and>
      concat (map run_content (foldl push_run rs runs)) = concat (map run_content rs) @ run_list runs" for rs
  proof (induction runs arbitrary: rs)
    case (Cons run runs)
    obtain v n where run: "run = (v, n)" by (cases run)
    show ?case
      using push_run_spec [OF Cons.prems, of v n] Cons.IH [of "push_run rs (v, n)"] by (simp add: run run_list_def)
  qed (simp add: run_list_def)
  from this [of "[]"] show ?thesis by (simp add: normalized_runs_def)
qed

lemma run_ops_fields [simp]:
  "leaf_len run_ops = run_len" "leaf_split_at run_ops = run_split_at" "leaf_rechunk_pair run_ops = run_rechunk_pair"
  by (simp_all add: run_ops_def)

text \<open>Canonical runs: no two neighbours carry the same value.\<close>

definition canonical :: "'a RunValues \<Rightarrow> bool" where
  "canonical t = distinct_adj (map run_value (for_each_leaf t))"

lemma split_some_values:
  "prefix (map run_value (for_each_leaf (fst (split_some run_ops node p)))) (map run_value (visit_each_leaf node)) \<and>
   suffix (map run_value (for_each_leaf (snd (split_some run_ops node p)))) (map run_value (visit_each_leaf node))"
proof (induction node arbitrary: p)
  case (Leaf run)
  then show ?case by (auto simp: run_split_at_def Let_def)
next
  case (Branch l r len secondary_len leaf_count height)
  obtain a b where ab: "split_some run_ops l p = (a, b)" by fastforce
  obtain c d where cd: "split_some run_ops r (p - node_len run_ops l) = (c, d)" by fastforce
  show ?case
    using Branch.IH(1) [of p] Branch.IH(2) [of "p - node_len run_ops l"]
    by (auto simp: ab cd intro: suffix_appendI prefix_prefix)
qed

lemma split_node_canonical:
  assumes "canonical t"
  shows "canonical (fst (split_node run_ops t p)) \<and> canonical (snd (split_node run_ops t p))"
proof (cases t)
  case (Some node)
  then show ?thesis
    using assms split_some_values [of node p]
    by (auto simp: canonical_def split_node_def prefix_def suffix_def dest!: arg_cong [of _ _ distinct_adj]
        dest: distinct_adj_appendD1 distinct_adj_appendD2)
qed (simp add: canonical_def split_node_def)

lemma concat_normalized_canonical:
  assumes "canonical a" "canonical b"
  shows "canonical (concat_normalized run_ops a b)"
proof (cases a; cases b)
  fix l r assume a: "a = Some l" and b: "b = Some r"
  obtain left_rest x where L: "pop_last run_ops l = (left_rest, x)" by fastforce
  obtain right_rest y where R: "pop_first run_ops r = (right_rest, y)" by fastforce
  have leaves: "visit_each_leaf l = for_each_leaf left_rest @ [x]" "visit_each_leaf r = y # for_each_leaf right_rest"
    using pop_last_leaves [of run_ops l] pop_first_leaves [of run_ops r] by (simp_all add: L R)
  have "for_each_leaf (concat_normalized run_ops a b) =
      for_each_leaf left_rest @ run_rechunk_pair x y @ for_each_leaf right_rest"
    by (simp add: concat_normalized_def a b L R)
  then show ?thesis
    using assms
    by (auto simp: canonical_def a b leaves run_rechunk_pair_def distinct_adj_append_iff distinct_adj_Cons)
qed (use assms in \<open>auto simp: concat_normalized_def canonical_def\<close>)

lemma from_runs_spec:
  "root_ok run_ops run_ok (from_runs runs) \<and> canonical (from_runs runs) \<and> flat run_content (from_runs runs) = run_list runs"
  using normalized_runs_spec [of runs] runs.from_leaves_flat [of "normalized_runs runs"]
  by (simp add: from_runs_def canonical_def from_leaves_def)

lemma replace_range_runs_spec:
  assumes "root_ok run_ops run_ok t" "canonical t"
  shows "root_ok run_ops run_ok (replace_range_runs t a b rs) \<and> canonical (replace_range_runs t a b rs) \<and>
    flat run_content (replace_range_runs t a b rs) =
      take a (flat run_content t) @ run_list rs @ drop (max a b) (flat run_content t)"
proof -
  let ?xs = "flat run_content t"
  let ?a = "min a (length ?xs)" and ?b = "max (min b (length ?xs)) (min a (length ?xs))"
  have same_range: "replace_range_runs t a b rs = seq_replace_range run_ops t ?a ?b (from_runs rs)"
    by (simp add: replace_range_runs_def seq_replace_range_def runs.seq_len_flat [OF assms(1)] Let_def)
  have cut: "can_cut (\<lambda>_. True) xs p" for xs :: "'a list" and p by (simp add: can_cut_def)
  have "take ?a ?xs = take a ?xs" by (cases "a \<le> length ?xs") auto
  moreover have "drop ?b ?xs = drop (max a b) ?xs" by (cases "max a b \<le> length ?xs") (auto simp: max_def min_def)
  moreover have "canonical (replace_range_runs t a b rs)"
    unfolding replace_range_runs_def seq_replace_range_def Let_def
    using from_runs_spec [of rs] split_node_canonical assms(2)
    by (auto simp: split_beta intro!: concat_normalized_canonical)
  ultimately show ?thesis
    using runs.seq_replace_range_flat [OF assms(1), of "from_runs rs" ?a ?b] from_runs_spec [of rs] cut
    by (simp add: same_range)
qed

fun edit_runs :: "'a RunValues \<Rightarrow> nat \<times> nat \<times> ('a \<times> nat) list \<Rightarrow> 'a RunValues" where
  "edit_runs t (a, b, rs) = replace_range_runs t a b rs"

fun edit_values :: "'a list \<Rightarrow> nat \<times> nat \<times> ('a \<times> nat) list \<Rightarrow> 'a list" where
  "edit_values xs (a, b, rs) = take a xs @ run_list rs @ drop (max a b) xs"

interpretation edited_runs: run_simulation edit_runs "\<lambda>t. root_ok run_ops run_ok t \<and> canonical t" edit_values
    "\<lambda>t xs. flat run_content t = xs"
proof
  fix t :: "'a RunValues" and e
  assume "root_ok run_ops run_ok t \<and> canonical t"
  then show "root_ok run_ops run_ok (edit_runs t e) \<and> canonical (edit_runs t e)"
    using replace_range_runs_spec by (cases e) auto
next
  fix t :: "'a RunValues" and xs e
  assume "root_ok run_ops run_ok t \<and> canonical t" "flat run_content t = xs"
  then show "flat run_content (edit_runs t e) = edit_values xs e"
    using replace_range_runs_spec by (cases e) auto
qed

lemma runs_get_flat:
  assumes "root_ok run_ops run_ok t"
  shows "runs_get t p = (if p < length (flat run_content t) then Some (flat run_content t ! p) else None)"
proof (cases "locate run_ops t p")
  case None
  then show ?thesis using runs.locate_flat(1) [OF assms, of p] by (simp add: runs_get_def)
next
  case (Some hit)
  obtain run offset where hit: "hit = (run, offset)" by (cases hit)
  have "offset < length (run_content run)" "run_content run ! offset = flat run_content t ! p"
    using runs.locate_flat(2) [OF assms] Some hit by simp_all
  moreover have "p < length (flat run_content t)"
    using runs.locate_flat(1) [OF assms, of p] Some by (simp add: not_le)
  ultimately show ?thesis using Some hit by (simp add: runs_get_def run_content_def)
qed

text \<open>
  C7. Style runs are the styles they stand for. After any edits of the runs, the value at every position is
  that of the list with the same edits, and the runs stay canonical: neighbouring runs carry different
  values, so that their number does not grow with the edits but with the changes of style.
\<close>
theorem style_runs_are_canonical:
  fixes rs :: "('a \<times> nat) list" and edits :: "(nat \<times> nat \<times> ('a \<times> nat) list) list"
  defines "t \<equiv> foldl edit_runs (from_runs rs) edits" and "xs \<equiv> foldl edit_values (run_list rs) edits"
  shows "runs_len t = length xs \<and>
    runs_get t p = (if p < length xs then Some (xs ! p) else None) \<and>
    distinct_adj (map run_value (for_each_leaf t))"
proof -
  have start: "root_ok run_ops run_ok (from_runs rs) \<and> canonical (from_runs rs)" "flat run_content (from_runs rs) = run_list rs"
    using from_runs_spec by auto
  have "root_ok run_ops run_ok t \<and> canonical t" "flat run_content t = xs"
    using edited_runs.run_inv [OF start(1)] edited_runs.run_rel [OF start] by (simp_all add: t_def xs_def)
  then show ?thesis
    using runs.seq_len_flat [of t] by (simp add: runs_len_def runs_get_flat canonical_def)
qed

end
