(* ===== verification/Chunked_Text.thy ===== *)
theory Chunked_Text
  imports Seq_Tree Utf8_Text
begin

text \<open>
  \<^verbatim>\<open>ChunkedText\<close> of \<^verbatim>\<open>src/ui/sql_editor/chunked_text.rs\<close>, the text of an editor as a balanced tree of chunks. A
  chunk is a range of a shared storage string with the line breaks of the storage; an edit shares all
  chunks but those at its ends. Whether two chunks lie in one allocation (\<^verbatim>\<open>Arc::ptr_eq\<close> on the storage and on
  its line breaks) is the argument \<open>same\<close>, of which the proofs use only that one allocation has one
  content. \<^verbatim>\<open>partition_point\<close> is a binary search; on the sorted lists it is asked about, it is the length of
  the longest prefix.
\<close>

definition TEXT_CHUNK_TARGET_BYTES :: nat where
  "TEXT_CHUNK_TARGET_BYTES = 32 * 1024"

definition TEXT_CHUNK_RECHUNK_MIN_BYTES :: nat where
  "TEXT_CHUNK_RECHUNK_MIN_BYTES = 16 * 1024"

record TextChunk =
  storage :: string
  storage_line_breaks :: "nat list"
  storage_is_ascii :: bool
  chunk_start :: nat
  chunk_end :: nat
  line_break_start :: nat
  line_break_end :: nat

type_synonym ChunkedText = "TextChunk PersistentSequence"

definition partition_point :: "('a \<Rightarrow> bool) \<Rightarrow> 'a list \<Rightarrow> nat" where
  "partition_point P xs = length (takeWhile P xs)"

section \<open>Chunks\<close>

definition chunk_from_storage :: "string \<Rightarrow> nat list \<Rightarrow> bool \<Rightarrow> nat \<Rightarrow> nat \<Rightarrow> TextChunk" where
  "chunk_from_storage s line_breaks ascii start_pos end_pos =
     (let start_pos = min start_pos (length s);
          end_pos = max (min end_pos (length s)) start_pos
      in \<lparr>storage = s, storage_line_breaks = line_breaks, storage_is_ascii = ascii,
          chunk_start = start_pos, chunk_end = end_pos,
          line_break_start = partition_point (\<lambda>position. position < start_pos) line_breaks,
          line_break_end = partition_point (\<lambda>position. position < end_pos) line_breaks\<rparr>)"

definition chunk_as_str :: "TextChunk \<Rightarrow> string" where
  "chunk_as_str chunk =
     (case str_get (storage chunk) (chunk_start chunk) (chunk_end chunk) of None \<Rightarrow> [] | Some s \<Rightarrow> s)"

definition chunk_line_breaks :: "TextChunk \<Rightarrow> nat list" where
  "chunk_line_breaks chunk =
     (if line_break_start chunk \<le> line_break_end chunk \<and>
         line_break_end chunk \<le> length (storage_line_breaks chunk)
      then take (line_break_end chunk - line_break_start chunk)
             (drop (line_break_start chunk) (storage_line_breaks chunk))
      else [])"

definition chunk_len :: "TextChunk \<Rightarrow> nat" where
  "chunk_len chunk = chunk_end chunk - chunk_start chunk"

definition chunk_secondary_len :: "TextChunk \<Rightarrow> nat" where
  "chunk_secondary_len chunk = line_break_end chunk - line_break_start chunk"

definition chunk_secondary_count_before :: "TextChunk \<Rightarrow> nat \<Rightarrow> nat" where
  "chunk_secondary_count_before chunk position =
     (let absolute = chunk_start chunk + min position (chunk_len chunk)
      in partition_point (\<lambda>line_break. line_break < absolute) (chunk_line_breaks chunk))"

definition chunk_secondary_position :: "TextChunk \<Rightarrow> nat \<Rightarrow> nat option" where
  "chunk_secondary_position chunk ordinal =
     (if ordinal < length (chunk_line_breaks chunk)
      then Some (chunk_line_breaks chunk ! ordinal - chunk_start chunk) else None)"

definition chunk_split_at :: "TextChunk \<Rightarrow> nat \<Rightarrow> TextChunk option \<times> TextChunk option" where
  "chunk_split_at chunk position =
     (let position = min position (chunk_len chunk);
          absolute = min (chunk_start chunk + position) (chunk_end chunk);
          cut = chunk_from_storage (storage chunk) (storage_line_breaks chunk) (storage_is_ascii chunk)
      in (if absolute > chunk_start chunk then Some (cut (chunk_start chunk) absolute) else None,
          if absolute < chunk_end chunk then Some (cut absolute (chunk_end chunk)) else None))"

text \<open>The line breaks of a text: a line feed, alone or after a carriage return, and a lone carriage return.\<close>

function metadata_loop :: "string \<Rightarrow> nat \<Rightarrow> nat list" where
  "metadata_loop s idx =
     (if idx < length s then
        (if s ! idx = CHR 0x0A then idx # metadata_loop s (idx + 1)
         else if s ! idx = CHR 0x0D \<and> byte_at s (idx + 1) = Some CHR 0x0A then (idx + 1) # metadata_loop s (idx + 2)
         else if s ! idx = CHR 0x0D then idx # metadata_loop s (idx + 1)
         else metadata_loop s (idx + 1))
      else [])"
  by pat_completeness auto
termination by (relation "measure (\<lambda>(s, idx). length s - idx)") auto

declare metadata_loop.simps [simp del]

definition text_storage_metadata :: "string \<Rightarrow> nat list \<times> bool" where
  "text_storage_metadata s = (metadata_loop s 0, list_all is_ascii s)"

text \<open>
  Where a chunk that starts at \<open>start_pos\<close> ends. The character after the first one, which \<^verbatim>\<open>char_indices\<close> finds,
  starts at the next boundary.
\<close>

function next_boundary :: "string \<Rightarrow> nat \<Rightarrow> nat" where
  "next_boundary s i = (if i < length s \<and> \<not> is_char_boundary s i then next_boundary s (i + 1) else i)"
  by pat_completeness auto
termination by (relation "measure (\<lambda>(s, i). length s - i)") auto

declare next_boundary.simps [simp del]

fun shrink_to_boundary :: "string \<Rightarrow> nat \<Rightarrow> nat \<Rightarrow> nat" where
  "shrink_to_boundary s start_pos end_pos =
     (if end_pos > start_pos \<and> \<not> is_char_boundary s end_pos then shrink_to_boundary s start_pos (end_pos - 1)
      else end_pos)"

declare shrink_to_boundary.simps [simp del]

definition chunk_end_from :: "string \<Rightarrow> nat \<Rightarrow> nat" where
  "chunk_end_from s start_pos =
     (let end_pos = shrink_to_boundary s start_pos (min (start_pos + TEXT_CHUNK_TARGET_BYTES) (length s));
          end_pos = (if end_pos = start_pos then next_boundary s (start_pos + 1) else end_pos)
      in if end_pos < length s \<and> byte_at s (end_pos - 1) = Some CHR 0x0D \<and> byte_at s end_pos = Some CHR 0x0A
         then end_pos + 1 else end_pos)"

lemma next_boundary_ge: "i \<le> next_boundary s i"
proof (induction s i rule: next_boundary.induct)
  case (1 s i)
  then show ?case by (subst next_boundary.simps) auto
qed

lemma shrink_to_boundary_ge: "start_pos \<le> end_pos \<Longrightarrow> start_pos \<le> shrink_to_boundary s start_pos end_pos"
proof (induction s start_pos end_pos rule: shrink_to_boundary.induct)
  case (1 s start_pos end_pos)
  then show ?case by (subst shrink_to_boundary.simps) auto
qed

lemma chunk_end_from_gt:
  assumes "start_pos < length s"
  shows "start_pos < chunk_end_from s start_pos"
proof -
  let ?e = "shrink_to_boundary s start_pos (min (start_pos + TEXT_CHUNK_TARGET_BYTES) (length s))"
  have "start_pos \<le> ?e" using assms by (intro shrink_to_boundary_ge) simp
  moreover have "start_pos < next_boundary s (start_pos + 1)"
    using next_boundary_ge [of "start_pos + 1" s] by simp
  ultimately show ?thesis by (auto simp: chunk_end_from_def Let_def)
qed

function split_chunks_loop :: "string \<Rightarrow> nat list \<Rightarrow> bool \<Rightarrow> nat \<Rightarrow> TextChunk list" where
  "split_chunks_loop s line_breaks ascii start_pos =
     (if start_pos < length s then
        chunk_from_storage s line_breaks ascii start_pos (chunk_end_from s start_pos) #
        split_chunks_loop s line_breaks ascii (chunk_end_from s start_pos)
      else [])"
  by pat_completeness auto
termination
  by (relation "measure (\<lambda>(s, line_breaks, ascii, start_pos). length s - start_pos)")
    (auto intro!: diff_less_mono2 chunk_end_from_gt)

declare split_chunks_loop.simps [simp del]

definition split_text_chunks_from_storage :: "string \<Rightarrow> TextChunk list" where
  "split_text_chunks_from_storage s =
     (if s = [] then []
      else (let (line_breaks, ascii) = text_storage_metadata s in split_chunks_loop s line_breaks ascii 0))"

definition split_text_chunks_from_string :: "string \<Rightarrow> TextChunk list" where
  "split_text_chunks_from_string s = split_text_chunks_from_storage s"

definition chunk_rechunk_pair ::
    "(TextChunk \<Rightarrow> TextChunk \<Rightarrow> bool) \<Rightarrow> TextChunk \<Rightarrow> TextChunk \<Rightarrow> TextChunk list" where
  "chunk_rechunk_pair same l r =
     (if same l r \<and> chunk_end l = chunk_start r then
        [chunk_from_storage (storage l) (storage_line_breaks l) (storage_is_ascii l) (chunk_start l) (chunk_end r)]
      else
        (let combined_len = chunk_len l + chunk_len r;
             joins_crlf = (chunk_as_str l \<noteq> [] \<and> last (chunk_as_str l) = CHR 0x0D \<and>
               byte_at (chunk_as_str r) 0 = Some CHR 0x0A)
         in if \<not> joins_crlf \<and> combined_len > TEXT_CHUNK_TARGET_BYTES \<and>
              chunk_len l \<ge> TEXT_CHUNK_RECHUNK_MIN_BYTES \<and> chunk_len r \<ge> TEXT_CHUNK_RECHUNK_MIN_BYTES
            then [l, r]
            else if \<not> joins_crlf \<and> combined_len > TEXT_CHUNK_TARGET_BYTES \<and>
              (chunk_len l \<ge> TEXT_CHUNK_TARGET_BYTES \<or> chunk_len r \<ge> TEXT_CHUNK_TARGET_BYTES)
            then [l, r]
            else split_text_chunks_from_string (chunk_as_str l @ chunk_as_str r)))"

definition text_ops :: "(TextChunk \<Rightarrow> TextChunk \<Rightarrow> bool) \<Rightarrow> TextChunk leaf_ops" where
  "text_ops same =
     \<lparr>leaf_len = chunk_len, leaf_secondary_len = chunk_secondary_len,
      leaf_secondary_count_before = chunk_secondary_count_before,
      leaf_secondary_position = chunk_secondary_position, leaf_split_at = chunk_split_at,
      leaf_rechunk_pair = chunk_rechunk_pair same\<rparr>"

section \<open>The text\<close>

definition text_from_string :: "(TextChunk \<Rightarrow> TextChunk \<Rightarrow> bool) \<Rightarrow> string \<Rightarrow> ChunkedText" where
  "text_from_string same s = from_leaves (text_ops same) (split_text_chunks_from_string s)"

definition text_from_shared_string :: "(TextChunk \<Rightarrow> TextChunk \<Rightarrow> bool) \<Rightarrow> string \<Rightarrow> ChunkedText" where
  "text_from_shared_string same s = from_leaves (text_ops same) (split_text_chunks_from_storage s)"

definition text_len :: "(TextChunk \<Rightarrow> TextChunk \<Rightarrow> bool) \<Rightarrow> ChunkedText \<Rightarrow> nat" where
  "text_len same t = seq_len (text_ops same) t"

definition text_is_empty :: "(TextChunk \<Rightarrow> TextChunk \<Rightarrow> bool) \<Rightarrow> ChunkedText \<Rightarrow> bool" where
  "text_is_empty same t \<longleftrightarrow> text_len same t = 0"

definition text_byte_at :: "(TextChunk \<Rightarrow> TextChunk \<Rightarrow> bool) \<Rightarrow> ChunkedText \<Rightarrow> nat \<Rightarrow> char option" where
  "text_byte_at same t position =
     (case locate (text_ops same) t position of
        None \<Rightarrow> None
      | Some (chunk, offset) \<Rightarrow> byte_at (chunk_as_str chunk) offset)"

definition text_is_char_boundary :: "(TextChunk \<Rightarrow> TextChunk \<Rightarrow> bool) \<Rightarrow> ChunkedText \<Rightarrow> nat \<Rightarrow> bool" where
  "text_is_char_boundary same t position \<longleftrightarrow>
     position = 0 \<or> position = text_len same t \<or>
     (case text_byte_at same t position of None \<Rightarrow> False | Some b \<Rightarrow> \<not> is_continuation b)"

fun clamp_loop :: "(TextChunk \<Rightarrow> TextChunk \<Rightarrow> bool) \<Rightarrow> ChunkedText \<Rightarrow> nat \<Rightarrow> nat" where
  "clamp_loop same t position =
     (if position > 0 \<and> \<not> text_is_char_boundary same t position then clamp_loop same t (position - 1)
      else position)"

declare clamp_loop.simps [simp del]

definition clamp_boundary :: "(TextChunk \<Rightarrow> TextChunk \<Rightarrow> bool) \<Rightarrow> ChunkedText \<Rightarrow> nat \<Rightarrow> nat" where
  "clamp_boundary same t position = clamp_loop same t (min position (text_len same t))"

definition range_string :: "(TextChunk \<Rightarrow> TextChunk \<Rightarrow> bool) \<Rightarrow> ChunkedText \<Rightarrow> nat \<Rightarrow> nat \<Rightarrow> string option" where
  "range_string same t start_pos end_pos =
     (let start_pos = clamp_boundary same t (min start_pos (text_len same t));
          end_pos = clamp_boundary same t (min end_pos (text_len same t))
      in if end_pos < start_pos then Some []
         else
           (let pieces = map (\<lambda>(chunk, local_start, local_end). str_get (chunk_as_str chunk) local_start local_end)
                  (visit_range (text_ops same) t start_pos end_pos);
                result = concat (map (\<lambda>piece. case piece of None \<Rightarrow> [] | Some s \<Rightarrow> s) pieces)
            in if list_all (\<lambda>piece. piece \<noteq> None) pieces \<and> length result = end_pos - start_pos
               then Some result else None))"

definition to_flat_string :: "(TextChunk \<Rightarrow> TextChunk \<Rightarrow> bool) \<Rightarrow> ChunkedText \<Rightarrow> string" where
  "to_flat_string same t = (case range_string same t 0 (text_len same t) of None \<Rightarrow> [] | Some s \<Rightarrow> s)"

text \<open>\<^verbatim>\<open>matches_str\<close> walks over the leaves with the offset reached; \<open>None\<close> is a mismatch.\<close>

fun matches_loop :: "string \<Rightarrow> nat \<Rightarrow> TextChunk list \<Rightarrow> nat option" where
  "matches_loop other offset [] = Some offset"
| "matches_loop other offset (chunk # chunks) =
     (if str_get other offset (offset + chunk_len chunk) = Some (chunk_as_str chunk)
      then matches_loop other (offset + chunk_len chunk) chunks else None)"

definition matches_str :: "(TextChunk \<Rightarrow> TextChunk \<Rightarrow> bool) \<Rightarrow> ChunkedText \<Rightarrow> string \<Rightarrow> bool" where
  "matches_str same t other \<longleftrightarrow>
     text_len same t = length other \<and> matches_loop other 0 (for_each_leaf t) = Some (length other)"

definition text_slice :: "(TextChunk \<Rightarrow> TextChunk \<Rightarrow> bool) \<Rightarrow> ChunkedText \<Rightarrow> nat \<Rightarrow> nat \<Rightarrow> ChunkedText option" where
  "text_slice same t start_pos end_pos =
     (let start_pos = clamp_boundary same t (min start_pos (text_len same t));
          end_pos = clamp_boundary same t (min end_pos (text_len same t))
      in if end_pos < start_pos then None
         else
           (let (_, tail) = split_node (text_ops same) t start_pos;
                (root, _) = split_node (text_ops same) tail (end_pos - start_pos)
            in Some root))"

text \<open>The three ways to replace a range: with a copied string, a shared string, or another text.\<close>

definition replace_range_chunked ::
    "(TextChunk \<Rightarrow> TextChunk \<Rightarrow> bool) \<Rightarrow> ChunkedText \<Rightarrow> nat \<Rightarrow> nat \<Rightarrow> ChunkedText \<Rightarrow> ChunkedText \<times> bool" where
  "replace_range_chunked same t start_pos end_pos inserted =
     (let start_pos = clamp_boundary same t (min start_pos (text_len same t));
          end_pos = clamp_boundary same t (min end_pos (text_len same t))
      in if end_pos < start_pos then (t, False)
         else (seq_replace_range (text_ops same) t start_pos end_pos inserted, True))"

definition text_replace_range ::
    "(TextChunk \<Rightarrow> TextChunk \<Rightarrow> bool) \<Rightarrow> ChunkedText \<Rightarrow> nat \<Rightarrow> nat \<Rightarrow> string \<Rightarrow> ChunkedText \<times> bool" where
  "text_replace_range same t start_pos end_pos inserted =
     (let start_pos = clamp_boundary same t (min start_pos (text_len same t));
          end_pos = clamp_boundary same t (min end_pos (text_len same t))
      in if end_pos < start_pos then (t, False)
         else (seq_replace_range (text_ops same) t start_pos end_pos
                 (from_leaves (text_ops same) (split_text_chunks_from_string inserted)), True))"

definition replace_range_shared ::
    "(TextChunk \<Rightarrow> TextChunk \<Rightarrow> bool) \<Rightarrow> ChunkedText \<Rightarrow> nat \<Rightarrow> nat \<Rightarrow> string \<Rightarrow> ChunkedText \<times> bool" where
  "replace_range_shared same t start_pos end_pos inserted =
     (let start_pos = clamp_boundary same t (min start_pos (text_len same t));
          end_pos = clamp_boundary same t (min end_pos (text_len same t))
      in if end_pos < start_pos then (t, False)
         else (seq_replace_range (text_ops same) t start_pos end_pos
                 (from_leaves (text_ops same) (split_text_chunks_from_storage inserted)), True))"

section \<open>Lines\<close>

definition nth_line_break :: "(TextChunk \<Rightarrow> TextChunk \<Rightarrow> bool) \<Rightarrow> ChunkedText \<Rightarrow> nat \<Rightarrow> nat option" where
  "nth_line_break same t ordinal = nth_secondary (text_ops same) t ordinal"

definition line_count :: "(TextChunk \<Rightarrow> TextChunk \<Rightarrow> bool) \<Rightarrow> ChunkedText \<Rightarrow> nat" where
  "line_count same t = (if text_is_empty same t then 0 else seq_secondary_len (text_ops same) t + 1)"

definition line_index_for_position :: "(TextChunk \<Rightarrow> TextChunk \<Rightarrow> bool) \<Rightarrow> ChunkedText \<Rightarrow> nat \<Rightarrow> nat" where
  "line_index_for_position same t position =
     secondary_count_before (text_ops same) t (min position (text_len same t))"

definition line_start_for_index :: "(TextChunk \<Rightarrow> TextChunk \<Rightarrow> bool) \<Rightarrow> ChunkedText \<Rightarrow> nat \<Rightarrow> nat" where
  "line_start_for_index same t line_index =
     (if line_index = 0 then 0
      else (case nth_line_break same t (line_index - 1) of
              None \<Rightarrow> text_len same t | Some position \<Rightarrow> position + 1))"

definition line_start :: "(TextChunk \<Rightarrow> TextChunk \<Rightarrow> bool) \<Rightarrow> ChunkedText \<Rightarrow> nat \<Rightarrow> nat" where
  "line_start same t position = line_start_for_index same t (line_index_for_position same t position)"

definition line_end :: "(TextChunk \<Rightarrow> TextChunk \<Rightarrow> bool) \<Rightarrow> ChunkedText \<Rightarrow> nat \<Rightarrow> nat" where
  "line_end same t position =
     (case nth_line_break same t (line_index_for_position same t position) of
        None \<Rightarrow> text_len same t | Some position \<Rightarrow> position)"

definition inclusive_line_end_for_index :: "(TextChunk \<Rightarrow> TextChunk \<Rightarrow> bool) \<Rightarrow> ChunkedText \<Rightarrow> nat \<Rightarrow> nat" where
  "inclusive_line_end_for_index same t line_index =
     (case nth_line_break same t line_index of
        None \<Rightarrow> text_len same t | Some position \<Rightarrow> min (position + 1) (text_len same t))"

fun line_ends_loop :: "nat \<Rightarrow> (TextChunk \<times> nat \<times> nat) list \<Rightarrow> nat list" where
  "line_ends_loop logical_cursor [] = []"
| "line_ends_loop logical_cursor ((chunk, local_start, local_end) # visits) =
     (let absolute_start = chunk_start chunk + local_start;
          absolute_end = min (chunk_start chunk + local_end) (chunk_end chunk);
          first = partition_point (\<lambda>position. position < absolute_start) (chunk_line_breaks chunk);
          last = partition_point (\<lambda>position. position < absolute_end) (chunk_line_breaks chunk);
          line_breaks = (if first \<le> last then take (last - first) (drop first (chunk_line_breaks chunk)) else [])
      in map (\<lambda>position. logical_cursor + (position - absolute_start) + 1) line_breaks @
         line_ends_loop (logical_cursor + (local_end - local_start)) visits)"

definition collect_line_ends_in_range ::
    "(TextChunk \<Rightarrow> TextChunk \<Rightarrow> bool) \<Rightarrow> ChunkedText \<Rightarrow> nat \<Rightarrow> nat \<Rightarrow> nat list" where
  "collect_line_ends_in_range same t start_pos end_pos =
     (let start_pos = min start_pos (text_len same t);
          end_pos = max (min end_pos (text_len same t)) start_pos;
          output = line_ends_loop start_pos (visit_range (text_ops same) t start_pos end_pos)
      in if (if output = [] then start_pos else last output) < end_pos then output @ [end_pos] else output)"

section \<open>Well-formed chunks\<close>

definition chunk_ok :: "TextChunk \<Rightarrow> bool" where
  "chunk_ok chunk \<longleftrightarrow>
     chunk_start chunk < chunk_end chunk \<and> utf8_like (storage chunk) \<and>
     is_char_boundary (storage chunk) (chunk_start chunk) \<and> is_char_boundary (storage chunk) (chunk_end chunk) \<and>
     chunk = chunk_from_storage (storage chunk) (metadata_loop (storage chunk) 0)
       (list_all is_ascii (storage chunk)) (chunk_start chunk) (chunk_end chunk)"

lemma chunk_from_storage_ok:
  assumes "a < b" "utf8_like s" "is_char_boundary s a" "is_char_boundary s b"
  shows "chunk_ok (chunk_from_storage s (metadata_loop s 0) (list_all is_ascii s) a b)"
  using assms is_char_boundary_le [of s a] is_char_boundary_le [of s b]
  by (simp add: chunk_ok_def chunk_from_storage_def Let_def max_absorb1)

lemma chunk_from_storage_fields:
  assumes "a \<le> b" "b \<le> length s"
  shows "storage (chunk_from_storage s bs ascii a b) = s" "chunk_start (chunk_from_storage s bs ascii a b) = a"
    "chunk_end (chunk_from_storage s bs ascii a b) = b"
    "storage_line_breaks (chunk_from_storage s bs ascii a b) = bs"
    "storage_is_ascii (chunk_from_storage s bs ascii a b) = ascii"
    "line_break_start (chunk_from_storage s bs ascii a b) = partition_point (\<lambda>p. p < a) bs"
    "line_break_end (chunk_from_storage s bs ascii a b) = partition_point (\<lambda>p. p < b) bs"
  using assms by (simp_all add: chunk_from_storage_def Let_def max_absorb1)

lemma chunk_ok_fields:
  assumes "chunk_ok chunk"
  shows "chunk_start chunk < chunk_end chunk" "chunk_end chunk \<le> length (storage chunk)" "utf8_like (storage chunk)"
    "is_char_boundary (storage chunk) (chunk_start chunk)" "is_char_boundary (storage chunk) (chunk_end chunk)"
    "storage_line_breaks chunk = metadata_loop (storage chunk) 0"
    "storage_is_ascii chunk = list_all is_ascii (storage chunk)"
    "line_break_start chunk = partition_point (\<lambda>p. p < chunk_start chunk) (metadata_loop (storage chunk) 0)"
    "line_break_end chunk = partition_point (\<lambda>p. p < chunk_end chunk) (metadata_loop (storage chunk) 0)"
proof -
  show 1: "chunk_start chunk < chunk_end chunk" "utf8_like (storage chunk)"
    "is_char_boundary (storage chunk) (chunk_start chunk)" "is_char_boundary (storage chunk) (chunk_end chunk)"
    using assms by (simp_all add: chunk_ok_def)
  show 2: "chunk_end chunk \<le> length (storage chunk)" using 1(4) by (rule is_char_boundary_le)
  have "chunk = chunk_from_storage (storage chunk) (metadata_loop (storage chunk) 0)
      (list_all is_ascii (storage chunk)) (chunk_start chunk) (chunk_end chunk)"
    using assms by (simp add: chunk_ok_def)
  then show "storage_line_breaks chunk = metadata_loop (storage chunk) 0"
    "storage_is_ascii chunk = list_all is_ascii (storage chunk)"
    "line_break_start chunk = partition_point (\<lambda>p. p < chunk_start chunk) (metadata_loop (storage chunk) 0)"
    "line_break_end chunk = partition_point (\<lambda>p. p < chunk_end chunk) (metadata_loop (storage chunk) 0)"
    using 1(1) 2 by (metis chunk_from_storage_fields less_imp_le)+
qed

lemma chunk_as_str_slice:
  "chunk_ok chunk \<Longrightarrow> chunk_as_str chunk = slice (storage chunk) (chunk_start chunk) (chunk_end chunk)"
  by (simp add: chunk_as_str_def str_get_def chunk_ok_fields less_imp_le)

lemma chunk_as_str_from_storage:
  assumes "a \<le> b" "is_char_boundary s a" "is_char_boundary s b"
  shows "chunk_as_str (chunk_from_storage s bs ascii a b) = slice s a b"
  using assms is_char_boundary_le [of s b]
  by (simp add: chunk_as_str_def str_get_def chunk_from_storage_fields)

lemma length_chunk_as_str: "chunk_ok chunk \<Longrightarrow> length (chunk_as_str chunk) = chunk_len chunk"
  using chunk_ok_fields(2) [of chunk] by (simp add: chunk_as_str_slice slice_def chunk_len_def)

lemma chunk_as_str_utf8: "chunk_ok chunk \<Longrightarrow> utf8_like (chunk_as_str chunk)"
  by (simp add: chunk_as_str_slice utf8_like_slice chunk_ok_fields)

lemma chunk_as_str_nonempty: "chunk_ok chunk \<Longrightarrow> chunk_as_str chunk \<noteq> []"
  using length_chunk_as_str chunk_ok_fields(1) by (fastforce simp: chunk_len_def)

text \<open>Every position that the splitter ends a chunk at is a boundary.\<close>

lemma next_boundary_boundary: "i \<le> length s \<Longrightarrow> is_char_boundary s (next_boundary s i)"
proof (induction s i rule: next_boundary.induct)
  case (1 s i)
  then show ?case by (subst next_boundary.simps) (auto simp: is_char_boundary_def)
qed

lemma shrink_to_boundary_boundary:
  "start_pos \<le> end_pos \<Longrightarrow> is_char_boundary s start_pos \<Longrightarrow> is_char_boundary s (shrink_to_boundary s start_pos end_pos)"
proof (induction s start_pos end_pos rule: shrink_to_boundary.induct)
  case (1 s start_pos end_pos)
  then show ?case by (subst shrink_to_boundary.simps) auto
qed

lemma chunk_end_from_boundary:
  assumes "utf8_like s" "start_pos < length s" "is_char_boundary s start_pos"
  shows "is_char_boundary s (chunk_end_from s start_pos)"
proof -
  let ?e = "shrink_to_boundary s start_pos (min (start_pos + TEXT_CHUNK_TARGET_BYTES) (length s))"
  define f where "f = (if ?e = start_pos then next_boundary s (start_pos + 1) else ?e)"
  have f: "is_char_boundary s f"
    using assms(2,3) by (auto simp: f_def intro!: shrink_to_boundary_boundary next_boundary_boundary)
  have "is_char_boundary s (f + 1)" if "f < length s" "byte_at s f = Some CHR 0x0A"
    using assms(1) that by (intro boundary_after_ascii) (auto simp: byte_at_def is_ascii_def)
  moreover have "chunk_end_from s start_pos =
      (if f < length s \<and> byte_at s (f - 1) = Some CHR 0x0D \<and> byte_at s f = Some CHR 0x0A then f + 1 else f)"
    by (simp only: chunk_end_from_def Let_def f_def)
  ultimately show ?thesis using f by simp
qed

lemma slice_append_drop: "a \<le> b \<Longrightarrow> slice s a b @ drop b s = drop a s"
  by (simp add: slice_def) (metis append_take_drop_id drop_drop le_add_diff_inverse2)

lemma slice_slice_append:
  assumes "a \<le> b" "b \<le> c"
  shows "slice s a b @ slice s b c = slice s a c"
proof -
  have "drop b s = drop (b - a) (drop a s)" "c - a = (b - a) + (c - b)" using assms by simp_all
  then show ?thesis by (simp only: slice_def take_add)
qed

lemma split_chunks_loop_ok:
  assumes "utf8_like s" "is_char_boundary s start_pos" "bs = metadata_loop s 0" "ascii = list_all is_ascii s"
  shows "list_all chunk_ok (split_chunks_loop s bs ascii start_pos) \<and>
    concat (map chunk_as_str (split_chunks_loop s bs ascii start_pos)) = drop start_pos s"
  using assms
proof (induction s bs ascii start_pos rule: split_chunks_loop.induct)
  case (1 s bs ascii start_pos)
  show ?case
  proof (cases "start_pos < length s")
    case True
    let ?e = "chunk_end_from s start_pos"
    have e: "start_pos < ?e" "is_char_boundary s ?e"
      using chunk_end_from_gt [OF True] chunk_end_from_boundary [OF "1.prems"(1) True "1.prems"(2)] by simp_all
    have "chunk_ok (chunk_from_storage s bs ascii start_pos ?e)"
      using chunk_from_storage_ok [OF e(1) "1.prems"(1,2) e(2)] "1.prems"(3,4) by simp
    moreover have "chunk_as_str (chunk_from_storage s bs ascii start_pos ?e) @ drop ?e s = drop start_pos s"
      using e "1.prems"(2) by (simp add: chunk_as_str_from_storage slice_append_drop)
    ultimately show ?thesis
      using True "1.IH" [OF True "1.prems"(1) e(2) "1.prems"(3,4)]
      by (subst (1 2) split_chunks_loop.simps) simp
  next
    case False
    then show ?thesis by (subst (1 2) split_chunks_loop.simps) simp
  qed
qed

lemma split_text_chunks_ok:
  assumes "utf8_like s"
  shows "list_all chunk_ok (split_text_chunks_from_storage s) \<and>
    concat (map chunk_as_str (split_text_chunks_from_storage s)) = s"
  using split_chunks_loop_ok [OF assms, of 0]
  by (simp add: split_text_chunks_from_storage_def text_storage_metadata_def)

section \<open>Line breaks of a chunk\<close>

lemma metadata_loop_range: "p \<in> set (metadata_loop s i) \<Longrightarrow> i \<le> p \<and> p < length s"
proof (induction s i rule: metadata_loop.induct)
  case (1 s i)
  show ?case
  proof (cases "i < length s")
    case True
    then show ?thesis
      using 1 by (subst (asm) (4) metadata_loop.simps) (auto simp: byte_at_def split: if_splits)
  next
    case False
    then show ?thesis using "1.prems" by (subst (asm) metadata_loop.simps) simp
  qed
qed

lemma metadata_loop_sorted: "sorted_wrt (<) (metadata_loop s i)"
proof (induction s i rule: metadata_loop.induct)
  case (1 s i)
  then show ?case
    by (subst metadata_loop.simps) (auto dest: metadata_loop_range)
qed

lemma metadata_loop_mem:
  "p \<in> set (metadata_loop s i) \<longleftrightarrow>
     i \<le> p \<and> p < length s \<and> (s ! p = CHR 0x0A \<or> s ! p = CHR 0x0D \<and> byte_at s (p + 1) \<noteq> Some CHR 0x0A)"
proof (induction s i rule: metadata_loop.induct)
  case (1 s i)
  show ?case
  proof (cases "i < length s")
    case False
    then show ?thesis by (subst metadata_loop.simps) simp
  next
    case True
    consider (lf) "s ! i = CHR 0x0A" | (crlf) "s ! i = CHR 0x0D" "byte_at s (i + 1) = Some CHR 0x0A"
      | (cr) "s ! i = CHR 0x0D" "byte_at s (i + 1) \<noteq> Some CHR 0x0A" | (other) "s ! i \<noteq> CHR 0x0A" "s ! i \<noteq> CHR 0x0D"
      by blast
    then show ?thesis
    proof cases
      case lf
      then show ?thesis using True 1(1) by (subst metadata_loop.simps) (auto simp: Suc_le_eq le_less)
    next
      case crlf
      have "i \<le> p \<longleftrightarrow> p = i \<or> p = i + 1 \<or> i + 2 \<le> p" by linarith
      then show ?thesis
        using crlf True 1(2) by (subst metadata_loop.simps) (auto simp: byte_at_def split: if_splits)
    next
      case cr
      then show ?thesis using True 1(3) by (subst metadata_loop.simps) (auto simp: Suc_le_eq le_less)
    next
      case other
      then show ?thesis using True 1(4) by (subst metadata_loop.simps) (auto simp: Suc_le_eq le_less)
    qed
  qed
qed

definition line_feeds :: "string \<Rightarrow> nat \<Rightarrow> nat \<Rightarrow> nat list" where
  "line_feeds s a b = filter (\<lambda>p. s ! p = CHR 0x0A) [a..<b]"

lemma sorted_range:
  fixes xs :: "nat list"
  assumes "sorted_wrt (<) xs" "a \<le> b"
  shows "take (length (takeWhile (\<lambda>p. p < b) xs) - length (takeWhile (\<lambda>p. p < a) xs))
      (drop (length (takeWhile (\<lambda>p. p < a) xs)) xs) = filter (\<lambda>p. a \<le> p \<and> p < b) xs"
  using assms(1)
proof (induction xs)
  case (Cons x xs)
  have "filter (\<lambda>p. a \<le> p \<and> p < b) xs = []" if "b \<le> x"
    using that Cons.prems by (auto simp: filter_empty_conv)
  moreover have "takeWhile (\<lambda>p. p < a) xs = []" if "a \<le> x"
    using that Cons.prems by (cases xs) auto
  ultimately show ?case using Cons assms(2) by auto
qed simp

lemma slice_nth_map: "b \<le> length s \<Longrightarrow> slice s a b = map ((!) s) [a..<b]"
  by (rule nth_equalityI) (simp_all add: slice_def)

lemma length_line_feeds:
  "b \<le> length s \<Longrightarrow> length (line_feeds s a b) = length (filter (\<lambda>c. c = CHR 0x0A) (slice s a b))"
  by (simp add: line_feeds_def slice_nth_map filter_map comp_def)

lemma chunk_line_breaks_plain:
  assumes "chunk_ok chunk" "list_all (\<lambda>c. c \<noteq> CHR 0x0D) (chunk_as_str chunk)"
  shows "chunk_line_breaks chunk = line_feeds (storage chunk) (chunk_start chunk) (chunk_end chunk)"
    and "chunk_secondary_len chunk = length (line_feeds (storage chunk) (chunk_start chunk) (chunk_end chunk))"
proof -
  let ?s = "storage chunk" and ?a = "chunk_start chunk" and ?b = "chunk_end chunk"
  let ?bs = "metadata_loop ?s 0"
  note fields = chunk_ok_fields [OF assms(1)]
  have no_cr: "?s ! p \<noteq> CHR 0x0D" if "?a \<le> p" "p < ?b" for p
    using assms(2) that fields by (auto simp: chunk_as_str_slice [OF assms(1)] slice_nth_map list_all_iff)
  have "length (takeWhile (\<lambda>p. p < ?a) ?bs) \<le> length (takeWhile (\<lambda>p. p < ?b) ?bs)"
  proof -
    have "takeWhile (\<lambda>p. p < ?a) ?bs = takeWhile (\<lambda>p. p < ?a) (takeWhile (\<lambda>p. p < ?b) ?bs)"
      using fields(1) by (simp add: takeWhile_takeWhile) (metis (mono_tags, lifting) less_trans)
    then show ?thesis by (metis length_takeWhile_le)
  qed
  then have breaks: "chunk_line_breaks chunk = filter (\<lambda>p. ?a \<le> p \<and> p < ?b) ?bs"
    and len: "chunk_secondary_len chunk = length (filter (\<lambda>p. ?a \<le> p \<and> p < ?b) ?bs)"
    using sorted_range [OF metadata_loop_sorted [of ?s 0], of ?a ?b] fields
      length_takeWhile_le [of "\<lambda>p. p < ?b" ?bs]
    by (simp_all add: chunk_line_breaks_def chunk_secondary_len_def partition_point_def diff_le_mono min_absorb2
        flip: sorted_range [OF metadata_loop_sorted [of ?s 0], of ?a ?b])
  have "filter (\<lambda>p. ?a \<le> p \<and> p < ?b) ?bs = line_feeds ?s ?a ?b"
  proof (rule sorted_distinct_set_unique)
    show "set (filter (\<lambda>p. ?a \<le> p \<and> p < ?b) ?bs) = set (line_feeds ?s ?a ?b)"
      using no_cr fields(2) by (auto simp: line_feeds_def metadata_loop_mem)
    show "sorted (filter (\<lambda>p. ?a \<le> p \<and> p < ?b) ?bs)" "distinct (filter (\<lambda>p. ?a \<le> p \<and> p < ?b) ?bs)"
      using metadata_loop_sorted [of ?s 0] by (simp_all add: strict_sorted_iff sorted_wrt_filter distinct_filter)
  qed (simp_all add: line_feeds_def sorted_wrt_filter)
  then show "chunk_line_breaks chunk = line_feeds ?s ?a ?b" "chunk_secondary_len chunk = length (line_feeds ?s ?a ?b)"
    using breaks len by simp_all
qed

section \<open>Chunks as leaves\<close>

text \<open>What the code relies on when it compares pointers: one allocation has one content.\<close>

locale text_storage =
  fixes same :: "TextChunk \<Rightarrow> TextChunk \<Rightarrow> bool"
  assumes one_content: "same l r \<Longrightarrow>
    storage l = storage r \<and> storage_line_breaks l = storage_line_breaks r"

abbreviation text_starts :: "char \<Rightarrow> bool" where
  "text_starts c \<equiv> \<not> is_continuation c"

lemma nth_chunk_as_str:
  "chunk_ok chunk \<Longrightarrow> p < chunk_len chunk \<Longrightarrow> chunk_as_str chunk ! p = storage chunk ! (chunk_start chunk + p)"
  using chunk_ok_fields(2) [of chunk] by (simp add: chunk_as_str_slice slice_def chunk_len_def)

lemma chunk_split_at_ok:
  assumes "chunk_ok chunk" "0 < p" "p < length (chunk_as_str chunk)" "text_starts (chunk_as_str chunk ! p)"
  shows "\<exists>a b. chunk_split_at chunk p = (Some a, Some b) \<and> chunk_ok a \<and> chunk_ok b \<and>
    chunk_as_str a = take p (chunk_as_str chunk) \<and> chunk_as_str b = drop p (chunk_as_str chunk)"
proof -
  note fields = chunk_ok_fields [OF assms(1)]
  let ?s = "storage chunk" and ?m = "chunk_start chunk + p"
  let ?cut = "chunk_from_storage ?s (metadata_loop ?s 0) (list_all is_ascii ?s)"
  have p: "p < chunk_len chunk" using assms(1,3) by (simp add: length_chunk_as_str)
  then have m: "chunk_start chunk < ?m" "?m < chunk_end chunk" using assms(2) by (simp_all add: chunk_len_def)
  have "is_char_boundary ?s ?m"
    using assms(1,4) p m(2) fields(2) by (simp add: is_char_boundary_def nth_chunk_as_str)
  then have "chunk_ok (?cut (chunk_start chunk) ?m)" "chunk_ok (?cut ?m (chunk_end chunk))"
      "chunk_as_str (?cut (chunk_start chunk) ?m) = slice ?s (chunk_start chunk) ?m"
      "chunk_as_str (?cut ?m (chunk_end chunk)) = slice ?s ?m (chunk_end chunk)"
    using fields m by (simp_all add: chunk_from_storage_ok chunk_as_str_from_storage)
  moreover have "slice ?s (chunk_start chunk) ?m = take p (chunk_as_str chunk)"
      "slice ?s ?m (chunk_end chunk) = drop p (chunk_as_str chunk)"
    using p m by (simp_all add: chunk_as_str_slice [OF assms(1)] slice_def drop_take chunk_len_def add.commute)
  moreover have "chunk_split_at chunk p = (Some (?cut (chunk_start chunk) ?m), Some (?cut ?m (chunk_end chunk)))"
    using p m fields(6,7) by (simp add: chunk_split_at_def Let_def chunk_len_def)
  ultimately show ?thesis by auto
qed

context text_storage
begin

lemma chunk_rechunk_pair_ok:
  assumes "chunk_ok l" "chunk_ok r"
  shows "list_all chunk_ok (chunk_rechunk_pair same l r) \<and>
    concat (map chunk_as_str (chunk_rechunk_pair same l r)) = chunk_as_str l @ chunk_as_str r"
proof (cases "same l r \<and> chunk_end l = chunk_start r")
  case True
  note L = chunk_ok_fields [OF assms(1)] and R = chunk_ok_fields [OF assms(2)]
  have s: "storage r = storage l" using True one_content [of l r] by simp
  have "chunk_ok (chunk_from_storage (storage l) (metadata_loop (storage l) 0) (list_all is_ascii (storage l))
      (chunk_start l) (chunk_end r))"
    using L R True s by (intro chunk_from_storage_ok) auto
  moreover have "chunk_as_str l @ chunk_as_str r = slice (storage l) (chunk_start l) (chunk_end r)"
    using L(1) R(1) True s by (simp add: chunk_as_str_slice assms slice_slice_append)
  ultimately show ?thesis
    using True L R s by (simp add: chunk_rechunk_pair_def chunk_as_str_from_storage)
next
  case False
  have "utf8_like (chunk_as_str l @ chunk_as_str r)"
    using assms by (simp add: utf8_like_append chunk_as_str_utf8)
  moreover have "chunk_rechunk_pair same l r = [l, r] \<or>
      chunk_rechunk_pair same l r = split_text_chunks_from_storage (chunk_as_str l @ chunk_as_str r)"
    unfolding chunk_rechunk_pair_def if_not_P [OF False] Let_def split_text_chunks_from_string_def by metis
  ultimately show ?thesis using assms split_text_chunks_ok by auto
qed

end

lemma takeWhile_line_feeds:
  assumes "a \<le> q" "q \<le> b"
  shows "length (takeWhile (\<lambda>p. p < q) (line_feeds s a b)) = length (line_feeds s a q)"
proof -
  have "[a..<b] = [a..<q] @ [q..<b]" using assms by (metis le_add_diff_inverse upt_add_eq_append)
  then have "line_feeds s a b = line_feeds s a q @ line_feeds s q b" by (simp add: line_feeds_def)
  moreover have "takeWhile (\<lambda>p. p < q) (line_feeds s a q) = line_feeds s a q"
    by (auto simp: takeWhile_eq_all_conv line_feeds_def)
  moreover have "takeWhile (\<lambda>p. p < q) (line_feeds s q b) = []"
    by (auto simp: takeWhile_eq_Nil_iff line_feeds_def dest!: hd_in_set)
  ultimately show ?thesis by (simp add: takeWhile_append)
qed

lemma line_feeds_nth:
  assumes "ordinal < length (line_feeds s a b)"
  shows "a \<le> line_feeds s a b ! ordinal \<and> line_feeds s a b ! ordinal < b \<and>
    s ! (line_feeds s a b ! ordinal) = CHR 0x0A \<and> length (line_feeds s a (line_feeds s a b ! ordinal)) = ordinal"
proof -
  let ?q = "line_feeds s a b ! ordinal"
  have "?q \<in> set (line_feeds s a b)" using assms by simp
  then have q: "a \<le> ?q" "?q < b" "s ! ?q = CHR 0x0A" by (auto simp: line_feeds_def)
  have "sorted_wrt (<) (line_feeds s a b)" by (simp add: line_feeds_def sorted_wrt_filter)
  then have "takeWhile (\<lambda>p. p < ?q) (line_feeds s a b) = take ordinal (line_feeds s a b)"
    using assms by (intro takeWhile_eq_take_P_nth) (auto simp: sorted_wrt_iff_nth_less)
  then have "length (line_feeds s a ?q) = ordinal"
    using takeWhile_line_feeds [of a ?q b s] q assms by simp
  with q show ?thesis by simp
qed

sublocale text_storage \<subseteq> counted_leaf "text_ops same" chunk_as_str chunk_ok text_starts
    "\<lambda>c. c = CHR 0x0A" "\<lambda>c. c \<noteq> CHR 0x0D"
proof
  fix leaf :: TextChunk and p ordinal :: nat
  assume ok: "chunk_ok leaf"
  show "leaf_len (text_ops same) leaf = length (chunk_as_str leaf)"
    using ok by (simp add: text_ops_def length_chunk_as_str)
  show "chunk_as_str leaf \<noteq> [] \<and> text_starts (hd (chunk_as_str leaf))"
    using chunk_as_str_nonempty [OF ok] utf8_like_hd [OF chunk_as_str_utf8 [OF ok]] by simp
  {
    assume "0 < p" "p < length (chunk_as_str leaf)" "text_starts (chunk_as_str leaf ! p)"
    then show "\<exists>a b. leaf_split_at (text_ops same) leaf p = (Some a, Some b) \<and> chunk_ok a \<and> chunk_ok b \<and>
        chunk_as_str a = take p (chunk_as_str leaf) \<and> chunk_as_str b = drop p (chunk_as_str leaf)"
      using chunk_split_at_ok [OF ok] by (simp add: text_ops_def)
  }
  assume plain: "list_all (\<lambda>c. c \<noteq> CHR 0x0D) (chunk_as_str leaf)"
  let ?s = "storage leaf" and ?a = "chunk_start leaf" and ?b = "chunk_end leaf"
  note breaks = chunk_line_breaks_plain [OF ok plain] and fields = chunk_ok_fields [OF ok]
  have feeds: "length (line_feeds ?s ?a (?a + q)) = length (filter (\<lambda>c. c = CHR 0x0A) (take q (chunk_as_str leaf)))"
    if "q \<le> length (chunk_as_str leaf)" for q
    using that fields(1,2) length_chunk_as_str [OF ok]
    by (simp add: length_line_feeds chunk_as_str_slice [OF ok] slice_def chunk_len_def min_absorb1)
  have all: "length (line_feeds ?s ?a ?b) = length (filter (\<lambda>c. c = CHR 0x0A) (chunk_as_str leaf))"
    using fields(2) by (simp add: length_line_feeds chunk_as_str_slice [OF ok])
  show "leaf_secondary_len (text_ops same) leaf = length (filter (\<lambda>c. c = CHR 0x0A) (chunk_as_str leaf))"
    by (simp add: text_ops_def breaks all)
  {
    assume "p \<le> length (chunk_as_str leaf)"
    then show "leaf_secondary_count_before (text_ops same) leaf p =
        length (filter (\<lambda>c. c = CHR 0x0A) (take p (chunk_as_str leaf)))"
      using feeds [of p] takeWhile_line_feeds [of ?a "?a + p" ?b ?s] length_chunk_as_str [OF ok] fields(1)
      by (simp add: text_ops_def chunk_secondary_count_before_def partition_point_def breaks chunk_len_def
          min_absorb1)
  }
  {
    assume "ordinal < length (filter (\<lambda>c. c = CHR 0x0A) (chunk_as_str leaf))"
    then have ordinal: "ordinal < length (line_feeds ?s ?a ?b)" by (simp add: all)
    let ?q = "line_feeds ?s ?a ?b ! ordinal"
    note q = line_feeds_nth [OF ordinal]
    have "?q - ?a < length (chunk_as_str leaf)"
      using q length_chunk_as_str [OF ok] by (simp add: chunk_len_def diff_less_mono)
    moreover have "chunk_as_str leaf ! (?q - ?a) = CHR 0x0A"
      using q nth_chunk_as_str [OF ok, of "?q - ?a"] by (simp add: chunk_len_def diff_less_mono)
    ultimately show "\<exists>p. leaf_secondary_position (text_ops same) leaf ordinal = Some p \<and> p < length (chunk_as_str leaf) \<and>
        chunk_as_str leaf ! p = CHR 0x0A \<and>
        length (filter (\<lambda>c. c = CHR 0x0A) (take p (chunk_as_str leaf))) = ordinal"
      using q ordinal feeds [of "?q - ?a"]
      by (simp add: text_ops_def chunk_secondary_position_def breaks)
  }
next
  fix l r assume "chunk_ok l" "chunk_ok r"
  then show "list_all chunk_ok (leaf_rechunk_pair (text_ops same) l r) \<and>
      concat (map chunk_as_str (leaf_rechunk_pair (text_ops same) l r)) = chunk_as_str l @ chunk_as_str r"
    using chunk_rechunk_pair_ok by (simp add: text_ops_def)
qed

section \<open>A chunked text is its string\<close>

abbreviation text_of :: "ChunkedText \<Rightarrow> string" where
  "text_of t \<equiv> flat chunk_as_str t"

definition text_ok :: "(TextChunk \<Rightarrow> TextChunk \<Rightarrow> bool) \<Rightarrow> ChunkedText \<Rightarrow> bool" where
  "text_ok same t = root_ok (text_ops same) chunk_ok t"

lemma can_cut_boundary: "p \<le> length s \<Longrightarrow> can_cut text_starts s p = is_char_boundary s p"
  by (auto simp: can_cut_def is_char_boundary_def)

lemma concat_utf8_like: "list_all utf8_like ss \<Longrightarrow> utf8_like (concat ss)"
  by (induction ss) (simp_all add: utf8_like_append)

lemma text_of_utf8: "text_ok same t \<Longrightarrow> utf8_like (text_of t)"
  unfolding flat_def text_ok_def
  by (intro concat_utf8_like, cases t) (fastforce simp: list_all_iff chunk_as_str_utf8 dest: tree_ok_leaves)+

lemma slice_hd: "slice s a b \<noteq> [] \<Longrightarrow> a < length s \<and> hd (slice s a b) = s ! a"
  by (auto simp: slice_def hd_drop_conv_nth)

named_theorems text_simps \<open>the operations of a text on its string\<close>

context text_storage
begin

lemma text_len_string [text_simps]: "text_ok same t \<Longrightarrow> text_len same t = length (text_of t)"
  by (simp add: text_len_def text_ok_def seq_len_flat)

lemma text_is_empty_string [text_simps]: "text_ok same t \<Longrightarrow> text_is_empty same t = (text_of t = [])"
  by (simp add: text_is_empty_def text_len_string)

lemma text_byte_at_string [text_simps]: "text_ok same t \<Longrightarrow> text_byte_at same t p = byte_at (text_of t) p"
  using locate_flat [of t p]
  by (auto simp: text_ok_def text_byte_at_def byte_at_def split: option.split prod.split)

lemma text_is_char_boundary_string [text_simps]:
  "text_ok same t \<Longrightarrow> text_is_char_boundary same t p = is_char_boundary (text_of t) p"
  by (auto simp: text_is_char_boundary_def is_char_boundary_def text_len_string text_byte_at_string byte_at_def)

lemma clamp_boundary_string [text_simps]:
  assumes "text_ok same t"
  shows "clamp_boundary same t p = clamp_to_char_boundary (text_of t) p"
proof -
  have "clamp_loop same t p = back_to_boundary (text_of t) p" for p
  proof (induction "text_of t" p rule: back_to_boundary.induct)
    case (1 p)
    then show ?case
      by (subst clamp_loop.simps, subst back_to_boundary.simps)
        (simp add: text_is_char_boundary_string [OF assms])
  qed
  then show ?thesis
    by (simp add: clamp_boundary_def clamp_to_char_boundary_def text_len_string [OF assms])
qed

lemma range_string_string [text_simps]:
  assumes "text_ok same t"
  shows "range_string same t a b =
    Some (slice (text_of t) (clamp_to_char_boundary (text_of t) a) (clamp_to_char_boundary (text_of t) b))"
proof -
  let ?s = "text_of t"
  let ?a = "clamp_to_char_boundary ?s a" and ?b = "clamp_to_char_boundary ?s b"
  let ?visits = "visit_range (text_ops same) t ?a ?b"
  have ok: "root_ok (text_ops same) chunk_ok t" using assms by (simp add: text_ok_def)
  show ?thesis
  proof (cases "?b < ?a")
    case True
    then show ?thesis by (simp add: range_string_def text_simps assms slice_def)
  next
    case False
    have cuts: "can_cut text_starts ?s ?a" "can_cut text_starts ?s ?b"
      by (simp_all add: can_cut_boundary clamp_to_char_boundary_le)
    have get: "str_get (chunk_as_str chunk) p q = Some (take (q - p) (drop p (chunk_as_str chunk)))"
      if "(chunk, p, q) \<in> set ?visits" for chunk p q
    proof -
      have "p < q" "q \<le> length (chunk_as_str chunk)" "can_cut text_starts (chunk_as_str chunk) p"
          "can_cut text_starts (chunk_as_str chunk) q"
        using visit_range_bounds [OF ok _ _ cuts that] False clamp_to_char_boundary_le by auto
      then show ?thesis by (simp add: str_get_def can_cut_boundary slice_def)
    qed
    let ?pieces = "map (\<lambda>(chunk, p, q). str_get (chunk_as_str chunk) p q) ?visits"
    have pieces: "?pieces = map (\<lambda>(chunk, p, q). Some (take (q - p) (drop p (chunk_as_str chunk)))) ?visits"
      using get by auto
    have "concat (map (\<lambda>piece. case piece of None \<Rightarrow> [] | Some s \<Rightarrow> s) ?pieces) =
        concat (map (\<lambda>(chunk, p, q). take (q - p) (drop p (chunk_as_str chunk))) ?visits)"
      unfolding pieces by (simp add: comp_def split_def)
    also have "\<dots> = slice ?s ?a ?b"
      using visit_range_flat [OF ok, of ?a ?b] False clamp_to_char_boundary_le by (simp add: slice_def)
    finally have result: "concat (map (\<lambda>piece. case piece of None \<Rightarrow> [] | Some s \<Rightarrow> s) ?pieces) = slice ?s ?a ?b" .
    have valid: "list_all (\<lambda>piece. piece \<noteq> None) ?pieces" unfolding pieces by (auto simp: list_all_iff)
    have "length (slice ?s ?a ?b) = ?b - ?a"
      using clamp_to_char_boundary_le(2) [of ?s b] by (simp add: slice_def)
    then show ?thesis
      using False valid result
      by (simp add: range_string_def text_simps assms del: map_map)
  qed
qed

lemma to_flat_string_string [text_simps]: "text_ok same t \<Longrightarrow> to_flat_string same t = text_of t"
  by (simp add: to_flat_string_def text_simps slice_def)

lemma matches_loop_spec:
  assumes "list_all chunk_ok chunks"
  shows "matches_loop other offset chunks = Some end_offset \<longleftrightarrow>
    end_offset = offset + length (concat (map chunk_as_str chunks)) \<and>
    (chunks = [] \<or> is_char_boundary other offset \<and> is_char_boundary other end_offset \<and>
       slice other offset end_offset = concat (map chunk_as_str chunks))"
  using assms
proof (induction chunks arbitrary: offset)
  case Nil
  then show ?case by auto
next
  case (Cons chunk chunks)
  let ?m = "offset + chunk_len chunk" and ?rest = "concat (map chunk_as_str chunks)"
  have ok: "chunk_ok chunk" "list_all chunk_ok chunks" using Cons.prems by simp_all
  have len: "length (chunk_as_str chunk) = chunk_len chunk" "chunk_as_str chunk \<noteq> []"
    using ok(1) by (simp_all add: length_chunk_as_str chunk_as_str_nonempty)
  show ?case
  proof (cases "str_get other offset ?m = Some (chunk_as_str chunk)")
    case True
    then have get: "is_char_boundary other offset" "is_char_boundary other ?m" "slice other offset ?m = chunk_as_str chunk"
      by (auto simp: str_get_def split: if_splits)
    have "slice other offset (?m + length ?rest) = chunk_as_str chunk @ slice other ?m (?m + length ?rest)"
      by (simp add: get(3) flip: slice_slice_append [of offset ?m "?m + length ?rest"])
    then show ?thesis using True Cons.IH [OF ok(2), of ?m] get len by (auto simp: add.assoc)
  next
    case False
    have "\<not> (is_char_boundary other offset \<and> is_char_boundary other end_offset \<and>
        slice other offset end_offset = chunk_as_str chunk @ ?rest)"
      if "end_offset = offset + (chunk_len chunk + length ?rest)"
    proof
      assume *: "is_char_boundary other offset \<and> is_char_boundary other end_offset \<and>
        slice other offset end_offset = chunk_as_str chunk @ ?rest"
      then have end_le: "end_offset \<le> length other" using is_char_boundary_le by blast
      have split: "slice other offset ?m @ slice other ?m end_offset = chunk_as_str chunk @ ?rest"
        using * that by (simp add: slice_slice_append)
      moreover have "length (slice other offset ?m) = chunk_len chunk" using end_le that by (simp add: slice_def)
      ultimately have parts: "slice other offset ?m = chunk_as_str chunk" "slice other ?m end_offset = ?rest"
        using len(1) by (metis append_eq_append_conv)+
      have "is_char_boundary other ?m"
      proof (cases chunks)
        case Nil
        then show ?thesis using * that by simp
      next
        case (Cons c cs)
        then have "?rest \<noteq> []" "\<not> is_continuation (hd ?rest)"
          using ok(2) utf8_like_hd [OF chunk_as_str_utf8, of c] chunk_as_str_nonempty [of c] by auto
        then have "?m < length other" "\<not> is_continuation (other ! ?m)"
          using slice_hd [of other ?m end_offset] by (simp_all add: parts(2))
        then show ?thesis by (simp add: is_char_boundary_def)
      qed
      then show False using False * parts(1) by (simp add: str_get_def)
    qed
    then show ?thesis using False len by (auto simp: add.assoc)
  qed
qed

lemma matches_str_string [text_simps]:
  assumes "text_ok same t"
  shows "matches_str same t other \<longleftrightarrow> text_of t = other"
proof -
  have "list_all chunk_ok (for_each_leaf t)"
    using assms by (cases t) (auto simp: text_ok_def dest: tree_ok_leaves)
  note spec = matches_loop_spec [OF this, of other 0 "length other"]
  show ?thesis
    unfolding matches_str_def spec text_len_string [OF assms]
    by (auto simp: flat_def slice_def)
qed

text \<open>Cutting a piece out, and replacing a range by a text.\<close>

lemma text_slice_string:
  assumes "text_ok same t"
  defines "s \<equiv> text_of t"
  shows "text_slice same t a b = None \<longleftrightarrow> clamp_to_char_boundary s b < clamp_to_char_boundary s a"
    and "text_slice same t a b = Some u \<Longrightarrow>
      text_ok same u \<and> text_of u = slice s (clamp_to_char_boundary s a) (clamp_to_char_boundary s b)"
proof -
  let ?a = "clamp_to_char_boundary s a" and ?b = "clamp_to_char_boundary s b"
  have ok: "root_ok (text_ops same) chunk_ok t" using assms(1) by (simp add: text_ok_def)
  obtain x tail where split: "split_node (text_ops same) t ?a = (x, tail)" by fastforce
  obtain root y where cut: "split_node (text_ops same) tail (?b - ?a) = (root, y)" by fastforce
  have slice_def': "text_slice same t a b = (if ?b < ?a then None else Some root)"
    by (simp add: text_slice_def text_simps assms(1) s_def [symmetric] split cut)
  then show "text_slice same t a b = None \<longleftrightarrow> ?b < ?a" by simp
  have "can_cut text_starts s ?a" by (simp add: can_cut_boundary clamp_to_char_boundary_le)
  then have tail: "root_ok (text_ops same) chunk_ok tail" "text_of tail = drop ?a s"
    using split_node_flat [OF ok, of ?a] split by (simp_all add: s_def)
  have "can_cut text_starts (drop ?a s) (?b - ?a)" if "?a \<le> ?b"
  proof -
    have "can_cut text_starts s ?b" by (simp add: can_cut_boundary clamp_to_char_boundary_le)
    then show ?thesis using that clamp_to_char_boundary_le(2) [of s a] by (auto simp: can_cut_def)
  qed
  then have "root_ok (text_ops same) chunk_ok root \<and> text_of root = slice s ?a ?b" if "?a \<le> ?b"
    using split_node_flat [OF tail(1), of "?b - ?a"] that cut tail(2) by (simp add: slice_def)
  then show "text_slice same t a b = Some u \<Longrightarrow> text_ok same u \<and> text_of u = slice s ?a ?b"
    by (auto simp: slice_def' text_ok_def split: if_splits)
qed

lemma from_storage_string:
  assumes "utf8_like s"
  shows "text_ok same (text_from_shared_string same s)" "text_of (text_from_shared_string same s) = s"
    "text_ok same (text_from_string same s)" "text_of (text_from_string same s) = s"
  using from_leaves_flat split_text_chunks_ok [OF assms]
  by (simp_all add: text_ok_def text_from_shared_string_def text_from_string_def split_text_chunks_from_string_def)

lemma replace_range_chunked_string:
  assumes "text_ok same t" "text_ok same u"
  defines "s \<equiv> text_of t"
  shows "snd (replace_range_chunked same t a b u) = (clamp_to_char_boundary s a \<le> clamp_to_char_boundary s b) \<and>
    text_ok same (fst (replace_range_chunked same t a b u)) \<and>
    text_of (fst (replace_range_chunked same t a b u)) =
      (if clamp_to_char_boundary s a \<le> clamp_to_char_boundary s b
       then take (clamp_to_char_boundary s a) s @ text_of u @ drop (clamp_to_char_boundary s b) s else s)"
proof -
  let ?a = "clamp_to_char_boundary s a" and ?b = "clamp_to_char_boundary s b"
  have "can_cut text_starts s ?a" "can_cut text_starts s ?b"
    by (simp_all add: can_cut_boundary clamp_to_char_boundary_le)
  then show ?thesis
    using assms(1,2) seq_replace_range_flat [of t u ?a ?b] clamp_to_char_boundary_le(2)
    by (auto simp: replace_range_chunked_def text_simps s_def text_ok_def)
qed

lemma replace_with_string:
  "text_replace_range same t a b s = replace_range_chunked same t a b (text_from_string same s)"
  "replace_range_shared same t a b s = replace_range_chunked same t a b (text_from_shared_string same s)"
  by (simp_all add: text_replace_range_def replace_range_chunked_def replace_range_shared_def
      text_from_string_def text_from_shared_string_def)

text \<open>The line queries on a text without carriage returns.\<close>

lemma line_feed_total:
  "text_ok same t \<Longrightarrow> list_all (\<lambda>c. c \<noteq> CHR 0x0D) (text_of t) \<Longrightarrow>
     seq_secondary_len (text_ops same) t = length (filter (\<lambda>c. c = CHR 0x0A) (text_of t))"
  by (rule seq_secondary_len_flat) (simp_all add: text_ok_def)

lemma line_start_string:
  assumes "text_ok same t" "CHR 0x0D \<notin> set (text_of t)" "p \<le> length (text_of t)"
  shows "line_start same t p = p - length (takeWhile (\<lambda>c. c \<noteq> CHR 0x0A) (rev (take p (text_of t))))"
proof -
  let ?s = "text_of t" and ?lf = "\<lambda>c. c = CHR 0x0A"
  let ?k = "length (filter ?lf (take p ?s))"
  have ok: "root_ok (text_ops same) chunk_ok t" and plain: "list_all (\<lambda>c. c \<noteq> CHR 0x0D) ?s"
    using assms by (auto simp: text_ok_def list_all_iff)
  have index: "line_index_for_position same t p = ?k"
    using assms secondary_count_before_flat [OF ok plain assms(3)]
    by (simp add: line_index_for_position_def text_simps min_absorb1)
  show ?thesis
  proof (cases "?k = 0")
    case True
    then have "takeWhile (\<lambda>c. c \<noteq> CHR 0x0A) (rev (take p ?s)) = rev (take p ?s)"
      by (auto simp: takeWhile_eq_all_conv filter_empty_conv)
    then have "length (takeWhile (\<lambda>c. c \<noteq> CHR 0x0A) (rev (take p ?s))) = p"
      using assms(3) by (metis length_rev length_take min_absorb2)
    then show ?thesis using True assms(3) by (simp add: line_start_def line_start_for_index_def index)
  next
    case False
    have "length (filter ?lf ?s) = ?k + length (filter ?lf (drop p ?s))"
      by (metis append_take_drop_id filter_append length_append)
    then have "?k - 1 < length (filter ?lf ?s)" using False by linarith
    then obtain q where q: "nth_line_break same t (?k - 1) = Some q"
      using nth_secondary_flat(1) [OF ok plain, of "?k - 1"] by (auto simp: nth_line_break_def)
    have spec: "q < length ?s" "?s ! q = CHR 0x0A" "length (filter ?lf (take q ?s)) = ?k - 1"
      using nth_secondary_flat(2) [OF ok plain, of "?k - 1" q] q by (simp_all add: nth_line_break_def)
    have "q < p"
    proof (rule ccontr)
      assume "\<not> q < p"
      then have "take q ?s = take p ?s @ take (q - p) (drop p ?s)" by (simp flip: take_add)
      then have "length (filter ?lf (take q ?s)) = ?k + length (filter ?lf (take (q - p) (drop p ?s)))" by simp
      then show False using spec(3) False by linarith
    qed
    then have split: "take p ?s = take q ?s @ CHR 0x0A # slice ?s (q + 1) p"
      using spec(1,2) by (simp add: slice_def)
        (metis Cons_nth_drop_Suc Suc_diff_Suc le_add_diff_inverse less_imp_le take_Suc_Cons take_add)
    then have "filter ?lf (slice ?s (q + 1) p) = []" using spec(3) False by simp
    then have "takeWhile (\<lambda>c. c \<noteq> CHR 0x0A) (rev (take p ?s)) = rev (slice ?s (q + 1) p)"
      unfolding split by (simp add: takeWhile_append filter_empty_conv)
    moreover have "length (slice ?s (q + 1) p) = p - (q + 1)" using assms(3) by (simp add: slice_def)
    ultimately show ?thesis
      using False q \<open>q < p\<close> by (simp add: line_start_def line_start_for_index_def index)
  qed
qed

lemma line_end_string:
  assumes "text_ok same t" "CHR 0x0D \<notin> set (text_of t)" "p \<le> length (text_of t)"
  shows "line_end same t p = p + length (takeWhile (\<lambda>c. c \<noteq> CHR 0x0A) (drop p (text_of t)))"
proof -
  let ?s = "text_of t" and ?lf = "\<lambda>c. c = CHR 0x0A"
  let ?k = "length (filter ?lf (take p ?s))"
  have ok: "root_ok (text_ops same) chunk_ok t" and plain: "list_all (\<lambda>c. c \<noteq> CHR 0x0D) ?s"
    using assms by (auto simp: text_ok_def list_all_iff)
  have index: "line_index_for_position same t p = ?k"
    using assms secondary_count_before_flat [OF ok plain assms(3)]
    by (simp add: line_index_for_position_def text_simps min_absorb1)
  have total: "length (filter ?lf ?s) = ?k + length (filter ?lf (drop p ?s))"
    by (metis append_take_drop_id filter_append length_append)
  show ?thesis
  proof (cases "nth_line_break same t ?k")
    case None
    then have "filter ?lf (drop p ?s) = []"
      using nth_secondary_flat(1) [OF ok plain, of ?k] total by (simp add: nth_line_break_def)
    then have "takeWhile (\<lambda>c. c \<noteq> CHR 0x0A) (drop p ?s) = drop p ?s"
      by (auto simp: takeWhile_eq_all_conv filter_empty_conv)
    then have "length (takeWhile (\<lambda>c. c \<noteq> CHR 0x0A) (drop p ?s)) = length ?s - p"
      by (metis length_drop)
    then show ?thesis using None assms by (simp add: line_end_def index text_simps)
  next
    case (Some q)
    have spec: "q < length ?s" "?s ! q = CHR 0x0A" "length (filter ?lf (take q ?s)) = ?k"
      using nth_secondary_flat(2) [OF ok plain, of ?k q] Some by (simp_all add: nth_line_break_def)
    have "p \<le> q"
    proof (rule ccontr)
      assume "\<not> p \<le> q"
      then have "take p ?s = take q ?s @ take (p - q) (drop q ?s)" by (simp flip: take_add)
      moreover have "take (p - q) (drop q ?s) \<noteq> []" "hd (take (p - q) (drop q ?s)) = CHR 0x0A"
        using \<open>\<not> p \<le> q\<close> spec(1,2) by (simp_all add: hd_drop_conv_nth)
      ultimately show False using spec(3) by (cases "take (p - q) (drop q ?s)") simp_all
    qed
    then have "take q ?s = take p ?s @ take (q - p) (drop p ?s)" by (simp flip: take_add)
    then have none: "filter ?lf (take (q - p) (drop p ?s)) = []" using spec(3) by simp
    have "drop p ?s = take (q - p) (drop p ?s) @ drop q ?s"
      using \<open>p \<le> q\<close> by (metis add.commute append_take_drop_id drop_drop le_add_diff_inverse)
    moreover have "drop q ?s = CHR 0x0A # drop (Suc q) ?s"
      using spec(1,2) by (simp flip: Cons_nth_drop_Suc)
    moreover have "takeWhile (\<lambda>c. c \<noteq> CHR 0x0A) (take (q - p) (drop p ?s) @ CHR 0x0A # drop (Suc q) ?s) =
        take (q - p) (drop p ?s)"
      using none by (simp add: takeWhile_append filter_empty_conv)
    ultimately have "takeWhile (\<lambda>c. c \<noteq> CHR 0x0A) (drop p ?s) = take (q - p) (drop p ?s)" by simp
    then show ?thesis using Some \<open>p \<le> q\<close> spec(1) by (simp add: line_end_def index)
  qed
qed

end

text \<open>The interpretation that compares contents, for texts in one process without sharing in mind.\<close>

definition same_contents :: "TextChunk \<Rightarrow> TextChunk \<Rightarrow> bool" where
  "same_contents l r \<longleftrightarrow> storage l = storage r \<and> storage_line_breaks l = storage_line_breaks r"

interpretation contents: text_storage same_contents
  by unfold_locales (simp add: same_contents_def)

section \<open>Edits of a text\<close>

type_synonym text_edit = "nat \<times> nat \<times> string"

fun edit_text :: "(TextChunk \<Rightarrow> TextChunk \<Rightarrow> bool) \<Rightarrow> ChunkedText \<Rightarrow> text_edit \<Rightarrow> ChunkedText" where
  "edit_text same t (a, b, inserted) = fst (text_replace_range same t a b inserted)"

text \<open>The same edit on a string, with both ends moved back to character boundaries.\<close>

fun edit_string :: "string \<Rightarrow> text_edit \<Rightarrow> string" where
  "edit_string s (a, b, inserted) =
     (if clamp_to_char_boundary s a \<le> clamp_to_char_boundary s b
      then take (clamp_to_char_boundary s a) s @ inserted @ drop (clamp_to_char_boundary s b) s
      else s)"

lemma edit_text_string:
  assumes "text_storage same" "text_ok same t" "utf8_like (snd (snd e))"
  shows "text_ok same (edit_text same t e) \<and> text_of (edit_text same t e) = edit_string (text_of t) e"
proof -
  obtain a b inserted where e: "e = (a, b, inserted)" by (cases e)
  show ?thesis
    using text_storage.replace_range_chunked_string [OF assms(1,2), of "text_from_string same inserted" a b]
      text_storage.from_storage_string [OF assms(1), of inserted] assms(3)
    by (simp add: e text_storage.replace_with_string [OF assms(1)])
qed

lemma edits_text_string:
  assumes "text_storage same" "text_ok same t" "\<forall>e \<in> set edits. utf8_like (snd (snd e))"
  shows "text_ok same (foldl (edit_text same) t edits) \<and>
    text_of (foldl (edit_text same) t edits) = foldl edit_string (text_of t) edits"
  using assms(2,3)
proof (induction edits arbitrary: t)
  case (Cons e edits)
  then show ?case using edit_text_string [OF assms(1) Cons.prems(1), of e] by simp
qed simp

text \<open>
  C5. A chunked text is its string. Whatever edits are made, at whatever positions and however the chunks are
  shared, the text read back is the string with the same edits, its length is the cached one, and the
  tree stays shallow: it has at least two to the power of half its height chunks, each of them not empty.
\<close>
theorem chunked_text_is_its_string:
  assumes "text_storage same" "utf8_like s" "\<forall>e \<in> set edits. utf8_like (snd (snd e))"
  defines "t \<equiv> foldl (edit_text same) (text_from_string same s) edits"
  shows "to_flat_string same t = foldl edit_string s edits \<and>
    text_len same t = length (foldl edit_string s edits) \<and>
    (case t of
       None \<Rightarrow> foldl edit_string s edits = []
     | Some node \<Rightarrow> 2 ^ (node_height node div 2) \<le> node_leaf_count node \<and>
         node_leaf_count node \<le> length (foldl edit_string s edits))"
proof -
  have t: "text_ok same t" "text_of t = foldl edit_string s edits"
    using edits_text_string [OF assms(1) text_storage.from_storage_string(3) [OF assms(1,2)] assms(3)]
      text_storage.from_storage_string(4) [OF assms(1,2)] by (simp_all add: t_def)
  show ?thesis
  proof (cases t)
    case None
    then show ?thesis
      using t text_storage.to_flat_string_string [OF assms(1) t(1)] text_storage.text_len_string [OF assms(1) t(1)]
      by simp
  next
    case (Some node)
    have ok: "tree_ok (text_ops same) chunk_ok node" using t(1) Some by (simp add: text_ok_def)
    have "length leaves \<le> length (concat (map chunk_as_str leaves))" if "list_all chunk_ok leaves" for leaves
      using that
    proof (induction leaves)
      case (Cons c cs)
      then show ?case using chunk_as_str_nonempty [of c] by (cases "chunk_as_str c") simp_all
    qed simp
    then have "node_leaf_count node \<le> length (text_of t)"
      using tree_ok_leaves [OF ok] tree_ok_leaf_count [OF ok] by (simp add: Some flat_def)
    then show ?thesis
      using t text_storage.to_flat_string_string [OF assms(1) t(1)] text_storage.text_len_string [OF assms(1) t(1)]
        tree_ok_shallow [OF ok] tree_ok_leaf_count [OF ok] Some by simp
  qed
qed

theorem chunked_text_is_its_string_witness:
  "to_flat_string same_contents
     (foldl (edit_text same_contents) (text_from_string same_contents ''select 1'') [(7, 8, ''2, 3''), (0, 0, ''-- '')]) =
   ''-- select 2, 3''"
proof -
  have "utf8_like ''select 1'' \<and> utf8_like ''2, 3'' \<and> utf8_like ''-- ''" by code_simp
  moreover have "foldl edit_string ''select 1'' [(7, 8, ''2, 3''), (0, 0, ''-- '')] = ''-- select 2, 3''"
    by code_simp
  ultimately show ?thesis
    using chunked_text_is_its_string [OF contents.text_storage_axioms, of "''select 1''"
        "[(7, 8, ''2, 3''), (0, 0, ''-- '')]"] by simp
qed

section \<open>Lines of a text\<close>

text \<open>
  On a text without carriage returns the line queries, answered from the counts cached in the tree, are
  those of the string: a line begins after the last line feed before the position and ends before the
  first one from it on, and there is one line more than line feeds.
\<close>
lemma lines_of_a_plain_text:
  assumes "text_storage same" "text_ok same t" "CHR 0x0D \<notin> set (to_flat_string same t)"
    and "p \<le> length (to_flat_string same t)" "to_flat_string same t \<noteq> []"
  defines "s \<equiv> to_flat_string same t"
  shows "line_start same t p = p - length (takeWhile (\<lambda>c. c \<noteq> CHR 0x0A) (rev (take p s))) \<and>
    line_end same t p = p + length (takeWhile (\<lambda>c. c \<noteq> CHR 0x0A) (drop p s)) \<and>
    line_count same t = length (filter (\<lambda>c. c = CHR 0x0A) s) + 1"
proof -
  have s: "s = text_of t" using text_storage.to_flat_string_string [OF assms(1,2)] by (simp add: s_def)
  note p = assms(3-5) [folded s_def, unfolded s]
  have "list_all (\<lambda>c. c \<noteq> CHR 0x0D) (text_of t)" using p(1) by (auto simp: list_all_iff)
  then have "seq_secondary_len (text_ops same) t = length (filter (\<lambda>c. c = CHR 0x0A) (text_of t))"
    by (rule text_storage.line_feed_total [OF assms(1,2)])
  then show ?thesis
    using text_storage.line_start_string [OF assms(1,2) p(1,2)] text_storage.line_end_string [OF assms(1,2) p(1,2)] p(3)
      text_storage.text_is_empty_string [OF assms(1,2)]
    by (simp add: s line_count_def)
qed

lemma lines_of_a_plain_text_witness:
  "line_start same_contents (text_from_string same_contents (''a'' @ [CHR 0x0A] @ ''bc'')) 3 = 2"
proof -
  let ?s = "''a'' @ [CHR 0x0A] @ ''bc''"
  have utf8: "utf8_like ?s" by code_simp
  note t = contents.from_storage_string(3,4) [OF utf8]
  have "to_flat_string same_contents (text_from_string same_contents ?s) = ?s"
    using contents.to_flat_string_string [OF t(1)] t(2) by simp
  then show ?thesis
    using lines_of_a_plain_text [OF contents.text_storage_axioms t(1), of 3] by simp
qed

text \<open>
  A line break that is cut is lost. The storage counts a carriage return and the line feed after it as one
  break, at the line feed; a chunk that ends between the two has none, although its text ends a line.
\<close>

lemma small_text_one_chunk:
  assumes "s \<noteq> []" "length s \<le> TEXT_CHUNK_TARGET_BYTES"
  shows "split_text_chunks_from_storage s =
    [chunk_from_storage s (metadata_loop s 0) (list_all is_ascii s) 0 (length s)]"
proof -
  have "chunk_end_from s 0 = length s"
    using assms by (simp add: chunk_end_from_def min_absorb2 shrink_to_boundary.simps Let_def)
  then show ?thesis
    using assms(1)
    by (simp add: split_text_chunks_from_storage_def text_storage_metadata_def split_chunks_loop.simps)
qed

lemma cut_line_break_is_lost:
  defines "crlf \<equiv> [CHR ''a'', CHR 0x0D, CHR 0x0A]" and "cr \<equiv> [CHR ''a'', CHR 0x0D]"
  shows "line_count same_contents (edit_text same_contents (text_from_string same_contents crlf) (2, 3, [])) = 1"
    and "line_count same_contents (text_from_string same_contents cr) = 2"
    and "to_flat_string same_contents (edit_text same_contents (text_from_string same_contents crlf) (2, 3, [])) = cr"
proof -
  have meta: "metadata_loop crlf 0 = [2] \<and> list_all is_ascii crlf" "metadata_loop cr 0 = [1] \<and> list_all is_ascii cr"
    unfolding crlf_def cr_def by code_simp+
  have "length crlf = 3" "crlf \<noteq> []" "length cr = 2" "cr \<noteq> []" by (simp_all add: crlf_def cr_def)
  then have one: "text_from_string same_contents crlf = Some (Leaf (chunk_from_storage crlf [2] True 0 3))"
      "text_from_string same_contents cr = Some (Leaf (chunk_from_storage cr [1] True 0 2))"
    using meta
    by (simp_all add: text_from_string_def split_text_chunks_from_string_def from_leaves_def small_text_one_chunk
        TEXT_CHUNK_TARGET_BYTES_def)
  have cut: "edit_text same_contents (text_from_string same_contents crlf) (2, 3, []) =
      Some (Leaf (chunk_from_storage crlf [2] True 0 2))"
    unfolding one unfolding crlf_def by code_simp
  show "line_count same_contents (edit_text same_contents (text_from_string same_contents crlf) (2, 3, [])) = 1"
    unfolding cut unfolding crlf_def by code_simp
  show "line_count same_contents (text_from_string same_contents cr) = 2"
    unfolding one unfolding cr_def by code_simp
  show "to_flat_string same_contents (edit_text same_contents (text_from_string same_contents crlf) (2, 3, [])) = cr"
    unfolding cut unfolding crlf_def cr_def by code_simp
qed

end
