(* ===== verification/Undo_History.thy ===== *)
theory Undo_History
  imports Chunked_Text
begin

text \<open>
  The undo history of an editor (\<^verbatim>\<open>src/ui/sql_editor/undo_history.rs\<close>). The history is a list of deltas from an
  anchor snapshot, with an index into it; edits of one word form a group that is undone as one step, a
  cursor move to a remote place is a delta of its own, and old deltas are folded into the anchor when the
  history gets too long. Undo and redo do not set the editor's buffer but send it one composite edit. Group
  numbers and byte counts are natural numbers; the saturating arithmetic of the source saturates beyond
  the size of the address space.
\<close>

section \<open>State\<close>

datatype EditGranularity = WordGranularity | OtherGranularity

datatype EditOperation = InsertOperation | DeleteOperation | ReplaceOperation | OtherOperation

record EditGroup =
  granularity :: EditGranularity
  operation :: EditOperation

record BufferEdit =
  edit_start :: nat
  deleted_len :: nat
  inserted_text :: string

definition REMOTE_EDIT_CURSOR_DISTANCE :: nat where
  "REMOTE_EDIT_CURSOR_DISTANCE = 5"

definition COMPOSITE_HISTORY_CONTEXT_BYTES :: nat where
  "COMPOSITE_HISTORY_CONTEXT_BYTES = 64"

definition MAX_WORD_UNDO_HISTORY :: nat where
  "MAX_WORD_UNDO_HISTORY = 500"

definition MAX_WORD_UNDO_HISTORY_BYTES :: nat where
  "MAX_WORD_UNDO_HISTORY_BYTES = 64 * 1024 * 1024"

record UndoSnapshot =
  snapshot_text :: ChunkedText
  cursor_pos :: nat

record UndoDelta =
  delta_start :: nat
  deleted_text :: ChunkedText
  delta_inserted :: string
  before_cursor :: nat
  after_cursor :: nat
  group_id :: nat

record WordUndoRedoState =
  anchor :: UndoSnapshot
  current :: UndoSnapshot
  deltas :: "UndoDelta list"
  history_total_bytes :: nat
  index :: nat
  active_group :: "(EditGroup \<times> nat) option"
  next_group_id :: nat
  applying_history :: bool
  suppress_next_remote_cursor_move :: bool
  finish_group_after_next_edit :: bool
  completion_edit_group_id :: "nat option"
  pending_history_text_snapshots :: "ChunkedText list"

type_synonym sharing = "TextChunk \<Rightarrow> TextChunk \<Rightarrow> bool"

definition new_snapshot :: "sharing \<Rightarrow> string \<Rightarrow> nat \<Rightarrow> UndoSnapshot" where
  "new_snapshot same s cursor = \<lparr>snapshot_text = text_from_string same s, cursor_pos = cursor\<rparr>"

definition history_from :: "UndoSnapshot \<Rightarrow> WordUndoRedoState" where
  "history_from snapshot =
     \<lparr>anchor = snapshot, current = snapshot, deltas = [], history_total_bytes = 0, index = 0,
      active_group = None, next_group_id = 1, applying_history = False,
      suppress_next_remote_cursor_move = False, finish_group_after_next_edit = False,
      completion_edit_group_id = None, pending_history_text_snapshots = []\<rparr>"

definition new_history :: "sharing \<Rightarrow> string \<Rightarrow> WordUndoRedoState" where
  "new_history same initial_text = history_from (new_snapshot same initial_text (length initial_text))"

definition reset_word_undo_state :: "sharing \<Rightarrow> WordUndoRedoState \<Rightarrow> WordUndoRedoState" where
  "reset_word_undo_state same st = history_from (new_snapshot same [] 0)"

definition reset_undo_redo_history :: "sharing \<Rightarrow> string \<Rightarrow> nat \<Rightarrow> WordUndoRedoState \<Rightarrow> WordUndoRedoState" where
  "reset_undo_redo_history same buffer insert_position st =
     history_from (new_snapshot same buffer (clamp_to_char_boundary buffer (min insert_position (length buffer))))"

definition normalize_index :: "sharing \<Rightarrow> WordUndoRedoState \<Rightarrow> WordUndoRedoState" where
  "normalize_index same st =
     (let st = (if index st > length (deltas st) then st\<lparr>index := length (deltas st), active_group := None\<rparr> else st)
      in st\<lparr>current := (current st)\<lparr>cursor_pos := clamp_boundary same (snapshot_text (current st)) (cursor_pos (current st))\<rparr>\<rparr>)"

section \<open>Applying edits and deltas\<close>

definition normalized_replace_range :: "sharing \<Rightarrow> ChunkedText \<Rightarrow> BufferEdit \<Rightarrow> nat \<times> nat" where
  "normalized_replace_range same t edit =
     (let replace_start = clamp_boundary same t (edit_start edit);
          delete_end = min (replace_start + deleted_len edit) (text_len same t);
          replace_end = max (clamp_boundary same t delete_end) replace_start
      in (replace_start, replace_end))"

definition apply_edit_to_snapshot :: "sharing \<Rightarrow> UndoSnapshot \<Rightarrow> BufferEdit \<Rightarrow> UndoSnapshot" where
  "apply_edit_to_snapshot same snapshot edit =
     (let (replace_start, replace_end) = normalized_replace_range same (snapshot_text snapshot) edit;
          t = fst (replace_range_shared same (snapshot_text snapshot) replace_start replace_end (inserted_text edit));
          cursor = min (replace_start + length (inserted_text edit)) (text_len same t)
      in \<lparr>snapshot_text = t, cursor_pos = clamp_boundary same t cursor\<rparr>)"

definition apply_delta_to_snapshot :: "sharing \<Rightarrow> UndoSnapshot \<Rightarrow> UndoDelta \<Rightarrow> bool \<Rightarrow> UndoSnapshot" where
  "apply_delta_to_snapshot same snapshot delta reverse =
     (let t = snapshot_text snapshot;
          start_pos = clamp_boundary same t (delta_start delta);
          delete_len = (if reverse then length (delta_inserted delta) else text_len same (deleted_text delta));
          end_pos = max (clamp_boundary same t (min (start_pos + delete_len) (text_len same t))) start_pos;
          u = (if reverse then fst (replace_range_chunked same t start_pos end_pos (deleted_text delta))
               else fst (replace_range_shared same t start_pos end_pos (delta_inserted delta)));
          cursor = (if reverse then before_cursor delta else after_cursor delta)
      in \<lparr>snapshot_text = u, cursor_pos = clamp_boundary same u cursor\<rparr>)"

section \<open>Grouping edits of one word\<close>

definition is_word_edit_char :: "char_tables \<Rightarrow> string \<Rightarrow> bool" where
  "is_word_edit_char tables ch \<longleftrightarrow> char_is_alphanumeric tables ch \<or> ch = ''_''"

definition ordered_range :: "sharing \<Rightarrow> ChunkedText \<Rightarrow> nat \<Rightarrow> nat \<Rightarrow> nat \<times> nat" where
  "ordered_range same t l r =
     (let l = clamp_boundary same t (min l (text_len same t));
          r = clamp_boundary same t (min r (text_len same t))
      in if l \<le> r then (l, r) else (r, l))"

definition unwrap_or_default :: "string option \<Rightarrow> string" where
  "unwrap_or_default s = (case s of None \<Rightarrow> [] | Some s \<Rightarrow> s)"

definition is_same_line_chunked :: "sharing \<Rightarrow> ChunkedText \<Rightarrow> nat \<Rightarrow> nat \<Rightarrow> bool" where
  "is_same_line_chunked same t l r =
     (let (start_pos, end_pos) = ordered_range same t l r
      in CHR 0x0A \<notin> set (unwrap_or_default (range_string same t start_pos end_pos)))"

definition cursor_distance_chars_chunked :: "sharing \<Rightarrow> ChunkedText \<Rightarrow> nat \<Rightarrow> nat \<Rightarrow> nat" where
  "cursor_distance_chars_chunked same t l r =
     (let (start_pos, end_pos) = ordered_range same t l r
      in if end_pos - start_pos \<ge> REMOTE_EDIT_CURSOR_DISTANCE * 4 then REMOTE_EDIT_CURSOR_DISTANCE
         else (case range_string same t start_pos end_pos of
                 None \<Rightarrow> end_pos - start_pos
               | Some s \<Rightarrow> length (text_chars s)))"

text \<open>The word at a position: the characters of the text before and from it on.\<close>

definition word_span_touching_offset :: "char_tables \<Rightarrow> string \<Rightarrow> nat \<Rightarrow> (nat \<times> nat) option" where
  "word_span_touching_offset tables s pos =
     (if s = [] then None
      else
        (let pos = clamp_to_char_boundary s (min pos (length s));
             prefix_chars = text_chars (take pos s);
             suffix_chars = text_chars (drop pos s);
             word = is_word_edit_char tables;
             anchored =
               (if pos < length s \<and> suffix_chars \<noteq> [] \<and> word (hd suffix_chars) then Some pos
                else if pos \<noteq> 0 \<and> prefix_chars \<noteq> [] \<and> word (last prefix_chars)
                then Some (pos - length (last prefix_chars)) else None)
         in case anchored of
              None \<Rightarrow> None
            | Some a \<Rightarrow>
                Some (a - length (concat (takeWhile word (rev (text_chars (take a s))))),
                      a + length (concat (takeWhile word (text_chars (drop a s)))))))"

definition edit_touches_word_span :: "nat \<Rightarrow> nat \<Rightarrow> nat \<Rightarrow> nat \<Rightarrow> bool" where
  "edit_touches_word_span edit_start_pos edit_end word_start word_end =
     (if edit_start_pos = edit_end then edit_start_pos \<ge> word_start \<and> edit_start_pos \<le> word_end
      else edit_start_pos < word_end \<and> edit_end > word_start)"

definition touches_current_word :: "char_tables \<Rightarrow> sharing \<Rightarrow> UndoSnapshot \<Rightarrow> nat \<Rightarrow> nat \<Rightarrow> bool" where
  "touches_current_word tables same snapshot edit_start_pos edit_end =
     (let t = snapshot_text snapshot;
          cursor = cursor_pos snapshot;
          window_start = clamp_boundary same t (cursor - 256);
          window_end = min (cursor + 256) (text_len same t);
          window = unwrap_or_default (range_string same t window_start window_end)
      in case word_span_touching_offset tables window (cursor - window_start) of
           None \<Rightarrow> edit_start_pos = cursor
         | Some (word_start, word_end) \<Rightarrow>
             edit_touches_word_span edit_start_pos edit_end (window_start + word_start) (window_start + word_end))"

definition should_merge_into_active_group ::
    "char_tables \<Rightarrow> sharing \<Rightarrow> WordUndoRedoState \<Rightarrow> EditGroup \<Rightarrow> BufferEdit \<Rightarrow> bool" where
  "should_merge_into_active_group tables same st edit_group edit =
     (case active_group st of
        None \<Rightarrow> False
      | Some (active, _) \<Rightarrow>
          if granularity active \<noteq> WordGranularity \<or> granularity edit_group \<noteq> WordGranularity \<or>
             operation active = OtherOperation \<or> operation edit_group = OtherOperation then False
          else if CHR 0x0A \<in> set (inserted_text edit) then False
          else
            (let t = snapshot_text (current st);
                 current_cursor = cursor_pos (current st);
                 (edit_start_pos, edit_end) = normalized_replace_range same t edit
             in if cursor_distance_chars_chunked same t current_cursor edit_start_pos \<ge> REMOTE_EDIT_CURSOR_DISTANCE
                then False
                else if \<not> (edit_start_pos \<le> current_cursor + 12 \<and> current_cursor \<le> edit_end + 12) \<or>
                  \<not> (deleted_len edit \<le> 24 \<and> length (inserted_text edit) \<le> 48)
                then False
                else if \<not> is_same_line_chunked same t current_cursor edit_start_pos \<or>
                  \<not> is_same_line_chunked same t current_cursor edit_end
                then False
                else touches_current_word tables same (current st) edit_start_pos edit_end))"

section \<open>Keeping the history short\<close>

definition delta_bytes :: "sharing \<Rightarrow> UndoDelta \<Rightarrow> nat" where
  "delta_bytes same delta = text_len same (deleted_text delta) + length (delta_inserted delta)"

definition delta_changes_text :: "sharing \<Rightarrow> UndoDelta \<Rightarrow> bool" where
  "delta_changes_text same delta \<longleftrightarrow> \<not> text_is_empty same (deleted_text delta) \<or> delta_inserted delta \<noteq> []"

definition truncate_redo_history :: "sharing \<Rightarrow> WordUndoRedoState \<Rightarrow> WordUndoRedoState" where
  "truncate_redo_history same st =
     (if index st \<ge> length (deltas st) then st
      else
        (let removed_bytes = sum_list (map (delta_bytes same) (drop (index st) (deltas st)))
         in st\<lparr>deltas := take (index st) (deltas st),
               history_total_bytes := history_total_bytes st - removed_bytes, active_group := None\<rparr>))"

definition effective_history_byte_limit :: "sharing \<Rightarrow> WordUndoRedoState \<Rightarrow> nat" where
  "effective_history_byte_limit same st =
     max MAX_WORD_UNDO_HISTORY_BYTES (text_len same (snapshot_text (current st)) * 2)"

definition drop_oldest_delta :: "sharing \<Rightarrow> WordUndoRedoState \<Rightarrow> WordUndoRedoState" where
  "drop_oldest_delta same st =
     (let removed = hd (deltas st);
          st = st\<lparr>deltas := tl (deltas st), history_total_bytes := history_total_bytes st - delta_bytes same removed\<rparr>
      in if index st > 0
         then st\<lparr>anchor := apply_delta_to_snapshot same (anchor st) removed False, index := index st - 1\<rparr> else st)"

function trim_loop :: "sharing \<Rightarrow> nat \<Rightarrow> WordUndoRedoState \<Rightarrow> WordUndoRedoState" where
  "trim_loop same byte_limit st =
     (if length (deltas st) > 1 \<and>
         (length (deltas st) > MAX_WORD_UNDO_HISTORY \<or> history_total_bytes st > byte_limit)
      then trim_loop same byte_limit (drop_oldest_delta same st) else st)"
  by pat_completeness auto
termination
  by (relation "measure (\<lambda>(same, byte_limit, st). length (deltas st))")
    (auto simp: drop_oldest_delta_def Let_def)

declare trim_loop.simps [simp del]

definition trim_history_if_needed :: "sharing \<Rightarrow> WordUndoRedoState \<Rightarrow> WordUndoRedoState" where
  "trim_history_if_needed same st =
     (let st = trim_loop same (effective_history_byte_limit same st) st;
          st = (if index st > length (deltas st) then st\<lparr>index := length (deltas st)\<rparr> else st)
      in if index st = 0 then st\<lparr>active_group := None\<rparr> else st)"

section \<open>Recording\<close>

definition take_group_id :: "WordUndoRedoState \<Rightarrow> nat \<times> WordUndoRedoState" where
  "take_group_id st = (next_group_id st, st\<lparr>next_group_id := next_group_id st + 1\<rparr>)"

definition finish_active_group :: "WordUndoRedoState \<Rightarrow> WordUndoRedoState" where
  "finish_active_group st =
     st\<lparr>active_group := None, suppress_next_remote_cursor_move := False,
        finish_group_after_next_edit := False, completion_edit_group_id := None\<rparr>"

definition sync_current_cursor :: "sharing \<Rightarrow> nat \<Rightarrow> WordUndoRedoState \<Rightarrow> WordUndoRedoState" where
  "sync_current_cursor same cursor st =
     (let t = snapshot_text (current st)
      in st\<lparr>current := (current st)\<lparr>cursor_pos := clamp_boundary same t (min cursor (text_len same t))\<rparr>\<rparr>)"

text \<open>The delta of a remote cursor move, which both recorders of cursor moves push.\<close>

definition push_cursor_move :: "sharing \<Rightarrow> nat \<Rightarrow> nat \<Rightarrow> WordUndoRedoState \<Rightarrow> WordUndoRedoState" where
  "push_cursor_move same current_cursor next_cursor st =
     (let (gid, st) = take_group_id st;
          delta = \<lparr>delta_start = next_cursor, deleted_text = None, delta_inserted = [],
                   before_cursor = current_cursor, after_cursor = next_cursor, group_id = gid\<rparr>;
          st = st\<lparr>current := apply_delta_to_snapshot same (current st) delta False, deltas := deltas st @ [delta]\<rparr>;
          st = st\<lparr>index := length (deltas st), active_group := None\<rparr>
      in trim_history_if_needed same st)"

definition record_cursor_move_if_remote ::
    "sharing \<Rightarrow> nat \<Rightarrow> bool \<Rightarrow> EditGroup \<Rightarrow> WordUndoRedoState \<Rightarrow> WordUndoRedoState" where
  "record_cursor_move_if_remote same replace_start merge_group edit_group st =
     (let suppress = suppress_next_remote_cursor_move st;
          st = st\<lparr>suppress_next_remote_cursor_move := False\<rparr>;
          t = snapshot_text (current st);
          current_cursor = clamp_boundary same t (min (cursor_pos (current st)) (text_len same t));
          next_cursor = clamp_boundary same t (min replace_start (text_len same t))
      in if suppress then st
         else if merge_group \<or> operation edit_group = OtherOperation then st
         else if current_cursor = next_cursor \<or>
           cursor_distance_chars_chunked same t current_cursor next_cursor < REMOTE_EDIT_CURSOR_DISTANCE
         then st
         else push_cursor_move same current_cursor next_cursor st)"

definition record_cursor_move_to_if_remote :: "sharing \<Rightarrow> nat \<Rightarrow> WordUndoRedoState \<Rightarrow> WordUndoRedoState" where
  "record_cursor_move_to_if_remote same cursor st =
     (let st = normalize_index same st;
          t = snapshot_text (current st);
          current_cursor = clamp_boundary same t (min (cursor_pos (current st)) (text_len same t));
          next_cursor = clamp_boundary same t (min cursor (text_len same t))
      in if current_cursor = next_cursor \<or>
           cursor_distance_chars_chunked same t current_cursor next_cursor < REMOTE_EDIT_CURSOR_DISTANCE
         then st
         else push_cursor_move same current_cursor next_cursor (truncate_redo_history same st))"

definition prepare_completion_edit :: "WordUndoRedoState \<Rightarrow> WordUndoRedoState" where
  "prepare_completion_edit st =
     st\<lparr>active_group := None, suppress_next_remote_cursor_move := True,
        finish_group_after_next_edit := True, completion_edit_group_id := None\<rparr>"

definition finish_completion_edit_cursor :: "sharing \<Rightarrow> nat \<Rightarrow> bool \<Rightarrow> WordUndoRedoState \<Rightarrow> WordUndoRedoState" where
  "finish_completion_edit_cursor same cursor changed_text st =
     (let t = snapshot_text (current st);
          cursor = clamp_boundary same t (min cursor (text_len same t));
          completion_group_id = completion_edit_group_id st;
          st = st\<lparr>current := (current st)\<lparr>cursor_pos := cursor\<rparr>, completion_edit_group_id := None,
                  suppress_next_remote_cursor_move := False, finish_group_after_next_edit := False\<rparr>
      in if changed_text \<and> completion_group_id \<noteq> None \<and> index st = length (deltas st) \<and> deltas st \<noteq> [] \<and>
           Some (group_id (last (deltas st))) = completion_group_id
         then st\<lparr>deltas := butlast (deltas st) @ [(last (deltas st))\<lparr>after_cursor := cursor\<rparr>]\<rparr> else st)"

definition text_or_default :: "ChunkedText option \<Rightarrow> ChunkedText" where
  "text_or_default t = (case t of None \<Rightarrow> None | Some t \<Rightarrow> t)"

text \<open>Pushing the delta of an edit that has been applied, and shortening the history.\<close>

definition push_delta ::
    "sharing \<Rightarrow> UndoDelta \<Rightarrow> (EditGroup \<times> nat) option \<Rightarrow> WordUndoRedoState \<Rightarrow> WordUndoRedoState" where
  "push_delta same delta active st =
     (let st = st\<lparr>history_total_bytes := history_total_bytes st + delta_bytes same delta, deltas := deltas st @ [delta]\<rparr>
      in trim_history_if_needed same (st\<lparr>index := length (deltas st), active_group := active\<rparr>))"

definition edit_group_id :: "bool \<Rightarrow> WordUndoRedoState \<Rightarrow> nat \<times> WordUndoRedoState" where
  "edit_group_id merge_group st =
     (case (merge_group, active_group st) of
        (True, Some (_, gid)) \<Rightarrow> (gid, st)
      | _ \<Rightarrow> take_group_id st)"

definition record_edit ::
    "char_tables \<Rightarrow> sharing \<Rightarrow> BufferEdit \<Rightarrow> EditGroup \<Rightarrow> WordUndoRedoState \<Rightarrow> WordUndoRedoState" where
  "record_edit tables same edit edit_group st =
     (let st = (normalize_index same st)\<lparr>pending_history_text_snapshots := []\<rparr>;
          t = snapshot_text (current st);
          (replace_start, replace_end) = normalized_replace_range same t edit;
          deleted = text_or_default (text_slice same t replace_start replace_end);
          normalized_edit = \<lparr>edit_start = replace_start, deleted_len = replace_end - replace_start,
                             inserted_text = inserted_text edit\<rparr>
      in if matches_str same deleted (inserted_text normalized_edit)
         then st\<lparr>suppress_next_remote_cursor_move := False, finish_group_after_next_edit := False,
                 completion_edit_group_id := None\<rparr>
         else
           (let st = truncate_redo_history same st;
                finish_group_after_edit = finish_group_after_next_edit st;
                st = st\<lparr>finish_group_after_next_edit := False\<rparr>;
                merge_group = should_merge_into_active_group tables same st edit_group normalized_edit;
                st = record_cursor_move_if_remote same replace_start merge_group edit_group st;
                before = cursor_pos (current st);
                (gid, st) = edit_group_id merge_group st;
                st = (if finish_group_after_edit then st\<lparr>completion_edit_group_id := Some gid\<rparr> else st);
                st = st\<lparr>current := apply_edit_to_snapshot same (current st) normalized_edit\<rparr>;
                delta = \<lparr>delta_start = replace_start, deleted_text = deleted,
                         delta_inserted = inserted_text normalized_edit, before_cursor = before,
                         after_cursor = cursor_pos (current st), group_id = gid\<rparr>
            in push_delta same delta (if finish_group_after_edit then None else Some (edit_group, gid)) st))"

definition replace_group :: EditGroup where
  "replace_group = \<lparr>granularity = OtherGranularity, operation = ReplaceOperation\<rparr>"

definition record_programmatic_edit ::
    "sharing \<Rightarrow> BufferEdit \<Rightarrow> nat \<Rightarrow> nat \<Rightarrow> WordUndoRedoState \<Rightarrow> WordUndoRedoState" where
  "record_programmatic_edit same edit before after st =
     (let st = (normalize_index same st)\<lparr>pending_history_text_snapshots := []\<rparr>;
          st = truncate_redo_history same st;
          t = snapshot_text (current st);
          (replace_start, replace_end) = normalized_replace_range same t edit;
          deleted = text_or_default (text_slice same t replace_start replace_end);
          normalized_edit = \<lparr>edit_start = replace_start, deleted_len = replace_end - replace_start,
                             inserted_text = inserted_text edit\<rparr>;
          before = clamp_boundary same t (min before (text_len same t));
          (gid, st) = take_group_id st;
          snapshot = apply_edit_to_snapshot same (current st) normalized_edit;
          u = snapshot_text snapshot;
          after = clamp_boundary same u (min after (text_len same u));
          st = st\<lparr>current := snapshot\<lparr>cursor_pos := after\<rparr>\<rparr>;
          delta = \<lparr>delta_start = replace_start, deleted_text = deleted,
                   delta_inserted = inserted_text normalized_edit, before_cursor = before,
                   after_cursor = after, group_id = gid\<rparr>
      in push_delta same delta (Some (replace_group, gid)) st)"

definition record_full_buffer_programmatic_replace ::
    "sharing \<Rightarrow> string \<Rightarrow> nat \<Rightarrow> nat \<Rightarrow> WordUndoRedoState \<Rightarrow> WordUndoRedoState" where
  "record_full_buffer_programmatic_replace same inserted before after st =
     (let st = (normalize_index same st)\<lparr>pending_history_text_snapshots := []\<rparr>;
          st = truncate_redo_history same st;
          t = snapshot_text (current st);
          before = clamp_boundary same t (min before (text_len same t));
          deleted = t;
          (gid, st) = take_group_id st;
          u = text_from_shared_string same inserted;
          after = clamp_boundary same u (min after (text_len same u));
          st = st\<lparr>current := \<lparr>snapshot_text = u, cursor_pos = after\<rparr>\<rparr>;
          delta = \<lparr>delta_start = 0, deleted_text = deleted, delta_inserted = inserted,
                   before_cursor = before, after_cursor = after, group_id = gid\<rparr>
      in push_delta same delta (Some (replace_group, gid)) st)"

section \<open>The callback of the buffer\<close>

definition classify_edit_granularity :: "char_tables \<Rightarrow> int \<Rightarrow> int \<Rightarrow> string \<Rightarrow> string \<Rightarrow> EditGranularity" where
  "classify_edit_granularity tables ins del inserted deleted =
     (if ins \<le> 0 \<and> del \<le> 0 then OtherGranularity
      else if length inserted > 128 \<or> length deleted > 128 then OtherGranularity
      else if (ins > 0 \<and> list_all (is_word_edit_char tables) (text_chars inserted)) \<or>
        (del > 0 \<and> list_all (is_word_edit_char tables) (text_chars deleted))
      then WordGranularity else OtherGranularity)"

definition classify_edit_group :: "char_tables \<Rightarrow> int \<Rightarrow> int \<Rightarrow> string \<Rightarrow> string \<Rightarrow> EditGroup" where
  "classify_edit_group tables ins del inserted deleted =
     \<lparr>granularity = classify_edit_granularity tables ins del inserted deleted,
      operation = (if ins > 0 then (if del > 0 then ReplaceOperation else InsertOperation)
                   else if del > 0 then DeleteOperation else OtherOperation)\<rparr>"

text \<open>
  Every change of the buffer calls back: unless the callback is suppressed, or the query history is being shown, a
  change that undo or redo has sent takes its snapshot from the queue, and any other change is recorded.
\<close>

definition buffer_modified ::
    "char_tables \<Rightarrow> sharing \<Rightarrow> bool \<Rightarrow> bool \<Rightarrow> BufferEdit \<Rightarrow> string \<Rightarrow> WordUndoRedoState \<Rightarrow> WordUndoRedoState" where
  "buffer_modified tables same suppress_buffer_callbacks applying_history_navigation edit deleted st =
     (let ins = int (length (inserted_text edit)); del = int (deleted_len edit)
      in if ins \<le> 0 \<and> del \<le> 0 then st
         else if suppress_buffer_callbacks then st
         else if applying_history_navigation then st
         else if applying_history st
         then st\<lparr>pending_history_text_snapshots := tl (pending_history_text_snapshots st)\<rparr>
         else record_edit tables same edit (classify_edit_group tables ins del (inserted_text edit) deleted) st)"

text \<open>A change of the buffer that nothing suppresses, with the bytes it deletes.\<close>

definition buffer_changed ::
    "char_tables \<Rightarrow> sharing \<Rightarrow> string \<Rightarrow> BufferEdit \<Rightarrow> WordUndoRedoState \<Rightarrow> WordUndoRedoState" where
  "buffer_changed tables same buffer edit st =
     buffer_modified tables same False False edit (take (deleted_len edit) (drop (edit_start edit) buffer)) st"

section \<open>Undo and redo\<close>

function undo_loop :: "sharing \<Rightarrow> nat \<Rightarrow> WordUndoRedoState \<Rightarrow> UndoDelta list \<Rightarrow> WordUndoRedoState \<times> UndoDelta list" where
  "undo_loop same target st grouped =
     (if index st > 0 then
        (if index st - 1 < length (deltas st) then
           (let delta = deltas st ! (index st - 1)
            in if group_id delta \<noteq> target then (st, grouped)
               else undo_loop same target
                 (st\<lparr>index := index st - 1, current := apply_delta_to_snapshot same (current st) delta True\<rparr>)
                 (grouped @ [delta]))
         else (st\<lparr>index := length (deltas st), active_group := None\<rparr>, grouped))
      else (st, grouped))"
  by pat_completeness auto
termination by (relation "measure (\<lambda>(same, target, st, grouped). index st)") auto

declare undo_loop.simps [simp del]

definition after_history_group :: "sharing \<Rightarrow> UndoDelta list \<Rightarrow> WordUndoRedoState \<Rightarrow> WordUndoRedoState" where
  "after_history_group same grouped st =
     (if grouped \<noteq> [] then
        st\<lparr>pending_history_text_snapshots := pending_history_text_snapshots st @
             (if list_ex (delta_changes_text same) grouped then [snapshot_text (current st)] else []),
           active_group := None, applying_history := True\<rparr>
      else st)"

definition take_undo_group :: "sharing \<Rightarrow> WordUndoRedoState \<Rightarrow> WordUndoRedoState \<times> UndoDelta list" where
  "take_undo_group same st =
     (let st = (normalize_index same st)\<lparr>pending_history_text_snapshots := []\<rparr>
      in if index st = 0 then (st, [])
         else if index st - 1 < length (deltas st) then
           (let (st, grouped) = undo_loop same (group_id (deltas st ! (index st - 1))) st []
            in (after_history_group same grouped st, grouped))
         else (st, []))"

function redo_loop :: "sharing \<Rightarrow> nat \<Rightarrow> WordUndoRedoState \<Rightarrow> UndoDelta list \<Rightarrow> WordUndoRedoState \<times> UndoDelta list" where
  "redo_loop same target st grouped =
     (if index st < length (deltas st) then
        (let delta = deltas st ! index st
         in if group_id delta \<noteq> target then (st, grouped)
            else redo_loop same target
              (st\<lparr>current := apply_delta_to_snapshot same (current st) delta False, index := index st + 1\<rparr>)
              (grouped @ [delta]))
      else (st, grouped))"
  by pat_completeness auto
termination by (relation "measure (\<lambda>(same, target, st, grouped). length (deltas st) - index st)") auto

declare redo_loop.simps [simp del]

definition take_redo_group :: "sharing \<Rightarrow> WordUndoRedoState \<Rightarrow> WordUndoRedoState \<times> UndoDelta list" where
  "take_redo_group same st =
     (let st = (normalize_index same st)\<lparr>pending_history_text_snapshots := []\<rparr>
      in if index st \<ge> length (deltas st) then (st, [])
         else
           (let (st, grouped) = redo_loop same (group_id (deltas st ! index st)) st []
            in (after_history_group same grouped st, grouped)))"

definition undo_cursor_after_group :: "sharing \<Rightarrow> WordUndoRedoState \<Rightarrow> UndoDelta list \<Rightarrow> nat" where
  "undo_cursor_after_group same st grouped =
     (if grouped = [] then cursor_pos (current st)
      else
        (let t = snapshot_text (current st);
             all_deletions = list_all (\<lambda>delta. delta_inserted delta = [] \<and> \<not> text_is_empty same (deleted_text delta)) grouped;
             cursor =
               (if all_deletions
                then Min (set (map delta_start grouped)) + sum_list (map (\<lambda>delta. text_len same (deleted_text delta)) grouped)
                else before_cursor (last grouped))
         in clamp_boundary same t (min cursor (text_len same t))))"

section \<open>The edit sent to the buffer\<close>

fun common_prefix_chars :: "string list \<Rightarrow> string list \<Rightarrow> nat" where
  "common_prefix_chars (l # ls) (r # rs) = (if l \<noteq> r then 0 else length l + common_prefix_chars ls rs)"
| "common_prefix_chars _ _ = 0"

definition common_prefix_bytes :: "string \<Rightarrow> string \<Rightarrow> nat" where
  "common_prefix_bytes l r = common_prefix_chars (text_chars l) (text_chars r)"

fun common_suffix_chars :: "nat \<Rightarrow> nat \<Rightarrow> nat \<Rightarrow> string list \<Rightarrow> string list \<Rightarrow> nat" where
  "common_suffix_chars left_available right_available n (l # ls) (r # rs) =
     (if l \<noteq> r then n
      else if n + length l > left_available \<or> n + length l > right_available then n
      else common_suffix_chars left_available right_available (n + length l) ls rs)"
| "common_suffix_chars left_available right_available n _ _ = n"

definition common_suffix_bytes :: "string \<Rightarrow> string \<Rightarrow> nat \<Rightarrow> nat" where
  "common_suffix_bytes l r common_prefix =
     common_suffix_chars (length l - common_prefix) (length r - common_prefix) 0 (rev (text_chars l)) (rev (text_chars r))"

definition composite_buffer_edit ::
    "sharing \<Rightarrow> ChunkedText \<Rightarrow> ChunkedText \<Rightarrow> UndoDelta list \<Rightarrow> bool \<Rightarrow> BufferEdit option" where
  "composite_buffer_edit same before after grouped reverse =
     (case filter (delta_changes_text same) grouped of
        [] \<Rightarrow> None
      | [first] \<Rightarrow>
          Some \<lparr>edit_start = delta_start first,
                deleted_len = (if reverse then length (delta_inserted first) else text_len same (deleted_text first)),
                inserted_text = (if reverse then to_flat_string same (deleted_text first) else delta_inserted first)\<rparr>
      | text_deltas \<Rightarrow>
          (let start_pos = Min (set (map delta_start text_deltas));
               max_start = Max (set (map delta_start text_deltas));
               payload_bytes = sum_list (map (delta_bytes same) text_deltas);
               coverage = (max_start - start_pos) + payload_bytes + COMPOSITE_HISTORY_CONTEXT_BYTES;
               before_end = clamp_boundary same before (min (start_pos + coverage) (text_len same before));
               unchanged_tail = text_len same before - before_end;
               after_end = clamp_boundary same after
                 (min (max (text_len same after - unchanged_tail) start_pos) (text_len same after))
           in case range_string same before start_pos before_end of
                None \<Rightarrow> None
              | Some before_fragment \<Rightarrow>
                  (case range_string same after start_pos after_end of
                     None \<Rightarrow> None
                   | Some after_fragment \<Rightarrow>
                       (let common_prefix = common_prefix_bytes before_fragment after_fragment;
                            common_suffix = common_suffix_bytes before_fragment after_fragment common_prefix;
                            replacement_end = length after_fragment - common_suffix
                        in case str_get after_fragment common_prefix replacement_end of
                             None \<Rightarrow> None
                           | Some inserted \<Rightarrow>
                               Some \<lparr>edit_start = start_pos + common_prefix,
                                     deleted_len = length before_fragment - common_prefix - common_suffix,
                                     inserted_text = inserted\<rparr>))))"

text \<open>The buffer of the editor is a string; a replacement is of the bytes between two clipped positions.\<close>

definition clipped_edit :: "string \<Rightarrow> BufferEdit \<Rightarrow> BufferEdit" where
  "clipped_edit buffer edit =
     (let start_pos = min (edit_start edit) (length buffer);
          end_pos = min (start_pos + deleted_len edit) (length buffer)
      in edit\<lparr>edit_start := start_pos, deleted_len := end_pos - start_pos\<rparr>)"

definition apply_composite_buffer_edit :: "string \<Rightarrow> BufferEdit \<Rightarrow> string" where
  "apply_composite_buffer_edit buffer edit =
     (let start_pos = min (edit_start edit) (length buffer);
          end_pos = min (start_pos + deleted_len edit) (length buffer)
      in take start_pos buffer @ inserted_text edit @ drop end_pos buffer)"

definition finish_history :: "WordUndoRedoState \<Rightarrow> WordUndoRedoState" where
  "finish_history st = st\<lparr>applying_history := False, pending_history_text_snapshots := []\<rparr>"

text \<open>The composite edit changes the buffer, whose callback runs while the history is being applied.\<close>

definition send_composite_edit ::
    "char_tables \<Rightarrow> sharing \<Rightarrow> ChunkedText \<Rightarrow> UndoDelta list \<Rightarrow> bool \<Rightarrow> WordUndoRedoState \<times> string
       \<Rightarrow> WordUndoRedoState \<times> string" where
  "send_composite_edit tables same before grouped reverse = (\<lambda>(st, buffer).
     (case composite_buffer_edit same before (snapshot_text (current st)) grouped reverse of
        None \<Rightarrow> (st, buffer)
      | Some edit \<Rightarrow>
          (buffer_changed tables same buffer (clipped_edit buffer edit) st, apply_composite_buffer_edit buffer edit)))"

definition undo ::
    "char_tables \<Rightarrow> sharing \<Rightarrow> WordUndoRedoState \<times> string \<Rightarrow> WordUndoRedoState \<times> string \<times> nat option" where
  "undo tables same = (\<lambda>(st, buffer).
     (let before = snapshot_text (current st);
          (st, grouped) = take_undo_group same st
      in if grouped = [] then (st, buffer, None)
         else
           (let cursor = undo_cursor_after_group same st grouped;
                (st, buffer) = send_composite_edit tables same before grouped True (st, buffer)
            in (finish_history st, buffer, Some cursor))))"

definition redo ::
    "char_tables \<Rightarrow> sharing \<Rightarrow> WordUndoRedoState \<times> string \<Rightarrow> WordUndoRedoState \<times> string \<times> nat option" where
  "redo tables same = (\<lambda>(st, buffer).
     (let before = snapshot_text (current st);
          (st, grouped) = take_redo_group same st
      in if grouped = [] then (st, buffer, None)
         else
           (let cursor = cursor_pos (current st);
                (st, buffer) = send_composite_edit tables same before grouped False (st, buffer)
            in (finish_history st, buffer, Some cursor))))"

section \<open>Completions\<close>

text \<open>
  A chosen completion replaces a range of the buffer, or is inserted at the cursor when the range is empty. The cursor,
  the range and the text to insert are arguments.
\<close>

definition completion_caret_offset :: "string \<Rightarrow> nat" where
  "completion_caret_offset inserted =
     (if drop (length inserted - 2) inserted = ''()'' then length inserted - 1 else length inserted)"

definition completion_changes_text :: "string \<Rightarrow> nat \<Rightarrow> nat \<Rightarrow> string \<Rightarrow> bool" where
  "completion_changes_text buffer start_pos end_pos inserted =
     (if start_pos = end_pos then inserted \<noteq> [] else take (end_pos - start_pos) (drop start_pos buffer) \<noteq> inserted)"

definition completion_edit :: "nat \<Rightarrow> nat \<Rightarrow> nat \<Rightarrow> string \<Rightarrow> BufferEdit" where
  "completion_edit cursor start_pos end_pos inserted =
     \<lparr>edit_start = (if start_pos \<noteq> end_pos then start_pos else cursor), deleted_len = end_pos - start_pos,
      inserted_text = inserted\<rparr>"

definition insert_completion ::
    "char_tables \<Rightarrow> sharing \<Rightarrow> nat \<Rightarrow> nat \<Rightarrow> nat \<Rightarrow> string \<Rightarrow> WordUndoRedoState \<times> string
       \<Rightarrow> WordUndoRedoState \<times> string" where
  "insert_completion tables same cursor start_pos end_pos inserted = (\<lambda>(st, buffer).
     (let changes_text = completion_changes_text buffer start_pos end_pos inserted;
          st = (if changes_text then record_cursor_move_to_if_remote same cursor st else st);
          st = sync_current_cursor same cursor st;
          st = (if changes_text then prepare_completion_edit st else finish_active_group st);
          edit = completion_edit cursor start_pos end_pos inserted;
          st = buffer_changed tables same buffer edit st;
          after = edit_start edit + completion_caret_offset inserted
      in (finish_completion_edit_cursor same after changes_text st, apply_composite_buffer_edit buffer edit)))"

end
