(* ===== verification/Undo_Laws.thy ===== *)
theory Undo_Laws
  imports Undo_History
begin

text \<open>
  The invariant of the undo history: the deltas, read on strings, fit one another from the anchor on, the
  current text is where the index says, and the groups are stretches of the history. Every recorder keeps
  it, and undo and redo move the index over one group.
\<close>

section \<open>Deltas on strings\<close>

abbreviation snapshot_string :: "UndoSnapshot \<Rightarrow> string" where
  "snapshot_string snapshot \<equiv> text_of (snapshot_text snapshot)"

abbreviation deleted_string :: "UndoDelta \<Rightarrow> string" where
  "deleted_string delta \<equiv> text_of (deleted_text delta)"

definition replace_string :: "string \<Rightarrow> nat \<Rightarrow> nat \<Rightarrow> string \<Rightarrow> string" where
  "replace_string s a deleted inserted = take a s @ inserted @ drop (a + deleted) s"

definition delta_forward :: "string \<Rightarrow> UndoDelta \<Rightarrow> string" where
  "delta_forward s delta = replace_string s (delta_start delta) (length (deleted_string delta)) (delta_inserted delta)"

definition delta_backward :: "string \<Rightarrow> UndoDelta \<Rightarrow> string" where
  "delta_backward s delta = replace_string s (delta_start delta) (length (delta_inserted delta)) (deleted_string delta)"

text \<open>A delta fits a string when the string has the deleted text at its place, cut at character boundaries.\<close>

definition delta_fits :: "sharing \<Rightarrow> string \<Rightarrow> UndoDelta \<Rightarrow> bool" where
  "delta_fits same s delta \<longleftrightarrow>
     text_ok same (deleted_text delta) \<and> utf8_valid (delta_inserted delta) \<and>
     is_char_boundary s (delta_start delta) \<and>
     is_char_boundary s (delta_start delta + length (deleted_string delta)) \<and>
     take (length (deleted_string delta)) (drop (delta_start delta) s) = deleted_string delta"

fun fits_all :: "sharing \<Rightarrow> string \<Rightarrow> UndoDelta list \<Rightarrow> bool" where
  "fits_all same s [] = True"
| "fits_all same s (delta # rest) = (delta_fits same s delta \<and> fits_all same (delta_forward s delta) rest)"

abbreviation replay :: "string \<Rightarrow> UndoDelta list \<Rightarrow> string" where
  "replay \<equiv> foldl delta_forward"

lemma boundary_between: "utf8_like t \<Longrightarrow> is_char_boundary (s @ t) (length s)"
  using utf8_like_hd [of t] by (cases t) (auto simp: is_char_boundary_def nth_append)

lemma replace_string_facts:
  assumes "utf8_valid s" "utf8_valid inserted" "is_char_boundary s a" "is_char_boundary s (a + d)"
  shows replace_string_valid: "utf8_valid (replace_string s a d inserted)"
    and replace_string_boundary: "is_char_boundary (replace_string s a d inserted) a"
      "is_char_boundary (replace_string s a d inserted) (a + length inserted)"
    and replace_string_inserted: "take (length inserted) (drop a (replace_string s a d inserted)) = inserted"
    and replace_string_back: "replace_string (replace_string s a d inserted) a (length inserted) (take d (drop a s)) = s"
    and length_replace_string: "length (replace_string s a d inserted) = length s - d + length inserted"
proof -
  have le: "a \<le> length s" "a + d \<le> length s" using assms(3,4) is_char_boundary_le by blast+
  have a: "length (take a s) = a" using le by simp
  have valid: "utf8_valid (inserted @ drop (a + d) s)" "utf8_valid (drop (a + d) s)"
    using assms by (simp_all add: utf8_valid_append utf8_valid_drop)
  show "utf8_valid (replace_string s a d inserted)"
    using assms valid by (simp add: replace_string_def utf8_valid_append utf8_valid_take)
  show "is_char_boundary (replace_string s a d inserted) a"
    using boundary_between [OF utf8_valid_like [OF valid(1)], of "take a s"] le by (simp add: replace_string_def min_absorb2)
  show "is_char_boundary (replace_string s a d inserted) (a + length inserted)"
    using boundary_between [OF utf8_valid_like [OF valid(2)], of "take a s @ inserted"] le
    by (simp add: replace_string_def min_absorb2)
  show "take (length inserted) (drop a (replace_string s a d inserted)) = inserted"
    using le by (simp add: replace_string_def min_absorb2)
  show "replace_string (replace_string s a d inserted) a (length inserted) (take d (drop a s)) = s"
    using le by (simp add: replace_string_def min_absorb2) (metis add.commute append_take_drop_id drop_drop)
  show "length (replace_string s a d inserted) = length s - d + length inserted"
    using le by (simp add: replace_string_def)
qed

lemma delta_forward_facts:
  assumes "utf8_valid s" "delta_fits same s delta"
  shows delta_forward_valid: "utf8_valid (delta_forward s delta)"
    and delta_forward_boundary: "is_char_boundary (delta_forward s delta) (delta_start delta)"
      "is_char_boundary (delta_forward s delta) (delta_start delta + length (delta_inserted delta))"
    and delta_backward_forward: "delta_backward (delta_forward s delta) delta = s"
  using assms(2) replace_string_facts [OF assms(1), of "delta_inserted delta" "delta_start delta" "length (deleted_string delta)"]
  by (simp_all add: delta_fits_def delta_forward_def delta_backward_def)

lemma fits_all_append:
  "fits_all same s (ds @ es) \<longleftrightarrow> fits_all same s ds \<and> fits_all same (replay s ds) es"
  by (induction ds arbitrary: s) auto

lemma fits_all_take_drop:
  "fits_all same s ds \<Longrightarrow> fits_all same s (take n ds) \<and> fits_all same (replay s (take n ds)) (drop n ds)"
  by (metis append_take_drop_id fits_all_append)

lemma replay_valid: "utf8_valid s \<Longrightarrow> fits_all same s ds \<Longrightarrow> utf8_valid (replay s ds)"
  by (induction ds arbitrary: s) (auto simp: delta_forward_valid)

context text_storage
begin

lemma normalized_replace_range_at:
  assumes "text_ok same t" "is_char_boundary (text_of t) (edit_start e)"
    "is_char_boundary (text_of t) (edit_start e + deleted_len e)"
  shows "normalized_replace_range same t e = (edit_start e, edit_start e + deleted_len e)"
  using assms is_char_boundary_le [OF assms(3)] by (simp add: normalized_replace_range_def Let_def text_simps)

lemma replaced_range:
  assumes "text_ok same t" "text_ok same u" "is_char_boundary (text_of t) a" "is_char_boundary (text_of t) (a + d)"
  shows "text_ok same (fst (replace_range_chunked same t a (a + d) u)) \<and>
    text_of (fst (replace_range_chunked same t a (a + d) u)) = replace_string (text_of t) a d (text_of u)"
  using replace_range_chunked_string [OF assms(1,2), of a "a + d"] assms(3,4)
  by (simp add: replace_string_def)

lemma replaced_range_shared:
  assumes "text_ok same t" "utf8_valid s" "is_char_boundary (text_of t) a" "is_char_boundary (text_of t) (a + d)"
  shows "text_ok same (fst (replace_range_shared same t a (a + d) s)) \<and>
    text_of (fst (replace_range_shared same t a (a + d) s)) = replace_string (text_of t) a d s"
  using replaced_range [OF assms(1) _ assms(3,4), of "text_from_shared_string same s"]
    from_storage_string [OF utf8_valid_like [OF assms(2)]]
  by (simp add: replace_with_string)

lemma apply_edit_string:
  assumes "text_ok same (snapshot_text sn)" "utf8_valid (inserted_text e)"
    "is_char_boundary (snapshot_string sn) (edit_start e)"
    "is_char_boundary (snapshot_string sn) (edit_start e + deleted_len e)"
  shows "text_ok same (snapshot_text (apply_edit_to_snapshot same sn e)) \<and>
    snapshot_string (apply_edit_to_snapshot same sn e) =
      replace_string (snapshot_string sn) (edit_start e) (deleted_len e) (inserted_text e)"
  using replaced_range_shared [OF assms(1-4)] normalized_replace_range_at [OF assms(1,3,4)]
  by (simp add: apply_edit_to_snapshot_def Let_def)

lemma apply_delta_forward:
  assumes "text_ok same (snapshot_text sn)" "delta_fits same (snapshot_string sn) delta"
  shows "text_ok same (snapshot_text (apply_delta_to_snapshot same sn delta False)) \<and>
    snapshot_string (apply_delta_to_snapshot same sn delta False) = delta_forward (snapshot_string sn) delta"
proof -
  have fits: "text_ok same (deleted_text delta)" "utf8_valid (delta_inserted delta)"
      "is_char_boundary (snapshot_string sn) (delta_start delta)"
      "is_char_boundary (snapshot_string sn) (delta_start delta + length (deleted_string delta))"
    using assms(2) by (simp_all add: delta_fits_def)
  then show ?thesis
    using replaced_range_shared [OF assms(1) fits(2-4)]
    by (simp add: apply_delta_to_snapshot_def Let_def text_simps assms(1) delta_forward_def min_absorb1
        is_char_boundary_le [OF fits(4)])
qed

lemma apply_delta_backward:
  assumes "text_ok same (snapshot_text sn)" "utf8_valid s" "delta_fits same s delta"
    "snapshot_string sn = delta_forward s delta"
  shows "text_ok same (snapshot_text (apply_delta_to_snapshot same sn delta True)) \<and>
    snapshot_string (apply_delta_to_snapshot same sn delta True) = s"
proof -
  have ok: "text_ok same (deleted_text delta)" using assms(3) by (simp add: delta_fits_def)
  note ends = delta_forward_boundary [OF assms(2,3), folded assms(4)]
  have back_again: "replace_string (snapshot_string sn) (delta_start delta) (length (delta_inserted delta)) (deleted_string delta) = s"
    using delta_backward_forward [OF assms(2,3)] by (simp add: delta_backward_def assms(4))
  show ?thesis
    using replaced_range [OF assms(1) ok ends] ends
    by (simp add: apply_delta_to_snapshot_def Let_def text_simps assms(1) back_again min_absorb1
        is_char_boundary_le [OF ends(2)])
qed

end


section \<open>The invariant of a history\<close>

text \<open>
  The texts: every delta fits the text that the deltas before it give from the anchor, and the current text is
  what the deltas before the index give.
\<close>

definition contents_ok :: "sharing \<Rightarrow> WordUndoRedoState \<Rightarrow> bool" where
  "contents_ok same st \<longleftrightarrow>
     text_ok same (snapshot_text (anchor st)) \<and> utf8_valid (snapshot_string (anchor st)) \<and>
     text_ok same (snapshot_text (current st)) \<and>
     fits_all same (snapshot_string (anchor st)) (deltas st) \<and> index st \<le> length (deltas st) \<and>
     snapshot_string (current st) = replay (snapshot_string (anchor st)) (take (index st) (deltas st)) \<and>
     history_total_bytes st = sum_list (map (delta_bytes same) (deltas st))"

text \<open>
  The groups: their numbers do not decrease, so that each group is one stretch of the history; the index is
  between two groups; the group that edits may still join is the last one, and nothing is undone.
\<close>

definition groups_ok :: "WordUndoRedoState \<Rightarrow> bool" where
  "groups_ok st \<longleftrightarrow>
     sorted (map group_id (deltas st)) \<and> (\<forall>delta \<in> set (deltas st). group_id delta < next_group_id st) \<and>
     (\<forall>i < index st. \<forall>j < length (deltas st). index st \<le> j \<longrightarrow> group_id (deltas st ! i) < group_id (deltas st ! j)) \<and>
     (\<forall>active gid. active_group st = Some (active, gid) \<longrightarrow>
        index st = length (deltas st) \<and> deltas st \<noteq> [] \<and> group_id (last (deltas st)) = gid)"

definition history_inv :: "sharing \<Rightarrow> WordUndoRedoState \<Rightarrow> bool" where
  "history_inv same st \<longleftrightarrow> contents_ok same st \<and> groups_ok st"

definition history_ok :: "sharing \<Rightarrow> WordUndoRedoState \<Rightarrow> bool" where
  "history_ok same st \<longleftrightarrow> history_inv same st \<and> length (deltas st) \<le> MAX_WORD_UNDO_HISTORY"

abbreviation at_tip :: "WordUndoRedoState \<Rightarrow> bool" where
  "at_tip st \<equiv> index st = length (deltas st)"

lemmas inv_defs = history_inv_def contents_ok_def groups_ok_def

lemma history_inv_cong:
  assumes "history_inv same st" "anchor st' = anchor st" "deltas st' = deltas st" "index st' = index st"
    "snapshot_text (current st') = snapshot_text (current st)" "history_total_bytes st' = history_total_bytes st"
    "next_group_id st \<le> next_group_id st'" "active_group st' = active_group st \<or> active_group st' = None"
  shows "history_inv same st'"
  using assms unfolding inv_defs by (simp, elim disjE) (auto intro: less_le_trans)

lemma current_valid: "history_inv same st \<Longrightarrow> utf8_valid (snapshot_string (current st))"
  unfolding inv_defs using replay_valid fits_all_take_drop by metis

lemma drop_oldest_delta_inv:
  assumes "text_storage same" "history_inv same st" "at_tip st" "1 < length (deltas st)"
  shows "history_inv same (drop_oldest_delta same st) \<and> at_tip (drop_oldest_delta same st) \<and>
    current (drop_oldest_delta same st) = current st"
proof -
  obtain d ds where ds: "deltas st = d # ds" "ds \<noteq> []" using assms(4) by (cases "deltas st") auto
  have fits: "text_ok same (snapshot_text (anchor st))" "delta_fits same (snapshot_string (anchor st)) d"
      "utf8_valid (snapshot_string (anchor st))"
    using assms(2) ds by (simp_all add: inv_defs)
  have new: "drop_oldest_delta same st =
      st\<lparr>deltas := ds, history_total_bytes := history_total_bytes st - delta_bytes same d,
         anchor := apply_delta_to_snapshot same (anchor st) d False, index := length ds\<rparr>"
    using assms(3) by (simp add: drop_oldest_delta_def ds(1))
  have "contents_ok same (drop_oldest_delta same st)"
    using assms(2,3) ds text_storage.apply_delta_forward [OF assms(1) fits(1,2)] delta_forward_valid [OF fits(3,2)]
    by (simp add: new inv_defs)
  moreover have "groups_ok (drop_oldest_delta same st)"
    using assms(2,3) ds by (auto simp: new inv_defs)
  ultimately show ?thesis by (simp add: history_inv_def new)
qed

lemma trim_loop_inv:
  assumes "text_storage same" "history_inv same st" "at_tip st"
  shows "history_inv same (trim_loop same limit st) \<and> at_tip (trim_loop same limit st) \<and>
    current (trim_loop same limit st) = current st \<and>
    length (deltas (trim_loop same limit st)) \<le> MAX_WORD_UNDO_HISTORY"
  using assms
proof (induction same limit st rule: trim_loop.induct)
  case (1 same limit st)
  let ?cond = "length (deltas st) > 1 \<and> (length (deltas st) > MAX_WORD_UNDO_HISTORY \<or> history_total_bytes st > limit)"
  show ?case
  proof (cases ?cond)
    case True
    then have "trim_loop same limit st = trim_loop same limit (drop_oldest_delta same st)"
      by (subst trim_loop.simps) simp
    then show ?thesis using "1.IH" [OF True "1.prems"(1)] drop_oldest_delta_inv [OF "1.prems"] True by simp
  next
    case False
    then have "trim_loop same limit st = st" by (subst trim_loop.simps) auto
    then show ?thesis using "1.prems" False by (auto simp: MAX_WORD_UNDO_HISTORY_def)
  qed
qed

lemma trim_history_inv:
  assumes "text_storage same" "history_inv same st" "at_tip st"
  shows "history_ok same (trim_history_if_needed same st)" "at_tip (trim_history_if_needed same st)"
    "current (trim_history_if_needed same st) = current st"
proof -
  note loop = trim_loop_inv [OF assms, of "effective_history_byte_limit same st"]
  let ?st = "trim_loop same (effective_history_byte_limit same st) st"
  have trim: "trim_history_if_needed same st = (if index ?st = 0 then ?st\<lparr>active_group := None\<rparr> else ?st)"
    using loop by (simp add: trim_history_if_needed_def)
  show "history_ok same (trim_history_if_needed same st)"
    using loop by (auto simp: trim history_ok_def elim!: history_inv_cong)
  show "at_tip (trim_history_if_needed same st)" "current (trim_history_if_needed same st) = current st"
    using loop by (simp_all add: trim)
qed

lemma trim_keeps_last:
  assumes "deltas st = ys @ [d]"
  shows "\<exists>xs. deltas (trim_history_if_needed same st) = xs @ [d] \<and> set xs \<subseteq> set ys"
proof -
  have "\<exists>xs. deltas (trim_loop same limit st) = xs @ [d] \<and> set xs \<subseteq> set ys" for limit
    using assms
  proof (induction same limit st arbitrary: ys rule: trim_loop.induct)
    case (1 same limit st)
    let ?cond = "length (deltas st) > 1 \<and> (length (deltas st) > MAX_WORD_UNDO_HISTORY \<or> history_total_bytes st > limit)"
    show ?case
    proof (cases ?cond)
      case True
      then obtain y ys' where ys: "ys = y # ys'" using "1.prems" by (cases ys) auto
      have "deltas (drop_oldest_delta same st) = ys' @ [d]" by (simp add: drop_oldest_delta_def Let_def "1.prems" ys)
      then show ?thesis using "1.IH" [OF True, of ys'] True ys by (subst trim_loop.simps) auto
    next
      case False
      then have "trim_loop same limit st = st" by (subst trim_loop.simps) auto
      then show ?thesis using "1.prems" by auto
    qed
  qed
  from this [of "effective_history_byte_limit same st"] show ?thesis
    by (auto simp: trim_history_if_needed_def Let_def)
qed

lemma truncate_redo_inv:
  assumes "history_inv same st"
  shows "history_inv same (truncate_redo_history same st)" "at_tip (truncate_redo_history same st)"
    "current (truncate_redo_history same st) = current st"
    "next_group_id (truncate_redo_history same st) = next_group_id st"
proof -
  have sum: "sum_list (map (delta_bytes same) (deltas st)) =
      sum_list (map (delta_bytes same) (take (index st) (deltas st))) +
      sum_list (map (delta_bytes same) (drop (index st) (deltas st)))"
    by (metis append_take_drop_id map_append sum_list_append)
  show "history_inv same (truncate_redo_history same st)"
  proof (cases "index st \<ge> length (deltas st)")
    case False
    have "groups_ok (truncate_redo_history same st)"
      using assms False
      by (auto simp: truncate_redo_history_def inv_defs sorted_wrt_take simp flip: take_map dest: in_set_takeD)
    moreover have "contents_ok same (truncate_redo_history same st)"
      using assms False sum fits_all_take_drop [of same _ "deltas st" "index st"]
      by (simp add: truncate_redo_history_def inv_defs)
    ultimately show ?thesis by (simp add: history_inv_def)
  qed (use assms in \<open>simp add: truncate_redo_history_def\<close>)
  show "at_tip (truncate_redo_history same st)" "current (truncate_redo_history same st) = current st"
      "next_group_id (truncate_redo_history same st) = next_group_id st"
    using assms by (auto simp: truncate_redo_history_def inv_defs)
qed

text \<open>A delta that fits is pushed at the tip, under the number of the last group or a later one.\<close>

lemma extended_inv:
  assumes "history_inv same st" "at_tip st" "delta_fits same (snapshot_string (current st)) delta"
    and "\<forall>d \<in> set (deltas st). group_id d \<le> group_id delta" "group_id delta < next_group_id st'"
    and "next_group_id st \<le> next_group_id st'"
    and "deltas st' = deltas st @ [delta]" "at_tip st'" "anchor st' = anchor st"
    and "text_ok same (snapshot_text (current st'))"
      "snapshot_string (current st') = delta_forward (snapshot_string (current st)) delta"
    and "history_total_bytes st' = history_total_bytes st + delta_bytes same delta"
    and "\<forall>active gid. active_group st' = Some (active, gid) \<longrightarrow> gid = group_id delta"
  shows "history_inv same st'"
proof -
  have "contents_ok same st'"
    using assms(1-3,7-12) by (simp add: inv_defs fits_all_append)
  moreover have "groups_ok st'"
    using assms(1,4-8,13) by (auto simp: inv_defs sorted_append intro: less_le_trans)
  ultimately show ?thesis by (simp add: history_inv_def)
qed

lemma empty_text [simp]: "text_ok same None" "text_of None = []"
  by (simp_all add: text_ok_def)

lemma push_cursor_move_inv:
  assumes "text_storage same" "history_inv same st" "at_tip st" "is_char_boundary (snapshot_string (current st)) next_cursor"
  shows "history_ok same (push_cursor_move same cursor next_cursor st)"
    "at_tip (push_cursor_move same cursor next_cursor st)"
    "snapshot_string (current (push_cursor_move same cursor next_cursor st)) = snapshot_string (current st)"
proof -
  define delta where "delta = \<lparr>delta_start = next_cursor, deleted_text = None, delta_inserted = [],
      before_cursor = cursor, after_cursor = next_cursor, group_id = next_group_id st\<rparr>"
  define moved where "moved = st\<lparr>next_group_id := next_group_id st + 1,
      current := apply_delta_to_snapshot same (current st) delta False, deltas := deltas st @ [delta],
      index := length (deltas st) + 1, active_group := None\<rparr>"
  have push: "push_cursor_move same cursor next_cursor st = trim_history_if_needed same moved"
    by (simp add: push_cursor_move_def take_group_id_def Let_def moved_def delta_def)
  have ok: "text_ok same (snapshot_text (current st))" using assms(2) by (simp add: inv_defs)
  have fits: "delta_fits same (snapshot_string (current st)) delta"
    using assms(4) by (simp add: delta_fits_def delta_def)
  note moved_text = text_storage.apply_delta_forward [OF assms(1) ok fits]
  have same_string: "delta_forward (snapshot_string (current st)) delta = snapshot_string (current st)"
    by (simp add: delta_forward_def delta_def replace_string_def)
  have "\<forall>d \<in> set (deltas st). group_id d \<le> group_id delta"
    using assms(2) by (auto simp: inv_defs delta_def)
  moreover have "delta_bytes same delta = 0"
    using text_storage.text_len_string [OF assms(1), of None] by (simp add: delta_bytes_def delta_def)
  ultimately have inv: "history_inv same moved" "at_tip moved"
    using moved_text
    by (auto intro!: extended_inv [OF assms(2,3) fits] simp: moved_def) (simp add: delta_def)
  show "history_ok same (push_cursor_move same cursor next_cursor st)"
      "at_tip (push_cursor_move same cursor next_cursor st)"
      "snapshot_string (current (push_cursor_move same cursor next_cursor st)) = snapshot_string (current st)"
    using trim_history_inv [OF assms(1) inv] moved_text same_string by (simp_all add: push) (simp add: moved_def)
qed

section \<open>Recording does not touch the flag of undo and redo\<close>

lemma trim_loop_flag [simp]: "applying_history (trim_loop same limit st) = applying_history st"
proof (induction same limit st rule: trim_loop.induct)
  case (1 same limit st)
  then show ?case by (subst trim_loop.simps) (simp add: drop_oldest_delta_def Let_def)
qed

lemma recording_flag [simp]:
  "applying_history (normalize_index same st) = applying_history st"
  "applying_history (truncate_redo_history same st) = applying_history st"
  "applying_history (trim_history_if_needed same st) = applying_history st"
  "applying_history (sync_current_cursor same cursor st) = applying_history st"
  "applying_history (finish_active_group st) = applying_history st"
  "applying_history (prepare_completion_edit st) = applying_history st"
  "applying_history (finish_completion_edit_cursor same cursor changed st) = applying_history st"
  "applying_history (snd (take_group_id st)) = applying_history st"
  by (simp_all add: normalize_index_def truncate_redo_history_def trim_history_if_needed_def sync_current_cursor_def
      finish_active_group_def prepare_completion_edit_def finish_completion_edit_cursor_def take_group_id_def Let_def)

lemma pushing_flag [simp]:
  "applying_history (push_cursor_move same cursor next_cursor st) = applying_history st"
  "applying_history (push_delta same delta active st) = applying_history st"
  by (simp_all add: push_cursor_move_def push_delta_def take_group_id_def Let_def)

lemma moving_flag [simp]:
  "applying_history (record_cursor_move_if_remote same a merge_group edit_group st) = applying_history st"
  "applying_history (record_cursor_move_to_if_remote same cursor st) = applying_history st"
  by (simp_all add: record_cursor_move_if_remote_def record_cursor_move_to_if_remote_def Let_def)

lemma edit_group_flag: "edit_group_id merge_group st = (gid, st') \<Longrightarrow> applying_history st' = applying_history st"
  by (auto simp: edit_group_id_def take_group_id_def split: bool.splits option.splits)

lemma editing_flag [simp]:
  "applying_history (record_edit tables same e edit_group st) = applying_history st"
  "applying_history (record_programmatic_edit same e before after st) = applying_history st"
  "applying_history (record_full_buffer_programmatic_replace same inserted before after st) = applying_history st"
  by (simp_all add: record_edit_def record_programmatic_edit_def record_full_buffer_programmatic_replace_def take_group_id_def
      Let_def edit_group_flag split: prod.split)

section \<open>Recording keeps the invariant\<close>

text \<open>The history after a change that got a delta and a group of its own.\<close>

definition recorded_alone :: "sharing \<Rightarrow> string \<Rightarrow> string \<Rightarrow> WordUndoRedoState \<Rightarrow> bool" where
  "recorded_alone same s r st \<longleftrightarrow>
     history_ok same st \<and> snapshot_string (current st) = r \<and> at_tip st \<and>
     (\<exists>xs d. deltas st = xs @ [d] \<and> (\<forall>x \<in> set xs. group_id x < group_id d) \<and> delta_fits same s d \<and> delta_forward s d = r)"

lemma push_delta_inv:
  assumes "text_storage same" "history_inv same st" "at_tip st" "delta_fits same (snapshot_string (current st)) delta"
    and "\<forall>d \<in> set (deltas st). group_id d \<le> group_id delta" "group_id delta < next_group_id st"
    and "text_ok same (snapshot_text sn)" "snapshot_string sn = delta_forward (snapshot_string (current st)) delta"
    and "\<forall>group' gid. active = Some (group', gid) \<longrightarrow> gid = group_id delta"
  shows "history_ok same (push_delta same delta active (st\<lparr>current := sn\<rparr>))"
    "snapshot_string (current (push_delta same delta active (st\<lparr>current := sn\<rparr>))) =
       delta_forward (snapshot_string (current st)) delta"
    "at_tip (push_delta same delta active (st\<lparr>current := sn\<rparr>))"
    "\<exists>xs. deltas (push_delta same delta active (st\<lparr>current := sn\<rparr>)) = xs @ [delta] \<and> set xs \<subseteq> set (deltas st)"
proof -
  define pushed where "pushed = st\<lparr>current := sn, history_total_bytes := history_total_bytes st + delta_bytes same delta,
      deltas := deltas st @ [delta], index := length (deltas st) + 1, active_group := active\<rparr>"
  have push: "push_delta same delta active (st\<lparr>current := sn\<rparr>) = trim_history_if_needed same pushed"
    by (simp add: push_delta_def pushed_def)
  have "history_inv same pushed" "at_tip pushed"
    by (rule extended_inv [OF assms(2-4)]) (use assms(5-9) in \<open>simp_all add: pushed_def\<close>)
  then show "history_ok same (push_delta same delta active (st\<lparr>current := sn\<rparr>))"
      "snapshot_string (current (push_delta same delta active (st\<lparr>current := sn\<rparr>))) =
       delta_forward (snapshot_string (current st)) delta"
      "at_tip (push_delta same delta active (st\<lparr>current := sn\<rparr>))"
    using trim_history_inv [OF assms(1), of pushed] assms(8) by (simp_all add: push) (simp add: pushed_def)
  show "\<exists>xs. deltas (push_delta same delta active (st\<lparr>current := sn\<rparr>)) = xs @ [delta] \<and> set xs \<subseteq> set (deltas st)"
    unfolding push by (rule trim_keeps_last) (simp add: pushed_def)
qed

lemma normalized_range:
  assumes "text_storage same" "text_ok same t" "normalized_replace_range same t e = (a, b)"
  shows "a \<le> b" "is_char_boundary (text_of t) a" "is_char_boundary (text_of t) b"
  using assms(3)
  by (auto simp: normalized_replace_range_def Let_def max_def text_storage.clamp_boundary_string [OF assms(1,2)])

lemma deleted_slice:
  assumes "text_storage same" "text_ok same t" "a \<le> b" "is_char_boundary (text_of t) a" "is_char_boundary (text_of t) b"
  shows "text_ok same (text_or_default (text_slice same t a b)) \<and>
    text_of (text_or_default (text_slice same t a b)) = slice (text_of t) a b"
  using text_storage.text_slice_string [OF assms(1,2), of a b] assms(3-5)
  by (cases "text_slice same t a b") (auto simp: text_or_default_def)

lemma text_len_slice: "b \<le> length s \<Longrightarrow> length (slice s a b) = b - a"
  by (simp add: slice_def)

text \<open>A recorded replacement of the bytes between two boundaries.\<close>

lemma recorded_delta:
  assumes "text_storage same" "text_ok same t" "a \<le> b" "is_char_boundary (text_of t) a" "is_char_boundary (text_of t) b"
    and "utf8_valid inserted" "delta_start delta = a" "delta_inserted delta = inserted"
    and "deleted_text delta = text_or_default (text_slice same t a b)"
  shows "delta_fits same (text_of t) delta"
    "delta_forward (text_of t) delta = replace_string (text_of t) a (b - a) inserted"
proof -
  have deleted: "text_ok same (deleted_text delta)" "deleted_string delta = slice (text_of t) a b"
    using deleted_slice [OF assms(1-5)] assms(9) by simp_all
  have "length (deleted_string delta) = b - a"
    using deleted(2) is_char_boundary_le [OF assms(5)] by (simp add: text_len_slice)
  then show "delta_fits same (text_of t) delta"
      "delta_forward (text_of t) delta = replace_string (text_of t) a (b - a) inserted"
    using deleted assms(3-8) by (simp_all add: delta_fits_def delta_forward_def slice_def)
qed

lemma edited_snapshot:
  assumes "text_storage same" "text_ok same (snapshot_text sn)" "utf8_valid inserted" "a \<le> b"
    and "is_char_boundary (snapshot_string sn) a" "is_char_boundary (snapshot_string sn) b"
  defines "sn' \<equiv> apply_edit_to_snapshot same sn \<lparr>edit_start = a, deleted_len = b - a, inserted_text = inserted\<rparr>"
  shows "text_ok same (snapshot_text sn')" "snapshot_string sn' = replace_string (snapshot_string sn) a (b - a) inserted"
  using text_storage.apply_edit_string [OF assms(1,2), of "\<lparr>edit_start = a, deleted_len = b - a, inserted_text = inserted\<rparr>"]
    assms(3-6) by (simp_all add: sn'_def)

lemma normalize_index_inv:
  assumes "text_storage same" "history_inv same st"
  defines "st' \<equiv> (normalize_index same st)\<lparr>pending_history_text_snapshots := []\<rparr>"
  shows "history_inv same st'" "snapshot_text (current st') = snapshot_text (current st)"
    "deltas st' = deltas st" "index st' = index st"
proof -
  have "\<not> index st > length (deltas st)" using assms(2) by (simp add: inv_defs)
  then show "history_inv same st'" "snapshot_text (current st') = snapshot_text (current st)"
      "deltas st' = deltas st" "index st' = index st"
    using assms(2) by (auto simp: st'_def normalize_index_def elim!: history_inv_cong)
qed

lemma record_cursor_move_inv:
  fixes a merge_group edit_group
  assumes "text_storage same" "history_inv same st" "at_tip st"
  defines "st' \<equiv> record_cursor_move_if_remote same a merge_group edit_group st"
  shows "history_inv same st'" "at_tip st'" "snapshot_string (current st') = snapshot_string (current st)"
    "merge_group \<Longrightarrow> active_group st' = active_group st"
proof -
  let ?st = "st\<lparr>suppress_next_remote_cursor_move := False\<rparr>"
  have inv: "history_inv same ?st" "at_tip ?st" using assms(2,3) by (auto elim!: history_inv_cong)
  have ok: "text_ok same (snapshot_text (current st))" using assms(2) by (simp add: inv_defs)
  define c n where "c = clamp_boundary same (snapshot_text (current st)) (min (cursor_pos (current st)) (text_len same (snapshot_text (current st))))"
    and "n = clamp_boundary same (snapshot_text (current st)) (min a (text_len same (snapshot_text (current st))))"
  have n: "is_char_boundary (snapshot_string (current ?st)) n"
    by (simp add: n_def text_storage.clamp_boundary_string [OF assms(1) ok])
  note push = push_cursor_move_inv [OF assms(1) inv n, of c]
  have "st' = ?st \<or> \<not> merge_group \<and> st' = push_cursor_move same c n ?st"
    by (simp add: st'_def record_cursor_move_if_remote_def Let_def c_def n_def)
  then show "history_inv same st'" "at_tip st'" "snapshot_string (current st') = snapshot_string (current st)"
      "merge_group \<Longrightarrow> active_group st' = active_group st"
    using inv push by (elim disjE, simp_all add: history_ok_def)+
qed


lemma taken_group_inv:
  assumes "history_inv same st" "at_tip st" "take_group_id st = (gid, st')"
  shows "history_inv same st' \<and> at_tip st' \<and> current st' = current st \<and>
    (\<forall>d \<in> set (deltas st'). group_id d < gid) \<and> gid < next_group_id st'"
  using assms by (auto simp: take_group_id_def inv_defs less_Suc_eq intro: less_imp_le)

lemma edit_group_inv:
  assumes "history_inv same st" "at_tip st"
    and "edit_group_id merge_group st = (gid, st')"
  shows "history_inv same st' \<and> at_tip st' \<and> current st' = current st \<and>
    (\<forall>d \<in> set (deltas st'). group_id d \<le> gid) \<and> gid < next_group_id st'"
proof (cases "merge_group \<and> active_group st \<noteq> None")
  case True
  then obtain active where active: "active_group st = Some (active, gid)" "st' = st"
    using assms(3) by (auto simp: edit_group_id_def split: prod.splits)
  then have last: "deltas st \<noteq> []" "group_id (last (deltas st)) = gid" "sorted (map group_id (deltas st))"
      "\<forall>d \<in> set (deltas st). group_id d < next_group_id st"
    using assms(1) by (auto simp: inv_defs)
  then have "\<forall>d \<in> set (deltas st). group_id d \<le> gid"
    by (cases "deltas st" rule: rev_cases) (auto simp: sorted_append)
  then show ?thesis using last active assms(1,2) by auto
next
  case False
  then have "take_group_id st = (gid, st')" using assms(3) by (auto simp: edit_group_id_def split: bool.splits option.splits)
  then show ?thesis using taken_group_inv [OF assms(1,2)] by (auto intro: less_imp_le)
qed

lemma record_edit_inv:
  assumes "text_storage same" "history_ok same st" "utf8_valid (inserted_text e)"
    and "normalized_replace_range same (snapshot_text (current st)) e = (a, b)"
  shows "history_ok same (record_edit tables same e edit_group st) \<and>
    snapshot_string (current (record_edit tables same e edit_group st)) =
      replace_string (snapshot_string (current st)) a (b - a) (inserted_text e) \<and>
    (active_group st = None \<and> slice (snapshot_string (current st)) a b \<noteq> inserted_text e \<longrightarrow>
      recorded_alone same (snapshot_string (current st))
        (replace_string (snapshot_string (current st)) a (b - a) (inserted_text e)) (record_edit tables same e edit_group st))"
proof -
  define st0 where "st0 = (normalize_index same st)\<lparr>pending_history_text_snapshots := []\<rparr>"
  define t where "t = snapshot_text (current st)"
  define deleted where "deleted = text_or_default (text_slice same t a b)"
  define edit where "edit = \<lparr>edit_start = a, deleted_len = b - a, inserted_text = inserted_text e\<rparr>"
  have inv: "history_inv same st" "length (deltas st) \<le> MAX_WORD_UNDO_HISTORY"
    using assms(2) by (simp_all add: history_ok_def)
  have st0: "history_inv same st0" "snapshot_text (current st0) = t" "deltas st0 = deltas st"
    using normalize_index_inv [OF assms(1) inv(1)] by (simp_all add: st0_def t_def)
  have ok: "text_ok same t" using inv(1) by (simp add: inv_defs t_def)
  note range_eq = assms(4) [folded t_def]
  note range = normalized_range [OF assms(1) ok range_eq]
  note deleted_text = deleted_slice [OF assms(1) ok range, folded deleted_def]
  show ?thesis
  proof (cases "matches_str same deleted (inserted_text e)")
    case True
    then have "inserted_text e = slice (text_of t) a b"
      using text_storage.matches_str_string [OF assms(1), of deleted] deleted_text by simp
    then have same_string: "replace_string (text_of t) a (b - a) (inserted_text e) = text_of t"
      using range by (simp add: replace_string_def slice_def) (metis append_take_drop_id drop_drop le_add_diff_inverse2)
    have "record_edit tables same e edit_group st =
        st0\<lparr>suppress_next_remote_cursor_move := False, finish_group_after_next_edit := False, completion_edit_group_id := None\<rparr>"
      using True by (simp add: record_edit_def range_eq st0(2) flip: st0_def deleted_def)
    then show ?thesis
      using st0 inv(2) same_string \<open>inserted_text e = slice (text_of t) a b\<close>
      by (auto simp: history_ok_def t_def elim!: history_inv_cong)
  next
    case False
    define st1 where "st1 = (truncate_redo_history same st0)\<lparr>finish_group_after_next_edit := False\<rparr>"
    define fin where "fin = finish_group_after_next_edit (truncate_redo_history same st0)"
    define merge_group where "merge_group = should_merge_into_active_group tables same st1 edit_group edit"
    define st2 where "st2 = record_cursor_move_if_remote same a merge_group edit_group st1"
    obtain gid st3 where st3: "edit_group_id merge_group st2 = (gid, st3)"
      by fastforce
    define st4 where "st4 = (if fin then st3\<lparr>completion_edit_group_id := Some gid\<rparr> else st3)"
    define sn where "sn = apply_edit_to_snapshot same (current st4) edit"
    define delta where "delta = \<lparr>delta_start = a, deleted_text = deleted, delta_inserted = inserted_text e,
        before_cursor = cursor_pos (current st2), after_cursor = cursor_pos sn, group_id = gid\<rparr>"
    have edit_text: "inserted_text edit = inserted_text e" by (simp add: edit_def)
    have st1: "history_inv same st1" "at_tip st1" "snapshot_string (current st1) = text_of t"
      using truncate_redo_inv [OF st0(1)] st0(2) by (auto simp: st1_def elim!: history_inv_cong)
    note st2 = record_cursor_move_inv [OF assms(1) st1(1,2), where a = a and merge_group = merge_group and edit_group = edit_group, folded st2_def]
    note inv3 = edit_group_inv [OF st2(1,2) st3]
    have st4: "history_inv same st4" "at_tip st4" "snapshot_string (current st4) = text_of t"
        "\<forall>d \<in> set (deltas st4). group_id d \<le> gid" "gid < next_group_id st4"
      using inv3 st2(3) st1(3) by (auto simp: st4_def elim!: history_inv_cong)
    have new_group: "\<forall>d \<in> set (deltas st4). group_id d < gid" if "active_group st = None"
    proof -
      have "active_group st1 = None"
        using that by (simp add: st1_def st0_def truncate_redo_history_def normalize_index_def Let_def)
      then have "\<not> merge_group" by (simp add: merge_group_def should_merge_into_active_group_def)
      then have "take_group_id st2 = (gid, st3)" using st3 by (simp add: edit_group_id_def)
      then show ?thesis using taken_group_inv [OF st2(1,2)] by (simp add: st4_def)
    qed
    have recorded: "record_edit tables same e edit_group st =
        push_delta same delta (if fin then None else Some (edit_group, gid)) (st4\<lparr>current := sn\<rparr>)"
      using False edit_text
      by (simp add: record_edit_def range_eq st0(2) Let_def st3 delta_def sn_def st4_def
          flip: st0_def deleted_def st1_def fin_def edit_def merge_group_def st2_def)
    have delta: "delta_fits same (text_of t) delta"
        "delta_forward (text_of t) delta = replace_string (text_of t) a (b - a) (inserted_text e)" "group_id delta = gid"
      using recorded_delta [OF assms(1) ok range assms(3), of delta] by (simp_all add: delta_def deleted_def)
    have "text_ok same (snapshot_text sn)" "snapshot_string sn = replace_string (text_of t) a (b - a) (inserted_text e)"
      using edited_snapshot [OF assms(1) _ assms(3) range(1), of "current st4"] st4(1,3) range(2,3)
      by (simp_all add: sn_def edit_def inv_defs)
    then have pushed: "history_ok same (record_edit tables same e edit_group st)"
        "snapshot_string (current (record_edit tables same e edit_group st)) = replace_string (text_of t) a (b - a) (inserted_text e)"
        "at_tip (record_edit tables same e edit_group st)"
        "\<exists>xs. deltas (record_edit tables same e edit_group st) = xs @ [delta] \<and> set xs \<subseteq> set (deltas st4)"
      using push_delta_inv [OF assms(1) st4(1,2), of delta sn "if fin then None else Some (edit_group, gid)", folded recorded]
        st4(3-5) delta by simp_all
    have "recorded_alone same (text_of t) (replace_string (text_of t) a (b - a) (inserted_text e)) (record_edit tables same e edit_group st)"
      if "active_group st = None"
      using pushed delta new_group [OF that] unfolding recorded_alone_def by blast
    with pushed(1,2) show ?thesis by (simp add: t_def)
  qed
qed

lemma record_programmatic_edit_inv:
  assumes "text_storage same" "history_ok same st" "utf8_valid (inserted_text e)"
    and "normalized_replace_range same (snapshot_text (current st)) e = (a, b)"
  shows "recorded_alone same (snapshot_string (current st))
    (replace_string (snapshot_string (current st)) a (b - a) (inserted_text e)) (record_programmatic_edit same e before after st)"
proof -
  define st0 where "st0 = (normalize_index same st)\<lparr>pending_history_text_snapshots := []\<rparr>"
  define st1 where "st1 = truncate_redo_history same st0"
  define t where "t = snapshot_text (current st)"
  define deleted where "deleted = text_or_default (text_slice same t a b)"
  define edit where "edit = \<lparr>edit_start = a, deleted_len = b - a, inserted_text = inserted_text e\<rparr>"
  obtain gid st2 where st2: "take_group_id st1 = (gid, st2)" by fastforce
  define sn where "sn = apply_edit_to_snapshot same (current st2) edit"
  define u where "u = snapshot_text sn"
  define after' where "after' = clamp_boundary same u (min after (text_len same u))"
  define before' where "before' = clamp_boundary same t (min before (text_len same t))"
  define delta where "delta = \<lparr>delta_start = a, deleted_text = deleted, delta_inserted = inserted_text e,
      before_cursor = before', after_cursor = after', group_id = gid\<rparr>"
  have inv: "history_inv same st" using assms(2) by (simp add: history_ok_def)
  note st0 = normalize_index_inv(1,2) [OF assms(1) inv, folded st0_def t_def]
  note st1 = truncate_redo_inv [OF st0(1), folded st1_def]
  have t1: "snapshot_text (current st1) = t" using st0(2) st1(3) by simp
  have ok: "text_ok same t" using inv by (simp add: inv_defs t_def)
  note range_eq = assms(4) [folded t_def]
  note range = normalized_range [OF assms(1) ok range_eq]
  note st2_inv = taken_group_inv [OF st1(1,2) st2]
  have edit_text: "inserted_text edit = inserted_text e" by (simp add: edit_def)
  have recorded: "record_programmatic_edit same e before after st =
      push_delta same delta (Some (replace_group, gid)) (st2\<lparr>current := sn\<lparr>cursor_pos := after'\<rparr>\<rparr>)"
    by (simp add: record_programmatic_edit_def range_eq t1 Let_def st2 delta_def edit_text
        flip: st0_def st1_def deleted_def edit_def sn_def u_def after'_def before'_def)
  have delta: "delta_fits same (text_of t) delta"
      "delta_forward (text_of t) delta = replace_string (text_of t) a (b - a) (inserted_text e)"
    using recorded_delta [OF assms(1) ok range assms(3), of delta] by (simp_all add: delta_def deleted_def)
  have sn: "text_ok same (snapshot_text sn)" "snapshot_string sn = replace_string (text_of t) a (b - a) (inserted_text e)"
    using edited_snapshot [OF assms(1) _ assms(3) range(1), of "current st2"] st2_inv t1 ok range(2,3)
    by (simp_all add: sn_def edit_def)
  have ids: "\<forall>d \<in> set (deltas st2). group_id d \<le> group_id delta" "\<forall>d \<in> set (deltas st2). group_id d < group_id delta"
    using st2_inv by (auto simp: delta_def intro: less_imp_le)
  have text2: "snapshot_string (current st2) = text_of t" "history_inv same st2" "at_tip st2" "group_id delta < next_group_id st2"
    using st2_inv t1 by (simp_all add: delta_def)
  note push = push_delta_inv [OF assms(1) text2(2,3) _ ids(1) text2(4), where sn = "sn\<lparr>cursor_pos := after'\<rparr>" and
      active = "Some (replace_group, gid)", folded recorded]
  have pushed: "history_ok same (record_programmatic_edit same e before after st)"
      "snapshot_string (current (record_programmatic_edit same e before after st)) = delta_forward (text_of t) delta"
      "at_tip (record_programmatic_edit same e before after st)"
      "\<exists>xs. deltas (record_programmatic_edit same e before after st) = xs @ [delta] \<and> set xs \<subseteq> set (deltas st2)"
    using push delta sn text2(1) by (simp_all add: delta_def)
  then show ?thesis using delta ids(2) unfolding recorded_alone_def t_def by auto
qed

lemma record_full_buffer_replace_inv:
  assumes "text_storage same" "history_ok same st" "utf8_valid inserted"
  shows "recorded_alone same (snapshot_string (current st)) inserted
    (record_full_buffer_programmatic_replace same inserted before after st)"
proof -
  define st0 where "st0 = (normalize_index same st)\<lparr>pending_history_text_snapshots := []\<rparr>"
  define st1 where "st1 = truncate_redo_history same st0"
  define t where "t = snapshot_text (current st)"
  obtain gid st2 where st2: "take_group_id st1 = (gid, st2)" by fastforce
  define u where "u = text_from_shared_string same inserted"
  define after' where "after' = clamp_boundary same u (min after (text_len same u))"
  define before' where "before' = clamp_boundary same t (min before (text_len same t))"
  define delta where "delta = \<lparr>delta_start = 0, deleted_text = t, delta_inserted = inserted,
      before_cursor = before', after_cursor = after', group_id = gid\<rparr>"
  have inv: "history_inv same st" using assms(2) by (simp add: history_ok_def)
  note st0 = normalize_index_inv(1,2) [OF assms(1) inv, folded st0_def t_def]
  note st1 = truncate_redo_inv [OF st0(1), folded st1_def]
  have t1: "snapshot_text (current st1) = t" using st0(2) st1(3) by simp
  have ok: "text_ok same t" using inv by (simp add: inv_defs t_def)
  note st2_inv = taken_group_inv [OF st1(1,2) st2]
  have recorded: "record_full_buffer_programmatic_replace same inserted before after st =
      push_delta same delta (Some (replace_group, gid)) (st2\<lparr>current := \<lparr>snapshot_text = u, cursor_pos = after'\<rparr>\<rparr>)"
    by (simp add: record_full_buffer_programmatic_replace_def t1 Let_def st2 delta_def
        flip: st0_def st1_def u_def after'_def before'_def)
  have delta: "delta_fits same (text_of t) delta" "delta_forward (text_of t) delta = inserted" "group_id delta = gid"
    using ok assms(3) by (simp_all add: delta_fits_def delta_forward_def delta_def replace_string_def)
  have "text_ok same u" "text_of u = inserted"
    using text_storage.from_storage_string [OF assms(1) utf8_valid_like [OF assms(3)]] by (simp_all add: u_def)
  then have "history_ok same (record_full_buffer_programmatic_replace same inserted before after st)"
      "snapshot_string (current (record_full_buffer_programmatic_replace same inserted before after st)) = inserted"
      "at_tip (record_full_buffer_programmatic_replace same inserted before after st)"
      "\<exists>xs. deltas (record_full_buffer_programmatic_replace same inserted before after st) = xs @ [delta] \<and> set xs \<subseteq> set (deltas st2)"
    using push_delta_inv [OF assms(1), of st2 delta "\<lparr>snapshot_text = u, cursor_pos = after'\<rparr>" "Some (replace_group, gid)",
        folded recorded] st2_inv t1 delta by (simp_all add: less_imp_le)
  then show ?thesis using st2_inv delta unfolding recorded_alone_def t_def by auto
qed

text \<open>Operations that leave the texts alone.\<close>

lemma cursor_ops_inv:
  assumes "history_ok same st"
  shows "history_ok same (finish_active_group st)" "history_ok same (sync_current_cursor same cursor st)"
    "history_ok same (prepare_completion_edit st)"
  using assms unfolding history_ok_def
  by (auto simp: finish_active_group_def sync_current_cursor_def prepare_completion_edit_def Let_def elim!: history_inv_cong)

lemma record_cursor_move_to_inv:
  assumes "text_storage same" "history_ok same st"
  defines "st' \<equiv> \<lambda>cursor. record_cursor_move_to_if_remote same cursor st"
  shows "history_ok same (st' cursor) \<and> snapshot_string (current (st' cursor)) = snapshot_string (current st)"
proof -
  define st0 where "st0 = normalize_index same st"
  define t where "t = snapshot_text (current st)"
  define c n where "c = clamp_boundary same t (min (cursor_pos (current st0)) (text_len same t))"
    and "n = clamp_boundary same t (min cursor (text_len same t))"
  have inv: "history_inv same st" "length (deltas st) \<le> MAX_WORD_UNDO_HISTORY" "\<not> index st > length (deltas st)"
    using assms(2) by (simp_all add: history_ok_def inv_defs)
  then have st0: "history_ok same st0" "snapshot_text (current st0) = t"
    by (auto simp: st0_def t_def normalize_index_def history_ok_def elim!: history_inv_cong)
  have ok: "text_ok same t" using inv(1) by (simp add: inv_defs t_def)
  have "is_char_boundary (text_of t) n"
    by (simp add: n_def text_storage.clamp_boundary_string [OF assms(1) ok])
  moreover have "st' cursor = st0 \<or> st' cursor = push_cursor_move same c n (truncate_redo_history same st0)"
    by (simp add: st'_def record_cursor_move_to_if_remote_def Let_def st0(2) c_def n_def flip: st0_def)
  moreover have "history_inv same st0" using st0(1) by (simp add: history_ok_def)
  note cut = truncate_redo_inv [OF this]
  ultimately show ?thesis
    using push_cursor_move_inv [OF assms(1) cut(1,2), of n c] st0 by (auto simp: cut(3) t_def)
qed

lemma delta_cursor_irrelevant [simp]:
  "delta_fits same s (delta\<lparr>after_cursor := c\<rparr>) = delta_fits same s delta"
  "delta_forward s (delta\<lparr>after_cursor := c\<rparr>) = delta_forward s delta"
  "delta_bytes same (delta\<lparr>after_cursor := c\<rparr>) = delta_bytes same delta"
  by (simp_all add: delta_fits_def delta_forward_def delta_bytes_def)

lemma finish_completion_inv:
  assumes "history_ok same st"
  defines "st' \<equiv> \<lambda>cursor changed. finish_completion_edit_cursor same cursor changed st"
  shows "history_ok same (st' cursor changed) \<and> snapshot_string (current (st' cursor changed)) = snapshot_string (current st)"
proof -
  define c where "c = clamp_boundary same (snapshot_text (current st)) (min cursor (text_len same (snapshot_text (current st))))"
  define st1 where "st1 = st\<lparr>current := (current st)\<lparr>cursor_pos := c\<rparr>, completion_edit_group_id := None,
      suppress_next_remote_cursor_move := False, finish_group_after_next_edit := False\<rparr>"
  have st1: "history_ok same st1" "snapshot_string (current st1) = snapshot_string (current st)"
    using assms(1) by (auto simp: st1_def history_ok_def elim!: history_inv_cong)
  have cases: "st' cursor changed = st1 \<or> at_tip st1 \<and> deltas st1 \<noteq> [] \<and>
      st' cursor changed = st1\<lparr>deltas := butlast (deltas st1) @ [(last (deltas st1))\<lparr>after_cursor := c\<rparr>]\<rparr>"
    by (simp add: st'_def finish_completion_edit_cursor_def Let_def st1_def c_def)
  have "history_ok same (st1\<lparr>deltas := butlast (deltas st1) @ [(last (deltas st1))\<lparr>after_cursor := c\<rparr>]\<rparr>)"
    if "at_tip st1" "deltas st1 \<noteq> []"
  proof -
    obtain ds d where "deltas st1 = ds @ [d]" using \<open>deltas st1 \<noteq> []\<close> by (cases "deltas st1" rule: rev_cases) auto
    then show ?thesis
      using st1(1) \<open>at_tip st1\<close> by (auto simp: history_ok_def inv_defs fits_all_append sorted_append)
  qed
  then show ?thesis using st1 cases by auto
qed

lemma history_from_inv:
  assumes "text_ok same (snapshot_text sn)" "utf8_valid (snapshot_string sn)"
  shows "history_ok same (history_from sn)"
  using assms by (simp add: history_from_def history_ok_def inv_defs)

section \<open>Undo and redo move along the history\<close>

definition segment :: "'a list \<Rightarrow> nat \<Rightarrow> nat \<Rightarrow> 'a list" where
  "segment xs a b = take (b - a) (drop a xs)"

lemma segment_simps [simp]: "segment xs a a = []"
  by (simp add: segment_def)

lemma segment_last: "a < b \<Longrightarrow> b \<le> length xs \<Longrightarrow> segment xs a b = segment xs a (b - 1) @ [xs ! (b - 1)]"
proof -
  assume "a < b" "b \<le> length xs"
  then have "b - a = Suc (b - 1 - a)" "b - 1 - a < length (drop a xs)" "drop a xs ! (b - 1 - a) = xs ! (b - 1)" by auto
  then show ?thesis unfolding segment_def by (metis take_Suc_conv_app_nth)
qed

lemma segment_first: "a < b \<Longrightarrow> b \<le> length xs \<Longrightarrow> segment xs a b = xs ! a # segment xs (Suc a) b"
  by (simp add: segment_def Cons_nth_drop_Suc [symmetric] take_Cons' Suc_diff_Suc)

lemma take_segment: "a \<le> b \<Longrightarrow> take b xs = take a xs @ segment xs a b"
  by (simp add: segment_def flip: take_add)

lemma set_segment: "b \<le> length xs \<Longrightarrow> x \<in> set (segment xs a b) \<longleftrightarrow> (\<exists>i. a \<le> i \<and> i < b \<and> x = xs ! i)"
proof
  assume b: "b \<le> length xs"
  show "x \<in> set (segment xs a b) \<Longrightarrow> \<exists>i. a \<le> i \<and> i < b \<and> x = xs ! i"
    using b by (auto simp: segment_def in_set_conv_nth) (metis le_add1 less_diff_conv add.commute)
  assume "\<exists>i. a \<le> i \<and> i < b \<and> x = xs ! i"
  then obtain i where "a \<le> i" "i < b" "x = xs ! i" by blast
  then show "x \<in> set (segment xs a b)"
    using b by (auto simp: segment_def in_set_conv_nth intro!: exI [of _ "i - a"])
qed

lemma contents_fit_at:
  assumes "contents_ok same st" "i < length (deltas st)"
  shows "delta_fits same (replay (snapshot_string (anchor st)) (take i (deltas st))) (deltas st ! i)"
    "utf8_valid (replay (snapshot_string (anchor st)) (take i (deltas st)))"
    "replay (snapshot_string (anchor st)) (take (Suc i) (deltas st)) =
       delta_forward (replay (snapshot_string (anchor st)) (take i (deltas st))) (deltas st ! i)"
proof -
  let ?s = "snapshot_string (anchor st)"
  have "fits_all same ?s (take (Suc i) (deltas st))" "fits_all same ?s (take i (deltas st))" "utf8_valid ?s"
    using assms(1) fits_all_take_drop by (auto simp: contents_ok_def)
  then show "delta_fits same (replay ?s (take i (deltas st))) (deltas st ! i)"
      "utf8_valid (replay ?s (take i (deltas st)))"
      "replay ?s (take (Suc i) (deltas st)) = delta_forward (replay ?s (take i (deltas st))) (deltas st ! i)"
    using assms(2) by (auto simp: take_Suc_conv_app_nth fits_all_append replay_valid)
qed

lemma undo_loop_spec:
  assumes "text_storage same" "contents_ok same st"
  shows "\<exists>k sn. undo_loop same target st grouped = (st\<lparr>index := k, current := sn\<rparr>, grouped @ rev (segment (deltas st) k (index st))) \<and>
    k \<le> index st \<and> contents_ok same (st\<lparr>index := k, current := sn\<rparr>) \<and>
    (\<forall>d \<in> set (segment (deltas st) k (index st)). group_id d = target) \<and>
    (k = 0 \<or> group_id (deltas st ! (k - 1)) \<noteq> target)"
  using assms
proof (induction same target st grouped rule: undo_loop.induct)
  case (1 same target st grouped)
  have le: "index st \<le> length (deltas st)" using "1.prems" by (simp add: contents_ok_def)
  define delta where "delta = deltas st ! (index st - 1)"
  show ?case
  proof (cases "index st > 0 \<and> group_id delta = target")
    case False
    then have "undo_loop same target st grouped = (st, grouped)"
      using le by (subst undo_loop.simps) (auto simp: delta_def)
    then show ?thesis
      using False "1.prems"
      by (intro exI [of _ "index st"] exI [of _ "current st"]) (auto simp: delta_def)
  next
    case True
    let ?s = "replay (snapshot_string (anchor st)) (take (index st - 1) (deltas st))"
    let ?sn = "apply_delta_to_snapshot same (current st) delta True"
    let ?st = "st\<lparr>index := index st - 1, current := ?sn\<rparr>"
    have less: "index st - 1 < length (deltas st)" using True le by linarith
    note fit = contents_fit_at [OF "1.prems"(2) less, folded delta_def]
    have "snapshot_string (current st) = delta_forward ?s delta"
      using fit(3) True "1.prems"(2) by (simp add: contents_ok_def)
    then have "text_ok same (snapshot_text ?sn)" "snapshot_string ?sn = ?s"
      using text_storage.apply_delta_backward [OF "1.prems"(1) _ fit(2,1), of "current st"] "1.prems"(2)
      by (simp_all add: contents_ok_def)
    then have ok: "contents_ok same ?st" using "1.prems"(2) le by (simp add: contents_ok_def)
    have step: "undo_loop same target st grouped = undo_loop same target ?st (grouped @ [delta])"
      using True less by (subst undo_loop.simps) (simp add: delta_def Let_def)
    obtain k sn where IH: "undo_loop same target ?st (grouped @ [delta]) =
          (?st\<lparr>index := k, current := sn\<rparr>, (grouped @ [delta]) @ rev (segment (deltas ?st) k (index ?st)))"
        "k \<le> index ?st" "contents_ok same (?st\<lparr>index := k, current := sn\<rparr>)"
        "\<forall>d \<in> set (segment (deltas ?st) k (index ?st)). group_id d = target"
        "k = 0 \<or> group_id (deltas ?st ! (k - 1)) \<noteq> target"
      using "1.IH" [OF _ less delta_def _ "1.prems"(1) ok] True by auto
    have "k < index st" using IH(2) True by simp linarith
    then have "segment (deltas st) k (index st) = segment (deltas st) k (index st - 1) @ [delta]"
      using segment_last [of k "index st" "deltas st"] le by (simp add: delta_def)
    then show ?thesis
      using step IH True by (intro exI [of _ k] exI [of _ sn]) auto
  qed
qed

lemma redo_loop_spec:
  assumes "text_storage same" "contents_ok same st"
  shows "\<exists>k sn. redo_loop same target st grouped = (st\<lparr>index := k, current := sn\<rparr>, grouped @ segment (deltas st) (index st) k) \<and>
    index st \<le> k \<and> k \<le> length (deltas st) \<and> contents_ok same (st\<lparr>index := k, current := sn\<rparr>) \<and>
    (\<forall>d \<in> set (segment (deltas st) (index st) k). group_id d = target) \<and>
    (k = length (deltas st) \<or> group_id (deltas st ! k) \<noteq> target)"
  using assms
proof (induction same target st grouped rule: redo_loop.induct)
  case (1 same target st grouped)
  have le: "index st \<le> length (deltas st)" using "1.prems" by (simp add: contents_ok_def)
  define delta where "delta = deltas st ! index st"
  show ?case
  proof (cases "index st < length (deltas st) \<and> group_id delta = target")
    case False
    then have "redo_loop same target st grouped = (st, grouped)"
      by (subst redo_loop.simps) (auto simp: delta_def)
    then show ?thesis
      using False "1.prems" le
      by (intro exI [of _ "index st"] exI [of _ "current st"]) (auto simp: delta_def)
  next
    case True
    let ?s = "replay (snapshot_string (anchor st)) (take (index st) (deltas st))"
    let ?sn = "apply_delta_to_snapshot same (current st) delta False"
    let ?st = "st\<lparr>current := ?sn, index := index st + 1\<rparr>"
    have less: "index st < length (deltas st)" using True by simp
    note fit = contents_fit_at [OF "1.prems"(2) less, folded delta_def]
    have "text_ok same (snapshot_text (current st))" "snapshot_string (current st) = ?s"
      using "1.prems"(2) by (simp_all add: contents_ok_def)
    then have "text_ok same (snapshot_text ?sn)" "snapshot_string ?sn = delta_forward ?s delta"
      using text_storage.apply_delta_forward [OF "1.prems"(1), of "current st" delta] fit(1) by simp_all
    then have ok: "contents_ok same ?st" using "1.prems"(2) less fit(3) by (simp add: contents_ok_def)
    have step: "redo_loop same target st grouped = redo_loop same target ?st (grouped @ [delta])"
      using True by (subst redo_loop.simps) (simp add: delta_def Let_def)
    obtain k sn where IH: "redo_loop same target ?st (grouped @ [delta]) =
          (?st\<lparr>index := k, current := sn\<rparr>, (grouped @ [delta]) @ segment (deltas ?st) (index ?st) k)"
        "index ?st \<le> k" "k \<le> length (deltas ?st)" "contents_ok same (?st\<lparr>index := k, current := sn\<rparr>)"
        "\<forall>d \<in> set (segment (deltas ?st) (index ?st) k). group_id d = target"
        "k = length (deltas ?st) \<or> group_id (deltas ?st ! k) \<noteq> target"
      using "1.IH" [OF less delta_def _ "1.prems"(1) ok] True by auto
    have "segment (deltas st) (index st) k = delta # segment (deltas st) (Suc (index st)) k"
      using segment_first [of "index st" k "deltas st"] IH(2,3) by (simp add: delta_def)
    then show ?thesis
      using step IH True by (intro exI [of _ k] exI [of _ sn]) auto
  qed
qed

text \<open>The index after a group has been undone or redone is between groups again.\<close>

lemma border_groups_ok:
  assumes "groups_ok st" "k \<le> length (deltas st)"
    and "k = 0 \<or> k = length (deltas st) \<or> group_id (deltas st ! (k - 1)) \<noteq> group_id (deltas st ! k)"
  shows "groups_ok (st\<lparr>index := k, current := sn, active_group := None\<rparr>)"
proof -
  have sorted: "group_id (deltas st ! i) \<le> group_id (deltas st ! j)" if "i \<le> j" "j < length (deltas st)" for i j
    using assms(1) that sorted_nth_mono [of "map group_id (deltas st)" i j] by (simp add: groups_ok_def)
  have "group_id (deltas st ! i) < group_id (deltas st ! j)" if "i < k" "j < length (deltas st)" "k \<le> j" for i j
    using sorted [of i "k - 1"] sorted [of k j] sorted [of "k - 1" k] that assms(3) by fastforce
  then show ?thesis using assms(1,2) by (simp add: groups_ok_def)
qed

definition moved_to :: "sharing \<Rightarrow> WordUndoRedoState \<Rightarrow> nat \<Rightarrow> WordUndoRedoState \<Rightarrow> bool" where
  "moved_to same st k st' \<longleftrightarrow> history_ok same st' \<and> index st' = k \<and> deltas st' = deltas st \<and> anchor st' = anchor st"

lemma take_undo_group_spec:
  assumes "text_storage same" "history_ok same st"
  shows "\<exists>st' k. take_undo_group same st = (st', rev (segment (deltas st) k (index st))) \<and> moved_to same st k st' \<and>
    k \<le> index st \<and> (0 < index st \<longrightarrow> k < index st) \<and>
    (\<forall>d \<in> set (segment (deltas st) k (index st)). group_id d = group_id (deltas st ! (index st - 1))) \<and>
    (0 < k \<longrightarrow> group_id (deltas st ! (k - 1)) \<noteq> group_id (deltas st ! (index st - 1))) \<and>
    applying_history st' = (segment (deltas st) k (index st) \<noteq> [] \<or> applying_history st)"
proof -
  define st0 where "st0 = (normalize_index same st)\<lparr>pending_history_text_snapshots := []\<rparr>"
  have inv: "history_inv same st" "length (deltas st) \<le> MAX_WORD_UNDO_HISTORY" using assms(2) by (simp_all add: history_ok_def)
  have st0: "history_inv same st0" "deltas st0 = deltas st" "index st0 = index st" "anchor st0 = anchor st"
      "applying_history st0 = applying_history st"
    using normalize_index_inv [OF assms(1) inv(1)] by (simp_all add: st0_def) (simp add: normalize_index_def)
  have le: "index st \<le> length (deltas st)" using inv(1) by (simp add: inv_defs)
  show ?thesis
  proof (cases "index st = 0")
    case True
    then have "take_undo_group same st = (st0, [])" using st0(3) by (simp add: take_undo_group_def flip: st0_def)
    then show ?thesis
      using True st0 inv(2) by (intro exI [of _ st0] exI [of _ 0]) (simp add: moved_to_def history_ok_def)
  next
    case False
    let ?target = "group_id (deltas st ! (index st - 1))"
    have less: "index st - 1 < length (deltas st)" using False le by linarith
    have "contents_ok same st0" using st0(1) by (simp add: history_inv_def)
    from undo_loop_spec [OF assms(1) this, of ?target "[]"]
    obtain k sn where loop: "undo_loop same ?target st0 [] = (st0\<lparr>index := k, current := sn\<rparr>, rev (segment (deltas st) k (index st)))"
        "k \<le> index st" "contents_ok same (st0\<lparr>index := k, current := sn\<rparr>)"
        "\<forall>d \<in> set (segment (deltas st) k (index st)). group_id d = ?target"
        "k = 0 \<or> group_id (deltas st ! (k - 1)) \<noteq> ?target"
      using st0(2,3) by auto
    have "k \<noteq> index st" using loop(5) False by auto
    then have k: "k < index st" using loop(2) by simp
    then have "deltas st ! k \<in> set (segment (deltas st) k (index st))" using le by (auto simp: set_segment)
    then have target: "group_id (deltas st ! k) = ?target" and some: "segment (deltas st) k (index st) \<noteq> []"
      using loop(4) by auto
    define st' where "st' = after_history_group same (rev (segment (deltas st) k (index st))) (st0\<lparr>index := k, current := sn\<rparr>)"
    have groups: "groups_ok (st0\<lparr>index := k, current := sn, active_group := None\<rparr>)"
      using border_groups_ok [of st0 k sn] st0 loop(5) target k le by (auto simp: history_inv_def)
    have "history_inv same st'"
      using loop(3) groups some by (simp add: st'_def after_history_group_def inv_defs)
    moreover have "take_undo_group same st = (st', rev (segment (deltas st) k (index st)))"
      using False less loop(1) st0(2,3) by (simp add: take_undo_group_def st'_def flip: st0_def)
    ultimately show ?thesis
      using loop(4,5) k st0 inv(2) some
      by (intro exI [of _ st'] exI [of _ k]) (auto simp: moved_to_def history_ok_def st'_def after_history_group_def)
  qed
qed

lemma take_redo_group_spec:
  assumes "text_storage same" "history_ok same st"
  shows "\<exists>st' k. take_redo_group same st = (st', segment (deltas st) (index st) k) \<and> moved_to same st k st' \<and>
    index st \<le> k \<and> (index st < length (deltas st) \<longrightarrow> index st < k) \<and> k \<le> length (deltas st) \<and>
    (k < length (deltas st) \<longrightarrow> group_id (deltas st ! k) \<noteq> group_id (deltas st ! index st)) \<and>
    (\<forall>d \<in> set (segment (deltas st) (index st) k). group_id d = group_id (deltas st ! index st)) \<and>
    applying_history st' = (segment (deltas st) (index st) k \<noteq> [] \<or> applying_history st)"
proof -
  define st0 where "st0 = (normalize_index same st)\<lparr>pending_history_text_snapshots := []\<rparr>"
  have inv: "history_inv same st" "length (deltas st) \<le> MAX_WORD_UNDO_HISTORY" using assms(2) by (simp_all add: history_ok_def)
  have st0: "history_inv same st0" "deltas st0 = deltas st" "index st0 = index st" "anchor st0 = anchor st"
      "applying_history st0 = applying_history st"
    using normalize_index_inv [OF assms(1) inv(1)] by (simp_all add: st0_def) (simp add: normalize_index_def)
  have le: "index st \<le> length (deltas st)" using inv(1) by (simp add: inv_defs)
  show ?thesis
  proof (cases "index st = length (deltas st)")
    case True
    then have "take_redo_group same st = (st0, [])" using st0(2,3) by (simp add: take_redo_group_def flip: st0_def)
    then show ?thesis
      using True st0 inv(2) by (intro exI [of _ st0] exI [of _ "index st"]) (simp add: moved_to_def history_ok_def)
  next
    case False
    let ?target = "group_id (deltas st ! index st)"
    have less: "index st < length (deltas st)" using False le by linarith
    have "contents_ok same st0" using st0(1) by (simp add: history_inv_def)
    from redo_loop_spec [OF assms(1) this, of ?target "[]"]
    obtain k sn where loop: "redo_loop same ?target st0 [] = (st0\<lparr>index := k, current := sn\<rparr>, segment (deltas st) (index st) k)"
        "index st \<le> k" "k \<le> length (deltas st)" "contents_ok same (st0\<lparr>index := k, current := sn\<rparr>)"
        "\<forall>d \<in> set (segment (deltas st) (index st) k). group_id d = ?target"
        "k = length (deltas st) \<or> group_id (deltas st ! k) \<noteq> ?target"
      using st0(2,3) by auto
    have k: "index st < k" using loop(2,6) less by (metis le_neq_implies_less)
    then have "deltas st ! (k - 1) \<in> set (segment (deltas st) (index st) k)" using loop(3) by (auto simp: set_segment intro!: exI [of _ "k - 1"])
    then have target: "group_id (deltas st ! (k - 1)) = ?target" and some: "segment (deltas st) (index st) k \<noteq> []"
      using loop(5) by auto
    define st' where "st' = after_history_group same (segment (deltas st) (index st) k) (st0\<lparr>index := k, current := sn\<rparr>)"
    have groups: "groups_ok (st0\<lparr>index := k, current := sn, active_group := None\<rparr>)"
      using border_groups_ok [of st0 k sn] st0 loop(3,6) target by (auto simp: history_inv_def)
    have "history_inv same st'"
      using loop(4) groups some by (simp add: st'_def after_history_group_def inv_defs)
    moreover have "take_redo_group same st = (st', segment (deltas st) (index st) k)"
      using False less loop(1) st0(2,3) by (simp add: take_redo_group_def st'_def flip: st0_def)
    ultimately show ?thesis
      using loop(3,5,6) k st0 inv(2) some
      by (intro exI [of _ st'] exI [of _ k]) (auto simp: moved_to_def history_ok_def st'_def after_history_group_def)
  qed
qed

end
