(* ===== verification/Undo_Editor.thy ===== *)
theory Undo_Editor
  imports Undo_Laws
begin

text \<open>
  An editor with its undo history. Undo and redo reverse or repeat a group of deltas on the snapshot, but send
  the buffer one composite edit that is computed from the two texts; the first part shows that this edit
  always gives the buffer the text of the snapshot. The second part is the editor as a state machine over
  the recorders, undo and redo.
\<close>

section \<open>Runs of replacements\<close>

type_synonym replacement = "nat \<times> nat \<times> string"

fun replace_one :: "string \<Rightarrow> replacement \<Rightarrow> string" where
  "replace_one s (a, d, inserted) = replace_string s a d inserted"

fun edits_ok :: "string \<Rightarrow> replacement list \<Rightarrow> bool" where
  "edits_ok s [] = True"
| "edits_ok s ((a, d, inserted) # rest) =
     (is_char_boundary s a \<and> is_char_boundary s (a + d) \<and> utf8_valid inserted \<and>
      edits_ok (replace_string s a d inserted) rest)"

abbreviation all_edits :: "string \<Rightarrow> replacement list \<Rightarrow> string" where
  "all_edits \<equiv> foldl replace_one"

definition payload :: "replacement list \<Rightarrow> nat" where
  "payload edits = sum_list (map (\<lambda>(a, d, inserted). d + length inserted) edits)"

lemma payload_simps [simp]: "payload [] = 0" "payload ((a, d, inserted) # edits) = d + length inserted + payload edits"
  by (simp_all add: payload_def)

lemma all_edits_valid: "utf8_valid s \<Longrightarrow> edits_ok s edits \<Longrightarrow> utf8_valid (all_edits s edits)"
  by (induction s edits rule: edits_ok.induct) (auto simp: replace_string_valid)

lemma boundary_of_drop: "q \<le> length s \<Longrightarrow> utf8_like (drop q s) \<Longrightarrow> is_char_boundary s q"
  using boundary_between [of "drop q s" "take q s"] by (simp add: min_absorb2)

text \<open>
  What a run of replacements leaves alone: the bytes before the first place, and the bytes from a place on that
  is at most the last place plus everything that was deleted and inserted.
\<close>

lemma drop_replace_string:
  assumes "a + d \<le> length s" "a + length inserted \<le> r"
  shows "drop r (replace_string s a d inserted) = drop (r - length inserted + d) s"
proof -
  have "drop r (replace_string s a d inserted) = drop (r - a - length inserted) (drop (a + d) s)"
    using assms by (simp add: replace_string_def min_absorb2)
  then show ?thesis using assms(2) by (simp add: add.commute)
qed

lemma all_edits_prefix:
  "edits_ok s edits \<Longrightarrow> \<forall>(a, d, inserted) \<in> set edits. m \<le> a \<Longrightarrow> take m (all_edits s edits) = take m s"
proof (induction s edits rule: edits_ok.induct)
  case (2 s a d inserted rest)
  have "a \<le> length s" using "2.prems"(1) is_char_boundary_le by auto
  then have "take m (replace_string s a d inserted) = take m s"
    using "2.prems"(2) by (auto simp: replace_string_def min_absorb2 min_absorb1)
  then show ?case using 2 by auto
qed simp

lemma boundary_before_replacement:
  assumes "utf8_valid s" "is_char_boundary s a" "is_char_boundary s (a + d)" "utf8_valid inserted"
    and "is_char_boundary s m" "m \<le> a"
  shows "is_char_boundary (replace_string s a d inserted) m"
proof (cases "m = a")
  case True
  then show ?thesis using replace_string_boundary(1) assms by blast
next
  case False
  then have "m < length (take a s)" using assms(2,6) is_char_boundary_le [of s a] by simp
  then show ?thesis
    using assms(5) by (auto simp: is_char_boundary_def replace_string_def nth_append)
qed

lemma all_edits_suffix:
  assumes "utf8_valid s" "edits_ok s edits" "\<forall>(a, d, inserted) \<in> set edits. m \<le> a \<and> a \<le> M"
    and "is_char_boundary s m" "m \<le> M"
  shows "\<exists>q q'. m \<le> q \<and> q \<le> M + payload edits \<and> is_char_boundary s q \<and> m \<le> q' \<and>
    is_char_boundary (all_edits s edits) q' \<and> drop q s = drop q' (all_edits s edits)"
  using assms
proof (induction s edits rule: edits_ok.induct)
  case (1 s)
  then show ?case by (intro exI [of _ m]) simp
next
  case (2 s a d inserted rest)
  let ?s = "replace_string s a d inserted" and ?l = "length inserted"
  let ?e = "all_edits s ((a, d, inserted) # rest)"
  have a: "is_char_boundary s a" "is_char_boundary s (a + d)" "utf8_valid inserted" "edits_ok ?s rest" "m \<le> a" "a \<le> M"
    using "2.prems" by auto
  have le: "a + d \<le> length s" using a(2) is_char_boundary_le by blast
  note facts = replace_string_facts [OF "2.prems"(1) a(3,1,2)]
  have "is_char_boundary ?s m"
    using boundary_before_replacement "2.prems"(1,4) a by blast
  then obtain q q' where q: "q \<le> M + payload rest" "is_char_boundary ?s q" "m \<le> q'" "is_char_boundary ?e q'"
      "drop q ?s = drop q' ?e"
    using "2.IH" [OF facts(1) a(4)] "2.prems"(3,5) by auto
  define r where "r = max q (a + ?l)"
  have r: "is_char_boundary ?s r" "q \<le> r" "a + ?l \<le> r" using q(2) facts(3) by (auto simp: r_def max_def)
  have tail: "drop (r - ?l + d) s = drop r ?s" using drop_replace_string [OF le r(3)] by simp
  have tail': "drop r ?s = drop (q' + (r - q)) ?e"
    using q(5) r(2) by (metis add.commute drop_drop le_add_diff_inverse)
  have like: "utf8_like (drop r ?s)" using utf8_valid_drop [OF facts(1) r(1)] by (rule utf8_valid_like)
  have len: "length s - (a + d) = length ?s - (a + ?l)" "length ?s - q = length ?e - q'" "q' \<le> length ?e"
    using facts(6) le arg_cong [OF q(5), of length] is_char_boundary_le [OF q(4)] by simp_all
  have "r - ?l + d \<le> length s" "q' + (r - q) \<le> length ?e"
    using is_char_boundary_le [OF r(1)] r(2,3) facts(6) le len by linarith+
  then have "is_char_boundary s (r - ?l + d)" "is_char_boundary ?e (q' + (r - q))"
    using boundary_of_drop like tail tail' by metis+
  moreover have "r - ?l + d \<le> M + payload ((a, d, inserted) # rest)"
    using q(1) a(6) by (auto simp: r_def max_def)
  moreover have "m \<le> r - ?l + d" "m \<le> q' + (r - q)" using a(5) r(3) q(3) by linarith+
  ultimately show ?case using tail tail' by metis
qed

section \<open>Common ends of two fragments\<close>

lemma common_prefix_chars_take:
  "\<exists>k. common_prefix_chars ls rs = length (concat (take k ls)) \<and> take k ls = take k rs"
proof (induction ls rs rule: common_prefix_chars.induct)
  case (1 l ls r rs)
  show ?case
  proof (cases "l = r")
    case True
    then obtain k where "common_prefix_chars ls rs = length (concat (take k ls))" "take k ls = take k rs" using 1 by blast
    then show ?thesis using True by (intro exI [of _ "Suc k"]) simp
  qed (intro exI [of _ 0], simp)
qed (intro exI [of _ 0], simp)+

lemma common_suffix_chars_take:
  assumes "n \<le> l_max" "n \<le> r_max"
  shows "\<exists>k. common_suffix_chars l_max r_max n ls rs = n + length (concat (take k ls)) \<and> take k ls = take k rs \<and>
    common_suffix_chars l_max r_max n ls rs \<le> l_max \<and> common_suffix_chars l_max r_max n ls rs \<le> r_max"
  using assms
proof (induction l_max r_max n ls rs rule: common_suffix_chars.induct)
  case (1 l_max r_max n l ls r rs)
  show ?case
  proof (cases "l = r \<and> n + length l \<le> l_max \<and> n + length l \<le> r_max")
    case True
    then obtain k where "common_suffix_chars l_max r_max (n + length l) ls rs = n + length l + length (concat (take k ls))"
        "take k ls = take k rs" "common_suffix_chars l_max r_max (n + length l) ls rs \<le> l_max"
        "common_suffix_chars l_max r_max (n + length l) ls rs \<le> r_max"
      using 1 by auto
    then show ?thesis using True by (intro exI [of _ "Suc k"]) auto
  next
    case False
    then show ?thesis using "1.prems" by (intro exI [of _ 0]) auto
  qed
qed (intro exI [of _ 0], simp)+

lemma concat_take_rev: "concat (rev (take k (rev xs))) = concat (drop (length xs - k) xs)"
  by (simp add: take_rev)

lemma char_starts_are_boundaries:
  assumes "utf8_valid s"
  shows "is_char_boundary s (length (concat (take k (text_chars s))))"
    "take (length (concat (take k (text_chars s)))) s = concat (take k (text_chars s))"
proof -
  have chars: "list_all char_ok (text_chars s)" "concat (text_chars s) = s"
    using assms by (simp_all add: utf8_valid_def concat_text_chars)
  show "is_char_boundary s (length (concat (take k (text_chars s))))"
    using char_end_is_boundary [OF chars(1), of k] chars(2) by simp
  have "s = concat (take k (text_chars s)) @ concat (drop k (text_chars s))"
    by (metis append_take_drop_id chars(2) concat_append)
  then show "take (length (concat (take k (text_chars s)))) s = concat (take k (text_chars s))"
    by (metis append_eq_conv_conj)
qed

lemma length_concat_rev: "length (concat (rev xs)) = length (concat xs)"
  by (induction xs) simp_all

lemma char_ends_are_boundaries:
  assumes "utf8_valid s" and n: "n = length (concat (take k (rev (text_chars s))))"
  shows "is_char_boundary s (length s - n)" "drop (length s - n) s = concat (rev (take k (rev (text_chars s))))"
    "n \<le> length s"
proof -
  let ?j = "length (text_chars s) - k"
  have split: "s = concat (take ?j (text_chars s)) @ concat (drop ?j (text_chars s))"
    by (metis append_take_drop_id concat_append concat_text_chars)
  have "n = length (concat (drop ?j (text_chars s)))"
    using n by (metis concat_take_rev length_concat_rev)
  then have len: "length s = length (concat (take ?j (text_chars s))) + n"
    by (metis split length_append)
  then show "is_char_boundary s (length s - n)" "n \<le> length s"
    using char_starts_are_boundaries(1) [OF assms(1), of ?j] by simp_all
  show "drop (length s - n) s = concat (rev (take k (rev (text_chars s))))"
    using len split concat_take_rev by (metis add_diff_cancel_right' append_eq_conv_conj)
qed

lemma common_ends:
  assumes "utf8_valid l" "utf8_valid r"
  defines "p \<equiv> common_prefix_bytes l r"
  defines "x \<equiv> common_suffix_bytes l r p"
  shows "p + x \<le> length l" "p + x \<le> length r" "take p l = take p r" "drop (length l - x) l = drop (length r - x) r"
    "is_char_boundary r p" "is_char_boundary r (length r - x)"
proof -
  obtain k where k: "p = length (concat (take k (text_chars l)))" "take k (text_chars l) = take k (text_chars r)"
    using common_prefix_chars_take by (metis common_prefix_bytes_def p_def)
  note l = char_starts_are_boundaries [OF assms(1), of k] and r = char_starts_are_boundaries [OF assms(2), of k]
  show "take p l = take p r" "is_char_boundary r p" using l r k by simp_all
  have p: "p \<le> length l" "p \<le> length r" using l(1) r(1) k is_char_boundary_le by simp_all
  obtain j where j: "x = length (concat (take j (rev (text_chars l))))" "take j (rev (text_chars l)) = take j (rev (text_chars r))"
      "x \<le> length l - p" "x \<le> length r - p"
    using common_suffix_chars_take [of 0 "length l - p" "length r - p" "rev (text_chars l)" "rev (text_chars r)"]
    by (auto simp: x_def common_suffix_bytes_def)
  then show "p + x \<le> length l" "p + x \<le> length r" using p by simp_all
  show "drop (length l - x) l = drop (length r - x) r" "is_char_boundary r (length r - x)"
    using char_ends_are_boundaries [OF assms(1), of x j] char_ends_are_boundaries [OF assms(2), of x j] j by simp_all
qed

lemma composite_of_fragments:
  assumes "utf8_valid l" "utf8_valid r"
  defines "p \<equiv> common_prefix_bytes l r"
  defines "x \<equiv> common_suffix_bytes l r p"
  shows "str_get r p (length r - x) = Some (slice r p (length r - x))"
    "replace_string l p (length l - p - x) (slice r p (length r - x)) = r"
proof -
  note ends = common_ends [OF assms(1,2), folded p_def, folded x_def]
  show "str_get r p (length r - x) = Some (slice r p (length r - x))"
    using ends by (simp add: str_get_def)
  have "p + (length l - p - x) = length l - x" using ends(1) by simp
  moreover have "take p r @ slice r p (length r - x) @ drop (length r - x) r = r"
    using ends(2) by (simp add: slice_append_drop)
  ultimately show "replace_string l p (length l - p - x) (slice r p (length r - x)) = r"
    using ends(3,4) by (simp add: replace_string_def)
qed

section \<open>The composite edit\<close>

definition delta_replacement :: "bool \<Rightarrow> UndoDelta \<Rightarrow> replacement" where
  "delta_replacement reverse delta =
     (delta_start delta,
      if reverse then (length (delta_inserted delta), deleted_string delta)
      else (length (deleted_string delta), delta_inserted delta))"

lemma utf8_valid_slice:
  assumes "utf8_valid s" "is_char_boundary s a" "is_char_boundary s b" "a \<le> b"
  shows "utf8_valid (slice s a b)"
proof -
  have "is_char_boundary (drop a s) (b - a)" using assms(2-4) by (auto simp: is_char_boundary_def)
  then show ?thesis using utf8_valid_take [OF utf8_valid_drop [OF assms(1,2)]] by (simp add: slice_def)
qed

lemma deleted_valid: "utf8_valid s \<Longrightarrow> delta_fits same s delta \<Longrightarrow> utf8_valid (deleted_string delta)"
  using utf8_valid_slice [of s "delta_start delta" "delta_start delta + length (deleted_string delta)"]
  by (simp add: delta_fits_def slice_def)

lemma forward_run:
  "utf8_valid s \<Longrightarrow> fits_all same s ds \<Longrightarrow>
     edits_ok s (map (delta_replacement False) ds) \<and> all_edits s (map (delta_replacement False) ds) = replay s ds"
proof (induction ds arbitrary: s)
  case (Cons d ds)
  have fits: "delta_fits same s d" "fits_all same (delta_forward s d) ds" using Cons.prems(2) by simp_all
  then show ?case
    using Cons.IH [OF delta_forward_valid [OF Cons.prems(1) fits(1)] fits(2)]
    by (simp add: delta_replacement_def delta_fits_def delta_forward_def)
qed simp

lemma backward_run:
  "utf8_valid s \<Longrightarrow> fits_all same s ds \<Longrightarrow>
     edits_ok (replay s ds) (map (delta_replacement True) (rev ds)) \<and>
     all_edits (replay s ds) (map (delta_replacement True) (rev ds)) = s"
proof (induction ds rule: rev_induct)
  case (snoc d ds)
  let ?s = "replay s ds"
  have fits: "fits_all same s ds" "delta_fits same ?s d" using snoc.prems(2) by (simp_all add: fits_all_append)
  have valid: "utf8_valid ?s" using replay_valid snoc.prems(1) fits(1) by blast
  have "replace_string (delta_forward ?s d) (delta_start d) (length (delta_inserted d)) (deleted_string d) = ?s"
    using delta_backward_forward [OF valid fits(2)] by (simp add: delta_backward_def)
  then show ?case
    using snoc.IH [OF snoc.prems(1) fits(1)] delta_forward_boundary [OF valid fits(2)] deleted_valid [OF valid fits(2)]
    by (simp add: delta_replacement_def)
qed simp

lemma empty_replacement [simp]: "replace_string s a 0 [] = s"
  by (simp add: replace_string_def)

lemma run_of_changes:
  assumes "text_storage same" "\<forall>d \<in> set ds. text_ok same (deleted_text d)" "edits_ok s (map (delta_replacement reverse) ds)"
  defines "changes \<equiv> filter (delta_changes_text same) ds"
  shows "edits_ok s (map (delta_replacement reverse) changes) \<and>
    all_edits s (map (delta_replacement reverse) changes) = all_edits s (map (delta_replacement reverse) ds)"
  using assms(2,3) unfolding changes_def
proof (induction ds arbitrary: s)
  case (Cons d ds)
  have "text_ok same (deleted_text d)" using Cons.prems(1) by simp
  then have "delta_changes_text same d \<longleftrightarrow> deleted_string d \<noteq> [] \<or> delta_inserted d \<noteq> []"
    using text_storage.text_is_empty_string [OF assms(1)] by (simp add: delta_changes_text_def)
  then show ?case using Cons by (cases reverse) (auto simp: delta_replacement_def)
qed simp

lemma all_edits_boundary:
  "utf8_valid s \<Longrightarrow> edits_ok s edits \<Longrightarrow> \<forall>(a, d, inserted) \<in> set edits. m \<le> a \<Longrightarrow> is_char_boundary s m \<Longrightarrow>
     is_char_boundary (all_edits s edits) m"
proof (induction s edits rule: edits_ok.induct)
  case (2 s a d inserted rest)
  then show ?case
    using boundary_before_replacement [of s a d inserted m] by (auto simp: replace_string_valid)
qed simp

lemma first_place_boundary:
  "edits_ok s edits \<Longrightarrow> \<forall>(a, d, inserted) \<in> set edits. m \<le> a \<Longrightarrow> (m, d', i') \<in> set edits \<Longrightarrow> is_char_boundary s m"
proof (induction s edits rule: edits_ok.induct)
  case (2 s a d inserted rest)
  have a: "is_char_boundary s a" "m \<le> a" using "2.prems" by auto
  show ?case
  proof (cases "m = a")
    case False
    then have "is_char_boundary (replace_string s a d inserted) m" using 2 by auto
    moreover have "m < a" "a \<le> length s" using a False is_char_boundary_le by auto
    ultimately show ?thesis by (auto simp: is_char_boundary_def replace_string_def nth_append)
  qed (use a in simp)
qed simp

lemma payload_deltas:
  "text_storage same \<Longrightarrow> \<forall>d \<in> set ds. text_ok same (deleted_text d) \<Longrightarrow>
     payload (map (delta_replacement reverse) ds) = sum_list (map (delta_bytes same) ds)"
  by (induction ds) (auto simp: delta_replacement_def delta_bytes_def text_storage.text_len_string)

lemma apply_composite_at:
  assumes "edit_start e + deleted_len e \<le> length s"
  shows "apply_composite_buffer_edit s e = replace_string s (edit_start e) (deleted_len e) (inserted_text e)"
  using assms by (simp add: apply_composite_buffer_edit_def replace_string_def Let_def min_absorb1)

text \<open>Replacing inside a fragment of a string is replacing inside the string.\<close>

lemma replace_in_fragment:
  assumes "m \<le> q" "q \<le> length s" "a + d \<le> q - m"
  shows "replace_string s (m + a) d inserted = take m s @ replace_string (slice s m q) a d inserted @ drop q s"
proof -
  have s: "s = take m s @ slice s m q @ drop q s"
    using assms(1) by (simp add: slice_append_drop)
  have "length (slice s m q) = q - m" "length (take m s) = m" using assms by (simp_all add: slice_def)
  then show ?thesis
    using assms(3) by (subst s) (simp add: replace_string_def min_absorb2)
qed

lemma composite_of_many:
  assumes "text_storage same" "text_ok same t" "text_ok same u" "utf8_valid (text_of t)"
    and "\<forall>d \<in> set ds. text_ok same (deleted_text d)" "ds \<noteq> []"
    and "edits_ok (text_of t) (map (delta_replacement reverse) ds)"
    and "all_edits (text_of t) (map (delta_replacement reverse) ds) = text_of u"
  defines "start_pos \<equiv> Min (set (map delta_start ds))"
  defines "coverage \<equiv> (Max (set (map delta_start ds)) - start_pos) + sum_list (map (delta_bytes same) ds) + COMPOSITE_HISTORY_CONTEXT_BYTES"
  defines "before_end \<equiv> clamp_boundary same t (min (start_pos + coverage) (text_len same t))"
  defines "after_end \<equiv> clamp_boundary same u
      (min (max (text_len same u - (text_len same t - before_end)) start_pos) (text_len same u))"
  shows "is_char_boundary (text_of t) start_pos" "is_char_boundary (text_of u) start_pos"
    "is_char_boundary (text_of t) before_end" "is_char_boundary (text_of u) after_end"
    "start_pos \<le> before_end" "start_pos \<le> after_end"
    "take start_pos (text_of t) = take start_pos (text_of u)" "drop before_end (text_of t) = drop after_end (text_of u)"
proof -
  let ?edits = "map (delta_replacement reverse) ds" and ?s = "text_of t" and ?r = "text_of u"
  let ?M = "Max (set (map delta_start ds))"
  have range: "start_pos \<le> delta_start d \<and> delta_start d \<le> ?M" if "d \<in> set ds" for d
    using that by (simp add: start_pos_def)
  then have edits: "\<forall>(a, d, inserted) \<in> set ?edits. start_pos \<le> a" "\<forall>(a, d, inserted) \<in> set ?edits. start_pos \<le> a \<and> a \<le> ?M"
    by (auto simp: delta_replacement_def)
  have "start_pos \<in> set (map delta_start ds)" unfolding start_pos_def by (rule Min_in) (simp_all add: assms(6))
  then obtain d0 where d0: "d0 \<in> set ds" "start_pos = delta_start d0" by auto
  then have "(start_pos, snd (delta_replacement reverse d0)) \<in> set ?edits"
    by (auto simp: delta_replacement_def intro!: image_eqI [of _ _ d0])
  then show m: "is_char_boundary ?s start_pos"
    using first_place_boundary [OF assms(7) edits(1)] by (metis prod.collapse)
  show m': "is_char_boundary ?r start_pos"
    using all_edits_boundary [OF assms(4,7) edits(1) m] assms(8) by simp
  show "take start_pos ?s = take start_pos ?r"
    using all_edits_prefix [OF assms(7) edits(1)] assms(8) by simp
  have mM: "start_pos \<le> ?M" using range [OF d0(1)] by simp
  obtain q q' where q: "start_pos \<le> q" "q \<le> ?M + payload ?edits" "is_char_boundary ?s q" "start_pos \<le> q'"
      "is_char_boundary ?r q'" "drop q ?s = drop q' ?r"
    using all_edits_suffix [OF assms(4,7) edits(2) m mM] assms(8) by auto
  have be: "before_end = clamp_to_char_boundary ?s (start_pos + coverage)"
    by (simp add: before_end_def text_storage.clamp_boundary_string [OF assms(1,2)]
        text_storage.text_len_string [OF assms(1,2)])
  then show b: "is_char_boundary ?s before_end" by simp
  have "q \<le> start_pos + coverage"
    using q(2) mM payload_deltas [OF assms(1,5), of reverse] by (simp add: coverage_def)
  then have qb: "q \<le> before_end" unfolding be using clamp_to_char_boundary_greatest q(3) by blast
  then show "start_pos \<le> before_end" using q(1) by simp
  have bl: "before_end \<le> length ?s" using b is_char_boundary_le by blast
  define r where "r = q' + (before_end - q)"
  have tails: "drop before_end ?s = drop r ?r"
    using q(6) qb by (metis add.commute drop_drop le_add_diff_inverse r_def)
  have len: "length ?s - q = length ?r - q'" "q' \<le> length ?r"
    using arg_cong [OF q(6), of length] is_char_boundary_le [OF q(5)] by simp_all
  have r: "r \<le> length ?r" "length ?r - (length ?s - before_end) = r" "start_pos \<le> r"
    using len qb bl q(4) by (auto simp: r_def)
  have "is_char_boundary ?r r"
    using boundary_of_drop [OF r(1)] tails utf8_valid_like [OF utf8_valid_drop [OF assms(4) b]] by simp
  then have "after_end = r"
    using r by (simp add: after_end_def text_storage.clamp_boundary_string [OF assms(1,3)]
        text_storage.text_len_string [OF assms(1,2)] text_storage.text_len_string [OF assms(1,3)] min_absorb1)
  then show "is_char_boundary ?r after_end" "start_pos \<le> after_end" "drop before_end ?s = drop after_end ?r"
    using \<open>is_char_boundary ?r r\<close> r(3) tails by simp_all
qed

lemma composite_edit_gives_the_text:
  assumes "text_storage same" "text_ok same t" "text_ok same u" "utf8_valid (text_of t)"
    and "\<forall>d \<in> set grouped. text_ok same (deleted_text d)"
    and "edits_ok (text_of t) (map (delta_replacement reverse) grouped)"
    and "all_edits (text_of t) (map (delta_replacement reverse) grouped) = text_of u"
  shows "(case composite_buffer_edit same t u grouped reverse of
      None \<Rightarrow> text_of t
    | Some e \<Rightarrow> apply_composite_buffer_edit (text_of t) e) = text_of u"
proof -
  define changes where "changes = filter (delta_changes_text same) grouped"
  have run: "edits_ok (text_of t) (map (delta_replacement reverse) changes)"
      "all_edits (text_of t) (map (delta_replacement reverse) changes) = text_of u"
    using run_of_changes [OF assms(1,5,6)] assms(7) by (simp_all add: changes_def)
  have ok: "\<forall>d \<in> set changes. text_ok same (deleted_text d)" using assms(5) by (simp add: changes_def)
  consider "changes = []" | d where "changes = [d]" | d d' ds where "changes = d # d' # ds"
    by (metis neq_Nil_conv)
  then show ?thesis
  proof cases
    case 1
    then show ?thesis using run by (simp add: composite_buffer_edit_def flip: changes_def)
  next
    case (2 d)
    have "text_ok same (deleted_text d)" using ok 2 by simp
    then show ?thesis
      using run 2 text_storage.text_len_string [OF assms(1)] text_storage.to_flat_string_string [OF assms(1)]
      by (auto simp: composite_buffer_edit_def delta_replacement_def apply_composite_at is_char_boundary_le
          simp flip: changes_def split: if_splits)
  next
    case (3 d d' ds)
    define m where "m = Min (set (map delta_start changes))"
    define coverage where "coverage = (Max (set (map delta_start changes)) - m) + sum_list (map (delta_bytes same) changes) + COMPOSITE_HISTORY_CONTEXT_BYTES"
    define b where "b = clamp_boundary same t (min (m + coverage) (text_len same t))"
    define b' where "b' = clamp_boundary same u (min (max (text_len same u - (text_len same t - b)) m) (text_len same u))"
    have "changes \<noteq> []" using 3 by simp
    note many = composite_of_many [OF assms(1-4) ok this run, folded m_def, folded coverage_def, folded b_def, folded b'_def]
    define l r where "l = slice (text_of t) m b" and "r = slice (text_of u) m b'"
    define p where "p = common_prefix_bytes l r"
    define x where "x = common_suffix_bytes l r p"
    have ranges: "range_string same t m b = Some l" "range_string same u m b' = Some r"
      using many(1-4) by (simp_all add: text_storage.range_string_string [OF assms(1,2)]
          text_storage.range_string_string [OF assms(1,3)] l_def r_def)
    have "utf8_valid (text_of u)" using all_edits_valid [OF assms(4,6)] assms(7) by simp
    then have valid: "utf8_valid l" "utf8_valid r"
      using many(1-6) assms(4) by (simp_all add: l_def r_def utf8_valid_slice)
    note parts = composite_of_fragments [OF valid, folded p_def, folded x_def]
    have edit: "composite_buffer_edit same t u grouped reverse =
        Some \<lparr>edit_start = m + p, deleted_len = length l - p - x, inserted_text = slice r p (length r - x)\<rparr>"
      unfolding composite_buffer_edit_def changes_def [symmetric] 3 list.case Let_def
      unfolding 3 [symmetric] m_def [symmetric] unfolding coverage_def [symmetric] unfolding b_def [symmetric]
      unfolding b'_def [symmetric] ranges option.case unfolding p_def [symmetric] unfolding x_def [symmetric] parts(1) option.case
      by (rule refl)
    have lens: "length l = b - m" "b \<le> length (text_of t)" using is_char_boundary_le [OF many(3)] by (simp_all add: l_def slice_def)
    have "p + (length l - p - x) \<le> b - m" using common_ends(1) [OF valid, folded p_def, folded x_def] lens by simp
    then have "apply_composite_buffer_edit (text_of t)
          \<lparr>edit_start = m + p, deleted_len = length l - p - x, inserted_text = slice r p (length r - x)\<rparr> =
        take m (text_of t) @ r @ drop b (text_of t)"
      using replace_in_fragment [OF many(5) lens(2), of p "length l - p - x" "slice r p (length r - x)"] parts(2) lens many(5)
      by (subst apply_composite_at) (simp_all add: l_def add.assoc)
    also have "\<dots> = text_of u" using many(6-8) by (simp add: r_def slice_append_drop)
    finally show ?thesis by (simp add: edit)
  qed
qed

section \<open>Undo and redo set the buffer to the text of the history\<close>

lemma history_texts:
  assumes "history_ok same st"
  shows "text_ok same (snapshot_text (current st))" "utf8_valid (snapshot_string (current st))"
    "fits_all same (snapshot_string (anchor st)) (deltas st)" "utf8_valid (snapshot_string (anchor st))"
    "index st \<le> length (deltas st)"
    "snapshot_string (current st) = replay (snapshot_string (anchor st)) (take (index st) (deltas st))"
  using assms current_valid by (auto simp: history_ok_def inv_defs)

lemma fits_all_deleted_ok: "fits_all same s ds \<Longrightarrow> \<forall>d \<in> set ds. text_ok same (deleted_text d)"
  by (induction ds arbitrary: s) (auto simp: delta_fits_def)

lemma segment_run:
  assumes "history_ok same st" "a \<le> b" "b \<le> length (deltas st)"
  defines "text_at \<equiv> \<lambda>k. replay (snapshot_string (anchor st)) (take k (deltas st))"
  shows "fits_all same (text_at a) (segment (deltas st) a b)" "text_at b = replay (text_at a) (segment (deltas st) a b)"
    "utf8_valid (text_at a)"
proof -
  have split: "take b (deltas st) = take a (deltas st) @ segment (deltas st) a b" using take_segment [OF assms(2)] .
  have "fits_all same (snapshot_string (anchor st)) (take b (deltas st))"
    using history_texts(3) [OF assms(1)] fits_all_take_drop by blast
  then show "fits_all same (text_at a) (segment (deltas st) a b)" "utf8_valid (text_at a)"
    using replay_valid [OF history_texts(4) [OF assms(1)]] by (auto simp: split fits_all_append text_at_def)
  show "text_at b = replay (text_at a) (segment (deltas st) a b)" by (simp add: split text_at_def)
qed

lemma moved_text:
  assumes "moved_to same st k st'"
  shows "snapshot_string (current st') = replay (snapshot_string (anchor st)) (take k (deltas st))"
  using assms history_texts(6) [of same st'] by (simp add: moved_to_def)

lemma finished_move: "moved_to same st k st' \<Longrightarrow> moved_to same st k (finish_history st')"
  by (auto simp: moved_to_def history_ok_def finish_history_def elim!: history_inv_cong)

text \<open>The callback of the composite edit runs while the history is being applied, and records nothing.\<close>

lemma callback_while_applying:
  "applying_history st \<Longrightarrow> finish_history (buffer_changed tables same buffer e st) = finish_history st"
  by (simp add: buffer_changed_def buffer_modified_def finish_history_def Let_def)

lemma sent_edit:
  assumes "text_storage same" "text_ok same t" "text_ok same (snapshot_text (current st))" "utf8_valid (text_of t)"
    and "\<forall>d \<in> set grouped. text_ok same (deleted_text d)"
    and "edits_ok (text_of t) (map (delta_replacement reverse) grouped)"
    and "all_edits (text_of t) (map (delta_replacement reverse) grouped) = snapshot_string (current st)"
    and "applying_history st"
  shows "\<exists>st'. send_composite_edit tables same t grouped reverse (st, text_of t) = (st', snapshot_string (current st)) \<and>
    finish_history st' = finish_history st"
  using composite_edit_gives_the_text [OF assms(1-7)] callback_while_applying [OF assms(8)]
  by (simp add: send_composite_edit_def split: option.splits)

lemma undo_spec:
  assumes "text_storage same" "history_ok same st" "buffer = snapshot_string (current st)"
  shows "\<exists>st' k c. undo tables same (st, buffer) = (st', snapshot_string (current st'), c) \<and> moved_to same st k st' \<and>
    k \<le> index st \<and> (0 < index st \<longrightarrow> k < index st) \<and>
    (\<forall>i. k \<le> i \<and> i < index st \<longrightarrow> group_id (deltas st ! i) = group_id (deltas st ! (index st - 1))) \<and>
    (0 < k \<longrightarrow> group_id (deltas st ! (k - 1)) \<noteq> group_id (deltas st ! (index st - 1))) \<and>
    (\<not> applying_history st \<longrightarrow> \<not> applying_history st')"
proof -
  obtain st' k where undone: "take_undo_group same st = (st', rev (segment (deltas st) k (index st)))"
      "moved_to same st k st'" "k \<le> index st" "0 < index st \<longrightarrow> k < index st"
      "\<forall>d \<in> set (segment (deltas st) k (index st)). group_id d = group_id (deltas st ! (index st - 1))"
      "0 < k \<longrightarrow> group_id (deltas st ! (k - 1)) \<noteq> group_id (deltas st ! (index st - 1))"
      "applying_history st' = (segment (deltas st) k (index st) \<noteq> [] \<or> applying_history st)"
    using take_undo_group_spec [OF assms(1,2)] by (elim exE conjE) (rule that)
  let ?grouped = "rev (segment (deltas st) k (index st))"
  note texts = history_texts [OF assms(2)]
  note run = segment_run [OF assms(2) undone(3) texts(5)]
  have text': "text_ok same (snapshot_text (current st'))" using undone(2) history_texts(1) by (simp add: moved_to_def)
  have members: "\<forall>i. k \<le> i \<and> i < index st \<longrightarrow> group_id (deltas st ! i) = group_id (deltas st ! (index st - 1))"
    using undone(5) set_segment [OF texts(5)] by blast
  show ?thesis
  proof (cases "?grouped = []")
    case True
    then have "undo tables same (st, buffer) = (st', buffer, None)" using undone(1) by (simp add: undo_def)
    then have "undo tables same (st, buffer) = (st', snapshot_string (current st'), None)" using run(2) texts(6) moved_text [OF undone(2)] assms(3) True by simp
    moreover have "applying_history st' = applying_history st" using undone(7) True by simp
    ultimately show ?thesis using undone(2-4,6) members by metis
  next
    case False
    have "\<exists>st2. send_composite_edit tables same (snapshot_text (current st)) ?grouped True (st', buffer) =
        (st2, snapshot_string (current st')) \<and> finish_history st2 = finish_history st'"
      unfolding assms(3)
      by (rule sent_edit [OF assms(1) texts(1) text' texts(2)])
        (use backward_run [OF run(3,1)] run(2) texts(6) moved_text [OF undone(2)] fits_all_deleted_ok [OF run(1)] undone(7) False in simp_all)
    then have "undo tables same (st, buffer) =
        (finish_history st', snapshot_string (current st'), Some (undo_cursor_after_group same st' ?grouped))"
      using undone(1) False by (auto simp: undo_def)
    then have "\<exists>c. undo tables same (st, buffer) = (finish_history st', snapshot_string (current (finish_history st')), c)"
        "\<not> applying_history (finish_history st')"
      by (simp_all add: finish_history_def)
    then show ?thesis using undone(3,4,6) members finished_move [OF undone(2)] by metis
  qed
qed

lemma redo_spec:
  assumes "text_storage same" "history_ok same st" "buffer = snapshot_string (current st)"
  shows "\<exists>st' k c. redo tables same (st, buffer) = (st', snapshot_string (current st'), c) \<and> moved_to same st k st' \<and>
    index st \<le> k \<and> (index st < length (deltas st) \<longrightarrow> index st < k) \<and> k \<le> length (deltas st) \<and>
    (k < length (deltas st) \<longrightarrow> group_id (deltas st ! k) \<noteq> group_id (deltas st ! index st)) \<and>
    (\<forall>i. index st \<le> i \<and> i < k \<longrightarrow> group_id (deltas st ! i) = group_id (deltas st ! index st)) \<and>
    (\<not> applying_history st \<longrightarrow> \<not> applying_history st')"
proof -
  obtain st' k where redone: "take_redo_group same st = (st', segment (deltas st) (index st) k)"
      "moved_to same st k st'" "index st \<le> k" "index st < length (deltas st) \<longrightarrow> index st < k" "k \<le> length (deltas st)"
      "k < length (deltas st) \<longrightarrow> group_id (deltas st ! k) \<noteq> group_id (deltas st ! index st)"
      "\<forall>d \<in> set (segment (deltas st) (index st) k). group_id d = group_id (deltas st ! index st)"
      "applying_history st' = (segment (deltas st) (index st) k \<noteq> [] \<or> applying_history st)"
    using take_redo_group_spec [OF assms(1,2)] by (elim exE conjE) (rule that)
  let ?grouped = "segment (deltas st) (index st) k"
  note texts = history_texts [OF assms(2)]
  note run = segment_run [OF assms(2) redone(3,5)]
  have text': "text_ok same (snapshot_text (current st'))" using redone(2) history_texts(1) by (simp add: moved_to_def)
  have members: "\<forall>i. index st \<le> i \<and> i < k \<longrightarrow> group_id (deltas st ! i) = group_id (deltas st ! index st)"
    using redone(7) set_segment [OF redone(5)] by blast
  show ?thesis
  proof (cases "?grouped = []")
    case True
    then have "redo tables same (st, buffer) = (st', buffer, None)" using redone(1) by (simp add: redo_def)
    then have "redo tables same (st, buffer) = (st', snapshot_string (current st'), None)" using run(2) texts(6) moved_text [OF redone(2)] assms(3) True by simp
    moreover have "applying_history st' = applying_history st" using redone(8) True by simp
    ultimately show ?thesis using redone(2-6) members by blast
  next
    case False
    have "\<exists>st2. send_composite_edit tables same (snapshot_text (current st)) ?grouped False (st', buffer) =
        (st2, snapshot_string (current st')) \<and> finish_history st2 = finish_history st'"
      unfolding assms(3)
      by (rule sent_edit [OF assms(1) texts(1) text' texts(2)])
        (use forward_run [OF run(3,1)] run(2) texts(6) moved_text [OF redone(2)] fits_all_deleted_ok [OF run(1)] redone(8) False in simp_all)
    then have "redo tables same (st, buffer) = (finish_history st', snapshot_string (current st'), Some (cursor_pos (current st')))"
      using redone(1) False by (auto simp: redo_def)
    then have "\<exists>c. redo tables same (st, buffer) = (finish_history st', snapshot_string (current (finish_history st')), c)"
        "\<not> applying_history (finish_history st')"
      by (simp_all add: finish_history_def)
    then show ?thesis using redone(3-6) members finished_move [OF redone(2)] by blast
  qed
qed

section \<open>An editor and its history\<close>

text \<open>
  The states of an editor: its history and the string in its buffer. Edits of the buffer are at character
  boundaries and insert valid text, as every edit of a widget that holds a \<^verbatim>\<open>str\<close>; each is recorded by the
  callback of the buffer, or, while the callback is suppressed, by the function that the formatter calls. Undo and redo
  change the buffer by the composite edit alone. The query history never changes the buffer: nothing calls its
  \<^verbatim>\<open>navigate_history\<close>.
\<close>

definition edit_of_buffer :: "string \<Rightarrow> BufferEdit \<Rightarrow> bool" where
  "edit_of_buffer buffer e \<longleftrightarrow>
     is_char_boundary buffer (edit_start e) \<and> is_char_boundary buffer (edit_start e + deleted_len e) \<and>
     utf8_valid (inserted_text e)"

definition edited_buffer :: "string \<Rightarrow> BufferEdit \<Rightarrow> string" where
  "edited_buffer buffer e = replace_string buffer (edit_start e) (deleted_len e) (inserted_text e)"

inductive editor_step :: "char_tables \<Rightarrow> sharing \<Rightarrow> WordUndoRedoState \<times> string \<Rightarrow> WordUndoRedoState \<times> string \<Rightarrow> bool"
  for tables same where
  typed: "edit_of_buffer buffer e \<Longrightarrow>
    editor_step tables same (st, buffer) (buffer_changed tables same buffer e st, edited_buffer buffer e)"
| programmatic: "edit_of_buffer buffer e \<Longrightarrow>
    editor_step tables same (st, buffer) (record_programmatic_edit same e before_pos after_pos st, edited_buffer buffer e)"
| replaced: "utf8_valid s \<Longrightarrow>
    editor_step tables same (st, buffer) (record_full_buffer_programmatic_replace same s before_pos after_pos st, s)"
| cursor_moved: "editor_step tables same (st, buffer) (record_cursor_move_to_if_remote same cursor st, buffer)"
| cursor_synced: "editor_step tables same (st, buffer) (sync_current_cursor same cursor st, buffer)"
| group_finished: "editor_step tables same (st, buffer) (finish_active_group st, buffer)"
| completion_prepared: "editor_step tables same (st, buffer) (prepare_completion_edit st, buffer)"
| completion_finished: "editor_step tables same (st, buffer) (finish_completion_edit_cursor same cursor changed st, buffer)"
| undone: "undo tables same (st, buffer) = (st', buffer', cursor') \<Longrightarrow> editor_step tables same (st, buffer) (st', buffer')"
| redone: "redo tables same (st, buffer) = (st', buffer', cursor') \<Longrightarrow> editor_step tables same (st, buffer) (st', buffer')"
| history_reset: "editor_step tables same (st, buffer) (reset_undo_redo_history same buffer cursor st, buffer)"
| editor_cleared: "editor_step tables same (st, buffer) (reset_word_undo_state same st, [])"

inductive editor_reachable :: "char_tables \<Rightarrow> sharing \<Rightarrow> WordUndoRedoState \<times> string \<Rightarrow> bool" for tables same where
  opened: "utf8_valid s \<Longrightarrow> editor_reachable tables same (new_history same s, s)"
| stepped: "editor_reachable tables same e \<Longrightarrow> editor_step tables same e e' \<Longrightarrow> editor_reachable tables same e'"

definition editor_ok :: "sharing \<Rightarrow> WordUndoRedoState \<times> string \<Rightarrow> bool" where
  "editor_ok same = (\<lambda>(st, buffer). history_ok same st \<and> buffer = snapshot_string (current st) \<and> \<not> applying_history st)"

lemma new_snapshot_ok:
  assumes "text_storage same" "utf8_valid s"
  shows "text_ok same (snapshot_text (new_snapshot same s cursor))" "snapshot_string (new_snapshot same s cursor) = s"
  using text_storage.from_storage_string [OF assms(1) utf8_valid_like [OF assms(2)]] by (simp_all add: new_snapshot_def)

lemma started_ok:
  assumes "text_storage same" "utf8_valid s"
  shows "editor_ok same (history_from (new_snapshot same s cursor), s)"
  using new_snapshot_ok [OF assms, of cursor] assms(2) by (simp add: editor_ok_def history_from_inv) (simp add: history_from_def)

lemma edit_range:
  assumes "text_storage same" "history_ok same st" "edit_of_buffer (snapshot_string (current st)) e"
  shows "normalized_replace_range same (snapshot_text (current st)) e = (edit_start e, edit_start e + deleted_len e)"
  using text_storage.normalized_replace_range_at [OF assms(1) history_texts(1) [OF assms(2)]] assms(3)
  by (simp add: edit_of_buffer_def)

lemma changed_buffer:
  assumes "\<not> applying_history st"
  shows "buffer_changed tables same buffer e st = st \<and> edited_buffer buffer e = buffer \<or>
    (\<exists>edit_group. buffer_changed tables same buffer e st = record_edit tables same e edit_group st)"
  using assms by (auto simp: buffer_changed_def buffer_modified_def edited_buffer_def Let_def)

lemma typed_ok:
  assumes "text_storage same" "editor_ok same (st, buffer)" "edit_of_buffer buffer e"
  shows "editor_ok same (buffer_changed tables same buffer e st, edited_buffer buffer e)"
proof -
  have ok: "history_ok same st" "buffer = snapshot_string (current st)" "\<not> applying_history st" "utf8_valid (inserted_text e)"
    using assms(2,3) by (auto simp: editor_ok_def edit_of_buffer_def)
  then have range: "normalized_replace_range same (snapshot_text (current st)) e = (edit_start e, edit_start e + deleted_len e)"
    using edit_range [OF assms(1)] assms(3) by simp
  show ?thesis
    using changed_buffer [OF ok(3), of tables same buffer e] record_edit_inv [OF assms(1) ok(1,4) range] ok assms(2)
    by (auto simp: editor_ok_def edited_buffer_def)
qed

lemma editor_step_ok:
  assumes "text_storage same" "editor_step tables same e e'" "editor_ok same e"
  shows "editor_ok same e'"
  using assms(2,3)
proof (induction rule: editor_step.induct)
  case (typed buffer e st)
  then show ?case using typed_ok [OF assms(1)] by blast
next
  case (programmatic buffer e st before_pos after_pos)
  then have "history_ok same st" "utf8_valid (inserted_text e)" by (auto simp: editor_ok_def edit_of_buffer_def)
  then show ?case
    using record_programmatic_edit_inv [OF assms(1) _ _ edit_range [OF assms(1)]] programmatic
    by (simp add: editor_ok_def edited_buffer_def recorded_alone_def)
next
  case (replaced s st buffer before_pos after_pos)
  then show ?case using record_full_buffer_replace_inv [OF assms(1)] by (simp add: editor_ok_def recorded_alone_def)
next
  case (cursor_moved st buffer cursor)
  then show ?case using record_cursor_move_to_inv [OF assms(1)] by (simp add: editor_ok_def)
next
  case (cursor_synced st buffer cursor)
  then show ?case using cursor_ops_inv by (simp add: editor_ok_def) (simp add: sync_current_cursor_def Let_def)
next
  case (group_finished st buffer)
  then show ?case using cursor_ops_inv by (simp add: editor_ok_def) (simp add: finish_active_group_def)
next
  case (completion_prepared st buffer)
  then show ?case using cursor_ops_inv by (simp add: editor_ok_def) (simp add: prepare_completion_edit_def)
next
  case (completion_finished st buffer cursor changed)
  then show ?case using finish_completion_inv by (simp add: editor_ok_def)
next
  case (undone st buffer st' buffer' cursor')
  then show ?case using undo_spec [OF assms(1), of st buffer tables] by (auto simp: editor_ok_def moved_to_def)
next
  case (redone st buffer st' buffer' cursor')
  then show ?case using redo_spec [OF assms(1), of st buffer tables] by (auto simp: editor_ok_def moved_to_def)
next
  case (history_reset st buffer cursor)
  then have "utf8_valid buffer" using history_texts(2) by (auto simp: editor_ok_def)
  then show ?case using started_ok [OF assms(1)] by (simp add: reset_undo_redo_history_def)
next
  case (editor_cleared st buffer)
  then show ?case using started_ok [OF assms(1), of "[]"] by (simp add: reset_word_undo_state_def)
qed

lemma editor_reachable_ok:
  assumes "text_storage same" "editor_reachable tables same e"
  shows "editor_ok same e"
  using assms(2)
proof (induction rule: editor_reachable.induct)
  case (opened s)
  then show ?case using started_ok [OF assms(1)] by (simp add: new_history_def)
next
  case (stepped e e')
  then show ?case using editor_step_ok [OF assms(1)] by blast
qed

text \<open>A small editor: a statement with one programmatic edit.\<close>

definition sample_edit :: BufferEdit where
  "sample_edit = \<lparr>edit_start = 7, deleted_len = 1, inserted_text = ''23''\<rparr>"

lemma sample_edit_facts:
  "utf8_valid ''select 1''" "edit_of_buffer ''select 1'' sample_edit" "edited_buffer ''select 1'' sample_edit = ''select 23''"
  by code_simp+

lemma sample_reachable:
  "editor_reachable ascii_tables same_contents (new_history same_contents ''select 1'', ''select 1'')"
  "editor_reachable ascii_tables same_contents
     (record_programmatic_edit same_contents sample_edit 0 0 (new_history same_contents ''select 1''), ''select 23'')"
  using editor_reachable.opened [OF sample_edit_facts(1)] editor_reachable.stepped editor_step.programmatic
    sample_edit_facts(2,3) by metis+

text \<open>
  C4. The buffer of an editor is the current text of its history. Whatever is typed, changed by the program,
  undone and redone, in whatever order, the composite edits that undo and redo send leave the buffer with
  exactly the bytes of the history's current snapshot, and these are valid UTF-8; the history never has
  more than its 500 deltas, its index is inside it, and the byte count that decides about trimming is
  exact.
\<close>
theorem editor_buffer_is_its_history:
  assumes "text_storage same" "editor_reachable tables same (st, buffer)"
  shows "to_flat_string same (snapshot_text (current st)) = buffer \<and> utf8_valid buffer \<and>
    length (deltas st) \<le> MAX_WORD_UNDO_HISTORY \<and> index st \<le> length (deltas st) \<and>
    history_total_bytes st = sum_list (map (delta_bytes same) (deltas st))"
proof -
  have ok: "history_ok same st" "buffer = snapshot_string (current st)"
    using editor_reachable_ok [OF assms] by (simp_all add: editor_ok_def)
  then show ?thesis
    using text_storage.to_flat_string_string [OF assms(1) history_texts(1) [OF ok(1)]] history_texts(2,5) [OF ok(1)]
    by (simp add: history_ok_def inv_defs)
qed

theorem editor_buffer_is_its_history_witness:
  "to_flat_string same_contents (snapshot_text (current
     (record_programmatic_edit same_contents sample_edit 0 0 (new_history same_contents ''select 1'')))) = ''select 23''"
  using editor_buffer_is_its_history [OF contents.text_storage_axioms sample_reachable(2)] by simp

text \<open>The history follows whatever the buffer gets next.\<close>

definition records_edits :: "char_tables \<Rightarrow> sharing \<Rightarrow> WordUndoRedoState \<Rightarrow> string \<Rightarrow> bool" where
  "records_edits tables same st buffer \<longleftrightarrow>
     (\<forall>e. edit_of_buffer buffer e \<longrightarrow>
        to_flat_string same (snapshot_text (current (buffer_changed tables same buffer e st))) = edited_buffer buffer e)"

lemma ok_records_edits:
  assumes "text_storage same" "editor_ok same (st, buffer)"
  shows "records_edits tables same st buffer"
  unfolding records_edits_def
proof (intro allI impI)
  fix e
  assume "edit_of_buffer buffer e"
  then have "history_ok same (buffer_changed tables same buffer e st)"
      "edited_buffer buffer e = snapshot_string (current (buffer_changed tables same buffer e st))"
    using typed_ok [OF assms] by (simp_all add: editor_ok_def)
  then show "to_flat_string same (snapshot_text (current (buffer_changed tables same buffer e st))) = edited_buffer buffer e"
    using text_storage.to_flat_string_string [OF assms(1) history_texts(1)] by simp
qed

lemma undo_result:
  assumes "text_storage same" "history_ok same st" "buffer = snapshot_string (current st)"
    and "undo tables same (st, buffer) = (st1, buffer1, cursor1)" "0 < index st"
  shows "buffer1 = snapshot_string (current st1)" "moved_to same st (index st1) st1" "index st1 < index st"
    "\<forall>i. index st1 \<le> i \<and> i < index st \<longrightarrow> group_id (deltas st ! i) = group_id (deltas st ! (index st - 1))"
    "0 < index st1 \<longrightarrow> group_id (deltas st ! (index st1 - 1)) \<noteq> group_id (deltas st ! (index st - 1))"
proof -
  obtain st' k c where undone: "undo tables same (st, buffer) = (st', snapshot_string (current st'), c)" "moved_to same st k st'"
      "k \<le> index st" "0 < index st \<longrightarrow> k < index st"
      "\<forall>i. k \<le> i \<and> i < index st \<longrightarrow> group_id (deltas st ! i) = group_id (deltas st ! (index st - 1))"
      "0 < k \<longrightarrow> group_id (deltas st ! (k - 1)) \<noteq> group_id (deltas st ! (index st - 1))"
    using undo_spec [OF assms(1-3), of tables] by (elim exE conjE) (rule that)
  have st1: "st' = st1" using undone(1) assms(4) by simp
  then have k: "k = index st1" using undone(2) by (simp add: moved_to_def)
  show "buffer1 = snapshot_string (current st1)" using undone(1) assms(4) by simp
  show "moved_to same st (index st1) st1" using undone(2) unfolding st1 k .
  show "index st1 < index st" using undone(4) assms(5) unfolding k by blast
  show "\<forall>i. index st1 \<le> i \<and> i < index st \<longrightarrow> group_id (deltas st ! i) = group_id (deltas st ! (index st - 1))"
    using undone(5) unfolding k .
  show "0 < index st1 \<longrightarrow> group_id (deltas st ! (index st1 - 1)) \<noteq> group_id (deltas st ! (index st - 1))"
    using undone(6) unfolding k .
qed

text \<open>
  C6. Redo undoes undo. When there is something to undo, undo steps back over exactly one group of deltas (all of them
  have the number of the last one, the delta before them another) and redo over exactly the same group: the buffer, the
  deltas and the index are those from before. After either of them the history records again: the flag that keeps the
  callback from recording is down, and whatever change of the buffer comes next, the history's text follows it.
\<close>
theorem redo_undoes_undo:
  assumes "text_storage same" "editor_reachable tables same (st, buffer)" "0 < index st"
    and "undo tables same (st, buffer) = (st1, buffer1, cursor1)" "redo tables same (st1, buffer1) = (st2, buffer2, cursor2)"
  shows "buffer2 = buffer \<and> deltas st2 = deltas st \<and> index st2 = index st \<and>
    index st1 < index st \<and>
    (\<forall>i. index st1 \<le> i \<and> i < index st \<longrightarrow> group_id (deltas st ! i) = group_id (deltas st ! (index st - 1))) \<and>
    (0 < index st1 \<longrightarrow> group_id (deltas st ! (index st1 - 1)) \<noteq> group_id (deltas st ! (index st - 1))) \<and>
    \<not> applying_history st1 \<and> records_edits tables same st1 buffer1 \<and>
    \<not> applying_history st2 \<and> records_edits tables same st2 buffer2"
proof -
  have ok: "history_ok same st" "buffer = snapshot_string (current st)" "\<not> applying_history st"
    using editor_reachable_ok [OF assms(1,2)] by (simp_all add: editor_ok_def)
  have next_ok: "editor_ok same (st1, buffer1)" "editor_ok same (st2, buffer2)"
    using editor_reachable_ok [OF assms(1)] editor_reachable.stepped [OF assms(2)] editor_reachable.stepped
      editor_step.undone [OF assms(4)] editor_step.redone [OF assms(5)] by blast+
  note undone = undo_result [OF assms(1) ok(1,2) assms(4,3)]
  define k where "k = index st1"
  note undone = undone [folded k_def]
  have st1: "history_ok same st1" "index st1 = k" "deltas st1 = deltas st" using undone(2) by (simp_all add: moved_to_def)
  obtain j where redone: "buffer2 = snapshot_string (current st2)" "moved_to same st1 j st2"
      "k < length (deltas st) \<longrightarrow> k < j" "j \<le> length (deltas st)"
      "j < length (deltas st) \<longrightarrow> group_id (deltas st ! j) \<noteq> group_id (deltas st ! k)"
      "\<forall>i. k \<le> i \<and> i < j \<longrightarrow> group_id (deltas st ! i) = group_id (deltas st ! k)"
    using redo_spec [OF assms(1) st1(1) undone(1), of tables] assms(5) st1(2,3) by auto
  have le: "index st \<le> length (deltas st)" using history_texts(5) [OF ok(1)] .
  have border: "group_id (deltas st ! i) < group_id (deltas st ! i')" if "i < index st" "index st \<le> i'" "i' < length (deltas st)" for i i'
    using ok(1) that by (simp add: history_ok_def inv_defs)
  have "\<not> j < index st"
  proof
    assume "j < index st"
    then have "group_id (deltas st ! j) = group_id (deltas st ! k)"
      using undone(3,4) redone(3) le by (metis less_or_eq_imp_le less_le_trans order_refl)
    then show False using redone(5) \<open>j < index st\<close> le by simp
  qed
  moreover have "\<not> index st < j"
    using redone(6) [rule_format, of "index st"] border [of k "index st"] undone(3) redone(4) by fastforce
  ultimately have "j = index st" by simp
  then have "buffer2 = buffer" "deltas st2 = deltas st" "index st2 = index st"
    using moved_text [OF redone(2)] history_texts(6) [OF ok(1)] redone(1,2) undone(2) st1 ok(2) by (simp_all add: moved_to_def)
  moreover have "\<not> applying_history st1" "\<not> applying_history st2" using next_ok by (simp_all add: editor_ok_def)
  ultimately show ?thesis
    using undone(3-5) ok_records_edits [OF assms(1) next_ok(1)] ok_records_edits [OF assms(1) next_ok(2)]
    unfolding st1(2) by (intro conjI)
qed

theorem redo_undoes_undo_witness:
  "(case undo ascii_tables same_contents (record_programmatic_edit same_contents sample_edit 0 0 (new_history same_contents ''select 1''), ''select 23'') of
      (st1, buffer1, cursor1) \<Rightarrow>
        (case redo ascii_tables same_contents (st1, buffer1) of (st2, buffer2, cursor2) \<Rightarrow> buffer2 = ''select 23''))"
proof -
  let ?st = "new_history same_contents ''select 1''"
  have ok: "history_ok same_contents ?st" "edit_of_buffer (snapshot_string (current ?st)) sample_edit"
    using editor_reachable_ok [OF contents.text_storage_axioms sample_reachable(1)] sample_edit_facts(2)
    by (simp_all add: editor_ok_def)
  have "utf8_valid (inserted_text sample_edit)" using sample_edit_facts(2) by (simp add: edit_of_buffer_def)
  then have "0 < index (record_programmatic_edit same_contents sample_edit 0 0 ?st)"
    using record_programmatic_edit_inv [OF contents.text_storage_axioms ok(1) _ edit_range [OF contents.text_storage_axioms ok],
        where before = 0 and after = 0]
    by (auto simp: recorded_alone_def)
  note back_and_forth = redo_undoes_undo [OF contents.text_storage_axioms sample_reachable(2) this]
  show ?thesis
    by (intro case_prodI2) (rule back_and_forth [THEN conjunct1], simp_all only:)
qed

section \<open>Undo of a change that the program made\<close>

lemma undo_recorded_alone:
  assumes "text_storage same" "recorded_alone same s r st" "utf8_valid s"
  shows "fst (snd (undo tables same (st, r))) = s"
proof -
  obtain xs d where st: "history_ok same st" "snapshot_string (current st) = r" "at_tip st" "deltas st = xs @ [d]"
      "\<forall>x \<in> set xs. group_id x < group_id d" "delta_fits same s d" "delta_forward s d = r"
    using assms(2) by (auto simp: recorded_alone_def)
  obtain st' k c where undone: "undo tables same (st, r) = (st', snapshot_string (current st'), c)" "moved_to same st k st'" "k < index st"
      "\<forall>i. k \<le> i \<and> i < index st \<longrightarrow> group_id (deltas st ! i) = group_id (deltas st ! (index st - 1))"
    using undo_spec [OF assms(1) st(1) st(2) [symmetric], of tables] st(3,4) by auto
  have "\<not> k < length xs"
  proof
    assume "k < length xs"
    then have "group_id (xs ! k) = group_id d" using undone(4) [rule_format, of k] undone(3) st(3,4) by (simp add: nth_append)
    moreover have "group_id (xs ! k) < group_id d" using st(5) nth_mem \<open>k < length xs\<close> by blast
    ultimately show False by simp
  qed
  then have "k = length xs" using undone(3) st(3,4) by simp
  then have "snapshot_string (current st') = replay (snapshot_string (anchor st)) xs"
    using moved_text [OF undone(2)] st(4) by simp
  moreover have "delta_fits same (replay (snapshot_string (anchor st)) xs) d" "utf8_valid (replay (snapshot_string (anchor st)) xs)"
      "delta_forward (replay (snapshot_string (anchor st)) xs) d = r"
    using history_texts(3,4,6) [OF st(1)] st(2-4) replay_valid by (auto simp: fits_all_append)
  ultimately show ?thesis
    using delta_backward_forward [of s same d] delta_backward_forward [of "replay (snapshot_string (anchor st)) xs" same d]
      st(6,7) assms(3) undone(1) by simp
qed

lemma finish_completion_alone:
  assumes "recorded_alone same s r st"
  shows "recorded_alone same s r (finish_completion_edit_cursor same cursor changed st)"
proof -
  obtain xs d where st: "history_ok same st" "snapshot_string (current st) = r" "at_tip st" "deltas st = xs @ [d]"
      "\<forall>x \<in> set xs. group_id x < group_id d" "delta_fits same s d" "delta_forward s d = r"
    using assms by (auto simp: recorded_alone_def)
  have "index (finish_completion_edit_cursor same cursor changed st) = index st"
      "\<exists>d'. deltas (finish_completion_edit_cursor same cursor changed st) = xs @ [d'] \<and> (d' = d \<or> (\<exists>c. d' = d\<lparr>after_cursor := c\<rparr>))"
    using st(4) by (auto simp: finish_completion_edit_cursor_def Let_def)
  then show ?thesis
    using finish_completion_inv [OF st(1), of cursor changed] st(2-7) by (auto simp: recorded_alone_def)
qed

text \<open>A completion that changes the text gets a delta and a group of its own.\<close>

lemma completion_alone:
  assumes "text_storage same" "editor_ok same (st, buffer)" "start_pos \<le> end_pos"
    and "edit_of_buffer buffer (completion_edit cursor start_pos end_pos inserted)"
    and "completion_changes_text buffer start_pos end_pos inserted"
  shows "case insert_completion tables same cursor start_pos end_pos inserted (st, buffer) of
    (st', buffer') \<Rightarrow> recorded_alone same buffer buffer' st'"
proof -
  let ?e = "completion_edit cursor start_pos end_pos inserted"
  define st1 where "st1 = prepare_completion_edit (sync_current_cursor same cursor (record_cursor_move_to_if_remote same cursor st))"
  have st: "history_ok same st" "buffer = snapshot_string (current st)" "\<not> applying_history st"
    using assms(2) by (simp_all add: editor_ok_def)
  have "history_ok same st1"
    unfolding st1_def using record_cursor_move_to_inv [OF assms(1) st(1)] by (blast intro: cursor_ops_inv)
  moreover have "snapshot_string (current st1) = buffer" "active_group st1 = None" "\<not> applying_history st1"
    using record_cursor_move_to_inv [OF assms(1) st(1), of cursor] st(2,3)
    by (simp_all add: st1_def) (simp_all add: prepare_completion_edit_def sync_current_cursor_def Let_def)
  ultimately have st1: "history_ok same st1" "snapshot_string (current st1) = buffer" "active_group st1 = None" "\<not> applying_history st1"
    by blast+
  have edit: "is_char_boundary buffer (edit_start ?e + deleted_len ?e)" "utf8_valid (inserted_text ?e)" "inserted_text ?e = inserted"
    using assms(4) by (simp_all add: edit_of_buffer_def) (simp add: completion_edit_def)
  have changes: "slice buffer (edit_start ?e) (edit_start ?e + deleted_len ?e) \<noteq> inserted_text ?e"
    using assms(3,5) by (auto simp: completion_changes_text_def completion_edit_def slice_def split: if_splits)
  then have "\<not> (inserted_text ?e = [] \<and> deleted_len ?e = 0)" by (auto simp: slice_def)
  then obtain edit_group where callback: "buffer_changed tables same buffer ?e st1 = record_edit tables same ?e edit_group st1"
    using st1(4) by (auto simp: buffer_changed_def buffer_modified_def Let_def)
  have "recorded_alone same buffer (edited_buffer buffer ?e) (record_edit tables same ?e edit_group st1)"
    using record_edit_inv [OF assms(1) st1(1) edit(2) edit_range [OF assms(1) st1(1)], of tables edit_group]
      assms(4) changes st1(2,3) by (simp add: edited_buffer_def)
  moreover have "apply_composite_buffer_edit buffer ?e = edited_buffer buffer ?e"
    using apply_composite_at is_char_boundary_le [OF edit(1)] by (simp add: edited_buffer_def)
  ultimately show ?thesis
    using assms(5) finish_completion_alone callback by (simp add: insert_completion_def Let_def flip: st1_def)
qed

text \<open>
  C40. Undo takes back a change that the program made. Right after a selection has been formatted, the whole buffer has
  been formatted, or a completion that changes the text has been chosen, one undo gives back exactly the bytes from
  before it, however much of the older history the recording has trimmed away and whatever the user had been typing.
\<close>
theorem undo_takes_back_a_programmatic_edit:
  assumes "text_storage same" "editor_reachable tables same (st, buffer)"
  shows "(edit_of_buffer buffer e \<longrightarrow>
      fst (snd (undo tables same (record_programmatic_edit same e before_pos after_pos st, edited_buffer buffer e))) = buffer) \<and>
    (utf8_valid formatted \<longrightarrow>
      fst (snd (undo tables same (record_full_buffer_programmatic_replace same formatted before_pos after_pos st, formatted))) = buffer) \<and>
    (start_pos \<le> end_pos \<and> edit_of_buffer buffer (completion_edit cursor start_pos end_pos inserted) \<and>
     completion_changes_text buffer start_pos end_pos inserted \<longrightarrow>
      fst (snd (undo tables same (insert_completion tables same cursor start_pos end_pos inserted (st, buffer)))) = buffer)"
proof -
  have ok: "editor_ok same (st, buffer)" using editor_reachable_ok [OF assms] .
  then have st: "history_ok same st" "buffer = snapshot_string (current st)" and valid: "utf8_valid buffer"
    using history_texts(2) by (auto simp: editor_ok_def)
  have "recorded_alone same buffer (edited_buffer buffer e) (record_programmatic_edit same e before_pos after_pos st)"
    if "edit_of_buffer buffer e"
    using record_programmatic_edit_inv [OF assms(1) st(1) _ edit_range [OF assms(1) st(1)], of e] that st(2)
    by (simp add: edited_buffer_def edit_of_buffer_def)
  moreover have "recorded_alone same buffer formatted (record_full_buffer_programmatic_replace same formatted before_pos after_pos st)"
    if "utf8_valid formatted"
    using record_full_buffer_replace_inv [OF assms(1) st(1) that] st(2) by simp
  moreover have "fst (snd (undo tables same (insert_completion tables same cursor start_pos end_pos inserted (st, buffer)))) = buffer"
    if "start_pos \<le> end_pos" "edit_of_buffer buffer (completion_edit cursor start_pos end_pos inserted)"
      "completion_changes_text buffer start_pos end_pos inserted"
    using completion_alone [OF assms(1) ok that, of tables] undo_recorded_alone [OF assms(1) _ valid]
    by (cases "insert_completion tables same cursor start_pos end_pos inserted (st, buffer)") simp
  ultimately show ?thesis using undo_recorded_alone [OF assms(1) _ valid] by blast
qed

theorem undo_takes_back_a_programmatic_edit_witness:
  "fst (snd (undo ascii_tables same_contents
     (record_programmatic_edit same_contents sample_edit 0 0 (new_history same_contents ''select 1''), ''select 23''))) = ''select 1'' \<and>
   fst (snd (undo ascii_tables same_contents
     (record_full_buffer_programmatic_replace same_contents ''SELECT 1'' 0 0 (new_history same_contents ''select 1''), ''SELECT 1''))) = ''select 1'' \<and>
   fst (snd (undo ascii_tables same_contents
     (insert_completion ascii_tables same_contents 3 0 6 ''SELECT'' (new_history same_contents ''select 1'', ''select 1'')))) = ''select 1''"
proof -
  have "utf8_valid ''SELECT 1''" "edit_of_buffer ''select 1'' (completion_edit 3 0 6 ''SELECT'')"
      "completion_changes_text ''select 1'' 0 6 ''SELECT''"
    by code_simp+
  then show ?thesis
    using undo_takes_back_a_programmatic_edit [OF contents.text_storage_axioms sample_reachable(1), where e = sample_edit and
        before_pos = 0 and after_pos = 0 and formatted = "''SELECT 1''" and cursor = 3 and start_pos = 0 and end_pos = 6 and
        inserted = "''SELECT''"] sample_edit_facts(2,3)
    by simp
qed

end
