(* ===== verification/Grid_Sort.thy ===== *)
theory Grid_Sort
  imports Thin_Bytes Utf8_Text "HOL-Library.Product_Lexorder"
    "HOL-Library.List_Lexorder" "HOL-Library.Char_ord" Complex_Main
begin

text \<open>
  The local sort of the result grid (\<^verbatim>\<open>src/ui/grid_sort.rs\<close> and the header sort of
  \<^verbatim>\<open>src/ui/result_table.rs\<close>). A cell is the text a driver rendered; its column's kind says how to read it
  back for comparing. A comparison may panic, which is the value \<open>None\<close>: the fraction of a time is cut to
  nine bytes, and \<^verbatim>\<open>String::truncate\<close> panics inside a character.
\<close>

section \<open>Reading a value\<close>

datatype SqlValueKind = KindUnknown | KindString | KindNumber | KindBoolean | KindTemporal | KindBinary

datatype NullOrdering = LastOnAscending | FirstOnAscending

record SortColumn =
  sort_kind :: SqlValueKind
  nulls :: NullOrdering

text \<open>\<^verbatim>\<open>str::split\<close> and \<^verbatim>\<open>str::split_once\<close> at characters of one byte.\<close>

fun split_at_char :: "(char \<Rightarrow> bool) \<Rightarrow> string \<Rightarrow> string list" where
  "split_at_char p [] = [[]]"
| "split_at_char p (c # cs) =
     (if p c then [] # split_at_char p cs
      else (case split_at_char p cs of [] \<Rightarrow> [[c]] | part # parts \<Rightarrow> (c # part) # parts))"

fun split_once :: "(char \<Rightarrow> bool) \<Rightarrow> string \<Rightarrow> (string \<times> string) option" where
  "split_once p [] = None"
| "split_once p (c # cs) =
     (if p c then Some ([], cs)
      else map_option (\<lambda>(l, r). (c # l, r)) (split_once p cs))"

datatype Ordering = Less | Equal | Greater

definition order_of :: "'a::linorder \<Rightarrow> 'a \<Rightarrow> Ordering" where
  "order_of x y = (if x < y then Less else if x = y then Equal else Greater)"

fun reverse_order :: "Ordering \<Rightarrow> Ordering" where
  "reverse_order Less = Greater"
| "reverse_order Equal = Equal"
| "reverse_order Greater = Less"

record Decimal =
  negative :: bool
  integer :: string
  fraction :: string

definition decimal_is_zero :: "Decimal \<Rightarrow> bool" where
  "decimal_is_zero d \<longleftrightarrow> list_all (\<lambda>c. c = CHR ''0'') (integer d) \<and> list_all (\<lambda>c. c = CHR ''0'') (fraction d)"

definition parse_decimal :: "string \<Rightarrow> Decimal option" where
  "parse_decimal value =
     (case trim value of
        [] \<Rightarrow> None
      | c # cs \<Rightarrow>
          (let (neg, rest) = (if c = CHR ''-'' then (True, cs) else if c = CHR ''+'' then (False, cs) else (False, c # cs));
               (int_part, frac) = (case split_once (\<lambda>c. c = CHR ''.'') rest of None \<Rightarrow> (rest, []) | Some p \<Rightarrow> p)
           in if int_part = [] \<and> frac = [] then None
              else if \<not> list_all is_ascii_digit int_part \<or> \<not> list_all is_ascii_digit frac then None
              else Some \<lparr>negative = neg, integer = int_part, fraction = frac\<rparr>))"

fun compare_fractions :: "string \<Rightarrow> string \<Rightarrow> Ordering" where
  "compare_fractions [] [] = Equal"
| "compare_fractions (l # ls) [] = (case order_of l CHR ''0'' of Equal \<Rightarrow> compare_fractions ls [] | other \<Rightarrow> other)"
| "compare_fractions [] (r # rs) = (case order_of CHR ''0'' r of Equal \<Rightarrow> compare_fractions [] rs | other \<Rightarrow> other)"
| "compare_fractions (l # ls) (r # rs) = (case order_of l r of Equal \<Rightarrow> compare_fractions ls rs | other \<Rightarrow> other)"

definition compare_magnitude :: "Decimal \<Rightarrow> Decimal \<Rightarrow> Ordering" where
  "compare_magnitude l r =
     (let left_integer = dropWhile (\<lambda>c. c = CHR ''0'') (integer l);
          right_integer = dropWhile (\<lambda>c. c = CHR ''0'') (integer r)
      in case order_of (length left_integer) (length right_integer) of
           Equal \<Rightarrow>
             (case order_of left_integer right_integer of
                Equal \<Rightarrow> compare_fractions (fraction l) (fraction r)
              | other \<Rightarrow> other)
         | other \<Rightarrow> other)"

definition compare_decimal :: "Decimal \<Rightarrow> Decimal \<Rightarrow> Ordering" where
  "compare_decimal l r =
     (if decimal_is_zero l \<and> decimal_is_zero r then Equal
      else if \<not> negative l \<and> negative r then Greater
      else if negative l \<and> \<not> negative r then Less
      else if negative l then reverse_order (compare_magnitude l r)
      else compare_magnitude l r)"

definition compare_as_number :: "string \<Rightarrow> string \<Rightarrow> Ordering" where
  "compare_as_number l r =
     (case (parse_decimal l, parse_decimal r) of
        (Some lv, Some rv) \<Rightarrow> compare_decimal lv rv
      | (Some _, None) \<Rightarrow> Less
      | (None, Some _) \<Rightarrow> Greater
      | (None, None) \<Rightarrow> order_of l r)"

section \<open>Reading a date\<close>

type_synonym TemporalKey = "int \<times> nat \<times> nat \<times> nat \<times> nat \<times> nat \<times> nat"

definition parse_digits :: "string \<Rightarrow> nat option" where
  "parse_digits value =
     (if value = [] \<or> \<not> list_all is_ascii_digit value then None
      else if nat_of_digits value < 2 ^ 32 then Some (nat_of_digits value) else None)"

definition month_from_abbreviation :: "string \<Rightarrow> nat option" where
  "month_from_abbreviation value =
     (let upper = to_ascii_uppercase value;
          months = [''JAN'', ''FEB'', ''MAR'', ''APR'', ''MAY'', ''JUN'', ''JUL'', ''AUG'', ''SEP'', ''OCT'', ''NOV'', ''DEC'']
      in map_option (\<lambda>i. i + 1) (List.find (\<lambda>i. starts_with upper (months ! i)) [0..<12]))"

definition parse_iso_date :: "string \<Rightarrow> (int \<times> nat \<times> nat) option" where
  "parse_iso_date value =
     (case split_at_char (\<lambda>c. c = CHR ''-'') value of
        [year, month, day] \<Rightarrow>
          if length year \<noteq> 4 then None
          else Option.bind (parse_digits year) (\<lambda>y. Option.bind (parse_digits month) (\<lambda>m.
            Option.bind (parse_digits day) (\<lambda>d. Some (int y, m, d))))
      | _ \<Rightarrow> None)"

definition parse_dd_mon_date :: "string \<Rightarrow> (int \<times> nat \<times> nat) option" where
  "parse_dd_mon_date value =
     (case split_at_char (\<lambda>c. c = CHR ''-'') value of
        [day, month, year] \<Rightarrow>
          Option.bind (month_from_abbreviation month) (\<lambda>m. Option.bind (parse_digits day) (\<lambda>d.
            Option.bind (parse_digits year) (\<lambda>y.
              if length year = 4 then Some (int y, m, d)
              else if length year = 2 \<and> y < 50 then Some (2000 + int y, m, d)
              else if length year = 2 then Some (1900 + int y, m, d)
              else None)))
      | _ \<Rightarrow> None)"

text \<open>The time of a value: \<open>None\<close> is a panic, \<open>Some None\<close> a text that is not understood.\<close>

definition truncate_string :: "string \<Rightarrow> nat \<Rightarrow> string option" where
  "truncate_string s n =
     (if n \<le> length s then (if is_char_boundary s n then Some (take n s) else None) else Some s)"

definition parse_time :: "string \<Rightarrow> (nat \<times> nat \<times> nat \<times> nat) option option" where
  "parse_time value =
     (if value = [] then Some (Some (0, 0, 0, 0))
      else
        (let (clock, frac) = (case split_once (\<lambda>c. c = CHR ''.'') value of None \<Rightarrow> (value, ''0'') | Some p \<Rightarrow> p)
         in case split_at_char (\<lambda>c. c = CHR '':'') clock of
              hours # minutes # rest \<Rightarrow>
                (case (parse_digits hours, parse_digits minutes) of
                   (Some h, Some mi) \<Rightarrow>
                     (case (case rest of [] \<Rightarrow> Some 0 | seconds # _ \<Rightarrow> parse_digits seconds) of
                        None \<Rightarrow> Some None
                      | Some s \<Rightarrow>
                          if length rest > 1 then Some None
                          else
                            (case truncate_string frac 9 of
                               None \<Rightarrow> None
                             | Some scaled \<Rightarrow>
                                 (case parse_digits (scaled @ replicate (9 - length scaled) CHR ''0'') of
                                    None \<Rightarrow> Some None
                                  | Some f \<Rightarrow> Some (Some (h, mi, s, f)))))
                 | _ \<Rightarrow> Some None)
            | _ \<Rightarrow> Some None))"

definition split_date_and_time :: "string \<Rightarrow> string \<times> string" where
  "split_date_and_time value =
     (case split_once (\<lambda>c. c = CHR '' '' \<or> c = CHR ''T'' \<or> c = CHR ''t'') value of
        Some (date, time) \<Rightarrow> (date, trim time)
      | None \<Rightarrow> (value, []))"

definition parse_temporal :: "string \<Rightarrow> TemporalKey option option" where
  "parse_temporal value =
     (let trimmed = trim value
      in if trimmed = [] then Some None
         else
           (let (date_part, time_part) = split_date_and_time trimmed;
                date_part = map (\<lambda>c. if c = CHR ''/'' then CHR ''-'' else c) date_part
            in case (case parse_iso_date date_part of None \<Rightarrow> parse_dd_mon_date date_part | Some d \<Rightarrow> Some d) of
                 None \<Rightarrow> Some None
               | Some (year, month, day) \<Rightarrow>
                   (case parse_time time_part of
                      None \<Rightarrow> None
                    | Some None \<Rightarrow> Some None
                    | Some (Some (hour, minute, second, nanos)) \<Rightarrow>
                        Some (Some (year, month, day, hour, minute, second, nanos)))))"

definition compare_as_temporal :: "string \<Rightarrow> string \<Rightarrow> Ordering option" where
  "compare_as_temporal l r =
     (case (parse_temporal l, parse_temporal r) of
        (Some (Some left_key), Some (Some right_key)) \<Rightarrow> Some (order_of left_key right_key)
      | (Some _, Some _) \<Rightarrow> Some (order_of l r)
      | _ \<Rightarrow> None)"

section \<open>Sorting rows\<close>

definition compare_cell_values :: "string \<Rightarrow> bool \<Rightarrow> string \<Rightarrow> bool \<Rightarrow> SortColumn \<Rightarrow> Ordering option" where
  "compare_cell_values l left_null r right_null column =
     (case (left_null, right_null) of
        (True, True) \<Rightarrow> Some Equal
      | (True, False) \<Rightarrow> Some (case nulls column of LastOnAscending \<Rightarrow> Greater | FirstOnAscending \<Rightarrow> Less)
      | (False, True) \<Rightarrow> Some (case nulls column of LastOnAscending \<Rightarrow> Less | FirstOnAscending \<Rightarrow> Greater)
      | (False, False) \<Rightarrow>
          (case sort_kind column of
             KindTemporal \<Rightarrow> compare_as_temporal l r
           | _ \<Rightarrow> Some (compare_as_number l r)))"

definition eq_ignore_ascii_case :: "string \<Rightarrow> string \<Rightarrow> bool" where
  "eq_ignore_ascii_case s t \<longleftrightarrow> to_ascii_lowercase s = to_ascii_lowercase t"

definition input_matches_null_text :: "string \<Rightarrow> string \<Rightarrow> bool" where
  "input_matches_null_text input null_text =
     (let marker = trim null_text
      in if marker = [] then input = []
         else if eq_ignore_ascii_case marker ''NULL'' then eq_ignore_ascii_case input ''NULL''
         else input = marker)"

definition value_represents_null :: "string \<Rightarrow> string \<Rightarrow> bool" where
  "value_represents_null value null_text \<longleftrightarrow>
     value = [] \<or> eq_ignore_ascii_case (trim value) ''NULL'' \<or> input_matches_null_text (trim value) null_text"

datatype SortDirection = Ascending | Descending

fun toggled :: "SortDirection \<Rightarrow> SortDirection" where
  "toggled Ascending = Descending"
| "toggled Descending = Ascending"

record ColumnSortState =
  sort_col_idx :: nat
  direction :: SortDirection

definition next_sort_state :: "ColumnSortState option \<Rightarrow> nat \<Rightarrow> ColumnSortState" where
  "next_sort_state current col_idx =
     (case current of
        Some state \<Rightarrow>
          if sort_col_idx state = col_idx then \<lparr>sort_col_idx = col_idx, direction = toggled (direction state)\<rparr>
          else \<lparr>sort_col_idx = col_idx, direction = Ascending\<rparr>
      | None \<Rightarrow> \<lparr>sort_col_idx = col_idx, direction = Ascending\<rparr>)"

type_synonym grid_row = "string list"

definition sort_column_for :: "SqlValueKind list \<Rightarrow> nat \<Rightarrow> NullOrdering \<Rightarrow> SortColumn" where
  "sort_column_for column_kinds col_idx null_order =
     \<lparr>sort_kind = (if col_idx < length column_kinds then column_kinds ! col_idx else KindUnknown), nulls = null_order\<rparr>"

definition cell :: "grid_row \<Rightarrow> nat \<Rightarrow> string" where
  "cell row col_idx = (if col_idx < length row then row ! col_idx else [])"

definition compare_row_values_for_sort ::
    "grid_row \<Rightarrow> grid_row \<Rightarrow> nat \<Rightarrow> SortColumn \<Rightarrow> string \<Rightarrow> Ordering option" where
  "compare_row_values_for_sort l r col_idx column null_text =
     (let left_value = cell l col_idx; right_value = cell r col_idx
      in compare_cell_values left_value (value_represents_null left_value null_text)
           right_value (value_represents_null right_value null_text) column)"

text \<open>
  \<^verbatim>\<open>slice::sort_by\<close>: for a comparison that is a total order on the elements it is the stable sort; for any
  other the resulting order is unspecified and the call may panic, which is \<open>None\<close>.
\<close>

definition total_on :: "('a \<Rightarrow> 'a \<Rightarrow> Ordering option) \<Rightarrow> 'a list \<Rightarrow> bool" where
  "total_on cmp xs \<longleftrightarrow>
     list_all (\<lambda>a. cmp a a = Some Equal) xs \<and>
     list_all (\<lambda>a. list_all (\<lambda>b. cmp b a = map_option reverse_order (cmp a b) \<and> cmp a b \<noteq> None) xs) xs \<and>
     list_all (\<lambda>a. list_all (\<lambda>b. list_all (\<lambda>c.
       (cmp a b = Some Less \<and> cmp b c = Some Less \<longrightarrow> cmp a c = Some Less) \<and>
       (cmp a b = Some Equal \<and> cmp b c = Some Equal \<longrightarrow> cmp a c = Some Equal)) xs) xs) xs"

fun insert_by :: "('a \<Rightarrow> 'a \<Rightarrow> Ordering option) \<Rightarrow> 'a \<Rightarrow> 'a list \<Rightarrow> 'a list" where
  "insert_by cmp x [] = [x]"
| "insert_by cmp x (y # ys) = (if cmp x y = Some Greater then y # insert_by cmp x ys else x # y # ys)"

definition sort_by :: "('a \<Rightarrow> 'a \<Rightarrow> Ordering option) \<Rightarrow> 'a list \<Rightarrow> 'a list option" where
  "sort_by cmp xs = (if total_on cmp xs then Some (foldr (insert_by cmp) xs []) else None)"

definition directed :: "SortDirection \<Rightarrow> Ordering option \<Rightarrow> Ordering option" where
  "directed dir ord = (case dir of Ascending \<Rightarrow> ord | Descending \<Rightarrow> map_option reverse_order ord)"

text \<open>
  The sort of the rows and, in an edit session, of the states that belong to them. The result is the flag of
  the source with the rows and states afterwards.
\<close>

definition sort_row_entries ::
    "grid_row list \<Rightarrow> 's list option \<Rightarrow> nat \<Rightarrow> SortDirection \<Rightarrow> SortColumn \<Rightarrow> string \<Rightarrow>
     (bool \<times> grid_row list \<times> 's list option) option" where
  "sort_row_entries rows row_states col_idx dir column null_text =
     (let row_order = (\<lambda>l r. directed dir (compare_row_values_for_sort l r col_idx column null_text))
      in case row_states of
           Some states \<Rightarrow>
             if length states \<noteq> length rows then Some (False, rows, Some states)
             else map_option (\<lambda>paired. (True, map fst paired, Some (map snd paired)))
               (sort_by (\<lambda>l r. row_order (fst l) (fst r)) (zip rows states))
         | None \<Rightarrow> map_option (\<lambda>sorted_rows. (True, sorted_rows, None)) (sort_by row_order rows))"

section \<open>Numbers compare exactly\<close>

lemma order_of_simps [simp]: "order_of x x = Equal" "order_of x y = Equal \<longleftrightarrow> x = y" "order_of x y = Less \<longleftrightarrow> x < y"
    "order_of x y = Greater \<longleftrightarrow> y < x"
  by (auto simp: order_of_def)

lemma reverse_order_simps [simp]: "reverse_order c = Less \<longleftrightarrow> c = Greater" "reverse_order c = Equal \<longleftrightarrow> c = Equal"
    "reverse_order c = Greater \<longleftrightarrow> c = Less" "reverse_order (reverse_order c) = c"
  by (cases c; simp)+

lemma reverse_order_of: "reverse_order (order_of x y) = order_of y x"
  by (auto simp: order_of_def)

lemma order_of_mono: "strict_mono f \<Longrightarrow> order_of (f x) (f y) = order_of x y" for f :: "'a::linorder \<Rightarrow> 'b::linorder"
  by (auto simp: order_of_def strict_mono_less strict_mono_eq)

abbreviation digits :: "string \<Rightarrow> bool" where
  "digits \<equiv> list_all is_ascii_digit"

lemma digit_range: "is_ascii_digit c \<Longrightarrow> digit_value c < 10 \<and> of_char c = digit_value c + 48"
  by (auto simp: is_ascii_digit_def byte_between_def digit_value_def less_eq_char_def)

lemma digit_order: "is_ascii_digit c \<Longrightarrow> is_ascii_digit d \<Longrightarrow> order_of c d = order_of (digit_value c) (digit_value d)"
  using digit_range [of c] digit_range [of d] of_char_eq_iff [of c d, where 'a = nat] by (auto simp: order_of_def less_char_def)

lemma nat_of_digits_Nil [simp]: "nat_of_digits [] = 0"
  by (simp add: nat_of_digits_def)

lemma nat_of_digits_from: "foldl (\<lambda>v c. v * 10 + digit_value c) v cs = v * 10 ^ length cs + nat_of_digits cs"
proof (induction cs arbitrary: v)
  case (Cons c cs)
  have "nat_of_digits (c # cs) = foldl (\<lambda>v c. v * 10 + digit_value c) (digit_value c) cs" by (simp add: nat_of_digits_def)
  then show ?case by (simp add: Cons.IH add_mult_distrib)
qed simp

lemma nat_of_digits_Cons: "nat_of_digits (c # cs) = digit_value c * 10 ^ length cs + nat_of_digits cs"
  using nat_of_digits_from [of "digit_value c" cs] by (simp add: nat_of_digits_def)

lemma nat_of_digits_bound: "digits s \<Longrightarrow> nat_of_digits s < 10 ^ length s"
proof (induction s)
  case (Cons c cs)
  then have "digit_value c \<le> 9" "nat_of_digits cs < 10 ^ length cs" using digit_range [of c] by auto
  then have "digit_value c * 10 ^ length cs + nat_of_digits cs < 9 * 10 ^ length cs + 10 ^ length cs"
    by (intro add_le_less_mono mult_right_mono) simp_all
  then show ?case by (simp add: nat_of_digits_Cons)
qed simp

text \<open>A leading part decides, when what follows is smaller than one unit of it.\<close>

lemma order_of_leading:
  fixes a b x y m :: nat
  assumes "x < m" "y < m"
  shows "order_of (a * m + x) (b * m + y) = (case order_of a b of Equal \<Rightarrow> order_of x y | other \<Rightarrow> other)"
proof -
  have less: "a * m + x < b * m + y" if "a < b" "x < m" for a b x y
  proof -
    have "Suc a * m \<le> b * m" using \<open>a < b\<close> by (intro mult_right_mono) simp_all
    then show ?thesis using \<open>x < m\<close> by simp
  qed
  show ?thesis using less [of a b x y] less [of b a y x] assms by (cases a b rule: linorder_cases) (auto simp: order_of_def)
qed

lemma order_of_Cons:
  "order_of (c # cs) (d # ds) = (case order_of c d of Equal \<Rightarrow> order_of cs ds | other \<Rightarrow> other)"
  for c d :: "'a::linorder"
  by (auto simp: order_of_def)

lemma lexicographic_is_numeric:
  "length ls = length rs \<Longrightarrow> digits ls \<Longrightarrow> digits rs \<Longrightarrow>
     order_of ls rs = order_of (nat_of_digits ls) (nat_of_digits rs)"
proof (induction ls rs rule: list_induct2)
  case (Cons l ls r rs)
  then show ?case
    using nat_of_digits_bound [of ls] nat_of_digits_bound [of rs] order_of_leading [of "nat_of_digits ls" "10 ^ length ls" "nat_of_digits rs"]
    by (simp add: order_of_Cons digit_order nat_of_digits_Cons split: Ordering.splits)
qed simp

lemma without_leading_zeros:
  assumes "digits s"
  defines "t \<equiv> dropWhile (\<lambda>c. c = CHR ''0'') s"
  shows "nat_of_digits t = nat_of_digits s" "digits t" "t \<noteq> [] \<Longrightarrow> 10 ^ (length t - 1) \<le> nat_of_digits t"
proof -
  show "nat_of_digits t = nat_of_digits s" unfolding t_def
    by (induction s) (auto simp: nat_of_digits_Cons digit_value_def)
  show t: "digits t" using assms(1) set_dropWhileD by (fastforce simp: t_def list_all_iff)
  show "10 ^ (length t - 1) \<le> nat_of_digits t" if "t \<noteq> []"
  proof -
    obtain c cs where cs: "t = c # cs" using \<open>t \<noteq> []\<close> by (cases t) auto
    then have "c \<noteq> CHR ''0''" using hd_dropWhile [of "\<lambda>c. c = CHR ''0''" s] by (simp add: t_def)
    then have "1 \<le> digit_value c" using t cs digit_range [of c] of_char_eq_iff [of c "CHR ''0''", where 'a = nat] by fastforce
    then show ?thesis by (simp add: cs nat_of_digits_Cons trans_le_add1)
  qed
qed

definition fraction_value :: "string \<Rightarrow> rat" where
  "fraction_value s = of_nat (nat_of_digits s) / 10 ^ length s"

definition magnitude :: "Decimal \<Rightarrow> rat" where
  "magnitude d = of_nat (nat_of_digits (integer d)) + fraction_value (fraction d)"

definition value_of_decimal :: "Decimal \<Rightarrow> rat" where
  "value_of_decimal d = (if negative d then - magnitude d else magnitude d)"

lemma fraction_value_simps: "fraction_value [] = 0" "fraction_value (c # cs) = (of_nat (digit_value c) + fraction_value cs) / 10"
  by (simp_all add: fraction_value_def nat_of_digits_Cons field_simps)

lemma fraction_value_range: "digits s \<Longrightarrow> 0 \<le> fraction_value s \<and> fraction_value s < 1"
proof -
  assume "digits s"
  then have "(of_nat (nat_of_digits s) :: rat) < 10 ^ length s"
    using nat_of_digits_bound [of s] by (metis of_nat_less_iff of_nat_numeral of_nat_power)
  then show ?thesis by (simp add: fraction_value_def)
qed

lemma order_of_whole_and_part:
  assumes "0 \<le> x" "x < 1" "0 \<le> y" "y < (1 :: rat)"
  shows "order_of (of_nat a + x) (of_nat b + y) = (case order_of a b of Equal \<Rightarrow> order_of x y | other \<Rightarrow> other)"
proof -
  have less: "of_nat a + x < of_nat b + y" if "a < b" "x < 1" "0 \<le> y" for a b and x y :: rat
  proof -
    have "of_nat a + 1 \<le> (of_nat b :: rat)" using \<open>a < b\<close> by (metis Suc_leI of_nat_Suc of_nat_le_iff add.commute)
    then show ?thesis using \<open>x < 1\<close> \<open>0 \<le> y\<close> by linarith
  qed
  show ?thesis using less [of a b x y] less [of b a y x] assms by (cases a b rule: linorder_cases) (auto simp: order_of_def)
qed

lemma order_of_tenths: "order_of (x / 10) (y / 10) = order_of x (y :: rat)"
  by (auto simp: order_of_def)

lemma compare_fractions_exact:
  "digits ls \<Longrightarrow> digits rs \<Longrightarrow> compare_fractions ls rs = order_of (fraction_value ls) (fraction_value rs)"
proof (induction ls rs rule: compare_fractions.induct)
  case 1
  then show ?case by (simp add: fraction_value_simps)
next
  case (2 l ls)
  have "order_of (of_nat (digit_value l) + fraction_value ls) (of_nat 0 + 0) =
      (case order_of (digit_value l) 0 of Equal \<Rightarrow> order_of (fraction_value ls) 0 | other \<Rightarrow> other)"
    using order_of_whole_and_part [of "fraction_value ls" 0 "digit_value l" 0] fraction_value_range [of ls] "2.prems" by simp
  moreover have "order_of l CHR ''0'' = order_of (digit_value l) 0"
    using digit_order [of l "CHR ''0''"] "2.prems" by (simp add: is_ascii_digit_def byte_between_def digit_value_def)
  ultimately show ?case
    using 2 order_of_tenths [of "of_nat (digit_value l) + fraction_value ls" 0]
    by (simp add: fraction_value_simps split: Ordering.splits)
next
  case (3 r rs)
  have "order_of (of_nat 0 + 0) (of_nat (digit_value r) + fraction_value rs) =
      (case order_of 0 (digit_value r) of Equal \<Rightarrow> order_of 0 (fraction_value rs) | other \<Rightarrow> other)"
    using order_of_whole_and_part [of 0 "fraction_value rs" 0 "digit_value r"] fraction_value_range [of rs] "3.prems" by simp
  moreover have "order_of CHR ''0'' r = order_of 0 (digit_value r)"
    using digit_order [of "CHR ''0''" r] "3.prems" by (simp add: is_ascii_digit_def byte_between_def digit_value_def)
  ultimately show ?case
    using 3 order_of_tenths [of 0 "of_nat (digit_value r) + fraction_value rs"]
    by (simp add: fraction_value_simps split: Ordering.splits)
next
  case (4 l ls r rs)
  have "order_of (of_nat (digit_value l) + fraction_value ls) (of_nat (digit_value r) + fraction_value rs) =
      (case order_of (digit_value l) (digit_value r) of Equal \<Rightarrow> order_of (fraction_value ls) (fraction_value rs) | other \<Rightarrow> other)"
    using order_of_whole_and_part [of "fraction_value ls" "fraction_value rs"] fraction_value_range "4.prems" by simp
  then show ?case
    using 4 digit_order [of l r] by (simp add: fraction_value_simps order_of_tenths split: Ordering.splits)
qed

lemma compare_magnitude_exact:
  assumes "digits (integer l)" "digits (integer r)" "digits (fraction l)" "digits (fraction r)"
  shows "compare_magnitude l r = order_of (magnitude l) (magnitude r)"
proof -
  let ?l = "dropWhile (\<lambda>c. c = CHR ''0'') (integer l)" and ?r = "dropWhile (\<lambda>c. c = CHR ''0'') (integer r)"
  note l = without_leading_zeros [OF assms(1)] and r = without_leading_zeros [OF assms(2)]
  have longer: "nat_of_digits a < nat_of_digits b"
    if "length a < length b" "digits a" "10 ^ (length b - 1) \<le> nat_of_digits b" for a b
  proof -
    have "nat_of_digits a < 10 ^ length a" using nat_of_digits_bound \<open>digits a\<close> .
    also have "(10 :: nat) ^ length a \<le> 10 ^ (length b - 1)" using \<open>length a < length b\<close> by (intro power_increasing) simp_all
    finally show ?thesis using \<open>10 ^ (length b - 1) \<le> nat_of_digits b\<close> by simp
  qed
  have whole: "(case order_of (length ?l) (length ?r) of Equal \<Rightarrow> order_of ?l ?r | other \<Rightarrow> other) =
      order_of (nat_of_digits (integer l)) (nat_of_digits (integer r))"
  proof (cases "length ?l" "length ?r" rule: linorder_cases)
    case less
    then have "?r \<noteq> []" by (cases ?r) simp_all
    then have "nat_of_digits ?l < nat_of_digits ?r" by (intro longer [OF less l(2)] r(3))
    then show ?thesis using less l(1) r(1) by (simp add: order_of_def)
  next
    case equal
    then show ?thesis using lexicographic_is_numeric [OF equal l(2) r(2)] l(1) r(1) by simp
  next
    case greater
    then have "?l \<noteq> []" by (cases ?l) simp_all
    then have "nat_of_digits ?r < nat_of_digits ?l" by (intro longer [OF greater r(2)] l(3))
    then show ?thesis using greater l(1) r(1) by (simp add: order_of_def)
  qed
  have "compare_magnitude l r = (case order_of (nat_of_digits (integer l)) (nat_of_digits (integer r)) of
      Equal \<Rightarrow> compare_fractions (fraction l) (fraction r) | other \<Rightarrow> other)"
    unfolding whole [symmetric] compare_magnitude_def Let_def
    by (cases "order_of (length ?l) (length ?r)"; cases "order_of ?l ?r") (simp_all only: Ordering.case)
  also have "\<dots> = order_of (magnitude l) (magnitude r)"
    using order_of_whole_and_part [of "fraction_value (fraction l)" "fraction_value (fraction r)"]
      fraction_value_range [OF assms(3)] fraction_value_range [OF assms(4)]
    unfolding compare_fractions_exact [OF assms(3,4)] by (simp add: magnitude_def)
  finally show ?thesis .
qed

lemma nat_of_zeros: "digits s \<Longrightarrow> nat_of_digits s = 0 \<longleftrightarrow> list_all (\<lambda>c. c = CHR ''0'') s"
proof (induction s)
  case (Cons c cs)
  have "digit_value c = 0 \<longleftrightarrow> c = CHR ''0''"
    using digit_range [of c] Cons.prems of_char_eq_iff [of c "CHR ''0''", where 'a = nat] by (auto simp: digit_value_def)
  then show ?case using Cons by (simp add: nat_of_digits_Cons)
qed simp

lemma decimal_is_zero_iff:
  "digits (integer d) \<Longrightarrow> digits (fraction d) \<Longrightarrow> decimal_is_zero d \<longleftrightarrow> magnitude d = 0"
  using fraction_value_range [of "fraction d"] nat_of_zeros [of "integer d"] nat_of_zeros [of "fraction d"]
  by (auto simp: decimal_is_zero_def magnitude_def fraction_value_def add_nonneg_eq_0_iff)

lemma magnitude_nonneg: "digits (fraction d) \<Longrightarrow> 0 \<le> magnitude d"
  using fraction_value_range [of "fraction d"] by (simp add: magnitude_def)

lemma parsed_digits: "parse_decimal s = Some d \<Longrightarrow> digits (integer d) \<and> digits (fraction d)"
  by (auto simp: parse_decimal_def Let_def split: list.splits prod.splits if_splits)

lemma compare_decimal_exact:
  assumes "digits (integer l)" "digits (integer r)" "digits (fraction l)" "digits (fraction r)"
  shows "compare_decimal l r = order_of (value_of_decimal l) (value_of_decimal r)"
  using compare_magnitude_exact [OF assms] decimal_is_zero_iff [of l] decimal_is_zero_iff [of r]
    magnitude_nonneg [of l] magnitude_nonneg [of r] assms
  by (auto simp: compare_decimal_def value_of_decimal_def reverse_order_of order_of_def)

section \<open>The order of a column\<close>

text \<open>What a cell denotes for the sort: where it stands if it is NULL, else its number, its text or its time.\<close>

type_synonym cell_key = "nat \<times> nat \<times> rat \<times> string \<times> TemporalKey"

definition no_time :: TemporalKey where
  "no_time = (0, 0, 0, 0, 0, 0, 0)"

definition number_key :: "string \<Rightarrow> cell_key" where
  "number_key s = (case parse_decimal s of
     Some d \<Rightarrow> (1, 0, value_of_decimal d, [], no_time) | None \<Rightarrow> (1, 1, 0, s, no_time))"

definition time_key :: "string \<Rightarrow> cell_key" where
  "time_key s = (case parse_temporal s of Some (Some k) \<Rightarrow> (1, 0, 0, [], k) | _ \<Rightarrow> (1, 1, 0, s, no_time))"

definition cell_key :: "SortColumn \<Rightarrow> string \<Rightarrow> string \<Rightarrow> cell_key" where
  "cell_key column null_text s =
     (if value_represents_null s null_text
      then (case nulls column of LastOnAscending \<Rightarrow> 2 | FirstOnAscending \<Rightarrow> 0, 0, 0, [], no_time)
      else if sort_kind column = KindTemporal then time_key s else number_key s)"

text \<open>A column that the sort can read: every value of a date column is a date that it understands, or NULL.\<close>

definition readable :: "SortColumn \<Rightarrow> string \<Rightarrow> string \<Rightarrow> bool" where
  "readable column null_text s \<longleftrightarrow>
     (sort_kind column = KindTemporal \<longrightarrow>
        value_represents_null s null_text \<or> (\<exists>k. parse_temporal s = Some (Some k)))"

lemma order_of_fst: "fst x < fst y \<Longrightarrow> order_of x y = Less" "fst y < fst x \<Longrightarrow> order_of x y = Greater"
  for x y :: "'a::linorder \<times> 'b::linorder"
  by (simp_all add: less_prod_def)

lemma number_key_rank: "fst (number_key s) = 1"
  by (simp add: number_key_def split: option.split)

lemma time_key_rank: "fst (time_key s) = 1"
  by (simp add: time_key_def split: option.split)

lemma order_of_pair [simp]:
  "order_of (a, x) (b, y) = (case order_of a b of Equal \<Rightarrow> order_of x y | other \<Rightarrow> other)"
  for a b :: "'a::linorder" and x y :: "'b::linorder"
  by (auto simp: order_of_def)

lemma decided [simp]: "(case c of Less \<Rightarrow> Less | Equal \<Rightarrow> Equal | Greater \<Rightarrow> Greater) = c"
  by (cases c) simp_all

lemma order_of_numerals [simp]: "order_of (0 :: nat) 1 = Less" "order_of (1 :: nat) 0 = Greater"
  by (simp_all add: order_of_def)

lemma compare_as_number_key: "compare_as_number l r = order_of (number_key l) (number_key r)"
proof -
  have "compare_decimal lv rv = order_of (value_of_decimal lv) (value_of_decimal rv)"
    if "parse_decimal l = Some lv" "parse_decimal r = Some rv" for lv rv
    using compare_decimal_exact [of lv rv] parsed_digits [OF \<open>parse_decimal l = Some lv\<close>]
      parsed_digits [OF \<open>parse_decimal r = Some rv\<close>] by blast
  then show ?thesis
    unfolding compare_as_number_def number_key_def
    by (cases "parse_decimal l"; cases "parse_decimal r")
      (simp_all only: option.case prod.case order_of_pair order_of_simps(1) order_of_numerals Ordering.case decided)
qed

lemma compare_cells_by_key:
  assumes "readable column null_text l" "readable column null_text r"
  shows "compare_cell_values l (value_represents_null l null_text) r (value_represents_null r null_text) column =
    Some (order_of (cell_key column null_text l) (cell_key column null_text r))"
proof (cases "value_represents_null l null_text \<or> value_represents_null r null_text")
  case True
  have rank: "fst (if sort_kind column = KindTemporal then time_key s else number_key s) = 1" for s
    by (simp add: number_key_rank time_key_rank)
  have ranked: "order_of (2, p) k = Greater" "order_of (0, p) k = Less" "order_of k (2, p) = Less" "order_of k (0, p) = Greater"
    if "fst k = 1" for p and k :: cell_key
    using \<open>fst k = 1\<close> by (simp_all add: order_of_fst del: order_of_pair)
  show ?thesis
    using True
    by (cases "nulls column"; cases "value_represents_null l null_text"; cases "value_represents_null r null_text")
      (simp_all only: compare_cell_values_def cell_key_def ranked [OF rank] bool.case if_True if_False NullOrdering.case prod.case
        order_of_simps simp_thms)
next
  case False
  show ?thesis
  proof (cases "sort_kind column = KindTemporal")
    case True
    then obtain kl kr where "parse_temporal l = Some (Some kl)" "parse_temporal r = Some (Some kr)"
      using assms False by (auto simp: readable_def)
    then show ?thesis
      using True False
      by (simp add: compare_cell_values_def compare_as_temporal_def cell_key_def time_key_def)
  next
    case kind: False
    then show ?thesis
      using False by (cases "sort_kind column") (simp_all add: compare_cell_values_def cell_key_def compare_as_number_key)
  qed
qed

text \<open>Sorting by such an order is the stable sort by the key.\<close>

lemma total_by_key:
  assumes "\<forall>a \<in> set xs. \<forall>b \<in> set xs. cmp a b = Some (order_of (f a) (f b))"
  shows "total_on cmp xs"
  using assms by (auto simp: total_on_def list_all_iff reverse_order_of)

lemma insert_by_set: "set (insert_by cmp x ys) = insert x (set ys)"
  by (induction ys) auto

lemma insert_all_mset: "mset (foldr (insert_by cmp) xs []) = mset xs"
proof -
  have "mset (insert_by cmp x ys) = add_mset x (mset ys)" for x ys by (induction ys) auto
  then show ?thesis by (induction xs) simp_all
qed

lemma insert_all_ascending:
  assumes "\<forall>a \<in> set xs. \<forall>b \<in> set xs. cmp a b = Some (order_of (f a) (f b))"
  shows "foldr (insert_by cmp) xs [] = sort_key f xs"
proof -
  have insert: "insert_by cmp x ys = insort_key f x ys" if "\<forall>y \<in> set ys. cmp x y = Some (order_of (f x) (f y))" for x ys
    using that by (induction ys) auto
  show ?thesis
    using assms
  proof (induction xs)
    case (Cons x xs)
    have "set (foldr (insert_by cmp) xs []) = set xs" using insert_all_mset set_mset_mset by metis
    then show ?case using Cons insert [of "foldr (insert_by cmp) xs []" x] by (simp add: sort_key_def)
  qed simp
qed

lemma insert_descending:
  assumes "\<forall>y \<in> set ys. cmp x y = Some (order_of (f y) (f x))" "sorted_wrt (\<ge>) (map f ys)"
  shows "sorted_wrt (\<ge>) (map f (insert_by cmp x ys))"
    "filter (\<lambda>z. f k = f z) (insert_by cmp x ys) = filter (\<lambda>z. f k = f z) (x # ys)"
  using assms
  by (induction ys) (auto simp: insert_by_set not_less dest: order.strict_trans1 split: if_splits)

lemma insert_all_descending:
  assumes "\<forall>a \<in> set xs. \<forall>b \<in> set xs. cmp a b = Some (order_of (f b) (f a))"
  shows "foldr (insert_by cmp) xs [] = rev (sort_key f (rev xs))"
proof -
  have "sorted_wrt (\<ge>) (map f (foldr (insert_by cmp) xs [])) \<and>
      (\<forall>k. filter (\<lambda>z. f k = f z) (foldr (insert_by cmp) xs []) = filter (\<lambda>z. f k = f z) xs)"
    using assms
  proof (induction xs)
    case (Cons x xs)
    have "set (foldr (insert_by cmp) xs []) = set xs" using insert_all_mset set_mset_mset by metis
    then show ?case using Cons insert_descending [of "foldr (insert_by cmp) xs []" cmp x f] by simp
  qed simp
  then have "sort_key f (rev xs) = rev (foldr (insert_by cmp) xs [])"
    by (intro properties_for_sort_key) (simp_all add: insert_all_mset sorted_wrt_rev flip: rev_filter rev_map)
  then show ?thesis by simp
qed

section \<open>What the sort of the grid promises\<close>

lemma sort_by_ascending:
  assumes "\<forall>a \<in> set xs. \<forall>b \<in> set xs. cmp a b = Some (order_of (f a) (f b))"
  shows "sort_by cmp xs = Some (sort_key f xs)"
  using total_by_key [OF assms] insert_all_ascending [OF assms] by (simp add: sort_by_def)

lemma sort_by_descending:
  assumes "\<forall>a \<in> set xs. \<forall>b \<in> set xs. cmp a b = Some (order_of (f b) (f a))"
  shows "sort_by cmp xs = Some (rev (sort_key f (rev xs)))"
proof -
  have "total_on cmp xs" using assms by (auto simp: total_on_def list_all_iff reverse_order_of)
  then show ?thesis using insert_all_descending [OF assms] by (simp add: sort_by_def)
qed

text \<open>
  C12. Numbers compare by their value. Two cells of any column but a date column that both read as plain
  decimals are ordered exactly as the rational numbers they denote, however many digits they have and
  however they are written.
\<close>
theorem numbers_compare_by_value:
  assumes "parse_decimal l = Some dl" "parse_decimal r = Some dr" "sort_kind column \<noteq> KindTemporal"
  shows "compare_cell_values l False r False column =
    Some (if value_of_decimal dl < value_of_decimal dr then Less
          else if value_of_decimal dl = value_of_decimal dr then Equal else Greater)"
proof -
  have "compare_decimal dl dr = order_of (value_of_decimal dl) (value_of_decimal dr)"
    using compare_decimal_exact parsed_digits [OF assms(1)] parsed_digits [OF assms(2)] by blast
  then show ?thesis
    using assms by (cases "sort_kind column") (simp_all add: compare_cell_values_def compare_as_number_def order_of_def)
qed

theorem numbers_compare_by_value_witness:
  "compare_cell_values ''9007199254740993.10'' False ''+09007199254740993.1'' False
     \<lparr>sort_kind = KindNumber, nulls = LastOnAscending\<rparr> = Some Equal"
proof -
  let ?l = "\<lparr>negative = False, integer = ''9007199254740993'', fraction = ''10''\<rparr>"
  let ?r = "\<lparr>negative = False, integer = ''09007199254740993'', fraction = ''1''\<rparr>"
  have "parse_decimal ''9007199254740993.10'' = Some ?l \<and> parse_decimal ''+09007199254740993.1'' = Some ?r"
    by code_simp
  moreover have "value_of_decimal ?l = value_of_decimal ?r"
    by (simp add: value_of_decimal_def magnitude_def fraction_value_def nat_of_digits_def digit_value_def)
  ultimately show ?thesis
    using numbers_compare_by_value [of "''9007199254740993.10''" ?l "''+09007199254740993.1''" ?r
        "\<lparr>sort_kind = KindNumber, nulls = LastOnAscending\<rparr>"] by simp
qed

text \<open>The stable sort by a key, in the direction of the header.\<close>

definition stable_sorted :: "SortDirection \<Rightarrow> ('a \<Rightarrow> 'k::linorder) \<Rightarrow> 'a list \<Rightarrow> 'a list" where
  "stable_sorted dir key xs =
     (case dir of Ascending \<Rightarrow> sort_key key xs | Descending \<Rightarrow> rev (sort_key key (rev xs)))"

lemma sorted_by_cells:
  assumes "\<forall>x \<in> set xs. readable column null_text (cell (row_of x) col_idx)"
  shows "sort_by (\<lambda>l r. directed dir (compare_row_values_for_sort (row_of l) (row_of r) col_idx column null_text)) xs =
    Some (stable_sorted dir (\<lambda>x. cell_key column null_text (cell (row_of x) col_idx)) xs)"
proof -
  let ?cmp = "\<lambda>l r. directed dir (compare_row_values_for_sort (row_of l) (row_of r) col_idx column null_text)"
  let ?key = "\<lambda>x. cell_key column null_text (cell (row_of x) col_idx)"
  have key: "compare_row_values_for_sort (row_of a) (row_of b) col_idx column null_text = Some (order_of (?key a) (?key b))"
    if "a \<in> set xs" "b \<in> set xs" for a b
    using assms that compare_cells_by_key by (simp add: compare_row_values_for_sort_def Let_def)
  show ?thesis
  proof (cases dir)
    case Ascending
    then show ?thesis using sort_by_ascending [of xs ?cmp ?key] key by (simp add: stable_sorted_def directed_def)
  next
    case Descending
    then show ?thesis
      using sort_by_descending [of xs ?cmp ?key] key by (simp add: stable_sorted_def directed_def reverse_order_of)
  qed
qed

text \<open>
  C9. The grid's sort is the stable sort of its rows by what their cells denote: NULLs at the end where the
  backend puts them, numbers by value before texts by bytes, dates in their chronological order. It
  does not panic, no row is lost or doubled, and rows with equal cells keep their order in both directions. This
  is so for the rows of an ordinary result and in an edit session, where every row keeps the state that belongs
  to it; states that do not fit the rows are refused, and nothing moves. A date column may hold only dates
  that the reader understands.
\<close>
theorem grid_sort_is_the_stable_sort:
  fixes states other_states :: "'s list" and dir :: SortDirection
  assumes "length states = length rows" "\<forall>row \<in> set rows. readable column null_text (cell row col_idx)"
  defines "by_cell \<equiv> \<lambda>row. cell_key column null_text (cell row col_idx)"
  defines "sorted_entries \<equiv> stable_sorted dir (\<lambda>entry. by_cell (fst entry)) (zip rows states)"
  shows "sort_row_entries rows (None :: 's list option) col_idx dir column null_text =
      Some (True, stable_sorted dir by_cell rows, None) \<and>
    sort_row_entries rows (Some states) col_idx dir column null_text =
      Some (True, map fst sorted_entries, Some (map snd sorted_entries)) \<and>
    (length other_states \<noteq> length rows \<longrightarrow>
      sort_row_entries rows (Some other_states) col_idx dir column null_text = Some (False, rows, Some other_states))"
proof -
  have "\<forall>entry \<in> set (zip rows states). readable column null_text (cell (fst entry) col_idx)"
    using assms(2) by (auto dest: set_zip_leftD)
  from sorted_by_cells [OF this, of dir] sorted_by_cells [OF assms(2), of dir] show ?thesis
    using assms(1) by (simp add: sort_row_entries_def Let_def by_cell_def sorted_entries_def)
qed

theorem grid_sort_is_the_stable_sort_witness:
  "sort_row_entries [[''10''], [''9'']] (None :: string list option) 0 Ascending
     \<lparr>sort_kind = KindNumber, nulls = LastOnAscending\<rparr> ''NULL'' =
   Some (True, [[''9''], [''10'']], None) \<and>
   sort_row_entries [[''10''], [''9'']] (Some [''first'', ''second'']) 0 Ascending
     \<lparr>sort_kind = KindNumber, nulls = LastOnAscending\<rparr> ''NULL'' =
   Some (True, [[''9''], [''10'']], Some [''second'', ''first'']) \<and>
   sort_row_entries [[''10''], [''9'']] (Some [''first'']) 0 Ascending
     \<lparr>sort_kind = KindNumber, nulls = LastOnAscending\<rparr> ''NULL'' =
   Some (False, [[''10''], [''9'']], Some [''first''])"
proof -
  let ?column = "\<lparr>sort_kind = KindNumber, nulls = LastOnAscending\<rparr>"
  have "parse_decimal ''10'' = Some \<lparr>negative = False, integer = ''10'', fraction = []\<rparr> \<and>
      parse_decimal ''9'' = Some \<lparr>negative = False, integer = ''9'', fraction = []\<rparr> \<and>
      \<not> value_represents_null ''10'' ''NULL'' \<and> \<not> value_represents_null ''9'' ''NULL''"
    by code_simp
  then have "cell_key ?column ''NULL'' ''10'' = (1, 0, 10, [], no_time)" "cell_key ?column ''NULL'' ''9'' = (1, 0, 9, [], no_time)"
    by (simp_all add: cell_key_def number_key_def value_of_decimal_def magnitude_def fraction_value_def nat_of_digits_def
        digit_value_def)
  then show ?thesis
    using grid_sort_is_the_stable_sort [of "[''first'', ''second'']" "[[''10''], [''9'']]" ?column "''NULL''" 0 Ascending "[''first'']"]
    by (simp add: readable_def cell_def stable_sorted_def)
qed

section \<open>Where it breaks\<close>

lemma parse_short_digits:
  assumes "digits s" "s \<noteq> []" "length s \<le> 9"
  shows "parse_digits s = Some (nat_of_digits s)"
proof -
  have "nat_of_digits s < 10 ^ length s" using nat_of_digits_bound assms(1) .
  also have "(10 :: nat) ^ length s \<le> 10 ^ 9" using assms(3) by (intro power_increasing) simp_all
  also have "(10 :: nat) ^ 9 < 2 ^ 32" by simp
  finally show ?thesis using assms(1,2) by (simp add: parse_digits_def)
qed

text \<open>
  A time with a Korean meridian mark after six digits of fraction: the ninth byte of the fraction is inside
  the mark, and cutting there panics.
\<close>

definition korean_time :: string where
  "korean_time = ''2024-01-02 10:20:30.123456 '' @ [CHR 0xEC, CHR 0x98, CHR 0xA4, CHR 0xEC, CHR 0xA0, CHR 0x84]"

lemma fraction_cut_panics: "compare_as_temporal korean_time other = None"
proof -
  have cut: "truncate_string (''123456 '' @ [CHR 0xEC, CHR 0x98, CHR 0xA4, CHR 0xEC, CHR 0xA0, CHR 0x84]) 9 = None"
    by code_simp
  have parts: "trim korean_time = korean_time \<and>
      split_date_and_time korean_time = (''2024-01-02'', drop 11 korean_time) \<and>
      split_at_char (\<lambda>c. c = CHR ''-'') ''2024-01-02'' = [''2024'', ''01'', ''02''] \<and>
      split_once (\<lambda>c. c = CHR ''.'') (drop 11 korean_time) = Some (''10:20:30'', ''123456 '' @ [CHR 0xEC, CHR 0x98, CHR 0xA4, CHR 0xEC, CHR 0xA0, CHR 0x84]) \<and>
      split_at_char (\<lambda>c. c = CHR '':'') ''10:20:30'' = [''10'', ''20'', ''30''] \<and> drop 11 korean_time \<noteq> [] \<and> korean_time \<noteq> [] \<and>
      digits ''2024'' \<and> digits ''01'' \<and> digits ''02'' \<and> digits ''10'' \<and> digits ''20'' \<and> digits ''30''"
    by code_simp
  have "parse_iso_date ''2024-01-02'' = Some (int (nat_of_digits ''2024''), nat_of_digits ''01'', nat_of_digits ''02'')"
    using parts by (simp add: parse_iso_date_def parse_short_digits)
  moreover have "parse_time (drop 11 korean_time) = None"
    using parts cut by (simp add: parse_time_def parse_short_digits)
  ultimately have "parse_temporal korean_time = None"
    using parts by (simp add: parse_temporal_def)
  then show ?thesis by (simp add: compare_as_temporal_def split: option.split)
qed

text \<open>
  Two dates and one text that is not a date: each pair with the text compares by bytes, the dates by time, and
  the three have no order.
\<close>

lemma mixed_dates_have_no_order:
  "sort_row_entries [[''01-FEB-24''], [''01-X''], [''02-JAN-24'']] (None :: unit list option) 0 Ascending
     \<lparr>sort_kind = KindTemporal, nulls = LastOnAscending\<rparr> ''NULL'' = None"
proof -
  let ?a = "''01-FEB-24''" and ?b = "''01-X''" and ?c = "''02-JAN-24''"
  have parts: "trim ?a = ?a \<and> trim ?b = ?b \<and> trim ?c = ?c \<and>
      split_date_and_time ?a = (?a, []) \<and> split_date_and_time ?b = (?b, []) \<and> split_date_and_time ?c = (?c, []) \<and>
      split_at_char (\<lambda>c. c = CHR ''-'') ?a = [''01'', ''FEB'', ''24''] \<and> split_at_char (\<lambda>c. c = CHR ''-'') ?b = [''01'', ''X''] \<and>
      split_at_char (\<lambda>c. c = CHR ''-'') ?c = [''02'', ''JAN'', ''24''] \<and>
      month_from_abbreviation ''FEB'' = Some 2 \<and> month_from_abbreviation ''JAN'' = Some 1 \<and>
      digits ''01'' \<and> digits ''02'' \<and> digits ''24'' \<and>
      \<not> value_represents_null ?a ''NULL'' \<and> \<not> value_represents_null ?b ''NULL'' \<and> \<not> value_represents_null ?c ''NULL'' \<and>
      order_of ?a ?b = Less \<and> order_of ?b ?c = Less"
    by code_simp
  have "parse_temporal ?a = Some (Some (2024, 2, 1, 0, 0, 0, 0))" "parse_temporal ?c = Some (Some (2024, 1, 2, 0, 0, 0, 0))"
      "parse_temporal ?b = Some None"
    using parts
    by (simp_all add: parse_temporal_def parse_iso_date_def parse_dd_mon_date_def parse_time_def parse_short_digits
        nat_of_digits_def digit_value_def)
  then have "compare_as_temporal ?a ?b = Some Less" "compare_as_temporal ?b ?c = Some Less" "compare_as_temporal ?a ?c = Some Greater"
    using parts by (simp_all add: compare_as_temporal_def) (simp add: order_of_def)
  then show ?thesis
    using parts
    by (simp add: sort_row_entries_def sort_by_def total_on_def compare_row_values_for_sort_def compare_cell_values_def cell_def
        directed_def Let_def)
qed

end
