(* ===== verification/Result_Files.thy ===== *)
theory Result_Files
  imports Grid_Sort
begin

text \<open>
  Export of a result to a delimited file and import of such a file (\<^verbatim>\<open>src/ui/result_export.rs\<close>,
  \<^verbatim>\<open>src/ui/result_import.rs\<close>). A text is its bytes: separators, quotes and line breaks are ASCII, and no other
  byte of a character is, so reading bytes reads characters. The argument \<open>windows\<close> is the platform that
  \<^verbatim>\<open>cfg!(windows)\<close> asks about.
\<close>

section \<open>Formats\<close>

datatype ExportFormat = Csv | Tsv | Json | Xml | Html | Markdown | Parquet | SqlInserts

datatype ExportDestination = FileDestination | ClipboardDestination

fun format_label :: "ExportFormat \<Rightarrow> string" where
  "format_label Csv = ''CSV''"
| "format_label Tsv = ''TSV''"
| "format_label Json = ''JSON''"
| "format_label Xml = ''XML''"
| "format_label Html = ''HTML''"
| "format_label Markdown = ''Markdown''"
| "format_label Parquet = ''Parquet''"
| "format_label SqlInserts = ''SQL Inserts''"

fun format_extension :: "ExportFormat \<Rightarrow> string" where
  "format_extension Csv = ''csv''"
| "format_extension Tsv = ''tsv''"
| "format_extension Json = ''json''"
| "format_extension Xml = ''xml''"
| "format_extension Html = ''html''"
| "format_extension Markdown = ''md''"
| "format_extension Parquet = ''parquet''"
| "format_extension SqlInserts = ''sql''"

definition writes_text :: "ExportFormat \<Rightarrow> bool" where
  "writes_text format \<longleftrightarrow> format \<noteq> Parquet"

definition all_formats :: "ExportFormat list" where
  "all_formats = [Csv, Tsv, Json, Xml, Html, Markdown, Parquet, SqlInserts]"

definition clipboard_refusal :: "ExportFormat \<Rightarrow> string option" where
  "clipboard_refusal format =
     (if writes_text format then None
      else Some (format_label format @ '' is a binary format, so it can only be exported to a file.''))"

definition byte_order_mark :: string where
  "byte_order_mark = [CHR 0xEF, CHR 0xBB, CHR 0xBF]"

definition file_byte_order_mark :: "ExportFormat \<Rightarrow> string" where
  "file_byte_order_mark format = (case format of Csv \<Rightarrow> byte_order_mark | Tsv \<Rightarrow> byte_order_mark | _ \<Rightarrow> [])"

definition with_destination_prelude :: "ExportFormat \<Rightarrow> ExportDestination \<Rightarrow> string \<Rightarrow> string" where
  "with_destination_prelude format destination body =
     (case destination of FileDestination \<Rightarrow> file_byte_order_mark format | ClipboardDestination \<Rightarrow> []) @ body"

section \<open>Writing a delimited file\<close>

type_synonym export_cell = "string option"

record ExportGrid =
  grid_columns :: "string list"
  column_kinds :: "SqlValueKind list"
  grid_rows :: "export_cell list list"
  grid_null_text :: string

definition grid_cell :: "export_cell list \<Rightarrow> nat \<Rightarrow> export_cell" where
  "grid_cell row i = (if i < length row then row ! i else None)"

definition display_cell :: "ExportGrid \<Rightarrow> export_cell list \<Rightarrow> nat \<Rightarrow> string \<times> bool" where
  "display_cell grid row i =
     (case grid_cell row i of
        Some value \<Rightarrow> (value, value = [] \<or> value = grid_null_text grid)
      | None \<Rightarrow> (grid_null_text grid, False))"

definition column_kind :: "ExportGrid \<Rightarrow> nat \<Rightarrow> SqlValueKind" where
  "column_kind grid i = (if i < length (column_kinds grid) then column_kinds grid ! i else KindUnknown)"

definition csv_line_ending :: "bool \<Rightarrow> string" where
  "csv_line_ending windows = (if windows then [CHR 0x0D, CHR 0x0A] else [CHR 0x0A])"

definition delimited_field_needs_quotes :: "string \<Rightarrow> char \<Rightarrow> bool" where
  "delimited_field_needs_quotes field separator \<longleftrightarrow>
     separator \<in> set field \<or> CHR 0x22 \<in> set field \<or> CHR 0x0A \<in> set field \<or> CHR 0x0D \<in> set field"

definition doubled_quotes :: "string \<Rightarrow> string" where
  "doubled_quotes s = concat (map (\<lambda>c. if c = CHR 0x22 then [c, c] else [c]) s)"

definition escape_delimited_field :: "string \<Rightarrow> char \<Rightarrow> bool \<Rightarrow> string" where
  "escape_delimited_field field separator force_quotes =
     (if force_quotes \<or> delimited_field_needs_quotes field separator
      then [CHR 0x22] @ doubled_quotes field @ [CHR 0x22] else field)"

fun separated_line :: "char \<Rightarrow> string list \<Rightarrow> string" where
  "separated_line separator [] = []"
| "separated_line separator [body] = body"
| "separated_line separator (body # others) = body @ [separator] @ separated_line separator others"

definition render_separated :: "bool \<Rightarrow> ExportGrid \<Rightarrow> char \<Rightarrow> string" where
  "render_separated windows grid separator =
     (let line_ending = csv_line_ending windows
      in separated_line separator (map (\<lambda>column. escape_delimited_field column separator False) (grid_columns grid)) @ line_ending @
         concat (map (\<lambda>row.
           separated_line separator (map (\<lambda>i. case display_cell grid row i of (body, force_quotes) \<Rightarrow>
             escape_delimited_field body separator force_quotes) [0..<length (grid_columns grid)]) @ line_ending) (grid_rows grid)))"

section \<open>Reading a delimited file\<close>

record ImportedTable =
  columns :: "string list"
  rows :: "string option list list"
  file_named_the_columns :: bool

record ImportOptions =
  import_format :: ExportFormat
  has_header :: bool
  null_text :: string

definition of_records :: "string option list \<Rightarrow> string option list list \<Rightarrow> bool \<Rightarrow> ImportedTable" where
  "of_records first rest first_record_names_the_columns =
     (if first_record_names_the_columns
      then \<lparr>columns = map (\<lambda>c. case c of None \<Rightarrow> [] | Some s \<Rightarrow> s) first, rows = rest, file_named_the_columns = True\<rparr>
      else \<lparr>columns = map (\<lambda>i. ''COLUMN_'' @ show_nat i) [1..<Suc (length first)], rows = first # rest,
            file_named_the_columns = False\<rparr>)"

definition validate_row :: "nat \<Rightarrow> string option list \<Rightarrow> string + string option list" where
  "validate_row width row =
     (if length row > width
      then Inl (''A row has '' @ show_nat (length row) @ '' values but the file declares '' @ show_nat width @ '' columns.'')
      else Inr (row @ replicate (width - length row) None))"

fun validate_rows :: "nat \<Rightarrow> string option list list \<Rightarrow> string + string option list list" where
  "validate_rows width [] = Inr []"
| "validate_rows width (row # rest) =
     (case validate_row width row of
        Inl e \<Rightarrow> Inl e
      | Inr row \<Rightarrow> (case validate_rows width rest of Inl e \<Rightarrow> Inl e | Inr rest \<Rightarrow> Inr (row # rest)))"

definition validate :: "ImportedTable \<Rightarrow> string + ImportedTable" where
  "validate table =
     (if columns table = [] then Inl ''The file has no columns to import.''
      else if list_ex (\<lambda>column. trim column = []) (columns table) then Inl ''The file has a column with no name.''
      else (case validate_rows (length (columns table)) (rows table) of
              Inl e \<Rightarrow> Inl e
            | Inr padded \<Rightarrow> Inr (table\<lparr>rows := padded\<rparr>)))"

record DelimitedField =
  field_text :: string
  quoted :: bool

record delimited_state =
  records :: "DelimitedField list list"
  current_record :: "DelimitedField list"
  field :: string
  field_quoted :: bool
  in_quotes :: bool
  field_started :: bool
  record_started :: bool

definition delimited_start :: delimited_state where
  "delimited_start = \<lparr>records = [], current_record = [], field = [], field_quoted = False, in_quotes = False,
     field_started = False, record_started = False\<rparr>"

definition take_field :: "delimited_state \<Rightarrow> delimited_state" where
  "take_field st = st\<lparr>current_record := current_record st @ [\<lparr>field_text = field st, quoted = field_quoted st\<rparr>],
     field := [], field_quoted := False\<rparr>"

definition end_of_line :: "delimited_state \<Rightarrow> delimited_state" where
  "end_of_line st =
     (let st = (if record_started st
                then (let st = take_field st in st\<lparr>records := records st @ [current_record st], current_record := []\<rparr>) else st)
      in st\<lparr>field_started := False, record_started := False\<rparr>)"

function delimited_loop :: "char \<Rightarrow> delimited_state \<Rightarrow> string \<Rightarrow> delimited_state" where
  "delimited_loop separator st [] = st"
| "delimited_loop separator st (ch # rest) =
     (if in_quotes st then
        (if ch = CHR 0x22 then
           (if byte_at rest 0 = Some CHR 0x22 then delimited_loop separator (st\<lparr>field := field st @ [CHR 0x22]\<rparr>) (drop 1 rest)
            else delimited_loop separator (st\<lparr>in_quotes := False\<rparr>) rest)
         else delimited_loop separator (st\<lparr>field := field st @ [ch]\<rparr>) rest)
      else if ch = CHR 0x22 \<and> \<not> field_started st then
        delimited_loop separator (st\<lparr>field_started := True, record_started := True, field_quoted := True, in_quotes := True\<rparr>) rest
      else if ch = separator then
        delimited_loop separator ((take_field st)\<lparr>field_started := False, record_started := True\<rparr>) rest
      else if ch = CHR 0x0D \<or> ch = CHR 0x0A then
        delimited_loop separator (end_of_line st)
          (if ch = CHR 0x0D \<and> byte_at rest 0 = Some CHR 0x0A then drop 1 rest else rest)
      else delimited_loop separator (st\<lparr>field_started := True, record_started := True, field := field st @ [ch]\<rparr>) rest)"
  by pat_completeness auto
termination by (relation "measure (\<lambda>(separator, st, s). length s)") (auto simp: less_Suc_eq_le)

definition split_delimited_records :: "string \<Rightarrow> char \<Rightarrow> DelimitedField list list" where
  "split_delimited_records s separator =
     (let st = delimited_loop separator delimited_start s
      in if record_started st then records st @ [current_record (take_field st)] else records st)"

definition null_text_quoting_is_a_signal :: "string \<Rightarrow> char \<Rightarrow> bool" where
  "null_text_quoting_is_a_signal null separator \<longleftrightarrow> \<not> delimited_field_needs_quotes null separator"

definition to_cells :: "ImportOptions \<Rightarrow> char \<Rightarrow> DelimitedField list \<Rightarrow> string option list" where
  "to_cells options separator delimited =
     map (\<lambda>f. if field_text f = null_text options \<and>
                (\<not> quoted f \<or> \<not> null_text_quoting_is_a_signal (null_text options) separator)
              then None else Some (field_text f)) delimited"

definition parse_separated :: "string \<Rightarrow> char \<Rightarrow> ImportOptions \<Rightarrow> string + ImportedTable" where
  "parse_separated s separator options =
     (case split_delimited_records s separator of
        [] \<Rightarrow> Inl ''The file is empty.''
      | first # rest \<Rightarrow>
          Inr (of_records
            (if has_header options then map (\<lambda>f. Some (field_text f)) first else to_cells options separator first)
            (map (to_cells options separator) rest) (has_header options)))"

text \<open>\<^verbatim>\<open>parse\<close> for the two delimited formats, \<^verbatim>\<open>Csv\<close> and \<^verbatim>\<open>Tsv\<close>.\<close>

definition parse_delimited :: "string \<Rightarrow> ImportOptions \<Rightarrow> string + ImportedTable" where
  "parse_delimited s options =
     (let s = (case strip_prefix byte_order_mark s of None \<Rightarrow> s | Some rest \<Rightarrow> rest);
          separator = (if import_format options = Csv then CHR 0x2C else CHR 0x09)
      in case parse_separated s separator options of Inl e \<Rightarrow> Inl e | Inr table \<Rightarrow> validate table)"

section \<open>Formats a file is read as\<close>

definition header_choice_applies :: "ExportFormat \<Rightarrow> bool" where
  "header_choice_applies format \<longleftrightarrow> format \<in> {Csv, Tsv, Html}"

definition null_text_choice_applies :: "ExportFormat \<Rightarrow> bool" where
  "null_text_choice_applies format \<longleftrightarrow> format \<in> {Csv, Tsv}"

definition import_formats :: "ExportFormat list" where
  "import_formats = filter writes_text all_formats"

text \<open>\<^verbatim>\<open>detect_format\<close>, on the extension of the path.\<close>

definition detect_format :: "string option \<Rightarrow> ExportFormat option" where
  "detect_format path_extension =
     (case path_extension of
        None \<Rightarrow> None
      | Some extension \<Rightarrow>
          (let extension = to_ascii_lowercase extension
           in case find (\<lambda>format. format_extension format = extension) import_formats of
                Some format \<Rightarrow> Some format
              | None \<Rightarrow>
                  if extension \<in> {''txt'', ''text''} then Some Csv
                  else if extension = ''markdown'' then Some Markdown
                  else if extension = ''htm'' then Some Html
                  else None))"

section \<open>Names of fields\<close>

lemma show_nat_value: "nat_of_digits (show_nat n) = n"
proof (induction n rule: show_nat.induct)
  case (1 n)
  have digit: "digit_value (digit_char k) = k" if "k < 10" for k
    using that by (simp add: digit_value_def digit_char_def)
  show ?case
    using 1 by (subst show_nat.simps) (simp add: nat_of_digits_def digit)
qed

lemma show_nat_eq [simp]: "show_nat m = show_nat n \<longleftrightarrow> m = n"
  by (metis show_nat_value)

text \<open>
  The first free suffix of a repeated name. The set of the names that are taken is a list; the loop ends since
  only finitely many suffixes are.
\<close>

function free_name :: "string list \<Rightarrow> string \<Rightarrow> nat \<Rightarrow> string" where
  "free_name taken name suffix =
     (if name @ ''_'' @ show_nat suffix \<in> set taken then free_name taken name (suffix + 1)
      else name @ ''_'' @ show_nat suffix)"
  by pat_completeness auto
termination
proof (relation "measure (\<lambda>(taken, name, suffix). card {n. suffix \<le> n \<and> name @ ''_'' @ show_nat n \<in> set taken})")
  fix taken name suffix
  assume here: "name @ ''_'' @ show_nat suffix \<in> set taken"
  let ?later = "\<lambda>k. {n. k \<le> n \<and> name @ ''_'' @ show_nat n \<in> set taken}"
  have "(\<lambda>n. name @ ''_'' @ show_nat n) ` ?later suffix \<subseteq> set taken" "inj (\<lambda>n. name @ ''_'' @ show_nat n)"
    by (auto intro: injI)
  then have "finite (?later suffix)" by (meson finite_imageD finite_set inj_on_subset rev_finite_subset subset_UNIV)
  moreover have "suffix \<in> ?later suffix" "suffix \<notin> ?later (suffix + 1)" "?later (suffix + 1) \<subseteq> ?later suffix"
    using here by auto
  then have "?later (suffix + 1) \<subset> ?later suffix" by blast
  ultimately show "((taken, name, suffix + 1), taken, name, suffix) \<in> measure (\<lambda>(taken, name, suffix).
      card {n. suffix \<le> n \<and> name @ ''_'' @ show_nat n \<in> set taken})"
    by (simp add: psubset_card_mono)
qed simp

declare free_name.simps [simp del]

fun unique_names_loop :: "string list \<Rightarrow> string list \<Rightarrow> string list" where
  "unique_names_loop taken [] = []"
| "unique_names_loop taken (name # names) =
     (let emitted = (if name \<notin> set taken then name else free_name taken name 2)
      in emitted # unique_names_loop (emitted # taken) names)"

definition unique_field_names :: "string list \<Rightarrow> string list" where
  "unique_field_names names = unique_names_loop [] names"

section \<open>Numbers in JSON\<close>

definition skip_digits :: "string \<Rightarrow> string" where
  "skip_digits s = dropWhile is_ascii_digit s"

definition json_exponent :: "string \<Rightarrow> bool" where
  "json_exponent s =
     (case s of
        c # rest \<Rightarrow>
          if c = CHR ''e'' \<or> c = CHR ''E'' then
            (let rest = (case rest of d # ds \<Rightarrow> if d = CHR ''+'' \<or> d = CHR ''-'' then ds else rest | [] \<Rightarrow> [])
             in rest \<noteq> [] \<and> is_ascii_digit (hd rest) \<and> skip_digits rest = [])
          else False
      | [] \<Rightarrow> True)"

definition json_fraction :: "string \<Rightarrow> bool" where
  "json_fraction s =
     (case s of
        c # rest \<Rightarrow>
          if c = CHR ''.'' then rest \<noteq> [] \<and> is_ascii_digit (hd rest) \<and> json_exponent (skip_digits rest)
          else json_exponent s
      | [] \<Rightarrow> True)"

definition is_json_number :: "string \<Rightarrow> bool" where
  "is_json_number value =
     (let s = (case value of c # rest \<Rightarrow> if c = CHR ''-'' then rest else value | [] \<Rightarrow> [])
      in case s of
           [] \<Rightarrow> False
         | c # rest \<Rightarrow>
             if c = CHR ''0'' then json_fraction rest
             else if is_ascii_digit c then json_fraction (skip_digits rest)
             else False)"

text \<open>\<^verbatim>\<open>serde_json::to_string\<close> writes a string; it is the argument \<open>json_string\<close>.\<close>

definition json_value :: "(string \<Rightarrow> string) \<Rightarrow> ExportGrid \<Rightarrow> export_cell list \<Rightarrow> nat \<Rightarrow> string" where
  "json_value json_string grid row i =
     (case grid_cell row i of
        None \<Rightarrow> ''null''
      | Some value \<Rightarrow>
          (let trimmed = trim value
           in if column_kind grid i = KindBoolean then
                (if eq_ignore_ascii_case trimmed ''true'' then ''true''
                 else if eq_ignore_ascii_case trimmed ''false'' then ''false''
                 else if is_json_number trimmed then trimmed
                 else json_string value)
              else if column_kind grid i = KindNumber then
                (if is_json_number trimmed then trimmed else json_string value)
              else json_string value))"

fun json_members :: "(string \<times> string) list \<Rightarrow> string" where
  "json_members [] = []"
| "json_members ((key, value) # members) =
     ''    '' @ key @ '': '' @ value @ (if members \<noteq> [] then '','' else []) @ [CHR 0x0A] @ json_members members"

fun json_objects :: "string list \<Rightarrow> string" where
  "json_objects [] = []"
| "json_objects (members # objects) =
     ''  {'' @ [CHR 0x0A] @ members @ ''  }'' @ (if objects \<noteq> [] then '','' else []) @ [CHR 0x0A] @ json_objects objects"

definition render_json :: "(string \<Rightarrow> string) \<Rightarrow> ExportGrid \<Rightarrow> string" where
  "render_json json_string grid =
     (if grid_rows grid = [] then ''[]'' @ [CHR 0x0A]
      else (let names = unique_field_names (grid_columns grid)
            in ''['' @ [CHR 0x0A] @
               json_objects (map (\<lambda>row. json_members
                 (map (\<lambda>i. (json_string (names ! i), json_value json_string grid row i)) [0..<length names])) (grid_rows grid)) @
               '']'' @ [CHR 0x0A]))"

section \<open>A written line is read back\<close>

declare delimited_loop.simps [simp del]

lemma delimited_loop_Nil [simp]: "delimited_loop separator st [] = st"
  by (simp add: delimited_loop.simps)

text \<open>A bare field leaves its text in the state, a quoted one also its mark.\<close>

lemma bare_field:
  assumes "\<not> delimited_field_needs_quotes body separator" "\<not> in_quotes st" "body \<noteq> []"
  shows "delimited_loop separator st (body @ rest) =
    delimited_loop separator (st\<lparr>field_started := True, record_started := True, field := field st @ body\<rparr>) rest"
  using assms
proof (induction body arbitrary: st)
  case (Cons c cs)
  have c: "c \<noteq> CHR 0x22" "c \<noteq> separator" "c \<noteq> CHR 0x0D" "c \<noteq> CHR 0x0A" "\<not> delimited_field_needs_quotes cs separator"
    using Cons.prems(1) by (auto simp: delimited_field_needs_quotes_def)
  let ?st = "st\<lparr>field_started := True, record_started := True, field := field st @ [c]\<rparr>"
  have step: "delimited_loop separator st ((c # cs) @ rest) = delimited_loop separator ?st (cs @ rest)"
    using c Cons.prems(2) by (simp add: delimited_loop.simps)
  show ?case
  proof (cases "cs = []")
    case False
    then show ?thesis unfolding step using Cons.IH [of ?st] c(5) Cons.prems(2) by simp
  qed (use step in simp)
qed simp

lemma quoted_body:
  assumes "in_quotes st" "byte_at rest 0 \<noteq> Some CHR 0x22"
  shows "delimited_loop separator st (doubled_quotes body @ CHR 0x22 # rest) =
    delimited_loop separator (st\<lparr>field := field st @ body, in_quotes := False\<rparr>) rest"
  using assms(1)
proof (induction body arbitrary: st)
  case Nil
  then show ?case using assms(2) by (simp add: doubled_quotes_def delimited_loop.simps(2))
next
  case (Cons c cs)
  let ?st = "st\<lparr>field := field st @ [c]\<rparr>"
  have "delimited_loop separator st (doubled_quotes (c # cs) @ CHR 0x22 # rest) =
      delimited_loop separator ?st (doubled_quotes cs @ CHR 0x22 # rest)"
    using Cons.prems
    by (cases "c = CHR 0x22") (simp_all add: doubled_quotes_def delimited_loop.simps(2) byte_at_def)
  then show ?case using Cons.IH [of ?st] Cons.prems by simp
qed

text \<open>The state after a field has been read, and what the field is then filed as.\<close>

abbreviation at_field_start :: "delimited_state \<Rightarrow> bool" where
  "at_field_start st \<equiv> field st = [] \<and> \<not> field_quoted st \<and> \<not> in_quotes st \<and> \<not> field_started st"

definition written_field :: "char \<Rightarrow> string \<times> bool \<Rightarrow> DelimitedField" where
  "written_field separator f = \<lparr>field_text = fst f, quoted = snd f \<or> delimited_field_needs_quotes (fst f) separator\<rparr>"

definition written_text :: "char \<Rightarrow> string \<times> bool \<Rightarrow> string" where
  "written_text separator f = escape_delimited_field (fst f) separator (snd f)"

definition field_read :: "DelimitedField \<Rightarrow> delimited_state \<Rightarrow> delimited_state" where
  "field_read f st = st\<lparr>field := field_text f, field_quoted := quoted f,
     field_started := quoted f \<or> field_text f \<noteq> [], record_started := record_started st \<or> quoted f \<or> field_text f \<noteq> []\<rparr>"

lemma one_field:
  assumes "at_field_start st" "byte_at rest 0 \<noteq> Some CHR 0x22"
  shows "delimited_loop separator st (written_text separator f @ rest) =
    delimited_loop separator (field_read (written_field separator f) st) rest"
proof (cases "snd f \<or> delimited_field_needs_quotes (fst f) separator")
  case True
  let ?st = "st\<lparr>field_started := True, record_started := True, field_quoted := True, in_quotes := True\<rparr>"
  have "delimited_loop separator st (written_text separator f @ rest) =
      delimited_loop separator ?st (doubled_quotes (fst f) @ CHR 0x22 # rest)"
    using True assms(1) by (simp add: written_text_def escape_delimited_field_def delimited_loop.simps(2))
  also have "\<dots> = delimited_loop separator (?st\<lparr>field := fst f, in_quotes := False\<rparr>) rest"
    using quoted_body [of ?st rest separator "fst f"] assms by simp
  also have "?st\<lparr>field := fst f, in_quotes := False\<rparr> = field_read (written_field separator f) st"
    using True assms(1) by (simp add: field_read_def written_field_def)
  finally show ?thesis .
next
  case False
  show ?thesis
  proof (cases "fst f = []")
    case True
    then have "field_read (written_field separator f) st = st"
      using False assms(1) by (simp add: field_read_def written_field_def)
    then show ?thesis using True False by (simp add: written_text_def escape_delimited_field_def)
  next
    case body: False
    have "st\<lparr>field_started := True, record_started := True, field := fst f\<rparr> = field_read (written_field separator f) st"
      using False assms(1) body by (cases st) (simp add: field_read_def written_field_def)
    then show ?thesis
      using False assms(1) body bare_field [of "fst f" separator st rest]
      by (simp add: written_text_def escape_delimited_field_def)
  qed
qed

text \<open>The fields of a line, up to the last of them, which the end of the line files.\<close>

lemma line_of_fields:
  assumes "at_field_start st" "fs \<noteq> []" "separator \<noteq> CHR 0x22" "byte_at rest 0 \<noteq> Some CHR 0x22"
  shows "delimited_loop separator st (separated_line separator (map (written_text separator) fs) @ rest) =
    delimited_loop separator (field_read (written_field separator (last fs))
      (st\<lparr>current_record := current_record st @ map (written_field separator) (butlast fs),
          record_started := record_started st \<or> butlast fs \<noteq> []\<rparr>)) rest"
  using assms(1,2)
proof (induction fs arbitrary: st)
  case (Cons f fs)
  show ?case
  proof (cases fs)
    case Nil
    then show ?thesis using one_field [of st rest separator f] Cons.prems(1) assms(4) by simp
  next
    case (Cons g gs)
    let ?next = "(take_field (field_read (written_field separator f) st))\<lparr>field_started := False, record_started := True\<rparr>"
    let ?others = "separated_line separator (map (written_text separator) fs) @ rest"
    have next_start: "at_field_start ?next" using Cons.prems(1) by (simp add: take_field_def field_read_def)
    have filed: "?next = st\<lparr>current_record := current_record st @ [written_field separator f], record_started := True\<rparr>"
      using Cons.prems(1) by (cases st) (simp add: take_field_def field_read_def written_field_def)
    have "delimited_loop separator st (separated_line separator (map (written_text separator) (f # fs)) @ rest) =
        delimited_loop separator st (written_text separator f @ separator # ?others)"
      by (simp add: Cons)
    also have "\<dots> = delimited_loop separator (field_read (written_field separator f) st) (separator # ?others)"
      using one_field Cons.prems(1) assms(3) by (simp add: byte_at_def)
    also have "\<dots> = delimited_loop separator ?next ?others"
      using Cons.prems(1) assms(3) by (simp add: delimited_loop.simps(2) field_read_def)
    finally show ?thesis
      using Cons.IH [OF next_start] Cons by (simp add: filed)
  qed
qed simp

abbreviation after_records :: "DelimitedField list list \<Rightarrow> delimited_state" where
  "after_records rs \<equiv> delimited_start\<lparr>records := rs\<rparr>"

abbreviation legible_line :: "char \<Rightarrow> (string \<times> bool) list \<Rightarrow> bool" where
  "legible_line separator fs \<equiv> fs \<noteq> [] \<and> fs \<noteq> [([], False)]"

lemma line_ends:
  assumes "separator \<notin> {CHR 0x22, CHR 0x0A, CHR 0x0D}" "\<not> in_quotes st"
  shows "delimited_loop separator st (csv_line_ending windows @ later) = delimited_loop separator (end_of_line st) later"
proof -
  have "CHR 0x0A \<noteq> separator" "CHR 0x0D \<noteq> separator" using assms(1) by auto
  then show ?thesis using assms(2) by (simp add: csv_line_ending_def delimited_loop.simps(2) byte_at_def)
qed

lemma written_line_is_read:
  assumes "separator \<notin> {CHR 0x22, CHR 0x0A, CHR 0x0D}" "legible_line separator fs"
  shows "delimited_loop separator (after_records rs)
      (separated_line separator (map (written_text separator) fs) @ csv_line_ending windows @ later) =
    delimited_loop separator (after_records (rs @ [map (written_field separator) fs])) later"
proof -
  let ?last = "field_read (written_field separator (last fs)) ((after_records rs)\<lparr>
      current_record := map (written_field separator) (butlast fs), record_started := butlast fs \<noteq> []\<rparr>)"
  have started: "record_started ?last"
    using assms(2) by (cases fs rule: rev_cases) (auto simp: field_read_def written_field_def prod_eq_iff)
  have "map (written_field separator) fs = map (written_field separator) (butlast fs) @ [written_field separator (last fs)]"
    using assms(2) by (metis append_butlast_last_id list.simps(8,9) map_append)
  then have ended: "end_of_line ?last = after_records (rs @ [map (written_field separator) fs])"
    using started by (simp add: end_of_line_def Let_def take_field_def field_read_def delimited_start_def)
  have "delimited_loop separator (after_records rs)
      (separated_line separator (map (written_text separator) fs) @ csv_line_ending windows @ later) =
      delimited_loop separator ?last (csv_line_ending windows @ later)"
    using line_of_fields [of "after_records rs" fs separator "csv_line_ending windows @ later"] assms
    by (simp add: delimited_start_def csv_line_ending_def byte_at_def)
  also have "\<dots> = delimited_loop separator (end_of_line ?last) later"
    by (rule line_ends [OF assms(1)]) (simp add: field_read_def delimited_start_def)
  finally show ?thesis unfolding ended .
qed

lemma written_lines_are_read:
  assumes "separator \<notin> {CHR 0x22, CHR 0x0A, CHR 0x0D}" "\<forall>fs \<in> set lines. legible_line separator fs"
  shows "delimited_loop separator (after_records rs)
      (concat (map (\<lambda>fs. separated_line separator (map (written_text separator) fs) @ csv_line_ending windows) lines)) =
    after_records (rs @ map (map (written_field separator)) lines)"
  using assms(2)
proof (induction lines arbitrary: rs)
  case (Cons fs lines)
  then show ?case using written_line_is_read [OF assms(1), of fs rs windows] by simp
qed simp

text \<open>The fields the writer puts on the line of a row, and the cells they are read back as.\<close>

definition row_fields :: "ExportGrid \<Rightarrow> export_cell list \<Rightarrow> (string \<times> bool) list" where
  "row_fields grid row = map (display_cell grid row) [0..<length (grid_columns grid)]"

definition header_fields :: "ExportGrid \<Rightarrow> (string \<times> bool) list" where
  "header_fields grid = map (\<lambda>column. (column, False)) (grid_columns grid)"

definition read_back :: "char \<Rightarrow> ExportGrid \<Rightarrow> export_cell \<Rightarrow> export_cell" where
  "read_back separator grid c =
     (if c = Some (grid_null_text grid) \<and> delimited_field_needs_quotes (grid_null_text grid) separator then None else c)"

lemma render_separated_lines:
  "render_separated windows grid separator =
    concat (map (\<lambda>fs. separated_line separator (map (written_text separator) fs) @ csv_line_ending windows)
      (header_fields grid # map (row_fields grid) (grid_rows grid)))"
  by (simp add: render_separated_def header_fields_def row_fields_def written_text_def Let_def comp_def case_prod_beta)

lemma row_is_read_back:
  "to_cells \<lparr>import_format = format, has_header = b, null_text = grid_null_text grid\<rparr> separator (map (written_field separator) (row_fields grid row)) =
    map (\<lambda>i. read_back separator grid (grid_cell row i)) [0..<length (grid_columns grid)]"
  by (auto simp: to_cells_def row_fields_def written_field_def display_cell_def read_back_def
      null_text_quoting_is_a_signal_def split: option.splits)

lemma validate_full_rows:
  "\<forall>row \<in> set rs. length row = width \<Longrightarrow> validate_rows width rs = Inr rs"
  by (induction rs) (simp_all add: validate_row_def)

lemma header_is_legible:
  assumes "grid_columns grid \<noteq> []" "\<forall>column \<in> set (grid_columns grid). trim column \<noteq> []"
  shows "legible_line separator (header_fields grid)"
proof -
  have "trim [] = []" by (simp add: trim_def trim_start_def trim_end_def strip_front.simps white_space_def)
  then show ?thesis using assms by (cases "grid_columns grid") (auto simp: header_fields_def)
qed

lemma row_is_legible:
  assumes "grid_columns grid \<noteq> []"
    and "length (grid_columns grid) = 1 \<and> grid_null_text grid = [] \<Longrightarrow> grid_cell row 0 \<noteq> None"
  shows "legible_line separator (row_fields grid row)"
proof (cases "length (grid_columns grid) = 1")
  case True
  then have "row_fields grid row = [display_cell grid row 0]" by (simp add: row_fields_def)
  moreover have "display_cell grid row 0 \<noteq> ([], False)"
    using True assms(2) by (cases "grid_cell row 0") (auto simp: display_cell_def)
  ultimately show ?thesis by simp
next
  case False
  have "length (row_fields grid row) = length (grid_columns grid)" by (simp add: row_fields_def)
  then show ?thesis using False assms(1) by auto
qed

text \<open>
  C8. An exported delimited file is imported as the grid it was written from: a comma- or tab-separated file of
  the app, on either platform, byte-order mark included, read with the NULL text it was written with, gives back the
  column names and every cell of every row, where a row that does not reach a column has SQL NULL there. A value that
  spells the NULL text stays a value, unless that text needs quotes of its own (the separator, a quote or a line break is in
  it). The only grids left out are those whose file the reader refuses, with no column or a blank name, and those of one
  column in which a NULL is written as an empty line.
\<close>

theorem delimited_export_is_imported:
  assumes "(format, separator) \<in> {(Csv, CHR 0x2C), (Tsv, CHR 0x09)}"
    and "grid_columns grid \<noteq> []" "\<forall>column \<in> set (grid_columns grid). trim column \<noteq> []"
    and "length (grid_columns grid) = 1 \<and> grid_null_text grid = [] \<Longrightarrow>
      \<forall>row \<in> set (grid_rows grid). grid_cell row 0 \<noteq> None"
  shows "parse_delimited (with_destination_prelude format FileDestination (render_separated windows grid separator))
      \<lparr>import_format = format, has_header = True, null_text = grid_null_text grid\<rparr> =
    Inr \<lparr>columns = grid_columns grid,
      rows = map (\<lambda>row. map (\<lambda>i. read_back separator grid (grid_cell row i)) [0..<length (grid_columns grid)]) (grid_rows grid),
      file_named_the_columns = True\<rparr>"
proof -
  let ?lines = "header_fields grid # map (row_fields grid) (grid_rows grid)"
  have separator: "separator \<notin> {CHR 0x22, CHR 0x0A, CHR 0x0D}" using assms(1) by auto
  have "\<forall>fs \<in> set ?lines. legible_line separator fs"
    using header_is_legible assms(2,3) row_is_legible [OF assms(2)] assms(4) by auto
  then have "delimited_loop separator delimited_start (render_separated windows grid separator) =
      after_records (map (map (written_field separator)) ?lines)"
    using written_lines_are_read [OF separator, of ?lines "[]" windows]
    by (simp add: render_separated_lines delimited_start_def)
  then have "split_delimited_records (render_separated windows grid separator) separator =
      map (map (written_field separator)) ?lines"
    by (simp add: split_delimited_records_def delimited_start_def Let_def)
  then have "parse_separated (render_separated windows grid separator) separator
      \<lparr>import_format = format, has_header = True, null_text = grid_null_text grid\<rparr> =
    Inr \<lparr>columns = grid_columns grid,
      rows = map (\<lambda>row. map (\<lambda>i. read_back separator grid (grid_cell row i)) [0..<length (grid_columns grid)]) (grid_rows grid),
      file_named_the_columns = True\<rparr>"
    by (simp add: parse_separated_def of_records_def header_fields_def written_field_def comp_def row_is_read_back)
  moreover have "strip_prefix byte_order_mark (byte_order_mark @ s) = Some s" for s
    by (simp add: strip_prefix_def starts_with_def)
  moreover have "file_byte_order_mark format = byte_order_mark" using assms(1) by (auto simp: file_byte_order_mark_def)
  moreover have "(if format = Csv then CHR 0x2C else CHR 0x09) = separator" using assms(1) by auto
  ultimately show ?thesis
    using assms(2,3) by (simp add: parse_delimited_def with_destination_prelude_def validate_def validate_full_rows list_ex_iff)
qed

definition sample_grid :: ExportGrid where
  "sample_grid = \<lparr>grid_columns = [''ID'', ''NOTE''], column_kinds = [KindNumber],
     grid_rows = [[Some ''1'', Some ''NULL''], [Some ''2,5''], [Some [], Some [CHR 0x22, CHR 0x0A]]], grid_null_text = ''NULL''\<rparr>"

theorem delimited_export_is_imported_witness:
  "parse_delimited (with_destination_prelude Csv FileDestination (render_separated True sample_grid CHR 0x2C))
      \<lparr>import_format = Csv, has_header = True, null_text = ''NULL''\<rparr> =
    Inr \<lparr>columns = [''ID'', ''NOTE''],
      rows = [[Some ''1'', Some ''NULL''], [Some ''2,5'', None], [Some [], Some [CHR 0x22, CHR 0x0A]]],
      file_named_the_columns = True\<rparr>"
proof -
  have "trim ''ID'' \<noteq> [] \<and> trim ''NOTE'' \<noteq> []" by code_simp
  then have "\<forall>column \<in> set (grid_columns sample_grid). trim column \<noteq> []" by (simp add: sample_grid_def)
  moreover have "map (\<lambda>row. map (\<lambda>i. read_back CHR 0x2C sample_grid (grid_cell row i)) [0..<2]) (grid_rows sample_grid) =
      [[Some ''1'', Some ''NULL''], [Some ''2,5'', None], [Some [], Some [CHR 0x22, CHR 0x0A]]]"
    by code_simp
  ultimately show ?thesis
    using delimited_export_is_imported [of Csv "CHR 0x2C" sample_grid True] by (simp add: sample_grid_def numeral_2_eq_2)
qed

section \<open>Repeated names\<close>

lemma free_name_is_free: "free_name taken name suffix \<notin> set taken"
proof (induction taken name suffix rule: free_name.induct)
  case (1 taken name suffix)
  then show ?case using free_name.simps [of taken name suffix] by auto
qed

lemma unique_names_loop_distinct:
  "distinct (unique_names_loop taken names) \<and> set (unique_names_loop taken names) \<inter> set taken = {}"
proof (induction names arbitrary: taken)
  case (Cons name names)
  let ?emitted = "if name \<notin> set taken then name else free_name taken name 2"
  have "?emitted \<notin> set taken" using free_name_is_free [of taken name 2] by simp
  moreover have "unique_names_loop taken (name # names) = ?emitted # unique_names_loop (?emitted # taken) names"
    by (simp add: Let_def)
  ultimately show ?case using Cons.IH [of "?emitted # taken"] by auto
qed simp

lemma unique_names_loop_keeps:
  "distinct names \<Longrightarrow> set names \<inter> set taken = {} \<Longrightarrow> unique_names_loop taken names = names"
  by (induction names arbitrary: taken) (auto simp: Let_def)

lemma length_unique_names_loop [simp]: "length (unique_names_loop taken names) = length names"
  by (induction names arbitrary: taken) (simp_all add: Let_def)

lemma unique_field_names_are_unique:
  "distinct (unique_field_names names) \<and> length (unique_field_names names) = length names \<and>
    (distinct names \<longrightarrow> unique_field_names names = names)"
  using unique_names_loop_distinct [of "[]" names] unique_names_loop_keeps [of names "[]"] by (simp add: unique_field_names_def)

end
