(* ===== verification/Markdown_Tables.thy ===== *)
theory Markdown_Tables
  imports Result_Files
begin

text \<open>
  The Markdown table of a result (\<^verbatim>\<open>render_markdown\<close> of \<^verbatim>\<open>src/ui/result_export.rs\<close>) and its reader
  (\<^verbatim>\<open>parse_markdown\<close> of \<^verbatim>\<open>src/ui/result_import.rs\<close>), on the bytes of the text. What comes back of a cell is
  its text without the white space around it, every line break as one line feed; a cell of nothing else is SQL NULL.
\<close>

section \<open>Writing\<close>

definition replace_char :: "char \<Rightarrow> string \<Rightarrow> string \<Rightarrow> string" where
  "replace_char c by_text s = concat (map (\<lambda>d. if d = c then by_text else [d]) s)"

fun replace_crlf :: "string \<Rightarrow> string \<Rightarrow> string" where
  "replace_crlf by_text (c # d # s) =
     (if c = CHR 0x0D \<and> d = CHR 0x0A then by_text @ replace_crlf by_text s else c # replace_crlf by_text (d # s))"
| "replace_crlf by_text s = s"

definition markdown_line_break :: string where
  "markdown_line_break = ''<br>''"

definition escape_markdown_cell :: "string \<Rightarrow> string" where
  "escape_markdown_cell value =
     (let s = replace_char CHR 0x5C [CHR 0x5C, CHR 0x5C] value;
          s = replace_char CHR ''|'' [CHR 0x5C, CHR ''|''] s;
          s = replace_char CHR ''<'' [CHR 0x5C, CHR ''<''] s;
          s = replace_crlf markdown_line_break s
      in concat (map (\<lambda>d. if d = CHR 0x0A \<or> d = CHR 0x0D then markdown_line_break else [d]) s))"

fun join_text :: "string \<Rightarrow> string list \<Rightarrow> string" where
  "join_text between [] = []"
| "join_text between [s] = s"
| "join_text between (s # others) = s @ between @ join_text between others"

definition markdown_row :: "string list \<Rightarrow> string" where
  "markdown_row cells = ''| '' @ join_text '' | '' cells @ '' |'' @ [CHR 0x0A]"

definition render_markdown :: "ExportGrid \<Rightarrow> string" where
  "render_markdown grid =
     markdown_row (map escape_markdown_cell (grid_columns grid)) @
     markdown_row (replicate (length (grid_columns grid)) ''---'') @
     concat (map (\<lambda>row. markdown_row (map (\<lambda>i. case grid_cell row i of None \<Rightarrow> [] | Some value \<Rightarrow> escape_markdown_cell value)
       [0..<length (grid_columns grid)])) (grid_rows grid))"

section \<open>Reading\<close>

text \<open>\<^verbatim>\<open>str::lines\<close>: the carriage return before a line feed belongs to the line break.\<close>

definition without_cr :: "string \<Rightarrow> string" where
  "without_cr s = (if s \<noteq> [] \<and> last s = CHR 0x0D then butlast s else s)"

fun text_lines :: "string \<Rightarrow> string \<Rightarrow> string list" where
  "text_lines current [] = (if current = [] then [] else [current])"
| "text_lines current (c # s) =
     (if c = CHR 0x0A then without_cr current # text_lines [] s else text_lines (current @ [c]) s)"

function markdown_cells :: "string list \<Rightarrow> string \<Rightarrow> string \<Rightarrow> string list" where
  "markdown_cells cells current [] = cells @ [current]"
| "markdown_cells cells current (ch # rest) =
     (if ch = CHR 0x5C then
        (case rest of
           [] \<Rightarrow> markdown_cells cells (current @ [CHR 0x5C]) []
         | following # rest \<Rightarrow>
             if following \<in> {CHR 0x5C, CHR ''|'', CHR ''<''} then markdown_cells cells (current @ [following]) rest
             else markdown_cells cells (current @ [CHR 0x5C, following]) rest)
      else if ch = CHR ''|'' then markdown_cells (cells @ [current]) [] rest
      else if starts_with (ch # rest) markdown_line_break then
        markdown_cells cells (current @ [CHR 0x0A]) (drop (length markdown_line_break) (ch # rest))
      else markdown_cells cells (current @ [ch]) rest)"
  by pat_completeness auto
termination
  by (relation "measure (\<lambda>(cells, current, s). length s)") (auto simp: markdown_line_break_def)

definition markdown_cell :: "string \<Rightarrow> string option" where
  "markdown_cell body = (let body = trim body in if body = [] then None else Some body)"

definition split_markdown_row :: "string \<Rightarrow> string option list" where
  "split_markdown_row line =
     (let line = trim line;
          without_prefix = (if starts_with line ''|'' then drop 1 line else line);
          inner = (if without_prefix \<noteq> [] \<and> last without_prefix = CHR ''|'' then butlast without_prefix else without_prefix)
      in map markdown_cell (markdown_cells [] [] inner))"

definition trim_colons :: "string \<Rightarrow> string" where
  "trim_colons s = rev (dropWhile ((=) CHR '':'') (rev (dropWhile ((=) CHR '':'') s)))"

definition is_markdown_separator :: "string \<Rightarrow> bool" where
  "is_markdown_separator line \<longleftrightarrow>
     (let cells = split_markdown_row line
      in cells \<noteq> [] \<and>
         list_all (\<lambda>cell. let cell = trim (case cell of None \<Rightarrow> [] | Some s \<Rightarrow> s)
                          in cell \<noteq> [] \<and> list_all ((=) CHR ''-'') (trim_colons cell)) cells)"

definition parse_markdown :: "string \<Rightarrow> string + ImportedTable" where
  "parse_markdown s =
     (case filter (\<lambda>line. starts_with line ''|'') (map trim (text_lines [] s)) of
        [] \<Rightarrow> Inl ''The file has no Markdown table.''
      | header # lines \<Rightarrow>
          Inr \<lparr>columns = map (\<lambda>cell. case cell of None \<Rightarrow> [] | Some s \<Rightarrow> s) (split_markdown_row header),
               rows = map split_markdown_row
                 (case lines of [] \<Rightarrow> [] | line # others \<Rightarrow> if is_markdown_separator line then others else lines),
               file_named_the_columns = True\<rparr>)"

text \<open>\<^verbatim>\<open>parse\<close> for Markdown.\<close>

definition parse_markdown_file :: "string \<Rightarrow> string + ImportedTable" where
  "parse_markdown_file s =
     (let s = (case strip_prefix byte_order_mark s of None \<Rightarrow> s | Some rest \<Rightarrow> rest)
      in case parse_markdown s of Inl e \<Rightarrow> Inl e | Inr table \<Rightarrow> validate table)"

section \<open>White space around a cell\<close>

lemma strip_front_bar [simp]:
  "strip_front white_space (CHR ''|'' # s) = CHR ''|'' # s"
  "strip_front (map rev white_space) (CHR ''|'' # s) = CHR ''|'' # s"
  by (simp_all add: strip_front.simps white_space_def)

lemma trim_bars [simp]: "trim (CHR ''|'' # s @ [CHR ''|'']) = CHR ''|'' # s @ [CHR ''|'']"
  by (simp add: trim_def trim_start_def trim_end_def)

lemma strip_front_nil [simp]: "strip_front ws [] = []"
proof -
  have "find (\<lambda>w. w \<noteq> [] \<and> take (length w) [] = w) ws = None" by (auto simp: find_None_iff)
  then show ?thesis by (simp add: strip_front.simps)
qed

lemma strip_front_space [simp]:
  "strip_front white_space (CHR 0x20 # s) = strip_front white_space s"
  "strip_front (map rev white_space) (CHR 0x20 # s) = strip_front (map rev white_space) s"
  by (subst strip_front.simps, simp add: white_space_def)+

lemma white_space_prefix:
  assumes "w \<in> set white_space" "s \<noteq> []"
  shows "take (length w) (s @ [CHR 0x20]) = w \<longleftrightarrow> take (length w) s = w"
proof -
  have w: "length w = 1 \<or> CHR 0x20 \<notin> set w" using assms(1) by (auto simp: white_space_def)
  show ?thesis
  proof (cases "length w \<le> length s")
    case False
    then have "CHR 0x20 \<in> set (take (length w) (s @ [CHR 0x20]))" by (cases "length w - length s") simp_all
    moreover have "length w \<noteq> 1" using False assms(2) by (cases s) auto
    ultimately have "take (length w) (s @ [CHR 0x20]) \<noteq> w" using w by metis
    moreover have "take (length w) s \<noteq> w" using False by (metis length_take min.cobounded1 min.commute)
    ultimately show ?thesis by simp
  qed simp
qed

lemma strip_front_space_end:
  "strip_front white_space (s @ [CHR 0x20]) =
    (if strip_front white_space s = [] then [] else strip_front white_space s @ [CHR 0x20])"
proof (induction "white_space" s rule: strip_front.induct)
  case (1 s)
  show ?case
  proof (cases "s = []")
    case False
    have same: "find (\<lambda>w. w \<noteq> [] \<and> take (length w) (s @ [CHR 0x20]) = w) white_space =
        find (\<lambda>w. w \<noteq> [] \<and> take (length w) s = w) white_space"
      using white_space_prefix False by (auto intro: find_cong)
    show ?thesis
    proof (cases "find (\<lambda>w. w \<noteq> [] \<and> take (length w) s = w) white_space")
      case None
      then show ?thesis using same False by (simp add: strip_front.simps)
    next
      case (Some w)
      then have "length w \<le> length s" by (auto simp: find_Some_iff) (metis length_take min.cobounded1)
      then have "strip_front white_space (s @ [CHR 0x20]) = strip_front white_space (drop (length w) s @ [CHR 0x20])"
        using same Some by (subst strip_front.simps) simp
      moreover have "strip_front white_space s = strip_front white_space (drop (length w) s)"
        using Some by (subst strip_front.simps) simp
      ultimately show ?thesis using 1 [OF Some] by simp
    qed
  qed simp
qed

lemma trim_framed [simp]: "trim (CHR 0x20 # s @ [CHR 0x20]) = trim s"
  by (simp add: trim_def trim_start_def trim_end_def strip_front_space_end)

lemma strip_front_stuck: "w \<in> set ws \<Longrightarrow> w \<noteq> [] \<Longrightarrow> take (length w) (strip_front ws s) \<noteq> w"
proof (induction ws s rule: strip_front.induct)
  case (1 ws s)
  show ?case
  proof (cases "find (\<lambda>w. w \<noteq> [] \<and> take (length w) s = w) ws")
    case None
    then have "strip_front ws s = s" by (simp add: strip_front.simps)
    then show ?thesis using None "1.prems" by (auto simp: find_None_iff)
  next
    case (Some v)
    then have "strip_front ws s = strip_front ws (drop (length v) s)" by (subst strip_front.simps) simp
    then show ?thesis using "1.IH" [OF Some] "1.prems" by simp
  qed
qed

lemma strip_front_rest: "\<exists>p. s = p @ strip_front ws s"
proof (induction ws s rule: strip_front.induct)
  case (1 ws s)
  show ?case
  proof (cases "find (\<lambda>w. w \<noteq> [] \<and> take (length w) s = w) ws")
    case None
    then show ?thesis by (simp add: strip_front.simps)
  next
    case (Some v)
    then have "strip_front ws s = strip_front ws (drop (length v) s)" by (subst strip_front.simps) simp
    then show ?thesis using 1 [OF Some] by (metis append.assoc append_take_drop_id)
  qed
qed

lemma strip_front_fixed: "\<forall>w \<in> set ws. w \<noteq> [] \<longrightarrow> take (length w) s \<noteq> w \<Longrightarrow> strip_front ws s = s"
proof -
  assume "\<forall>w \<in> set ws. w \<noteq> [] \<longrightarrow> take (length w) s \<noteq> w"
  then have "find (\<lambda>w. w \<noteq> [] \<and> take (length w) s = w) ws = None" by (auto simp: find_None_iff)
  then show ?thesis by (simp add: strip_front.simps)
qed

lemma trim_trim [simp]: "trim (trim s) = trim s"
proof -
  let ?front = "strip_front white_space s" and ?tail = "strip_front (map rev white_space)"
  obtain p where "rev ?front = p @ ?tail (rev ?front)" using strip_front_rest by blast
  then have front: "?front = trim s @ rev p" by (metis rev_append rev_rev_ident trim_def trim_start_def trim_end_def)
  have "take (length w) (trim s) \<noteq> w" if "w \<in> set white_space" "w \<noteq> []" for w
  proof
    assume w: "take (length w) (trim s) = w"
    then have "length w \<le> length (trim s)" by (metis length_take min.cobounded1)
    then have "take (length w) ?front = w" using w by (simp add: front)
    then show False using strip_front_stuck that by blast
  qed
  then have "trim_start (trim s) = trim s" by (simp add: trim_start_def strip_front_fixed)
  moreover have "?tail (?tail (rev ?front)) = ?tail (rev ?front)"
    by (rule strip_front_fixed) (use strip_front_stuck in blast)
  ultimately show ?thesis by (simp add: trim_def trim_end_def trim_start_def)
qed

section \<open>One cell\<close>

text \<open>The five replacements in one pass, and what the reader makes of the text.\<close>

fun escaped_once :: "string \<Rightarrow> string" where
  "escaped_once (c # d # s) =
     (if c = CHR 0x0D \<and> d = CHR 0x0A then markdown_line_break @ escaped_once s
      else (if c \<in> {CHR 0x0A, CHR 0x0D} then markdown_line_break
            else if c \<in> {CHR 0x5C, CHR ''|'', CHR ''<''} then [CHR 0x5C, c] else [c]) @ escaped_once (d # s))"
| "escaped_once [c] =
     (if c \<in> {CHR 0x0A, CHR 0x0D} then markdown_line_break
      else if c \<in> {CHR 0x5C, CHR ''|'', CHR ''<''} then [CHR 0x5C, c] else [c])"
| "escaped_once [] = []"

fun line_feeds :: "string \<Rightarrow> string" where
  "line_feeds (c # d # s) =
     (if c = CHR 0x0D \<and> d = CHR 0x0A then CHR 0x0A # line_feeds s
      else (if c = CHR 0x0D then CHR 0x0A else c) # line_feeds (d # s))"
| "line_feeds [c] = [if c = CHR 0x0D then CHR 0x0A else c]"
| "line_feeds [] = []"

abbreviation markdown_mark :: "char \<Rightarrow> string" where
  "markdown_mark c \<equiv> (if c \<in> {CHR 0x5C, CHR ''|'', CHR ''<''} then [CHR 0x5C, c] else [c])"

abbreviation broken :: "string \<Rightarrow> string" where
  "broken s \<equiv> concat (map (\<lambda>d. if d = CHR 0x0A \<or> d = CHR 0x0D then markdown_line_break else [d]) s)"

lemma three_replacements:
  "replace_char CHR ''<'' [CHR 0x5C, CHR ''<''] (replace_char CHR ''|'' [CHR 0x5C, CHR ''|'']
     (replace_char CHR 0x5C [CHR 0x5C, CHR 0x5C] s)) = concat (map markdown_mark s)"
  by (induction s) (auto simp: replace_char_def)

lemma replace_crlf_other [simp]: "c \<noteq> CHR 0x0D \<Longrightarrow> replace_crlf b (c # s) = c # replace_crlf b s"
  by (cases s) simp_all

lemma replace_crlf_cr: "s = [] \<or> hd s \<noteq> CHR 0x0A \<Longrightarrow> replace_crlf b (CHR 0x0D # s) = CHR 0x0D # replace_crlf b s"
  by (cases s) simp_all

lemma escape_once: "escape_markdown_cell s = escaped_once s"
proof -
  have "broken (replace_crlf markdown_line_break (concat (map markdown_mark s))) = escaped_once s"
  proof (induction s rule: escaped_once.induct)
    case (1 c d s)
    have head: "concat (map markdown_mark (d # s)) = [] \<or> hd (concat (map markdown_mark (d # s))) \<noteq> CHR 0x0A"
      if "d \<noteq> CHR 0x0A" using that by simp
    consider "c = CHR 0x0D" "d = CHR 0x0A" | "c = CHR 0x0D" "d \<noteq> CHR 0x0A" | "c \<noteq> CHR 0x0D" by blast
    then show ?case
    proof cases
      case 1
      then show ?thesis using "1.IH"(1) by (simp add: markdown_line_break_def)
    next
      case 2
      then show ?thesis using "1.IH"(2) replace_crlf_cr [OF head [OF 2(2)], of markdown_line_break] by simp
    next
      case 3
      then show ?thesis using "1.IH"(2) by simp
    qed
  qed simp_all
  then show ?thesis by (simp add: escape_markdown_cell_def three_replacements)
qed

declare markdown_cells.simps [simp del]

lemma markdown_cells_steps [simp]:
  "markdown_cells cells current [] = cells @ [current]"
  "markdown_cells cells current (CHR ''|'' # s) = markdown_cells (cells @ [current]) [] s"
  "markdown_cells cells current (CHR 0x20 # s) = markdown_cells cells (current @ [CHR 0x20]) s"
  "markdown_cells cells current (markdown_line_break @ s) = markdown_cells cells (current @ [CHR 0x0A]) s"
  by (simp_all add: markdown_cells.simps starts_with_def markdown_line_break_def)

lemma markdown_cells_char:
  "c \<notin> {CHR 0x0A, CHR 0x0D} \<Longrightarrow>
    markdown_cells cells current (markdown_mark c @ s) = markdown_cells cells (current @ [c]) s"
  by (auto simp: markdown_cells.simps(2) starts_with_def markdown_line_break_def)

lemma markdown_cell_is_read:
  "markdown_cells cells current (escaped_once body @ s) = markdown_cells cells (current @ line_feeds body) s"
proof (induction body arbitrary: current rule: escaped_once.induct)
  case (1 c d v)
  consider "c = CHR 0x0D" "d = CHR 0x0A" | "c = CHR 0x0D" "d \<noteq> CHR 0x0A" | "c = CHR 0x0A" | "c \<notin> {CHR 0x0A, CHR 0x0D}" by blast
  then show ?case
  proof cases
    case 4
    then show ?thesis
      using "1.IH"(2) [of "current @ [c]"] markdown_cells_char [of c cells current "escaped_once (d # v) @ s"] by simp
  qed (use "1.IH" in simp_all)
next
  case (2 c)
  then show ?case using markdown_cells_char [of c cells current s] by auto
qed simp

section \<open>One row\<close>

lemma markdown_cells_of_row:
  "bodies \<noteq> [] \<Longrightarrow> markdown_cells cells [CHR 0x20] (join_text '' | '' (map escaped_once bodies) @ [CHR 0x20]) =
    cells @ map (\<lambda>v. CHR 0x20 # line_feeds v @ [CHR 0x20]) bodies"
proof (induction bodies arbitrary: cells)
  case (Cons v vs)
  show ?case
  proof (cases vs)
    case Nil
    then show ?thesis by (simp add: markdown_cell_is_read)
  next
    case (Cons w ws)
    then have "join_text '' | '' (map escaped_once (v # vs)) = escaped_once v @ '' | '' @ join_text '' | '' (map escaped_once vs)"
      by simp
    then show ?thesis using Cons.IH [of "cells @ [CHR 0x20 # line_feeds v @ [CHR 0x20]]"] Cons
      by (simp add: markdown_cell_is_read)
  qed
qed simp

definition row_line :: "string list \<Rightarrow> string" where
  "row_line bodies = ''| '' @ join_text '' | '' (map escaped_once bodies) @ '' |''"

definition markdown_value :: "string \<Rightarrow> string option" where
  "markdown_value body = markdown_cell (line_feeds body)"

lemma row_line_bars: "row_line bodies = CHR ''|'' # (CHR 0x20 # join_text '' | '' (map escaped_once bodies) @ [CHR 0x20]) @ [CHR ''|'']"
  by (simp add: row_line_def)

lemma trim_row_line [simp]: "trim (row_line bodies) = row_line bodies"
  unfolding row_line_bars by (rule trim_bars)

lemma row_line_is_read:
  assumes "bodies \<noteq> []"
  shows "split_markdown_row (row_line bodies) = map markdown_value bodies"
proof -
  have "split_markdown_row (row_line bodies) =
      map markdown_cell (markdown_cells [] [] (CHR 0x20 # join_text '' | '' (map escaped_once bodies) @ [CHR 0x20]))"
    unfolding split_markdown_row_def Let_def trim_row_line by (simp add: row_line_bars starts_with_def butlast_append)
  then show ?thesis
    using markdown_cells_of_row [OF assms, of "[]"]
    by (simp add: markdown_value_def markdown_cell_def)
qed

section \<open>The table\<close>

lemma escaped_once_breaks: "CHR 0x0A \<notin> set (escaped_once body)"
  by (induction body rule: escaped_once.induct) (auto simp: markdown_line_break_def)

lemma row_line_breaks: "CHR 0x0A \<notin> set (row_line bodies)"
proof -
  have "set (join_text between ss) \<subseteq> set between \<union> (\<Union> (set ` set ss))" for between ss
    by (induction between ss rule: join_text.induct) auto
  then have "set (join_text '' | '' (map escaped_once bodies)) \<subseteq> set '' | '' \<union> (\<Union>v \<in> set bodies. set (escaped_once v))"
    by fastforce
  then show ?thesis using escaped_once_breaks by (auto simp: row_line_def)
qed

lemma text_lines_line:
  "CHR 0x0A \<notin> set line \<Longrightarrow> text_lines current (line @ CHR 0x0A # s) = without_cr (current @ line) # text_lines [] s"
  by (induction line arbitrary: current) auto

lemma text_lines_of_rows:
  "text_lines [] (concat (map (\<lambda>bodies. row_line bodies @ [CHR 0x0A]) lines)) = map row_line lines"
proof (induction lines)
  case (Cons bodies lines)
  have "without_cr (row_line bodies) = row_line bodies" by (simp add: without_cr_def row_line_def)
  then show ?case using Cons text_lines_line [OF row_line_breaks, of "[]" bodies] by simp
qed simp

lemma escaped_dashes: "escaped_once ''---'' = ''---''"
  by simp

lemma dashes_are_the_separator: "0 < n \<Longrightarrow> is_markdown_separator (row_line (replicate n ''---''))"
proof -
  assume "0 < n"
  have "markdown_value ''---'' = Some ''---''" "trim ''---'' = ''---''" "trim_colons ''---'' = ''---''" by code_simp+
  then show ?thesis
    using \<open>0 < n\<close> by (simp add: is_markdown_separator_def row_line_is_read Let_def list_all_iff)
qed

lemma markdown_row_line: "markdown_row (map escaped_once bodies) = row_line bodies @ [CHR 0x0A]"
  by (simp add: markdown_row_def row_line_def)

definition cell_body :: "export_cell \<Rightarrow> string" where
  "cell_body c = (case c of None \<Rightarrow> [] | Some body \<Rightarrow> body)"

lemma render_markdown_lines:
  "render_markdown grid =
    concat (map (\<lambda>bodies. row_line bodies @ [CHR 0x0A])
      (grid_columns grid # replicate (length (grid_columns grid)) ''---'' #
       map (\<lambda>row. map (\<lambda>i. cell_body (grid_cell row i)) [0..<length (grid_columns grid)]) (grid_rows grid)))"
proof -
  have "(case c of None \<Rightarrow> [] | Some body \<Rightarrow> escape_markdown_cell body) = escaped_once (cell_body c)" for c
    by (cases c) (simp_all add: escape_once cell_body_def)
  moreover have "escape_markdown_cell = escaped_once" by (rule ext) (rule escape_once)
  moreover have "replicate n ''---'' = map escaped_once (replicate n ''---'')" for n by (simp add: escaped_dashes)
  ultimately show ?thesis
    by (simp add: render_markdown_def comp_def flip: markdown_row_line)
qed

text \<open>
  C13. A Markdown table that the app exports is imported as its grid, when the grid has a column and no column name
  is blank (the reader refuses the file otherwise): the column names and, row by row, the cells, each
  without the white space around it and with every line break as one line feed; a NULL, a cell the row does not reach, an
  empty value and a value of white space only all come back as NULL. Pipes, backslashes, angle brackets and a literal
  \<^verbatim>\<open><br>\<close> in the data are given back as they were, and no row of dashes in the data is taken for the separator line.
\<close>

theorem markdown_export_is_imported:
  assumes "grid_columns grid \<noteq> []" "\<forall>column \<in> set (grid_columns grid). trim (line_feeds column) \<noteq> []"
  shows "parse_markdown_file (with_destination_prelude Markdown FileDestination (render_markdown grid)) =
    Inr \<lparr>columns = map (\<lambda>column. trim (line_feeds column)) (grid_columns grid),
      rows = map (\<lambda>row. map (\<lambda>i. case grid_cell row i of None \<Rightarrow> None | Some body \<Rightarrow> markdown_value body)
        [0..<length (grid_columns grid)]) (grid_rows grid),
      file_named_the_columns = True\<rparr>"
proof -
  let ?rows = "map (\<lambda>row. map (\<lambda>i. cell_body (grid_cell row i)) [0..<length (grid_columns grid)]) (grid_rows grid)"
  let ?dashes = "replicate (length (grid_columns grid)) ''---''"
  have bar: "starts_with (row_line bodies) ''|''" for bodies by (simp add: row_line_def starts_with_def)
  have kept: "filter (\<lambda>line. starts_with line ''|'') (map trim (map row_line ls)) = map row_line ls" for ls
    by (induction ls) (simp_all add: bar)
  have no_mark: "strip_prefix byte_order_mark (render_markdown grid) = None"
    by (simp add: render_markdown_def markdown_row_def strip_prefix_def starts_with_def byte_order_mark_def)
  have "markdown_value [] = None" by code_simp
  then have cell: "markdown_value (cell_body c) = (case c of None \<Rightarrow> None | Some body \<Rightarrow> markdown_value body)" for c
    by (cases c) (simp_all add: cell_body_def)
  have names: "map (\<lambda>c. case c of None \<Rightarrow> [] | Some s \<Rightarrow> s) (map markdown_value (grid_columns grid)) =
      map (\<lambda>column. trim (line_feeds column)) (grid_columns grid)"
    using assms(2) by (simp add: markdown_value_def markdown_cell_def Let_def)
  have rows: "map split_markdown_row (map row_line ?rows) =
      map (\<lambda>row. map (\<lambda>i. case grid_cell row i of None \<Rightarrow> None | Some body \<Rightarrow> markdown_value body)
        [0..<length (grid_columns grid)]) (grid_rows grid)"
    using assms(1) by (simp add: row_line_is_read cell comp_def)
  have "parse_markdown (render_markdown grid) =
    Inr \<lparr>columns = map (\<lambda>column. trim (line_feeds column)) (grid_columns grid),
      rows = map split_markdown_row (map row_line ?rows), file_named_the_columns = True\<rparr>"
    unfolding parse_markdown_def render_markdown_lines text_lines_of_rows kept
    using assms(1) dashes_are_the_separator [of "length (grid_columns grid)"]
    by (simp add: row_line_is_read names del: map_map)
  then show ?thesis
    using assms no_mark unfolding rows
    by (simp add: parse_markdown_file_def with_destination_prelude_def file_byte_order_mark_def validate_def
        validate_full_rows list_ex_iff)
qed

definition markdown_grid :: ExportGrid where
  "markdown_grid = \<lparr>grid_columns = [''A|B'', ''C''], column_kinds = [],
     grid_rows = [[Some ''---'', Some ''---''], [Some '' x<br> '', Some [CHR 0x0D, CHR 0x0A]], [Some [CHR 0x61, CHR 0x0D, CHR 0x62]]],
     grid_null_text = ''NULL''\<rparr>"

theorem markdown_export_is_imported_witness:
  "parse_markdown_file (with_destination_prelude Markdown FileDestination (render_markdown markdown_grid)) =
    Inr \<lparr>columns = [''A|B'', ''C''],
      rows = [[Some ''---'', Some ''---''], [Some ''x<br>'', None], [Some [CHR 0x61, CHR 0x0A, CHR 0x62], None]],
      file_named_the_columns = True\<rparr>"
proof -
  have names: "trim (line_feeds ''A|B'') = ''A|B'' \<and> trim (line_feeds ''C'') = ''C''" by code_simp
  have "map (\<lambda>row. map (\<lambda>i. case grid_cell row i of None \<Rightarrow> None | Some body \<Rightarrow> markdown_value body) [0..<2])
      (grid_rows markdown_grid) =
      [[Some ''---'', Some ''---''], [Some ''x<br>'', None], [Some [CHR 0x61, CHR 0x0A, CHR 0x62], None]]"
    by code_simp
  then show ?thesis
    using markdown_export_is_imported [of markdown_grid] names by (simp add: markdown_grid_def numeral_2_eq_2)
qed

section \<open>The reader is no exact inverse\<close>

text \<open>White space around a value is lost, and a value of white space only comes back as SQL NULL.\<close>

lemma markdown_loses_white_space:
  "split_markdown_row (''| '' @ escape_markdown_cell '' x '' @ '' | '' @ escape_markdown_cell '' '' @ '' |'') =
     [Some ''x'', None]"
  by code_simp

end
