(* ===== verification/Spec2Isabelle.thy ===== *)
theory Spec2Isabelle
  imports Batch_Effects Session_Policy Message_Policy Lock_Order Spool_Session
    Read_Only_Guard Thin_Codec Thin_Datetime Thin_Number Thin_Values Thin_Pool
    Chunked_Values Undo_Editor Markdown_Tables
begin

text \<open>
  A verification development for SPACE Query, a desktop SQL client for Oracle, MySQL and MariaDB
  (paths below are relative to the repository's root).

  \<^bold>\<open>The program and the parts that are modelled.\<close> A query tab runs statements on a physical database
  session that it may have to keep between runs: because a transaction is open, because the session
  holds locks, or because it carries state (temporary tables, user variables, prepared statements, a
  pending \<^verbatim>\<open>SET TRANSACTION\<close>) that a pool reset would destroy. The client cannot see any of this
  directly. It keeps a \<^emph>\<open>ledger\<close> of what each session may carry, moves the ledger after every
  statement and every batch from the statement's text and a server probe, and asks the ledger before
  every action whether the session may be reused, reset, replaced or closed. This core is
  \<^verbatim>\<open>src/db/transaction.rs\<close> and \<^verbatim>\<open>src/db/session_policy.rs\<close>, with the parts of
  \<^verbatim>\<open>src/db/connection.rs\<close> and \<^verbatim>\<open>src/ui/sql_editor/execution.rs\<close> that ask it. Two smaller pieces of
  process-wide state are modelled beside it: the lock-order tracker and the spool-file table.

  Everything the ledger and the guards know of a statement they read from its text. The text layer
  (\<^verbatim>\<open>src/db/sql_classification.rs\<close>, the \<^verbatim>\<open>SET\<close> readers of \<^verbatim>\<open>transaction.rs\<close>, the lexical helpers of
  \<^verbatim>\<open>src/sql_text.rs\<close> and \<^verbatim>\<open>src/db/query\<close> that they call) is the second group of theories: it strips
  comments, finds words, classifies a statement for its backend and reads assignments. On top of it stand
  the transaction mode of a session and the two read-only guards, one on the connection and one on the
  tab, which decide whether a text is sent at all.

  Below the ledger, an Oracle session speaks the thin protocol of \<^verbatim>\<open>crates/tns-thin\<close>: packets on a
  TCP stream, a cursor that reads fields across packets, codecs for the values of a row or a bind,
  and a pool of sessions. The third group of theories models this transport.

  Above everything stands the editor. Its text is a persistent balanced tree of chunks
  (\<^verbatim>\<open>src/ui/sql_editor/chunked_text.rs\<close>), shared between snapshots, and its undo history
  (\<^verbatim>\<open>src/ui/sql_editor/undo_history.rs\<close>) is a list of deltas over such snapshots. The fourth group of
  theories models both.

  Beside the editor stands the result grid. A click on a header sorts it (\<^verbatim>\<open>src/ui/grid_sort.rs\<close> and
  \<^verbatim>\<open>src/ui/result_table.rs\<close>); it is exported to files and files are imported into tables
  (\<^verbatim>\<open>src/ui/result_export.rs\<close>, \<^verbatim>\<open>src/ui/result_import.rs\<close>). The fifth group models the sort and the files.

  \<^bold>\<open>The theories of the ledger.\<close>

  \<^item> \<open>Prelude\<close>: the rewrite-rule collections, and four interfaces as locales: \<open>claim_join\<close> (a merge
    that never forgets a claim), \<open>order_blind_fold\<close> (a fold whose result does not depend on the order
    of what it folds), \<open>run_invariant\<close> and \<open>run_simulation\<close> (a run of steps keeps an invariant; two
    runs stay related). Every one is interpreted on definitions of the model.
  \<^item> \<open>Rust_Text\<close>: what the source uses of Rust's \<^verbatim>\<open>str\<close>, on byte lists.
  \<^item> \<open>Session_State\<close> (\<^verbatim>\<open>transaction.rs\<close> up to line 1160): the ledger itself. \<open>TransactionSessionState\<close>,
    \<open>SessionResidueState\<close>, \<open>SessionLockState\<close> and \<open>RetainedSessionState\<close> are the source's types with
    its field names; every method is a function whose name carries a prefix for its type
    (\<open>tss_\<close>, \<open>residue_\<close>, \<open>lock_\<close>, \<open>retained_\<close>). The conservative merge is a join, the server settles
    only what it can see, the remedy a refusal names is honest, and a clean label means that nothing
    has to be preserved.
  \<^item> \<open>Statement_Effects\<close>: what one statement, and one executor unit of several statements, leaves on
    the session (\<open>eff_then\<close>, \<open>for_unit\<close>). A unit's answer reads no order and is exact where it can be.
  \<^item> \<open>Statement_Transition\<close>: how the ledger moves when a statement has run. The answer for a unit
    over-approximates running its statements one by one, a failed statement lowers nothing, open
    work ends only by an ending, an invalid session stays invalid.
  \<^item> \<open>Txn_Control\<close>: transaction control read from a statement's words. The COMMIT and ROLLBACK reader
    accepts exactly the documented completion grammar, in both directions.
  \<^item> \<open>Statement_Reader\<close>: the two post-processors that turn a statement's text into its effects.
    Preflight and execution agree on what consumes a pending mode, control statements move the
    session as their outcome says, auto-commit lists are read in order, plain reads are not work,
    and one divergence (an executing \<^verbatim>\<open>ANALYZE\<close>). Its questions about the text are the record
    \<open>text_reader\<close>; \<open>sql_reader\<close> of \<open>Set_Reader\<close> is the record whose fields are the source's functions.
  \<^item> \<open>Batch_Effects\<close>: the ledger of a whole MySQL or MariaDB batch, a second implementation of the same
    rules as deltas on the state the batch started from. It refines, and covers, the
    statement-by-statement rules; released sessions leave nothing, committed work is not resurrected,
    a failed batch keeps prior claims (with one divergence), interrupted work stays resolvable.
  \<^item> \<open>Session_Policy\<close>: preflights, the decision after an interrupt, the pooled decision, and the
    applier of a decision on an Oracle session (locale \<open>decision_hooks\<close>).
  \<^item> \<open>Message_Policy\<close>: the classifiers of error messages, and the retry past a stray cancel.
  \<^item> \<open>Lock_Order\<close>: the lock-order tracker; its report is complete for what it observed, and sound for what
    happened: each reported pair was taken in both orders by scopes that were still open.
  \<^item> \<open>Spool_Session\<close>: a tab's client-side session and the table of spool files; no two tabs spool to
    one file, and a claim is refused exactly when another tab does.

  \<^bold>\<open>The theories of the text layer.\<close>

  \<^item> \<open>Sql_Scan\<close>: the index-based scanners of \<^verbatim>\<open>sql_classification.rs\<close> (comments, quotes, words at the top
    level and at any depth, parentheses, statement ends, the end of a PL/SQL block).
  \<^item> \<open>Sql_View\<close>: the view of a statement that its readers see (leading comments and labels gone,
    executable comments opened, a MariaDB \<^verbatim>\<open>SET STATEMENT\<close> wrapper taken off) and its analysis. The words
    of an analysis are words, whatever the text.
  \<^item> \<open>Sql_With\<close>: the scanner that finds the main query of a \<^verbatim>\<open>WITH\<close> statement.
  \<^item> \<open>Sql_Set\<close>: the assignments of a \<^verbatim>\<open>SET\<close> statement, their targets and scopes, and single lock calls.
  \<^item> \<open>Sql_Classify\<close>: the classifier. Its recursion through explains ends, since every unwrapping is
    shorter than its text.
  \<^item> \<open>Execution_Backend\<close>: \<^verbatim>\<open>src/db/query/execution_backend.rs\<close>, the normalization before a statement is sent,
    plain \<^verbatim>\<open>COMMIT\<close> and \<^verbatim>\<open>ROLLBACK\<close>, and the text questions of the MySQL executor.
  \<^item> \<open>Set_Reader\<close>: the readers of \<^verbatim>\<open>transaction.rs\<close>, which have their own comment stripper and splitter,
    and \<open>sql_reader\<close>.
  \<^item> \<open>Plain_Text\<close>: on texts without quotes, comments and parentheses the whole chain of the tokenizer is
    the reference \<open>word_runs\<close>, which passes over numbers; shared by the proofs about the statements the
    program writes itself. An explain that runs its statement, in every spelling of its backend, is classified
    as the statement it runs.
  \<^item> \<open>Transaction_Mode\<close>: isolation and access modes. What a MySQL session is told for a mode is read back
    as that mode, and a batch ends with the changes it read, those left out that give a mode its backend cannot
    state (\<open>selectable_mode\<close> lists them). One divergence: a
    leading user variable hides a change of the SQL mode.
  \<^item> \<open>Read_Only_Statements\<close>: the statements that read data or only move the session, by their first word and
    text (\<open>runs_on_read_only\<close>); the classifier gives the kinds that the guard admits to no other statement.
  \<^item> \<open>Read_Only_Guard\<close>: the guards of a read-only connection and of a read-only tab, as interpretations
    of the locale \<open>read_only_guard\<close>, and the gate of Explain Plan. Both guards ask every statement of a
    text and agree on what they share; what the connection's guard admits is, as the scanners read it, one of
    these statements. The last section has the texts that the scanners misread.

  \<^bold>\<open>The theories of the thin driver\<close> (\<^verbatim>\<open>session.rs\<close>, \<^verbatim>\<open>lib.rs\<close>, \<^verbatim>\<open>pool.rs\<close> and \<^verbatim>\<open>oracle_zones.rs\<close> of
  \<^verbatim>\<open>crates/tns-thin/src\<close>).

  \<^item> \<open>Thin_Bytes\<close>: bytes, big-endian integers, number formatting, and the error value with its codes.
  \<^item> \<open>Thin_Net\<close>: TNS packets on a byte stream that may deliver part of a packet and then fail or time
    out: reading with the progress counted, control packets, the marker and reset exchange that ends a
    cancelled call, and writing.
  \<^item> \<open>Thin_Wire\<close>: \<^verbatim>\<open>PacketCursor\<close>. A cursor reads from a slice or fetches packets as it needs them.
    \<open>unread\<close> abstracts it to the bytes still to come; \<open>reads\<close> is the refinement of a cursor operation
    to a function on byte lists, and the locale \<open>cursor_reader\<close> collects what follows from it.
  \<^item> \<open>Thin_Codec\<close>: every reader interprets \<open>cursor_reader\<close>, so that packet boundaries are invisible; what
    the writers wrote and framed is what the readers read; lengths are checked against the width.
  \<^item> \<open>Thin_Calendar\<close>, \<open>Thin_Zones\<close>, \<open>Thin_Datetime\<close>: dates, zone files and zoned time stamps. The
    day-by-day loops agree with the closed formula of Unix time, and date binds round-trip (with one
    divergence, regions whose identifier is a multiple of 64).
  \<^item> \<open>Thin_Number\<close>: \<^verbatim>\<open>NUMBER\<close> in base 100. Accepted binds denote the same rational number as their
    text, decode to a text of that number, and have at most 21 bytes (with one divergence, a text of
    more than 65,536 digits).
  \<^item> \<open>Thin_Values\<close>: hex, rowids, base64, intervals, binary floats as bit patterns, unsigned integers.
  \<^item> \<open>Thin_Pool\<close>: the session pool as a transition system of threads. It never opens more sessions
    than its maximum, hands no session to two threads, and leaks no slot.

  \<^bold>\<open>The theories of the editor's text.\<close>

  \<^item> \<open>Utf8_Text\<close>: character boundaries and valid UTF-8, on byte lists.
  \<^item> \<open>Seq_Tree\<close>: the balanced tree under every sequence of the editor, over the interface of its leaves
    (the trait \<^verbatim>\<open>SequenceLeaf\<close>, locales \<open>sequence_leaf\<close> and \<open>counted_leaf\<close>). Joining, splitting and
    replacing keep it balanced and are the operations on the concatenation of its leaves.
  \<^item> \<open>Chunked_Text\<close>: chunks of shared storage and the text made of them. It is its string under every
    sequence of edits; on texts without carriage returns its line queries are those of the string. One
    divergence: a line break cut between its carriage return and its line feed is no longer counted.
  \<^item> \<open>Chunked_Values\<close>: sequences of values and of runs of equal values; the runs of an edited sequence are
    always the shortest ones.
  \<^item> \<open>Undo_History\<close>, \<open>Undo_Laws\<close>, \<open>Undo_Editor\<close>: the history of an editor, its invariant, and the editor as a
    state machine whose edits go through the callback of the buffer (\<open>buffer_modified\<close>, of
    \<^verbatim>\<open>intellisense_host.rs\<close>). Undo and redo send the buffer one edit computed from two texts; it always gives the
    buffer the text of the history, and the callback does not record it. Redo undoes undo, both leave the
    history recording, and undo takes back a formatting and a completion.

  \<^bold>\<open>The theories of the result grid.\<close>

  \<^item> \<open>Grid_Sort\<close>: the comparison of two cells by the kind of their column and the header sort. Numbers of any
    length are ordered by their value; where the comparison is an order on the cells of a column, the sort is
    the stable sort by it, with and without an edit session. Two divergences: a fraction of a second cut inside a character, and a column of
    dates that are not all readable, on which the comparison is no order.
  \<^item> \<open>Result_Files\<close>: the delimited files and the JSON writer. A file that the app exports is imported as the
    grid it was written from, NULLs and values that spell them apart; repeated names are made unique.
  \<^item> \<open>Markdown_Tables\<close>: the Markdown table. It is read back up to the white space around its cells.

  \<^bold>\<open>How state and code correspond.\<close> A Rust \<^verbatim>\<open>struct\<close> is a record, an \<^verbatim>\<open>enum\<close> a datatype, a method that
  takes \<^verbatim>\<open>&mut self\<close> a function that returns the updated record, \<^verbatim>\<open>Result<(), String>\<close> the sum
  \<open>string + unit\<close>; in the driver \<^verbatim>\<open>Result<T, OracleThinError>\<close> on a stream or cursor is
  \<open>thin_error + 'a \<times> 's\<close>, chained by \<open>and_then\<close>. Long functions of the source are split where it has groups of
  statements (\<open>apply_residue\<close>, \<open>apply_table_lock\<close> and so on), and the group functions are composed in its
  order. A batch, the lock tracker and the process that owns the spool table are run over lists of
  events with \<open>foldl\<close>, and the pool by a step relation, so that theorems about them quantify over every
  interleaving of their operations. Integers that may wrap are words (\<open>16 word\<close> for the decimal point
  of a number, \<open>64 word\<close> for universal integers), the others natural numbers or integers. All loops are
  total functions with a termination proof, those on a stream by the bytes left to arrive; there is
  no fuel.

  \<^bold>\<open>The parameters.\<close> The theorems about the ledger hold for every \<open>text_reader\<close>; where one needs a law
  of the reader it is a hypothesis of the theorem and its witness instantiates it. \<open>char_tables\<close> are the
  Unicode tables of Rust's \<^verbatim>\<open>char\<close> beyond ASCII (white space, alphanumerics, upper case), of which no
  theorem assumes anything; \<open>ascii_tables\<close> is the instance of the witnesses. A \<open>splitter\<close> is the script
  splitter, which cuts a text into statements and tool commands: theorems about guards and batches hold
  for every splitter. The argument \<open>same\<close> of the editor's operations is the comparison of two shared
  allocations by their address, of which one law is assumed (locale \<open>text_storage\<close>): equal addresses have
  equal contents. Server probes, health checks, database calls, the bytes a peer sends and the
  contents of zone files are arguments.

  \<^bold>\<open>Not modelled.\<close> The user interface, the executors, the formatter, completion (its insertion apart) and the script splitter;
  of the driver, login and cryptography, the messages of a call, LOBs, JSON and vectors. The
  parts that are left divide in two. The worker and the cleanup guard of \<^verbatim>\<open>execution.rs\<close>, the
  connection manager and the messages of the wire protocol interleave their decisions with calls of a driver or of
  a server; what they decide by (ledger, policy, guards, codecs) is modelled, and their effects are arguments of
  those definitions. The script splitter of \<^verbatim>\<open>src/db/query/script.rs\<close>, completion, formatter and
  highlighting are pure, but rest on one parser engine of many thousand lines; a faithful model of it is a development
  of its own, and would instantiate \<open>splitter\<close>. Of the result grid, the widget, the XML, HTML, SQL and
  Parquet files are left out.
\<close>

end
